(* ===== verification/Prelude.thy ===== *)
theory Prelude
  imports Main "HOL-Library.Sublist" "HOL-Library.Multiset" "HOL-Library.Code_Target_Nat"
begin

text \<open>
  Shared vocabulary of the development: code-unit strings, insertion-ordered sets, the
  collections of simplification rules the components extend, and the generic list lemmas
  their proofs use.
\<close>

named_theorems js_eval \<open>unfoldings that evaluate a closed JavaScript-level term\<close>
named_theorems inv_defs \<open>definitions of the components' invariants\<close>

section \<open>Strings\<close>

text \<open>
  A JavaScript string is a sequence of UTF-16 code units; a unit is a natural number (below
  65536 for every string a program can hold). \<open>js\<close> turns an ASCII literal of the source
  into its code units.
\<close>

type_synonym cunit = nat
type_synonym jstr = "cunit list"

definition js :: "string \<Rightarrow> jstr" where
  "js s = map of_char s"

lemma js_Nil [simp, js_eval]: "js [] = []"
  by (simp add: js_def)

lemma js_Cons [js_eval]: "js (c # cs) = of_char c # js cs"
  by (simp add: js_def)

lemma js_append: "js (a @ b) = js a @ js b"
  by (simp add: js_def)

lemma js_eq_iff [simp]: "js a = js b \<longleftrightarrow> a = b"
proof -
  have "inj (of_char :: char \<Rightarrow> nat)" by (simp add: inj_def)
  then show ?thesis unfolding js_def by (rule inj_map_eq_map)
qed

lemma js_eq_Nil_iff [simp]: "js a = [] \<longleftrightarrow> a = []" "[] = js a \<longleftrightarrow> a = []"
  by (auto simp: js_def)

lemma length_js [simp]: "length (js a) = length a"
  by (simp add: js_def)

text \<open>Code units that a JavaScript program can hold.\<close>

definition units_ok :: "jstr \<Rightarrow> bool" where
  "units_ok s \<longleftrightarrow> list_all (\<lambda>c. c < 65536) s"

lemma units_ok_Nil [simp]: "units_ok []"
  and units_ok_Cons [simp]: "units_ok (c # s) \<longleftrightarrow> c < 65536 \<and> units_ok s"
  and units_ok_append [simp]: "units_ok (a @ b) \<longleftrightarrow> units_ok a \<and> units_ok b"
  by (auto simp: units_ok_def)

lemma units_ok_js: "units_ok (js s)"
proof (induction s)
  case (Cons c s)
  have "(of_char c :: nat) = of_char c mod 256" by simp
  also have "\<dots> < 65536" by (rule less_trans [OF mod_less_divisor]) auto
  finally show ?case using Cons by (simp add: js_Cons)
qed simp

section \<open>Insertion-ordered sets\<close>

text \<open>
  A JavaScript \<open>Set\<close> enumerates its elements in the order they were first added, so a set
  is its distinct list of elements; \<open>Array.from(new Set(xs))\<close> is \<open>from_set xs\<close>.
\<close>

definition set_add :: "'a list \<Rightarrow> 'a \<Rightarrow> 'a list" where
  "set_add s x = (if x \<in> set s then s else s @ [x])"

definition from_set :: "'a list \<Rightarrow> 'a list" where
  "from_set xs = foldl set_add [] xs"

lemma set_set_add [simp]: "set (set_add s x) = insert x (set s)"
  by (auto simp: set_add_def)

lemma distinct_set_add [simp]: "distinct (set_add s x) \<longleftrightarrow> distinct s"
  by (auto simp: set_add_def)

lemma set_foldl_set_add [simp]: "set (foldl set_add s xs) = set s \<union> set xs"
  by (induction xs arbitrary: s) auto

lemma distinct_foldl_set_add [simp]: "distinct (foldl set_add s xs) \<longleftrightarrow> distinct s"
  by (induction xs arbitrary: s) auto

lemma foldl_set_add_distinct:
  "distinct xs \<Longrightarrow> set s \<inter> set xs = {} \<Longrightarrow> foldl set_add s xs = s @ xs"
  by (induction xs arbitrary: s) (auto simp: set_add_def)

lemma set_from_set [simp]: "set (from_set xs) = set xs"
  by (simp add: from_set_def)

lemma distinct_from_set [simp]: "distinct (from_set xs)"
  by (simp add: from_set_def)

lemma from_set_distinct [simp]: "distinct xs \<Longrightarrow> from_set xs = xs"
  by (simp add: from_set_def foldl_set_add_distinct)

lemma from_set_Nil [simp]: "from_set [] = []"
  by (simp add: from_set_def)

lemma from_set_eq_Nil_iff [simp]: "from_set xs = [] \<longleftrightarrow> xs = []"
  by (metis set_empty set_from_set)

lemma length_foldl_set_add_le: "length (foldl set_add s xs) \<le> length s + length xs"
  by (induction xs arbitrary: s) (fastforce simp: set_add_def intro: order_trans)+

lemma length_from_set_le: "length (from_set xs) \<le> length xs"
  using length_foldl_set_add_le [of "[]" xs] by (simp add: from_set_def)

lemma filter_set_add: "filter P (set_add s x) = (if P x then set_add (filter P s) x else filter P s)"
  by (auto simp: set_add_def)

lemma filter_foldl_set_add:
  "filter P (foldl set_add s xs) = foldl set_add (filter P s) (filter P xs)"
  by (induction xs arbitrary: s) (auto simp: filter_set_add)

lemma filter_from_set: "filter P (from_set xs) = from_set (filter P xs)"
  by (simp add: from_set_def filter_foldl_set_add)

text \<open>The order is that of the first occurrences: \<open>from_set\<close> keeps a subsequence.\<close>

lemma subseq_foldl_set_add: "\<exists>zs. subseq zs xs \<and> foldl set_add s xs = s @ zs"
proof (induction xs arbitrary: s)
  case Nil
  then show ?case by simp
next
  case (Cons x xs)
  obtain zs where zs: "subseq zs xs" "foldl set_add (set_add s x) xs = set_add s x @ zs"
    using Cons.IH [of "set_add s x"] by blast
  show ?case
  proof (cases "x \<in> set s")
    case True
    then have "set_add s x = s" by (simp add: set_add_def)
    with zs show ?thesis by auto
  next
    case False
    with zs have "foldl set_add s (x # xs) = s @ (x # zs)" by (simp add: set_add_def)
    moreover from zs have "subseq (x # zs) (x # xs)" by simp
    ultimately show ?thesis by blast
  qed
qed

lemma subseq_from_set: "subseq (from_set xs) xs"
  using subseq_foldl_set_add [of xs "[]"] by (auto simp: from_set_def)

section \<open>Finding an element\<close>

text \<open>\<open>xs.find(p)\<close>: the first element that satisfies \<open>p\<close>, \<open>None\<close> for \<open>undefined\<close>
  (\<open>List.find\<close> of the library).\<close>

lemma find_Some_in: "List.find P xs = Some x \<Longrightarrow> x \<in> set xs \<and> P x"
  by (induction xs) (auto split: if_splits)

lemma find_None: "List.find P xs = None \<longleftrightarrow> (\<forall>x\<in>set xs. \<not> P x)"
  by (induction xs) auto

lemma set_map_filter: "set (List.map_filter f xs) = {y. \<exists>x\<in>set xs. f x = Some y}"
  by (force simp: map_filter_def)

lemma map_filter_Nil [simp]: "List.map_filter f [] = []"
  by (simp add: map_filter_def)

lemma map_filter_id: "(\<And>x. x \<in> set xs \<Longrightarrow> f (g x) = Some x) \<Longrightarrow> List.map_filter f (map g xs) = xs"
  by (induction xs) (auto simp: map_filter_def)

section \<open>Truthiness of optional values\<close>

text \<open>
  \<open>truthy f o\<close>: an optional value counts as true when it is present and \<open>f\<close> says its
  value is truthy; \<open>or_str o d\<close> is \<open>o || d\<close> on optional strings.
\<close>

definition truthy_str :: "jstr option \<Rightarrow> bool" where
  "truthy_str o1 = (case o1 of None \<Rightarrow> False | Some s \<Rightarrow> s \<noteq> [])"

definition or_str :: "jstr option \<Rightarrow> jstr option \<Rightarrow> jstr option" where
  "or_str a b = (if truthy_str a then a else b)"

definition or_else :: "jstr option \<Rightarrow> jstr \<Rightarrow> jstr" where
  "or_else a d = (case a of None \<Rightarrow> d | Some s \<Rightarrow> if s = [] then d else s)"

lemma truthy_str_simps [simp]:
  "truthy_str None = False" "truthy_str (Some s) = (s \<noteq> [])"
  by (simp_all add: truthy_str_def)

lemma or_else_simps [simp]:
  "or_else None d = d" "or_else (Some s) d = (if s = [] then d else s)"
  by (simp_all add: or_else_def)

end
