(* ===== verification/JsString.thy ===== *)
theory JsString
  imports Prelude
begin

text \<open>
  The string operations of the language that the modelled sources call: \<open>trim\<close>,
  \<open>indexOf\<close>, \<open>includes\<close>, \<open>split\<close>, \<open>join\<close>, \<open>slice\<close>, over code units.
\<close>

section \<open>White space and trimming\<close>

text \<open>The code units that \<open>String.prototype.trim\<close> and \<open>\s\<close> call white space.\<close>

definition is_ws :: "cunit \<Rightarrow> bool" where
  "is_ws c \<longleftrightarrow> (9 \<le> c \<and> c \<le> 13) \<or> c = 32 \<or> c = 160 \<or> c = 5760 \<or>
     (8192 \<le> c \<and> c \<le> 8202) \<or> c = 8232 \<or> c = 8233 \<or> c = 8239 \<or> c = 8287 \<or>
     c = 12288 \<or> c = 65279"

definition trimStart :: "jstr \<Rightarrow> jstr" where
  "trimStart s = dropWhile is_ws s"

definition trimEnd :: "jstr \<Rightarrow> jstr" where
  "trimEnd s = rev (dropWhile is_ws (rev s))"

definition trim :: "jstr \<Rightarrow> jstr" where
  "trim s = trimEnd (trimStart s)"

lemma trimEnd_append_ws: "list_all is_ws w \<Longrightarrow> trimEnd (s @ w) = trimEnd s"
  unfolding trimEnd_def by (induction w rule: rev_induct) auto

lemma trimStart_append_ws: "list_all is_ws w \<Longrightarrow> trimStart (w @ s) = trimStart s"
  unfolding trimStart_def by (induction w) auto

text \<open>A string is trimmed when it neither starts nor ends with white space.\<close>

definition trimmed :: "jstr \<Rightarrow> bool" where
  "trimmed s \<longleftrightarrow> s = [] \<or> \<not> is_ws (hd s) \<and> \<not> is_ws (last s)"

lemma trimEnd_split: "\<exists>w. s = trimEnd s @ w \<and> list_all is_ws w"
proof -
  have "s = rev (dropWhile is_ws (rev s)) @ rev (takeWhile is_ws (rev s))"
    by (metis rev_append rev_rev_ident takeWhile_dropWhile_id)
  moreover have "list_all is_ws (rev (takeWhile is_ws (rev s)))"
    by (auto simp: list_all_iff dest: set_takeWhileD)
  ultimately show ?thesis unfolding trimEnd_def by blast
qed

lemma trimStart_split: "\<exists>w. s = w @ trimStart s \<and> list_all is_ws w"
  unfolding trimStart_def
  by (metis list_all_iff set_takeWhileD takeWhile_dropWhile_id)

lemma hd_trimStart: "trimStart s \<noteq> [] \<Longrightarrow> \<not> is_ws (hd (trimStart s))"
  by (simp add: trimStart_def hd_dropWhile)

lemma last_trimEnd: "trimEnd s \<noteq> [] \<Longrightarrow> \<not> is_ws (last (trimEnd s))"
  by (simp add: trimEnd_def last_rev hd_dropWhile)

lemma trimmed_trim [simp]: "trimmed (trim s)"
proof (cases "trim s = []")
  case True
  then show ?thesis by (simp add: trimmed_def)
next
  case False
  then have ne: "trimEnd (trimStart s) \<noteq> []" by (simp add: trim_def)
  obtain w where w: "trimStart s = trimEnd (trimStart s) @ w"
    using trimEnd_split by blast
  with ne have "hd (trimEnd (trimStart s)) = hd (trimStart s)"
    by (metis hd_append2)
  moreover have "trimStart s \<noteq> []" using ne w by auto
  ultimately show ?thesis
    using hd_trimStart [of s] last_trimEnd [OF ne] ne by (simp add: trimmed_def trim_def)
qed

lemma trimStart_id: "s = [] \<or> \<not> is_ws (hd s) \<Longrightarrow> trimStart s = s"
  by (cases s) (auto simp: trimStart_def)

lemma trimEnd_id: "s = [] \<or> \<not> is_ws (last s) \<Longrightarrow> trimEnd s = s"
  by (cases s rule: rev_cases) (auto simp: trimEnd_def)

lemma trim_id [simp]: "trimmed s \<Longrightarrow> trim s = s"
  by (auto simp: trim_def trimmed_def trimStart_id trimEnd_id)

lemma trim_trim [simp]: "trim (trim s) = trim s"
  by simp

lemma trim_Nil [simp]: "trim [] = []"
  by (simp add: trim_def trimStart_def trimEnd_def)

lemma trim_eq_Nil_iff: "trim s = [] \<longleftrightarrow> list_all is_ws s"
  unfolding trim_def trimStart_def trimEnd_def
  by (auto simp: list_all_iff dropWhile_eq_Nil_conv dest: set_dropWhileD)
    (metis (full_types) dropWhile_eq_Nil_conv hd_dropWhile list.set_sel(1))

lemma set_trim_subset: "set (trim s) \<subseteq> set s"
  unfolding trim_def trimStart_def trimEnd_def by (fastforce dest!: set_dropWhileD)

lemma trim_infix: "\<exists>a b. s = a @ trim s @ b \<and> list_all is_ws a \<and> list_all is_ws b"
  by (metis append.assoc trim_def trimEnd_split trimStart_split)

lemma length_trim_le: "length (trim s) \<le> length s"
proof -
  obtain a b where "s = a @ trim s @ b" using trim_infix by blast
  then have "length s = length (a @ trim s @ b)" by simp
  then show ?thesis by simp
qed

section \<open>Searching\<close>

fun index_of :: "jstr \<Rightarrow> jstr \<Rightarrow> nat option" where
  "index_of pat [] = (if pat = [] then Some 0 else None)"
| "index_of pat (c # cs) =
     (if prefix pat (c # cs) then Some 0 else map_option Suc (index_of pat cs))"

text \<open>\<open>s.indexOf(pat, from)\<close>; \<open>None\<close> stands for -1.\<close>

definition index_from :: "jstr \<Rightarrow> jstr \<Rightarrow> nat \<Rightarrow> nat option" where
  "index_from pat s k = map_option (\<lambda>i. i + k) (index_of pat (drop k s))"

definition str_includes :: "jstr \<Rightarrow> jstr \<Rightarrow> bool" where
  "str_includes s pat \<longleftrightarrow> index_of pat s \<noteq> None"

text \<open>\<open>s.substring(a, b)\<close> with \<open>a \<le> b\<close>, and \<open>s.slice(a, b)\<close> for non-negative arguments.\<close>

definition substring :: "jstr \<Rightarrow> nat \<Rightarrow> nat \<Rightarrow> jstr" where
  "substring s a b = take (b - a) (drop a s)"

lemma index_of_Some:
  "index_of pat s = Some i \<Longrightarrow> s = take i s @ pat @ drop (i + length pat) s \<and> i + length pat \<le> length s"
proof (induction s arbitrary: i)
  case Nil
  then show ?case by (auto split: if_splits)
next
  case (Cons c cs)
  show ?case
  proof (cases "prefix pat (c # cs)")
    case True
    then obtain zs where zs: "c # cs = pat @ zs" by (auto simp: prefix_def)
    then have "Suc (length cs) = length pat + length zs" by (metis length_Cons length_append)
    moreover have "i = 0" using True Cons.prems by simp
    ultimately show ?thesis unfolding zs by simp
  next
    case False
    with Cons.prems obtain j where "index_of pat cs = Some j" "i = Suc j" by auto
    with Cons.IH [of j] show ?thesis by simp
  qed
qed

lemma index_of_bound: "index_of pat s = Some i \<Longrightarrow> i + length pat \<le> length s"
  by (simp add: index_of_Some)

lemma index_of_None_iff: "index_of pat s = None \<longleftrightarrow> \<not> sublist pat s"
  by (induction s) (auto simp: sublist_Cons_right)

lemma str_includes_iff: "str_includes s pat \<longleftrightarrow> sublist pat s"
  using index_of_None_iff by (auto simp: str_includes_def)

text \<open>The first occurrence is found behind a text in which the pattern does not start.\<close>

lemma index_of_skip:
  assumes "\<And>k. k < length a \<Longrightarrow> \<not> prefix pat (drop k (a @ pat @ b))"
  shows "index_of pat (a @ pat @ b) = Some (length a)"
  using assms
proof (induction a)
  case Nil
  have "prefix pat (pat @ b)" by simp
  then show ?case by (cases "pat @ b") auto
next
  case (Cons c a)
  have "\<not> prefix pat (drop 0 ((c # a) @ pat @ b))" using Cons.prems [of 0] by simp
  moreover have "index_of pat (a @ pat @ b) = Some (length a)"
  proof (rule Cons.IH)
    fix k assume "k < length a"
    then show "\<not> prefix pat (drop k (a @ pat @ b))" using Cons.prems [of "Suc k"] by simp
  qed
  ultimately show ?case by simp
qed

lemma index_of_skip_first:
  assumes "pat = p # ps" and "p \<notin> set a"
  shows "index_of pat (a @ pat @ b) = Some (length a)"
proof (rule index_of_skip)
  fix k assume k: "k < length a"
  then have "drop k (a @ pat @ b) = a ! k # drop (Suc k) a @ pat @ b"
    by (simp add: Cons_nth_drop_Suc)
  with assms k show "\<not> prefix pat (drop k (a @ pat @ b))" by auto
qed

text \<open>A pattern whose first unit does not occur again in it has no border, so it cannot start
  inside a text that does not contain it and reach over that text's end.\<close>

lemma index_of_unbordered:
  assumes pat: "pat = p # ps" and ps: "p \<notin> set ps" and a: "\<not> sublist pat a"
  shows "index_of pat (a @ pat @ b) = Some (length a)"
proof (rule index_of_skip)
  fix k assume k: "k < length a"
  show "\<not> prefix pat (drop k (a @ pat @ b))"
  proof
    assume "prefix pat (drop k (a @ pat @ b))"
    then obtain zs where "drop k a @ pat @ b = pat @ zs"
      using k by (auto simp: prefix_def)
    then obtain us where us: "drop k a = pat @ us \<or> drop k a @ us = pat \<and> pat @ b = us @ zs"
      unfolding append_eq_append_conv2 by blast
    then consider "drop k a = pat @ us" | "drop k a @ us = pat" "us \<noteq> []" "pat @ b = us @ zs"
      by (cases "us = []") auto
    then show False
    proof cases
      case 1
      then have "sublist pat (drop k a)" by simp
      then have "sublist pat a" by (meson sublist_drop sublist_order.order_trans)
      with a show False by simp
    next
      case 2
      have "hd us = p" using 2(2) arg_cong [OF 2(3), of hd] pat by simp
      moreover have "hd us \<in> set us" using 2(2) by simp
      moreover obtain x xs where "drop k a = x # xs" using k by (cases "drop k a") auto
      then have "set us \<subseteq> set ps" using 2(1) pat by auto
      ultimately have "p \<in> set ps" by blast
      with ps show False by simp
    qed
  qed
qed

lemma index_of_absent: "pat = p # ps \<Longrightarrow> p \<notin> set a \<Longrightarrow> index_of pat a = None"
  by (induction a) auto

section \<open>Splitting and joining\<close>

text \<open>
  \<open>s.split(sep)\<close> cuts at every occurrence of a non-empty separator, from the left;
  \<open>s.split('')\<close> gives the code units.
\<close>

function split_str :: "jstr \<Rightarrow> jstr \<Rightarrow> jstr list" where
  "split_str sep s =
     (if sep = [] then map (\<lambda>c. [c]) s
      else case index_of sep s of
             None \<Rightarrow> [s]
           | Some i \<Rightarrow> take i s # split_str sep (drop (i + length sep) s))"
  by pat_completeness auto
termination
  by (relation "measure (\<lambda>(sep, s). length s)") (auto dest!: index_of_bound simp: neq_Nil_conv)

declare split_str.simps [simp del]

fun join :: "jstr \<Rightarrow> jstr list \<Rightarrow> jstr" where
  "join sep [] = []"
| "join sep [x] = x"
| "join sep (x # y # ys) = x @ sep @ join sep (y # ys)"

lemma split_str_nonempty: "sep \<noteq> [] \<Longrightarrow> split_str sep s \<noteq> []"
  by (subst split_str.simps) (simp split: option.splits)

lemma join_Cons: "ys \<noteq> [] \<Longrightarrow> join sep (x # ys) = x @ sep @ join sep ys"
  by (cases ys) auto

theorem join_split: "sep \<noteq> [] \<Longrightarrow> join sep (split_str sep s) = s"
proof (induction sep s rule: split_str.induct)
  case (1 sep s)
  show ?case
  proof (cases "index_of sep s")
    case None
    with 1 show ?thesis by (simp add: split_str.simps [of sep s])
  next
    case (Some i)
    with "1.IH" [OF \<open>sep \<noteq> []\<close> Some \<open>sep \<noteq> []\<close>] index_of_Some [OF Some]
    show ?thesis
      by (simp add: split_str.simps [of sep s] join_Cons split_str_nonempty 1)
  qed
qed

text \<open>Splitting at a single code unit.\<close>

lemma index_of_single:
  "index_of [c] s = (if c \<in> set s then Some (length (takeWhile (\<lambda>x. x \<noteq> c) s)) else None)"
  by (induction s) auto

lemma split_char_Nil [simp]: "split_str [c] [] = [[]]"
  by (subst split_str.simps) simp

lemma split_char_Cons:
  "split_str [c] (x # xs) =
     (if x = c then [] # split_str [c] xs
      else case split_str [c] xs of [] \<Rightarrow> [[x]] | y # ys \<Rightarrow> (x # y) # ys)"
proof (cases "x = c")
  case True
  then show ?thesis by (subst split_str.simps) simp
next
  case False
  then show ?thesis
    by (subst split_str.simps, subst (2) split_str.simps) (auto simp: index_of_single)
qed

lemma split_char_absent: "c \<notin> set s \<Longrightarrow> split_str [c] s = [s]"
  by (subst split_str.simps) (simp add: index_of_single)

lemma split_char_no_sep: "p \<in> set (split_str [c] s) \<Longrightarrow> c \<notin> set p"
proof (induction s arbitrary: p)
  case Nil
  then show ?case by simp
next
  case (Cons x xs)
  then show ?case
    by (cases "split_str [c] xs") (auto simp: split_char_Cons split: if_splits)
qed

lemma split_char_append:
  "c \<notin> set a \<Longrightarrow> split_str [c] (a @ c # b) = a # split_str [c] b"
  by (induction a) (auto simp: split_char_Cons split: list.splits)

lemma split_join:
  assumes "xs \<noteq> []" and "\<And>x. x \<in> set xs \<Longrightarrow> c \<notin> set x"
  shows "split_str [c] (join [c] xs) = xs"
  using assms
proof (induction xs rule: list_nonempty_induct)
  case (single x)
  then show ?case by (simp add: split_char_absent)
next
  case (cons x xs)
  then show ?case by (simp add: join_Cons split_char_append)
qed

lemma set_split_char: "\<Union> (set ` set (split_str [c] s)) \<subseteq> set s"
proof (induction s)
  case Nil
  then show ?case by simp
next
  case (Cons x xs)
  then show ?case
    by (cases "split_str [c] xs") (auto simp: split_char_Cons)
qed

section \<open>Classes of code units\<close>

definition is_digit :: "cunit \<Rightarrow> bool" where
  "is_digit c \<longleftrightarrow> 48 \<le> c \<and> c \<le> 57"

definition is_word :: "cunit \<Rightarrow> bool" where
  "is_word c \<longleftrightarrow> is_digit c \<or> (65 \<le> c \<and> c \<le> 90) \<or> c = 95 \<or> (97 \<le> c \<and> c \<le> 122)"

lemma is_digit_not_ws: "is_digit c \<Longrightarrow> \<not> is_ws c"
  by (auto simp: is_digit_def is_ws_def)

section \<open>Case\<close>

text \<open>\<open>toUpperCase\<close> and \<open>toLowerCase\<close> as far as a comparison with ASCII letters can see; the
  few other letters whose case folds to ASCII (I, S, K) do not occur in the words compared.\<close>

definition upper_ascii :: "jstr \<Rightarrow> jstr" where
  "upper_ascii s = map (\<lambda>c. if 97 \<le> c \<and> c \<le> 122 then c - 32 else c) s"

definition lower_ascii :: "jstr \<Rightarrow> jstr" where
  "lower_ascii s = map (\<lambda>c. if 65 \<le> c \<and> c \<le> 90 then c + 32 else c) s"

end
