(* ===== verification/JsNumber.thy ===== *)
theory JsNumber
  imports JsString Complex_Main "HOL-Library.Log_Nat"
begin

text \<open>
  JavaScript numbers: the IEEE 754 binary64 values as exact rationals with the three
  special values, rounding of an exact rational to the nearest representable number, the
  numeric literal grammar of \<open>Number(s)\<close>, \<open>parseInt(s, 10)\<close>, and \<open>String(n)\<close>. The two
  zeros are one value here: no operation of the modelled sources tells them apart.
\<close>

datatype jnum = NaN | PosInf | NegInf | Fin rat

section \<open>Rounding to binary64\<close>

definition pow2 :: "int \<Rightarrow> rat" where
  "pow2 e = (if 0 \<le> e then 2 ^ nat e else 1 / 2 ^ nat (- e))"

text \<open>\<open>ilog2 x\<close> is the exponent of \<open>x > 0\<close>: \<open>pow2 (ilog2 x) \<le> x < pow2 (ilog2 x + 1)\<close>.\<close>

definition ilog2 :: "rat \<Rightarrow> int" where
  "ilog2 x = (let (a, b) = quotient_of x; e = bitlen a - bitlen b
              in if pow2 e \<le> x then e else e - 1)"

definition round_even :: "rat \<Rightarrow> int" where
  "round_even x = (let f = floor x; d = x - of_int f
                   in if d < 1 / 2 then f else if d > 1 / 2 then f + 1
                      else if even f then f else f + 1)"

definition round64 :: "rat \<Rightarrow> jnum" where
  "round64 x =
     (if x = 0 then Fin 0
      else let u = pow2 (max (ilog2 \<bar>x\<bar>) (-1022) - 52);
               y = of_int (round_even (\<bar>x\<bar> / u)) * u
           in if 2 ^ 1024 \<le> y then (if x < 0 then NegInf else PosInf)
              else Fin (if x < 0 then - y else y))"

lemma pow2_pos: "0 < pow2 e"
  by (simp add: pow2_def)

lemma pow2_nat [simp]: "pow2 (int n) = 2 ^ n"
  by (simp add: pow2_def)

lemma pow2_Suc: "pow2 (e + 1) = 2 * pow2 e"
proof (cases "0 \<le> e")
  case True
  then show ?thesis by (simp add: pow2_def nat_add_distrib)
next
  case False
  then have "nat (- e) = Suc (nat (- (e + 1)))" by auto
  with False show ?thesis by (auto simp: pow2_def)
qed

lemma pow2_add_nat: "pow2 (e + int n) = pow2 e * 2 ^ n"
  by (induction n) (simp_all add: pow2_Suc flip: add.assoc add: add.commute [of 1])

lemma pow2_mono: "e \<le> f \<Longrightarrow> pow2 e \<le> pow2 f"
  using pow2_add_nat [of e "nat (f - e)"] pow2_pos [of e] by (simp add: mult_le_cancel_left1)

lemma bitlen_bounds_int:
  assumes "0 < (a::int)"
  shows "2 ^ nat (bitlen a - 1) \<le> a \<and> a < 2 ^ nat (bitlen a)"
  using bitlen_bounds [OF assms] by simp

text \<open>The rounding unit of a number below \<open>2 ^ 53\<close> in absolute value divides the integers.\<close>

lemma ilog2_le_of_less:
  assumes "0 < x" and "x < 2 ^ n"
  shows "ilog2 x \<le> int n - 1 \<or> pow2 (ilog2 x) > x"
proof (cases "pow2 (ilog2 x) \<le> x")
  case True
  have "\<not> int n \<le> ilog2 x"
  proof
    assume "int n \<le> ilog2 x"
    then have "pow2 (int n) \<le> pow2 (ilog2 x)" by (rule pow2_mono)
    with True assms show False by simp
  qed
  then show ?thesis by simp
qed simp

lemma ilog2_lower:
  assumes "0 < x"
  shows "pow2 (ilog2 x) \<le> x"
proof -
  obtain a b where ab: "quotient_of x = (a, b)" by fastforce
  have b: "0 < b" using quotient_of_denom_pos [OF ab] .
  have x: "x = of_int a / of_int b" using quotient_of_div [OF ab] .
  have a: "0 < a" using assms b by (simp add: x zero_less_divide_iff)
  let ?e = "bitlen a - bitlen b"
  have "pow2 (?e - 1) \<le> x"
  proof -
    have la: "(2::int) ^ nat (bitlen a - 1) \<le> a" and lb: "b < 2 ^ nat (bitlen b)"
      using bitlen_bounds_int [OF a] bitlen_bounds_int [OF b] by auto
    have pa: "1 \<le> bitlen a" and pb: "1 \<le> bitlen b"
      using a b bitlen_eq_zero_iff [of a] bitlen_eq_zero_iff [of b] bitlen_nonneg [of a] bitlen_nonneg [of b] by auto
    have "pow2 (?e - 1) * 2 ^ nat (bitlen b) = pow2 (bitlen a - 1)"
      using pow2_add_nat [of "?e - 1" "nat (bitlen b)"] pb by simp
    also have "\<dots> = 2 ^ nat (bitlen a - 1)" using pa by (simp add: pow2_def)
    also have "\<dots> \<le> (of_int a :: rat)"
    proof -
      have "(of_int (2 ^ nat (bitlen a - 1)) :: rat) \<le> of_int a" using la by (simp only: of_int_le_iff)
      then show ?thesis by simp
    qed
    finally have 1: "pow2 (?e - 1) * 2 ^ nat (bitlen b) \<le> of_int a" .
    have "(of_int b :: rat) \<le> of_int (2 ^ nat (bitlen b))"
      using lb by (simp only: of_int_le_iff)
    then have "pow2 (?e - 1) * of_int b \<le> pow2 (?e - 1) * 2 ^ nat (bitlen b)"
      using pow2_pos [of "?e - 1"] by simp
    with 1 have "pow2 (?e - 1) * of_int b \<le> of_int a" by linarith
    then show ?thesis using b by (simp add: x le_divide_eq)
  qed
  then show ?thesis by (simp add: ilog2_def ab Let_def)
qed

lemma round_even_of_int [simp]: "round_even (of_int n) = n"
  by (simp add: round_even_def)

text \<open>Every integer up to \<open>2 ^ 53\<close> in absolute value is a number: rounding leaves it alone.\<close>

lemma round64_unit_dvd:
  assumes "0 < n" and "n < 2 ^ 53"
  shows "of_int (round_even (of_int n / pow2 (max (ilog2 (of_int n)) (-1022) - 52)))
           * pow2 (max (ilog2 (of_int n)) (-1022) - 52) = of_int n"
proof -
  let ?x = "of_int n :: rat"
  let ?u = "max (ilog2 ?x) (-1022) - 52"
  have "?x < 2 ^ 53"
  proof -
    have "(of_int n :: rat) < of_int (2 ^ 53)" using assms(2) by (simp only: of_int_less_iff)
    then show ?thesis by simp
  qed
  moreover have "0 < ?x" using assms(1) by simp
  ultimately have "ilog2 ?x \<le> 52"
    using ilog2_le_of_less [of ?x 53] ilog2_lower [of ?x] by fastforce
  then have "?u \<le> 0" by simp
  then have "pow2 ?u = 1 / 2 ^ nat (- ?u)" by (auto simp: pow2_def)
  then have "?x / pow2 ?u = of_int (n * 2 ^ nat (- ?u))" by simp
  then have "round_even (?x / pow2 ?u) = n * 2 ^ nat (- ?u)" by (simp only: round_even_of_int)
  then show ?thesis using \<open>pow2 ?u = 1 / 2 ^ nat (- ?u)\<close> by simp
qed

theorem round64_int:
  assumes "\<bar>n\<bar> < 2 ^ 53"
  shows "round64 (of_int n) = Fin (of_int n)"
proof (cases "n = 0")
  case True
  then show ?thesis by (simp add: round64_def)
next
  case False
  then have pos: "0 < \<bar>n\<bar>" by simp
  have eq: "\<bar>of_int n :: rat\<bar> = of_int \<bar>n\<bar>" by simp
  have small: "\<not> (2 ^ 1024 \<le> (of_int \<bar>n\<bar> :: rat))"
  proof
    assume "2 ^ 1024 \<le> (of_int \<bar>n\<bar> :: rat)"
    then have "of_int (2 ^ 1024) \<le> (of_int \<bar>n\<bar> :: rat)" by simp
    then have "(2::int) ^ 1024 \<le> \<bar>n\<bar>" by (simp only: of_int_le_iff)
    moreover have "(2::int) ^ 53 \<le> 2 ^ 1024" by (rule power_increasing) auto
    ultimately show False using assms by linarith
  qed
  have "round64 (of_int n) = Fin (if (of_int n :: rat) < 0 then - of_int \<bar>n\<bar> else of_int \<bar>n\<bar>)"
    unfolding round64_def Let_def eq round64_unit_dvd [OF pos assms] using False small by simp
  then show ?thesis by (auto split: if_splits)
qed

text \<open>For evaluation: integers below \<open>2 ^ 53\<close> need no rounding, and the bound of the largest
  number is a numeral.\<close>

lemma pow2_code [code]:
  "pow2 e = (if 0 \<le> e then of_int (push_bit (nat e) 1) else 1 / of_int (push_bit (nat (- e)) 1))"
  by (simp add: pow2_def push_bit_eq_mult)

lemma round64_code [code]:
  "round64 x =
     (if x = of_int (floor x) \<and> \<bar>floor x\<bar> < 9007199254740992 then Fin x
      else let u = pow2 (max (ilog2 \<bar>x\<bar>) (-1022) - 52);
               y = of_int (round_even (\<bar>x\<bar> / u)) * u
           in if of_int (push_bit 1024 1) \<le> y then (if x < 0 then NegInf else PosInf)
              else Fin (if x < 0 then - y else y))"
proof (cases "x = of_int (floor x) \<and> \<bar>floor x\<bar> < 9007199254740992")
  case True
  then have "\<bar>floor x\<bar> < 2 ^ 53" by simp
  from round64_int [OF this] True show ?thesis by metis
next
  case False
  then have "x \<noteq> 0" by auto
  moreover have "(of_int (push_bit 1024 1) :: rat) = 2 ^ 1024" by (simp add: push_bit_eq_mult)
  ultimately show ?thesis unfolding round64_def if_not_P [OF False] by (simp only: if_False)
qed

section \<open>Comparison and arithmetic\<close>

fun num_lt :: "jnum \<Rightarrow> jnum \<Rightarrow> bool" where
  "num_lt (Fin a) (Fin b) = (a < b)"
| "num_lt NegInf (Fin _) = True"
| "num_lt NegInf PosInf = True"
| "num_lt (Fin _) PosInf = True"
| "num_lt _ _ = False"

text \<open>\<open>===\<close> on numbers: \<open>NaN\<close> differs from itself.\<close>

definition num_eq :: "jnum \<Rightarrow> jnum \<Rightarrow> bool" where
  "num_eq a b \<longleftrightarrow> a \<noteq> NaN \<and> a = b"

definition num_le :: "jnum \<Rightarrow> jnum \<Rightarrow> bool" where
  "num_le a b \<longleftrightarrow> num_lt a b \<or> num_eq a b"

definition num_of_int :: "int \<Rightarrow> jnum" where
  "num_of_int n = Fin (of_int n)"

definition isInteger :: "jnum \<Rightarrow> bool" where
  "isInteger x = (case x of Fin q \<Rightarrow> of_int (floor q) = q | _ \<Rightarrow> False)"

definition isFinite :: "jnum \<Rightarrow> bool" where
  "isFinite x = (case x of Fin _ \<Rightarrow> True | _ \<Rightarrow> False)"

text \<open>A number is falsy when it is zero or \<open>NaN\<close>.\<close>

definition truthy_num :: "jnum \<Rightarrow> bool" where
  "truthy_num x \<longleftrightarrow> x \<noteq> NaN \<and> x \<noteq> Fin 0"

lemma num_le_Fin [simp]: "num_le (Fin a) (Fin b) \<longleftrightarrow> a \<le> b"
  by (auto simp: num_le_def num_eq_def)

section \<open>Decimal digits\<close>

definition digit_val :: "cunit \<Rightarrow> nat" where
  "digit_val c = c - 48"

definition dec_val :: "jstr \<Rightarrow> nat" where
  "dec_val s = foldl (\<lambda>a c. 10 * a + digit_val c) 0 s"

fun nat_str :: "nat \<Rightarrow> jstr" where
  "nat_str n = (if n < 10 then [48 + n] else nat_str (n div 10) @ [48 + n mod 10])"

declare nat_str.simps [simp del]

definition int_str :: "int \<Rightarrow> jstr" where
  "int_str n = (if n < 0 then 45 # nat_str (nat (- n)) else nat_str (nat n))"

lemma nat_str_digits: "list_all is_digit (nat_str n)"
proof (induction n rule: nat_str.induct)
  case (1 n)
  have "is_digit (48 + n mod 10)" by (simp add: is_digit_def)
  moreover have "n < 10 \<Longrightarrow> is_digit (48 + n)" by (simp add: is_digit_def)
  ultimately show ?case using 1 by (subst nat_str.simps) auto
qed

lemma nat_str_nonempty [simp]: "nat_str n \<noteq> []"
  by (subst nat_str.simps) simp

lemma dec_val_snoc [simp]: "dec_val (s @ [c]) = 10 * dec_val s + digit_val c"
  by (simp add: dec_val_def)

lemma dec_val_Nil [simp]: "dec_val [] = 0"
  by (simp add: dec_val_def)

theorem dec_val_nat_str [simp]: "dec_val (nat_str n) = n"
proof (induction n rule: nat_str.induct)
  case (1 n)
  show ?case
  proof (cases "n < 10")
    case True
    then show ?thesis by (subst nat_str.simps) (simp add: dec_val_def digit_val_def)
  next
    case False
    with 1 have "dec_val (nat_str (n div 10)) = n div 10" by simp
    with False show ?thesis
      by (subst nat_str.simps) (simp add: digit_val_def)
  qed
qed

lemma nat_str_inj: "nat_str a = nat_str b \<longleftrightarrow> a = b"
  by (metis dec_val_nat_str)

text \<open>No leading zero, but for the number zero itself.\<close>

lemma nat_str_hd_zero: "nat_str n = 48 # s \<Longrightarrow> n = 0 \<and> s = []"
proof (induction n arbitrary: s rule: nat_str.induct)
  case (1 n)
  show ?case
  proof (cases "n < 10")
    case True
    then show ?thesis using 1(2) by (subst (asm) nat_str.simps) simp
  next
    case False
    obtain s' where s': "nat_str (n div 10) = 48 # s'"
      using False 1(2) by (cases "nat_str (n div 10)") (auto simp: nat_str.simps [of n])
    then have "n div 10 = 0" using 1(1) False by blast
    with False show ?thesis by simp
  qed
qed

section \<open>Reading numbers\<close>

definition pow10 :: "int \<Rightarrow> rat" where
  "pow10 e = (if 0 \<le> e then 10 ^ nat e else 1 / 10 ^ nat (- e))"

text \<open>The exponent part of a decimal literal, to the end of the text; none counts as 0.\<close>

fun exponent_part :: "jstr \<Rightarrow> int option" where
  "exponent_part [] = Some 0"
| "exponent_part (c # cs) =
     (if c = 101 \<or> c = 69 then
        (let (neg, ds) = (case cs of d # ds \<Rightarrow> if d = 45 then (True, ds)
                                       else if d = 43 then (False, ds) else (False, cs)
                          | [] \<Rightarrow> (False, cs))
         in if ds \<noteq> [] \<and> list_all is_digit ds
            then Some (if neg then - int (dec_val ds) else int (dec_val ds)) else None)
      else None)"

text \<open>An unsigned decimal literal: digits, an optional fraction, an optional exponent.\<close>

definition unsigned_decimal :: "jstr \<Rightarrow> rat option" where
  "unsigned_decimal s =
     (let ip = takeWhile is_digit s; r = dropWhile is_digit s;
          fp = (case r of c # r' \<Rightarrow> if c = 46 then takeWhile is_digit r' else [] | [] \<Rightarrow> []);
          r2 = (case r of c # r' \<Rightarrow> if c = 46 then dropWhile is_digit r' else r | [] \<Rightarrow> [])
      in if ip = [] \<and> fp = [] then None
         else map_option (\<lambda>e. of_nat (dec_val (ip @ fp)) * pow10 (e - int (length fp)))
                (exponent_part r2))"

fun radix_val :: "nat \<Rightarrow> nat \<Rightarrow> jstr \<Rightarrow> nat option" where
  "radix_val b acc [] = Some acc"
| "radix_val b acc (c # cs) =
     (let d = (if is_digit c then c - 48 else if 97 \<le> c \<and> c \<le> 122 then c - 87
               else if 65 \<le> c \<and> c \<le> 90 then c - 55 else 99)
      in if d < b then radix_val b (b * acc + d) cs else None)"

definition signed_decimal :: "jstr \<Rightarrow> jnum" where
  "signed_decimal t =
     (let neg = (t \<noteq> [] \<and> hd t = 45);
          u = (if t \<noteq> [] \<and> (hd t = 45 \<or> hd t = 43) then tl t else t)
      in if u = js ''Infinity'' then (if neg then NegInf else PosInf)
         else case unsigned_decimal u of
                None \<Rightarrow> NaN
              | Some q \<Rightarrow> round64 (if neg then - q else q))"

text \<open>\<open>Number(s)\<close> on a string.\<close>

definition to_number :: "jstr \<Rightarrow> jnum" where
  "to_number s =
     (let t = trim s in
      if t = [] then Fin 0
      else if length t > 2 \<and> hd t = 48 \<and> t ! 1 \<in> {120, 88, 111, 79, 98, 66} then
        (case radix_val (if t ! 1 \<in> {120, 88} then 16 else if t ! 1 \<in> {111, 79} then 8 else 2)
                0 (drop 2 t) of
           None \<Rightarrow> NaN | Some n \<Rightarrow> round64 (of_nat n))
      else signed_decimal t)"

text \<open>\<open>Number.parseInt(s, 10)\<close>: the longest digit prefix, \<open>NaN\<close> when there is none.\<close>

definition parseInt10 :: "jstr \<Rightarrow> jnum" where
  "parseInt10 s =
     (let t = trimStart s; neg = (t \<noteq> [] \<and> hd t = 45);
          u = (if t \<noteq> [] \<and> (hd t = 45 \<or> hd t = 43) then tl t else t);
          ds = takeWhile is_digit u
      in if ds = [] then NaN
         else round64 (if neg then - of_nat (dec_val ds) else of_nat (dec_val ds)))"

lemma list_all_digit_takeWhile: "list_all is_digit ds \<Longrightarrow> takeWhile is_digit ds = ds"
  by (simp add: list_all_iff)

lemma parseInt10_digits:
  assumes "ds \<noteq> []" and "list_all is_digit ds"
  shows "parseInt10 ds = round64 (of_nat (dec_val ds))"
proof -
  have hd: "is_digit (hd ds)" using assms by (cases ds) auto
  then have "trimStart ds = ds" by (simp add: trimStart_id is_digit_not_ws)
  moreover have "hd ds \<noteq> 45" "hd ds \<noteq> 43" using hd by (auto simp: is_digit_def)
  ultimately show ?thesis
    using assms by (simp add: parseInt10_def Let_def list_all_digit_takeWhile)
qed

section \<open>Printing numbers\<close>

text \<open>
  \<open>String(n)\<close>: the shortest decimal digits that read back as the number. \<open>shortest x\<close> is
  the pair of its digits and the position of its decimal point, for \<open>x > 0\<close>; at most 17
  digits are ever needed for a binary64 value, and at most 400 leading zeros are skipped.
\<close>

fun lead_zeros :: "nat \<Rightarrow> rat \<Rightarrow> nat" where
  "lead_zeros 0 x = 0"
| "lead_zeros (Suc f) x = (if 1 \<le> x then 0 else Suc (lead_zeros f (10 * x)))"

definition point_pos :: "rat \<Rightarrow> int" where
  "point_pos x = (if 1 \<le> x then int (length (nat_str (nat (floor x))))
                  else 1 - int (lead_zeros 400 x))"

fun shortest_from :: "rat \<Rightarrow> int \<Rightarrow> nat list \<Rightarrow> (int \<times> nat) option" where
  "shortest_from x n [] = None"
| "shortest_from x n (k # ks) =
     (let q = x / pow10 (n - int k) in
      case List.find (\<lambda>s. round64 (of_int s * pow10 (n - int k)) = Fin x)
             [round_even q, floor q, floor q + 1] of
        Some s \<Rightarrow> Some (s, k)
      | None \<Rightarrow> shortest_from x n ks)"

definition shortest :: "rat \<Rightarrow> jstr \<times> int" where
  "shortest x =
     (let n = point_pos x in
      case shortest_from x n [1..<18] of
        Some (s, k) \<Rightarrow>
          if s = 10 ^ k then ([49], n + 1) else (nat_str (nat s), n)
      | None \<Rightarrow> ([48], 1))"

definition pos_num_str :: "rat \<Rightarrow> jstr" where
  "pos_num_str x =
     (let (ds, n) = shortest x; k = int (length ds) in
      if k \<le> n \<and> n \<le> 21 then ds @ replicate (nat (n - k)) 48
      else if 0 < n \<and> n \<le> 21 then take (nat n) ds @ 46 # drop (nat n) ds
      else if -6 < n \<and> n \<le> 0 then [48, 46] @ replicate (nat (- n)) 48 @ ds
      else take 1 ds @ (if k = 1 then [] else 46 # drop 1 ds)
             @ 101 # (if 0 < n - 1 then 43 else 45) # nat_str (nat \<bar>n - 1\<bar>))"

fun num_str :: "jnum \<Rightarrow> jstr" where
  "num_str NaN = js ''NaN''"
| "num_str PosInf = js ''Infinity''"
| "num_str NegInf = js ''-Infinity''"
| "num_str (Fin q) =
     (if q = of_int (floor q) \<and> \<bar>q\<bar> < 2 ^ 53 then int_str (floor q)
      else if q < 0 then 45 # pos_num_str (- q) else pos_num_str q)"

lemma num_str_int:
  assumes "\<bar>n\<bar> < 2 ^ 53"
  shows "num_str (num_of_int n) = int_str n"
proof -
  have "(of_int \<bar>n\<bar> :: rat) < of_int (2 ^ 53)" using assms by (simp only: of_int_less_iff)
  then show ?thesis by (simp add: num_of_int_def)
qed

section \<open>Arithmetic\<close>

text \<open>
  The operations round the exact result. There is one zero: the sign of a zero, which only a
  division by it could show, is not represented, and dividing by zero takes it as positive.
\<close>

fun num_neg :: "jnum \<Rightarrow> jnum" where
  "num_neg NaN = NaN"
| "num_neg PosInf = NegInf"
| "num_neg NegInf = PosInf"
| "num_neg (Fin q) = Fin (- q)"

fun num_add :: "jnum \<Rightarrow> jnum \<Rightarrow> jnum" where
  "num_add NaN _ = NaN"
| "num_add _ NaN = NaN"
| "num_add PosInf NegInf = NaN"
| "num_add NegInf PosInf = NaN"
| "num_add PosInf _ = PosInf"
| "num_add _ PosInf = PosInf"
| "num_add NegInf _ = NegInf"
| "num_add _ NegInf = NegInf"
| "num_add (Fin a) (Fin b) = round64 (a + b)"

definition num_sub :: "jnum \<Rightarrow> jnum \<Rightarrow> jnum" where
  "num_sub a b = num_add a (num_neg b)"

definition inf_of_sign :: "bool \<Rightarrow> jnum" where
  "inf_of_sign neg = (if neg then NegInf else PosInf)"

fun num_negative :: "jnum \<Rightarrow> bool" where
  "num_negative NaN = False"
| "num_negative PosInf = False"
| "num_negative NegInf = True"
| "num_negative (Fin q) = (q < 0)"

definition num_mul :: "jnum \<Rightarrow> jnum \<Rightarrow> jnum" where
  "num_mul a b =
     (case (a, b) of
        (Fin p, Fin q) \<Rightarrow> round64 (p * q)
      | _ \<Rightarrow>
          if a = NaN \<or> b = NaN \<or> a = Fin 0 \<or> b = Fin 0 then NaN
          else inf_of_sign (num_negative a \<noteq> num_negative b))"

definition num_div :: "jnum \<Rightarrow> jnum \<Rightarrow> jnum" where
  "num_div a b =
     (case (a, b) of
        (Fin p, Fin q) \<Rightarrow>
          if q = 0 then (if p = 0 then NaN else inf_of_sign (p < 0)) else round64 (p / q)
      | (Fin p, NaN) \<Rightarrow> NaN
      | (Fin p, _) \<Rightarrow> Fin 0
      | (NaN, _) \<Rightarrow> NaN
      | (_, Fin q) \<Rightarrow> inf_of_sign (num_negative a \<noteq> (q < 0))
      | _ \<Rightarrow> NaN)"

text \<open>\<open>x.toFixed(d)\<close>: the nearest decimal with \<open>d\<close> fraction digits, the larger one of two at the
  same distance; numbers from \<open>10 ^ 21\<close> on print as \<open>String(x)\<close>.\<close>

definition fixed_digits :: "nat \<Rightarrow> nat \<Rightarrow> jstr" where
  "fixed_digits d n =
     (if d = 0 then nat_str n
      else let s = nat_str n;
               p = (if length s \<le> d then replicate (Suc d - length s) 48 @ s else s)
           in take (length p - d) p @ 46 # drop (length p - d) p)"

definition to_fixed :: "nat \<Rightarrow> jnum \<Rightarrow> jstr" where
  "to_fixed d x =
     (case x of
        Fin q \<Rightarrow>
          if 10 ^ 21 \<le> \<bar>q\<bar> then num_str x
          else (if q < 0 then [45] else []) @ fixed_digits d (nat (floor (\<bar>q\<bar> * 10 ^ d + 1 / 2)))
      | _ \<Rightarrow> num_str x)"

lemma num_add_int:
  assumes "\<bar>a\<bar> < 2 ^ 53" "\<bar>b\<bar> < 2 ^ 53" "\<bar>a + b\<bar> < 2 ^ 53"
  shows "num_add (num_of_int a) (num_of_int b) = num_of_int (a + b)"
  using round64_int [OF assms(3)] by (simp add: num_of_int_def)

lemma round_even_between: "of_int a \<le> x \<Longrightarrow> x \<le> of_int b \<Longrightarrow> a \<le> round_even x \<and> round_even x \<le> b"
proof -
  assume lo: "of_int a \<le> x" and hi: "x \<le> of_int b"
  have a: "a \<le> floor x" using lo by (simp add: le_floor_iff)
  have "floor x \<le> b" using hi by (metis floor_mono floor_of_int)
  moreover have "floor x + 1 \<le> b" if "0 < x - of_int (floor x)"
  proof -
    from that hi have "(of_int (floor x) :: rat) < of_int b" by linarith
    then show ?thesis by simp
  qed
  ultimately show ?thesis using a by (auto simp: round_even_def Let_def)
qed

text \<open>Rounding never crosses an integer below \<open>2 ^ 53\<close>.\<close>

lemma round64_between:
  assumes "0 \<le> lo" and "of_int lo \<le> x" and "x \<le> of_int hi" and "hi < 2 ^ 53"
  obtains y where "round64 x = Fin y" and "of_int lo \<le> y" and "y \<le> of_int hi"
proof (cases "x = 0")
  case True
  then show thesis using assms that [of 0] by (simp add: round64_def)
next
  case False
  have "0 \<le> x" using assms(1,2) by (meson of_int_0_le_iff order_trans)
  with False have pos: "0 < x" by simp
  let ?e = "max (ilog2 \<bar>x\<bar>) (-1022) - 52"
  have hi53: "(of_int hi :: rat) < 2 ^ 53"
  proof -
    have "(of_int hi :: rat) < of_int (2 ^ 53)" using assms(4) by (simp only: of_int_less_iff)
    then show ?thesis by simp
  qed
  with assms(3) have "x < 2 ^ 53" by linarith
  with pos have "ilog2 \<bar>x\<bar> \<le> 52"
    using ilog2_le_of_less [of x 53] ilog2_lower [of x] by fastforce
  then have "?e \<le> 0" by simp
  then have u: "pow2 ?e = 1 / 2 ^ nat (- ?e)" by (auto simp: pow2_def)
  let ?K = "nat (- ?e)"
  let ?r = "round_even (\<bar>x\<bar> / pow2 ?e)"
  have r: "\<bar>x\<bar> / pow2 ?e = x * 2 ^ ?K" using pos u by simp
  have "of_int (lo * 2 ^ ?K) \<le> x * 2 ^ ?K" "x * 2 ^ ?K \<le> of_int (hi * 2 ^ ?K)" using assms(2,3) by simp_all
  from round_even_between [OF this] have b: "lo * 2 ^ ?K \<le> ?r" "?r \<le> hi * 2 ^ ?K" unfolding r by simp_all
  have y: "of_int lo \<le> of_int ?r * pow2 ?e" "of_int ?r * pow2 ?e \<le> of_int hi"
  proof -
    have "(of_int (lo * 2 ^ ?K) :: rat) \<le> of_int ?r" "(of_int ?r :: rat) \<le> of_int (hi * 2 ^ ?K)"
      using b by (simp_all only: of_int_le_iff)
    then show "of_int lo \<le> of_int ?r * pow2 ?e" "of_int ?r * pow2 ?e \<le> of_int hi"
      unfolding u by (simp_all add: field_simps)
  qed
  have "(2 :: rat) ^ 53 < 2 ^ 1024" by (rule power_strict_increasing) simp_all
  with y(2) hi53 have "\<not> 2 ^ 1024 \<le> of_int ?r * pow2 ?e" by linarith
  then have "round64 x = Fin (of_int ?r * pow2 ?e)"
    using False pos unfolding round64_def Let_def by auto
  from that [OF this y] show thesis .
qed

end
