(* ===== verification/JsDecimal.thy ===== *)
theory JsDecimal
  imports JsNumber
begin

text \<open>
  The decimal texts of numbers: what \<open>String(n)\<close> prints has an integer part, a fraction and an
  exponent, and its value is that of the shortest digits, so a reader of decimals gets the
  number back whenever the digits found do (\<open>num_ok\<close>).
\<close>

section \<open>Powers of ten\<close>

lemma pow10_powi: "pow10 e = 10 powi e"
  by (simp add: pow10_def power_int_def inverse_eq_divide power_one_over)

lemma pow10_add: "pow10 (a + b) = pow10 a * pow10 b"
  by (simp add: pow10_powi power_int_add)

lemma pow10_nat: "pow10 (int n) = 10 ^ n"
  by (simp add: pow10_def)

lemma foldl_dec_val: "foldl (\<lambda>a c. 10 * a + digit_val c) n s = n * 10 ^ length s + dec_val s"
proof (induction s rule: rev_induct)
  case (snoc c s)
  then show ?case by (simp add: algebra_simps)
qed simp

lemma dec_val_append: "dec_val (a @ b) = dec_val a * 10 ^ length b + dec_val b"
  using foldl_dec_val [of "dec_val a" b] by (simp add: dec_val_def)

lemma dec_val_zeros [simp]: "dec_val (replicate n 48) = 0"
  by (induction n) (simp_all add: dec_val_def digit_val_def)

lemma dec_val_zero_Cons [simp]: "dec_val (48 # s) = dec_val s"
  using dec_val_append [of "[48]" s] by (simp add: dec_val_def digit_val_def)

lemma digits_replicate [simp]: "list_all is_digit (replicate n 48)"
  by (simp add: list_all_length is_digit_def)

section \<open>The shape of a printed number\<close>

definition exp_text :: "int \<Rightarrow> jstr" where
  "exp_text e = (if e = 0 then [] else 101 # (if 0 < e then 43 else 45) # nat_str (nat \<bar>e\<bar>))"

definition decimal_text :: "jstr \<Rightarrow> jstr \<Rightarrow> int \<Rightarrow> jstr" where
  "decimal_text ip fp e = ip @ (if fp = [] then [] else 46 # fp) @ exp_text e"

definition decimal_ok :: "jstr \<Rightarrow> jstr \<Rightarrow> bool" where
  "decimal_ok ip fp \<longleftrightarrow> list_all is_digit ip \<and> ip \<noteq> [] \<and> (hd ip = 48 \<longrightarrow> ip = [48]) \<and> list_all is_digit fp"

definition decimal_val :: "jstr \<Rightarrow> jstr \<Rightarrow> int \<Rightarrow> rat" where
  "decimal_val ip fp e = of_nat (dec_val (ip @ fp)) * pow10 (e - int (length fp))"

text \<open>The digits \<open>shortest\<close> finds, with a point at position \<open>n\<close>.\<close>

definition digits_ok :: "jstr \<Rightarrow> bool" where
  "digits_ok ds \<longleftrightarrow> list_all is_digit ds \<and> ds \<noteq> [] \<and> hd ds \<noteq> 48"

definition digits_val :: "jstr \<Rightarrow> int \<Rightarrow> rat" where
  "digits_val ds n = of_nat (dec_val ds) * pow10 (n - int (length ds))"

lemma digits_take_drop:
  "list_all is_digit ds \<Longrightarrow> list_all is_digit (take k ds)"
  "list_all is_digit ds \<Longrightarrow> list_all is_digit (drop k ds)"
  by (metis append_take_drop_id list_all_append)+

lemma split_digits_val:
  assumes "e - int (length fp) = n - int (length ds)" and "ip @ fp = ds"
  shows "decimal_val ip fp e = digits_val ds n"
  using assms by (simp add: decimal_val_def digits_val_def)

lemma pos_num_str_shape:
  assumes s: "shortest x = (ds, n)" and d: "digits_ok ds"
  obtains ip fp e where "pos_num_str x = decimal_text ip fp e" and "decimal_ok ip fp"
    and "decimal_val ip fp e = digits_val ds n"
proof -
  let ?k = "int (length ds)"
  have dd: "list_all is_digit ds" "ds \<noteq> []" "hd ds \<noteq> 48" using d by (auto simp: digits_ok_def)
  consider (int) "?k \<le> n" "n \<le> 21" | (point) "n < ?k" "0 < n" "n \<le> 21" | (frac) "-6 < n" "n \<le> 0"
    | (exp) "21 < n \<or> n \<le> -6" by linarith
  then show thesis
  proof cases
    case int
    then have "pos_num_str x = decimal_text (ds @ replicate (nat (n - ?k)) 48) [] 0"
      by (simp add: pos_num_str_def s decimal_text_def exp_text_def)
    moreover have "decimal_ok (ds @ replicate (nat (n - ?k)) 48) []"
      using dd by (simp add: decimal_ok_def)
    moreover have "decimal_val (ds @ replicate (nat (n - ?k)) 48) [] 0 = digits_val ds n"
      using int by (simp add: decimal_val_def digits_val_def dec_val_append pow10_def)
    ultimately show thesis by (rule that)
  next
    case point
    then have "drop (nat n) ds \<noteq> []" by simp
    with point have "pos_num_str x = decimal_text (take (nat n) ds) (drop (nat n) ds) 0"
      by (simp add: pos_num_str_def s decimal_text_def exp_text_def)
    moreover have "decimal_ok (take (nat n) ds) (drop (nat n) ds)"
      using dd point by (simp add: decimal_ok_def digits_take_drop)
    moreover have "decimal_val (take (nat n) ds) (drop (nat n) ds) 0 = digits_val ds n"
      using point by (intro split_digits_val) auto
    ultimately show thesis by (rule that)
  next
    case frac
    let ?fp = "replicate (nat (- n)) 48 @ ds"
    have "0 < length ds" using dd by simp
    then have "\<not> (?k \<le> n \<and> n \<le> 21)" "\<not> (0 < n \<and> n \<le> 21)" using frac by linarith+
    with frac dd have "pos_num_str x = decimal_text [48] ?fp 0"
      by (simp add: pos_num_str_def s decimal_text_def exp_text_def)
    moreover have "decimal_ok [48] ?fp"
      using dd by (simp add: decimal_ok_def is_digit_def)
    moreover have "decimal_val [48] ?fp 0 = digits_val ds n"
      using frac by (simp add: decimal_val_def digits_val_def dec_val_append [of "replicate _ 48"])
    ultimately show thesis by (rule that)
  next
    case exp
    have k: "0 < length ds" using dd by simp
    with exp have "\<not> (?k \<le> n \<and> n \<le> 21)" "\<not> (0 < n \<and> n \<le> 21)" "\<not> (-6 < n \<and> n \<le> 0)" "n - 1 \<noteq> 0"
      by linarith+
    then have "pos_num_str x = take 1 ds @ (if ?k = 1 then [] else 46 # drop 1 ds)
        @ 101 # (if 0 < n - 1 then 43 else 45) # nat_str (nat \<bar>n - 1\<bar>)"
      by (simp only: pos_num_str_def s Let_def prod.case if_False simp_thms)
    moreover have "(if ?k = 1 then [] else 46 # drop 1 ds) = (if drop 1 ds = [] then [] else 46 # drop 1 ds)"
      using k by (cases ds) auto
    ultimately have "pos_num_str x = decimal_text (take 1 ds) (drop 1 ds) (n - 1)"
      using \<open>n - 1 \<noteq> 0\<close> by (simp only: decimal_text_def exp_text_def if_False)
    moreover have "decimal_ok (take 1 ds) (drop 1 ds)"
      using dd by (simp add: decimal_ok_def digits_take_drop del: take_Suc)
    moreover have "decimal_val (take 1 ds) (drop 1 ds) (n - 1) = digits_val ds n"
      using k by (intro split_digits_val) (cases ds; simp)+
    ultimately show thesis by (rule that)
  qed
qed


section \<open>Reading it back\<close>

lemma takeWhile_digits_append:
  assumes "list_all is_digit a" and "b = [] \<or> \<not> is_digit (hd b)"
  shows "takeWhile is_digit (a @ b) = a" and "dropWhile is_digit (a @ b) = b"
  using assms by (induction a) (cases b; auto)+

lemma exp_text_start: "exp_text e = [] \<or> hd (exp_text e) = 101"
  by (simp add: exp_text_def)

lemma exponent_exp_text [simp]: "exponent_part (exp_text e) = Some e"
  using nat_str_digits [of "nat \<bar>e\<bar>"] by (auto simp: exp_text_def)

lemma unsigned_decimal_text:
  assumes ok: "decimal_ok ip fp"
  shows "unsigned_decimal (decimal_text ip fp e) = Some (decimal_val ip fp e)"
proof -
  let ?r = "(if fp = [] then [] else 46 # fp) @ exp_text e"
  have "?r = [] \<or> \<not> is_digit (hd ?r)" using exp_text_start [of e] by (auto simp: is_digit_def)
  moreover have ip: "list_all is_digit ip" "ip \<noteq> []" and fp: "list_all is_digit fp"
    using ok by (auto simp: decimal_ok_def)
  ultimately have a: "takeWhile is_digit (decimal_text ip fp e) = ip" "dropWhile is_digit (decimal_text ip fp e) = ?r"
    unfolding decimal_text_def by (simp_all only: takeWhile_digits_append)
  have e: "exp_text e = [] \<or> \<not> is_digit (hd (exp_text e))"
    using exp_text_start [of e] by (auto simp: is_digit_def)
  note b = takeWhile_digits_append [OF fp e]
  show ?thesis
  proof (cases "fp = []")
    case True
    then have d: "dropWhile is_digit (decimal_text ip fp e) = exp_text e" using a by simp
    have "(case exp_text e of [] \<Rightarrow> [] | c # r' \<Rightarrow> if c = 46 then takeWhile is_digit r' else []) = []"
      "(case exp_text e of [] \<Rightarrow> [] | c # r' \<Rightarrow> if c = 46 then dropWhile is_digit r' else exp_text e) = exp_text e"
      using exp_text_start [of e] by (cases "exp_text e"; simp)+
    then show ?thesis
      using True ip unfolding unsigned_decimal_def Let_def a(1) d decimal_val_def by simp
  next
    case False
    then show ?thesis using ip a b by (simp add: unsigned_decimal_def decimal_val_def)
  qed
qed


section \<open>Numbers that read back\<close>

text \<open>\<open>num_ok x\<close>: a finite number whose printed digits denote it. Every binary64 value is
  such a number; the predicate is executable.\<close>

definition num_ok :: "jnum \<Rightarrow> bool" where
  "num_ok x =
     (case x of
        Fin q \<Rightarrow> (q = of_int (floor q) \<and> \<bar>q\<bar> < 2 ^ 53)
                 \<or> (case shortest \<bar>q\<bar> of (ds, n) \<Rightarrow>
                      digits_ok ds \<and> round64 (if q < 0 then - digits_val ds n else digits_val ds n) = Fin q)
      | _ \<Rightarrow> False)"

lemma num_str_shape:
  assumes "num_ok x"
  obtains neg ip fp e where "num_str x = (if neg then [45] else []) @ decimal_text ip fp e"
    and "decimal_ok ip fp"
    and "round64 (if neg then - decimal_val ip fp e else decimal_val ip fp e) = x"
proof -
  obtain q where q: "x = Fin q" using assms by (auto simp: num_ok_def split: jnum.splits)
  show thesis
  proof (cases "q = of_int (floor q) \<and> \<bar>q\<bar> < 2 ^ 53")
    case True
    let ?i = "floor q"
    let ?ip = "nat_str (nat \<bar>?i\<bar>)"
    have "hd ?ip = 48 \<longrightarrow> ?ip = [48]"
      using nat_str_hd_zero [of "nat \<bar>?i\<bar>" "tl ?ip"] nat_str_nonempty [of "nat \<bar>?i\<bar>"] by (cases ?ip) auto
    then have ok: "decimal_ok ?ip []" using nat_str_digits by (simp add: decimal_ok_def)
    have "(of_int \<bar>?i\<bar> :: rat) < of_int (2 ^ 53)" using True by (metis of_int_abs of_int_numeral of_int_power)
    then have small: "\<bar>?i\<bar> < 2 ^ 53" by (simp only: of_int_less_iff)
    have val: "decimal_val ?ip [] 0 = of_int \<bar>?i\<bar>" by (simp add: decimal_val_def pow10_def)
    have "num_str x = (if ?i < 0 then [45] else []) @ decimal_text ?ip [] 0"
      using True by (simp add: q int_str_def decimal_text_def exp_text_def)
    moreover have "round64 (if ?i < 0 then - decimal_val ?ip [] 0 else decimal_val ?ip [] 0) = x"
    proof -
      have i: "(if ?i < 0 then - of_int \<bar>?i\<bar> else of_int \<bar>?i\<bar> :: rat) = of_int ?i" by simp
      have "\<bar>?i\<bar> < 2 ^ 53" using small by simp
      from round64_int [OF this] True show ?thesis unfolding val i q by metis
    qed
    ultimately show thesis using ok that [of "?i < 0"] by blast
  next
    case False
    obtain ds n where s: "shortest \<bar>q\<bar> = (ds, n)" by fastforce
    then have ok: "digits_ok ds" and r: "round64 (if q < 0 then - digits_val ds n else digits_val ds n) = Fin q"
      using assms False by (auto simp: num_ok_def q)
    obtain ip fp e where t: "pos_num_str \<bar>q\<bar> = decimal_text ip fp e" "decimal_ok ip fp"
      "decimal_val ip fp e = digits_val ds n"
      using pos_num_str_shape [OF s ok] by blast
    have "num_str x = (if q < 0 then [45] else []) @ decimal_text ip fp e"
      using False t(1) unfolding q num_str.simps by (simp only: if_False abs_if) auto
    moreover have "round64 (if q < 0 then - decimal_val ip fp e else decimal_val ip fp e) = x"
      using r by (simp only: t(3) q)
    ultimately show thesis using that t(2) by blast
  qed
qed

text \<open>\<open>Number(String(x))\<close> is \<open>x\<close>.\<close>

definition num_unit :: "cunit \<Rightarrow> bool" where
  "num_unit c \<longleftrightarrow> is_digit c \<or> c \<in> {43, 45, 46, 101}"

lemma decimal_units: "decimal_ok ip fp \<Longrightarrow> list_all num_unit (decimal_text ip fp e)"
  using nat_str_digits [of "nat \<bar>e\<bar>"]
  by (auto simp: decimal_text_def decimal_ok_def exp_text_def num_unit_def list_all_iff)

lemma num_str_units: "num_ok x \<Longrightarrow> list_all num_unit (num_str x) \<and> num_str x \<noteq> []"
proof (erule num_str_shape)
  fix neg ip fp e
  assume "num_str x = (if neg then [45] else []) @ decimal_text ip fp e" and ok: "decimal_ok ip fp"
  moreover have "decimal_text ip fp e \<noteq> []" using ok by (simp add: decimal_ok_def decimal_text_def)
  ultimately show "list_all num_unit (num_str x) \<and> num_str x \<noteq> []"
    using decimal_units [OF ok, of e] by (simp add: num_unit_def)
qed

lemma num_unit_not_ws: "num_unit c \<Longrightarrow> \<not> is_ws c"
  by (auto simp: num_unit_def is_digit_def is_ws_def)

lemma num_str_trimmed: "num_ok x \<Longrightarrow> trimmed (num_str x)"
  using num_str_units [of x] by (auto simp: trimmed_def list_all_iff num_unit_not_ws)

theorem to_number_num_str:
  assumes "num_ok x"
  shows "to_number (num_str x) = x"
proof -
  obtain neg ip fp e where s: "num_str x = (if neg then [45] else []) @ decimal_text ip fp e"
    and ok: "decimal_ok ip fp" and r: "round64 (if neg then - decimal_val ip fp e else decimal_val ip fp e) = x"
    using num_str_shape [OF assms] by blast
  have hd: "decimal_text ip fp e \<noteq> [] \<and> is_digit (hd (decimal_text ip fp e))"
    using ok by (cases ip) (auto simp: decimal_ok_def decimal_text_def)
  have "signed_decimal (num_str x) = x"
    using hd r unsigned_decimal_text [OF ok, of e]
    by (cases "decimal_text ip fp e") (auto simp: s signed_decimal_def js_eval is_digit_def)
  moreover have "num_str x ! 1 \<in> {120, 88, 111, 79, 98, 66} \<Longrightarrow> length (num_str x) > 2 \<Longrightarrow> False"
    using num_str_units [OF assms] by (auto simp: list_all_length num_unit_def is_digit_def dest!: spec [of _ 1])
  ultimately show ?thesis
    using num_str_units [OF assms] num_str_trimmed [OF assms] by (auto simp: to_number_def Let_def)
qed

section \<open>Rounding a given decimal\<close>

lemma ilog2_upper:
  assumes "0 < x"
  shows "x < pow2 (ilog2 x + 1)"
proof -
  obtain a b where ab: "quotient_of x = (a, b)" by fastforce
  have b: "0 < b" using quotient_of_denom_pos [OF ab] .
  have x: "x = of_int a / of_int b" using quotient_of_div [OF ab] .
  have a: "0 < a" using assms b by (simp add: x zero_less_divide_iff)
  let ?e = "bitlen a - bitlen b"
  have la: "a < (2::int) ^ nat (bitlen a)" and lb: "2 ^ nat (bitlen b - 1) \<le> b"
    using bitlen_bounds_int [OF a] bitlen_bounds_int [OF b] by auto
  have pb: "1 \<le> bitlen b" using b bitlen_eq_zero_iff [of b] bitlen_nonneg [of b] by auto
  have "(of_int a :: rat) < of_int (2 ^ nat (bitlen a))" using la by (simp only: of_int_less_iff)
  also have "\<dots> = pow2 (?e + 1 + int (nat (bitlen b - 1)))"
    using pb bitlen_nonneg [of a] by (simp add: pow2_def)
  also have "\<dots> = pow2 (?e + 1) * 2 ^ nat (bitlen b - 1)" by (rule pow2_add_nat)
  also have "\<dots> \<le> pow2 (?e + 1) * of_int b"
  proof -
    have "(of_int (2 ^ nat (bitlen b - 1)) :: rat) \<le> of_int b" using lb by (simp only: of_int_le_iff)
    then show ?thesis using pow2_pos [of "?e + 1"] by simp
  qed
  finally have "x < pow2 (?e + 1)" using b by (simp add: x divide_less_eq)
  then show ?thesis by (auto simp: ilog2_def ab Let_def)
qed

lemma round_even_eqI:
  assumes "of_int m - 1 / 2 < x" and "x < of_int m + 1 / 2"
  shows "round_even x = m"
proof (cases "of_int m \<le> x")
  case True
  then have "floor x = m" using assms(2) by (intro floor_unique) auto
  then show ?thesis using assms(2) by (simp add: round_even_def Let_def)
next
  case False
  then have "floor x = m - 1" using assms(1) by (intro floor_unique) auto
  then show ?thesis using assms(1) by (simp add: round_even_def Let_def)
qed

lemma ilog2_eqI:
  assumes "pow2 e \<le> x" and "x < pow2 (e + 1)"
  shows "ilog2 x = e"
proof -
  have "0 < x" using assms(1) pow2_pos [of e] by linarith
  then have "pow2 (ilog2 x) < pow2 (e + 1)" "pow2 e < pow2 (ilog2 x + 1)"
    using assms ilog2_lower [of x] ilog2_upper [of x] by linarith+
  then have "\<not> e + 1 \<le> ilog2 x" "\<not> ilog2 x + 1 \<le> e" using pow2_mono by (metis not_le)+
  then show ?thesis by linarith
qed

lemma round64_eqI:
  assumes "pow2 e \<le> x" and "x < pow2 (e + 1)" and "-1022 \<le> e" and "e < 1000"
    and "round_even (x / pow2 (e - 52)) = m" and "m \<le> 2 ^ 53"
  shows "round64 x = Fin (of_int m * pow2 (e - 52))"
proof -
  have x: "0 < x" using assms(1) pow2_pos [of e] by linarith
  have "(of_int m :: rat) \<le> of_int (2 ^ 53)" using assms(6) by (simp only: of_int_le_iff)
  then have "of_int m * pow2 (e - 52) \<le> 2 ^ 53 * pow2 (e - 52)" using pow2_pos [of "e - 52"] by simp
  also have "\<dots> = pow2 (e + 1)" using pow2_add_nat [of "e - 52" 53] by (simp add: ac_simps)
  also have "\<dots> \<le> pow2 (int 1023)" using assms(4) by (intro pow2_mono) simp
  also have "\<dots> < 2 ^ 1024" unfolding pow2_nat by (rule power_strict_increasing) simp_all
  finally have "\<not> 2 ^ 1024 \<le> of_int m * pow2 (e - 52)" by linarith
  then show ?thesis
    using x assms(3,5) by (simp add: round64_def ilog2_eqI [OF assms(1,2)] Let_def)
qed

lemma round64_seven_tenths: "round64 (7 / 10) = Fin (3152519739159347 / 4503599627370496)"
proof -
  have "round_even (7 / 10 / pow2 (-1 - 52)) = 6305039478318694"
    by (rule round_even_eqI) (simp_all add: pow2_def)
  from round64_eqI [OF _ _ _ _ this] show ?thesis by (simp add: pow2_def)
qed

lemma num_ok_seven_tenths: "num_ok (round64 (7 / 10))"
proof -
  let ?x = "3152519739159347 / 4503599627370496 :: rat"
  have n: "point_pos ?x = 0"
    by (simp add: point_pos_def numeral_eq_Suc)
  have q: "round_even (?x / pow10 (0 - int 1)) = 7"
    by (rule round_even_eqI) (simp_all add: pow10_def)
  have r: "round64 (of_int 7 * pow10 (0 - int 1)) = Fin ?x"
    using round64_seven_tenths by (simp add: pow10_def)
  have "[1..<18] = 1 # [2..<18]" by (simp add: upt_rec)
  then have "shortest_from ?x 0 [1..<18] = Some (7, 1)"
    by (simp only: shortest_from.simps Let_def q list.simps find.simps r if_True simp_thms option.case)
  then have "shortest ?x = (js ''7'', 0)"
    by (simp add: shortest_def n nat_str.simps js_eval)
  then show ?thesis
    unfolding round64_seven_tenths num_ok_def using r
    by (simp add: digits_ok_def digits_val_def js_eval is_digit_def dec_val_def digit_val_def)
qed

end
