(* ===== verification/JsJson.thy ===== *)
theory JsJson
  imports JsDecimal
begin

text \<open>
  JSON values, \<open>JSON.parse\<close> and \<open>JSON.stringify\<close>, and property access on the objects
  they hold. An object is its list of properties in insertion order; enumeration puts the
  array-index keys first, as \<open>Object.keys\<close> does.
\<close>

datatype jsval =
    JNull
  | JBool bool
  | JNum jnum
  | JStr jstr
  | JArr "jsval list"
  | JObj "(jstr \<times> jsval) list"

section \<open>Objects\<close>

fun obj_put :: "'k \<Rightarrow> 'v \<Rightarrow> ('k \<times> 'v) list \<Rightarrow> ('k \<times> 'v) list" where
  "obj_put k v [] = [(k, v)]"
| "obj_put k v ((k', v') # ps) = (if k = k' then (k, v) # ps else (k', v') # obj_put k v ps)"

definition obj_del :: "'k \<Rightarrow> ('k \<times> 'v) list \<Rightarrow> ('k \<times> 'v) list" where
  "obj_del k ps = filter (\<lambda>(k', _). k' \<noteq> k) ps"

lemma map_of_obj_put [simp]: "map_of (obj_put k v ps) = (map_of ps)(k \<mapsto> v)"
  by (induction ps) (auto simp: fun_eq_iff)

lemma fst_obj_put: "fst ` set (obj_put k v ps) = insert k (fst ` set ps)"
  by (induction k v ps rule: obj_put.induct) (simp_all add: insert_commute)

lemma distinct_obj_put [simp]: "distinct (map fst (obj_put k v ps)) \<longleftrightarrow> distinct (map fst ps)"
  by (induction k v ps rule: obj_put.induct) (simp_all add: fst_obj_put)

lemma obj_put_fresh: "k \<notin> fst ` set ps \<Longrightarrow> obj_put k v ps = ps @ [(k, v)]"
  by (induction ps) auto

lemma set_obj_put_subset: "set (obj_put k v ps) \<subseteq> insert (k, v) (set ps)"
  by (induction k v ps rule: obj_put.induct) auto

lemma map_of_obj_del [simp]: "map_of (obj_del k ps) = (map_of ps)(k := None)"
  unfolding obj_del_def by (induction ps) (auto simp: fun_eq_iff)

lemma distinct_obj_del [simp]: "distinct (map fst ps) \<Longrightarrow> distinct (map fst (obj_del k ps))"
  unfolding obj_del_def by (induction ps) auto

text \<open>Array indices: canonical decimal strings of the numbers up to \<open>2 ^ 32 - 2\<close>.\<close>

definition array_index :: "jstr \<Rightarrow> nat option" where
  "array_index k = (if k \<noteq> [] \<and> length k \<le> 10 \<and> list_all is_digit k \<and> (k = [48] \<or> hd k \<noteq> 48)
                      \<and> dec_val k < 4294967295
                    then Some (dec_val k) else None)"

text \<open>\<open>Object.entries\<close>: the array indices in ascending order, then the other keys.\<close>

definition own_entries :: "(jstr \<times> 'v) list \<Rightarrow> (jstr \<times> 'v) list" where
  "own_entries ps =
     sort_key (\<lambda>(k, _). the (array_index k)) (filter (\<lambda>(k, _). array_index k \<noteq> None) ps)
     @ filter (\<lambda>(k, _). array_index k = None) ps"

definition own_keys :: "(jstr \<times> 'v) list \<Rightarrow> jstr list" where
  "own_keys ps = map fst (own_entries ps)"

definition own_values :: "(jstr \<times> 'v) list \<Rightarrow> 'v list" where
  "own_values ps = map snd (own_entries ps)"

lemma set_own_entries [simp]: "set (own_entries ps) = set ps"
  by (auto simp: own_entries_def)

lemma mset_own_entries: "mset (own_entries ps) = mset ps"
proof -
  let ?P = "\<lambda>p. array_index (fst p) = None"
  have "mset ps = filter_mset (\<lambda>p. \<not> ?P p) (mset ps) + filter_mset ?P (mset ps)"
    using multiset_partition [of "mset ps" ?P] by (simp add: add.commute)
  then show ?thesis by (simp add: own_entries_def case_prod_unfold)
qed

lemma length_own_entries [simp]: "length (own_entries ps) = length ps"
  by (metis mset_own_entries size_mset)

lemma own_entries_Nil [simp]: "own_entries [] = []"
  by (simp add: own_entries_def)

lemma own_entries_no_index:
  "\<forall>p\<in>set ps. array_index (fst p) = None \<Longrightarrow> own_entries ps = ps"
proof -
  assume a: "\<forall>p\<in>set ps. array_index (fst p) = None"
  then have "filter (\<lambda>(k, _). array_index k \<noteq> None) ps = []"
    by (auto simp: filter_empty_conv case_prod_unfold)
  moreover have "filter (\<lambda>(k, _). array_index k = None) ps = ps"
    using a by (auto simp: filter_id_conv case_prod_unfold)
  ultimately show ?thesis by (simp add: own_entries_def)
qed

lemma own_entries_map:
  "own_entries (map (\<lambda>(k, v). (k, f k v)) ps) = map (\<lambda>(k, v). (k, f k v)) (own_entries ps)"
proof -
  have *: "sort_key (\<lambda>(k, _). the (array_index k)) (map (\<lambda>(k, v). (k, f k v)) qs)
          = map (\<lambda>(k, v). (k, f k v)) (sort_key (\<lambda>(k, _). the (array_index k)) qs)" for qs
  proof (induction qs)
    case Nil
    then show ?case by simp
  next
    case (Cons q qs)
    have "insort_key (\<lambda>(k, _). the (array_index k)) ((\<lambda>(k, v). (k, f k v)) q)
             (map (\<lambda>(k, v). (k, f k v)) rs)
        = map (\<lambda>(k, v). (k, f k v)) (insort_key (\<lambda>(k, _). the (array_index k)) q rs)" for rs
      by (induction rs) (auto simp: case_prod_unfold)
    with Cons show ?case by simp
  qed
  show ?thesis
    unfolding own_entries_def map_append * [symmetric] filter_map
    by (simp add: comp_def case_prod_unfold)
qed

section \<open>Printing\<close>

definition hex_digit :: "nat \<Rightarrow> cunit" where
  "hex_digit d = (if d < 10 then 48 + d else 87 + d)"

definition u_escape :: "cunit \<Rightarrow> jstr" where
  "u_escape c = [92, 117, hex_digit (c div 4096), hex_digit (c div 256 mod 16),
                 hex_digit (c div 16 mod 16), hex_digit (c mod 16)]"

definition is_lead :: "cunit \<Rightarrow> bool" where
  "is_lead c \<longleftrightarrow> 55296 \<le> c \<and> c \<le> 56319"

definition is_trail :: "cunit \<Rightarrow> bool" where
  "is_trail c \<longleftrightarrow> 56320 \<le> c \<and> c \<le> 57343"

definition quote_unit :: "cunit \<Rightarrow> jstr" where
  "quote_unit c =
     (if c = 8 then [92, 98] else if c = 9 then [92, 116] else if c = 10 then [92, 110]
      else if c = 12 then [92, 102] else if c = 13 then [92, 114]
      else if c = 34 then [92, 34] else if c = 92 then [92, 92]
      else if c < 32 then u_escape c else [c])"

text \<open>A surrogate that is not part of a pair is escaped.\<close>

fun quote_body :: "jstr \<Rightarrow> jstr" where
  "quote_body [] = []"
| "quote_body [c] = (if is_lead c \<or> is_trail c then u_escape c else quote_unit c)"
| "quote_body (c # d # s) =
     (if is_lead c \<and> is_trail d then c # d # quote_body s
      else (if is_lead c \<or> is_trail c then u_escape c else quote_unit c) @ quote_body (d # s))"

definition json_quote :: "jstr \<Rightarrow> jstr" where
  "json_quote s = 34 # quote_body s @ [34]"

fun stringify :: "jsval \<Rightarrow> jstr" where
  "stringify JNull = js ''null''"
| "stringify (JBool b) = (if b then js ''true'' else js ''false'')"
| "stringify (JNum n) = (if isFinite n then num_str n else js ''null'')"
| "stringify (JStr s) = json_quote s"
| "stringify (JArr vs) = 91 # join [44] (map stringify vs) @ [93]"
| "stringify (JObj ps) =
     123 # join [44] (own_values (map (\<lambda>(k, v). (k, json_quote k @ 58 # stringify v)) ps)) @ [125]"

text \<open>\<open>JSON.stringify(v, null, 2)\<close>; \<open>n\<close> is the indentation reached.\<close>

fun pretty :: "nat \<Rightarrow> jsval \<Rightarrow> jstr" where
  "pretty n JNull = stringify JNull"
| "pretty n (JBool b) = stringify (JBool b)"
| "pretty n (JNum x) = stringify (JNum x)"
| "pretty n (JStr s) = stringify (JStr s)"
| "pretty n (JArr vs) =
     (if vs = [] then js ''[]''
      else 91 # 10 # join [44, 10] (map (\<lambda>v. replicate (n + 2) 32 @ pretty (n + 2) v) vs)
             @ 10 # replicate n 32 @ [93])"
| "pretty n (JObj ps) =
     (if ps = [] then js ''{}''
      else 123 # 10 # join [44, 10]
               (own_values (map (\<lambda>(k, v).
                  (k, replicate (n + 2) 32 @ json_quote k @ 58 # 32 # pretty (n + 2) v)) ps))
             @ 10 # replicate n 32 @ [125])"

section \<open>Parsing\<close>

definition json_ws :: "cunit \<Rightarrow> bool" where
  "json_ws c \<longleftrightarrow> c = 32 \<or> c = 9 \<or> c = 10 \<or> c = 13"

definition skip_ws :: "jstr \<Rightarrow> jstr" where
  "skip_ws s = dropWhile json_ws s"

definition hex_val :: "cunit \<Rightarrow> nat option" where
  "hex_val c = (if is_digit c then Some (c - 48) else if 97 \<le> c \<and> c \<le> 102 then Some (c - 87)
                else if 65 \<le> c \<and> c \<le> 70 then Some (c - 55) else None)"

fun hex4 :: "jstr \<Rightarrow> nat option" where
  "hex4 (a # b # c # d # _) =
     (case (hex_val a, hex_val b, hex_val c, hex_val d) of
        (Some w, Some x, Some y, Some z) \<Rightarrow> Some (((w * 16 + x) * 16 + y) * 16 + z)
      | _ \<Rightarrow> None)"
| "hex4 _ = None"

definition simple_escape :: "cunit \<Rightarrow> cunit option" where
  "simple_escape e =
     (if e = 34 \<or> e = 92 \<or> e = 47 then Some e else if e = 98 then Some 8 else if e = 102 then Some 12
      else if e = 110 then Some 10 else if e = 114 then Some 13 else if e = 116 then Some 9 else None)"

text \<open>The characters of a string literal up to its closing quote.\<close>

function (sequential) pstr :: "jstr \<Rightarrow> (jstr \<times> jstr) option" where
  "pstr [] = None"
| "pstr (c # cs) =
     (if c = 34 then Some ([], cs)
      else if c < 32 then None
      else if c \<noteq> 92 then map_option (apfst ((#) c)) (pstr cs)
      else case cs of
             [] \<Rightarrow> None
           | e # r \<Rightarrow>
               if e = 117 then
                 (case hex4 r of None \<Rightarrow> None
                  | Some u \<Rightarrow> map_option (apfst ((#) u)) (pstr (drop 4 r)))
               else (case simple_escape e of None \<Rightarrow> None
                     | Some u \<Rightarrow> map_option (apfst ((#) u)) (pstr r)))"
  by pat_completeness auto
termination by (relation "measure length") auto

text \<open>
  A number literal: an integer part, an optional fraction and an optional exponent; its
  exact value is rounded to binary64.
\<close>

definition frac_part :: "jstr \<Rightarrow> (jstr \<times> jstr) option" where
  "frac_part r =
     (if r \<noteq> [] \<and> hd r = 46 then
        (let fp = takeWhile is_digit (tl r)
         in if fp = [] then None else Some (fp, dropWhile is_digit (tl r)))
      else Some ([], r))"

definition exp_part :: "jstr \<Rightarrow> (int \<times> jstr) option" where
  "exp_part r =
     (if r \<noteq> [] \<and> (hd r = 101 \<or> hd r = 69) then
        (let sgn = (tl r \<noteq> [] \<and> (hd (tl r) = 45 \<or> hd (tl r) = 43));
             r' = (if sgn then tl (tl r) else tl r);
             ed = takeWhile is_digit r'
         in if ed = [] then None
            else Some (if sgn \<and> hd (tl r) = 45 then - int (dec_val ed) else int (dec_val ed),
                       dropWhile is_digit r'))
      else Some (0, r))"

definition pnum :: "jstr \<Rightarrow> (jnum \<times> jstr) option" where
  "pnum s =
     (let neg = (s \<noteq> [] \<and> hd s = 45); u = (if neg then tl s else s);
          ip = takeWhile is_digit u
      in if ip = [] \<or> (hd ip = 48 \<and> ip \<noteq> [48]) then None
         else case frac_part (dropWhile is_digit u) of
                None \<Rightarrow> None
              | Some (fp, r) \<Rightarrow>
                  (case exp_part r of
                     None \<Rightarrow> None
                   | Some (e, r') \<Rightarrow>
                       let q = of_nat (dec_val (ip @ fp)) * pow10 (e - int (length fp))
                       in Some (round64 (if neg then - q else q), r')))"

definition lit :: "jstr \<Rightarrow> jsval \<Rightarrow> jstr \<Rightarrow> (jsval \<times> jstr) option" where
  "lit w v s = (if prefix w s then Some (v, drop (length w) s) else None)"

text \<open>
  The grammar of values, arrays and object members. The first argument is fuel; every call
  either consumes a code unit or goes from an array to its first element, so a fuel above
  twice the length of the text is never used up (\<open>pval_fuel\<close> below).
\<close>

fun pval :: "nat \<Rightarrow> jstr \<Rightarrow> (jsval \<times> jstr) option"
  and parr :: "nat \<Rightarrow> jstr \<Rightarrow> (jsval list \<times> jstr) option"
  and pobj :: "nat \<Rightarrow> (jstr \<times> jsval) list \<Rightarrow> jstr \<Rightarrow> ((jstr \<times> jsval) list \<times> jstr) option" where
  "pval 0 s = None"
| "pval (Suc n) s =
     (case skip_ws s of
        [] \<Rightarrow> None
      | c # cs \<Rightarrow>
          if c = 123 then
            (case skip_ws cs of
               [] \<Rightarrow> None
             | d # ds \<Rightarrow> if d = 125 then Some (JObj [], ds)
                       else map_option (apfst JObj) (pobj n [] (d # ds)))
          else if c = 91 then
            (case skip_ws cs of
               [] \<Rightarrow> None
             | d # ds \<Rightarrow> if d = 93 then Some (JArr [], ds)
                       else map_option (apfst JArr) (parr n (d # ds)))
          else if c = 34 then map_option (apfst JStr) (pstr cs)
          else if c = 116 then lit (js ''true'') (JBool True) (c # cs)
          else if c = 102 then lit (js ''false'') (JBool False) (c # cs)
          else if c = 110 then lit (js ''null'') JNull (c # cs)
          else map_option (apfst JNum) (pnum (c # cs)))"
| "parr 0 s = None"
| "parr (Suc n) s =
     (case pval n s of
        None \<Rightarrow> None
      | Some (v, r) \<Rightarrow>
          (case skip_ws r of
             [] \<Rightarrow> None
           | d # ds \<Rightarrow> if d = 44 then map_option (apfst ((#) v)) (parr n ds)
                     else if d = 93 then Some ([v], ds) else None))"
| "pobj 0 acc s = None"
| "pobj (Suc n) acc s =
     (case skip_ws s of
        [] \<Rightarrow> None
      | q # r0 \<Rightarrow>
          if q \<noteq> 34 then None
          else case pstr r0 of
                 None \<Rightarrow> None
               | Some (k, r1) \<Rightarrow>
                   (case skip_ws r1 of
                      [] \<Rightarrow> None
                    | co # r2 \<Rightarrow>
                        if co \<noteq> 58 then None
                        else case pval n r2 of
                               None \<Rightarrow> None
                             | Some (v, r3) \<Rightarrow>
                                 (case skip_ws r3 of
                                    [] \<Rightarrow> None
                                  | d # ds \<Rightarrow>
                                      if d = 44 then pobj n (obj_put k v acc) ds
                                      else if d = 125 then Some (obj_put k v acc, ds)
                                      else None)))"

definition json_parse :: "jstr \<Rightarrow> jsval option" where
  "json_parse s =
     (case pval (Suc (2 * length s)) s of
        None \<Rightarrow> None
      | Some (v, r) \<Rightarrow> if skip_ws r = [] then Some v else None)"

section \<open>Strings round trip\<close>

lemma hex_val_digit: "d < 16 \<Longrightarrow> hex_val (hex_digit d) = Some d"
  by (auto simp: hex_val_def hex_digit_def is_digit_def)

lemma hex4_u_escape:
  assumes "c < 65536"
  shows "hex4 (drop 2 (u_escape c) @ r) = Some c"
proof -
  have "c div 4096 < 16" using assms by simp
  then have "hex_val (hex_digit (c div 4096)) = Some (c div 4096)" by (rule hex_val_digit)
  moreover have "((c div 4096 * 16 + c div 256 mod 16) * 16 + c div 16 mod 16) * 16 + c mod 16 = c"
  proof -
    have "c div 256 = c div 16 div 16" and "c div 4096 = c div 256 div 16"
      by (simp_all flip: div_mult2_eq)
    then show ?thesis by (metis div_mult_mod_eq)
  qed
  ultimately show ?thesis by (simp add: u_escape_def hex_val_digit)
qed

lemma pstr_u_escape: "c < 65536 \<Longrightarrow> pstr (u_escape c @ r) = map_option (apfst ((#) c)) (pstr r)"
  using hex4_u_escape [of c r] by (simp add: u_escape_def)

lemma pstr_quote_unit: "c < 65536 \<Longrightarrow> pstr (quote_unit c @ r) = map_option (apfst ((#) c)) (pstr r)"
  by (auto simp: quote_unit_def simple_escape_def pstr_u_escape)

lemma pstr_surrogate: "is_lead c \<or> is_trail c \<Longrightarrow> pstr (c # r) = map_option (apfst ((#) c)) (pstr r)"
  by (auto simp: is_lead_def is_trail_def)

lemma pstr_quote_body: "units_ok s \<Longrightarrow> pstr (quote_body s @ 34 # r) = Some (s, r)"
proof (induction s rule: quote_body.induct)
  case 1
  then show ?case by simp
next
  case (2 c)
  then show ?case by (simp add: pstr_u_escape pstr_quote_unit)
next
  case (3 c d s)
  show ?case
  proof (cases "is_lead c \<and> is_trail d")
    case True
    with 3 show ?thesis by (simp add: pstr_surrogate del: pstr.simps(2))
  next
    case False
    with 3 have "pstr (quote_body (d # s) @ 34 # r) = Some (d # s, r)" by simp
    with False 3 show ?thesis
      by (auto simp: pstr_u_escape pstr_quote_unit simp del: pstr.simps(2))
  qed
qed

section \<open>Numbers round trip\<close>

text \<open>What may follow a number in a printed text: the end, a line break, a comma or a closing
  bracket.\<close>

definition num_end :: "jstr \<Rightarrow> bool" where
  "num_end r \<longleftrightarrow> r = [] \<or> hd r \<in> {10, 44, 93, 125}"

lemma num_end_no_digit: "num_end r \<Longrightarrow> r = [] \<or> \<not> is_digit (hd r)"
  by (auto simp: num_end_def is_digit_def)

lemma exp_part_text:
  assumes "num_end r"
  shows "exp_part (exp_text e @ r) = Some (e, r)"
proof (cases "e = 0")
  case True
  then show ?thesis using assms by (auto simp: exp_text_def exp_part_def num_end_def)
next
  case False
  note tw = takeWhile_digits_append [OF nat_str_digits num_end_no_digit [OF assms]]
  show ?thesis using False by (simp add: exp_text_def exp_part_def Let_def tw)
qed

lemma frac_part_text:
  assumes "list_all is_digit fp" "num_end r"
  shows "frac_part ((if fp = [] then [] else 46 # fp) @ exp_text e @ r) = Some (fp, exp_text e @ r)"
proof (cases "fp = []")
  case True
  have "\<not> (exp_text e @ r \<noteq> [] \<and> hd (exp_text e @ r) = 46)"
    using assms(2) exp_text_start [of e] by (auto simp: num_end_def hd_append)
  then show ?thesis using True by (auto simp: frac_part_def)
next
  case False
  have "exp_text e @ r = [] \<or> \<not> is_digit (hd (exp_text e @ r))"
    using num_end_no_digit [OF assms(2)] exp_text_start [of e] by (auto simp: hd_append is_digit_def)
  from takeWhile_digits_append [OF assms(1) this] False show ?thesis by (simp add: frac_part_def Let_def)
qed

lemma pnum_decimal:
  assumes ok: "decimal_ok ip fp" and r: "num_end r"
  shows "pnum ((if neg then [45] else []) @ decimal_text ip fp e @ r)
       = Some (round64 (if neg then - decimal_val ip fp e else decimal_val ip fp e), r)"
proof -
  let ?s = "(if neg then [45] else []) @ decimal_text ip fp e @ r"
  let ?q = "(if fp = [] then [] else 46 # fp) @ exp_text e @ r"
  have ip: "list_all is_digit ip" "ip \<noteq> []" "hd ip = 48 \<longrightarrow> ip = [48]" and fp: "list_all is_digit fp"
    using ok by (auto simp: decimal_ok_def)
  have d: "is_digit (hd ip)" using ip by (cases ip) auto
  have neg: "(?s \<noteq> [] \<and> hd ?s = 45) = neg"
    using ip d by (auto simp: decimal_text_def hd_append is_digit_def)
  have u: "(if ?s \<noteq> [] \<and> hd ?s = 45 then tl ?s else ?s) = ip @ ?q"
    unfolding neg by (simp add: decimal_text_def)
  have "?q = [] \<or> \<not> is_digit (hd ?q)"
    using num_end_no_digit [OF r] exp_text_start [of e] by (auto simp: hd_append is_digit_def)
  note tw = takeWhile_digits_append [OF ip(1) this]
  have z: "\<not> (ip = [] \<or> (hd ip = 48 \<and> ip \<noteq> [48]))" using ip by blast
  show ?thesis
    unfolding pnum_def Let_def u unfolding neg tw if_not_P [OF z] frac_part_text [OF fp r]
    by (simp add: exp_part_text [OF r] decimal_val_def)
qed

lemma pnum_num_str:
  assumes "num_ok x" and "num_end r"
  shows "pnum (num_str x @ r) = Some (x, r)"
  using assms(1) by (rule num_str_shape) (simp add: pnum_decimal [OF _ assms(2)])

section \<open>Values round trip\<close>

text \<open>
  The values that \<open>JSON.stringify\<close> prints without loss: numbers whose digits read back,
  code units below 65536, objects with distinct keys in enumeration order.
\<close>

fun json_wf :: "jsval \<Rightarrow> bool" where
  "json_wf JNull = True"
| "json_wf (JBool b) = True"
| "json_wf (JNum n) = num_ok n"
| "json_wf (JStr s) = units_ok s"
| "json_wf (JArr vs) = (\<forall>v\<in>set vs. json_wf v)"
| "json_wf (JObj ps) = (distinct (map fst ps) \<and> own_entries ps = ps \<and>
     (\<forall>p\<in>set ps. units_ok (fst p) \<and> json_wf (snd p)))"

lemma num_ok_finite: "num_ok n \<Longrightarrow> isFinite n"
  by (auto simp: num_ok_def isFinite_def split: jnum.splits)

lemma num_ok_of_int: "\<bar>i\<bar> < 2 ^ 53 \<Longrightarrow> num_ok (num_of_int i)"
proof -
  assume "\<bar>i\<bar> < 2 ^ 53"
  then have "(of_int \<bar>i\<bar> :: rat) < of_int (2 ^ 53)" by (simp only: of_int_less_iff)
  then show ?thesis by (simp add: num_ok_def num_of_int_def)
qed

definition val_start :: "cunit \<Rightarrow> bool" where
  "val_start c \<longleftrightarrow> is_digit c \<or> c \<in> {110, 116, 102, 34, 91, 123, 45}"

lemma val_start_facts: "val_start c \<Longrightarrow> \<not> json_ws c \<and> c \<noteq> 93 \<and> c \<noteq> 125 \<and> c \<noteq> 44"
  by (auto simp: val_start_def json_ws_def is_digit_def)

lemma skip_ws_id [simp]: "\<not> json_ws c \<Longrightarrow> skip_ws (c # s) = c # s"
  by (simp add: skip_ws_def)

lemma hd_num_str: "num_ok x \<Longrightarrow> num_str x \<noteq> [] \<and> (is_digit (hd (num_str x)) \<or> hd (num_str x) = 45)"
proof (erule num_str_shape)
  fix neg ip fp e
  assume s: "num_str x = (if neg then [45] else []) @ decimal_text ip fp e" and ok: "decimal_ok ip fp"
  have "decimal_text ip fp e \<noteq> [] \<and> is_digit (hd (decimal_text ip fp e))"
    using ok by (cases ip) (auto simp: decimal_text_def decimal_ok_def)
  then show ?thesis by (simp add: s)
qed

lemma stringify_start:
  assumes "json_wf v"
  obtains c s where "stringify v = c # s" and "val_start c"
proof (cases v)
  case (JNum n)
  with assms have "stringify v = num_str n" "num_ok n" by (simp_all add: num_ok_finite)
  then show ?thesis using that hd_num_str [of n] by (cases "num_str n") (auto simp: val_start_def)
next
  case (JBool b)
  then show ?thesis using that by (cases b) (auto simp: val_start_def js_eval)
qed (use that in \<open>auto simp: val_start_def js_eval json_quote_def split: if_splits\<close>)

lemma hd_stringify_append:
  "json_wf v \<Longrightarrow> \<exists>c s. stringify v @ r = c # s \<and> val_start c"
  by (metis append_Cons stringify_start)

lemma lit_append [simp]: "lit w v (w @ r) = Some (v, r)"
  by (simp add: lit_def)

text \<open>Elements and members: given the value parser's round trip, by induction on the list.\<close>

lemma join_hd: "\<exists>s'. join sep ((c # s) # xs) @ r = c # s'"
  by (cases xs) auto

lemma parr_join:
  assumes "vs \<noteq> []" and "\<forall>v\<in>set vs. json_wf v"
    and "\<And>v n r. v \<in> set vs \<Longrightarrow> num_end r \<Longrightarrow> length (stringify v) \<le> n \<Longrightarrow>
           pval n (stringify v @ r) = Some (v, r)"
    and "length (join [44] (map stringify vs)) < n"
  shows "parr n (join [44] (map stringify vs) @ 93 # r) = Some (vs, r)"
  using assms
proof (induction vs arbitrary: n rule: list_nonempty_induct)
  case (single v)
  then obtain m where m: "n = Suc m" "length (stringify v) \<le> m" by (cases n) auto
  have "pval m (stringify v @ 93 # r) = Some (v, 93 # r)"
    using single m by (simp add: num_end_def)
  with m show ?case by (simp add: json_ws_def)
next
  case (cons v vs)
  let ?rest = "join [44] (map stringify vs) @ 93 # r"
  have len: "length (stringify v) + Suc (length (join [44] (map stringify vs))) < n"
    using cons.prems(3) cons.hyps by (simp add: join_Cons)
  moreover have "stringify v \<noteq> []" using stringify_start cons.prems(1) by fastforce
  ultimately obtain m where m: "n = Suc m" "length (stringify v) \<le> m"
    "length (join [44] (map stringify vs)) < m" by (cases n) auto
  have "pval m (stringify v @ 44 # ?rest) = Some (v, 44 # ?rest)"
    using cons.prems(2) [of v "44 # ?rest" m] m by (simp add: num_end_def)
  moreover have "parr m ?rest = Some (vs, r)"
    using cons.IH [of m] cons.prems m by simp
  ultimately show ?case using m cons.hyps by (simp add: join_Cons json_ws_def)
qed

definition member_str :: "jstr \<times> jsval \<Rightarrow> jstr" where
  "member_str p = json_quote (fst p) @ 58 # stringify (snd p)"

lemma pobj_join:
  assumes "ps \<noteq> []" and "\<forall>p\<in>set ps. units_ok (fst p) \<and> json_wf (snd p)"
    and "distinct (map fst (acc @ ps))"
    and "\<And>p n r. p \<in> set ps \<Longrightarrow> num_end r \<Longrightarrow> length (stringify (snd p)) \<le> n \<Longrightarrow>
           pval n (stringify (snd p) @ r) = Some (snd p, r)"
    and "length (join [44] (map member_str ps)) < n"
  shows "pobj n acc (join [44] (map member_str ps) @ 125 # r) = Some (acc @ ps, r)"
  using assms
proof (induction ps arbitrary: n acc rule: list_nonempty_induct)
  case (single p)
  obtain k v where p: "p = (k, v)" by fastforce
  obtain m where m: "n = Suc m" "length (stringify v) \<le> m"
    using single p by (cases n) (auto simp: member_str_def)
  have "pval m (stringify v @ 125 # r) = Some (v, 125 # r)"
    using single(3) [of p "125 # r" m] m p by (simp add: num_end_def)
  moreover have "obj_put k v acc = acc @ [(k, v)]"
    using single(2) p by (simp add: obj_put_fresh)
  ultimately show ?case
    using m p single(1)
    by (simp add: member_str_def json_quote_def pstr_quote_body json_ws_def)
next
  case (cons p ps)
  obtain k v where p: "p = (k, v)" by fastforce
  let ?rest = "join [44] (map member_str ps) @ 125 # r"
  obtain m where m: "n = Suc m" "length (stringify v) \<le> m"
    "length (join [44] (map member_str ps)) < m"
    using cons.prems(4) cons.hyps p by (cases n) (auto simp: member_str_def [of "(k, v)"] join_Cons)
  have "pval m (stringify v @ 44 # ?rest) = Some (v, 44 # ?rest)"
    using cons.prems(3) [of p "44 # ?rest" m] m p by (simp add: num_end_def)
  moreover have "obj_put k v acc = acc @ [(k, v)]"
    using cons.prems(2) p by (simp add: obj_put_fresh)
  moreover have "pobj m (acc @ [(k, v)]) ?rest = Some (acc @ p # ps, r)"
    using cons.IH [of "acc @ [(k, v)]" m] cons.prems m p by simp
  ultimately show ?case
    using m p cons.prems(1) cons.hyps
    by (simp add: member_str_def [of "(k, v)"] json_quote_def pstr_quote_body json_ws_def join_Cons)
qed

lemma stringify_obj_wf:
  "own_entries ps = ps \<Longrightarrow> stringify (JObj ps) = 123 # join [44] (map member_str ps) @ [125]"
  using own_entries_map [of "\<lambda>k v. json_quote k @ 58 # stringify v" ps]
  by (simp add: own_values_def member_str_def [abs_def] comp_def case_prod_unfold)

lemma pval_stringify:
  "json_wf v \<Longrightarrow> num_end r \<Longrightarrow> length (stringify v) \<le> n \<Longrightarrow>
   pval n (stringify v @ r) = Some (v, r)"
proof (induction v arbitrary: n r)
  case JNull
  then show ?case by (cases n) (auto simp: js_eval json_ws_def lit_def)
next
  case (JBool b)
  then show ?case by (cases n) (auto simp: js_eval json_ws_def lit_def split: if_splits)
next
  case (JNum x)
  then have ok: "num_ok x" by simp
  then have str: "stringify (JNum x) = num_str x" by (simp add: num_ok_finite)
  obtain m where n: "n = Suc m" using JNum.prems(3) hd_num_str [OF ok] unfolding str by (cases n) auto
  obtain c s where cs: "num_str x @ r = c # s" and c: "is_digit c \<or> c = 45"
    using hd_num_str [OF ok] by (cases "num_str x") auto
  then have "\<not> json_ws c" "c \<noteq> 123" "c \<noteq> 91" "c \<noteq> 34" "c \<noteq> 116" "c \<noteq> 102" "c \<noteq> 110"
    by (auto simp: is_digit_def json_ws_def)
  then show ?case
    using pnum_num_str [OF ok JNum.prems(2)] unfolding str n cs by simp
next
  case (JStr s)
  then show ?case
    by (cases n) (auto simp: json_quote_def json_ws_def pstr_quote_body)
next
  case (JArr vs)
  then obtain m where n: "n = Suc m" by (cases n) auto
  show ?case
  proof (cases "vs = []")
    case True
    then show ?thesis using n by (simp add: json_ws_def)
  next
    case False
    have "parr m (join [44] (map stringify vs) @ 93 # r) = Some (vs, r)"
      using JArr n False by (intro parr_join) auto
    moreover obtain c s where "join [44] (map stringify vs) @ 93 # r = c # s" "val_start c"
    proof -
      obtain v ws where vs: "vs = v # ws" using False by (cases vs) auto
      obtain c s where "stringify v = c # s" "val_start c"
        using JArr.prems(1) vs by (auto elim: stringify_start)
      then show ?thesis using that join_hd [of "[44]" c s "map stringify ws" "93 # r"] vs by auto
    qed
    ultimately show ?thesis using n val_start_facts [of c] by (simp add: json_ws_def)
  qed
next
  case (JObj ps)
  then obtain m where n: "n = Suc m" by (cases n) auto
  have str: "stringify (JObj ps) = 123 # join [44] (map member_str ps) @ [125]"
    using JObj.prems(1) by (simp add: stringify_obj_wf del: stringify.simps)
  show ?case
  proof (cases "ps = []")
    case True
    then show ?thesis using n by (simp add: json_ws_def own_values_def)
  next
    case False
    have "pobj m [] (join [44] (map member_str ps) @ 125 # r) = Some ([] @ ps, r)"
    proof (rule pobj_join)
      show "length (join [44] (map member_str ps)) < m" using JObj.prems(3) n unfolding str by simp
    qed (use JObj False in auto)
    moreover obtain s where "join [44] (map member_str ps) @ 125 # r = 34 # s"
      using False by (cases ps rule: list.exhaust; cases "tl ps")
        (auto simp: member_str_def json_quote_def)
    ultimately show ?thesis using n unfolding str by (simp add: json_ws_def)
  qed
qed

theorem json_parse_stringify: "json_wf v \<Longrightarrow> json_parse (stringify v) = Some v"
  using pval_stringify [of v "[]" "Suc (2 * length (stringify v))"]
  by (simp add: json_parse_def num_end_def skip_ws_def)


section \<open>The parser's fuel\<close>

lemma length_skip_ws: "length (skip_ws s) \<le> length s"
  by (simp add: skip_ws_def length_dropWhile_le)

lemma skip_ws_Cons_length: "skip_ws s = c # cs \<Longrightarrow> length cs < length s"
  using length_skip_ws [of s] by simp

lemma pstr_length: "pstr s = Some (t, r) \<Longrightarrow> length r < length s"
proof (induction s arbitrary: t r rule: pstr.induct)
  case 1
  then show ?case by simp
next
  case (2 c cs)
  then show ?case
    by (fastforce split: if_splits list.splits option.splits)
qed

lemma length_drop_digits:
  "length (dropWhile is_digit u) \<le> length u"
  "takeWhile is_digit u \<noteq> [] \<Longrightarrow> length (dropWhile is_digit u) < length u"
  by (rule length_dropWhile_le) (cases u; auto split: if_splits simp: length_dropWhile_le le_imp_less_Suc)

lemma frac_part_length: "frac_part r = Some (t, r') \<Longrightarrow> length r' \<le> length r"
  using length_drop_digits(1) [of "tl r"] by (auto simp: frac_part_def Let_def split: if_splits)

lemma exp_part_length: "exp_part r = Some (t, r') \<Longrightarrow> length r' \<le> length r"
  using length_drop_digits(1) [of "tl r"] length_drop_digits(1) [of "tl (tl r)"]
  by (auto simp: exp_part_def Let_def split: if_splits)

lemma pnum_length: "pnum s = Some (t, r) \<Longrightarrow> length r < length s"
proof -
  assume a: "pnum s = Some (t, r)"
  let ?u = "if s \<noteq> [] \<and> hd s = 45 then tl s else s"
  have ne: "takeWhile is_digit ?u \<noteq> []"
    using a by (simp only: pnum_def Let_def split: if_splits) auto
  then obtain fp q e where q: "frac_part (dropWhile is_digit ?u) = Some (fp, q)"
    "exp_part q = Some (e, r)"
    using a by (simp only: pnum_def Let_def split: if_splits option.splits prod.splits) auto
  have "length ?u \<le> length s" by simp
  with length_drop_digits(2) [OF ne] frac_part_length [OF q(1)] exp_part_length [OF q(2)]
  show ?thesis by linarith
qed

lemma lit_length: "w \<noteq> [] \<Longrightarrow> lit w v s = Some (x, r) \<Longrightarrow> length r < length s"
  by (auto simp: lit_def prefix_def split: if_splits)

lemma parser_length:
  "pval n s = Some (v, r) \<Longrightarrow> length r < length s"
  "parr n s = Some (vs, r) \<Longrightarrow> length r < length s"
  "pobj n acc s = Some (ps, r) \<Longrightarrow> length r < length s"
proof (induction n s and n s and n acc s arbitrary: v r and vs r and ps r rule: pval_parr_pobj.induct)
  case (2 n s)
  from 2(3) obtain c cs where cs: "skip_ws s = c # cs" by (auto split: list.splits)
  have l: "length cs < length s" using skip_ws_Cons_length [OF cs] .
  consider (obj) "c = 123" | (arr) "c = 91" | (str) "c = 34"
    | (other) "c \<noteq> 123" "c \<noteq> 91" "c \<noteq> 34" by blast
  then show ?case
  proof cases
    case obj
    then obtain d ds where ds: "skip_ws cs = d # ds" using 2(3) cs by (auto split: list.splits)
    with 2(1) [OF cs obj ds] 2(3) cs obj l skip_ws_Cons_length [OF ds] length_skip_ws [of cs] show ?thesis
      by (fastforce split: if_splits)
  next
    case arr
    then obtain d ds where ds: "skip_ws cs = d # ds" using 2(3) cs by (auto split: list.splits)
    with 2(2) [OF cs _ arr ds] 2(3) cs arr l skip_ws_Cons_length [OF ds] length_skip_ws [of cs] show ?thesis
      by (fastforce split: if_splits)
  next
    case str
    with 2(3) cs l show ?thesis by (auto dest!: pstr_length)
  next
    case other
    have "length (c # cs) \<le> length s" using length_skip_ws [of s] cs by simp
    with other 2(3) cs show ?thesis
      by (auto split: if_splits dest!: pnum_length lit_length [rotated])
  qed
next
  case (4 n s)
  then show ?case
    by (fastforce split: option.splits list.splits if_splits prod.splits dest: skip_ws_Cons_length)
next
  case (6 n acc s)
  then show ?case
    by (fastforce split: option.splits list.splits if_splits prod.splits
        dest: skip_ws_Cons_length pstr_length)
qed auto

lemma parser_fuel_step:
  "(\<forall>s. 2 * length s < n \<longrightarrow> pval (Suc n) s = pval n s) \<and>
   (\<forall>s. 2 * length s + 1 < n \<longrightarrow> parr (Suc n) s = parr n s) \<and>
   (\<forall>acc s. 2 * length s < n \<longrightarrow> pobj (Suc n) acc s = pobj n acc s)"
proof (induction n)
  case 0
  then show ?case by simp
next
  case (Suc n)
  note IH = Suc
  have v: "pval (Suc n) t = pval n t" if "2 * length t < n" for t
    using IH that by blast
  have a: "parr (Suc n) t = parr n t" if "2 * length t + 1 < n" for t
    using IH that by blast
  have o: "pobj (Suc n) acc t = pobj n acc t" if "2 * length t < n" for acc t
    using IH that by blast
  have "pval (Suc (Suc n)) s = pval (Suc n) s" if s: "2 * length s < Suc n" for s
  proof (cases "skip_ws s")
    case Nil
    then show ?thesis by simp
  next
    case (Cons c cs)
    then have l: "length cs < length s" by (rule skip_ws_Cons_length)
    show ?thesis
    proof (cases "skip_ws cs")
      case (Cons d ds)
      with l s length_skip_ws [of cs] have "2 * length (d # ds) + 1 < n" by simp
      then show ?thesis using a [of "d # ds"] o [of "d # ds"] Cons \<open>skip_ws s = c # cs\<close>
        by (simp only: pval.simps list.case)
    qed (simp add: Cons)
  qed
  moreover have "parr (Suc (Suc n)) s = parr (Suc n) s" if s: "2 * length s + 1 < Suc n" for s
  proof -
    have "parr (Suc n) ds = parr n ds" if "pval n s = Some (x, r)" "skip_ws r = d # ds" for x r d ds
      using that s a [of ds] parser_length(1) [of n s x r] skip_ws_Cons_length [of r d ds] by simp
    then show ?thesis using v [of s] s
      by (simp add: parr.simps(2) del: pval.simps split: option.splits list.splits)
  qed
  moreover have "pobj (Suc (Suc n)) acc s = pobj (Suc n) acc s" if s: "2 * length s < Suc n" for acc s
  proof -
    have 1: "pval (Suc n) r2 = pval n r2"
      if "skip_ws s = q # r0" "pstr r0 = Some (k, r1)" "skip_ws r1 = co # r2" for q r0 k r1 co r2
      using that s v [of r2] skip_ws_Cons_length [of s] pstr_length [of r0]
        skip_ws_Cons_length [of r1] by fastforce
    have 2: "pobj (Suc n) acc' ds = pobj n acc' ds"
      if "skip_ws s = q # r0" "pstr r0 = Some (k, r1)" "skip_ws r1 = co # r2"
        "pval n r2 = Some (x, r3)" "skip_ws r3 = d # ds" for q r0 k r1 co r2 x r3 d ds acc'
      using that s o [of ds] skip_ws_Cons_length [of s] pstr_length [of r0]
        skip_ws_Cons_length [of r1] parser_length(1) [of n r2] skip_ws_Cons_length [of r3]
      by fastforce
    show ?thesis using 1 2
      by (simp add: pobj.simps(2) del: pval.simps split: option.splits list.splits)
  qed
  ultimately show ?case by blast
qed

theorem pval_fuel: "2 * length s < n \<Longrightarrow> pval n s = pval (Suc (2 * length s)) s"
proof (induction n)
  case (Suc n)
  show ?case
  proof (cases "2 * length s < n")
    case True
    then have "pval (Suc n) s = pval n s" using parser_fuel_step [of n] by blast
    with Suc True show ?thesis by simp
  next
    case False
    with Suc.prems have "n = 2 * length s" by simp
    then show ?thesis by simp
  qed
qed simp

section \<open>Conversion to a string, truthiness, property access\<close>

text \<open>\<open>String(v)\<close>: arrays join their elements, with \<open>null\<close> printed empty; plain objects
  all print the same.\<close>

fun to_str :: "jsval \<Rightarrow> jstr" where
  "to_str JNull = js ''null''"
| "to_str (JBool b) = (if b then js ''true'' else js ''false'')"
| "to_str (JNum n) = num_str n"
| "to_str (JStr s) = s"
| "to_str (JArr vs) = join [44] (map (\<lambda>v. if v = JNull then [] else to_str v) vs)"
| "to_str (JObj ps) = js ''[object Object]''"

fun truthy :: "jsval \<Rightarrow> bool" where
  "truthy JNull = False"
| "truthy (JBool b) = b"
| "truthy (JNum n) = truthy_num n"
| "truthy (JStr s) = (s \<noteq> [])"
| "truthy (JArr _) = True"
| "truthy (JObj _) = True"

text \<open>Truthiness of a value that may be \<open>undefined\<close> (\<open>None\<close>), and \<open>typeof\<close> tests.\<close>

definition truthy_opt :: "jsval option \<Rightarrow> bool" where
  "truthy_opt v = (case v of None \<Rightarrow> False | Some x \<Rightarrow> truthy x)"

definition as_str :: "jsval option \<Rightarrow> jstr option" where
  "as_str v = (case v of Some (JStr s) \<Rightarrow> Some s | _ \<Rightarrow> None)"

definition as_num :: "jsval option \<Rightarrow> jnum option" where
  "as_num v = (case v of Some (JNum n) \<Rightarrow> Some n | _ \<Rightarrow> None)"

definition as_arr :: "jsval option \<Rightarrow> jsval list option" where
  "as_arr v = (case v of Some (JArr vs) \<Rightarrow> Some vs | _ \<Rightarrow> None)"

definition as_obj :: "jsval option \<Rightarrow> (jstr \<times> jsval) list option" where
  "as_obj v = (case v of Some (JObj ps) \<Rightarrow> Some ps | _ \<Rightarrow> None)"

text \<open>\<open>v.k\<close>: a value without own properties has none of the keys the sources read.\<close>

definition get_prop :: "jsval \<Rightarrow> string \<Rightarrow> jsval option" where
  "get_prop v k = (case v of JObj ps \<Rightarrow> map_of ps (js k) | _ \<Rightarrow> None)"

text \<open>\<open>v?.k\<close>.\<close>

definition get_prop_opt :: "jsval option \<Rightarrow> string \<Rightarrow> jsval option" where
  "get_prop_opt v k = (case v of None \<Rightarrow> None | Some x \<Rightarrow> get_prop x k)"

lemma get_prop_JObj [simp]: "get_prop (JObj ps) k = map_of ps (js k)"
  by (simp add: get_prop_def)

text \<open>\<open>Number(v)\<close>: an object converts to a string first.\<close>

fun js_number :: "jsval \<Rightarrow> jnum" where
  "js_number JNull = Fin 0"
| "js_number (JBool b) = Fin (if b then 1 else 0)"
| "js_number (JNum n) = n"
| "js_number (JStr s) = to_number s"
| "js_number (JArr vs) = to_number (to_str (JArr vs))"
| "js_number (JObj ps) = to_number (to_str (JObj ps))"

text \<open>\<open>{ ...ps, ...v }\<close>: the own properties of \<open>v\<close> in enumeration order; a string has its
  characters, an array its elements, and other values have none.\<close>

definition own_props :: "jsval \<Rightarrow> (jstr \<times> jsval) list" where
  "own_props v =
     (case v of JObj ps \<Rightarrow> own_entries ps
      | JArr vs \<Rightarrow> map (\<lambda>(i, x). (nat_str i, x)) (enumerate 0 vs)
      | JStr s \<Rightarrow> map (\<lambda>(i, c). (nat_str i, JStr [c])) (enumerate 0 s)
      | _ \<Rightarrow> [])"

definition spread_over :: "(jstr \<times> jsval) list \<Rightarrow> jsval \<Rightarrow> (jstr \<times> jsval) list" where
  "spread_over ps v = foldl (\<lambda>acc (k, x). obj_put k x acc) ps (own_props v)"

section \<open>Objects printed and read back\<close>

lemma own_entries_idem: "own_entries (own_entries ps) = own_entries ps"
proof -
  let ?P = "\<lambda>(k :: jstr, _). array_index k \<noteq> None" and ?Q = "\<lambda>(k :: jstr, _). array_index k = None"
  let ?f = "\<lambda>(k :: jstr, _). the (array_index k)"
  have "filter ?P (sort_key ?f (filter ?P ps)) = sort_key ?f (filter ?P ps)" "filter ?Q (sort_key ?f (filter ?P ps)) = []"
    by (auto simp: filter_id_conv filter_empty_conv)
  moreover have "filter ?P (filter ?Q ps) = []" "filter ?Q (filter ?Q ps) = filter ?Q ps"
    by (auto simp: filter_empty_conv filter_id_conv)
  moreover have "sort_key ?f (sort_key ?f (filter ?P ps)) = sort_key ?f (filter ?P ps)"
    by (rule sort_key_id_if_sorted) simp
  ultimately show ?thesis unfolding own_entries_def filter_append by simp
qed

lemma distinct_own_entries: "distinct (map fst ps) \<Longrightarrow> distinct (map fst (own_entries ps))"
proof -
  assume d: "distinct (map fst ps)"
  have "mset (map fst (own_entries ps)) = mset (map fst ps)" by (simp add: mset_own_entries)
  with d show ?thesis by (metis mset_eq_imp_distinct_iff)
qed

lemma map_of_own_entries: "distinct (map fst ps) \<Longrightarrow> map_of (own_entries ps) = map_of ps"
  by (simp add: map_of_inject_set distinct_own_entries)

lemma stringify_own: "stringify (JObj (own_entries ps)) = stringify (JObj ps)"
  by (simp add: own_values_def own_entries_map own_entries_idem)

lemma json_parse_obj:
  assumes "distinct (map fst ps)" and "\<forall>(k, v)\<in>set ps. units_ok k \<and> json_wf v"
  shows "json_parse (stringify (JObj ps)) = Some (JObj (own_entries ps))"
proof -
  have "json_wf (JObj (own_entries ps))" using assms by (auto simp: own_entries_idem distinct_own_entries)
  then show ?thesis using json_parse_stringify stringify_own by metis
qed

lemma map_of_puts:
  "distinct (map fst ps) \<Longrightarrow> map_of (foldl (\<lambda>r (k, v). obj_put k v r) r ps) = map_of r ++ map_of ps"
proof (induction ps arbitrary: r)
  case (Cons p ps)
  obtain k v where p: "p = (k, v)" by force
  have "map_of ps k = None" using Cons.prems p by (simp add: map_of_eq_None_iff)
  then show ?case using Cons p by (auto simp: fun_eq_iff map_add_def split: option.splits)
qed simp

end
