(* ===== verification/JsDate.thy ===== *)
theory JsDate
  imports JsNumber
begin

text \<open>
  \<open>Date.prototype.toISOString\<close> on a time in milliseconds since the epoch, for the years
  0 to 9999 (every time the modelled code formats is a current time).
\<close>

definition pad :: "nat \<Rightarrow> nat \<Rightarrow> jstr" where
  "pad w n = (let s = nat_str n in replicate (w - length s) 48 @ s)"

text \<open>Year, month and day of a day number, counting years from March in 400-year eras.\<close>

definition civil_from_days :: "int \<Rightarrow> int \<times> int \<times> int" where
  "civil_from_days d =
     (let z = d + 719468; era = z div 146097; doe = z mod 146097;
          yoe = (doe - doe div 1460 + doe div 36524 - doe div 146096) div 365;
          doy = doe - (365 * yoe + yoe div 4 - yoe div 100);
          mp = (5 * doy + 2) div 153;
          m = (if mp < 10 then mp + 3 else mp - 9);
          y = yoe + era * 400 + (if m \<le> 2 then 1 else 0)
      in (y, m, doy - (153 * mp + 2) div 5 + 1))"

definition toISOString :: "int \<Rightarrow> jstr" where
  "toISOString ms =
     (let (y, m, d) = civil_from_days (ms div 86400000); t = ms mod 86400000
      in pad 4 (nat y) @ [45] @ pad 2 (nat m) @ [45] @ pad 2 (nat d) @ [84]
         @ pad 2 (nat (t div 3600000)) @ [58] @ pad 2 (nat (t div 60000 mod 60)) @ [58]
         @ pad 2 (nat (t div 1000 mod 60)) @ [46] @ pad 3 (nat (t mod 1000)) @ [90])"

lemma toISOString_epoch: "toISOString 0 = js ''1970-01-01T00:00:00.000Z''"
  by code_simp

lemma toISOString_leap_day: "toISOString 951827696789 = js ''2000-02-29T12:34:56.789Z''"
  by code_simp

end
