(* ===== verification/PlaygroundTypes.thy ===== *)
theory PlaygroundTypes
  imports JsJson JsDate
begin

text \<open>
  The data of the chat playground (\<open>features/playground/types.ts\<close>) and its constants
  (\<open>features/playground/constants.ts\<close>). A field the source marks optional is an \<open>option\<close>,
  with \<open>None\<close> for \<open>undefined\<close>. Fields that hold whatever a server sent, which the source
  types by a cast of \<open>JSON.parse\<close>, are JSON values.
\<close>

section \<open>Enumerations\<close>

datatype message_role = User | Assistant | System

datatype message_status = Loading | Streaming | Complete | Error

datatype endpoint = ChatCompletions | Responses

section \<open>Requests\<close>

datatype content_part =
    TextPart jstr
  | ImagePart jstr

datatype message_content = PlainText jstr | Parts "content_part list"

record chat_message =
  role :: message_role
  msg_content :: message_content

record chat_request =
  req_model :: jstr
  req_group :: "jstr option"
  req_messages :: "chat_message list"
  req_stream :: bool
  req_temperature :: "jnum option"
  req_top_p :: "jnum option"
  req_max_tokens :: "jnum option"
  req_frequency_penalty :: "jnum option"
  req_presence_penalty :: "jnum option"
  req_seed :: "jnum option"

text \<open>The type of a part of a Responses message: \<open>input_text\<close> or \<open>output_text\<close>.\<close>

datatype part_type = InputText | OutputText

record responses_input =
  in_role :: message_role
  in_content :: "(part_type \<times> jstr) list"

record responses_request =
  rr_model :: jstr
  rr_group :: "jstr option"
  rr_input :: "responses_input list"
  rr_instructions :: "jstr option"
  rr_stream :: bool
  rr_temperature :: "jnum option"
  rr_top_p :: "jnum option"
  rr_max_output_tokens :: "jnum option"

datatype playground_request = ChatReq chat_request | RespReq responses_request

section \<open>What a request records\<close>

datatype header_value = One jstr | Many "jstr list"

record stream_event =
  index :: nat
  received_at :: jstr
  ev_name :: "jstr option"
  ev_id :: "jstr option"
  ev_raw :: "jstr option"
  ev_data :: "jsval option"

record error_detail =
  err_message :: jsval
  err_code :: "jsval option"
  err_status :: "int option"
  err_raw :: "jsval option"

datatype details_mode = StreamMode | NonStreamMode

record response_details =
  mode :: details_mode
  endpoint_path :: jstr
  protocol :: endpoint
  request :: playground_request
  started_at :: jstr
  completed_at :: "jstr option"
  duration_ms :: "int option"
  http_status :: "int option"
  http_status_text :: "jstr option"
  response_headers :: "(jstr \<times> header_value) list option"
  stream_ready_state :: "int option"
  response_id :: "jsval option"
  response_object :: "jsval option"
  created :: "jsval option"
  response_model :: "jsval option"
  finish_reason :: "jsval option"
  usage :: "jsval option"
  raw_response :: "jsval option"
  raw_chunks :: "stream_event list option"
  chunk_count :: "nat option"
  stored_chunk_count :: "nat option"
  truncated_chunks :: "bool option"
  aborted :: "bool option"
  error_info :: "error_detail option"

section \<open>Messages\<close>

record message_version =
  version_id :: jstr
  content :: jstr

record reasoning_info =
  reasoning_content :: jstr
  reasoning_duration :: jnum

record message =
  key :: jstr
  from_role :: message_role
  versions :: "message_version list"
  sources :: "(jstr \<times> jstr) list option"
  reasoning :: "reasoning_info option"
  isReasoningStreaming :: "bool option"
  isReasoningComplete :: "bool option"
  isContentComplete :: "bool option"
  status :: "message_status option"
  errorCode :: "jsval option"
  details :: "response_details option"

section \<open>Configuration\<close>

record playground_config =
  cfg_endpoint :: endpoint
  cfg_model :: jstr
  cfg_group :: jstr
  temperature :: jnum
  top_p :: jnum
  max_tokens :: jnum
  frequency_penalty :: jnum
  presence_penalty :: jnum
  seed :: "jnum option"
  cfg_stream :: bool

record parameter_enabled =
  en_temperature :: bool
  en_top_p :: bool
  en_max_tokens :: bool
  en_frequency_penalty :: bool
  en_presence_penalty :: bool
  en_seed :: bool

section \<open>Constants\<close>

definition API_CHAT_COMPLETIONS :: jstr where
  "API_CHAT_COMPLETIONS = js ''/pg/chat/completions''"

definition API_RESPONSES :: jstr where
  "API_RESPONSES = js ''/pg/responses''"

definition DEFAULT_CONFIG :: playground_config where
  "DEFAULT_CONFIG =
     \<lparr>cfg_endpoint = ChatCompletions, cfg_model = js ''gpt-4o'', cfg_group = js ''default'',
      temperature = round64 (7 / 10), top_p = Fin 1, max_tokens = Fin 4096,
      frequency_penalty = Fin 0, presence_penalty = Fin 0, seed = None, cfg_stream = True\<rparr>"

definition DEFAULT_PARAMETER_ENABLED :: parameter_enabled where
  "DEFAULT_PARAMETER_ENABLED =
     \<lparr>en_temperature = True, en_top_p = True, en_max_tokens = False,
      en_frequency_penalty = True, en_presence_penalty = True, en_seed = False\<rparr>"

definition API_REQUEST_ERROR :: jstr where
  "API_REQUEST_ERROR = js ''Request error occurred''"

definition PARSE_ERROR :: jstr where
  "PARSE_ERROR = js ''Error parsing response data''"

definition STREAM_START_ERROR :: jstr where
  "STREAM_START_ERROR = js ''Error establishing connection''"

definition CONNECTION_CLOSED :: jstr where
  "CONNECTION_CLOSED = js ''Connection closed''"

definition INTERRUPTED :: jstr where
  "INTERRUPTED = js ''Generation was interrupted''"

text \<open>\<open>getPlaygroundEndpointPath\<close> (\<open>features/playground/api.ts\<close>).\<close>

definition getPlaygroundEndpointPath :: "endpoint \<Rightarrow> jstr" where
  "getPlaygroundEndpointPath ep = (if ep = Responses then API_RESPONSES else API_CHAT_COMPLETIONS)"

end
