(* ===== verification/MessageUtils.thy ===== *)
theory MessageUtils
  imports PlaygroundTypes
begin

text \<open>
  \<open>features/playground/lib/message-utils.ts\<close>: messages of the chat, the separation of
  \<open><think>\<close> blocks from the visible text, and the repair of messages loaded from storage.
  The identifiers \<open>nanoid\<close> returns are arguments.
\<close>

section \<open>Versions and message construction\<close>

definition createMessageVersion :: "jstr \<Rightarrow> jstr \<Rightarrow> message_version" where
  "createMessageVersion nid s = \<lparr>version_id = nid, content = s\<rparr>"

definition getCurrentVersion :: "message \<Rightarrow> message_version" where
  "getCurrentVersion m =
     (case versions m of [] \<Rightarrow> \<lparr>version_id = js ''default'', content = []\<rparr> | v # _ \<Rightarrow> v)"

definition updateCurrentVersionContent :: "message \<Rightarrow> jstr \<Rightarrow> message" where
  "updateCurrentVersionContent m s =
     m\<lparr>versions := [(getCurrentVersion m)\<lparr>content := s\<rparr>]\<rparr>"

definition createUserMessage :: "jstr \<Rightarrow> jstr \<Rightarrow> jstr \<Rightarrow> message" where
  "createUserMessage nid1 nid2 s =
     \<lparr>key = nid1, from_role = User, versions = [createMessageVersion nid2 s],
      sources = None, reasoning = None, isReasoningStreaming = None,
      isReasoningComplete = None, isContentComplete = None, status = None,
      errorCode = None, details = None\<rparr>"

definition createLoadingAssistantMessage :: "jstr \<Rightarrow> jstr \<Rightarrow> message" where
  "createLoadingAssistantMessage nid1 nid2 =
     \<lparr>key = nid1, from_role = Assistant, versions = [createMessageVersion nid2 []],
      sources = None, reasoning = None, isReasoningStreaming = Some False,
      isReasoningComplete = Some False, isContentComplete = Some False,
      status = Some Loading, errorCode = None, details = None\<rparr>"

section \<open>Content\<close>

definition buildMessageContent :: "jstr \<Rightarrow> jstr list \<Rightarrow> message_content" where
  "buildMessageContent s imageUrls =
     (let validImages = filter (\<lambda>url. trim url \<noteq> []) imageUrls
      in if validImages = [] then PlainText s
         else Parts (TextPart s # map (\<lambda>url. ImagePart (trim url)) validImages))"

fun is_text_part :: "content_part \<Rightarrow> bool" where
  "is_text_part (TextPart _) = True"
| "is_text_part (ImagePart _) = False"

definition getTextContent :: "message_content \<Rightarrow> jstr" where
  "getTextContent c =
     (case c of
        PlainText s \<Rightarrow> s
      | Parts ps \<Rightarrow> (case List.find is_text_part ps of Some (TextPart t) \<Rightarrow> t | _ \<Rightarrow> []))"

definition formatMessageForAPI :: "message \<Rightarrow> chat_message" where
  "formatMessageForAPI m =
     \<lparr>role = from_role m, msg_content = PlainText (content (getCurrentVersion m))\<rparr>"

definition isValidMessage :: "message \<Rightarrow> bool" where
  "isValidMessage m =
     (case versions m of
        [] \<Rightarrow> False
      | v # _ \<Rightarrow> \<not> (from_role m = Assistant \<and> trim (content v) = []))"

section \<open>Think tags\<close>

definition OPEN_TAG :: jstr where "OPEN_TAG = js ''<think>''"
definition CLOSE_TAG :: jstr where "CLOSE_TAG = js ''</think>''"

record think_parse =
  visibleContent :: jstr
  tp_reasoning :: jstr
  hasUnclosedTag :: bool

text \<open>The loop of \<open>parseThinkTags\<close>, with its position and the parts pushed so far.\<close>

function think_loop :: "jstr \<Rightarrow> nat \<Rightarrow> jstr list \<Rightarrow> jstr list \<Rightarrow> jstr list \<times> jstr list \<times> bool" where
  "think_loop c pos vis reas =
     (case index_from OPEN_TAG c pos of
        None \<Rightarrow> (if pos < length c then vis @ [drop pos c] else vis, reas, False)
      | Some openPos \<Rightarrow>
          (let vis' = (if pos < openPos then vis @ [substring c pos openPos] else vis)
           in case index_from CLOSE_TAG c (openPos + 7) of
                None \<Rightarrow> (vis', reas @ [drop (openPos + 7) c], True)
              | Some closePos \<Rightarrow>
                  think_loop c (closePos + 8) vis' (reas @ [substring c (openPos + 7) closePos])))"
  by pat_completeness auto

lemma length_tags [simp]: "length OPEN_TAG = 7" "length CLOSE_TAG = 8"
  by (simp_all add: OPEN_TAG_def CLOSE_TAG_def)

lemma index_from_bounds:
  "index_from pat c k = Some i \<Longrightarrow> pat \<noteq> [] \<Longrightarrow> k \<le> i \<and> i + length pat \<le> length c"
  by (cases "k \<le> length c") (auto simp: index_from_def dest: index_of_bound)

termination think_loop
proof (relation "measure (\<lambda>(c, pos, _, _). Suc (length c) - pos)", goal_cases)
  case 1
  show ?case by simp
next
  case (2 c pos vis reas openPos x closePos)
  have "OPEN_TAG \<noteq> []" "CLOSE_TAG \<noteq> []" by (auto simp: OPEN_TAG_def CLOSE_TAG_def)
  with 2(1) 2(3) show ?case
    using index_from_bounds [of OPEN_TAG c pos openPos]
      index_from_bounds [of CLOSE_TAG c "openPos + 7" closePos]
    by auto
qed

declare think_loop.simps [simp del]

definition parseThinkTags :: "jstr \<Rightarrow> think_parse" where
  "parseThinkTags c =
     (if \<not> str_includes c OPEN_TAG
      then \<lparr>visibleContent = c, tp_reasoning = [], hasUnclosedTag = False\<rparr>
      else let (vis, reas, unclosed) = think_loop c 0 [] []
           in \<lparr>visibleContent = trim (join [] vis), tp_reasoning = trim (join [10, 10] reas),
               hasUnclosedTag = unclosed\<rparr>)"

section \<open>Updates of the message list\<close>

definition updateLastAssistantMessage :: "message list \<Rightarrow> (message \<Rightarrow> message) \<Rightarrow> message list" where
  "updateLastAssistantMessage ms f =
     (if ms = [] then ms
      else if from_role (last ms) \<noteq> Assistant then ms
      else ms[length ms - 1 := f (last ms)])"

definition updateAssistantMessageWithError ::
  "message list \<Rightarrow> jsval \<Rightarrow> jsval option \<Rightarrow> response_details option \<Rightarrow> message list" where
  "updateAssistantMessageWithError ms errorMessage code dets =
     updateLastAssistantMessage ms (\<lambda>m.
       (updateCurrentVersionContent m (API_REQUEST_ERROR @ js '': '' @ to_str errorMessage))
         \<lparr>status := Some Error,
          isReasoningStreaming := Some False,
          errorCode := (if truthy_opt code then code else Some JNull),
          details := (case dets of None \<Rightarrow> details m | Some d \<Rightarrow> Some d)\<rparr>)"

definition processStreamingContent :: "message \<Rightarrow> jstr option \<Rightarrow> message" where
  "processStreamingContent m contentChunk =
     (let cur = content (getCurrentVersion m);
          fullContent = (if truthy_str contentChunk then cur @ the contentChunk else cur);
          p = parseThinkTags fullContent;
          finalReasoning = (if tp_reasoning p \<noteq> []
                            then Some \<lparr>reasoning_content = tp_reasoning p, reasoning_duration = Fin 0\<rparr>
                            else reasoning m)
      in (updateCurrentVersionContent m fullContent)
           \<lparr>reasoning := finalReasoning, isReasoningStreaming := Some (hasUnclosedTag p)\<rparr>)"

definition finalizeMessage :: "message \<Rightarrow> jstr option \<Rightarrow> message" where
  "finalizeMessage m apiReasoningContent =
     (let p = parseThinkTags (content (getCurrentVersion m));
          finalReasoning =
            or_else (or_str apiReasoningContent (map_option reasoning_content (reasoning m)))
              (tp_reasoning p)
      in (updateCurrentVersionContent m (visibleContent p))
           \<lparr>reasoning :=
              (if finalReasoning \<noteq> []
               then Some \<lparr>reasoning_content = finalReasoning,
                          reasoning_duration =
                            (case reasoning m of
                               Some r \<Rightarrow> (if truthy_num (reasoning_duration r)
                                          then reasoning_duration r else Fin 0)
                             | None \<Rightarrow> Fin 0)\<rparr>
               else None),
            isReasoningStreaming := Some False\<rparr>)"

text \<open>A message \<open>sanitizeMessagesOnLoad\<close> looks for: an assistant message that was still
  loading or streaming when it was stored.\<close>

definition stuck :: "message \<Rightarrow> bool" where
  "stuck m \<longleftrightarrow> from_role m = Assistant \<and> (status m = Some Loading \<or> status m = Some Streaming)"

text \<open>The loop from the end of the list: \<open>scan_back p xs n\<close> looks at \<open>xs[n-1]\<close> down to \<open>xs[0]\<close>.\<close>

fun scan_back :: "('a \<Rightarrow> bool) \<Rightarrow> 'a list \<Rightarrow> nat \<Rightarrow> nat option" where
  "scan_back p xs 0 = None"
| "scan_back p xs (Suc i) = (if p (xs ! i) then Some i else scan_back p xs i)"

definition sanitize_message :: "message \<Rightarrow> message" where
  "sanitize_message m =
     (let finalized = finalizeMessage m None;
          hasContent = (case versions finalized of [] \<Rightarrow> False | v # _ \<Rightarrow> trim (content v) \<noteq> []);
          hasReasoning = (case reasoning finalized of None \<Rightarrow> False
                          | Some r \<Rightarrow> trim (reasoning_content r) \<noteq> [])
      in if hasContent \<or> hasReasoning
         then finalized\<lparr>status := Some Complete, isReasoningStreaming := Some False\<rparr>
         else (updateCurrentVersionContent finalized (API_REQUEST_ERROR @ js '': '' @ INTERRUPTED))
                \<lparr>status := Some Error, isReasoningStreaming := Some False\<rparr>)"

definition sanitizeMessagesOnLoad :: "message list \<Rightarrow> message list" where
  "sanitizeMessagesOnLoad ms =
     (case scan_back stuck ms (length ms) of
        None \<Rightarrow> ms
      | Some i \<Rightarrow> ms[i := sanitize_message (ms ! i)])"

section \<open>What \<open>parseThinkTags\<close> computes\<close>

text \<open>A text with \<open>bs\<close> closed think blocks, each behind some visible text, and the visible
  text \<open>w\<close> after the last of them.\<close>

fun think_doc :: "(jstr \<times> jstr) list \<Rightarrow> jstr \<Rightarrow> jstr" where
  "think_doc [] w = w"
| "think_doc ((v, r) # bs) w = v @ OPEN_TAG @ r @ CLOSE_TAG @ think_doc bs w"

definition blocks_ok :: "(jstr \<times> jstr) list \<Rightarrow> bool" where
  "blocks_ok bs \<longleftrightarrow> (\<forall>(v, r) \<in> set bs. \<not> sublist OPEN_TAG v \<and> \<not> sublist CLOSE_TAG r)"

definition nonempty_parts :: "jstr list \<Rightarrow> jstr list" where
  "nonempty_parts = filter (\<lambda>v. v \<noteq> [])"

lemma index_of_open: "\<not> sublist OPEN_TAG v \<Longrightarrow> index_of OPEN_TAG (v @ OPEN_TAG @ s) = Some (length v)"
  by (rule index_of_unbordered [of _ 60 "js ''think>''"]) (auto simp: OPEN_TAG_def js_Cons)

lemma index_of_close: "\<not> sublist CLOSE_TAG r \<Longrightarrow> index_of CLOSE_TAG (r @ CLOSE_TAG @ s) = Some (length r)"
  by (rule index_of_unbordered [of _ 60 "js ''/think>''"]) (auto simp: CLOSE_TAG_def js_Cons)

lemma join_nonempty_parts: "join [] (nonempty_parts vs) = concat vs"
proof (induction vs)
  case (Cons v vs)
  have "join [] (v # us) = v @ join [] us" for us by (cases us) auto
  with Cons show ?case by (simp add: nonempty_parts_def)
qed (simp add: nonempty_parts_def)

lemma think_loop_visible:
  assumes "\<not> sublist OPEN_TAG w"
  shows "think_loop (p @ w) (length p) vis reas = (vis @ nonempty_parts [w], reas, False)"
  using assms by (subst think_loop.simps) 
   (auto simp: index_from_def index_of_None_iff[THEN iffD2] nonempty_parts_def)

lemma think_loop_unclosed:
  assumes "\<not> sublist OPEN_TAG w" "\<not> sublist CLOSE_TAG r"
  shows "think_loop (p @ w @ OPEN_TAG @ r) (length p) vis reas = (vis @ nonempty_parts [w], reas @ [r], True)"
  using assms by (subst think_loop.simps) 
   (auto simp: index_from_def index_of_open index_of_None_iff[THEN iffD2] nonempty_parts_def substring_def)

lemma think_loop_block:
  assumes "\<not> sublist OPEN_TAG v" "\<not> sublist CLOSE_TAG r"
  shows "think_loop (p @ v @ OPEN_TAG @ r @ CLOSE_TAG @ s) (length p) vis reas =
    think_loop ((p @ v @ OPEN_TAG @ r @ CLOSE_TAG) @ s) (length (p @ v @ OPEN_TAG @ r @ CLOSE_TAG))
      (vis @ nonempty_parts [v]) (reas @ [r])"
  using assms by (subst think_loop.simps) 
   (auto simp: index_from_def index_of_open index_of_close nonempty_parts_def substring_def add_ac)

lemma think_loop_doc:
  assumes "blocks_ok bs"
  shows "\<exists>p'. think_loop (p @ think_doc bs w) (length p) vis reas =
    think_loop (p' @ w) (length p') (vis @ nonempty_parts (map fst bs)) (reas @ map snd bs)"
  using assms
proof (induction bs arbitrary: p vis reas)
  case Nil
  then show ?case by (auto simp: nonempty_parts_def)
next
  case (Cons b bs)
  obtain v r where b: "b = (v, r)" by (cases b)
  let ?p = "p @ v @ OPEN_TAG @ r @ CLOSE_TAG"
  from Cons.prems b have ok: "\<not> sublist OPEN_TAG v" "\<not> sublist CLOSE_TAG r" "blocks_ok bs"
    by (auto simp: blocks_ok_def)
  obtain p' where "think_loop (?p @ think_doc bs w) (length ?p) (vis @ nonempty_parts [v]) (reas @ [r]) =
      think_loop (p' @ w) (length p') ((vis @ nonempty_parts [v]) @ nonempty_parts (map fst bs)) ((reas @ [r]) @ map snd bs)"
    using Cons.IH [OF ok(3)] by blast
  then show ?case
    using think_loop_block [OF ok(1,2), of p "think_doc bs w" vis reas] b
    by (auto simp: nonempty_parts_def)
qed

lemma sublist_think_doc: "bs \<noteq> [] \<Longrightarrow> sublist OPEN_TAG (think_doc bs w)"
  by (cases bs) auto

theorem parseThinkTags_closed:
  assumes "blocks_ok bs" "\<not> sublist OPEN_TAG w" "bs \<noteq> []"
  shows "parseThinkTags (think_doc bs w) =
    \<lparr>visibleContent = trim (concat (map fst bs) @ w),
     tp_reasoning = trim (join [10, 10] (map snd bs)), hasUnclosedTag = False\<rparr>"
proof -
  obtain p' where "think_loop (think_doc bs w) 0 [] [] =
      think_loop (p' @ w) (length p') (nonempty_parts (map fst bs)) (map snd bs)"
    using think_loop_doc [OF assms(1), of "[]" w "[]" "[]"] by auto
  moreover have "nonempty_parts (map fst bs) @ nonempty_parts [w] = nonempty_parts (map fst bs @ [w])"
    by (simp add: nonempty_parts_def)
  ultimately show ?thesis
    using assms by (simp add: parseThinkTags_def str_includes_iff sublist_think_doc think_loop_visible
        join_nonempty_parts)
qed

theorem parseThinkTags_unclosed:
  assumes "blocks_ok bs" "\<not> sublist OPEN_TAG w" "\<not> sublist CLOSE_TAG r"
  shows "parseThinkTags (think_doc bs (w @ OPEN_TAG @ r)) =
    \<lparr>visibleContent = trim (concat (map fst bs) @ w),
     tp_reasoning = trim (join [10, 10] (map snd bs @ [r])), hasUnclosedTag = True\<rparr>"
proof -
  obtain p' where "think_loop (think_doc bs (w @ OPEN_TAG @ r)) 0 [] [] =
      think_loop (p' @ w @ OPEN_TAG @ r) (length p') (nonempty_parts (map fst bs)) (map snd bs)"
    using think_loop_doc [OF assms(1), of "[]" _ "[]" "[]"] by auto
  moreover have "nonempty_parts (map fst bs) @ nonempty_parts [w] = nonempty_parts (map fst bs @ [w])"
    by (simp add: nonempty_parts_def)
  moreover have "sublist OPEN_TAG (think_doc bs (w @ OPEN_TAG @ r))"
    by (cases bs) (auto simp: sublist_think_doc)
  ultimately show ?thesis
    using assms by (simp add: parseThinkTags_def str_includes_iff think_loop_unclosed
        join_nonempty_parts)
qed

lemma first_occurrence:
  assumes "pat \<noteq> []" "sublist pat s"
  obtains a b where "s = a @ pat @ b" "\<not> sublist pat a"
proof -
  have "\<exists>a b. s = a @ pat @ b \<and> \<not> sublist pat a" using assms(2)
  proof (induction s)
    case Nil
    then show ?case using assms(1) by simp
  next
    case (Cons c s)
    show ?case
    proof (cases "prefix pat (c # s)")
      case True
      then obtain b where "c # s = [] @ pat @ b" by (auto simp: prefix_def)
      moreover have "\<not> sublist pat []" using assms(1) by simp
      ultimately show ?thesis by blast
    next
      case False
      then obtain a b where ab: "s = a @ pat @ b" "\<not> sublist pat a"
        using Cons by (auto simp: sublist_Cons_right)
      have "\<not> prefix pat (c # a)" using False ab(1) by (metis append_Cons prefix_prefix)
      with ab(2) have "\<not> sublist pat (c # a)" by (simp add: sublist_Cons_right)
      with ab(1) show ?thesis by (metis append_Cons)
    qed
  qed
  with that show ?thesis by blast
qed

theorem think_doc_complete:
  "\<exists>bs w. blocks_ok bs \<and> \<not> sublist OPEN_TAG w \<and>
     (c = think_doc bs w \<or> (\<exists>r. \<not> sublist CLOSE_TAG r \<and> c = think_doc bs (w @ OPEN_TAG @ r)))"
proof (induction "length c" arbitrary: c rule: less_induct)
  case less
  show ?case
  proof (cases "sublist OPEN_TAG c")
    case False
    then have "blocks_ok []" "c = think_doc [] c" by (auto simp: blocks_ok_def)
    with False show ?thesis by blast
  next
    case True
    obtain v s where v: "c = v @ OPEN_TAG @ s" "\<not> sublist OPEN_TAG v"
      using first_occurrence [OF _ True] by (auto simp: OPEN_TAG_def)
    show ?thesis
    proof (cases "sublist CLOSE_TAG s")
      case False
      have "blocks_ok []" "c = think_doc [] (v @ OPEN_TAG @ s)" using v by (auto simp: blocks_ok_def)
      with False v(2) show ?thesis by blast
    next
      case True
      obtain r t where r: "s = r @ CLOSE_TAG @ t" "\<not> sublist CLOSE_TAG r"
        using first_occurrence [OF _ True] by (auto simp: CLOSE_TAG_def)
      have "length t < length c" using v r by simp
      from less [OF this] obtain bs w where IH: "blocks_ok bs" "\<not> sublist OPEN_TAG w"
        "t = think_doc bs w \<or> (\<exists>r. \<not> sublist CLOSE_TAG r \<and> t = think_doc bs (w @ OPEN_TAG @ r))"
        by blast
      have "blocks_ok ((v, r) # bs)" using IH(1) v r by (simp add: blocks_ok_def)
      moreover have "c = v @ OPEN_TAG @ r @ CLOSE_TAG @ t" using v r by simp
      ultimately show ?thesis using IH(2,3) by (metis think_doc.simps(2))
    qed
  qed
qed

text \<open>C4 What \<open>parseThinkTags\<close> returns for any text: the text is a sequence of closed think
  blocks, each behind a visible part without opening tag, followed by a last visible part, and
  possibly by an opening tag and a buffer without closing tag. The visible content is the
  trimmed concatenation of the visible parts and the reasoning is the trimmed texts of the
  blocks, a blank line between them; a text without any tag is returned untrimmed.\<close>

theorem parseThinkTags_spec:
  "\<exists>bs w. blocks_ok bs \<and> \<not> sublist OPEN_TAG w \<and>
     (c = think_doc bs w \<and>
      parseThinkTags c =
        (if bs = [] then \<lparr>visibleContent = c, tp_reasoning = [], hasUnclosedTag = False\<rparr>
         else \<lparr>visibleContent = trim (concat (map fst bs) @ w),
               tp_reasoning = trim (join [10, 10] (map snd bs)), hasUnclosedTag = False\<rparr>)
      \<or> (\<exists>r. \<not> sublist CLOSE_TAG r \<and> c = think_doc bs (w @ OPEN_TAG @ r) \<and>
          parseThinkTags c =
            \<lparr>visibleContent = trim (concat (map fst bs) @ w),
             tp_reasoning = trim (join [10, 10] (map snd bs @ [r])), hasUnclosedTag = True\<rparr>))"
proof -
  obtain bs w where ok: "blocks_ok bs" "\<not> sublist OPEN_TAG w" and
    c: "c = think_doc bs w \<or> (\<exists>r. \<not> sublist CLOSE_TAG r \<and> c = think_doc bs (w @ OPEN_TAG @ r))"
    using think_doc_complete [of c] by blast
  show ?thesis
  proof (cases "c = think_doc bs w")
    case True
    then have "parseThinkTags c =
        (if bs = [] then \<lparr>visibleContent = c, tp_reasoning = [], hasUnclosedTag = False\<rparr>
         else \<lparr>visibleContent = trim (concat (map fst bs) @ w),
               tp_reasoning = trim (join [10, 10] (map snd bs)), hasUnclosedTag = False\<rparr>)"
      using ok parseThinkTags_closed [OF ok] by (simp add: parseThinkTags_def str_includes_iff)
    with True ok show ?thesis by blast
  next
    case False
    with c obtain r where "\<not> sublist CLOSE_TAG r" "c = think_doc bs (w @ OPEN_TAG @ r)" by blast
    with ok parseThinkTags_unclosed [OF ok] show ?thesis by blast
  qed
qed

section \<open>Streaming\<close>

lemma getCurrentVersion_update [simp]:
  "getCurrentVersion (updateCurrentVersionContent m s) = (getCurrentVersion m)\<lparr>content := s\<rparr>"
  by (simp add: getCurrentVersion_def updateCurrentVersionContent_def)

lemma getCurrentVersion_cong: "versions m = versions m' \<Longrightarrow> getCurrentVersion m = getCurrentVersion m'"
  by (simp add: getCurrentVersion_def)

lemma versions_update [simp]:
  "versions (updateCurrentVersionContent m s) = [(getCurrentVersion m)\<lparr>content := s\<rparr>]"
  by (simp add: updateCurrentVersionContent_def)

lemma processStreamingContent_Some:
  "processStreamingContent m (Some c) =
     (let full = content (getCurrentVersion m) @ c; p = parseThinkTags full in
      m\<lparr>versions := [(getCurrentVersion m)\<lparr>content := full\<rparr>],
        reasoning := (if tp_reasoning p \<noteq> []
                      then Some \<lparr>reasoning_content = tp_reasoning p, reasoning_duration = Fin 0\<rparr>
                      else reasoning m),
        isReasoningStreaming := Some (hasUnclosedTag p)\<rparr>)"
  by (cases c) (auto simp: processStreamingContent_def Let_def updateCurrentVersionContent_def)

lemma getCurrentVersion_streaming:
  "getCurrentVersion (processStreamingContent m (Some c)) =
     (getCurrentVersion m)\<lparr>content := content (getCurrentVersion m) @ c\<rparr>"
  by (simp add: processStreamingContent_Some Let_def getCurrentVersion_def)

definition stream_chunks :: "message \<Rightarrow> jstr list \<Rightarrow> message" where
  "stream_chunks m cs = foldl (\<lambda>m c. processStreamingContent m (Some c)) m cs"

lemma content_stream_chunks:
  "content (getCurrentVersion (stream_chunks m cs)) = content (getCurrentVersion m) @ concat cs"
  unfolding stream_chunks_def
  by (induction cs arbitrary: m) (simp_all add: getCurrentVersion_streaming)

lemma processStreamingContent_twice:
  assumes "tp_reasoning (parseThinkTags (content (getCurrentVersion m) @ a @ b)) \<noteq> []"
  shows "processStreamingContent (processStreamingContent m (Some a)) (Some b) =
    processStreamingContent m (Some (a @ b))"
proof -
  let ?m = "processStreamingContent m (Some a)"
  have "processStreamingContent ?m (Some b) =
    (let full = content (getCurrentVersion m) @ a @ b; p = parseThinkTags full in
      ?m\<lparr>versions := [(getCurrentVersion m)\<lparr>content := full\<rparr>],
        reasoning := Some \<lparr>reasoning_content = tp_reasoning p, reasoning_duration = Fin 0\<rparr>,
        isReasoningStreaming := Some (hasUnclosedTag p)\<rparr>)"
    using assms by (simp add: processStreamingContent_Some [of ?m] getCurrentVersion_streaming Let_def)
  also have "\<dots> = processStreamingContent m (Some (a @ b))"
    using assms by (simp add: processStreamingContent_Some [of m] Let_def)
  finally show ?thesis .
qed

text \<open>C6 Adding the chunks of a stream one after the other gives the message that one chunk
  with all of their text gives, provided the whole text has reasoning in it.\<close>

theorem stream_chunks_independent:
  assumes "tp_reasoning (parseThinkTags (content (getCurrentVersion m) @ concat cs)) \<noteq> []" "cs \<noteq> []"
  shows "stream_chunks m cs = processStreamingContent m (Some (concat cs))"
  using assms
proof (induction cs arbitrary: m)
  case (Cons c cs)
  show ?case
  proof (cases "cs = []")
    case True
    then show ?thesis by (simp add: stream_chunks_def)
  next
    case False
    have "stream_chunks m (c # cs) = stream_chunks (processStreamingContent m (Some c)) cs"
      by (simp add: stream_chunks_def)
    also have "\<dots> = processStreamingContent (processStreamingContent m (Some c)) (Some (concat cs))"
      using Cons False by (simp add: getCurrentVersion_streaming)
    also have "\<dots> = processStreamingContent m (Some (concat (c # cs)))"
      using Cons.prems by (simp add: processStreamingContent_twice)
    finally show ?thesis .
  qed
qed simp

lemma stream_chunks_independent_witness:
  "stream_chunks (createLoadingAssistantMessage [1] [2]) [js ''<thi'', js ''nk>hm'', js ''</think>ok''] =
   processStreamingContent (createLoadingAssistantMessage [1] [2])
     (Some (concat [js ''<thi'', js ''nk>hm'', js ''</think>ok'']))"
proof (rule stream_chunks_independent)
  have "content (getCurrentVersion (createLoadingAssistantMessage [1] [2])) = []"
    by (simp add: createLoadingAssistantMessage_def createMessageVersion_def getCurrentVersion_def)
  moreover have "tp_reasoning (parseThinkTags (concat [js ''<thi'', js ''nk>hm'', js ''</think>ok''])) \<noteq> []"
    by code_simp
  ultimately show "tp_reasoning (parseThinkTags (content (getCurrentVersion (createLoadingAssistantMessage [1] [2]))
      @ concat [js ''<thi'', js ''nk>hm'', js ''</think>ok''])) \<noteq> []"
    by (simp only: append_Nil) simp
qed simp

lemma stale_parses:
  "parseThinkTags (js ''<think></thi'') = \<lparr>visibleContent = [], tp_reasoning = js ''</thi'', hasUnclosedTag = True\<rparr>"
  "parseThinkTags (js ''<think></think>Hi'') = \<lparr>visibleContent = js ''Hi'', tp_reasoning = [], hasUnclosedTag = False\<rparr>"
   apply code_simp
  apply code_simp
  done

text \<open>Without reasoning in the whole text the pieces do matter: an empty think block
  whose closing tag is cut by the boundary between two chunks leaves the first half of that tag
  as the reasoning of the finished message, where the same text in one chunk leaves none.\<close>

theorem stale_reasoning:
  "reasoning (finalizeMessage
     (stream_chunks (createLoadingAssistantMessage nid1 nid2) [js ''<think></thi'', js ''nk>Hi'']) None) =
     Some \<lparr>reasoning_content = js ''</thi'', reasoning_duration = Fin 0\<rparr>
   \<and> reasoning (finalizeMessage
     (stream_chunks (createLoadingAssistantMessage nid1 nid2) [js ''<think></think>Hi'']) None) = None"
  by (simp add: stream_chunks_def finalizeMessage_def processStreamingContent_Some Let_def
      createLoadingAssistantMessage_def createMessageVersion_def getCurrentVersion_def
      stale_parses truthy_num_def or_str_def updateCurrentVersionContent_def flip: js_append)

section \<open>Sanitizing\<close>

lemma scan_back_Some:
  "scan_back p xs n = Some i \<Longrightarrow> i < n \<and> p (xs ! i) \<and> (\<forall>j. i < j \<longrightarrow> j < n \<longrightarrow> \<not> p (xs ! j))"
  by (induction n) (auto split: if_splits simp: less_Suc_eq)

lemma scan_back_None: "scan_back p xs n = None \<longleftrightarrow> (\<forall>i<n. \<not> p (xs ! i))"
  by (induction n) (auto simp: less_Suc_eq)

lemma stuck_sanitize_message [simp]: "\<not> stuck (sanitize_message m)"
  by (simp add: sanitize_message_def stuck_def Let_def)

lemma length_filter_list_update:
  "i < length xs \<Longrightarrow> p (xs ! i) \<Longrightarrow> \<not> p x \<Longrightarrow> Suc (length (filter p (xs[i := x]))) = length (filter p xs)"
  by (induction xs arbitrary: i) (auto split: nat.splits)

text \<open>Loading stored messages repairs at most one of them: the last assistant message
  that was still loading or streaming becomes complete, or an error with the text of an
  interruption; the number of such messages drops by one (if there is one), and every other
  message is as it was.\<close>

theorem sanitize_unsticks:
  "length (filter stuck (sanitizeMessagesOnLoad ms)) = length (filter stuck ms) - 1
   \<and> length (sanitizeMessagesOnLoad ms) = length ms
   \<and> (\<forall>j<length ms. sanitizeMessagesOnLoad ms ! j \<noteq> ms ! j \<longrightarrow>
        stuck (ms ! j) \<and> (\<forall>k. j < k \<longrightarrow> k < length ms \<longrightarrow> \<not> stuck (ms ! k))
        \<and> (status (sanitizeMessagesOnLoad ms ! j) = Some Complete
           \<or> status (sanitizeMessagesOnLoad ms ! j) = Some Error
             \<and> content (getCurrentVersion (sanitizeMessagesOnLoad ms ! j)) =
               js ''Request error occurred: Generation was interrupted''))"
proof (cases "scan_back stuck ms (length ms)")
  case None
  then have "filter stuck ms = []"
    by (auto simp: scan_back_None filter_empty_conv in_set_conv_nth)
  with None show ?thesis by (simp add: sanitizeMessagesOnLoad_def)
next
  case (Some i)
  have "status (sanitize_message m) = Some Complete \<or> status (sanitize_message m) = Some Error \<and>
      content (getCurrentVersion (sanitize_message m)) = API_REQUEST_ERROR @ js '': '' @ INTERRUPTED" for m
    by (simp add: sanitize_message_def Let_def getCurrentVersion_def)
  moreover have "API_REQUEST_ERROR @ js '': '' @ INTERRUPTED =
      js ''Request error occurred: Generation was interrupted''"
    by (simp add: API_REQUEST_ERROR_def INTERRUPTED_def flip: js_append)
  moreover note scan_back_Some [OF Some]
  moreover from this have "Suc (length (filter stuck (ms[i := sanitize_message (ms ! i)]))) = length (filter stuck ms)"
    by (intro length_filter_list_update) auto
  ultimately show ?thesis
    using Some by (auto simp: sanitizeMessagesOnLoad_def nth_list_update)
qed

lemma sanitize_unsticks_witness:
  "let m = createLoadingAssistantMessage [1] [2]; ms = [m, createUserMessage [3] [4] [5], m] in
   length (filter stuck (sanitizeMessagesOnLoad ms)) = length (filter stuck ms) - 1
   \<and> status (sanitizeMessagesOnLoad ms ! 2) = Some Error"
proof -
  let ?m = "createLoadingAssistantMessage [1] [2]"
  let ?ms = "[?m, createUserMessage [3] [4] [5], ?m]"
  have "status (sanitizeMessagesOnLoad ?ms ! 2) = Some Error" by code_simp
  then show ?thesis using sanitize_unsticks [of ?ms] by (simp add: Let_def)
qed

theorem sanitize_leaves_earlier:
  "let m = createLoadingAssistantMessage (js ''a'') (js ''b'')
   in length (filter stuck (sanitizeMessagesOnLoad [m, m])) = 1"
  by code_simp

section \<open>The interface of the message list\<close>

text \<open>
  What the chat handler relies on: an update reaches the last element when it satisfies the
  test, and nothing else.
\<close>

locale last_updater =
  fixes upd :: "'a list \<Rightarrow> ('a \<Rightarrow> 'a) \<Rightarrow> 'a list"
    and target :: "'a \<Rightarrow> bool"
  assumes upd_hit: "target x \<Longrightarrow> upd (xs @ [x]) f = xs @ [f x]"
    and upd_miss: "xs = [] \<or> \<not> target (last xs) \<Longrightarrow> upd xs f = xs"
begin

lemma upd_length: "length (upd xs f) = length xs"
  by (cases "xs = [] \<or> \<not> target (last xs)")
    (use upd_miss upd_hit [of "last xs" "butlast xs" f] in auto)

lemma upd_butlast: "butlast (upd xs f) = butlast xs"
  by (cases "xs = [] \<or> \<not> target (last xs)")
    (use upd_miss upd_hit [of "last xs" "butlast xs" f] in auto)

lemma upd_seq:
  assumes "target x" "\<forall>f\<in>set fs. \<forall>y. target y \<longrightarrow> target (f y)"
  shows "foldl upd (xs @ [x]) fs = xs @ [fold (\<lambda>f y. f y) fs x]"
  using assms by (induction fs arbitrary: x) (auto simp: upd_hit)

lemma upd_compose:
  assumes "\<And>y. target y \<Longrightarrow> target (f y)"
  shows "upd (upd xs f) g = upd xs (g \<circ> f)"
proof (cases "xs = [] \<or> \<not> target (last xs)")
  case True
  then show ?thesis by (simp add: upd_miss)
next
  case False
  then obtain ys x where "xs = ys @ [x]" "target x" by (cases xs rule: rev_cases) auto
  with assms show ?thesis by (simp add: upd_hit)
qed

end

interpretation last_msg: last_updater updateLastAssistantMessage "\<lambda>m. from_role m = Assistant"
  by unfold_locales (auto simp: updateLastAssistantMessage_def)

text \<open>An error is written into the last message when that is an assistant message: its
  text becomes the generic prefix and the message of the error, its status is error, its
  details are the new ones when there are any; the other messages are unchanged, and so is the
  whole list when its last message is not an assistant message.\<close>

theorem updateAssistantMessageWithError_spec:
  "let r = updateAssistantMessageWithError ms e code dets in
   length r = length ms \<and> butlast r = butlast ms
   \<and> (if ms \<noteq> [] \<and> from_role (last ms) = Assistant
      then status (last r) = Some Error
         \<and> key (last r) = key (last ms) \<and> from_role (last r) = Assistant
         \<and> isReasoningStreaming (last r) = Some False
         \<and> content (getCurrentVersion (last r)) = js ''Request error occurred: '' @ to_str e
         \<and> details (last r) = (if dets = None then details (last ms) else dets)
      else r = ms)"
proof -
  have [simp]: "API_REQUEST_ERROR @ js '': '' @ s = js ''Request error occurred: '' @ s" for s
    by (simp add: API_REQUEST_ERROR_def js_Cons)
  show ?thesis
  proof (cases "ms \<noteq> [] \<and> from_role (last ms) = Assistant")
    case True
    then obtain xs m where "ms = xs @ [m]" "from_role m = Assistant" by (cases ms rule: rev_cases) auto
    then show ?thesis
      by (simp add: updateAssistantMessageWithError_def last_msg.upd_hit
          getCurrentVersion_def updateCurrentVersionContent_def split: option.splits)
  next
    case False
    then show ?thesis by (auto simp: updateAssistantMessageWithError_def last_msg.upd_miss)
  qed
qed

end
