(* ===== verification/PayloadBuilder.thy ===== *)
theory PayloadBuilder
  imports MessageUtils
begin

text \<open>
  \<open>features/playground/lib/payload-builder.ts\<close>: the request bodies of the two endpoints,
  built from the messages, the configuration and the switches of its parameters.
\<close>

section \<open>Chat completions\<close>

text \<open>The loop over \<open>parameterKeys\<close>: each key writes its own field of the payload.\<close>

datatype parameter_key =
  K_temperature | K_top_p | K_max_tokens | K_frequency_penalty | K_presence_penalty | K_seed

definition parameterKeys :: "parameter_key list" where
  "parameterKeys =
     [K_temperature, K_top_p, K_max_tokens, K_frequency_penalty, K_presence_penalty, K_seed]"

fun key_enabled :: "parameter_enabled \<Rightarrow> parameter_key \<Rightarrow> bool" where
  "key_enabled e K_temperature = en_temperature e"
| "key_enabled e K_top_p = en_top_p e"
| "key_enabled e K_max_tokens = en_max_tokens e"
| "key_enabled e K_frequency_penalty = en_frequency_penalty e"
| "key_enabled e K_presence_penalty = en_presence_penalty e"
| "key_enabled e K_seed = en_seed e"

fun config_value :: "playground_config \<Rightarrow> parameter_key \<Rightarrow> jnum option" where
  "config_value c K_temperature = Some (temperature c)"
| "config_value c K_top_p = Some (top_p c)"
| "config_value c K_max_tokens = Some (max_tokens c)"
| "config_value c K_frequency_penalty = Some (frequency_penalty c)"
| "config_value c K_presence_penalty = Some (presence_penalty c)"
| "config_value c K_seed = seed c"

fun set_parameter :: "parameter_key \<Rightarrow> jnum \<Rightarrow> chat_request \<Rightarrow> chat_request" where
  "set_parameter K_temperature v p = p\<lparr>req_temperature := Some v\<rparr>"
| "set_parameter K_top_p v p = p\<lparr>req_top_p := Some v\<rparr>"
| "set_parameter K_max_tokens v p = p\<lparr>req_max_tokens := Some v\<rparr>"
| "set_parameter K_frequency_penalty v p = p\<lparr>req_frequency_penalty := Some v\<rparr>"
| "set_parameter K_presence_penalty v p = p\<lparr>req_presence_penalty := Some v\<rparr>"
| "set_parameter K_seed v p = p\<lparr>req_seed := Some v\<rparr>"

definition add_parameter ::
  "playground_config \<Rightarrow> parameter_enabled \<Rightarrow> chat_request \<Rightarrow> parameter_key \<Rightarrow> chat_request" where
  "add_parameter cfg en p k =
     (if key_enabled en k
      then (case config_value cfg k of None \<Rightarrow> p | Some v \<Rightarrow> set_parameter k v p)
      else p)"

definition buildChatCompletionPayload ::
  "message list \<Rightarrow> playground_config \<Rightarrow> parameter_enabled \<Rightarrow> chat_request" where
  "buildChatCompletionPayload ms cfg en =
     foldl (add_parameter cfg en)
       \<lparr>req_model = cfg_model cfg, req_group = Some (cfg_group cfg),
        req_messages = map formatMessageForAPI (filter isValidMessage ms),
        req_stream = cfg_stream cfg, req_temperature = None, req_top_p = None,
        req_max_tokens = None, req_frequency_penalty = None, req_presence_penalty = None,
        req_seed = None\<rparr>
       parameterKeys"

section \<open>Responses\<close>

definition formatMessageForResponsesInput :: "message \<Rightarrow> responses_input option" where
  "formatMessageForResponsesInput m =
     (if from_role m = System then None
      else Some \<lparr>in_role = from_role m,
                 in_content = [(if from_role m = Assistant then OutputText else InputText,
                                content (getCurrentVersion m))]\<rparr>)"

definition buildResponsesPayload ::
  "message list \<Rightarrow> playground_config \<Rightarrow> parameter_enabled \<Rightarrow> responses_request" where
  "buildResponsesPayload ms cfg en =
     (let validMessages = filter isValidMessage ms;
          instructions = join [10, 10]
            (filter (\<lambda>s. s \<noteq> [])
              (map (\<lambda>m. trim (content (getCurrentVersion m)))
                (filter (\<lambda>m. from_role m = System) validMessages)))
      in \<lparr>rr_model = cfg_model cfg, rr_group = Some (cfg_group cfg),
          rr_input = map the (filter (\<lambda>i. i \<noteq> None)
                       (map formatMessageForResponsesInput validMessages)),
          rr_instructions = (if instructions \<noteq> [] then Some instructions else None),
          rr_stream = cfg_stream cfg,
          rr_temperature = (if en_temperature en then Some (temperature cfg) else None),
          rr_top_p = (if en_top_p en then Some (top_p cfg) else None),
          rr_max_output_tokens =
            (if en_max_tokens en \<and> num_lt (Fin 0) (max_tokens cfg)
             then Some (max_tokens cfg) else None)\<rparr>)"

definition buildPlaygroundPayload ::
  "message list \<Rightarrow> playground_config \<Rightarrow> parameter_enabled \<Rightarrow> playground_request" where
  "buildPlaygroundPayload ms cfg en =
     (if cfg_endpoint cfg = Responses then RespReq (buildResponsesPayload ms cfg en)
      else ChatReq (buildChatCompletionPayload ms cfg en))"

section \<open>What the payloads hold\<close>

lemma buildChatCompletionPayload_eq:
  "buildChatCompletionPayload ms cfg en =
     \<lparr>req_model = cfg_model cfg, req_group = Some (cfg_group cfg),
      req_messages = map formatMessageForAPI (filter isValidMessage ms),
      req_stream = cfg_stream cfg,
      req_temperature = (if en_temperature en then Some (temperature cfg) else None),
      req_top_p = (if en_top_p en then Some (top_p cfg) else None),
      req_max_tokens = (if en_max_tokens en then Some (max_tokens cfg) else None),
      req_frequency_penalty = (if en_frequency_penalty en then Some (frequency_penalty cfg) else None),
      req_presence_penalty = (if en_presence_penalty en then Some (presence_penalty cfg) else None),
      req_seed = (if en_seed en then seed cfg else None)\<rparr>"
  by (simp add: buildChatCompletionPayload_def parameterKeys_def add_parameter_def split: option.splits)

lemma loading_not_valid [simp]: "\<not> isValidMessage (createLoadingAssistantMessage nid1 nid2)"
  by (simp add: isValidMessage_def createLoadingAssistantMessage_def createMessageVersion_def)

lemma user_message_valid [simp]: "isValidMessage (createUserMessage nid1 nid2 s)"
  by (simp add: isValidMessage_def createUserMessage_def createMessageVersion_def)

lemma rr_input_eq:
  "rr_input (buildResponsesPayload ms cfg en) =
     map (\<lambda>m. \<lparr>in_role = from_role m,
               in_content = [(if from_role m = Assistant then OutputText else InputText,
                              content (getCurrentVersion m))]\<rparr>)
       (filter (\<lambda>m. isValidMessage m \<and> from_role m \<noteq> System) ms)"
  by (induction ms) (auto simp: buildResponsesPayload_def Let_def formatMessageForResponsesInput_def)

fun chat_text :: "chat_message \<Rightarrow> jstr" where
  "chat_text c = getTextContent (msg_content c)"

text \<open>The placeholder appended before a request is sent is never part of the request: on
  both endpoints the payload of the list with the placeholder is the payload without it.\<close>

theorem payload_ignores_placeholder:
  "buildPlaygroundPayload (ms @ [createLoadingAssistantMessage nid1 nid2]) cfg en =
   buildPlaygroundPayload ms cfg en"
  by (simp add: buildPlaygroundPayload_def buildChatCompletionPayload_eq buildResponsesPayload_def Let_def)

text \<open>The two endpoints get the same conversation: the turns sent to the Responses
  endpoint are, in order, the turns sent to chat completions less the system messages, and
  the texts of the non-blank system messages are the instructions, joined by a blank line.\<close>

theorem responses_payload_agrees:
  "map (\<lambda>i. (in_role i, map snd (in_content i))) (rr_input (buildResponsesPayload ms cfg en)) =
     map (\<lambda>c. (role c, [chat_text c]))
       (filter (\<lambda>c. role c \<noteq> System) (req_messages (buildChatCompletionPayload ms cfg en)))
   \<and> or_else (rr_instructions (buildResponsesPayload ms cfg en)) [] =
     join [10, 10] (filter (\<lambda>s. s \<noteq> []) (map (\<lambda>c. trim (chat_text c))
       (filter (\<lambda>c. role c = System) (req_messages (buildChatCompletionPayload ms cfg en)))))"
proof
  show "map (\<lambda>i. (in_role i, map snd (in_content i))) (rr_input (buildResponsesPayload ms cfg en)) =
     map (\<lambda>c. (role c, [chat_text c]))
       (filter (\<lambda>c. role c \<noteq> System) (req_messages (buildChatCompletionPayload ms cfg en)))"
    unfolding rr_input_eq buildChatCompletionPayload_eq
    by (induction ms) (auto simp: formatMessageForAPI_def getTextContent_def)
next
  have "map (\<lambda>c. trim (chat_text c)) (filter (\<lambda>c. role c = System) (map formatMessageForAPI us)) =
      map (\<lambda>m. trim (content (getCurrentVersion m))) (filter (\<lambda>m. from_role m = System) us)" for us
    by (induction us) (auto simp: formatMessageForAPI_def getTextContent_def)
  then show "or_else (rr_instructions (buildResponsesPayload ms cfg en)) [] =
     join [10, 10] (filter (\<lambda>s. s \<noteq> []) (map (\<lambda>c. trim (chat_text c))
       (filter (\<lambda>c. role c = System) (req_messages (buildChatCompletionPayload ms cfg en)))))"
    unfolding buildChatCompletionPayload_eq by (simp add: buildResponsesPayload_def Let_def)
qed

end
