(* ===== verification/StreamRequest.thy ===== *)
theory StreamRequest
  imports PayloadBuilder
begin

text \<open>
  \<open>features/playground/hooks/use-stream-request.ts\<close>: a streamed request. The refs of the
  hook are the record \<open>stream_state\<close>; the callbacks a request was given, and the calls to its
  event source, are effects appended to a trace, tagged with the number of the request.

  The event source is \<open>sse.js\<close>: what it shows at an event (its request's status, its ready
  state) and the \<open>readystatechange\<close> events it dispatches while it is being closed are part
  of the event. A property access on \<open>null\<close> throws; the functions that can throw return
  \<open>None\<close> for that.
\<close>

section \<open>State, events and effects\<close>

datatype chunk_kind = ReasoningChunk | ContentChunk

datatype stream_effect =
    OpenSource nat
  | OnUpdate nat chunk_kind jsval
  | OnComplete nat "response_details option"
  | OnError nat jsval "jsval option" "response_details option"
  | OnDetails nat response_details
  | CloseSource nat

record stream_state =
  sseSource :: "nat option"
  isStreamComplete :: bool
  streamDetails :: "response_details option"
  streamStartedAtMs :: "int option"
  onDetailsUpdate :: "nat option"
  effects :: "stream_effect list"

text \<open>The event source as a handler sees it: \<open>source.xhr?.status\<close>,
  \<open>source.xhr?.statusText\<close>, \<open>source.readyState\<close>.\<close>

record source_view =
  xhr_status :: "int option"
  xhr_statusText :: "jstr option"
  readyState :: int

text \<open>A \<open>readystatechange\<close> event: its \<open>readyState\<close>, the source, the time the handler reads
  if it finalizes, and the events dispatched if it closes the source.\<close>

datatype ready_event = ReadyEvent (ready_val: "int option") (ready_view: source_view)
  (ready_final: int) (ready_nested: "ready_event list")

text \<open>The circumstances of any other event: the source, the clock at the (first and second)
  event detail and at finalization, and the events dispatched if the source is closed.\<close>

record event_env =
  view :: source_view
  at_event :: int
  at_retry :: int
  at_final :: int
  on_close :: "ready_event list"

record sse_event =
  data :: "jstr option"
  sse_id :: "jstr option"
  lastEventId :: "jstr option"

definition emit :: "stream_effect \<Rightarrow> stream_state \<Rightarrow> stream_state" where
  "emit e s = s\<lparr>effects := effects s @ [e]\<rparr>"

section \<open>Pure helpers\<close>

definition MAX_STORED_STREAM_EVENTS :: nat where
  "MAX_STORED_STREAM_EVENTS = 200"

definition RESPONSE_STREAM_EVENT_TYPES :: "jstr list" where
  "RESPONSE_STREAM_EVENT_TYPES = map js
     [''response.created'',
      ''response.in_progress'',
      ''response.output_item.added'',
      ''response.content_part.added'',
      ''response.output_text.delta'',
      ''response.output_text.done'',
      ''response.reasoning_summary_part.added'',
      ''response.reasoning_summary_text.delta'',
      ''response.reasoning_summary_text.done'',
      ''response.reasoning_summary_part.done'',
      ''response.function_call_arguments.delta'',
      ''response.function_call_arguments.done'',
      ''response.custom_tool_call_input.delta'',
      ''response.custom_tool_call_input.done'',
      ''response.content_part.done'',
      ''response.output_item.done'',
      ''response.completed'',
      ''response.failed'',
      ''response.error'']"

definition normalizeSseHeaders :: "(jstr \<times> jstr list) list option \<Rightarrow> (jstr \<times> header_value) list" where
  "normalizeSseHeaders headers =
     (case headers of
        None \<Rightarrow> []
      | Some hs \<Rightarrow> foldl (\<lambda>acc (k, v). obj_put k (if length v = 1 then One (hd v) else Many v) acc)
                    [] (own_entries hs))"

text \<open>\<open>serializeEventData\<close>: the data of an event is a string or absent, and
  \<open>JSON.stringify(undefined)\<close> is \<open>undefined\<close>.\<close>

definition serializeEventData :: "jstr option \<Rightarrow> jstr option" where
  "serializeEventData d = d"

definition buildStreamEventDetail ::
  "sse_event \<Rightarrow> nat \<Rightarrow> jsval option \<Rightarrow> jstr \<Rightarrow> int \<Rightarrow> stream_event" where
  "buildStreamEventDetail e i d name now =
     \<lparr>index = i, received_at = toISOString now, ev_name = Some name,
      ev_id = or_str (or_str (lastEventId e) (sse_id e)) None,
      ev_raw = serializeEventData (data e), ev_data = d\<rparr>"

definition appendStreamEvent :: "response_details \<Rightarrow> stream_event \<Rightarrow> response_details" where
  "appendStreamEvent d ev =
     (let rawChunks = (case raw_chunks d of None \<Rightarrow> [] | Some cs \<Rightarrow> cs);
          nextRawChunks = (if length rawChunks < MAX_STORED_STREAM_EVENTS
                           then rawChunks @ [ev] else rawChunks)
      in d\<lparr>raw_chunks := Some nextRawChunks,
           chunk_count := Some (index ev),
           stored_chunk_count := Some (length nextRawChunks),
           truncated_chunks := Some (length nextRawChunks < index ev)\<rparr>)"

text \<open>\<open>a || b\<close> on values that may be \<open>undefined\<close>.\<close>

definition js_or :: "jsval option \<Rightarrow> jsval option \<Rightarrow> jsval option" where
  "js_or a b = (if truthy_opt a then a else b)"

text \<open>\<open>choices.find((c) => c.finish_reason !== null)?.finish_reason\<close>; the outer \<open>None\<close> is
  the exception for a \<open>null\<close> choice.\<close>

fun find_finish_reason :: "jsval list \<Rightarrow> jsval option option" where
  "find_finish_reason [] = Some None"
| "find_finish_reason (c # cs) =
     (if c = JNull then None
      else if get_prop c ''finish_reason'' \<noteq> Some JNull then Some (get_prop c ''finish_reason'')
      else find_finish_reason cs)"

text \<open>\<open>chunk.choices?.find(...)?.finish_reason\<close> for a chunk that is not \<open>null\<close>: \<open>find\<close> is a
  method of arrays only.\<close>

definition chunk_finish_reason :: "jsval \<Rightarrow> jsval option option" where
  "chunk_finish_reason chunk =
     (case get_prop chunk ''choices'' of
        None \<Rightarrow> Some None
      | Some JNull \<Rightarrow> Some None
      | Some (JArr cs) \<Rightarrow> find_finish_reason cs
      | Some _ \<Rightarrow> None)"

text \<open>A patch is the update \<open>{...details, ...patch}\<close> performs.\<close>

definition getChunkDetailsPatch :: "jsval \<Rightarrow> (response_details \<Rightarrow> response_details) option" where
  "getChunkDetailsPatch chunk =
     (if chunk = JNull then None
      else case chunk_finish_reason chunk of
             None \<Rightarrow> None
           | Some finishReason \<Rightarrow> Some (\<lambda>d.
               d\<lparr>response_id := js_or (get_prop chunk ''id'') (response_id d),
                 response_object := js_or (get_prop chunk ''object'') (response_object d),
                 created := js_or (get_prop chunk ''created'') (created d),
                 response_model := js_or (get_prop chunk ''model'') (response_model d),
                 finish_reason := (if finishReason \<noteq> None then finishReason else finish_reason d),
                 usage := js_or (get_prop chunk ''usage'') (usage d)\<rparr>))"

text \<open>\<open>v ?? 0\<close>\<close>

definition or_zero :: "jsval option \<Rightarrow> jsval" where
  "or_zero v = (case v of None \<Rightarrow> JNum (Fin 0) | Some JNull \<Rightarrow> JNum (Fin 0) | Some x \<Rightarrow> x)"

definition responsesUsageToChatUsage :: "jsval option \<Rightarrow> jsval option" where
  "responsesUsageToChatUsage u =
     (if \<not> truthy_opt u then None
      else Some (JObj [(js ''prompt_tokens'', or_zero (get_prop_opt u ''input_tokens'')),
                       (js ''completion_tokens'', or_zero (get_prop_opt u ''output_tokens'')),
                       (js ''total_tokens'', or_zero (get_prop_opt u ''total_tokens''))]))"

definition getResponsesEventDetailsPatch :: "jsval \<Rightarrow> response_details \<Rightarrow> response_details" where
  "getResponsesEventDetailsPatch ev d =
     (let response = get_prop ev ''response''
      in if \<not> truthy_opt response then d
         else d\<lparr>response_id := get_prop_opt response ''id'',
                response_object := get_prop_opt response ''object'',
                created := get_prop_opt response ''created_at'',
                response_model := get_prop_opt response ''model'',
                finish_reason := js_or (get_prop_opt response ''status'') (Some JNull),
                usage := responsesUsageToChatUsage (get_prop_opt response ''usage''),
                raw_response := response\<rparr>)"

definition getResponsesEventError :: "jsval \<Rightarrow> jsval option \<times> jsval option" where
  "getResponsesEventError ev =
     (let directError = get_prop ev ''error'';
          msg = get_prop_opt directError ''message'';
          cd = get_prop_opt directError ''code''
      in if truthy_opt msg \<or> truthy_opt cd then (msg, cd)
         else let responseError = get_prop_opt (get_prop ev ''response'') ''error''
              in (get_prop_opt responseError ''message'', get_prop_opt responseError ''code''))"

definition getParsedError :: "jstr \<Rightarrow> jsval option \<times> jsval option" where
  "getParsedError d =
     (case json_parse d of
        None \<Rightarrow> (None, None)
      | Some JNull \<Rightarrow> (None, None)
      | Some parsed \<Rightarrow>
          (js_or (get_prop_opt (get_prop parsed ''error'') ''message'') (get_prop parsed ''message''),
           js_or (get_prop_opt (get_prop parsed ''error'') ''code'') (get_prop parsed ''error_code'')))"

section \<open>Details\<close>

definition updateDetails ::
  "(response_details \<Rightarrow> response_details) \<Rightarrow> stream_state \<Rightarrow> stream_state" where
  "updateDetails f s =
     (case streamDetails s of
        None \<Rightarrow> s
      | Some d \<Rightarrow>
          (let s' = s\<lparr>streamDetails := Some (f d)\<rparr>
           in case onDetailsUpdate s of None \<Rightarrow> s' | Some sid \<Rightarrow> emit (OnDetails sid (f d)) s'))"

definition finalizeDetails ::
  "int \<Rightarrow> (response_details \<Rightarrow> response_details) \<Rightarrow> stream_state \<Rightarrow> stream_state" where
  "finalizeDetails completedAtMs patch s =
     (let startedAtMs = (case streamStartedAtMs s of None \<Rightarrow> completedAtMs | Some t \<Rightarrow> t)
      in updateDetails (\<lambda>d. patch (d\<lparr>completed_at := Some (toISOString completedAtMs),
                                     duration_ms := Some (completedAtMs - startedAtMs)\<rparr>)) s)"

definition clearStreamState :: "stream_state \<Rightarrow> stream_state" where
  "clearStreamState s =
     s\<lparr>sseSource := None, streamDetails := None, streamStartedAtMs := None, onDetailsUpdate := None\<rparr>"

text \<open>\<open>source.xhr?.status || streamDetailsRef.current?.http_status\<close>\<close>

definition current_status :: "source_view \<Rightarrow> stream_state \<Rightarrow> int option" where
  "current_status v s =
     (case xhr_status v of
        Some n \<Rightarrow> if n \<noteq> 0 then Some n else Option.bind (streamDetails s) http_status
      | None \<Rightarrow> Option.bind (streamDetails s) http_status)"

section \<open>Errors and closing\<close>

text \<open>The part of \<open>handleError\<close> before \<open>closeSource\<close>, when the stream is not complete.\<close>

definition report_error ::
  "nat \<Rightarrow> source_view \<Rightarrow> int \<Rightarrow> jsval \<Rightarrow> jsval option \<Rightarrow> jsval option \<Rightarrow> stream_state \<Rightarrow> stream_state" where
  "report_error sid v t msg code raw s =
     (let s1 = s\<lparr>isStreamComplete := True\<rparr>;
          st = current_status v s1;
          s2 = finalizeDetails t (\<lambda>d. d\<lparr>http_status := st,
                 http_status_text := xhr_statusText v,
                 stream_ready_state := Some (readyState v),
                 error_info := Some \<lparr>err_message = msg, err_code = code, err_status = st, err_raw = raw\<rparr>\<rparr>) s1
      in emit (OnError sid msg code (streamDetails s2)) s2)"

text \<open>The listener of \<open>readystatechange\<close>. Its \<open>handleError\<close> closes the source, which
  dispatches further such events before the refs are cleared.\<close>

fun on_readystatechange :: "nat \<Rightarrow> ready_event \<Rightarrow> stream_state \<Rightarrow> stream_state" where
  "on_readystatechange sid (ReadyEvent r v t nested) s =
     (let st = current_status v s;
          s1 = updateDetails (\<lambda>d. d\<lparr>http_status := st, http_status_text := xhr_statusText v,
                                    stream_ready_state := r\<rparr>) s
      in if (case r of None \<Rightarrow> False | Some n \<Rightarrow> 2 \<le> n)
            \<and> (case xhr_status v of None \<Rightarrow> False | Some n \<Rightarrow> n \<noteq> 200)
            \<and> \<not> isStreamComplete s1
         then clearStreamState
                (foldl (\<lambda>s e. on_readystatechange sid e s)
                  (emit (CloseSource sid)
                    (report_error sid v t
                      (JStr (js ''HTTP '' @ int_str (the (xhr_status v)) @ js '': '' @ CONNECTION_CLOSED))
                      None None s1))
                  nested)
         else s1)"

definition closeSource :: "nat \<Rightarrow> ready_event list \<Rightarrow> stream_state \<Rightarrow> stream_state" where
  "closeSource sid nested s =
     clearStreamState (foldl (\<lambda>s e. on_readystatechange sid e s) (emit (CloseSource sid) s) nested)"

definition handleError ::
  "nat \<Rightarrow> event_env \<Rightarrow> jsval \<Rightarrow> jsval option \<Rightarrow> jsval option \<Rightarrow> stream_state \<Rightarrow> stream_state" where
  "handleError sid env msg code raw s =
     (if isStreamComplete s then s
      else closeSource sid (on_close env) (report_error sid (view env) (at_final env) msg code raw s))"

section \<open>Handlers of the event source\<close>

text \<open>What both protocols do when the answer is complete.\<close>

definition complete_stream :: "nat \<Rightarrow> event_env \<Rightarrow> stream_state \<Rightarrow> stream_state" where
  "complete_stream sid env s =
     (let s1 = s\<lparr>isStreamComplete := True\<rparr>;
          st = current_status (view env) s1;
          s2 = finalizeDetails (at_final env) (\<lambda>d. d\<lparr>http_status := st,
                 http_status_text := xhr_statusText (view env),
                 stream_ready_state := Some (readyState (view env))\<rparr>) s1
      in emit (OnComplete sid (streamDetails s2)) (closeSource sid (on_close env) s2))"

definition next_index :: "stream_state \<Rightarrow> nat" where
  "next_index s =
     (case Option.bind (streamDetails s) chunk_count of None \<Rightarrow> 0 | Some n \<Rightarrow> n) + 1"

definition on_open ::
  "nat \<Rightarrow> int option \<Rightarrow> (jstr \<times> jstr list) list option \<Rightarrow> source_view \<Rightarrow> stream_state \<Rightarrow> stream_state" where
  "on_open sid responseCode headers v s =
     updateDetails (\<lambda>d. d\<lparr>
         http_status := (case responseCode of
                           Some n \<Rightarrow> if n \<noteq> 0 then Some n else xhr_status v
                         | None \<Rightarrow> xhr_status v),
         http_status_text := xhr_statusText v,
         response_headers := Some (normalizeSseHeaders headers),
         stream_ready_state := Some (readyState v)\<rparr>) s"

text \<open>\<open>chunk.choices?.[0]?.delta\<close> for a chunk that is not \<open>null\<close>.\<close>

definition first_delta :: "jsval \<Rightarrow> jsval option" where
  "first_delta chunk =
     (case get_prop chunk ''choices'' of
        Some (JArr (c # _)) \<Rightarrow> get_prop c ''delta''
      | Some (JObj ps) \<Rightarrow> get_prop_opt (map_of ps (js ''0'')) ''delta''
      | _ \<Rightarrow> None)"

definition send_delta :: "nat \<Rightarrow> jsval option \<Rightarrow> stream_state \<Rightarrow> stream_state" where
  "send_delta sid delta s =
     (if truthy_opt delta
      then let r = get_prop_opt delta ''reasoning_content'';
               c = get_prop_opt delta ''content'';
               s1 = (if truthy_opt r then emit (OnUpdate sid ReasoningChunk (the r)) s else s)
           in if truthy_opt c then emit (OnUpdate sid ContentChunk (the c)) s1 else s1
      else s)"

text \<open>The \<open>try\<close> block of the message listener; \<open>None\<close> when it throws. An exception of the
  updater leaves the details as they were, and without details the updater does not run.\<close>

definition try_message :: "nat \<Rightarrow> sse_event \<Rightarrow> nat \<Rightarrow> event_env \<Rightarrow> stream_state \<Rightarrow> stream_state option" where
  "try_message sid e i env s =
     (case Option.bind (data e) json_parse of
        None \<Rightarrow> None
      | Some chunk \<Rightarrow>
          (case (if streamDetails s = None then Some s
                 else map_option (\<lambda>patch. updateDetails (\<lambda>d.
                        patch (appendStreamEvent d
                          (buildStreamEventDetail e i (Some chunk) (js ''message'') (at_event env)))) s)
                      (getChunkDetailsPatch chunk)) of
             None \<Rightarrow> None
           | Some s1 \<Rightarrow> if chunk = JNull then None else Some (send_delta sid (first_delta chunk) s1)))"

definition on_message :: "nat \<Rightarrow> sse_event \<Rightarrow> event_env \<Rightarrow> stream_state \<Rightarrow> stream_state" where
  "on_message sid e env s =
     (let i = next_index s
      in if data e = Some (js ''[DONE]'')
         then complete_stream sid env
                (updateDetails (\<lambda>d. appendStreamEvent d
                  (buildStreamEventDetail e i (Some (JStr (js ''[DONE]''))) (js ''message'') (at_event env))) s)
         else case try_message sid e i env s of
                Some s' \<Rightarrow> s'
              | None \<Rightarrow>
                  handleError sid env (JStr PARSE_ERROR) None (map_option JStr (data e))
                    (updateDetails (\<lambda>d. appendStreamEvent d
                      (buildStreamEventDetail e i (map_option JStr (data e)) (js ''message'') (at_retry env))) s))"

text \<open>\<open>{...parsed}\<close>: the own enumerable properties of a value.\<close>

definition spread_obj :: "jsval \<Rightarrow> (jstr \<times> jsval) list" where
  "spread_obj v =
     (case v of
        JObj ps \<Rightarrow> ps
      | JArr vs \<Rightarrow> zip (map nat_str [0..<length vs]) vs
      | JStr cs \<Rightarrow> zip (map nat_str [0..<length cs]) (map (\<lambda>c. JStr [c]) cs)
      | _ \<Rightarrow> [])"

definition typed_event_data :: "jstr \<Rightarrow> jsval \<Rightarrow> jsval" where
  "typed_event_data eventName parsed =
     JObj (obj_put (js ''type'')
       (if truthy_opt (get_prop parsed ''type'') then the (get_prop parsed ''type'') else JStr eventName)
       (spread_obj parsed))"

definition handleResponsesEvent ::
  "nat \<Rightarrow> jstr \<Rightarrow> sse_event \<Rightarrow> event_env \<Rightarrow> stream_state \<Rightarrow> stream_state" where
  "handleResponsesEvent sid eventName e env s =
     (if isStreamComplete s then s
      else let i = next_index s
           in case Option.bind (data e) json_parse of
                Some parsed \<Rightarrow>
                  (if parsed = JNull
                   then handleError sid env (JStr PARSE_ERROR) None (map_option JStr (data e))
                     (updateDetails (\<lambda>d. appendStreamEvent d
                       (buildStreamEventDetail e i (map_option JStr (data e)) eventName (at_retry env))) s)
                   else
                     let eventData = typed_event_data eventName parsed;
                         ty = get_prop eventData ''type'';
                         delta = get_prop eventData ''delta'';
                         s1 = updateDetails (\<lambda>d. getResponsesEventDetailsPatch eventData
                                (appendStreamEvent d
                                  (buildStreamEventDetail e i (Some eventData) eventName (at_event env)))) s
                     in if ty = Some (JStr (js ''response.output_text.delta'')) \<and> truthy_opt delta
                        then emit (OnUpdate sid ContentChunk (the delta)) s1
                        else if ty = Some (JStr (js ''response.reasoning_summary_text.delta'')) \<and> truthy_opt delta
                        then emit (OnUpdate sid ReasoningChunk (the delta)) s1
                        else if ty = Some (JStr (js ''response.completed''))
                        then complete_stream sid env s1
                        else if ty = Some (JStr (js ''response.failed''))
                             \<or> ty = Some (JStr (js ''response.error''))
                        then (let err = getResponsesEventError eventData
                              in handleError sid env
                                   (the (js_or (fst err) (Some (JStr API_REQUEST_ERROR))))
                                   (snd err) (Some eventData) s1)
                        else s1)
              | None \<Rightarrow>
                  handleError sid env (JStr PARSE_ERROR) None (map_option JStr (data e))
                    (updateDetails (\<lambda>d. appendStreamEvent d
                      (buildStreamEventDetail e i (map_option JStr (data e)) eventName (at_retry env))) s))"

definition on_error :: "nat \<Rightarrow> sse_event \<Rightarrow> event_env \<Rightarrow> stream_state \<Rightarrow> stream_state" where
  "on_error sid e env s =
     (if isStreamComplete s then s
      else let rawData = data e;
               parsedError = (if truthy_str rawData then getParsedError (the rawData) else (None, None));
               errorMessage =
                 the (js_or (fst parsedError)
                       (js_or (map_option JStr rawData) (Some (JStr API_REQUEST_ERROR))));
               s1 = (if truthy_str rawData
                     then updateDetails (\<lambda>d. appendStreamEvent d
                            (buildStreamEventDetail e (next_index s) (map_option JStr rawData)
                              (js ''error'') (at_event env))) s
                     else s)
           in handleError sid env errorMessage (snd parsedError) (map_option JStr rawData) s1)"

section \<open>Requests\<close>

text \<open>\<open>sendStreamRequest\<close> up to \<open>source.stream()\<close>; \<open>wantsDetails\<close> says whether an
  \<open>onDetailsUpdate\<close> callback was passed.\<close>

definition begin_stream ::
  "nat \<Rightarrow> playground_request \<Rightarrow> endpoint \<Rightarrow> bool \<Rightarrow> int \<Rightarrow> stream_state \<Rightarrow> stream_state" where
  "begin_stream sid payload ep wantsDetails startedAtMs s =
     (let d = \<lparr>mode = StreamMode, endpoint_path = getPlaygroundEndpointPath ep, protocol = ep,
               request = payload, started_at = toISOString startedAtMs, completed_at = None,
               duration_ms = None, http_status = None, http_status_text = None,
               response_headers = None, stream_ready_state = None, response_id = None,
               response_object = None, created = None, response_model = None,
               finish_reason = None, usage = None, raw_response = None,
               raw_chunks = Some [], chunk_count = Some 0, stored_chunk_count = Some 0,
               truncated_chunks = None, aborted = None, error_info = None\<rparr>;
          s1 = (emit (OpenSource sid) s)\<lparr>sseSource := Some sid, isStreamComplete := False,
                 streamStartedAtMs := Some startedAtMs,
                 onDetailsUpdate := (if wantsDetails then Some sid else None),
                 streamDetails := Some d\<rparr>
      in if wantsDetails then emit (OnDetails sid d) s1 else s1)"

text \<open>\<open>sendStreamRequest\<close>: \<open>start_failure\<close> is the exception \<open>source.stream()\<close> threw, if
  any, with the ready state and the clock at that moment.\<close>

definition sendStreamRequest ::
  "nat \<Rightarrow> playground_request \<Rightarrow> endpoint \<Rightarrow> bool \<Rightarrow> int \<Rightarrow> (jsval \<times> int \<times> int) option
   \<Rightarrow> stream_state \<Rightarrow> stream_state" where
  "sendStreamRequest sid payload ep wantsDetails startedAtMs start_failure s =
     (let s1 = begin_stream sid payload ep wantsDetails startedAtMs s
      in case start_failure of
           None \<Rightarrow> s1
         | Some (error, rs, t) \<Rightarrow>
             (let s2 = finalizeDetails t (\<lambda>d. d\<lparr>stream_ready_state := Some rs,
                         error_info := Some \<lparr>err_message = JStr STREAM_START_ERROR, err_code = None,
                                             err_status = None, err_raw = Some error\<rparr>\<rparr>) s1
              in clearStreamState
                   (emit (OnError sid (JStr STREAM_START_ERROR) None (streamDetails s2)) s2)))"

definition stopStream :: "event_env \<Rightarrow> stream_state \<Rightarrow> response_details option \<times> stream_state" where
  "stopStream env s =
     (case sseSource s of
        None \<Rightarrow> (None, s)
      | Some sid \<Rightarrow>
          (let st = current_status (view env) s;
               s1 = finalizeDetails (at_final env) (\<lambda>d. d\<lparr>http_status := st,
                      http_status_text := xhr_statusText (view env),
                      stream_ready_state := Some (readyState (view env)),
                      aborted := Some True\<rparr>) s
           in (streamDetails s1, closeSource sid (on_close env) (s1\<lparr>isStreamComplete := True\<rparr>))))"

definition isStreaming :: "stream_state \<Rightarrow> bool" where
  "isStreaming s \<longleftrightarrow> sseSource s \<noteq> None"

end
