(* ===== verification/StreamRuns.thy ===== *)
theory StreamRuns
  imports StreamRequest
begin

text \<open>
  Runs of the streaming hook (\<open>features/playground/hooks/use-stream-request.ts\<close>): the details
  every listener keeps consistent, what each listener calls back, and the step relation of a
  hook that sends, receives, stops and sends again, with its invariant.
\<close>

section \<open>The log of chunks\<close>

text \<open>A log that keeps its first \<open>cap\<close> entries and counts them all.\<close>

locale bounded_log =
  fixes add :: "'d \<Rightarrow> 'e \<Rightarrow> 'd" and entries :: "'d \<Rightarrow> 'e list" and cap :: nat
  assumes entries_add: "entries (add d e) = (if length (entries d) < cap then entries d @ [e] else entries d)"
begin

lemma entries_bounded: "length (entries d) \<le> cap \<Longrightarrow> length (entries (add d e)) \<le> cap"
  by (simp add: entries_add)

lemma entries_fold: "length (entries d) \<le> cap \<Longrightarrow> entries (foldl add d es) = take cap (entries d @ es)"
proof (induction es arbitrary: d)
  case (Cons e es)
  show ?case
  proof (cases "length (entries d) < cap")
    case True
    then show ?thesis using Cons.IH [of "add d e"] by (simp add: entries_add)
  next
    case False
    with Cons.prems have "length (entries d) = cap" by simp
    then show ?thesis using Cons.IH [of "add d e"] by (simp add: entries_add)
  qed
qed simp

end

definition stored_chunks :: "response_details \<Rightarrow> stream_event list" where
  "stored_chunks d = (case raw_chunks d of None \<Rightarrow> [] | Some cs \<Rightarrow> cs)"

interpretation chunk_log: bounded_log appendStreamEvent stored_chunks MAX_STORED_STREAM_EVENTS
  by unfold_locales (simp add: appendStreamEvent_def stored_chunks_def Let_def split: option.splits)

text \<open>The counters and the stored chunks fit: the chunks are the first 200 events, numbered
  from 1, and the flag tells whether there were more.\<close>

definition chunks_ok :: "response_details \<Rightarrow> bool" where
  "chunks_ok d \<longleftrightarrow>
     (case (raw_chunks d, chunk_count d) of
        (Some cs, Some n) \<Rightarrow>
          stored_chunk_count d = Some (length cs) \<and>
          map index cs = [1..<Suc (min n MAX_STORED_STREAM_EVENTS)] \<and>
          (n = 0 \<or> truncated_chunks d = Some (MAX_STORED_STREAM_EVENTS < n))
      | _ \<Rightarrow> False)"

lemma chunks_ok_cong:
  "raw_chunks d' = raw_chunks d \<Longrightarrow> chunk_count d' = chunk_count d \<Longrightarrow>
   stored_chunk_count d' = stored_chunk_count d \<Longrightarrow> truncated_chunks d' = truncated_chunks d \<Longrightarrow>
   chunks_ok d' = chunks_ok d"
  by (simp add: chunks_ok_def split: option.splits)

lemma chunks_ok_update [simp]:
  "chunks_ok (d\<lparr>completed_at := a\<rparr>) = chunks_ok d"
  "chunks_ok (d\<lparr>duration_ms := b\<rparr>) = chunks_ok d"
  "chunks_ok (d\<lparr>http_status := b\<rparr>) = chunks_ok d"
  "chunks_ok (d\<lparr>http_status_text := c\<rparr>) = chunks_ok d"
  "chunks_ok (d\<lparr>response_headers := h\<rparr>) = chunks_ok d"
  "chunks_ok (d\<lparr>stream_ready_state := b\<rparr>) = chunks_ok d"
  "chunks_ok (d\<lparr>response_id := j\<rparr>) = chunks_ok d"
  "chunks_ok (d\<lparr>response_object := j\<rparr>) = chunks_ok d"
  "chunks_ok (d\<lparr>created := j\<rparr>) = chunks_ok d"
  "chunks_ok (d\<lparr>response_model := j\<rparr>) = chunks_ok d"
  "chunks_ok (d\<lparr>finish_reason := j\<rparr>) = chunks_ok d"
  "chunks_ok (d\<lparr>usage := j\<rparr>) = chunks_ok d"
  "chunks_ok (d\<lparr>raw_response := j\<rparr>) = chunks_ok d"
  "chunks_ok (d\<lparr>aborted := l\<rparr>) = chunks_ok d"
  "chunks_ok (d\<lparr>error_info := e\<rparr>) = chunks_ok d"
  by (rule chunks_ok_cong; simp)+

lemma chunks_ok_append:
  assumes "chunks_ok d" "chunk_count d = Some n" "index ev = Suc n"
  shows "chunks_ok (appendStreamEvent d ev)"
proof -
  obtain cs where cs: "raw_chunks d = Some cs" "map index cs = [1..<Suc (min n MAX_STORED_STREAM_EVENTS)]"
    using assms(1,2) by (auto simp: chunks_ok_def split: option.splits)
  then have len: "length cs = min n MAX_STORED_STREAM_EVENTS"
    by (metis diff_Suc_1 length_map length_upt One_nat_def)
  show ?thesis
  proof (cases "n < MAX_STORED_STREAM_EVENTS")
    case True
    then show ?thesis using cs len assms(3)
      by (simp add: chunks_ok_def appendStreamEvent_def Let_def min_def)
  next
    case False
    then show ?thesis using cs len assms(3)
      by (simp add: chunks_ok_def appendStreamEvent_def Let_def min_def)
  qed
qed

text \<open>Every record of details that a state holds or that was handed to a callback.\<close>

fun effect_details :: "stream_effect \<Rightarrow> response_details list" where
  "effect_details (OnDetails _ d) = [d]"
| "effect_details (OnComplete _ (Some d)) = [d]"
| "effect_details (OnError _ _ _ (Some d)) = [d]"
| "effect_details _ = []"

definition all_details_ok :: "stream_state \<Rightarrow> bool" where
  "all_details_ok s \<longleftrightarrow>
     (\<forall>d. streamDetails s = Some d \<longrightarrow> chunks_ok d) \<and>
     (\<forall>e\<in>set (effects s). \<forall>d\<in>set (effect_details e). chunks_ok d)"

lemma effect_details_opt [simp]:
  "set (effect_details (OnComplete sid x)) = set_option x"
  "set (effect_details (OnError sid m c x)) = set_option x"
  by (cases x; simp)+

lemma all_details_emit [simp]:
  "all_details_ok (emit e s) \<longleftrightarrow> all_details_ok s \<and> (\<forall>d\<in>set (effect_details e). chunks_ok d)"
  by (auto simp: all_details_ok_def emit_def)

lemma all_details_update:
  assumes "all_details_ok s" "\<And>d. streamDetails s = Some d \<Longrightarrow> chunks_ok d \<Longrightarrow> chunks_ok (f d)"
  shows "all_details_ok (updateDetails f s)"
  using assms by (auto simp: updateDetails_def all_details_ok_def emit_def Let_def split: option.splits)

lemma all_details_append:
  assumes "all_details_ok s" "\<And>d. chunks_ok (f d) = chunks_ok d"
  shows "all_details_ok (updateDetails (\<lambda>d. f (appendStreamEvent d
    (buildStreamEventDetail e (next_index s) x nm t))) s)"
proof (rule all_details_update [OF assms(1)])
  fix d assume d: "streamDetails s = Some d" "chunks_ok d"
  then obtain n where n: "chunk_count d = Some n" by (auto simp: chunks_ok_def split: option.splits)
  with d have "next_index s = Suc n" by (simp add: next_index_def)
  with d n show "chunks_ok (f (appendStreamEvent d (buildStreamEventDetail e (next_index s) x nm t)))"
    by (simp add: assms(2) chunks_ok_append buildStreamEventDetail_def)
qed

lemma all_details_finalize:
  assumes "all_details_ok s" "\<And>d. chunks_ok (f d) = chunks_ok d"
  shows "all_details_ok (finalizeDetails t f s)"
  unfolding finalizeDetails_def Let_def
  by (rule all_details_update [OF assms(1)]) (simp add: assms(2))

lemma all_details_current: "all_details_ok s \<Longrightarrow> d \<in> set_option (streamDetails s) \<Longrightarrow> chunks_ok d"
  by (auto simp: all_details_ok_def)

lemma all_details_clear [simp]: "all_details_ok s \<Longrightarrow> all_details_ok (clearStreamState s)"
  by (simp add: all_details_ok_def clearStreamState_def)

lemma all_details_complete [simp]: "all_details_ok (s\<lparr>isStreamComplete := b\<rparr>) = all_details_ok s"
  by (simp add: all_details_ok_def)

lemma all_details_report:
  "all_details_ok s \<Longrightarrow> all_details_ok (report_error sid v t msg code raw s)"
  unfolding report_error_def Let_def
  by (auto intro!: all_details_finalize elim!: all_details_current [rotated])

lemma all_details_foldl:
  "(\<And>e s. e \<in> set es \<Longrightarrow> all_details_ok s \<Longrightarrow> all_details_ok (f e s)) \<Longrightarrow> all_details_ok s \<Longrightarrow>
   all_details_ok (foldl (\<lambda>s e. f e s) s es)"
  by (induction es arbitrary: s) auto

lemma all_details_ready: "all_details_ok s \<Longrightarrow> all_details_ok (on_readystatechange sid e s)"
proof (induction sid e s rule: on_readystatechange.induct)
  case (1 sid r v t nested s)
  let ?s1 = "updateDetails (\<lambda>d. d\<lparr>http_status := current_status v s, http_status_text := xhr_statusText v,
                                    stream_ready_state := r\<rparr>) s"
  have s1: "all_details_ok ?s1"
    by (rule all_details_update [OF "1.prems"]) simp
  show ?case
    by (auto simp: Let_def s1 intro!: all_details_clear all_details_foldl all_details_report "1.IH")
qed

lemma all_details_close: "all_details_ok s \<Longrightarrow> all_details_ok (closeSource sid nested s)"
  unfolding closeSource_def
  by (auto intro!: all_details_clear all_details_foldl all_details_ready)

lemma all_details_handleError: "all_details_ok s \<Longrightarrow> all_details_ok (handleError sid env m c r s)"
  by (simp add: handleError_def all_details_close all_details_report)

lemma all_details_complete_stream: "all_details_ok s \<Longrightarrow> all_details_ok (complete_stream sid env s)"
  unfolding complete_stream_def Let_def
  by (auto intro!: all_details_close all_details_finalize elim!: all_details_current [rotated])

lemma chunk_patch_ok: "getChunkDetailsPatch chunk = Some patch \<Longrightarrow> chunks_ok (patch d) = chunks_ok d"
  by (auto simp: getChunkDetailsPatch_def split: if_splits option.splits)

lemma responses_patch_ok [simp]: "chunks_ok (getResponsesEventDetailsPatch ev d) = chunks_ok d"
  by (simp add: getResponsesEventDetailsPatch_def Let_def)

lemma all_details_append_id:
  "all_details_ok s \<Longrightarrow> all_details_ok (updateDetails (\<lambda>d. appendStreamEvent d
    (buildStreamEventDetail e (next_index s) x nm t)) s)"
  using all_details_append [of s "\<lambda>d. d"] by simp

lemma all_details_send_delta: "all_details_ok s \<Longrightarrow> all_details_ok (send_delta sid delta s)"
  by (simp add: send_delta_def Let_def)

lemma all_details_try:
  assumes "all_details_ok s" "try_message sid e (next_index s) env s = Some s'"
  shows "all_details_ok s'"
  using assms
  by (auto simp: try_message_def chunk_patch_ok split: option.splits if_splits
      intro!: all_details_send_delta all_details_append)

lemma all_details_message: "all_details_ok s \<Longrightarrow> all_details_ok (on_message sid e env s)"
  by (auto simp: on_message_def Let_def split: option.splits
      intro!: all_details_complete_stream all_details_append_id all_details_handleError
      elim: all_details_try)

lemma all_details_typed: "all_details_ok s \<Longrightarrow> all_details_ok (handleResponsesEvent sid nm e env s)"
  by (auto simp: handleResponsesEvent_def Let_def split: option.splits
      intro!: all_details_complete_stream all_details_append_id all_details_append all_details_handleError)

lemma all_details_error: "all_details_ok s \<Longrightarrow> all_details_ok (on_error sid e env s)"
  by (auto simp: on_error_def Let_def intro!: all_details_append_id all_details_handleError)

lemma all_details_open: "all_details_ok s \<Longrightarrow> all_details_ok (on_open sid rc hs v s)"
  unfolding on_open_def by (rule all_details_update) auto

lemma all_details_begin: "all_details_ok s \<Longrightarrow> all_details_ok (begin_stream sid p ep w t s)"
  by (auto simp: begin_stream_def Let_def all_details_ok_def emit_def chunks_ok_def)

lemma all_details_send: "all_details_ok s \<Longrightarrow> all_details_ok (sendStreamRequest sid p ep w t fl s)"
  unfolding sendStreamRequest_def Let_def
  by (auto split: option.splits
      intro!: all_details_clear all_details_finalize all_details_begin elim!: all_details_current [rotated])

lemma all_details_stop: "all_details_ok s \<Longrightarrow> all_details_ok (snd (stopStream env s))"
  by (auto simp: stopStream_def Let_def split: option.splits
      intro!: all_details_close all_details_finalize)

section \<open>Callbacks\<close>

text \<open>The effects but for the detail updates.\<close>

fun is_details :: "stream_effect \<Rightarrow> bool" where
  "is_details (OnDetails _ _) = True"
| "is_details _ = False"

definition calls :: "stream_state \<Rightarrow> stream_effect list" where
  "calls s = filter (\<lambda>e. \<not> is_details e) (effects s)"

lemma calls_emit [simp]: "calls (emit e s) = (if is_details e then calls s else calls s @ [e])"
  by (simp add: calls_def emit_def)

lemma calls_updates [simp]:
  "calls (s\<lparr>isStreamComplete := b\<rparr>) = calls s"
  "calls (s\<lparr>sseSource := x\<rparr>) = calls s"
  "calls (s\<lparr>streamDetails := d\<rparr>) = calls s"
  "calls (s\<lparr>streamStartedAtMs := t\<rparr>) = calls s"
  "calls (s\<lparr>onDetailsUpdate := u\<rparr>) = calls s"
  by (simp_all add: calls_def)

lemma emit_fields [simp]:
  "isStreamComplete (emit e s) = isStreamComplete s" "sseSource (emit e s) = sseSource s"
  "streamDetails (emit e s) = streamDetails s" "streamStartedAtMs (emit e s) = streamStartedAtMs s"
  "onDetailsUpdate (emit e s) = onDetailsUpdate s"
  by (simp_all add: emit_def)

lemma updateDetails_fields [simp]:
  "calls (updateDetails f s) = calls s"
  "isStreamComplete (updateDetails f s) = isStreamComplete s"
  "sseSource (updateDetails f s) = sseSource s"
  "streamDetails (updateDetails f s) = map_option f (streamDetails s)"
  "streamStartedAtMs (updateDetails f s) = streamStartedAtMs s"
  "onDetailsUpdate (updateDetails f s) = onDetailsUpdate s"
  by (simp_all add: updateDetails_def Let_def split: option.splits)

lemma finalizeDetails_fields [simp]:
  "calls (finalizeDetails t f s) = calls s"
  "isStreamComplete (finalizeDetails t f s) = isStreamComplete s"
  "sseSource (finalizeDetails t f s) = sseSource s"
  by (simp_all add: finalizeDetails_def Let_def)

lemma clear_fields [simp]:
  "calls (clearStreamState s) = calls s"
  "isStreamComplete (clearStreamState s) = isStreamComplete s"
  "sseSource (clearStreamState s) = None"
  "streamDetails (clearStreamState s) = None"
  by (simp_all add: clearStreamState_def)

definition final_error_details ::
  "source_view \<Rightarrow> int \<Rightarrow> jsval \<Rightarrow> jsval option \<Rightarrow> jsval option \<Rightarrow> stream_state \<Rightarrow> response_details option" where
  "final_error_details v t msg code raw s =
     (let s1 = s\<lparr>isStreamComplete := True\<rparr>; st = current_status v s1
      in streamDetails (finalizeDetails t (\<lambda>d. d\<lparr>http_status := st,
                 http_status_text := xhr_statusText v,
                 stream_ready_state := Some (readyState v),
                 error_info := Some \<lparr>err_message = msg, err_code = code, err_status = st, err_raw = raw\<rparr>\<rparr>) s1))"

lemma report_error_fields [simp]:
  "calls (report_error sid v t msg code raw s) =
     calls s @ [OnError sid msg code (final_error_details v t msg code raw s)]"
  "isStreamComplete (report_error sid v t msg code raw s)"
  "sseSource (report_error sid v t msg code raw s) = sseSource s"
  by (simp_all add: report_error_def final_error_details_def Let_def)

text \<open>Once a stream is complete, a \<open>readystatechange\<close> event calls nothing.\<close>

lemma ready_complete [simp]:
  assumes "isStreamComplete s"
  shows "calls (on_readystatechange sid e s) = calls s"
    "isStreamComplete (on_readystatechange sid e s)"
    "sseSource (on_readystatechange sid e s) = sseSource s"
  using assms by (cases e; simp add: Let_def)+

lemma ready_complete_foldl:
  "isStreamComplete s \<Longrightarrow>
   calls (foldl (\<lambda>s e. on_readystatechange sid e s) s es) = calls s \<and>
   isStreamComplete (foldl (\<lambda>s e. on_readystatechange sid e s) s es)"
  by (induction es arbitrary: s) auto

lemma closeSource_fields [simp]:
  "isStreamComplete s \<Longrightarrow> calls (closeSource sid nested s) = calls s @ [CloseSource sid]"
  "isStreamComplete s \<Longrightarrow> isStreamComplete (closeSource sid nested s)"
  "sseSource (closeSource sid nested s) = None"
  "streamDetails (closeSource sid nested s) = None"
  using ready_complete_foldl [of "emit (CloseSource sid) s" sid nested]
  by (simp_all add: closeSource_def)

lemma handleError_calls:
  "calls (handleError sid env msg code raw s) =
     (if isStreamComplete s then calls s
      else calls s @ [OnError sid msg code (final_error_details (view env) (at_final env) msg code raw s),
                      CloseSource sid])"
  by (simp add: handleError_def)

lemma handleError_fields:
  "isStreamComplete (handleError sid env msg code raw s)"
  "sseSource (handleError sid env msg code raw s) = (if isStreamComplete s then sseSource s else None)"
  by (simp_all add: handleError_def)

lemma complete_stream_calls:
  "\<exists>d. calls (complete_stream sid env s) = calls s @ [CloseSource sid, OnComplete sid d]"
  by (simp add: complete_stream_def Let_def)

lemma complete_stream_fields [simp]:
  "isStreamComplete (complete_stream sid env s)" "sseSource (complete_stream sid env s) = None"
  by (simp_all add: complete_stream_def Let_def)

text \<open>What a \<open>readystatechange\<close> event does to a stream that is not complete.\<close>

lemma ready_calls:
  "(calls (on_readystatechange sid e s) = calls s
    \<and> isStreamComplete (on_readystatechange sid e s) = isStreamComplete s
    \<and> sseSource (on_readystatechange sid e s) = sseSource s)
   \<or> (\<not> isStreamComplete s
      \<and> (\<exists>m c d. calls (on_readystatechange sid e s) = calls s @ [OnError sid m c d, CloseSource sid])
      \<and> isStreamComplete (on_readystatechange sid e s)
      \<and> sseSource (on_readystatechange sid e s) = None)"
proof (cases e)
  case (ReadyEvent r v t nested)
  let ?msg = "JStr (js ''HTTP '' @ int_str (the (xhr_status v)) @ js '': '' @ CONNECTION_CLOSED)"
  let ?s1 = "updateDetails (\<lambda>d. d\<lparr>http_status := current_status v s, http_status_text := xhr_statusText v,
                                    stream_ready_state := r\<rparr>) s"
  let ?s2 = "emit (CloseSource sid) (report_error sid v t ?msg None None ?s1)"
  have "isStreamComplete ?s2" by simp
  from ready_complete_foldl [OF this] show ?thesis
    by (simp add: ReadyEvent Let_def)
qed

section \<open>Runs\<close>

text \<open>A call of a listener by the event source.\<close>

datatype source_call =
    CallOpen "int option" "(jstr \<times> jstr list) list option" source_view
  | CallMessage sse_event event_env
  | CallTyped jstr sse_event event_env
  | CallError sse_event event_env
  | CallReady ready_event

fun deliver :: "nat \<Rightarrow> source_call \<Rightarrow> stream_state \<Rightarrow> stream_state" where
  "deliver sid (CallOpen rc hs v) s = on_open sid rc hs v s"
| "deliver sid (CallMessage e env) s = on_message sid e env s"
| "deliver sid (CallTyped nm e env) s = handleResponsesEvent sid nm e env s"
| "deliver sid (CallError e env) s = on_error sid e env s"
| "deliver sid (CallReady e) s = on_readystatechange sid e s"

text \<open>The listeners a request registers.\<close>

fun registered :: "endpoint \<Rightarrow> source_call \<Rightarrow> bool" where
  "registered ep (CallTyped nm _ _) = (ep = Responses \<and> nm \<in> set RESPONSE_STREAM_EVENT_TYPES)"
| "registered ep _ = True"

fun is_message :: "source_call \<Rightarrow> bool" where
  "is_message (CallMessage _ _) = True"
| "is_message _ = False"

fun is_update :: "nat \<Rightarrow> stream_effect \<Rightarrow> bool" where
  "is_update sid (OnUpdate n _ _) = (n = sid)"
| "is_update sid _ = False"

fun is_terminal :: "nat \<Rightarrow> stream_effect \<Rightarrow> bool" where
  "is_terminal sid (OnComplete n _) = (n = sid)"
| "is_terminal sid (OnError n _ _ _) = (n = sid)"
| "is_terminal sid _ = False"

fun is_failure :: "nat \<Rightarrow> stream_effect \<Rightarrow> bool" where
  "is_failure sid (OnError n _ _ _) = (n = sid)"
| "is_failure sid _ = False"

fun effect_sid :: "stream_effect \<Rightarrow> nat" where
  "effect_sid (OpenSource n) = n"
| "effect_sid (OnUpdate n _ _) = n"
| "effect_sid (OnComplete n _) = n"
| "effect_sid (OnError n _ _ _) = n"
| "effect_sid (OnDetails n _) = n"
| "effect_sid (CloseSource n) = n"

text \<open>The ways a listener can end: it calls back with chunks only, or it reports an error or
  completion, closing the source.\<close>

definition quiet :: "nat \<Rightarrow> stream_state \<Rightarrow> stream_state \<Rightarrow> bool" where
  "quiet sid s s' \<longleftrightarrow> (\<exists>us. calls s' = calls s @ us \<and> list_all (is_update sid) us)
     \<and> isStreamComplete s' = isStreamComplete s \<and> sseSource s' = sseSource s"

definition ending :: "nat \<Rightarrow> stream_state \<Rightarrow> stream_state \<Rightarrow> bool" where
  "ending sid s s' \<longleftrightarrow>
     ((\<exists>m c d. calls s' = calls s @ [OnError sid m c d, CloseSource sid])
      \<or> (\<exists>d. calls s' = calls s @ [CloseSource sid, OnComplete sid d]))
     \<and> isStreamComplete s' \<and> sseSource s' = None"

lemma quiet_same: "calls s' = calls s \<Longrightarrow> isStreamComplete s' = isStreamComplete s \<Longrightarrow>
    sseSource s' = sseSource s \<Longrightarrow> quiet sid s s'"
  by (simp add: quiet_def)

lemma handleError_ends:
  "\<not> isStreamComplete s \<Longrightarrow> calls s = calls s0 \<Longrightarrow> ending sid s0 (handleError sid env m c r s)"
  by (simp add: ending_def handleError_calls handleError_fields)

lemma complete_stream_ends: "calls s = calls s0 \<Longrightarrow> ending sid s0 (complete_stream sid env s)"
  using complete_stream_calls [of sid env s] by (auto simp: ending_def)

lemma send_delta_quiet:
  "calls s = calls s0 \<Longrightarrow> isStreamComplete s = isStreamComplete s0 \<Longrightarrow> sseSource s = sseSource s0 \<Longrightarrow>
   quiet sid s0 (send_delta sid delta s)"
  by (auto simp: send_delta_def Let_def quiet_def)

lemma try_message_quiet: "try_message sid e i env s = Some s' \<Longrightarrow> quiet sid s s'"
  by (auto simp: try_message_def split: option.splits if_splits intro!: send_delta_quiet)

lemma emit_update_quiet:
  "calls s = calls s0 \<Longrightarrow> isStreamComplete s = isStreamComplete s0 \<Longrightarrow> sseSource s = sseSource s0 \<Longrightarrow>
   quiet sid s0 (emit (OnUpdate sid k x) s)"
  by (simp add: quiet_def)

lemma message_outcome:
  assumes "\<not> isStreamComplete s"
  shows "quiet sid s (on_message sid e env s) \<or> ending sid s (on_message sid e env s)"
proof (cases "try_message sid e (next_index s) env s")
  case None
  then show ?thesis using assms
    by (auto simp: on_message_def Let_def intro!: complete_stream_ends handleError_ends)
next
  case (Some s')
  then show ?thesis using try_message_quiet [OF Some]
    by (auto simp: on_message_def Let_def intro!: complete_stream_ends)
qed

lemma typed_outcome:
  assumes "\<not> isStreamComplete s"
  shows "quiet sid s (handleResponsesEvent sid nm e env s) \<or> ending sid s (handleResponsesEvent sid nm e env s)"
  using assms
  by (auto simp: handleResponsesEvent_def Let_def split: option.split
      intro: complete_stream_ends handleError_ends emit_update_quiet quiet_same)

lemma error_outcome:
  "\<not> isStreamComplete s \<Longrightarrow> ending sid s (on_error sid e env s)"
  by (auto simp: on_error_def Let_def intro!: handleError_ends)

lemma ready_outcome:
  "quiet sid s (on_readystatechange sid e s)
   \<or> \<not> isStreamComplete s \<and> ending sid s (on_readystatechange sid e s)"
  using ready_calls [of sid e s] by (auto simp: quiet_def ending_def)

lemma open_outcome: "quiet sid s (on_open sid rc hs v s)"
  by (simp add: on_open_def quiet_same)

lemma deliver_outcome:
  "\<not> isStreamComplete s \<Longrightarrow> quiet sid s (deliver sid c s) \<or> ending sid s (deliver sid c s)"
  using message_outcome [of s sid] typed_outcome [of s sid] error_outcome [of s sid]
    ready_outcome [of sid s] open_outcome [of sid s]
  by (cases c; simp del: on_readystatechange.simps; blast)

text \<open>After completion only a \<open>message\<close> event still calls back: the \<open>message\<close> listener is the one
  that does not look at \<open>isStreamCompleteRef\<close>. A chunk that cannot be read is not reported
  any more, but a chunk that can is passed on, and \<open>[DONE]\<close> completes once more.\<close>

definition recompleting :: "nat \<Rightarrow> stream_state \<Rightarrow> stream_state \<Rightarrow> bool" where
  "recompleting sid s s' \<longleftrightarrow> (\<exists>d. calls s' = calls s @ [CloseSource sid, OnComplete sid d])
     \<and> isStreamComplete s' \<and> sseSource s' = None"

lemma deliver_complete:
  assumes "isStreamComplete s" "\<not> is_message c"
  shows "calls (deliver sid c s) = calls s" "isStreamComplete (deliver sid c s)"
    "sseSource (deliver sid c s) = sseSource s"
  using assms
  by (cases c; simp add: on_open_def handleResponsesEvent_def on_error_def del: on_readystatechange.simps)+

lemma complete_stream_recompletes:
  "calls s = calls s0 \<Longrightarrow> recompleting sid s0 (complete_stream sid env s)"
  using complete_stream_calls [of sid env s] by (auto simp: recompleting_def)

lemma done_recompletes:
  "data e = Some (js ''[DONE]'') \<Longrightarrow> recompleting sid s (on_message sid e env s)"
  by (simp add: on_message_def Let_def complete_stream_recompletes)

lemma late_message_outcome:
  assumes "isStreamComplete s"
  shows "quiet sid s (on_message sid e env s) \<or> recompleting sid s (on_message sid e env s)"
proof (cases "try_message sid e (next_index s) env s")
  case None
  then show ?thesis using assms
    by (auto simp: on_message_def Let_def handleError_def intro: quiet_same complete_stream_recompletes)
next
  case (Some s')
  then show ?thesis using try_message_quiet [OF Some]
    by (auto simp: on_message_def Let_def intro: complete_stream_recompletes)
qed

lemma late_outcome:
  assumes "isStreamComplete s" "sseSource s = None"
  shows "quiet sid s (deliver sid c s) \<or> recompleting sid s (deliver sid c s)"
    and "\<not> is_message c \<Longrightarrow> calls (deliver sid c s) = calls s"
proof -
  show "\<not> is_message c \<Longrightarrow> calls (deliver sid c s) = calls s"
    using deliver_complete(1) [OF assms(1)] .
  show "quiet sid s (deliver sid c s) \<or> recompleting sid s (deliver sid c s)"
  proof (cases "is_message c")
    case True
    then show ?thesis using late_message_outcome [OF assms(1)] by (cases c) auto
  next
    case False
    then show ?thesis using deliver_complete [OF assms(1) False] assms(1) by (intro disjI1 quiet_same) auto
  qed
qed

text \<open>
  A run of the hook. The source of the latest request may call its listeners as long as no
  other request was sent, after it was closed too: sse.js splits what has arrived into events
  and calls the listeners for all of them, whether or not one of the calls closes the source.
  The last field counts, as a list of sources, the messages that came after the source was
  closed. A request is sent only when none is streaming (the page offers the stop button
  instead).
\<close>

record world =
  stream :: stream_state
  current_src :: "(nat \<times> endpoint) option"
  next_sid :: nat
  late_messages :: "nat list"

definition init_world :: world where
  "init_world =
     \<lparr>stream = \<lparr>sseSource = None, isStreamComplete = False, streamDetails = None,
                streamStartedAtMs = None, onDetailsUpdate = None, effects = []\<rparr>,
      current_src = None, next_sid = 0, late_messages = []\<rparr>"

inductive world_step :: "world \<Rightarrow> world \<Rightarrow> bool" where
  send: "\<not> isStreaming (stream w) \<Longrightarrow>
    world_step w (w\<lparr>stream := sendStreamRequest (next_sid w) p ep wd t None (stream w),
                    current_src := Some (next_sid w, ep), next_sid := Suc (next_sid w)\<rparr>)"
| send_fails: "\<not> isStreaming (stream w) \<Longrightarrow>
    world_step w (w\<lparr>stream := sendStreamRequest (next_sid w) p ep wd t (Some failure) (stream w),
                    current_src := None, next_sid := Suc (next_sid w)\<rparr>)"
| call: "current_src w = Some (sid, ep) \<Longrightarrow> registered ep c \<Longrightarrow>
    world_step w (w\<lparr>stream := deliver sid c (stream w),
                    late_messages := (if is_message c \<and> CloseSource sid \<in> set (effects (stream w))
                                      then sid # late_messages w else late_messages w)\<rparr>)"
| stop: "world_step w (w\<lparr>stream := snd (stopStream env (stream w))\<rparr>)"

inductive_cases world_stepE: "world_step w w'"

inductive reachable :: "world \<Rightarrow> bool" where
  start: "reachable init_world"
| step: "reachable w \<Longrightarrow> world_step w w' \<Longrightarrow> reachable w'"

text \<open>After a source was closed no error of its request is reported, and no chunk reaches the
  page unless the request is one of \<open>L\<close>.\<close>

fun silent :: "nat set \<Rightarrow> nat set \<Rightarrow> stream_effect list \<Rightarrow> bool" where
  "silent L C [] = True"
| "silent L C (e # es) =
     (case e of
        OnUpdate sid _ _ \<Rightarrow> (sid \<in> C \<longrightarrow> sid \<in> L) \<and> silent L C es
      | OnError sid _ _ _ \<Rightarrow> sid \<notin> C \<and> silent L C es
      | CloseSource sid \<Rightarrow> silent L (insert sid C) es
      | _ \<Rightarrow> silent L C es)"

definition closed :: "stream_effect list \<Rightarrow> nat set" where
  "closed es = {sid. CloseSource sid \<in> set es}"

lemma closed_simps [simp]:
  "closed [] = {}" "closed (e # es) = (case e of CloseSource sid \<Rightarrow> insert sid (closed es) | _ \<Rightarrow> closed es)"
  "closed (xs @ ys) = closed xs \<union> closed ys"
  by (auto simp: closed_def split: stream_effect.splits)

lemma silent_append [simp]: "silent L C (xs @ ys) \<longleftrightarrow> silent L C xs \<and> silent L (C \<union> closed xs) ys"
  by (induction xs arbitrary: C) (auto split: stream_effect.splits)

lemma silent_mono: "silent L C es \<Longrightarrow> L \<subseteq> L' \<Longrightarrow> silent L' C es"
  by (induction es arbitrary: C) (auto split: stream_effect.splits)

lemma silent_updates: "list_all (is_update sid) us \<Longrightarrow> sid \<notin> C \<or> sid \<in> L \<Longrightarrow> silent L C us"
  by (induction us) (auto split: stream_effect.splits)

lemma updates_facts:
  assumes "list_all (is_update sid) us"
  shows "filter (is_terminal n) us = []" "filter (is_failure n) us = []" "closed us = {}"
    "\<forall>e\<in>set us. effect_sid e = sid"
  using assms by (induction us) (auto elim: is_update.elims split: stream_effect.splits)

definition terminals :: "nat \<Rightarrow> stream_state \<Rightarrow> nat" where
  "terminals sid s = length (filter (is_terminal sid) (calls s))"

definition failures :: "nat \<Rightarrow> stream_state \<Rightarrow> nat" where
  "failures sid s = length (filter (is_failure sid) (calls s))"

lemma failures_le: "failures sid s \<le> terminals sid s"
proof -
  have "length (filter (is_failure sid) es) \<le> length (filter (is_terminal sid) es)" for es
  proof (induction es)
    case (Cons e es)
    then show ?case by (cases e) auto
  qed simp
  then show ?thesis by (simp add: failures_def terminals_def)
qed

definition stream_inv :: "world \<Rightarrow> bool" where
  "stream_inv w \<longleftrightarrow>
     (let s = stream w in
      (\<forall>sid. terminals sid s \<le> 1 + count_list (late_messages w) sid)
      \<and> (\<forall>sid. failures sid s \<le> 1)
      \<and> (\<forall>e\<in>set (calls s). effect_sid e < next_sid w)
      \<and> silent (set (late_messages w)) {} (calls s)
      \<and> all_details_ok s
      \<and> (case current_src w of
           None \<Rightarrow> sseSource s = None
         | Some (sid, _) \<Rightarrow> sid < next_sid w
             \<and> (if isStreamComplete s then sseSource s = None \<and> sid \<in> closed (calls s)
                else sseSource s = Some sid \<and> terminals sid s = 0 \<and> sid \<notin> closed (calls s))))"

lemma all_details_deliver: "all_details_ok s \<Longrightarrow> all_details_ok (deliver sid c s)"
  by (cases c)
    (simp_all add: all_details_open all_details_message all_details_typed all_details_error all_details_ready
      del: on_readystatechange.simps)

lemma send_calls:
  "calls (sendStreamRequest sid p ep wd t None s) = calls s @ [OpenSource sid]"
  "\<exists>d. calls (sendStreamRequest sid p ep wd t (Some f) s) =
     calls s @ [OpenSource sid, OnError sid (JStr STREAM_START_ERROR) None d]"
  "sseSource (sendStreamRequest sid p ep wd t None s) = Some sid"
  "sseSource (sendStreamRequest sid p ep wd t (Some f) s) = None"
  "\<not> isStreamComplete (sendStreamRequest sid p ep wd t fl s)"
  by (auto simp: sendStreamRequest_def begin_stream_def Let_def split: option.splits prod.splits)

lemma stop_calls:
  "calls (snd (stopStream env s)) =
     (case sseSource s of None \<Rightarrow> calls s | Some sid \<Rightarrow> calls s @ [CloseSource sid])"
  "sseSource (snd (stopStream env s)) = None"
  "isStreamComplete (snd (stopStream env s)) = (isStreamComplete s \<or> sseSource s \<noteq> None)"
  by (auto simp: stopStream_def Let_def split: option.splits)

lemma fresh_terminals: "\<forall>e\<in>set (calls s). effect_sid e < n \<Longrightarrow> n \<le> sid \<Longrightarrow> terminals sid s = 0 \<and> sid \<notin> closed (calls s)"
  by (fastforce simp: terminals_def closed_def filter_empty_conv elim: is_terminal.elims)

lemma closed_effects: "sid \<in> closed (calls s) \<longleftrightarrow> CloseSource sid \<in> set (effects s)"
  by (auto simp: closed_def calls_def)


text \<open>What a listener appends to the calls leaves the bounds as they are, or adds one outcome.\<close>

lemma inv_quiet:
  assumes inv: "stream_inv w" and cur: "current_src w = Some (sid, ep)"
    and q: "quiet sid (stream w) s'" and d: "all_details_ok s'"
    and op: "sid \<notin> closed (calls (stream w)) \<or> calls s' = calls (stream w) \<or> sid \<in> set l"
    and l: "l = late_messages w \<or> l = sid # late_messages w"
  shows "stream_inv (w\<lparr>stream := s', late_messages := l\<rparr>)"
proof -
  obtain us where us: "calls s' = calls (stream w) @ us" "list_all (is_update sid) us"
    and f: "isStreamComplete s' = isStreamComplete (stream w)" "sseSource s' = sseSource (stream w)"
    using q by (auto simp: quiet_def)
  have sub: "set (late_messages w) \<subseteq> set l" using l by auto
  have count: "count_list (late_messages w) n \<le> count_list l n" for n using l by auto
  have t: "terminals n s' = terminals n (stream w)" "failures n s' = failures n (stream w)" for n
    using us updates_facts [OF us(2)] by (simp_all add: terminals_def failures_def)
  have i: "\<forall>n. terminals n (stream w) \<le> 1 + count_list (late_messages w) n"
    "silent (set (late_messages w)) {} (calls (stream w))"
    using inv by (auto simp: stream_inv_def Let_def)
  have "silent (set l) (closed (calls (stream w))) us"
    using op us by (auto intro: silent_updates)
  then have "silent (set l) {} (calls s')" using silent_mono [OF i(2) sub] us(1) by simp
  moreover have "terminals n s' \<le> 1 + count_list l n" for n
    using i(1) [rule_format, of n] count [of n] t(1) [of n] by linarith
  ultimately show ?thesis
    using inv cur d f us t updates_facts [OF us(2)]
    by (auto simp: stream_inv_def Let_def split: if_splits)
qed

lemma ending_calls:
  assumes "ending sid s s'"
  obtains x y where "calls s' = calls s @ [x, y]"
    "filter (is_terminal n) [x, y] = (if n = sid then filter (is_terminal sid) [x, y] else [])"
    "length (filter (is_terminal sid) [x, y]) = 1" "closed [x, y] = {sid}"
    "sid \<notin> C \<Longrightarrow> silent L C [x, y]"
    "effect_sid x = sid" "effect_sid y = sid"
  using assms unfolding ending_def by fastforce

lemma inv_ending:
  assumes inv: "stream_inv w" and cur: "current_src w = Some (sid, ep)"
    and e: "ending sid (stream w) s'" and d: "all_details_ok s'"
    and op: "\<not> isStreamComplete (stream w)"
  shows "stream_inv (w\<lparr>stream := s'\<rparr>)"
proof -
  let ?L = "set (late_messages w)"
  have f: "isStreamComplete s'" "sseSource s' = None" using e by (auto simp: ending_def)
  have t: "terminals n s' = terminals n (stream w) + (if n = sid then 1 else 0)" for n
  proof -
    obtain x y where "calls s' = calls (stream w) @ [x, y]"
      "filter (is_terminal n) [x, y] = (if n = sid then filter (is_terminal sid) [x, y] else [])"
      "length (filter (is_terminal sid) [x, y]) = 1"
      using ending_calls [OF e, of n "{}" "{}"] by metis
    then show ?thesis by (simp add: terminals_def del: filter.simps)
  qed
  have i: "\<forall>n. terminals n (stream w) \<le> 1 + count_list (late_messages w) n"
    "\<forall>n. failures n (stream w) \<le> 1"
    "\<forall>e\<in>set (calls (stream w)). effect_sid e < next_sid w"
    "silent ?L {} (calls (stream w))" "sid < next_sid w" "terminals sid (stream w) = 0"
    "sid \<notin> closed (calls (stream w))"
    using inv cur op by (auto simp: stream_inv_def Let_def)
  obtain x y where xy: "calls s' = calls (stream w) @ [x, y]" "closed [x, y] = {sid}"
    "silent ?L (closed (calls (stream w))) [x, y]" "effect_sid x = sid" "effect_sid y = sid"
    using ending_calls [OF e, of 0 "closed (calls (stream w))" ?L] i(7) by metis
  have "terminals n s' \<le> 1 + count_list (late_messages w) n" for n
    using i(1,6) t [of n] by (cases "n = sid") auto
  moreover have "failures n s' \<le> 1" for n
  proof (cases "n = sid")
    case True
    then show ?thesis using failures_le [of sid s'] t [of sid] i(6) by simp
  next
    case False
    then have "\<not> is_failure n x" "\<not> is_failure n y" using xy(4,5) by (cases x; simp; fail | cases y; simp)+
    then show ?thesis using i(2) xy(1) by (simp add: failures_def)
  qed
  moreover have "\<forall>e\<in>set (calls s'). effect_sid e < next_sid w" using i(3,5) xy by auto
  moreover have "silent ?L {} (calls s')" using i(4) xy(1,3) by (simp del: silent.simps)
  moreover have "sid \<in> closed (calls s')" using xy(1,2) by (simp del: closed_simps(2))
  ultimately show ?thesis
    using cur d f i(5) by (simp add: stream_inv_def)
qed

lemma inv_recompleting:
  assumes inv: "stream_inv w" and cur: "current_src w = Some (sid, ep)"
    and r: "recompleting sid (stream w) s'" and d: "all_details_ok s'"
    and op: "isStreamComplete (stream w)"
  shows "stream_inv (w\<lparr>stream := s', late_messages := sid # late_messages w\<rparr>)"
proof -
  obtain x where c: "calls s' = calls (stream w) @ [CloseSource sid, OnComplete sid x]"
    and f: "isStreamComplete s'" "sseSource s' = None" using r by (auto simp: recompleting_def)
  have t: "terminals n s' = terminals n (stream w) + (if n = sid then 1 else 0)"
    "failures n s' = failures n (stream w)" for n
    by (simp_all add: terminals_def failures_def c)
  have i: "\<forall>n. terminals n (stream w) \<le> 1 + count_list (late_messages w) n"
    "silent (set (late_messages w)) {} (calls (stream w))" "\<forall>n. failures n (stream w) \<le> 1"
    "\<forall>e\<in>set (calls (stream w)). effect_sid e < next_sid w" "sid < next_sid w"
    using inv cur by (auto simp: stream_inv_def Let_def)
  have "terminals n s' \<le> 1 + count_list (sid # late_messages w) n" for n
    using i(1) [rule_format, of n] t(1) [of n] by simp
  moreover have "silent (set (sid # late_messages w)) {} (calls s')"
    using silent_mono [OF i(2), of "set (sid # late_messages w)"] by (auto simp: c)
  ultimately show ?thesis
    using cur d f i(3-5) t by (auto simp: stream_inv_def Let_def c)
qed

theorem stream_inv_step:
  assumes inv: "stream_inv w" and step: "world_step w w'"
  shows "stream_inv w'"
  using step
proof (cases rule: world_step.cases)
  case (send ep p wd t)
  then have "all_details_ok (sendStreamRequest (next_sid w) p ep wd t None (stream w))"
    using inv by (intro all_details_send) (simp add: stream_inv_def Let_def)
  moreover have "terminals n (sendStreamRequest (next_sid w) p ep wd t None (stream w)) = terminals n (stream w)"
    "failures n (sendStreamRequest (next_sid w) p ep wd t None (stream w)) = failures n (stream w)" for n
    by (simp_all add: terminals_def failures_def send_calls)
  ultimately show ?thesis
    using inv fresh_terminals [of "stream w" "next_sid w" "next_sid w"] unfolding send(1)
    by (auto simp: stream_inv_def Let_def send_calls less_Suc_eq)
next
  case (send_fails p ep wd t failure)
  let ?s' = "sendStreamRequest (next_sid w) p ep wd t (Some failure) (stream w)"
  obtain d where d: "calls ?s' = calls (stream w) @ [OpenSource (next_sid w), OnError (next_sid w) (JStr STREAM_START_ERROR) None d]"
    using send_calls(2) by blast
  have det: "all_details_ok ?s'"
    using inv by (intro all_details_send) (simp add: stream_inv_def Let_def)
  have t: "terminals n ?s' = terminals n (stream w) + (if n = next_sid w then 1 else 0)"
    "failures n ?s' = failures n (stream w) + (if n = next_sid w then 1 else 0)" for n
    by (simp_all add: terminals_def failures_def d)
  have fresh: "terminals (next_sid w) (stream w) = 0 \<and> next_sid w \<notin> closed (calls (stream w))"
    using inv by (intro fresh_terminals) (auto simp: stream_inv_def Let_def)
  then have "failures (next_sid w) (stream w) = 0" using failures_le [of "next_sid w" "stream w"] by simp
  then show ?thesis
    using inv fresh det t unfolding send_fails(1)
    by (auto simp: stream_inv_def Let_def send_calls d less_Suc_eq)
next
  case (call sid ep c)
  have det: "all_details_ok (deliver sid c (stream w))"
    using inv by (intro all_details_deliver) (simp add: stream_inv_def Let_def)
  show ?thesis
  proof (cases "isStreamComplete (stream w)")
    case True
    with inv call have cl: "sid \<in> closed (calls (stream w))" "sseSource (stream w) = None"
      by (simp_all add: stream_inv_def Let_def)
    then have late: "CloseSource sid \<in> set (effects (stream w))" by (simp add: closed_effects)
    note out = late_outcome [OF True cl(2), where sid = sid and c = c]
    show ?thesis
    proof (cases "is_message c")
      case m: True
      then show ?thesis
        using out(1) inv_quiet [OF inv call(2) _ det, of "sid # late_messages w"]
          inv_recompleting [OF inv call(2) _ det True] late
        unfolding call(1) by auto
    next
      case m: False
      note same = deliver_complete [OF True m, of sid]
      then have "quiet sid (stream w) (deliver sid c (stream w))"
        using True by (intro quiet_same) auto
      from inv_quiet [OF inv call(2) this det, of "late_messages w"] same(1) m show ?thesis
        unfolding call(1) by simp
    qed
  next
    case False
    with inv call have cl: "sid \<notin> closed (calls (stream w))" by (simp add: stream_inv_def Let_def)
    then have "CloseSource sid \<notin> set (effects (stream w))" by (simp add: closed_effects)
    then have w': "w' = w\<lparr>stream := deliver sid c (stream w)\<rparr>" unfolding call(1) by simp
    from deliver_outcome [OF False, of sid c] show ?thesis
      using inv_quiet [OF inv call(2) _ det, of "late_messages w"] inv_ending [OF inv call(2) _ det False] cl
      unfolding w' by auto
  qed
next
  case (stop env)
  have "all_details_ok (snd (stopStream env (stream w)))"
    using inv by (intro all_details_stop) (simp add: stream_inv_def Let_def)
  moreover have "terminals n (snd (stopStream env (stream w))) = terminals n (stream w)"
    "failures n (snd (stopStream env (stream w))) = failures n (stream w)" for n
    by (simp_all add: terminals_def failures_def stop_calls split: option.splits)
  ultimately show ?thesis
    using inv unfolding stop
    by (auto simp: stream_inv_def Let_def stop_calls split: option.splits if_splits)
qed

lemma stream_inv_init: "stream_inv init_world"
  by (simp add: stream_inv_def init_world_def calls_def terminals_def failures_def all_details_ok_def)

lemma reachable_inv: "reachable w \<Longrightarrow> stream_inv w"
  by (induction rule: reachable.induct) (auto intro: stream_inv_init stream_inv_step)

lemma terminals_effects: "length (filter (is_terminal sid) (effects s)) = terminals sid s"
proof -
  have "is_terminal sid e \<Longrightarrow> \<not> is_details e" for e by (cases e) auto
  then have "filter (is_terminal sid) (effects s) = filter (is_terminal sid) (calls s)"
    unfolding calls_def filter_filter by (metis (mono_tags, lifting))
  then show ?thesis by (simp add: terminals_def)
qed

lemma failures_effects: "length (filter (is_failure sid) (effects s)) = failures sid s"
proof -
  have "is_failure sid e \<Longrightarrow> \<not> is_details e" for e by (cases e) auto
  then have "filter (is_failure sid) (effects s) = filter (is_failure sid) (calls s)"
    unfolding calls_def filter_filter by (metis (mono_tags, lifting))
  then show ?thesis by (simp add: failures_def)
qed



text \<open>A sample run: a request, its answer in one chunk, and the end of the stream.\<close>

definition sample_env :: event_env where
  "sample_env = \<lparr>view = \<lparr>xhr_status = Some 200, xhr_statusText = Some [], readyState = 1\<rparr>,
                 at_event = 1000, at_retry = 1000, at_final = 1001, on_close = []\<rparr>"

definition plain_event :: "jstr \<Rightarrow> sse_event" where
  "plain_event s = \<lparr>data = Some s, sse_id = None, lastEventId = None\<rparr>"

definition sample_payload :: playground_request where
  "sample_payload = buildPlaygroundPayload [] DEFAULT_CONFIG DEFAULT_PARAMETER_ENABLED"

definition sample_started :: world where
  "sample_started =
     init_world\<lparr>stream := sendStreamRequest 0 sample_payload ChatCompletions True 0 None (stream init_world),
       current_src := Some (0, ChatCompletions), next_sid := Suc 0\<rparr>"

lemma init_fields [simp]:
  "stream init_world = \<lparr>sseSource = None, isStreamComplete = False, streamDetails = None,
                streamStartedAtMs = None, onDetailsUpdate = None, effects = []\<rparr>"
  "current_src init_world = None" "next_sid init_world = 0" "late_messages init_world = []"
  by (simp_all add: init_world_def)

lemma sample_started_reachable: "reachable sample_started"
  using world_step.send [of init_world ChatCompletions sample_payload True 0] reachable.step [OF reachable.start]
  by (simp add: sample_started_def isStreaming_def)


lemma sample_started_open: "CloseSource 0 \<notin> set (effects (stream sample_started))"
  by (simp add: sample_started_def sendStreamRequest_def begin_stream_def Let_def emit_def)




text \<open>The messages after the closing are not hypothetical: when a chunk that cannot be read and
  \<open>[DONE]\<close> arrive together, the first is reported as an error and closes the source, and the
  second, which the listener does not guard, completes the request as well.\<close>

definition sample_broken :: world where
  "sample_broken = sample_started\<lparr>stream := on_message 0 (plain_event (js ''}'')) sample_env (stream sample_started)\<rparr>"

definition sample_both :: world where
  "sample_both = sample_broken\<lparr>stream := on_message 0 (plain_event (js ''[DONE]'')) sample_env (stream sample_broken),
     late_messages := [0]\<rparr>"

lemma sample_broken_unread: "json_parse (js ''}'') = None"
  by code_simp

lemma sample_started_calls:
  "calls (stream sample_started) = [OpenSource 0]" "\<not> isStreamComplete (stream sample_started)"
  "current_src sample_started = Some (0, ChatCompletions)" "late_messages sample_started = []"
  by (simp_all add: sample_started_def send_calls) (simp_all add: calls_def)

lemma sample_broken_calls:
  "\<exists>m c d. calls (stream sample_broken) = [OpenSource 0, OnError 0 m c d, CloseSource 0]"
  using sample_broken_unread sample_started_calls(1,2)
  by (simp add: sample_broken_def on_message_def Let_def plain_event_def try_message_def handleError_calls)

lemma sample_both_calls:
  "\<exists>m c d d'. calls (stream sample_both) =
     [OpenSource 0, OnError 0 m c d, CloseSource 0, CloseSource 0, OnComplete 0 d']"
proof -
  obtain m c d where b: "calls (stream sample_broken) = [OpenSource 0, OnError 0 m c d, CloseSource 0]"
    using sample_broken_calls by metis
  have "recompleting 0 (stream sample_broken) (stream sample_both)"
    unfolding sample_both_def by (simp add: done_recompletes plain_event_def)
  with b show ?thesis by (auto simp: recompleting_def)
qed

lemma broken_chunk_then_done:
  "reachable sample_both
    \<and> filter (is_failure 0) (effects (stream sample_both)) \<noteq> []
    \<and> length (filter (is_terminal 0) (effects (stream sample_both))) = 2"
proof -
  have "world_step sample_started sample_broken"
    using world_step.call [OF sample_started_calls(3), of "CallMessage (plain_event (js ''}'')) sample_env"]
      sample_started_open by (simp add: sample_broken_def)
  then have broken: "reachable sample_broken" by (rule reachable.step [OF sample_started_reachable])
  have "current_src sample_broken = Some (0, ChatCompletions)" "late_messages sample_broken = []"
    using sample_started_calls(3,4) by (simp_all add: sample_broken_def)
  moreover have "CloseSource 0 \<in> set (effects (stream sample_broken))"
    using sample_broken_calls closed_effects [of 0 "stream sample_broken"] by auto
  ultimately have "world_step sample_broken sample_both"
    using world_step.call [of sample_broken 0 ChatCompletions "CallMessage (plain_event (js ''[DONE]'')) sample_env"]
    by (simp add: sample_both_def)
  then have "reachable sample_both" by (rule reachable.step [OF broken])
  moreover have "failures 0 (stream sample_both) = 1" "terminals 0 (stream sample_both) = 2"
    using sample_both_calls by (auto simp: failures_def terminals_def)
  ultimately show ?thesis
    using failures_effects [of 0 "stream sample_both"] terminals_effects [of 0 "stream sample_both"] by auto
qed

text \<open>The hook reports that it is streaming exactly while the latest request that could be
  started has not been closed; while it streams that request has got no completion or error
  callback.\<close>

theorem isStreaming_accurate:
  assumes "reachable w"
  shows "isStreaming (stream w) =
      (\<exists>sid ep. current_src w = Some (sid, ep) \<and> CloseSource sid \<notin> set (effects (stream w)))
    \<and> (isStreaming (stream w) \<longrightarrow>
        filter (is_terminal (fst (the (current_src w)))) (effects (stream w)) = [])"
proof -
  from reachable_inv [OF assms] have "case current_src w of
           None \<Rightarrow> sseSource (stream w) = None
         | Some (sid, _) \<Rightarrow>
             if isStreamComplete (stream w) then sseSource (stream w) = None \<and> sid \<in> closed (calls (stream w))
             else sseSource (stream w) = Some sid \<and> terminals sid (stream w) = 0 \<and> sid \<notin> closed (calls (stream w))"
    by (auto simp: stream_inv_def Let_def split: option.splits)
  then show ?thesis
    by (auto simp: isStreaming_def closed_effects simp flip: terminals_effects split: option.splits if_splits)
qed

lemma isStreaming_accurate_witness:
  "isStreaming (stream sample_started) \<and> filter (is_terminal 0) (effects (stream sample_started)) = []"
proof -
  have s: "isStreaming (stream sample_started)" "current_src sample_started = Some (0, ChatCompletions)"
    by (simp_all add: isStreaming_def sample_started_def send_calls)
  from isStreaming_accurate [OF sample_started_reachable] s show ?thesis by simp
qed

text \<open>C3 Every record of details the page is ever given is consistent: the stored chunks are the
  first events of the stream, numbered from 1 without a gap, at most 200 of them, the stored
  count is their number, and the truncation flag tells whether events were dropped.\<close>

theorem stream_details_consistent:
  assumes "reachable w" "e \<in> set (effects (stream w))" "d \<in> set (effect_details e)"
  shows "\<exists>cs n. raw_chunks d = Some cs \<and> chunk_count d = Some n
    \<and> map index cs = [1..<Suc (min n 200)] \<and> length cs \<le> 200
    \<and> stored_chunk_count d = Some (length cs)
    \<and> (n = 0 \<or> truncated_chunks d = Some (length cs < n))"
proof -
  from reachable_inv [OF assms(1)] have "all_details_ok (stream w)"
    by (simp add: stream_inv_def Let_def)
  with assms(2,3) have "chunks_ok d" by (simp add: all_details_ok_def)
  then obtain cs n where cs: "raw_chunks d = Some cs" "chunk_count d = Some n"
    "stored_chunk_count d = Some (length cs)" "map index cs = [1..<Suc (min n 200)]"
    "n = 0 \<or> truncated_chunks d = Some (200 < n)"
    by (auto simp: chunks_ok_def MAX_STORED_STREAM_EVENTS_def split: option.splits)
  then have len: "length cs = min n 200"
    by (metis diff_Suc_1 length_map length_upt One_nat_def)
  then have "(length cs < n) = (200 < n)" by auto
  with cs len show ?thesis by auto
qed

lemma stream_details_consistent_witness:
  "\<exists>(d :: response_details) cs n. raw_chunks d = Some cs \<and> chunk_count d = Some n
    \<and> map index cs = [1..<Suc (min n 200)] \<and> length cs \<le> 200
    \<and> stored_chunk_count d = Some (length cs)
    \<and> (n = 0 \<or> truncated_chunks d = Some (length cs < n))"
proof -
  obtain d where "OnDetails 0 d \<in> set (effects (stream sample_started))"
    by (simp add: sample_started_def sendStreamRequest_def begin_stream_def Let_def emit_def)
  note this' = stream_details_consistent [OF sample_started_reachable this, of d]
  have "d \<in> set (effect_details (OnDetails 0 d))" by simp
  from this' [OF this] show ?thesis by blast
qed

text \<open>While a stream is not complete, an error of the source (a failed request, a server error
  event) ends it: the error callback is called once, with the message of the server's error
  object if the data carries one, else with the data itself, else with the generic message;
  the source is closed and the hook is ready for the next request. Once the stream is complete
  the event is ignored.\<close>

theorem on_error_outcome:
  "(if isStreamComplete s then calls (on_error sid e env s) = calls s
      else let raw = data e;
               parsed = (if truthy_str raw then getParsedError (the raw) else (None, None));
               msg = (if truthy_opt (fst parsed) then the (fst parsed)
                      else if truthy_str raw then JStr (the raw)
                      else JStr (js ''Request error occurred''))
           in \<exists>final. calls (on_error sid e env s) =
                calls s @ [OnError sid msg (snd parsed) final, CloseSource sid])
   \<and> isStreamComplete (on_error sid e env s)
   \<and> isStreaming (on_error sid e env s) = (isStreamComplete s \<and> isStreaming s)"
proof -
  have [simp]: "truthy_opt (map_option JStr x) = truthy_str x" for x
    by (cases x) (auto simp: truthy_opt_def)
  have [simp]: "truthy_opt (Some (JStr API_REQUEST_ERROR))" "API_REQUEST_ERROR = js ''Request error occurred''"
    by (simp_all add: truthy_opt_def API_REQUEST_ERROR_def)
  show ?thesis
    by (cases "data e")
      (auto simp: on_error_def Let_def handleError_calls handleError_fields isStreaming_def js_or_def)
qed

end
