(* ===== verification/ChatHandler.thy ===== *)
theory ChatHandler
  imports StreamRequest
begin

text \<open>
  \<open>features/playground/hooks/use-chat-handler.ts\<close> and the non-streaming request of
  \<open>features/playground/api.ts\<close>. A handler is the function of the message list it passes to
  \<open>onMessageUpdate\<close>. What the HTTP client returns or throws is data; the text of the
  \<open>TypeError\<close> that reading a property of \<open>null\<close> throws is an argument.
\<close>

section \<open>The non-streaming request\<close>

record http_response =
  resp_status :: int
  resp_statusText :: jstr
  resp_headers :: "jsval option"
  resp_data :: jsval

record http_failure =
  fail_response :: "http_response option"
  fail_message :: "jsval option"

definition header_entry :: "(jstr \<times> header_value) list \<Rightarrow> jstr \<times> jsval \<Rightarrow> (jstr \<times> header_value) list" where
  "header_entry acc kv =
     (case snd kv of
        JArr vs \<Rightarrow> obj_put (fst kv) (Many (map to_str vs)) acc
      | JNull \<Rightarrow> acc
      | v \<Rightarrow> obj_put (fst kv) (One (to_str v)) acc)"

text \<open>\<open>normalizeHeaders\<close> on what \<open>toJSON()\<close> gives for the headers of the client.\<close>

definition normalizeHeaders :: "jsval option \<Rightarrow> (jstr \<times> header_value) list" where
  "normalizeHeaders headers =
     (case headers of
        Some (JObj ps) \<Rightarrow> foldl header_entry [] (own_entries ps)
      | Some (JArr vs) \<Rightarrow> foldl header_entry [] (spread_obj (JArr vs))
      | _ \<Rightarrow> [])"

text \<open>\<open>typeof v === 'string' && v\<close>, as a value that is truthy or not.\<close>

definition str_or_none :: "jsval option \<Rightarrow> jstr option" where
  "str_or_none v = (case v of Some (JStr s) \<Rightarrow> if s = [] then None else Some s | _ \<Rightarrow> None)"

definition first_some :: "'a option \<Rightarrow> 'a option \<Rightarrow> 'a option" where
  "first_some a b = (case a of None \<Rightarrow> b | Some _ \<Rightarrow> a)"

definition getErrorInfo :: "jsval option \<Rightarrow> jsval option \<Rightarrow> jsval \<times> jstr option" where
  "getErrorInfo d fallback =
     (let openAIError = get_prop_opt d ''error''
      in (the (first_some
             (map_option JStr (first_some (str_or_none (get_prop_opt d ''message''))
                                 (str_or_none (get_prop_opt openAIError ''message''))))
             (js_or fallback (Some (JStr (js ''Request failed''))))),
          first_some (str_or_none (get_prop_opt openAIError ''code''))
            (str_or_none (get_prop_opt d ''error_code''))))"

definition isChatCompletionResponse :: "jsval \<Rightarrow> bool" where
  "isChatCompletionResponse d = (as_arr (get_prop d ''choices'') \<noteq> None)"

text \<open>\<open>v ?? null\<close>\<close>

definition or_null :: "jsval option \<Rightarrow> jsval" where
  "or_null v = (case v of None \<Rightarrow> JNull | Some x \<Rightarrow> x)"

definition first_choice :: "jsval \<Rightarrow> jsval option" where
  "first_choice d =
     (case as_arr (get_prop d ''choices'') of Some (c # _) \<Rightarrow> Some c | _ \<Rightarrow> None)"

definition getResponseDetailsPatch :: "jsval \<Rightarrow> endpoint \<Rightarrow> response_details \<Rightarrow> response_details" where
  "getResponseDetailsPatch dat ep d =
     (if isChatCompletionResponse dat
      then d\<lparr>response_id := get_prop dat ''id'',
             response_object := get_prop dat ''object'',
             created := get_prop dat ''created'',
             response_model := get_prop dat ''model'',
             finish_reason := Some (or_null (get_prop_opt (first_choice dat) ''finish_reason'')),
             usage := get_prop dat ''usage''\<rparr>
      else d\<lparr>response_id := get_prop dat ''id'',
             response_object := get_prop dat ''object'',
             created := get_prop dat ''created_at'',
             response_model := get_prop dat ''model'',
             finish_reason := (if ep = Responses then js_or (get_prop dat ''status'') (Some JNull)
                               else Some JNull),
             usage := responsesUsageToChatUsage (get_prop dat ''usage'')\<rparr>)"

definition base_details ::
  "playground_request \<Rightarrow> endpoint \<Rightarrow> int \<Rightarrow> int \<Rightarrow> http_response option \<Rightarrow> response_details" where
  "base_details payload ep startedAtMs completedAtMs resp =
     \<lparr>mode = NonStreamMode, endpoint_path = getPlaygroundEndpointPath ep, protocol = ep,
      request = payload, started_at = toISOString startedAtMs,
      completed_at = Some (toISOString completedAtMs),
      duration_ms = Some (completedAtMs - startedAtMs),
      http_status = map_option resp_status resp, http_status_text = map_option resp_statusText resp,
      response_headers = Some (normalizeHeaders (Option.bind resp resp_headers)),
      stream_ready_state = None, response_id = None, response_object = None, created = None,
      response_model = None, finish_reason = None, usage = None, raw_response = None,
      raw_chunks = None, chunk_count = None, stored_chunk_count = None, truncated_chunks = None,
      aborted = None, error_info = None\<rparr>"

definition failure_details ::
  "playground_request \<Rightarrow> endpoint \<Rightarrow> int \<Rightarrow> int \<Rightarrow> http_failure \<Rightarrow> response_details" where
  "failure_details payload ep startedAtMs completedAtMs f =
     (let dat = map_option resp_data (fail_response f);
          errorInfo = getErrorInfo dat (fail_message f)
      in (base_details payload ep startedAtMs completedAtMs (fail_response f))
           \<lparr>raw_response := dat,
            error_info := Some \<lparr>err_message = fst errorInfo, err_code = map_option JStr (snd errorInfo),
                                err_status = map_option resp_status (fail_response f), err_raw = dat\<rparr>\<rparr>)"

text \<open>\<open>sendChatCompletion\<close>: the client's response or the failure it throws, and the two
  readings of the clock. \<open>Inl\<close> is the error the function throws, with the details attached.\<close>

definition sendChatCompletion ::
  "jstr \<Rightarrow> playground_request \<Rightarrow> endpoint \<Rightarrow> int \<Rightarrow> int \<Rightarrow> http_failure + http_response
   \<Rightarrow> (http_failure \<times> response_details) + (jsval \<times> response_details)" where
  "sendChatCompletion typeError payload ep startedAtMs completedAtMs outcome =
     (case outcome of
        Inl f \<Rightarrow> Inl (f, failure_details payload ep startedAtMs completedAtMs f)
      | Inr r \<Rightarrow>
          (if resp_data r = JNull
           then let f = \<lparr>fail_response = None, fail_message = Some (JStr typeError)\<rparr>
                in Inl (f, failure_details payload ep startedAtMs completedAtMs f)
           else Inr (resp_data r,
                     (getResponseDetailsPatch (resp_data r) ep
                       (base_details payload ep startedAtMs completedAtMs (Some r)))
                       \<lparr>raw_response := Some (resp_data r)\<rparr>)))"

section \<open>The text of a Responses answer\<close>

fun is_object :: "jsval \<Rightarrow> bool" where
  "is_object (JObj _) = True"
| "is_object (JArr _) = True"
| "is_object _ = False"

definition output_text_of :: "jsval \<Rightarrow> jstr option" where
  "output_text_of v =
     (if is_object v \<and> get_prop v ''type'' = Some (JStr (js ''output_text''))
      then as_str (get_prop v ''text'') else None)"

definition item_parts :: "jsval \<Rightarrow> jstr list" where
  "item_parts item =
     (if \<not> is_object item then []
      else case output_text_of item of
             Some t \<Rightarrow> [t]
           | None \<Rightarrow> (let content = (case as_arr (get_prop item ''content'') of None \<Rightarrow> [] | Some cs \<Rightarrow> cs)
                     in List.map_filter output_text_of content))"

definition extractResponsesOutputText :: "jsval \<Rightarrow> jstr" where
  "extractResponsesOutputText response =
     (let output = (case as_arr (get_prop response ''output'') of None \<Rightarrow> [] | Some vs \<Rightarrow> vs)
      in join [] (concat (map item_parts output)))"

section \<open>Handlers\<close>

definition handleStreamDetailsUpdate :: "response_details \<Rightarrow> message list \<Rightarrow> message list" where
  "handleStreamDetailsUpdate d ms = updateLastAssistantMessage ms (\<lambda>m. m\<lparr>details := Some d\<rparr>)"

definition stream_update_message :: "chunk_kind \<Rightarrow> jsval \<Rightarrow> message \<Rightarrow> message" where
  "stream_update_message kind chunk m =
     (if status m = Some Error then m
      else if kind = ReasoningChunk
      then m\<lparr>reasoning := Some \<lparr>reasoning_content =
                 or_else (map_option reasoning_content (reasoning m)) [] @ to_str chunk,
                 reasoning_duration = Fin 0\<rparr>,
             isReasoningStreaming := Some True,
             status := Some Streaming\<rparr>
      else (processStreamingContent m (Some (to_str chunk)))\<lparr>status := Some Streaming\<rparr>)"

definition handleStreamUpdate :: "chunk_kind \<Rightarrow> jsval \<Rightarrow> message list \<Rightarrow> message list" where
  "handleStreamUpdate kind chunk ms = updateLastAssistantMessage ms (stream_update_message kind chunk)"

definition finish_message :: "response_details option \<Rightarrow> message \<Rightarrow> message" where
  "finish_message dets m =
     (finalizeMessage m None)
       \<lparr>status := Some Complete, details := (case dets of None \<Rightarrow> details m | Some d \<Rightarrow> Some d)\<rparr>"

definition handleStreamComplete :: "response_details option \<Rightarrow> message list \<Rightarrow> message list" where
  "handleStreamComplete dets ms =
     updateLastAssistantMessage ms (\<lambda>m.
       if status m = Some Complete \<or> status m = Some Error then m else finish_message dets m)"

text \<open>\<open>handleStreamError\<close>, less the toast it shows.\<close>

definition handleStreamError ::
  "jsval \<Rightarrow> jsval option \<Rightarrow> response_details option \<Rightarrow> message list \<Rightarrow> message list" where
  "handleStreamError error code dets ms = updateAssistantMessageWithError ms error code dets"

text \<open>\<open>stopGeneration\<close>; \<open>dets\<close> is what \<open>stopStream()\<close> returned.\<close>

definition stopGeneration :: "response_details option \<Rightarrow> message list \<Rightarrow> message list" where
  "stopGeneration dets ms =
     updateLastAssistantMessage ms (\<lambda>m.
       if status m = Some Loading \<or> status m = Some Streaming then finish_message dets m else m)"

text \<open>\<open>{...message, versions: [{...message.versions[0], content}]}\<close>\<close>

definition with_content :: "jstr \<Rightarrow> message \<Rightarrow> message" where
  "with_content c m =
     m\<lparr>versions := [case versions m of [] \<Rightarrow> \<lparr>version_id = [], content = c\<rparr> | v # _ \<Rightarrow> v\<lparr>content := c\<rparr>]\<rparr>"

definition answer_message :: "jstr \<Rightarrow> jstr option \<Rightarrow> response_details \<Rightarrow> message \<Rightarrow> message" where
  "answer_message c apiReasoning d m =
     (finalizeMessage (with_content c m) apiReasoning)\<lparr>status := Some Complete, details := Some d\<rparr>"

text \<open>What a call of \<open>onMessageUpdate\<close> does to the list. The page passes the updater on to React's
  \<open>setMessages\<close>, which runs it while it renders: when it throws, no list comes of it
  (\<open>UpdaterThrows\<close>). The declared types promise texts for the content and the reasoning of an
  answer, but nothing checks what the server sent: in \<open>UpdatedWith ms c r\<close> the last message of
  \<open>ms\<close> holds the value \<open>c\<close> for its content and \<open>r\<close> for its reasoning, where they are given,
  though they are no texts.\<close>

datatype chat_update =
    Updated "message list"
  | UpdatedWith "message list" "jsval option" "jsval option"
  | UpdaterThrows

definition ends_with_assistant :: "message list \<Rightarrow> bool" where
  "ends_with_assistant ms \<longleftrightarrow> ms \<noteq> [] \<and> from_role (last ms) = Assistant"

text \<open>\<open>v || ''\<close> for the content. \<open>finalizeMessage\<close> calls \<open>includes\<close> on it, which only texts and arrays
  have; an array that holds the tag itself then gets to \<open>substring\<close>, which arrays do not have, and
  any other is stored as it is.\<close>

definition choice_update ::
  "jsval option \<Rightarrow> jsval option \<Rightarrow> response_details \<Rightarrow> message list \<Rightarrow> chat_update" where
  "choice_update c r d ms =
     (let text = (if truthy_opt r then as_str r else None);
          raw = (if truthy_opt r \<and> text = None then r else None);
          answered = (\<lambda>t. updateLastAssistantMessage ms (answer_message t text d))
      in if \<not> ends_with_assistant ms then Updated ms
         else case (if truthy_opt c then the c else JStr []) of
                JStr t \<Rightarrow> if raw = None then Updated (answered t) else UpdatedWith (answered t) None raw
              | JArr vs \<Rightarrow> if JStr (js ''<think>'') \<in> set vs then UpdaterThrows
                           else UpdatedWith (answered []) (Some (JArr vs)) raw
              | _ \<Rightarrow> UpdaterThrows)"

text \<open>\<open>sendNonStreamingChat\<close> once \<open>sendChatCompletion\<close> has returned or thrown.\<close>

definition sendNonStreamingChat ::
  "endpoint \<Rightarrow> (http_failure \<times> response_details) + (jsval \<times> response_details)
   \<Rightarrow> message list \<Rightarrow> chat_update" where
  "sendNonStreamingChat ep result ms =
     (case result of
        Inr (response, d) \<Rightarrow>
          (if ep = Responses \<and> \<not> isChatCompletionResponse response
           then let err = get_prop response ''error''; msg = get_prop_opt err ''message''
                in if truthy_opt msg
                   then Updated (handleStreamError (the msg) (get_prop_opt err ''code'') (Some d) ms)
                   else Updated (updateLastAssistantMessage ms
                          (answer_message (extractResponsesOutputText response) None d))
           else if \<not> isChatCompletionResponse response
           then Updated (handleStreamError (JStr PARSE_ERROR) None (Some d) ms)
           else case first_choice response of
                  None \<Rightarrow> Updated (handleStreamError (JStr PARSE_ERROR) None (Some d) ms)
                | Some choice \<Rightarrow>
                    (if \<not> truthy choice
                     then Updated (handleStreamError (JStr PARSE_ERROR) None (Some d) ms)
                     else let message = get_prop choice ''message''
                          in choice_update (get_prop_opt message ''content'')
                               (get_prop_opt message ''reasoning_content'') d ms))
      | Inl (f, d) \<Rightarrow>
          (let dat = map_option resp_data (fail_response f);
               err = get_prop_opt dat ''error''
           in Updated (handleStreamError
                (the (js_or (get_prop_opt dat ''message'')
                       (js_or (get_prop_opt err ''message'')
                         (js_or (fail_message f) (Some (JStr API_REQUEST_ERROR))))))
                (js_or (get_prop_opt err ''code'') (js_or (get_prop_opt dat ''error_code'') None))
                (Some d) ms)))"

text \<open>The callbacks of a streamed request, as \<open>sendStreamingChat\<close> passes them.\<close>

fun apply_effect :: "stream_effect \<Rightarrow> message list \<Rightarrow> message list" where
  "apply_effect (OnUpdate _ kind chunk) ms = handleStreamUpdate kind chunk ms"
| "apply_effect (OnComplete _ d) ms = handleStreamComplete d ms"
| "apply_effect (OnError _ msg code d) ms = handleStreamError msg code d ms"
| "apply_effect (OnDetails _ d) ms = handleStreamDetailsUpdate d ms"
| "apply_effect (OpenSource _) ms = ms"
| "apply_effect (CloseSource _) ms = ms"

definition apply_effects :: "stream_effect list \<Rightarrow> message list \<Rightarrow> message list" where
  "apply_effects es ms = fold apply_effect es ms"

text \<open>\<open>sendStreamingChat\<close>\<close>

definition sendStreamingChat ::
  "nat \<Rightarrow> message list \<Rightarrow> playground_config \<Rightarrow> parameter_enabled \<Rightarrow> int \<Rightarrow> (jsval \<times> int \<times> int) option
   \<Rightarrow> stream_state \<Rightarrow> stream_state" where
  "sendStreamingChat sid ms cfg en startedAtMs start_failure s =
     sendStreamRequest sid (buildPlaygroundPayload ms cfg en) (cfg_endpoint cfg) True startedAtMs
       start_failure s"

end
