(* ===== verification/ChatFlow.thy ===== *)
theory ChatFlow
  imports StreamRuns ChatHandler
begin

text \<open>
  The streaming hook and the chat handler together: the callbacks of a run of
  \<open>StreamRequest\<close> applied to the message list by \<open>ChatHandler\<close>.
\<close>

section \<open>Handlers do not look at the details\<close>

definition strip :: "message \<Rightarrow> message" where
  "strip m = m\<lparr>details := None\<rparr>"

definition same_but_details :: "message list \<Rightarrow> message list \<Rightarrow> bool" where
  "same_but_details ms ms' \<longleftrightarrow> map strip ms = map strip ms'"

lemma strip_fields [simp]:
  "from_role (strip m) = from_role m" "status (strip m) = status m" "versions (strip m) = versions m"
  "reasoning (strip m) = reasoning m" "key (strip m) = key m"
  "strip (m\<lparr>details := d\<rparr>) = strip m"
  by (simp_all add: strip_def)

lemma strip_updates [simp]:
  "strip (m\<lparr>status := x\<rparr>) = (strip m)\<lparr>status := x\<rparr>"
  "strip (m\<lparr>versions := v\<rparr>) = (strip m)\<lparr>versions := v\<rparr>"
  "strip (m\<lparr>reasoning := r\<rparr>) = (strip m)\<lparr>reasoning := r\<rparr>"
  "strip (m\<lparr>isReasoningStreaming := b\<rparr>) = (strip m)\<lparr>isReasoningStreaming := b\<rparr>"
  "strip (m\<lparr>errorCode := c\<rparr>) = (strip m)\<lparr>errorCode := c\<rparr>"
  "getCurrentVersion (strip m) = getCurrentVersion m"
  by (simp_all add: strip_def getCurrentVersion_def)

lemma strip_process [simp]: "strip (processStreamingContent m c) = processStreamingContent (strip m) c"
  by (simp add: processStreamingContent_def updateCurrentVersionContent_def Let_def)

lemma strip_finalize [simp]: "strip (finalizeMessage m r) = finalizeMessage (strip m) r"
  by (simp add: finalizeMessage_def updateCurrentVersionContent_def Let_def)

lemma strip_stream_update [simp]: "strip (stream_update_message k c m) = stream_update_message k c (strip m)"
  by (simp add: stream_update_message_def)

lemma strip_finish [simp]:
  "strip (finish_message d m) = (finalizeMessage (strip m) None)\<lparr>status := Some Complete\<rparr>"
  by (simp add: finish_message_def)

lemma updateLast_strip:
  assumes "same_but_details ms ms'" "\<And>m m'. strip m = strip m' \<Longrightarrow> strip (f m) = strip (f m')"
  shows "same_but_details (updateLastAssistantMessage ms f) (updateLastAssistantMessage ms' f)"
proof (cases ms rule: rev_cases)
  case Nil
  with assms show ?thesis by (simp add: same_but_details_def)
next
  case (snoc xs m)
  with assms(1) obtain xs' m' where ms': "ms' = xs' @ [m']" "map strip xs = map strip xs'" "strip m = strip m'"
    by (cases ms' rule: rev_cases) (auto simp: same_but_details_def)
  then have "from_role m = from_role m'" by (metis strip_fields(1))
  then show ?thesis
    using ms' snoc assms(2) [OF ms'(3)]
    by (cases "from_role m = Assistant")
      (simp_all add: same_but_details_def last_msg.upd_hit last_msg.upd_miss)
qed

lemma handlers_strip:
  assumes "same_but_details ms ms'"
  shows "same_but_details (handleStreamDetailsUpdate d ms) ms'"
    "same_but_details (handleStreamUpdate k c ms) (handleStreamUpdate k c ms')"
    "same_but_details (handleStreamComplete dd ms) (handleStreamComplete dd ms')"
    "same_but_details (handleStreamError e cd dd ms) (handleStreamError e cd dd ms')"
proof -
  show "same_but_details (handleStreamDetailsUpdate d ms) ms'"
    using assms
    by (cases ms rule: rev_cases; cases "from_role (last ms) = Assistant")
      (simp_all add: handleStreamDetailsUpdate_def same_but_details_def last_msg.upd_hit last_msg.upd_miss)
  show "same_but_details (handleStreamUpdate k c ms) (handleStreamUpdate k c ms')"
    unfolding handleStreamUpdate_def by (rule updateLast_strip [OF assms]) simp
  show "same_but_details (handleStreamComplete dd ms) (handleStreamComplete dd ms')"
    unfolding handleStreamComplete_def
  proof (rule updateLast_strip [OF assms])
    fix m m' :: message assume eq: "strip m = strip m'"
    then have "status m = status m'" by (metis strip_fields(2))
    with eq show "strip (if status m = Some Complete \<or> status m = Some Error then m else finish_message dd m) =
        strip (if status m' = Some Complete \<or> status m' = Some Error then m' else finish_message dd m')"
      by simp
  qed
  show "same_but_details (handleStreamError e cd dd ms) (handleStreamError e cd dd ms')"
    unfolding handleStreamError_def updateAssistantMessageWithError_def
    by (rule updateLast_strip [OF assms]) (simp add: updateCurrentVersionContent_def, metis strip_updates(6))
qed

lemma apply_effects_calls:
  "same_but_details ms ms' \<Longrightarrow>
   same_but_details (apply_effects es ms) (apply_effects (filter (\<lambda>e. \<not> is_details e) es) ms')"
proof (induction es arbitrary: ms ms')
  case (Cons e es)
  have "same_but_details (apply_effect e ms) (if is_details e then ms' else apply_effect e ms')"
    using Cons.prems by (cases e) (auto intro: handlers_strip)
  with Cons.IH [OF this] show ?case by (simp add: apply_effects_def split: if_splits)
qed (simp add: apply_effects_def)

section \<open>A streamed answer\<close>

text \<open>The data of a chunk that carries the piece \<open>t\<close> of the answer.\<close>

definition content_chunk :: "jstr \<Rightarrow> jsval" where
  "content_chunk t =
     JObj [(js ''choices'', JArr [JObj [(js ''delta'', JObj [(js ''content'', JStr t)])]])]"

lemma not_index: "array_index (js ''choices'') = None" "array_index (js ''delta'') = None"
  "array_index (js ''content'') = None"
  by (simp_all add: array_index_def js_Cons is_digit_def)

lemma parse_content_chunk:
  "units_ok t \<Longrightarrow> json_parse (stringify (content_chunk t)) = Some (content_chunk t)"
  by (rule json_parse_stringify) (simp add: content_chunk_def own_entries_def not_index units_ok_js)

lemma content_chunk_not_done: "stringify (content_chunk t) \<noteq> js ''[DONE]''"
  by (simp add: content_chunk_def js_Cons)

lemma try_content_chunk:
  assumes "data e = Some (stringify (content_chunk t))" "units_ok t" "t \<noteq> []"
  shows "\<exists>s1. try_message sid e i env s = Some (emit (OnUpdate sid ContentChunk (JStr t)) s1) \<and>
    calls s1 = calls s \<and> isStreamComplete s1 = isStreamComplete s \<and> sseSource s1 = sseSource s"
proof -
  have p: "getChunkDetailsPatch (content_chunk t) \<noteq> None"
    by (simp add: getChunkDetailsPatch_def chunk_finish_reason_def content_chunk_def js_Cons)
  have d: "send_delta sid (first_delta (content_chunk t)) s' = emit (OnUpdate sid ContentChunk (JStr t)) s'" for s'
    using assms(3)
    by (simp add: send_delta_def first_delta_def content_chunk_def get_prop_opt_def truthy_opt_def js_Cons)
  have n: "content_chunk t \<noteq> JNull" by (simp add: content_chunk_def)
  show ?thesis
    using assms(1,2) p
    by (auto simp: try_message_def parse_content_chunk d n)
qed

lemma message_content_chunk:
  assumes "data e = Some (stringify (content_chunk t))" "units_ok t" "t \<noteq> []"
  shows "calls (on_message sid e env s) = calls s @ [OnUpdate sid ContentChunk (JStr t)]
    \<and> isStreamComplete (on_message sid e env s) = isStreamComplete s
    \<and> sseSource (on_message sid e env s) = sseSource s"
  using try_content_chunk [OF assms, of sid "next_index s" env s] content_chunk_not_done [of t]
  by (auto simp: on_message_def Let_def assms(1))

text \<open>A request, its chunks and the end marker, each at its own time.\<close>

definition stream_answer ::
  "nat \<Rightarrow> (jstr \<times> event_env) list \<Rightarrow> event_env \<Rightarrow> stream_state \<Rightarrow> stream_state" where
  "stream_answer sid ts env s =
     on_message sid (plain_event (js ''[DONE]'')) env
       (foldl (\<lambda>s (t, env). on_message sid (plain_event (stringify (content_chunk t))) env s) s ts)"

lemma stream_chunks_calls:
  assumes "\<forall>(t, env)\<in>set ts. units_ok t \<and> t \<noteq> []"
  shows "calls (foldl (\<lambda>s (t, env). on_message sid (plain_event (stringify (content_chunk t))) env s) s ts) =
      calls s @ map (\<lambda>(t, _). OnUpdate sid ContentChunk (JStr t)) ts"
  using assms
proof (induction ts arbitrary: s)
  case (Cons p ts)
  obtain t env where p: "p = (t, env)" by (cases p)
  with Cons.prems have "units_ok t" "t \<noteq> []" by auto
  with message_content_chunk [of "plain_event (stringify (content_chunk t))" t sid env s]
  have "calls (on_message sid (plain_event (stringify (content_chunk t))) env s) =
      calls s @ [OnUpdate sid ContentChunk (JStr t)]"
    by (simp add: plain_event_def)
  with Cons p show ?case by simp
qed simp

lemma stream_answer_calls:
  assumes "\<forall>(t, env)\<in>set ts. units_ok t \<and> t \<noteq> []"
  shows "\<exists>d. calls (stream_answer sid ts env s) =
      calls s @ map (\<lambda>(t, _). OnUpdate sid ContentChunk (JStr t)) ts @ [CloseSource sid, OnComplete sid d]"
proof -
  let ?s1 = "foldl (\<lambda>s (t, env). on_message sid (plain_event (stringify (content_chunk t))) env s) s ts"
  obtain d where "calls (stream_answer sid ts env s) = calls ?s1 @ [CloseSource sid, OnComplete sid d]"
    using complete_stream_calls [of sid env "updateDetails _ ?s1"]
    by (force simp: stream_answer_def on_message_def plain_event_def Let_def)
  with stream_chunks_calls [OF assms, of sid s] show ?thesis by auto
qed

lemma stream_update_fields:
  assumes "status m \<noteq> Some Error"
  shows "content (getCurrentVersion (stream_update_message ContentChunk (JStr t) m)) = content (getCurrentVersion m) @ t"
    "status (stream_update_message ContentChunk (JStr t) m) = Some Streaming"
    "from_role (stream_update_message ContentChunk (JStr t) m) = from_role m"
    "key (stream_update_message ContentChunk (JStr t) m) = key m"
  using assms getCurrentVersion_streaming [of m t]
    getCurrentVersion_cong [of "stream_update_message ContentChunk (JStr t) m" "processStreamingContent m (Some t)"]
  by (simp_all add: stream_update_message_def processStreamingContent_def Let_def updateCurrentVersionContent_def)

lemma apply_chunks:
  assumes "from_role m = Assistant" "status m \<noteq> Some Error" "status m \<noteq> Some Complete"
  shows "\<exists>m'. apply_effects (map (\<lambda>(t, _). OnUpdate sid ContentChunk (JStr t)) ts) (ms @ [m]) = ms @ [m']
    \<and> content (getCurrentVersion m') = content (getCurrentVersion m) @ concat (map fst ts)
    \<and> from_role m' = Assistant \<and> key m' = key m
    \<and> status m' \<noteq> Some Error \<and> status m' \<noteq> Some Complete"
  using assms
proof (induction ts arbitrary: m)
  case Nil
  then show ?case by (simp add: apply_effects_def)
next
  case (Cons p ts)
  obtain t env where p: "p = (t, env)" by (cases p)
  let ?m = "stream_update_message ContentChunk (JStr t) m"
  have "apply_effects (map (\<lambda>(t, _). OnUpdate sid ContentChunk (JStr t)) (p # ts)) (ms @ [m]) =
      apply_effects (map (\<lambda>(t, _). OnUpdate sid ContentChunk (JStr t)) ts) (ms @ [?m])"
    using Cons.prems(1) by (simp add: p apply_effects_def handleStreamUpdate_def last_msg.upd_hit)
  with Cons.IH [of ?m] Cons.prems p show ?case by (simp add: stream_update_fields)
qed

lemma finish_fields:
  "content (getCurrentVersion (finish_message d m)) = visibleContent (parseThinkTags (content (getCurrentVersion m)))"
  "status (finish_message d m) = Some Complete" "key (finish_message d m) = key m"
  "from_role (finish_message d m) = from_role m"
  "isReasoningStreaming (finish_message d m) = Some False"
  by (simp_all add: finish_message_def finalizeMessage_def Let_def getCurrentVersion_def updateCurrentVersionContent_def)

lemma same_snoc: "same_but_details ms (xs @ [m]) \<Longrightarrow> \<exists>ys m'. ms = ys @ [m'] \<and> map strip ys = map strip xs \<and> strip m' = strip m"
  by (cases ms rule: rev_cases) (auto simp: same_but_details_def)

text \<open>Every operation of the stream appends to the trace.\<close>

definition extends :: "stream_state \<Rightarrow> stream_state \<Rightarrow> bool" where
  "extends s s' \<longleftrightarrow> (\<exists>es. effects s' = effects s @ es)"

definition new_effects :: "stream_state \<Rightarrow> stream_state \<Rightarrow> stream_effect list" where
  "new_effects s s' = drop (length (effects s)) (effects s')"

lemma extends_new: "extends s s' \<Longrightarrow> effects s' = effects s @ new_effects s s'"
  by (auto simp: extends_def new_effects_def)

lemma extends_same: "effects s' = effects s \<Longrightarrow> extends s s'"
  by (simp add: extends_def)

lemma extends_trans: "extends a b \<Longrightarrow> extends b c \<Longrightarrow> extends a c"
  by (auto simp: extends_def)

lemma extends_emit: "extends a b \<Longrightarrow> extends a (emit e b)"
  by (auto simp: extends_def emit_def)

lemma extends_update: "extends a b \<Longrightarrow> extends a (updateDetails f b)"
  by (auto simp: extends_def updateDetails_def emit_def Let_def split: option.splits)

lemma extends_finalize: "extends a b \<Longrightarrow> extends a (finalizeDetails t f b)"
  by (simp add: finalizeDetails_def Let_def extends_update)

lemma extends_complete_flag: "extends a (b\<lparr>isStreamComplete := x\<rparr>) = extends a b"
  by (simp add: extends_def)

lemma extends_clear: "extends a b \<Longrightarrow> extends a (clearStreamState b)"
  by (simp add: extends_def clearStreamState_def)

lemma extends_report: "extends a b \<Longrightarrow> extends a (report_error sid v t m c r b)"
  by (simp add: report_error_def Let_def extends_emit extends_finalize extends_complete_flag)

lemma extends_foldl:
  "(\<And>x b. x \<in> set xs \<Longrightarrow> extends a b \<Longrightarrow> extends a (f x b)) \<Longrightarrow> extends a b \<Longrightarrow>
   extends a (foldl (\<lambda>b x. f x b) b xs)"
  by (induction xs arbitrary: b) auto

lemma extends_ready: "extends a b \<Longrightarrow> extends a (on_readystatechange sid e b)"
proof (induction sid e b rule: on_readystatechange.induct)
  case (1 sid r v t nested s)
  show ?case
    by (auto simp: Let_def intro!: extends_clear extends_foldl extends_emit extends_report
        extends_update "1.IH" "1.prems")
qed

lemma extends_close: "extends a b \<Longrightarrow> extends a (closeSource sid es b)"
  unfolding closeSource_def
  by (intro extends_clear extends_foldl extends_ready extends_emit) auto

lemma extends_handleError: "extends a b \<Longrightarrow> extends a (handleError sid env m c r b)"
  by (simp add: handleError_def extends_close extends_report)

lemma extends_complete: "extends a b \<Longrightarrow> extends a (complete_stream sid env b)"
  by (simp add: complete_stream_def Let_def extends_emit extends_close extends_finalize extends_complete_flag)

lemma extends_delta: "extends a b \<Longrightarrow> extends a (send_delta sid d b)"
  by (simp add: send_delta_def Let_def extends_emit)

lemma extends_try: "extends a b \<Longrightarrow> try_message sid e i env b = Some b' \<Longrightarrow> extends a b'"
  by (auto simp: try_message_def split: option.splits if_splits intro!: extends_delta extends_update)

lemma extends_message: "extends a b \<Longrightarrow> extends a (on_message sid e env b)"
  by (auto simp: on_message_def Let_def split: option.splits
      intro!: extends_complete extends_update extends_handleError elim: extends_try)

lemma extends_answer: "extends s (stream_answer sid ts env s)"
proof -
  have "extends s (foldl (\<lambda>s p. (case p of (t, env) \<Rightarrow>
      on_message sid (plain_event (stringify (content_chunk t))) env s)) s ts)"
    by (rule extends_foldl) (auto intro: extends_message extends_same)
  then show ?thesis unfolding stream_answer_def by (rule extends_message)
qed

text \<open>C2 A streamed answer reaches the page whole: whatever pieces the server cuts it into and
  whenever they come, after the end marker the assistant message is complete and shows the
  visible part of the concatenated pieces; the earlier messages are as before but for the
  details.\<close>

theorem streamed_answer_shown:
  assumes "\<forall>(t, env)\<in>set ts. units_ok t \<and> t \<noteq> []"
    and "from_role m = Assistant" "status m = Some Loading \<or> status m = Some Streaming"
  shows "\<exists>ms' m'. apply_effects (new_effects s (stream_answer sid ts env s)) (ms @ [m]) = ms' @ [m']
    \<and> map strip ms' = map strip ms
    \<and> status m' = Some Complete \<and> key m' = key m
    \<and> content (getCurrentVersion m') =
        visibleContent (parseThinkTags (content (getCurrentVersion m) @ concat (map fst ts)))"
proof -
  let ?es = "new_effects s (stream_answer sid ts env s)"
  obtain d where d: "calls (stream_answer sid ts env s) =
      calls s @ map (\<lambda>(t, _). OnUpdate sid ContentChunk (JStr t)) ts @ [CloseSource sid, OnComplete sid d]"
    using stream_answer_calls [OF assms(1)] by blast
  then have es: "filter (\<lambda>e. \<not> is_details e) ?es =
      map (\<lambda>(t, _). OnUpdate sid ContentChunk (JStr t)) ts @ [CloseSource sid, OnComplete sid d]"
    using extends_new [OF extends_answer [of s sid ts env]] by (simp add: calls_def)
  have ne: "status m \<noteq> Some Error" "status m \<noteq> Some Complete" using assms(3) by auto
  obtain m1 where m1: "apply_effects (map (\<lambda>(t, _). OnUpdate sid ContentChunk (JStr t)) ts) (ms @ [m]) = ms @ [m1]"
    "content (getCurrentVersion m1) = content (getCurrentVersion m) @ concat (map fst ts)"
    "from_role m1 = Assistant" "key m1 = key m" "status m1 \<noteq> Some Error" "status m1 \<noteq> Some Complete"
    using apply_chunks [OF assms(2) ne, of sid ts ms] by blast
  have "apply_effects (filter (\<lambda>e. \<not> is_details e) ?es) (ms @ [m]) = ms @ [finish_message d m1]"
    using m1 by (simp add: es apply_effects_def handleStreamComplete_def last_msg.upd_hit)
  with apply_effects_calls [of "ms @ [m]" "ms @ [m]" ?es]
  have "same_but_details (apply_effects ?es (ms @ [m])) (ms @ [finish_message d m1])"
    by (simp add: same_but_details_def)
  from same_snoc [OF this] obtain ms' m' where m': "apply_effects ?es (ms @ [m]) = ms' @ [m']"
    "map strip ms' = map strip ms" "strip m' = strip (finish_message d m1)" by blast
  then have "status m' = status (finish_message d m1)" "key m' = key (finish_message d m1)"
    "getCurrentVersion m' = getCurrentVersion (finish_message d m1)"
    by (metis strip_fields(2), metis strip_fields(5), metis strip_updates(6))
  with m' m1 finish_fields [of d m1] show ?thesis by auto
qed


lemma streamed_answer_shown_witness:
  "\<exists>ms' m'. apply_effects (new_effects (stream sample_started)
        (stream_answer 0 [(js ''<think>x</think>H'', sample_env), (js ''i'', sample_env)] sample_env (stream sample_started)))
      [createUserMessage [1] [2] (js ''Hello''), createLoadingAssistantMessage [3] [4]] = ms' @ [m']
    \<and> status m' = Some Complete \<and> content (getCurrentVersion m') = js ''Hi''"
proof -
  have "visibleContent (parseThinkTags (js ''<think>x</think>H'' @ js ''i'')) = js ''Hi''" by code_simp
  then show ?thesis
    using streamed_answer_shown [where ts = "[(js ''<think>x</think>H'', sample_env), (js ''i'', sample_env)]"
        and m = "createLoadingAssistantMessage [3] [4]" and s = "stream sample_started" and sid = 0
        and env = sample_env and ms = "[createUserMessage [1] [2] (js ''Hello'')]"]
    by (auto simp: units_ok_js createLoadingAssistantMessage_def createMessageVersion_def getCurrentVersion_def)
qed

section \<open>An answer in one piece\<close>

definition settled_by :: "playground_request \<Rightarrow> int \<Rightarrow> message \<Rightarrow> message \<Rightarrow> bool" where
  "settled_by p dur m m' \<longleftrightarrow>
     (status m' = Some Complete \<or> status m' = Some Error)
     \<and> key m' = key m \<and> from_role m' = from_role m \<and> isReasoningStreaming m' = Some False
     \<and> (\<exists>d. details m' = Some d \<and> request d = p \<and> duration_ms d = Some dur)"

lemma answer_settles:
  "request d = p \<Longrightarrow> duration_ms d = Some dur \<Longrightarrow> settled_by p dur m (answer_message c r d m)"
  by (simp add: settled_by_def answer_message_def finalizeMessage_def with_content_def Let_def
      updateCurrentVersionContent_def)

lemma error_settles:
  "from_role m = Assistant \<Longrightarrow> request d = p \<Longrightarrow> duration_ms d = Some dur \<Longrightarrow>
   \<exists>m'. handleStreamError e c (Some d) (ms @ [m]) = ms @ [m'] \<and> settled_by p dur m m'"
  by (simp add: handleStreamError_def updateAssistantMessageWithError_def last_msg.upd_hit settled_by_def
      updateCurrentVersionContent_def)

lemma answer_list_settles:
  "from_role m = Assistant \<Longrightarrow> request d = p \<Longrightarrow> duration_ms d = Some dur \<Longrightarrow>
   \<exists>m'. updateLastAssistantMessage (ms @ [m]) (answer_message c r d) = ms @ [m'] \<and> settled_by p dur m m'"
  by (auto simp: last_msg.upd_hit intro: answer_settles)

text \<open>What the server gave for a field of the first answer; the value if it is neither a text nor
  replaced by the empty one; and the contents \<open>parseThinkTags\<close> cannot take.\<close>

definition answer_field :: "string \<Rightarrow> http_failure + http_response \<Rightarrow> jsval option" where
  "answer_field name outcome =
     (case outcome of
        Inl f \<Rightarrow> None
      | Inr r \<Rightarrow> Option.bind (first_choice (resp_data r)) (\<lambda>ch. get_prop_opt (get_prop ch ''message'') name))"

definition odd_value :: "jsval option \<Rightarrow> jsval option" where
  "odd_value v = (if truthy_opt v \<and> as_str v = None then v else None)"

definition unreadable :: "jsval option \<Rightarrow> bool" where
  "unreadable v =
     (case v of
        None \<Rightarrow> False
      | Some (JArr vs) \<Rightarrow> JStr (js ''<think>'') \<in> set vs
      | Some _ \<Rightarrow> True)"

definition update_shown :: "chat_update \<Rightarrow> jsval option \<Rightarrow> jsval option \<Rightarrow> message list \<Rightarrow> bool" where
  "update_shown u c r ms \<longleftrightarrow> u = (if c = None \<and> r = None then Updated ms else UpdatedWith ms c r)"

lemma choice_update_outcome:
  assumes "from_role m = Assistant" "request d = p" "duration_ms d = Some dur"
  shows "if unreadable (odd_value c) then choice_update c r d (ms @ [m]) = UpdaterThrows
    else \<exists>m'. update_shown (choice_update c r d (ms @ [m])) (odd_value c) (odd_value r) (ms @ [m'])
      \<and> settled_by p dur m m'"
proof -
  have [simp]: "ends_with_assistant (ms @ [m])" using assms(1) by (simp add: ends_with_assistant_def)
  let ?m = "\<lambda>t. answer_message t (if truthy_opt r then as_str r else None) d m"
  have upd: "updateLastAssistantMessage (ms @ [m]) (answer_message t x d) = ms @ [answer_message t x d m]" for t x
    using assms(1) by (simp add: last_msg.upd_hit)
  have m': "settled_by p dur m (?m t)" for t
    using assms(2,3) by (rule answer_settles)
  have r: "(if truthy_opt r \<and> (if truthy_opt r then as_str r else None) = None then r else None) = odd_value r"
    by (auto simp: odd_value_def)
  have u: "choice_update c r d (ms @ [m]) =
      (case (if truthy_opt c then the c else JStr []) of
         JStr t \<Rightarrow> if odd_value r = None then Updated (ms @ [?m t]) else UpdatedWith (ms @ [?m t]) None (odd_value r)
       | JArr vs \<Rightarrow> if JStr (js ''<think>'') \<in> set vs then UpdaterThrows
                    else UpdatedWith (ms @ [?m []]) (Some (JArr vs)) (odd_value r)
       | _ \<Rightarrow> UpdaterThrows)"
    unfolding choice_update_def Let_def r by (cases "if truthy_opt c then the c else JStr []") (simp_all add: upd)
  show ?thesis
  proof (cases "truthy_opt c")
    case False
    then show ?thesis using m' by (auto simp: u odd_value_def [of c] update_shown_def unreadable_def)
  next
    case True
    then obtain v where v: "c = Some v" by (cases c) (auto simp: truthy_opt_def)
    then have o: "odd_value c = (case v of JStr _ \<Rightarrow> None | _ \<Rightarrow> Some v)"
      using True by (cases v) (simp_all add: odd_value_def as_str_def)
    show ?thesis unfolding u o using True m' unfolding v
      by (cases v) (auto simp: update_shown_def unreadable_def)
  qed
qed

lemma sendChatCompletion_details:
  assumes "sendChatCompletion te p ep t0 t1 outcome = r"
  shows "case r of Inl (f, d) \<Rightarrow> request d = p \<and> duration_ms d = Some (t1 - t0)
    | Inr (v, d) \<Rightarrow> request d = p \<and> duration_ms d = Some (t1 - t0)"
  using assms
  by (auto simp: sendChatCompletion_def failure_details_def base_details_def getResponseDetailsPatch_def
      Let_def split: sum.splits if_splits)

lemma answer_field_choice:
  "answer_field k (Inr r) = (case first_choice (resp_data r) of None \<Rightarrow> None
     | Some ch \<Rightarrow> if truthy ch then get_prop_opt (get_prop ch ''message'') k else None)"
  by (auto simp: answer_field_def get_prop_opt_def get_prop_def split: option.splits jsval.splits)

lemma no_choice: "\<not> isChatCompletionResponse v \<Longrightarrow> first_choice v = None"
  by (simp add: isChatCompletionResponse_def first_choice_def)

lemma nothing_odd [simp]: "odd_value None = None" "\<not> unreadable None"
  by (simp_all add: odd_value_def unreadable_def truthy_opt_def)

lemma update_shown_plain [simp]: "update_shown (Updated ms') None None ms \<longleftrightarrow> ms' = ms"
  by (auto simp: update_shown_def)

lemma nonstreaming_outcome:
  assumes m: "from_role m = Assistant" and res: "sendChatCompletion te p ep t0 t1 outcome = res"
    and det: "case res of Inl (f, d) \<Rightarrow> request d = p \<and> duration_ms d = Some dur
      | Inr (v, d) \<Rightarrow> request d = p \<and> duration_ms d = Some dur"
  shows "if unreadable (odd_value (answer_field ''content'' outcome))
      then sendNonStreamingChat ep res (ms @ [m]) = UpdaterThrows
      else \<exists>m'. update_shown (sendNonStreamingChat ep res (ms @ [m])) (odd_value (answer_field ''content'' outcome))
          (odd_value (answer_field ''reasoning_content'' outcome)) (ms @ [m']) \<and> settled_by p dur m m'"
proof (cases res)
  case (Inl fd)
  obtain f d where fd: "fd = (f, d)" by (cases fd)
  have none: "answer_field k outcome = None" for k
  proof (cases outcome)
    case (Inr r)
    then have "resp_data r = JNull" using res Inl by (auto simp: sendChatCompletion_def Let_def split: if_splits)
    then show ?thesis by (simp add: Inr answer_field_def first_choice_def get_prop_def as_arr_def)
  qed (simp add: answer_field_def)
  have "request d = p" "duration_ms d = Some dur" using det by (simp_all add: Inl fd)
  from error_settles [OF m this] show ?thesis
    by (simp add: none sendNonStreamingChat_def Inl fd Let_def)
next
  case (Inr vd)
  obtain v d where vd: "vd = (v, d)" by (cases vd)
  have d: "request d = p" "duration_ms d = Some dur" using det by (simp_all add: Inr vd)
  obtain r where r: "outcome = Inr r" "resp_data r = v"
    using res Inr vd by (cases outcome) (auto simp: sendChatCompletion_def Let_def split: if_splits)
  note errors = error_settles [OF m d] and answers = answer_list_settles [OF m d]
  show ?thesis
  proof (cases "isChatCompletionResponse v")
    case False
    then have "answer_field k outcome = None" for k by (simp add: r answer_field_def no_choice)
    then show ?thesis using False errors answers
      by (simp add: sendNonStreamingChat_def Inr vd Let_def)
  next
    case True
    show ?thesis
    proof (cases "case first_choice v of None \<Rightarrow> True | Some ch \<Rightarrow> \<not> truthy ch")
      case bad: True
      then have "answer_field k outcome = None" for k
        by (auto simp: r answer_field_choice split: option.splits)
      then show ?thesis using True bad errors
        by (auto simp: sendNonStreamingChat_def Inr vd split: option.splits)
    next
      case good: False
      then obtain ch where ch: "first_choice v = Some ch" "truthy ch" by (auto split: option.splits)
      then have f: "answer_field k outcome = get_prop_opt (get_prop ch ''message'') k" for k
        by (simp add: r answer_field_choice)
      show ?thesis
        using choice_update_outcome [OF m d, where ms = ms
            and c = "get_prop_opt (get_prop ch ''message'') ''content''"
            and r = "get_prop_opt (get_prop ch ''message'') ''reasoning_content''"]
        by (simp add: f sendNonStreamingChat_def Inr vd True ch Let_def)
    qed
  qed
qed

text \<open>C5 A request without streaming settles the assistant message whatever the client returns or
  throws, with one exception that is characterised exactly: when the content of the first answer
  is truthy, no text, and no array without the tag, the updater throws while the page renders
  and nothing is stored. Otherwise the last message ends complete or in error, no longer shown as
  reasoning, and carries the details of the request with its duration; no other message changes,
  and its content and reasoning are texts unless the server sent other values for them, which are
  then stored as they came.\<close>

theorem nonstreaming_settles:
  assumes "from_role m = Assistant"
  shows "let update = sendNonStreamingChat ep (sendChatCompletion te p ep t0 t1 outcome) (ms @ [m]);
      c = odd_value (answer_field ''content'' outcome);
      r = odd_value (answer_field ''reasoning_content'' outcome)
    in if unreadable c then update = UpdaterThrows
      else \<exists>m'. update_shown update c r (ms @ [m'])
        \<and> (status m' = Some Complete \<or> status m' = Some Error)
        \<and> key m' = key m \<and> from_role m' = Assistant \<and> isReasoningStreaming m' = Some False
        \<and> (\<exists>d. details m' = Some d \<and> request d = p \<and> duration_ms d = Some (t1 - t0))"
proof -
  obtain res where res: "sendChatCompletion te p ep t0 t1 outcome = res" by blast
  note d = sendChatCompletion_details [OF res]
  let ?c = "odd_value (answer_field ''content'' outcome)"
  let ?r = "odd_value (answer_field ''reasoning_content'' outcome)"
  have "if unreadable ?c then sendNonStreamingChat ep res (ms @ [m]) = UpdaterThrows
      else \<exists>m'. update_shown (sendNonStreamingChat ep res (ms @ [m])) ?c ?r (ms @ [m']) \<and> settled_by p (t1 - t0) m m'"
    using nonstreaming_outcome [OF assms res d] .
  then show ?thesis using res assms by (auto simp: settled_by_def Let_def split: if_splits)
qed

lemma nonstreaming_settles_witness:
  "let update = sendNonStreamingChat Responses (sendChatCompletion [] sample_payload Responses 5 9
        (Inl \<lparr>fail_response = None, fail_message = None\<rparr>)) ([] @ [createLoadingAssistantMessage [1] [2]]);
      c = odd_value (answer_field ''content'' (Inl \<lparr>fail_response = None, fail_message = None\<rparr>));
      r = odd_value (answer_field ''reasoning_content'' (Inl \<lparr>fail_response = None, fail_message = None\<rparr>))
    in if unreadable c then update = UpdaterThrows
      else \<exists>m'. update_shown update c r ([] @ [m'])
        \<and> (status m' = Some Complete \<or> status m' = Some Error)
        \<and> key m' = key (createLoadingAssistantMessage [1] [2]) \<and> from_role m' = Assistant
        \<and> isReasoningStreaming m' = Some False
        \<and> (\<exists>d. details m' = Some d \<and> request d = sample_payload \<and> duration_ms d = Some (9 - 5))"
  by (rule nonstreaming_settles) (simp add: createLoadingAssistantMessage_def)

text \<open>An answer whose content is a number takes the page down.\<close>

lemma number_answer_throws:
  assumes "from_role m = Assistant" "truthy_num n"
  shows "sendNonStreamingChat ChatCompletions (sendChatCompletion te p ChatCompletions t0 t1
      (Inr \<lparr>resp_status = 200, resp_statusText = [], resp_headers = None,
        resp_data = JObj [(js ''choices'', JArr [JObj [(js ''message'', JObj [(js ''content'', JNum n)])]])]\<rparr>))
      (ms @ [m]) = UpdaterThrows"
  using assms
  by (simp add: sendNonStreamingChat_def sendChatCompletion_def isChatCompletionResponse_def first_choice_def
      as_arr_def get_prop_opt_def choice_update_def ends_with_assistant_def truthy_opt_def Let_def)

text \<open>C7 The stop button settles the message: an assistant message that was loading or
  streaming becomes complete, and one that had finished stays as it is; a completion callback
  that comes late, or a second press, then changes nothing.\<close>

theorem stop_settles:
  assumes "from_role m = Assistant" "status m \<noteq> None"
  shows "\<exists>m'. stopGeneration dets (ms @ [m]) = ms @ [m']
    \<and> (status m' = Some Complete \<or> status m' = Some Error \<and> m' = m)
    \<and> handleStreamComplete dets' (ms @ [m']) = ms @ [m']
    \<and> stopGeneration dets'' (ms @ [m']) = ms @ [m']"
proof -
  obtain st where "status m = Some st" using assms(2) by auto
  then show ?thesis using assms(1)
    by (cases st) (auto simp: stopGeneration_def handleStreamComplete_def last_msg.upd_hit finish_fields)
qed

lemma stop_settles_witness:
  "\<exists>m'. stopGeneration None ([] @ [createLoadingAssistantMessage [1] [2]]) = [] @ [m']
    \<and> (status m' = Some Complete \<or> status m' = Some Error \<and> m' = createLoadingAssistantMessage [1] [2])
    \<and> handleStreamComplete None ([] @ [m']) = [] @ [m']
    \<and> stopGeneration None ([] @ [m']) = [] @ [m']"
  by (rule stop_settles) (simp_all add: createLoadingAssistantMessage_def)

end
