(* ===== verification/PlaygroundJson.thy ===== *)
theory PlaygroundJson
  imports PlaygroundTypes "HOL-Library.Monad_Syntax"
begin

text \<open>
  The messages of the playground as JSON values: what \<open>JSON.stringify\<close> is given when they are
  stored (\<open>features/playground/lib/storage.ts\<close>, \<open>saveMessages\<close>), with the property names of
  \<open>features/playground/types.ts\<close>, and the reading of a stored value as a \<open>Message\<close>, which the
  source writes as a cast. A property that is \<open>undefined\<close> is left out. The reading is \<open>None\<close> for
  a value of another shape; the source does not check it.
\<close>

section \<open>Properties of an object\<close>

definition obj :: "(string \<times> jsval option) list \<Rightarrow> jsval" where
  "obj fs = JObj (List.map_filter (\<lambda>(k, v). map_option (Pair (js k)) v) fs)"

lemma obj_simps [simp]:
  "obj [] = JObj []"
  "obj ((k, None) # fs) = obj fs"
  by (simp_all add: obj_def map_filter_def)

lemma get_prop_obj: "distinct (map fst fs) \<Longrightarrow> get_prop (obj fs) k = Option.bind (map_of fs k) id"
proof -
  assume d: "distinct (map fst fs)"
  then have "map_of (List.map_filter (\<lambda>(k, v). map_option (Pair (js k)) v) fs) (js k) = Option.bind (map_of fs k) id"
  proof (induction fs)
    case (Cons f fs)
    have "map_of (List.map_filter (\<lambda>(k, v). map_option (Pair (js k)) v) gs) (js k) = None"
      if "k \<notin> fst ` set gs" for gs
      using that by (force simp: map_of_eq_None_iff set_map_filter)
    moreover have "map_of fs k = None" if "k \<notin> fst ` set fs" using that by (simp add: map_of_eq_None_iff)
    ultimately show ?case using Cons by (cases f; cases "snd f") (auto simp: map_filter_def)
  qed simp
  then show ?thesis by (simp add: obj_def)
qed

definition req :: "(jsval \<Rightarrow> 'a option) \<Rightarrow> jsval option \<Rightarrow> 'a option" where
  "req d v = Option.bind v d"

definition opt :: "(jsval \<Rightarrow> 'a option) \<Rightarrow> jsval option \<Rightarrow> 'a option option" where
  "opt d v = (case v of None \<Rightarrow> Some None | Some x \<Rightarrow> map_option Some (d x))"

text \<open>A pair of a printer to JSON values and a reader that takes its values back.\<close>

definition codec :: "('a \<Rightarrow> jsval) \<Rightarrow> (jsval \<Rightarrow> 'a option) \<Rightarrow> bool" where
  "codec e d \<longleftrightarrow> (\<forall>x. d (e x) = Some x)"

lemma codecI: "(\<And>x. d (e x) = Some x) \<Longrightarrow> codec e d"
  by (simp add: codec_def)

lemma codecD: "codec e d \<Longrightarrow> d (e x) = Some x"
  by (simp add: codec_def)

lemma opt_codec: "codec e d \<Longrightarrow> opt d (map_option e v) = Some v"
  by (cases v) (simp_all add: opt_def codec_def)

lemma opt_Some: "opt Some v = Some v"
  by (cases v) (simp_all add: opt_def)

lemma req_codec: "codec e d \<Longrightarrow> req d (Some (e x)) = Some x"
  by (simp add: req_def codec_def)

lemma req_Some: "req Some (Some v) = Some v"
  by (simp add: req_def)

section \<open>Plain values\<close>

fun d_str :: "jsval \<Rightarrow> jstr option" where
  "d_str (JStr s) = Some s"
| "d_str _ = None"

fun d_num :: "jsval \<Rightarrow> jnum option" where
  "d_num (JNum n) = Some n"
| "d_num _ = None"

fun d_bool :: "jsval \<Rightarrow> bool option" where
  "d_bool (JBool b) = Some b"
| "d_bool _ = None"

definition e_int :: "int \<Rightarrow> jsval" where
  "e_int i = JNum (num_of_int i)"

fun d_int :: "jsval \<Rightarrow> int option" where
  "d_int (JNum (Fin q)) = (if of_int (floor q) = q then Some (floor q) else None)"
| "d_int _ = None"

definition e_nat :: "nat \<Rightarrow> jsval" where
  "e_nat n = e_int (int n)"

definition d_nat :: "jsval \<Rightarrow> nat option" where
  "d_nat v = map_option nat (d_int v)"

definition e_arr :: "('a \<Rightarrow> jsval) \<Rightarrow> 'a list \<Rightarrow> jsval" where
  "e_arr e xs = JArr (map e xs)"

definition d_arr :: "(jsval \<Rightarrow> 'a option) \<Rightarrow> jsval \<Rightarrow> 'a list option" where
  "d_arr d v = (case v of JArr vs \<Rightarrow> those (map d vs) | _ \<Rightarrow> None)"

text \<open>A string of a fixed set: the names of the values \<open>xs\<close>.\<close>

definition e_enum :: "('a \<Rightarrow> string) \<Rightarrow> 'a \<Rightarrow> jsval" where
  "e_enum f x = JStr (js (f x))"

definition d_enum :: "'a list \<Rightarrow> ('a \<Rightarrow> string) \<Rightarrow> jsval \<Rightarrow> 'a option" where
  "d_enum xs f v = (case v of JStr s \<Rightarrow> List.find (\<lambda>x. js (f x) = s) xs | _ \<Rightarrow> None)"

lemma those_map: "(\<And>x. x \<in> set xs \<Longrightarrow> d (e x) = Some x) \<Longrightarrow> those (map (d \<circ> e) xs) = Some xs"
  by (induction xs) auto

named_theorems codecs \<open>the readers take back what the printers wrote\<close>

lemma codec_plain [codecs]:
  "codec JStr d_str" "codec JNum d_num" "codec JBool d_bool" "codec e_int d_int" "codec e_nat d_nat"
  by (auto intro!: codecI simp: e_int_def num_of_int_def e_nat_def d_nat_def)

lemma codec_arr [codecs]: "codec e d \<Longrightarrow> codec (e_arr e) (d_arr d)"
  by (intro codecI) (simp add: e_arr_def d_arr_def codec_def those_map)

lemma codec_enum: "inj f \<Longrightarrow> set xs = UNIV \<Longrightarrow> codec (e_enum f) (d_enum xs f)"
proof (intro codecI)
  fix x
  assume f: "inj f" and xs: "set xs = UNIV"
  have "List.find (\<lambda>y. js (f y) = js (f x)) xs = Some x" if "x \<in> set xs" for xs
    using that f by (induction xs) (auto simp: inj_eq)
  then show "d_enum xs f (e_enum f x) = Some x" using xs by (simp add: e_enum_def d_enum_def)
qed

section \<open>Enumerations\<close>

fun role_name :: "message_role \<Rightarrow> string" where
  "role_name User = ''user''"
| "role_name Assistant = ''assistant''"
| "role_name System = ''system''"

fun status_name :: "message_status \<Rightarrow> string" where
  "status_name Loading = ''loading''"
| "status_name Streaming = ''streaming''"
| "status_name Complete = ''complete''"
| "status_name Error = ''error''"

fun endpoint_name :: "endpoint \<Rightarrow> string" where
  "endpoint_name ChatCompletions = ''chat_completions''"
| "endpoint_name Responses = ''responses''"

fun mode_name :: "details_mode \<Rightarrow> string" where
  "mode_name StreamMode = ''stream''"
| "mode_name NonStreamMode = ''non_stream''"

fun part_name :: "part_type \<Rightarrow> string" where
  "part_name InputText = ''input_text''"
| "part_name OutputText = ''output_text''"

abbreviation "d_role \<equiv> d_enum [User, Assistant, System] role_name"
abbreviation "d_status \<equiv> d_enum [Loading, Streaming, Complete, Error] status_name"
abbreviation "d_endpoint \<equiv> d_enum [ChatCompletions, Responses] endpoint_name"
abbreviation "d_mode \<equiv> d_enum [StreamMode, NonStreamMode] mode_name"
abbreviation "d_part_type \<equiv> d_enum [InputText, OutputText] part_name"

lemma codec_enums [codecs]:
  "codec (e_enum role_name) d_role" "codec (e_enum status_name) d_status"
  "codec (e_enum endpoint_name) d_endpoint" "codec (e_enum mode_name) d_mode"
  "codec (e_enum part_name) d_part_type"
proof -
  have "inj role_name" by (intro injI) (case_tac x; case_tac y; simp)
  moreover have "set [User, Assistant, System] = UNIV" by (auto intro: message_role.exhaust)
  ultimately show "codec (e_enum role_name) d_role" by (rule codec_enum)
  have "inj status_name" by (intro injI) (case_tac x; case_tac y; simp)
  moreover have "set [Loading, Streaming, Complete, Error] = UNIV" by (auto intro: message_status.exhaust)
  ultimately show "codec (e_enum status_name) d_status" by (rule codec_enum)
  have "inj endpoint_name" by (intro injI) (case_tac x; case_tac y; simp)
  moreover have "set [ChatCompletions, Responses] = UNIV" by (auto intro: endpoint.exhaust)
  ultimately show "codec (e_enum endpoint_name) d_endpoint" by (rule codec_enum)
  have "inj mode_name" by (intro injI) (case_tac x; case_tac y; simp)
  moreover have "set [StreamMode, NonStreamMode] = UNIV" by (auto intro: details_mode.exhaust)
  ultimately show "codec (e_enum mode_name) d_mode" by (rule codec_enum)
  have "inj part_name" by (intro injI) (case_tac x; case_tac y; simp)
  moreover have "set [InputText, OutputText] = UNIV" by (auto intro: part_type.exhaust)
  ultimately show "codec (e_enum part_name) d_part_type" by (rule codec_enum)
qed


section \<open>Requests\<close>

text \<open>A record of the data model is printed by \<open>e_...\<close> and read by \<open>d_...\<close>; the order of the
  properties is that of the interface.\<close>

fun e_part :: "content_part \<Rightarrow> jsval" where
  "e_part (TextPart s) = obj [(''type'', Some (JStr (js ''text''))), (''text'', Some (JStr s))]"
| "e_part (ImagePart u) = obj [(''type'', Some (JStr (js ''image_url''))),
                              (''image_url'', Some (obj [(''url'', Some (JStr u))]))]"

definition d_part :: "jsval \<Rightarrow> content_part option" where
  "d_part v = do {
     t \<leftarrow> req d_str (get_prop v ''type'');
     if t = js ''text'' then map_option TextPart (req d_str (get_prop v ''text''))
     else if t = js ''image_url''
          then map_option ImagePart (req d_str (get_prop_opt (get_prop v ''image_url'') ''url''))
          else None }"

fun e_content :: "message_content \<Rightarrow> jsval" where
  "e_content (PlainText s) = JStr s"
| "e_content (Parts ps) = e_arr e_part ps"

definition d_content :: "jsval \<Rightarrow> message_content option" where
  "d_content v = (case v of JStr s \<Rightarrow> Some (PlainText s) | _ \<Rightarrow> map_option Parts (d_arr d_part v))"

definition e_chat_message :: "chat_message \<Rightarrow> jsval" where
  "e_chat_message m = obj [(''role'', Some (e_enum role_name (role m))),
                           (''content'', Some (e_content (msg_content m)))]"

definition d_chat_message :: "jsval \<Rightarrow> chat_message option" where
  "d_chat_message v = do {
     r \<leftarrow> req d_role (get_prop v ''role'');
     c \<leftarrow> req d_content (get_prop v ''content'');
     Some \<lparr>role = r, msg_content = c\<rparr> }"

definition e_chat_request :: "chat_request \<Rightarrow> jsval" where
  "e_chat_request r =
     obj [(''model'', Some (JStr (req_model r))), (''group'', map_option JStr (req_group r)),
          (''messages'', Some (e_arr e_chat_message (req_messages r))),
          (''stream'', Some (JBool (req_stream r))),
          (''temperature'', map_option JNum (req_temperature r)),
          (''top_p'', map_option JNum (req_top_p r)),
          (''max_tokens'', map_option JNum (req_max_tokens r)),
          (''frequency_penalty'', map_option JNum (req_frequency_penalty r)),
          (''presence_penalty'', map_option JNum (req_presence_penalty r)),
          (''seed'', map_option JNum (req_seed r))]"

definition d_chat_request :: "jsval \<Rightarrow> chat_request option" where
  "d_chat_request v = do {
     md \<leftarrow> req d_str (get_prop v ''model'');
     gr \<leftarrow> opt d_str (get_prop v ''group'');
     ms \<leftarrow> req (d_arr d_chat_message) (get_prop v ''messages'');
     st \<leftarrow> req d_bool (get_prop v ''stream'');
     te \<leftarrow> opt d_num (get_prop v ''temperature'');
     tp \<leftarrow> opt d_num (get_prop v ''top_p'');
     mt \<leftarrow> opt d_num (get_prop v ''max_tokens'');
     fp \<leftarrow> opt d_num (get_prop v ''frequency_penalty'');
     pp \<leftarrow> opt d_num (get_prop v ''presence_penalty'');
     sd \<leftarrow> opt d_num (get_prop v ''seed'');
     Some \<lparr>req_model = md, req_group = gr, req_messages = ms, req_stream = st,
           req_temperature = te, req_top_p = tp, req_max_tokens = mt,
           req_frequency_penalty = fp, req_presence_penalty = pp, req_seed = sd\<rparr> }"

definition e_input_part :: "part_type \<times> jstr \<Rightarrow> jsval" where
  "e_input_part p = obj [(''type'', Some (e_enum part_name (fst p))), (''text'', Some (JStr (snd p)))]"

definition d_input_part :: "jsval \<Rightarrow> (part_type \<times> jstr) option" where
  "d_input_part v = do {
     t \<leftarrow> req d_part_type (get_prop v ''type'');
     s \<leftarrow> req d_str (get_prop v ''text'');
     Some (t, s) }"

definition e_input :: "responses_input \<Rightarrow> jsval" where
  "e_input i = obj [(''type'', Some (JStr (js ''message''))),
                    (''role'', Some (e_enum role_name (in_role i))),
                    (''content'', Some (e_arr e_input_part (in_content i)))]"

definition d_input :: "jsval \<Rightarrow> responses_input option" where
  "d_input v = do {
     r \<leftarrow> req d_role (get_prop v ''role'');
     c \<leftarrow> req (d_arr d_input_part) (get_prop v ''content'');
     Some \<lparr>in_role = r, in_content = c\<rparr> }"

definition e_responses_request :: "responses_request \<Rightarrow> jsval" where
  "e_responses_request r =
     obj [(''model'', Some (JStr (rr_model r))), (''group'', map_option JStr (rr_group r)),
          (''input'', Some (e_arr e_input (rr_input r))),
          (''instructions'', map_option JStr (rr_instructions r)),
          (''stream'', Some (JBool (rr_stream r))),
          (''temperature'', map_option JNum (rr_temperature r)),
          (''top_p'', map_option JNum (rr_top_p r)),
          (''max_output_tokens'', map_option JNum (rr_max_output_tokens r))]"

definition d_responses_request :: "jsval \<Rightarrow> responses_request option" where
  "d_responses_request v = do {
     md \<leftarrow> req d_str (get_prop v ''model'');
     gr \<leftarrow> opt d_str (get_prop v ''group'');
     is \<leftarrow> req (d_arr d_input) (get_prop v ''input'');
     ins \<leftarrow> opt d_str (get_prop v ''instructions'');
     st \<leftarrow> req d_bool (get_prop v ''stream'');
     te \<leftarrow> opt d_num (get_prop v ''temperature'');
     tp \<leftarrow> opt d_num (get_prop v ''top_p'');
     mt \<leftarrow> opt d_num (get_prop v ''max_output_tokens'');
     Some \<lparr>rr_model = md, rr_group = gr, rr_input = is, rr_instructions = ins, rr_stream = st,
           rr_temperature = te, rr_top_p = tp, rr_max_output_tokens = mt\<rparr> }"

text \<open>A Responses request is the one with an \<open>input\<close>.\<close>

fun e_request :: "playground_request \<Rightarrow> jsval" where
  "e_request (ChatReq r) = e_chat_request r"
| "e_request (RespReq r) = e_responses_request r"

definition d_request :: "jsval \<Rightarrow> playground_request option" where
  "d_request v = (if get_prop v ''input'' = None then map_option ChatReq (d_chat_request v)
                  else map_option RespReq (d_responses_request v))"

lemmas codec_use = codecs [THEN req_codec] codecs [THEN opt_codec] opt_Some req_Some

lemma codec_part [codecs]: "codec e_part d_part"
proof (intro codecI)
  show "d_part (e_part p) = Some p" for p
    by (cases p) (simp_all add: d_part_def get_prop_obj get_prop_opt_def codec_use)
qed

lemma codec_content [codecs]: "codec e_content d_content"
proof (intro codecI)
  show "d_content (e_content c) = Some c" for c
    using codec_arr [OF codec_part] by (cases c) (simp_all add: d_content_def e_arr_def codec_def)
qed

lemma codec_chat_message [codecs]: "codec e_chat_message d_chat_message"
  by (intro codecI)
    (simp add: e_chat_message_def d_chat_message_def get_prop_obj codec_use codec_content [THEN req_codec])

lemma codec_chat_request [codecs]: "codec e_chat_request d_chat_request"
  by (intro codecI)
    (simp add: e_chat_request_def d_chat_request_def get_prop_obj codec_use
      codec_arr [OF codec_chat_message, THEN req_codec])

lemma codec_input_part [codecs]: "codec e_input_part d_input_part"
  by (intro codecI) (simp add: e_input_part_def d_input_part_def get_prop_obj codec_use)

lemma codec_input [codecs]: "codec e_input d_input"
  by (intro codecI)
    (simp add: e_input_def d_input_def get_prop_obj codec_use codec_arr [OF codec_input_part, THEN req_codec])

lemma codec_responses_request [codecs]: "codec e_responses_request d_responses_request"
  by (intro codecI)
    (simp add: e_responses_request_def d_responses_request_def get_prop_obj codec_use
      codec_arr [OF codec_input, THEN req_codec])

lemma codec_request [codecs]: "codec e_request d_request"
proof (intro codecI)
  have i: "get_prop (e_chat_request c) ''input'' = None" "get_prop (e_responses_request q) ''input'' \<noteq> None" for c q
    by (simp_all add: e_chat_request_def e_responses_request_def get_prop_obj)
  show "d_request (e_request r) = Some r" for r
    by (cases r) (simp_all add: d_request_def i codecD [OF codec_chat_request] codecD [OF codec_responses_request])
qed

section \<open>Details and messages\<close>

definition e_event :: "stream_event \<Rightarrow> jsval" where
  "e_event e =
     obj [(''index'', Some (e_nat (index e))), (''received_at'', Some (JStr (received_at e))),
          (''event'', map_option JStr (ev_name e)), (''event_id'', map_option JStr (ev_id e)),
          (''raw'', map_option JStr (ev_raw e)), (''data'', ev_data e)]"

definition d_event :: "jsval \<Rightarrow> stream_event option" where
  "d_event v = do {
     i \<leftarrow> req d_nat (get_prop v ''index'');
     t \<leftarrow> req d_str (get_prop v ''received_at'');
     n \<leftarrow> opt d_str (get_prop v ''event'');
     d \<leftarrow> opt d_str (get_prop v ''event_id'');
     r \<leftarrow> opt d_str (get_prop v ''raw'');
     x \<leftarrow> opt Some (get_prop v ''data'');
     Some \<lparr>index = i, received_at = t, ev_name = n, ev_id = d, ev_raw = r, ev_data = x\<rparr> }"

definition e_error :: "error_detail \<Rightarrow> jsval" where
  "e_error e =
     obj [(''message'', Some (err_message e)), (''code'', err_code e),
          (''status'', map_option e_int (err_status e)), (''raw'', err_raw e)]"

definition d_error :: "jsval \<Rightarrow> error_detail option" where
  "d_error v = do {
     m \<leftarrow> req Some (get_prop v ''message'');
     c \<leftarrow> opt Some (get_prop v ''code'');
     s \<leftarrow> opt d_int (get_prop v ''status'');
     r \<leftarrow> opt Some (get_prop v ''raw'');
     Some \<lparr>err_message = m, err_code = c, err_status = s, err_raw = r\<rparr> }"

fun e_header :: "header_value \<Rightarrow> jsval" where
  "e_header (One s) = JStr s"
| "e_header (Many ss) = e_arr JStr ss"

definition d_header :: "jsval \<Rightarrow> header_value option" where
  "d_header v = (case v of JStr s \<Rightarrow> Some (One s) | _ \<Rightarrow> map_option Many (d_arr d_str v))"

definition e_headers :: "(jstr \<times> header_value) list \<Rightarrow> jsval" where
  "e_headers hs = JObj (map (\<lambda>(k, h). (k, e_header h)) hs)"

definition d_headers :: "jsval \<Rightarrow> (jstr \<times> header_value) list option" where
  "d_headers v = (case v of JObj ps \<Rightarrow> those (map (\<lambda>(k, x). map_option (Pair k) (d_header x)) ps) | _ \<Rightarrow> None)"

definition e_details :: "response_details \<Rightarrow> jsval" where
  "e_details d =
     obj [(''mode'', Some (e_enum mode_name (mode d))), (''endpoint'', Some (JStr (endpoint_path d))),
          (''protocol'', Some (e_enum endpoint_name (protocol d))),
          (''request'', Some (e_request (request d))), (''started_at'', Some (JStr (started_at d))),
          (''completed_at'', map_option JStr (completed_at d)),
          (''duration_ms'', map_option e_int (duration_ms d)),
          (''http_status'', map_option e_int (http_status d)),
          (''http_status_text'', map_option JStr (http_status_text d)),
          (''response_headers'', map_option e_headers (response_headers d)),
          (''stream_ready_state'', map_option e_int (stream_ready_state d)),
          (''response_id'', response_id d), (''object'', response_object d), (''created'', created d),
          (''model'', response_model d), (''finish_reason'', finish_reason d), (''usage'', usage d),
          (''raw_response'', raw_response d),
          (''raw_chunks'', map_option (e_arr e_event) (raw_chunks d)),
          (''chunk_count'', map_option e_nat (chunk_count d)),
          (''stored_chunk_count'', map_option e_nat (stored_chunk_count d)),
          (''truncated_chunks'', map_option JBool (truncated_chunks d)),
          (''aborted'', map_option JBool (aborted d)), (''error'', map_option e_error (error_info d))]"

definition d_details :: "jsval \<Rightarrow> response_details option" where
  "d_details v = do {
     md \<leftarrow> req d_mode (get_prop v ''mode'');
     ep \<leftarrow> req d_str (get_prop v ''endpoint'');
     pr \<leftarrow> req d_endpoint (get_prop v ''protocol'');
     rq \<leftarrow> req d_request (get_prop v ''request'');
     sa \<leftarrow> req d_str (get_prop v ''started_at'');
     ca \<leftarrow> opt d_str (get_prop v ''completed_at'');
     du \<leftarrow> opt d_int (get_prop v ''duration_ms'');
     hs \<leftarrow> opt d_int (get_prop v ''http_status'');
     ht \<leftarrow> opt d_str (get_prop v ''http_status_text'');
     rh \<leftarrow> opt d_headers (get_prop v ''response_headers'');
     rs \<leftarrow> opt d_int (get_prop v ''stream_ready_state'');
     ri \<leftarrow> opt Some (get_prop v ''response_id'');
     ro \<leftarrow> opt Some (get_prop v ''object'');
     cr \<leftarrow> opt Some (get_prop v ''created'');
     rm \<leftarrow> opt Some (get_prop v ''model'');
     fr \<leftarrow> opt Some (get_prop v ''finish_reason'');
     us \<leftarrow> opt Some (get_prop v ''usage'');
     rr \<leftarrow> opt Some (get_prop v ''raw_response'');
     rc \<leftarrow> opt (d_arr d_event) (get_prop v ''raw_chunks'');
     cc \<leftarrow> opt d_nat (get_prop v ''chunk_count'');
     sc \<leftarrow> opt d_nat (get_prop v ''stored_chunk_count'');
     tc \<leftarrow> opt d_bool (get_prop v ''truncated_chunks'');
     ab \<leftarrow> opt d_bool (get_prop v ''aborted'');
     er \<leftarrow> opt d_error (get_prop v ''error'');
     Some \<lparr>mode = md, endpoint_path = ep, protocol = pr, request = rq, started_at = sa,
           completed_at = ca, duration_ms = du, http_status = hs, http_status_text = ht,
           response_headers = rh, stream_ready_state = rs, response_id = ri, response_object = ro,
           created = cr, response_model = rm, finish_reason = fr, usage = us, raw_response = rr,
           raw_chunks = rc, chunk_count = cc, stored_chunk_count = sc, truncated_chunks = tc,
           aborted = ab, error_info = er\<rparr> }"

definition e_version :: "message_version \<Rightarrow> jsval" where
  "e_version v = obj [(''id'', Some (JStr (version_id v))), (''content'', Some (JStr (content v)))]"

definition d_version :: "jsval \<Rightarrow> message_version option" where
  "d_version v = do {
     i \<leftarrow> req d_str (get_prop v ''id'');
     c \<leftarrow> req d_str (get_prop v ''content'');
     Some \<lparr>version_id = i, content = c\<rparr> }"

definition e_source :: "jstr \<times> jstr \<Rightarrow> jsval" where
  "e_source s = obj [(''href'', Some (JStr (fst s))), (''title'', Some (JStr (snd s)))]"

definition d_source :: "jsval \<Rightarrow> (jstr \<times> jstr) option" where
  "d_source v = do {
     h \<leftarrow> req d_str (get_prop v ''href'');
     t \<leftarrow> req d_str (get_prop v ''title'');
     Some (h, t) }"

definition e_reasoning :: "reasoning_info \<Rightarrow> jsval" where
  "e_reasoning r = obj [(''content'', Some (JStr (reasoning_content r))),
                        (''duration'', Some (JNum (reasoning_duration r)))]"

definition d_reasoning :: "jsval \<Rightarrow> reasoning_info option" where
  "d_reasoning v = do {
     c \<leftarrow> req d_str (get_prop v ''content'');
     n \<leftarrow> req d_num (get_prop v ''duration'');
     Some \<lparr>reasoning_content = c, reasoning_duration = n\<rparr> }"

definition e_message :: "message \<Rightarrow> jsval" where
  "e_message m =
     obj [(''key'', Some (JStr (key m))), (''from'', Some (e_enum role_name (from_role m))),
          (''versions'', Some (e_arr e_version (versions m))),
          (''sources'', map_option (e_arr e_source) (sources m)),
          (''reasoning'', map_option e_reasoning (reasoning m)),
          (''isReasoningStreaming'', map_option JBool (isReasoningStreaming m)),
          (''isReasoningComplete'', map_option JBool (isReasoningComplete m)),
          (''isContentComplete'', map_option JBool (isContentComplete m)),
          (''status'', map_option (e_enum status_name) (status m)),
          (''errorCode'', errorCode m), (''details'', map_option e_details (details m))]"

definition d_message :: "jsval \<Rightarrow> message option" where
  "d_message v = do {
     k \<leftarrow> req d_str (get_prop v ''key'');
     f \<leftarrow> req d_role (get_prop v ''from'');
     vs \<leftarrow> req (d_arr d_version) (get_prop v ''versions'');
     so \<leftarrow> opt (d_arr d_source) (get_prop v ''sources'');
     re \<leftarrow> opt d_reasoning (get_prop v ''reasoning'');
     rs \<leftarrow> opt d_bool (get_prop v ''isReasoningStreaming'');
     rc \<leftarrow> opt d_bool (get_prop v ''isReasoningComplete'');
     cc \<leftarrow> opt d_bool (get_prop v ''isContentComplete'');
     st \<leftarrow> opt d_status (get_prop v ''status'');
     ec \<leftarrow> opt Some (get_prop v ''errorCode'');
     de \<leftarrow> opt d_details (get_prop v ''details'');
     Some \<lparr>key = k, from_role = f, versions = vs, sources = so, reasoning = re,
           isReasoningStreaming = rs, isReasoningComplete = rc, isContentComplete = cc,
           status = st, errorCode = ec, details = de\<rparr> }"

lemma codec_event [codecs]: "codec e_event d_event"
  by (intro codecI) (simp add: e_event_def d_event_def get_prop_obj codec_use)

lemma codec_error [codecs]: "codec e_error d_error"
  by (intro codecI) (simp add: e_error_def d_error_def get_prop_obj codec_use)

lemma codec_header [codecs]: "codec e_header d_header"
proof (intro codecI)
  show "d_header (e_header h) = Some h" for h
    using codec_arr [OF codec_plain(1)] by (cases h) (simp_all add: d_header_def e_arr_def codec_def)
qed

lemma codec_headers [codecs]: "codec e_headers d_headers"
proof (intro codecI)
  show "d_headers (e_headers hs) = Some hs" for hs
    unfolding d_headers_def e_headers_def
    by (simp add: those_map codecD [OF codec_header] case_prod_unfold)
qed

lemmas codec_lists = codec_arr [OF codec_event, THEN opt_codec] codec_error [THEN opt_codec]
  codec_headers [THEN opt_codec] codec_request [THEN req_codec]

lemma codec_details [codecs]: "codec e_details d_details"
  by (intro codecI) (simp add: e_details_def d_details_def get_prop_obj codec_use codec_lists)

lemma codec_version [codecs]: "codec e_version d_version"
  by (intro codecI) (simp add: e_version_def d_version_def get_prop_obj codec_use)

lemma codec_source [codecs]: "codec e_source d_source"
  by (intro codecI) (simp add: e_source_def d_source_def get_prop_obj codec_use)

lemma codec_reasoning [codecs]: "codec e_reasoning d_reasoning"
  by (intro codecI) (simp add: e_reasoning_def d_reasoning_def get_prop_obj codec_use)

theorem codec_message [codecs]: "codec e_message d_message"
  by (intro codecI)
    (simp add: e_message_def d_message_def get_prop_obj codec_use
      codec_arr [OF codec_version, THEN req_codec] codec_arr [OF codec_source, THEN opt_codec]
      codec_reasoning [THEN opt_codec] codec_details [THEN opt_codec])

end
