(* ===== verification/PlaygroundStore.thy ===== *)
theory PlaygroundStore
  imports PlaygroundJson StreamRuns
begin

text \<open>
  What the playground keeps in the browser (\<open>features/playground/lib/storage.ts\<close>) and the hook
  that owns its settings and messages (\<open>features/playground/hooks/use-playground-state.ts\<close>).
  The storage is a map from keys to texts; \<open>accepts\<close> says which writes the browser takes (one
  beyond the quota throws, which the code catches). The settings are kept as the objects the
  code handles: the defaults with whatever was stored spread over them.
\<close>

type_synonym store = "jstr \<Rightarrow> jstr option"
type_synonym props = "(jstr \<times> jsval) list"
type_synonym quota = "store \<Rightarrow> jstr \<Rightarrow> jstr \<Rightarrow> bool"

section \<open>Keys and defaults\<close>

definition KEY_CONFIG :: jstr where
  "KEY_CONFIG = js ''playground_config''"

definition KEY_MESSAGES :: jstr where
  "KEY_MESSAGES = js ''playground_messages''"

definition KEY_PARAMETER_ENABLED :: jstr where
  "KEY_PARAMETER_ENABLED = js ''playground_parameter_enabled''"

lemma keys_distinct [simp]:
  "KEY_CONFIG \<noteq> KEY_MESSAGES" "KEY_MESSAGES \<noteq> KEY_CONFIG"
  "KEY_CONFIG \<noteq> KEY_PARAMETER_ENABLED" "KEY_PARAMETER_ENABLED \<noteq> KEY_CONFIG"
  "KEY_MESSAGES \<noteq> KEY_PARAMETER_ENABLED" "KEY_PARAMETER_ENABLED \<noteq> KEY_MESSAGES"
  by (simp_all add: KEY_CONFIG_def KEY_MESSAGES_def KEY_PARAMETER_ENABLED_def)

definition config_props :: "playground_config \<Rightarrow> props" where
  "config_props c =
     [(js ''endpoint'', e_enum endpoint_name (cfg_endpoint c)), (js ''model'', JStr (cfg_model c)),
      (js ''group'', JStr (cfg_group c)), (js ''temperature'', JNum (temperature c)),
      (js ''top_p'', JNum (top_p c)), (js ''max_tokens'', JNum (max_tokens c)),
      (js ''frequency_penalty'', JNum (frequency_penalty c)),
      (js ''presence_penalty'', JNum (presence_penalty c)),
      (js ''seed'', case seed c of None \<Rightarrow> JNull | Some n \<Rightarrow> JNum n),
      (js ''stream'', JBool (cfg_stream c))]"

definition enabled_props :: "parameter_enabled \<Rightarrow> props" where
  "enabled_props p =
     [(js ''temperature'', JBool (en_temperature p)), (js ''top_p'', JBool (en_top_p p)),
      (js ''max_tokens'', JBool (en_max_tokens p)),
      (js ''frequency_penalty'', JBool (en_frequency_penalty p)),
      (js ''presence_penalty'', JBool (en_presence_penalty p)), (js ''seed'', JBool (en_seed p))]"

section \<open>Trimming\<close>

definition MAX_PERSISTED_STREAM_EVENTS :: nat where
  "MAX_PERSISTED_STREAM_EVENTS = 20"

definition trimDetailsForStorage :: "response_details \<Rightarrow> response_details" where
  "trimDetailsForStorage d =
     (case raw_chunks d of
        None \<Rightarrow> d
      | Some [] \<Rightarrow> d
      | Some cs \<Rightarrow>
          let rawChunks = take MAX_PERSISTED_STREAM_EVENTS cs;
              total = (case chunk_count d of None \<Rightarrow> length cs | Some n \<Rightarrow> n)
          in d\<lparr>raw_chunks := Some rawChunks, stored_chunk_count := Some (length rawChunks),
               truncated_chunks := Some (truncated_chunks d = Some True \<or> length rawChunks < total)\<rparr>)"

definition trimMessagesForStorage :: "message list \<Rightarrow> message list" where
  "trimMessagesForStorage ms =
     map (\<lambda>m. case details m of None \<Rightarrow> m
               | Some d \<Rightarrow> m\<lparr>details := Some (trimDetailsForStorage d)\<rparr>) ms"

section \<open>Saving and loading\<close>

text \<open>\<open>localStorage.setItem\<close> in its \<open>try\<close>: a refused write leaves the storage as it was.\<close>

definition save_item :: "quota \<Rightarrow> store \<Rightarrow> jstr \<Rightarrow> jstr \<Rightarrow> store" where
  "save_item accepts st k v = (if accepts st k v then st(k \<mapsto> v) else st)"

text \<open>\<open>getItem\<close> and \<open>JSON.parse\<close> in their \<open>try\<close>: \<open>None\<close> when nothing (or the empty text) is
  stored, and when the text does not parse.\<close>

definition load_item :: "store \<Rightarrow> jstr \<Rightarrow> jsval option" where
  "load_item st k = (case st k of None \<Rightarrow> None | Some s \<Rightarrow> if s = [] then None else json_parse s)"

definition loadConfig :: "store \<Rightarrow> jsval" where
  "loadConfig st = (case load_item st KEY_CONFIG of None \<Rightarrow> JObj [] | Some v \<Rightarrow> v)"

definition saveConfig :: "quota \<Rightarrow> store \<Rightarrow> props \<Rightarrow> store" where
  "saveConfig accepts st ps = save_item accepts st KEY_CONFIG (stringify (JObj ps))"

definition loadParameterEnabled :: "store \<Rightarrow> jsval" where
  "loadParameterEnabled st = (case load_item st KEY_PARAMETER_ENABLED of None \<Rightarrow> JObj [] | Some v \<Rightarrow> v)"

definition saveParameterEnabled :: "quota \<Rightarrow> store \<Rightarrow> props \<Rightarrow> store" where
  "saveParameterEnabled accepts st ps = save_item accepts st KEY_PARAMETER_ENABLED (stringify (JObj ps))"

definition saveMessages :: "quota \<Rightarrow> store \<Rightarrow> message list \<Rightarrow> store" where
  "saveMessages accepts st ms =
     save_item accepts st KEY_MESSAGES (stringify (JArr (map e_message (trimMessagesForStorage ms))))"

text \<open>\<open>Unread\<close> is \<open>null\<close>; \<open>Untyped\<close> is an array with an element that is not a \<open>Message\<close>, which
  the source takes as one without a check.\<close>

datatype loaded = Unread | Loaded "message list" | Untyped "jsval list"

text \<open>\<open>sanitized !== parsed\<close>: the repair returns the array it was given unless it found a
  message to repair.\<close>

definition loadMessages :: "quota \<Rightarrow> store \<Rightarrow> loaded \<times> store" where
  "loadMessages accepts st =
     (case load_item st KEY_MESSAGES of
        Some (JArr vs) \<Rightarrow>
          (case those (map d_message vs) of
             None \<Rightarrow> (Untyped vs, st)
           | Some ms \<Rightarrow>
               let sanitized = sanitizeMessagesOnLoad ms
               in (Loaded sanitized,
                   if scan_back stuck ms (length ms) \<noteq> None then saveMessages accepts st sanitized
                   else st))
      | _ \<Rightarrow> (Unread, st))"

definition clearPlaygroundData :: "store \<Rightarrow> store" where
  "clearPlaygroundData st =
     st(KEY_CONFIG := None, KEY_PARAMETER_ENABLED := None, KEY_MESSAGES := None)"

section \<open>The hook\<close>

text \<open>An option of the model list (label and value) and of the group list (also its ratio and
  description).\<close>

type_synonym option_item = "jstr \<times> jstr"
type_synonym group_item = "jstr \<times> jstr \<times> jnum \<times> jstr option"

record playground_state =
  ps_config :: props
  ps_params :: props
  ps_messages :: "message list"
  ps_models :: "option_item list"
  ps_groups :: "group_item list"

text \<open>The first render. Stored messages that are no \<open>Message\<close>s are outside the model: the
  state then starts with none.\<close>

definition mount :: "quota \<Rightarrow> store \<Rightarrow> playground_state \<times> store" where
  "mount accepts st =
     (let (ms, st') = loadMessages accepts st
      in (\<lparr>ps_config = spread_over (config_props DEFAULT_CONFIG) (loadConfig st),
           ps_params = spread_over (enabled_props DEFAULT_PARAMETER_ENABLED) (loadParameterEnabled st),
           ps_messages = (case ms of Loaded xs \<Rightarrow> xs | _ \<Rightarrow> []), ps_models = [], ps_groups = []\<rparr>, st'))"

definition updateConfig ::
  "quota \<Rightarrow> jstr \<Rightarrow> jsval \<Rightarrow> playground_state \<times> store \<Rightarrow> playground_state \<times> store" where
  "updateConfig accepts k v s =
     (let updated = obj_put k v (ps_config (fst s))
      in ((fst s)\<lparr>ps_config := updated\<rparr>, saveConfig accepts (snd s) updated))"

definition updateParameterEnabled ::
  "quota \<Rightarrow> jstr \<Rightarrow> bool \<Rightarrow> playground_state \<times> store \<Rightarrow> playground_state \<times> store" where
  "updateParameterEnabled accepts k b s =
     (let updated = obj_put k (JBool b) (ps_params (fst s))
      in ((fst s)\<lparr>ps_params := updated\<rparr>, saveParameterEnabled accepts (snd s) updated))"

definition updateMessages ::
  "quota \<Rightarrow> (message list \<Rightarrow> message list) \<Rightarrow> playground_state \<times> store \<Rightarrow> playground_state \<times> store" where
  "updateMessages accepts f s =
     (let newMessages = f (ps_messages (fst s))
      in ((fst s)\<lparr>ps_messages := newMessages\<rparr>, saveMessages accepts (snd s) newMessages))"

definition clearMessages :: "quota \<Rightarrow> playground_state \<times> store \<Rightarrow> playground_state \<times> store" where
  "clearMessages accepts = updateMessages accepts (\<lambda>_. [])"

definition resetConfig :: "quota \<Rightarrow> playground_state \<times> store \<Rightarrow> playground_state \<times> store" where
  "resetConfig accepts s =
     ((fst s)\<lparr>ps_config := config_props DEFAULT_CONFIG,
              ps_params := enabled_props DEFAULT_PARAMETER_ENABLED\<rparr>,
      saveParameterEnabled accepts (saveConfig accepts (snd s) (config_props DEFAULT_CONFIG))
        (enabled_props DEFAULT_PARAMETER_ENABLED))"

definition setModels :: "option_item list \<Rightarrow> playground_state \<times> store \<Rightarrow> playground_state \<times> store" where
  "setModels xs s = ((fst s)\<lparr>ps_models := xs\<rparr>, snd s)"

definition setGroups :: "group_item list \<Rightarrow> playground_state \<times> store \<Rightarrow> playground_state \<times> store" where
  "setGroups xs s = ((fst s)\<lparr>ps_groups := xs\<rparr>, snd s)"

section \<open>One slot of the storage\<close>

text \<open>A slot writes its own key only, and reads nothing else.\<close>

locale storage_slot =
  fixes slot_key :: jstr
    and save :: "quota \<Rightarrow> store \<Rightarrow> 'a \<Rightarrow> store"
    and load :: "store \<Rightarrow> 'b"
  assumes save_other: "k \<noteq> slot_key \<Longrightarrow> save accepts st v k = st k"
    and load_slot: "st slot_key = st' slot_key \<Longrightarrow> load st = load st'"
begin

lemma load_unchanged: "(\<And>k. k \<noteq> k' \<Longrightarrow> st' k = st k) \<Longrightarrow> slot_key \<noteq> k' \<Longrightarrow> load st' = load st"
  by (rule load_slot) simp

end

interpretation config_slot: storage_slot KEY_CONFIG saveConfig loadConfig
  by unfold_locales (simp_all add: saveConfig_def save_item_def loadConfig_def load_item_def)

interpretation params_slot: storage_slot KEY_PARAMETER_ENABLED saveParameterEnabled loadParameterEnabled
  by unfold_locales (simp_all add: saveParameterEnabled_def save_item_def loadParameterEnabled_def load_item_def)

lemma fst_loadMessages:
  "fst (loadMessages accepts st) =
     (case load_item st KEY_MESSAGES of
        Some (JArr vs) \<Rightarrow> (case those (map d_message vs) of None \<Rightarrow> Untyped vs
                           | Some ms \<Rightarrow> Loaded (sanitizeMessagesOnLoad ms))
      | _ \<Rightarrow> Unread)"
proof (cases "load_item st KEY_MESSAGES")
  case (Some v)
  then show ?thesis
    by (cases v) (simp_all add: loadMessages_def Let_def split: option.split)
qed (simp add: loadMessages_def)

interpretation messages_slot: storage_slot KEY_MESSAGES saveMessages "\<lambda>st. fst (loadMessages accepts st)"
  for accepts
  by unfold_locales (simp_all add: saveMessages_def save_item_def fst_loadMessages load_item_def)

lemma load_saved:
  "accepts st k (stringify v) \<Longrightarrow> json_wf v \<Longrightarrow> load_item (save_item accepts st k (stringify v)) k = Some v"
proof -
  assume a: "accepts st k (stringify v)" "json_wf v"
  then have "stringify v \<noteq> []" by (metis list.distinct(1) stringify_start)
  with a show ?thesis by (simp only: load_item_def save_item_def json_parse_stringify if_True
        fun_upd_same option.case if_False)
qed

section \<open>Messages\<close>

lemma trim_details_Nil: "raw_chunks d = None \<or> raw_chunks d = Some [] \<Longrightarrow> trimDetailsForStorage d = d"
  by (auto simp: trimDetailsForStorage_def)

lemma trim_details_eq:
  assumes "raw_chunks d = Some cs" and "cs \<noteq> []"
  shows "trimDetailsForStorage d =
    d\<lparr>raw_chunks := Some (take MAX_PERSISTED_STREAM_EVENTS cs),
      stored_chunk_count := Some (length (take MAX_PERSISTED_STREAM_EVENTS cs)),
      truncated_chunks := Some (truncated_chunks d = Some True
        \<or> length (take MAX_PERSISTED_STREAM_EVENTS cs) < (case chunk_count d of None \<Rightarrow> length cs | Some n \<Rightarrow> n))\<rparr>"
proof -
  obtain c cs' where "cs = c # cs'" using assms(2) by (cases cs) auto
  then show ?thesis using assms(1) by (simp only: trimDetailsForStorage_def Let_def option.case list.case)
qed

lemma trim_details_idem [simp]: "trimDetailsForStorage (trimDetailsForStorage d) = trimDetailsForStorage d"
proof (cases "raw_chunks d = None \<or> raw_chunks d = Some []")
  case False
  then obtain cs where cs: "raw_chunks d = Some cs" "cs \<noteq> []" by auto
  let ?t = "trimDetailsForStorage d"
  have t: "raw_chunks ?t = Some (take MAX_PERSISTED_STREAM_EVENTS cs)" "take MAX_PERSISTED_STREAM_EVENTS cs \<noteq> []"
    using cs by (simp_all add: trim_details_eq MAX_PERSISTED_STREAM_EVENTS_def)
  show ?thesis
    unfolding trim_details_eq [OF t] unfolding trim_details_eq [OF cs]
    by (rule response_details.equality) (auto split: option.splits)
qed (simp add: trim_details_Nil)

text \<open>Trimming the details of a finished request for the storage keeps the first 20 of its
  chunks, numbered from 1, with the number stored and a flag that tells whether any were left
  out, and trimming again changes nothing.\<close>

theorem trimmed_details:
  assumes "chunks_ok d" and "chunk_count d = Some n"
  shows "map index (the (raw_chunks (trimDetailsForStorage d))) = [1..<Suc (min n 20)]
       \<and> stored_chunk_count (trimDetailsForStorage d) = Some (min n 20)
       \<and> (0 < n \<longrightarrow> truncated_chunks (trimDetailsForStorage d) = Some (20 < n))
       \<and> trimDetailsForStorage (trimDetailsForStorage d) = trimDetailsForStorage d"
proof -
  obtain cs where cs: "raw_chunks d = Some cs" and m: "map index cs = [1..<Suc (min n MAX_STORED_STREAM_EVENTS)]"
    and t: "stored_chunk_count d = Some (length cs)" "n = 0 \<or> truncated_chunks d = Some (MAX_STORED_STREAM_EVENTS < n)"
    using assms by (auto simp: chunks_ok_def split: option.splits)
  have len: "length cs = min n 200"
    using arg_cong [OF m, of length] by (simp add: MAX_STORED_STREAM_EVENTS_def)
  have "map index (take 20 cs) = take 20 [1..<Suc (min n 200)]"
    using m by (simp add: take_map [symmetric] MAX_STORED_STREAM_EVENTS_def)
  also have "\<dots> = [1..<Suc (min n 20)]" by (cases "n \<le> 20") (simp_all add: take_upt min_def)
  finally have m20: "map index (take 20 cs) = [1..<Suc (min n 20)]" .
  show ?thesis
  proof (cases cs)
    case Nil
    then have "n = 0" using len by simp
    with Nil cs t show ?thesis by (simp add: trimDetailsForStorage_def)
  next
    case (Cons c cs')
    have "MAX_PERSISTED_STREAM_EVENTS = 20" "cs \<noteq> []" using Cons by (simp_all add: MAX_PERSISTED_STREAM_EVENTS_def)
    moreover have "length (take 20 cs) = min n 20" using len by auto
    moreover have "0 < n" using len Cons by (cases n) auto
    then have "(truncated_chunks d = Some True \<or> min n 20 < n) = (20 < n)"
      using t(2) by (auto simp: MAX_STORED_STREAM_EVENTS_def)
    ultimately have "trimDetailsForStorage d = d\<lparr>raw_chunks := Some (take 20 cs), stored_chunk_count := Some (min n 20),
        truncated_chunks := Some (20 < n)\<rparr>"
      using trim_details_eq [OF cs] assms(2) by simp
    with m20 show ?thesis using trim_details_idem [of d] by simp
  qed
qed

text \<open>C8 What is saved comes back: loading after a save that the browser took gives the saved
  messages, trimmed, with the last of them that was still loading or streaming repaired; the
  storage is written again only for such a repair, and the other keys are not touched.\<close>

theorem messages_persist:
  assumes "accepts st KEY_MESSAGES (stringify (JArr (map e_message (trimMessagesForStorage ms))))"
    and "json_wf (JArr (map e_message (trimMessagesForStorage ms)))"
  shows "fst (loadMessages accepts (saveMessages accepts st ms))
         = Loaded (sanitizeMessagesOnLoad (trimMessagesForStorage ms))
       \<and> (\<not> list_ex stuck ms \<longrightarrow> loadMessages accepts (saveMessages accepts st ms)
         = (Loaded (trimMessagesForStorage ms), saveMessages accepts st ms))
       \<and> (\<forall>k. k \<noteq> KEY_MESSAGES \<longrightarrow> snd (loadMessages accepts (saveMessages accepts st ms)) k = st k)"
proof -
  let ?t = "trimMessagesForStorage ms"
  have l: "load_item (saveMessages accepts st ms) KEY_MESSAGES = Some (JArr (map e_message ?t))"
    unfolding saveMessages_def using assms by (intro load_saved)
  have d: "those (map d_message (map e_message ?t)) = Some ?t"
    unfolding map_map by (rule those_map) (rule codecD [OF codec_message])
  have stuck: "(scan_back stuck ?t (length ?t) \<noteq> None) = list_ex stuck ms"
  proof -
    have "stuck (if details m = None then m else m\<lparr>details := x\<rparr>) = stuck m" for m x by (simp add: stuck_def)
    then have "stuck (?t ! i) = stuck (ms ! i)" if "i < length ms" for i
      using that by (auto simp: trimMessagesForStorage_def stuck_def split: option.splits)
    moreover have "length ?t = length ms" by (simp add: trimMessagesForStorage_def)
    ultimately have "(\<forall>i<length ?t. \<not> stuck (?t ! i)) = (\<forall>i<length ms. \<not> stuck (ms ! i))" by auto
    moreover have "(scan_back stuck ?t (length ?t) = None) = (\<forall>i<length ?t. \<not> stuck (?t ! i))"
      by (cases "scan_back stuck ?t (length ?t)") (auto simp: scan_back_None dest: scan_back_Some)
    ultimately show ?thesis by (auto simp: list_ex_length)
  qed
  have s: "\<not> list_ex stuck ms \<Longrightarrow> sanitizeMessagesOnLoad ?t = ?t"
    using stuck by (auto simp: sanitizeMessagesOnLoad_def)
  show ?thesis
    using s messages_slot.save_other
    unfolding loadMessages_def l option.case jsval.case d Let_def stuck prod.sel by simp
qed

lemma trimmed_details_witness:
  "let e = \<lparr>index = 1, received_at = [], ev_name = None, ev_id = None, ev_raw = None, ev_data = None\<rparr>;
       d = \<lparr>mode = StreamMode, endpoint_path = [], protocol = Responses,
            request = RespReq (buildResponsesPayload [] DEFAULT_CONFIG DEFAULT_PARAMETER_ENABLED),
            started_at = [], completed_at = None, duration_ms = None, http_status = None,
            http_status_text = None, response_headers = None, stream_ready_state = None,
            response_id = None, response_object = None, created = None, response_model = None,
            finish_reason = None, usage = None, raw_response = None,
            raw_chunks = Some (map (\<lambda>i. e\<lparr>index := i\<rparr>) [1..<26]), chunk_count = Some 25,
            stored_chunk_count = Some 25, truncated_chunks = Some False, aborted = None, error_info = None\<rparr>
   in truncated_chunks (trimDetailsForStorage d) = Some True
      \<and> stored_chunk_count (trimDetailsForStorage d) = Some 20"
proof -
  let ?e = "\<lparr>index = 1, received_at = [], ev_name = None, ev_id = None, ev_raw = None, ev_data = None\<rparr>"
  let ?d = "\<lparr>mode = StreamMode, endpoint_path = [], protocol = Responses,
            request = RespReq (buildResponsesPayload [] DEFAULT_CONFIG DEFAULT_PARAMETER_ENABLED),
            started_at = [], completed_at = None, duration_ms = None, http_status = None,
            http_status_text = None, response_headers = None, stream_ready_state = None,
            response_id = None, response_object = None, created = None, response_model = None,
            finish_reason = None, usage = None, raw_response = None,
            raw_chunks = Some (map (\<lambda>i. ?e\<lparr>index := i\<rparr>) [1..<26]), chunk_count = Some 25,
            stored_chunk_count = Some 25, truncated_chunks = Some False, aborted = None, error_info = None\<rparr>"
  have "chunks_ok ?d" by (simp add: chunks_ok_def MAX_STORED_STREAM_EVENTS_def comp_def del: upt_rec_numeral)
  from trimmed_details [OF this, of 25] show ?thesis by (simp add: Let_def)
qed

lemma messages_persist_witness:
  "let m = createLoadingAssistantMessage (js ''a'') (js ''b''); u = createUserMessage (js ''hi'') (js ''c'') (js ''d'')
   in fst (loadMessages (\<lambda>_ _ _. True) (saveMessages (\<lambda>_ _ _. True) (\<lambda>_. None) [u, m]))
      = Loaded [u, sanitize_message m]"
proof -
  let ?m = "createLoadingAssistantMessage (js ''a'') (js ''b'')"
  let ?u = "createUserMessage (js ''hi'') (js ''c'') (js ''d'')"
  have t: "trimMessagesForStorage [?u, ?m] = [?u, ?m]"
    by code_simp
  have "json_wf (JArr (map e_message [?u, ?m]))" by code_simp
  then have "json_wf (JArr (map e_message (trimMessagesForStorage [?u, ?m])))" unfolding t .
  from messages_persist [of "\<lambda>_ _ _. True", OF TrueI this]
  have "fst (loadMessages (\<lambda>_ _ _. True) (saveMessages (\<lambda>_ _ _. True) (\<lambda>_. None) [?u, ?m]))
      = Loaded (sanitizeMessagesOnLoad [?u, ?m])" unfolding t by blast
  moreover have "scan_back stuck [?u, ?m] (length [?u, ?m]) = Some 1" by code_simp
  ultimately show ?thesis by (simp add: sanitizeMessagesOnLoad_def)
qed

section \<open>Sessions of the hook\<close>

datatype hook_action =
    UpdateConfig jstr jsval
  | UpdateParameter jstr bool
  | UpdateMessages "message list \<Rightarrow> message list"
  | ClearMessages
  | ResetConfig
  | SetModels "option_item list"
  | SetGroups "group_item list"

fun perform :: "quota \<Rightarrow> hook_action \<Rightarrow> playground_state \<times> store \<Rightarrow> playground_state \<times> store" where
  "perform accepts (UpdateConfig k v) s = updateConfig accepts k v s"
| "perform accepts (UpdateParameter k b) s = updateParameterEnabled accepts k b s"
| "perform accepts (UpdateMessages f) s = updateMessages accepts f s"
| "perform accepts ClearMessages s = clearMessages accepts s"
| "perform accepts ResetConfig s = resetConfig accepts s"
| "perform accepts (SetModels xs) s = setModels xs s"
| "perform accepts (SetGroups xs) s = setGroups xs s"

text \<open>The keys of the two records, and values that print without loss.\<close>

fun typed_action :: "hook_action \<Rightarrow> bool" where
  "typed_action (UpdateConfig k v) \<longleftrightarrow> k \<in> fst ` set (config_props DEFAULT_CONFIG) \<and> json_wf v"
| "typed_action (UpdateParameter k b) \<longleftrightarrow> k \<in> fst ` set (enabled_props DEFAULT_PARAMETER_ENABLED)"
| "typed_action _ \<longleftrightarrow> True"

inductive session :: "quota \<Rightarrow> store \<Rightarrow> playground_state \<times> store \<Rightarrow> bool"
  for accepts :: quota and st0 :: store where
  first_render: "s = mount accepts st0 \<Longrightarrow> json_wf (JObj (ps_config (fst s))) \<Longrightarrow>
    json_wf (JObj (ps_params (fst s))) \<Longrightarrow> session accepts st0 s"
| acted: "session accepts st0 s \<Longrightarrow> typed_action a \<Longrightarrow> session accepts st0 (perform accepts a s)"

section \<open>Objects spread over defaults\<close>

lemma obj_put_keys: "map fst (obj_put k v ps) = (if k \<in> fst ` set ps then map fst ps else map fst ps @ [k])"
  by (induction k v ps rule: obj_put.induct) auto

lemma obj_put_as_map:
  "k \<in> fst ` set ps \<Longrightarrow> distinct (map fst ps) \<Longrightarrow>
   obj_put k v ps = map (\<lambda>(k', x). (k', if k' = k then v else x)) ps"
proof (induction k v ps rule: obj_put.induct)
  case (2 k v k' v' ps)
  have "map (\<lambda>(k'', x). (k'', if k'' = k' then v else x)) ps = ps" if "k' \<notin> fst ` set ps"
    using that by (intro map_idI) (auto simp: rev_image_eqI)
  with 2 show ?case by auto
qed simp

lemma json_wf_obj_put:
  assumes "json_wf (JObj ps)" and "k \<in> fst ` set ps" and "json_wf v"
  shows "json_wf (JObj (obj_put k v ps))"
proof -
  have d: "distinct (map fst ps)" and o: "own_entries ps = ps" using assms(1) by auto
  note m = obj_put_as_map [OF assms(2) d, of v]
  have "own_entries (obj_put k v ps) = obj_put k v ps"
    unfolding m own_entries_map [of "\<lambda>k' x. if k' = k then v else x"] o ..
  moreover have "\<forall>p\<in>set (obj_put k v ps). units_ok (fst p) \<and> json_wf (snd p)"
    using assms unfolding m by auto
  ultimately show ?thesis using d by simp
qed

text \<open>\<open>keyed ds ps\<close>: the object \<open>ps\<close> has the keys of the defaults \<open>ds\<close> first, in their order.\<close>

definition keyed :: "props \<Rightarrow> props \<Rightarrow> bool" where
  "keyed ds ps \<longleftrightarrow> (\<exists>ext. map fst ps = map fst ds @ ext)"

lemma keyed_put: "keyed ds ps \<Longrightarrow> keyed ds (obj_put k v ps)"
  by (auto simp: keyed_def obj_put_keys)

lemma keyed_spread: "keyed ds (spread_over ds v)"
proof -
  have "keyed ds (foldl (\<lambda>acc (k, x). obj_put k x acc) ps qs)" if "keyed ds ps" for ps qs
    using that by (induction qs arbitrary: ps) (auto simp: keyed_put)
  then show ?thesis by (simp add: spread_over_def keyed_def)
qed

lemma put_behind: "k \<notin> fst ` set pre \<Longrightarrow> obj_put k v (pre @ ps) = pre @ obj_put k v ps"
  by (induction pre) auto

lemma spread_foldl:
  "map fst ps = map fst ds @ ext \<Longrightarrow> distinct (map fst (pre @ ps)) \<Longrightarrow>
   foldl (\<lambda>acc (k, x). obj_put k x acc) (pre @ ds) ps = pre @ ps"
proof (induction ps arbitrary: pre ds ext)
  case (Cons p ps)
  obtain k v where p: "p = (k, v)" by fastforce
  have fresh: "k \<notin> fst ` set pre" using Cons.prems(2) p by auto
  have dist: "distinct (map fst ((pre @ [(k, v)]) @ ps))" using Cons.prems(2) p by auto
  show ?case
  proof (cases ds)
    case Nil
    then show ?thesis
      using Cons.IH [of "[]" "map fst ps" "pre @ [(k, v)]"] dist put_behind [OF fresh, of v "[]"] p by simp
  next
    case (Cons d ds')
    then show ?thesis
      using Cons.IH [of ds' ext "pre @ [(k, v)]"] Cons.prems(1) dist put_behind [OF fresh, of v ds] p
      by (cases d) simp
  qed
qed simp

lemma spread_same:
  assumes "keyed ds ps" and "json_wf (JObj ps)"
  shows "spread_over ds (JObj ps) = ps"
  using assms spread_foldl [of ps ds _ "[]"] by (auto simp: keyed_def spread_over_def own_props_def)


section \<open>Settings survive a reload\<close>

definition settings_saved :: "playground_state \<times> store \<Rightarrow> bool" where
  "settings_saved s \<longleftrightarrow>
     keyed (config_props DEFAULT_CONFIG) (ps_config (fst s)) \<and> json_wf (JObj (ps_config (fst s))) \<and>
     keyed (enabled_props DEFAULT_PARAMETER_ENABLED) (ps_params (fst s)) \<and> json_wf (JObj (ps_params (fst s))) \<and>
     spread_over (config_props DEFAULT_CONFIG) (loadConfig (snd s)) = ps_config (fst s) \<and>
     spread_over (enabled_props DEFAULT_PARAMETER_ENABLED) (loadParameterEnabled (snd s)) = ps_params (fst s)"

declare settings_saved_def [inv_defs]

lemma keyed_mem: "keyed ds ps \<Longrightarrow> k \<in> fst ` set ds \<Longrightarrow> k \<in> fst ` set ps"
  unfolding keyed_def by (metis Un_iff image_set set_append)

lemma load_saved_config:
  "json_wf (JObj ps) \<Longrightarrow> loadConfig (saveConfig (\<lambda>_ _ _. True) st ps) = JObj ps"
  unfolding loadConfig_def saveConfig_def by (subst load_saved) simp_all

lemma load_saved_params:
  "json_wf (JObj ps) \<Longrightarrow> loadParameterEnabled (saveParameterEnabled (\<lambda>_ _ _. True) st ps) = JObj ps"
  unfolding loadParameterEnabled_def saveParameterEnabled_def by (subst load_saved) simp_all

lemma load_config_other [simp]:
  "loadConfig (saveParameterEnabled q st ps) = loadConfig st"
  "loadConfig (saveMessages q st ms) = loadConfig st"
  "loadParameterEnabled (saveConfig q st ps) = loadParameterEnabled st"
  "loadParameterEnabled (saveMessages q st ms) = loadParameterEnabled st"
proof -
  show "loadConfig (saveParameterEnabled q st ps) = loadConfig st"
    by (rule config_slot.load_slot) (simp add: params_slot.save_other)
  show "loadConfig (saveMessages q st ms) = loadConfig st"
    by (rule config_slot.load_slot) (simp add: messages_slot.save_other)
  show "loadParameterEnabled (saveConfig q st ps) = loadParameterEnabled st"
    by (rule params_slot.load_slot) (simp add: config_slot.save_other)
  show "loadParameterEnabled (saveMessages q st ms) = loadParameterEnabled st"
    by (rule params_slot.load_slot) (simp add: messages_slot.save_other)
qed

lemma load_messages_settings [simp]:
  "loadConfig (snd (loadMessages q st)) = loadConfig st"
  "loadParameterEnabled (snd (loadMessages q st)) = loadParameterEnabled st"
  by (auto simp: loadMessages_def Let_def split: option.splits jsval.splits)

lemma json_wf_config_props:
  "units_ok (cfg_model c) \<Longrightarrow> units_ok (cfg_group c) \<Longrightarrow>
   (\<forall>x\<in>set [temperature c, top_p c, max_tokens c, frequency_penalty c, presence_penalty c]. num_ok x) \<Longrightarrow>
   (\<forall>x. seed c = Some x \<longrightarrow> num_ok x) \<Longrightarrow> json_wf (JObj (config_props c))"
proof -
  have "array_index (fst p) = None" if "p \<in> set (config_props c)" for p
    using that by (auto simp: config_props_def js_eval array_index_def is_digit_def)
  then have "own_entries (config_props c) = config_props c" by (intro own_entries_no_index) blast
  then show "units_ok (cfg_model c) \<Longrightarrow> units_ok (cfg_group c) \<Longrightarrow>
   (\<forall>x\<in>set [temperature c, top_p c, max_tokens c, frequency_penalty c, presence_penalty c]. num_ok x) \<Longrightarrow>
   (\<forall>x. seed c = Some x \<longrightarrow> num_ok x) \<Longrightarrow> ?thesis"
    by (simp add: config_props_def units_ok_js e_enum_def split: option.split)
qed

lemma json_wf_defaults:
  "json_wf (JObj (config_props DEFAULT_CONFIG))"
  "json_wf (JObj (enabled_props DEFAULT_PARAMETER_ENABLED))"
proof -
  have "num_ok (Fin 0)" "num_ok (Fin 1)" "num_ok (Fin 4096)" by (simp_all add: num_ok_def)
  then show "json_wf (JObj (config_props DEFAULT_CONFIG))"
    by (intro json_wf_config_props) (simp_all add: DEFAULT_CONFIG_def units_ok_js num_ok_seven_tenths)
  show "json_wf (JObj (enabled_props DEFAULT_PARAMETER_ENABLED))" by code_simp
qed

lemma settings_saved_session:
  "session (\<lambda>_ _ _. True) st0 s \<Longrightarrow> settings_saved s"
proof (induction rule: session.induct)
  case first_render
  then show ?case
    by (simp add: settings_saved_def mount_def case_prod_unfold Let_def keyed_spread)
next
  case (acted s a)
  show ?case
  proof (cases a)
    case (UpdateConfig k v)
    let ?u = "obj_put k v (ps_config (fst s))"
    have "k \<in> fst ` set (ps_config (fst s))"
      by (rule keyed_mem [of "config_props DEFAULT_CONFIG"]) (use acted UpdateConfig in \<open>simp_all add: settings_saved_def\<close>)
    then have "json_wf (JObj ?u)" "keyed (config_props DEFAULT_CONFIG) ?u"
      using acted UpdateConfig by (simp_all add: settings_saved_def json_wf_obj_put keyed_put del: json_wf.simps)
    with acted.IH UpdateConfig show ?thesis
      by (simp add: settings_saved_def updateConfig_def Let_def load_saved_config spread_same del: json_wf.simps)
  next
    case (UpdateParameter k b)
    let ?u = "obj_put k (JBool b) (ps_params (fst s))"
    have "k \<in> fst ` set (ps_params (fst s))"
      by (rule keyed_mem [of "enabled_props DEFAULT_PARAMETER_ENABLED"]) (use acted UpdateParameter in \<open>simp_all add: settings_saved_def\<close>)
    then have "json_wf (JObj ?u)" "keyed (enabled_props DEFAULT_PARAMETER_ENABLED) ?u"
      using acted UpdateParameter json_wf_obj_put [of "ps_params (fst s)" k "JBool b"]
      by (simp_all add: settings_saved_def keyed_put)
    with acted.IH UpdateParameter show ?thesis
      by (simp add: settings_saved_def updateParameterEnabled_def Let_def load_saved_params spread_same del: json_wf.simps)
  next
    case ResetConfig
    have "keyed ds ds" for ds by (simp add: keyed_def)
    with ResetConfig show ?thesis
      by (simp add: settings_saved_def resetConfig_def json_wf_defaults load_saved_config load_saved_params
          spread_same del: json_wf.simps)
  qed (use acted.IH in \<open>simp_all add: settings_saved_def updateMessages_def clearMessages_def setModels_def
        setGroups_def Let_def del: json_wf.simps\<close>)
qed

text \<open>Whatever the user does in a session with room in the storage (settings, parameter
  switches, messages, a reset), a reload of the page shows the same settings and switches; this
  holds for any contents the storage had at the start, as long as they print without loss.\<close>

theorem settings_persist:
  assumes "session (\<lambda>_ _ _. True) st0 (hs, st)"
  shows "ps_config (fst (mount q st)) = ps_config hs \<and> ps_params (fst (mount q st)) = ps_params hs"
  using settings_saved_session [OF assms]
  by (simp add: settings_saved_def mount_def case_prod_unfold Let_def)


lemma settings_persist_witness:
  "let st = snd (updateConfig (\<lambda>_ _ _. True) (js ''model'') (JStr (js ''o3''))
                  (mount (\<lambda>_ _ _. True) (\<lambda>_. None) :: playground_state \<times> store))
   in map_of (ps_config (fst (mount (\<lambda>_ _ _. True) st :: playground_state \<times> store))) (js ''model'')
      = Some (JStr (js ''o3''))"
proof -
  let ?q = "\<lambda>_ _ _. True"
  let ?s = "mount ?q (\<lambda>_. None) :: playground_state \<times> store"
  let ?a = "UpdateConfig (js ''model'') (JStr (js ''o3'')) :: hook_action"
  have e: "ps_config (fst ?s) = config_props DEFAULT_CONFIG" "ps_params (fst ?s) = enabled_props DEFAULT_PARAMETER_ENABLED"
    by (simp_all add: mount_def loadMessages_def loadConfig_def loadParameterEnabled_def load_item_def
        spread_over_def own_props_def)
  have "session ?q (\<lambda>_. None) ?s"
    by (rule session.first_render) (simp_all only: e json_wf_defaults)
  moreover have "typed_action ?a" by (simp add: config_props_def units_ok_js)
  ultimately have "session ?q (\<lambda>_. None) (perform ?q ?a ?s)" by (rule session.acted)
  then have "session ?q (\<lambda>_. None) (fst (perform ?q ?a ?s), snd (perform ?q ?a ?s))" by simp
  from settings_persist [OF this, of ?q]
  have "ps_config (fst (mount ?q (snd (perform ?q ?a ?s)) :: playground_state \<times> store))
      = ps_config (fst (perform ?q ?a ?s))" by blast
  moreover have "map_of (ps_config (fst (perform ?q ?a ?s))) (js ''model'') = Some (JStr (js ''o3''))"
    by (simp add: updateConfig_def Let_def)
  ultimately show ?thesis by (simp add: Let_def)
qed


text \<open>After clearing, the page starts with the defaults and no messages.\<close>

lemma cleared_starts_fresh:
  "fst (mount q (clearPlaygroundData st)) =
     \<lparr>ps_config = config_props DEFAULT_CONFIG, ps_params = enabled_props DEFAULT_PARAMETER_ENABLED,
      ps_messages = [], ps_models = [], ps_groups = []\<rparr>"
  by (simp add: mount_def clearPlaygroundData_def loadMessages_def loadConfig_def loadParameterEnabled_def
      load_item_def spread_over_def own_props_def)

end
