(* ===== verification/StatusCodes.thy ===== *)
theory StatusCodes
  imports JsJson "HOL-Library.List_Lexorder"
begin

text \<open>
  Rules on HTTP status codes: the parser and normaliser of code lists and ranges
  (\<open>lib/http-status-code-rules.ts\<close>), and the checks of a channel's status code mapping
  (\<open>features/channels/lib/status-code-risk-guard.ts\<close>).
\<close>

section \<open>Ranges\<close>

datatype status_code_range = Range (range_start: int) (range_end: int)

text \<open>The order of the comparator \<open>mergeRanges\<close> sorts with.\<close>

instantiation status_code_range :: linorder
begin

definition less_eq_status_code_range :: "status_code_range \<Rightarrow> status_code_range \<Rightarrow> bool" where
  "r \<le> s \<longleftrightarrow> range_start r < range_start s \<or> range_start r = range_start s \<and> range_end r \<le> range_end s"

definition less_status_code_range :: "status_code_range \<Rightarrow> status_code_range \<Rightarrow> bool" where
  "r < s \<longleftrightarrow> range_start r < range_start s \<or> range_start r = range_start s \<and> range_end r < range_end s"

instance
  by standard (auto simp: less_eq_status_code_range_def less_status_code_range_def intro: status_code_range.expand)

end

definition merge_step :: "status_code_range list \<Rightarrow> status_code_range \<Rightarrow> status_code_range list" where
  "merge_step merged current =
     (if merged = [] then [current]
      else let l = last merged
           in if range_end l + 1 < range_start current then merged @ [current]
              else butlast merged @ [Range (range_start l) (max (range_end l) (range_end current))])"

definition mergeRanges :: "status_code_range list \<Rightarrow> status_code_range list" where
  "mergeRanges ranges = foldl merge_step [] (sort ranges)"

section \<open>Parsing\<close>

definition isNumber :: "jstr \<Rightarrow> bool" where
  "isNumber s \<longleftrightarrow> s \<noteq> [] \<and> list_all is_digit s"

text \<open>\<open>Number.parseInt(s, 10)\<close> when \<open>isValidCode\<close> accepts it.\<close>

definition valid_code :: "jstr \<Rightarrow> int option" where
  "valid_code s =
     (case parseInt10 s of
        Fin q \<Rightarrow> if 100 \<le> q \<and> q \<le> 599 then Some (floor q) else None
      | _ \<Rightarrow> None)"

definition parseToken :: "jstr \<Rightarrow> status_code_range option" where
  "parseToken token =
     (let cleaned = filter (\<lambda>c. \<not> is_ws c) (trim token)
      in if cleaned = [] then None
         else if 45 \<in> set cleaned
         then (case split_str [45] cleaned of
                 a # b # _ \<Rightarrow>
                   (if \<not> isNumber a \<or> \<not> isNumber b then None
                    else case (valid_code a, valid_code b) of
                           (Some s, Some e) \<Rightarrow> if e < s then None else Some (Range s e)
                         | _ \<Rightarrow> None)
               | _ \<Rightarrow> None)
         else if \<not> isNumber cleaned then None
         else map_option (\<lambda>c. Range c c) (valid_code cleaned))"

record parsed_rules =
  rules_ok :: bool
  ranges :: "status_code_range list"
  tokens :: "jstr list"
  normalized :: jstr
  invalidTokens :: "jstr list"

definition range_token :: "status_code_range \<Rightarrow> jstr" where
  "range_token r =
     (if range_start r = range_end r then int_str (range_start r)
      else int_str (range_start r) @ 45 # int_str (range_end r))"

text \<open>\<open>parseHttpStatusCodeRules\<close> on the string \<open>(input ?? '').toString()\<close>. The full-width
  comma is U+FF0C.\<close>

definition rule_segments :: "jstr \<Rightarrow> jstr list" where
  "rule_segments raw =
     filter (\<lambda>s. s \<noteq> []) (map trim (split_str [44] (map (\<lambda>c. if c = 65292 then 44 else c) raw)))"

definition parseHttpStatusCodeRules :: "jstr \<Rightarrow> parsed_rules" where
  "parseHttpStatusCodeRules input =
     (let raw = trim input in
      if raw = [] then \<lparr>rules_ok = True, ranges = [], tokens = [], normalized = [], invalidTokens = []\<rparr>
      else let segments = rule_segments raw;
               invalid = filter (\<lambda>s. parseToken s = None) segments
           in if invalid \<noteq> []
              then \<lparr>rules_ok = False, ranges = [], tokens = [], normalized = raw, invalidTokens = invalid\<rparr>
              else let merged = mergeRanges (List.map_filter parseToken segments);
                       toks = map range_token merged
                   in \<lparr>rules_ok = True, ranges = merged, tokens = toks,
                       normalized = join [44] toks, invalidTokens = []\<rparr>)"

section \<open>Status code mappings of a channel\<close>

definition NON_REDIRECTABLE_STATUS_CODES :: "int list" where
  "NON_REDIRECTABLE_STATUS_CODES = [504, 524]"

text \<open>The pattern \<open>/^[1-5]\d{2}$/\<close>.\<close>

fun three_digit_code :: "jstr \<Rightarrow> bool" where
  "three_digit_code [a, b, c] = (49 \<le> a \<and> a \<le> 53 \<and> is_digit b \<and> is_digit c)"
| "three_digit_code _ = False"

definition parse_int :: "jstr \<Rightarrow> int" where
  "parse_int s = (case parseInt10 s of Fin q \<Rightarrow> floor q | _ \<Rightarrow> 0)"

definition parseStatusCodeKey :: "jstr \<Rightarrow> int option" where
  "parseStatusCodeKey rawKey =
     (let n = trim rawKey in if three_digit_code n then Some (parse_int n) else None)"

definition parseStatusCodeMappingTarget :: "jsval \<Rightarrow> int option" where
  "parseStatusCodeMappingTarget v =
     (case v of
        JNum n \<Rightarrow>
          (case n of
             Fin q \<Rightarrow> if q = of_int (floor q) \<and> 100 \<le> q \<and> q \<le> 599 then Some (floor q) else None
           | _ \<Rightarrow> None)
      | JStr s \<Rightarrow>
          (let n = trim s
           in if three_digit_code n
              then let c = parse_int n in if 100 \<le> c \<and> c \<le> 599 then Some c else None
              else None)
      | _ \<Rightarrow> None)"

text \<open>The entries of the mapping, when the string holds a JSON object.\<close>

definition mapping_entries :: "jstr \<Rightarrow> (jstr \<times> jsval) list" where
  "mapping_entries s =
     (if trim s = [] then []
      else case json_parse s of Some (JObj ps) \<Rightarrow> own_entries ps | _ \<Rightarrow> [])"

definition collectInvalidStatusCodeEntries :: "jstr \<Rightarrow> jstr list" where
  "collectInvalidStatusCodeEntries s =
     map (\<lambda>(k, v). k @ [32, 8594, 32] @ to_str v)
       (filter (\<lambda>(k, v). parseStatusCodeKey k = None \<or> parseStatusCodeMappingTarget v = None)
         (mapping_entries s))"

definition risky_entry :: "jstr \<times> jsval \<Rightarrow> jstr option" where
  "risky_entry kv =
     (case (parseStatusCodeKey (fst kv), parseStatusCodeMappingTarget (snd kv)) of
        (Some f, Some t) \<Rightarrow>
          if f \<in> set NON_REDIRECTABLE_STATUS_CODES \<and> f \<noteq> t
          then Some (int_str f @ js '' -> '' @ int_str t) else None
      | _ \<Rightarrow> None)"

definition collectDisallowedStatusCodeRedirects :: "jstr \<Rightarrow> jstr list" where
  "collectDisallowedStatusCodeRedirects s =
     sort (from_set (List.map_filter risky_entry (mapping_entries s)))"

definition collectNewDisallowedStatusCodeRedirects :: "jstr \<Rightarrow> jstr \<Rightarrow> jstr list" where
  "collectNewDisallowedStatusCodeRedirects originalStr currentStr =
     (let currentRisky = collectDisallowedStatusCodeRedirects currentStr
      in if currentRisky = [] then []
         else filter (\<lambda>m. m \<notin> set (collectDisallowedStatusCodeRedirects originalStr)) currentRisky)"

section \<open>Canonical lists of ranges\<close>

definition covers :: "status_code_range list \<Rightarrow> int \<Rightarrow> bool" where
  "covers rs c \<longleftrightarrow> (\<exists>r\<in>set rs. range_start r \<le> c \<and> c \<le> range_end r)"

definition proper :: "status_code_range \<Rightarrow> bool" where
  "proper r \<longleftrightarrow> range_start r \<le> range_end r"

text \<open>Ascending ranges, none empty, with a gap between any two.\<close>

definition canonical :: "status_code_range list \<Rightarrow> bool" where
  "canonical rs \<longleftrightarrow> list_all proper rs \<and> sorted_wrt (\<lambda>a b. range_end a + 1 < range_start b) rs"

lemma covers_simps [simp]:
  "\<not> covers [] c" "covers (r # rs) c \<longleftrightarrow> range_start r \<le> c \<and> c \<le> range_end r \<or> covers rs c"
  "covers (xs @ ys) c \<longleftrightarrow> covers xs c \<or> covers ys c"
  by (auto simp: covers_def)

lemma canonical_snoc:
  "canonical (xs @ [l]) \<longleftrightarrow> canonical xs \<and> proper l \<and> (\<forall>x\<in>set xs. range_end x + 1 < range_start l)"
  by (auto simp: canonical_def sorted_wrt_append)

lemmas canonical_snoc2 = canonical_snoc [of "xs @ [l]" r for xs l r, simplified]

lemma canonical_Cons:
  "canonical (r # rs) \<longleftrightarrow> canonical rs \<and> proper r \<and> (\<forall>x\<in>set rs. range_end r + 1 < range_start x)"
  by (auto simp: canonical_def)

lemma merge_step_canonical:
  assumes "canonical m" "proper cur" "m = [] \<or> range_start (last m) \<le> range_start cur"
  shows "canonical (merge_step m cur)"
    and "covers (merge_step m cur) c \<longleftrightarrow> covers m c \<or> range_start cur \<le> c \<and> c \<le> range_end cur"
    and "range_start (last (merge_step m cur)) \<le> range_start cur"
    and "merge_step m cur \<noteq> []"
proof -
  have *: "canonical (merge_step m cur) \<and>
    (covers (merge_step m cur) c \<longleftrightarrow> covers m c \<or> range_start cur \<le> c \<and> c \<le> range_end cur) \<and>
    range_start (last (merge_step m cur)) \<le> range_start cur \<and> merge_step m cur \<noteq> []"
  proof (cases m rule: rev_cases)
    case Nil
    with assms show ?thesis by (simp add: merge_step_def canonical_def)
  next
    case (snoc xs l)
    have l: "proper l" "canonical xs" "\<forall>x\<in>set xs. range_end x + 1 < range_start l" "range_start l \<le> range_start cur"
      using assms snoc by (simp_all add: canonical_snoc)
    show ?thesis
    proof (cases "range_end l + 1 < range_start cur")
      case True
      then have "\<forall>x\<in>set (xs @ [l]). range_end x + 1 < range_start cur"
        using l unfolding proper_def by fastforce
      with True assms l snoc show ?thesis by (simp add: merge_step_def canonical_snoc2)
    next
      case False
      then show ?thesis using snoc l assms(2)
        by (auto simp: merge_step_def canonical_snoc proper_def max_def)
    qed
  qed
  then show "canonical (merge_step m cur)"
    "covers (merge_step m cur) c \<longleftrightarrow> covers m c \<or> range_start cur \<le> c \<and> c \<le> range_end cur"
    "range_start (last (merge_step m cur)) \<le> range_start cur" "merge_step m cur \<noteq> []" by blast+
qed

lemma merge_fold:
  assumes "canonical m" "list_all proper rs" "sorted rs" "m = [] \<or> (\<forall>r\<in>set rs. range_start (last m) \<le> range_start r)"
  shows "canonical (foldl merge_step m rs) \<and> (covers (foldl merge_step m rs) c \<longleftrightarrow> covers m c \<or> covers rs c)"
  using assms
proof (induction rs arbitrary: m)
  case (Cons r rs)
  have "m = [] \<or> range_start (last m) \<le> range_start r" using Cons.prems(4) by auto
  note step = merge_step_canonical(1,3,4) [OF Cons.prems(1) _ this] merge_step_canonical(2) [OF Cons.prems(1) _ this, of c]
  have "\<forall>x\<in>set rs. range_start r \<le> range_start x"
    using Cons.prems(3) by (auto simp: less_eq_status_code_range_def)
  then have "\<forall>x\<in>set rs. range_start (last (merge_step m r)) \<le> range_start x"
    using step(2) Cons.prems(2) by force
  then show ?case using Cons.IH [of "merge_step m r"] step Cons.prems by auto
qed simp

lemma mergeRanges_canonical:
  assumes "list_all proper rs"
  shows "canonical (mergeRanges rs)" "covers (mergeRanges rs) c \<longleftrightarrow> covers rs c"
  using merge_fold [of "[]" "sort rs" c] assms
  by (auto simp: mergeRanges_def canonical_def covers_def list_all_iff)

lemma canonical_first:
  assumes "canonical (r # rs)" "covers (r # rs) c"
  shows "range_start r \<le> c"
  using assms by (force simp: canonical_Cons covers_def proper_def)

lemma canonical_gap:
  assumes "canonical (r # rs)"
  shows "\<not> covers (r # rs) (range_end r + 1)"
  using assms by (force simp: canonical_Cons covers_def)

lemma canonical_unique:
  assumes "canonical a" "canonical b" "\<And>c. covers a c = covers b c"
  shows "a = b"
  using assms
proof (induction a arbitrary: b)
  case Nil
  show ?case
  proof (cases b)
    case (Cons r rs)
    with Nil have "covers b (range_start r)" by (simp add: canonical_Cons proper_def)
    with Nil(3) show ?thesis by simp
  qed simp
next
  case (Cons r rs)
  have r: "proper r" using Cons.prems(1) by (simp add: canonical_Cons)
  then have "covers (r # rs) (range_start r)" by (simp add: proper_def)
  with Cons.prems(3) obtain r' rs' where b: "b = r' # rs'" by (cases b) auto
  have r': "proper r'" using Cons.prems(2) b by (simp add: canonical_Cons)
  have s: "range_start r = range_start r'"
  proof (rule antisym)
    have "covers (r # rs) (range_start r')" using Cons.prems(3) b r' by (simp add: proper_def)
    then show "range_start r \<le> range_start r'" by (rule canonical_first [OF Cons.prems(1)])
    have "covers b (range_start r)" using \<open>covers (r # rs) (range_start r)\<close> Cons.prems(3) by blast
    then have "covers (r' # rs') (range_start r)" using b by blast
    then show "range_start r' \<le> range_start r" using canonical_first Cons.prems(2) b by blast
  qed
  have e: "range_end r = range_end r'"
  proof (rule ccontr)
    assume "range_end r \<noteq> range_end r'"
    then consider "range_end r < range_end r'" | "range_end r' < range_end r" by linarith
    then show False
    proof cases
      case 1
      then have "covers (r' # rs') (range_end r + 1)" using s r by (simp add: proper_def)
      then have "covers (r # rs) (range_end r + 1)" using Cons.prems(3) b by blast
      with canonical_gap [OF Cons.prems(1)] show False by blast
    next
      case 2
      then have "covers (r # rs) (range_end r' + 1)" using s r' by (simp add: proper_def)
      then have "covers (r' # rs') (range_end r' + 1)" using Cons.prems(3) b by blast
      with canonical_gap [of r' rs'] Cons.prems(2) b show False by blast
    qed
  qed
  have "covers rs c = covers rs' c" for c
  proof (cases "c \<le> range_end r")
    case True
    then have "\<not> covers rs c" "\<not> covers rs' c"
      using Cons.prems b e by (force simp: canonical_Cons covers_def)+
    then show ?thesis by simp
  next
    case False
    then show ?thesis using Cons.prems(3) [of c] b e by simp
  qed
  then have "rs = rs'" using Cons.IH [of rs'] Cons.prems b by (simp add: canonical_Cons)
  with s e b show ?case by (simp add: status_code_range.expand)
qed

lemma merge_canonical_id: "canonical rs \<Longrightarrow> foldl merge_step [] rs = rs"
proof (induction rs rule: rev_induct)
  case (snoc r rs)
  then have IH: "foldl merge_step [] rs = rs" by (simp add: canonical_snoc)
  have "merge_step rs r = rs @ [r]"
  proof (cases rs rule: rev_cases)
    case Nil
    then show ?thesis by (simp add: merge_step_def)
  next
    case (snoc xs l)
    with \<open>canonical (rs @ [r])\<close> have "range_end l + 1 < range_start r" by (simp add: canonical_snoc2)
    with snoc show ?thesis by (simp add: merge_step_def)
  qed
  then show ?case by (simp add: IH)
qed (simp add: merge_step_def)

lemma sorted_canonical: "canonical rs \<Longrightarrow> sorted rs"
  by (induction rs) (fastforce simp: canonical_Cons proper_def less_eq_status_code_range_def)+

lemma mergeRanges_id: "canonical rs \<Longrightarrow> mergeRanges rs = rs"
  by (simp add: mergeRanges_def merge_canonical_id sort_key_id_if_sorted sorted_canonical)

section \<open>Parsing and printing\<close>

definition code_range_ok :: "status_code_range \<Rightarrow> bool" where
  "code_range_ok r \<longleftrightarrow> 100 \<le> range_start r \<and> range_start r \<le> range_end r \<and> range_end r \<le> 599"

lemma valid_code_bounds: "valid_code s = Some n \<Longrightarrow> 100 \<le> n \<and> n \<le> 599"
  by (auto simp: valid_code_def floor_le_iff le_floor_iff split: jnum.splits if_splits)

lemma valid_code_nat:
  assumes "100 \<le> n" "n \<le> 599"
  shows "valid_code (nat_str n) = Some (int n)"
proof -
  have "parseInt10 (nat_str n) = round64 (of_nat n)"
    using parseInt10_digits [of "nat_str n"] by (simp add: nat_str_digits)
  also have "\<dots> = Fin (of_nat n)"
    using round64_int [of "int n"] assms by simp
  finally show ?thesis using assms by (simp add: valid_code_def)
qed

lemma parseToken_ok: "parseToken t = Some r \<Longrightarrow> code_range_ok r"
  by (auto simp: parseToken_def Let_def code_range_ok_def split: if_splits list.splits option.splits
      dest!: valid_code_bounds)

lemma isNumber_nat_str [simp]: "isNumber (nat_str n)"
  by (simp add: isNumber_def nat_str_digits)

lemma nat_str_chars: "c \<in> set (nat_str n) \<Longrightarrow> is_digit c"
  using nat_str_digits [of n] by (simp add: list_all_iff)

lemma range_token_shape:
  assumes "code_range_ok r"
  obtains m n where "range_start r = int m" "range_end r = int n" "100 \<le> m" "m \<le> n" "n \<le> 599"
    "range_token r = (if m = n then nat_str m else nat_str m @ 45 # nat_str n)"
proof -
  obtain m n where "range_start r = int m" "range_end r = int n"
    using assms by (metis code_range_ok_def nonneg_int_cases order_trans zero_le_numeral)
  with assms that show ?thesis by (auto simp: code_range_ok_def range_token_def int_str_def)
qed

lemma range_token_chars: "code_range_ok r \<Longrightarrow> c \<in> set (range_token r) \<Longrightarrow> is_digit c \<or> c = 45"
  by (erule range_token_shape) (auto dest: nat_str_chars split: if_splits)

lemma range_token_nonempty: "code_range_ok r \<Longrightarrow> range_token r \<noteq> []"
  by (erule range_token_shape) (auto split: if_splits)

lemma trim_no_ws: "(\<And>c. c \<in> set s \<Longrightarrow> \<not> is_ws c) \<Longrightarrow> trim s = s"
  by (cases s) (auto simp: trimmed_def intro!: trim_id)

lemma range_token_no_ws: "code_range_ok r \<Longrightarrow> c \<in> set (range_token r) \<Longrightarrow> \<not> is_ws c \<and> c \<noteq> 44 \<and> c \<noteq> 65292"
  using range_token_chars by (fastforce simp: is_digit_def is_ws_def)

lemma parseToken_range_token:
  assumes "code_range_ok r"
  shows "parseToken (range_token r) = Some r"
proof -
  have t: "trim (range_token r) = range_token r" "filter (\<lambda>c. \<not> is_ws c) (range_token r) = range_token r"
    using range_token_no_ws [OF assms] by (auto intro!: trim_no_ws simp: filter_id_conv)
  obtain m n where mn: "range_start r = int m" "range_end r = int n" "100 \<le> m" "m \<le> n" "n \<le> 599"
    "range_token r = (if m = n then nat_str m else nat_str m @ 45 # nat_str n)"
    using range_token_shape [OF assms] by metis
  have no: "45 \<notin> set (nat_str k)" for k
    using nat_str_chars [of 45 k] by (auto simp: is_digit_def)
  have r: "r = Range (int m) (int n)" using mn(1,2) by (cases r) simp
  show ?thesis
  proof (cases "m = n")
    case True
    then show ?thesis using t mn(3-6) r no by (simp add: parseToken_def Let_def valid_code_nat)
  next
    case False
    have "split_str [45] (nat_str m @ 45 # nat_str n) = [nat_str m, nat_str n]"
      using no by (simp add: split_char_append split_char_absent)
    with False show ?thesis using t mn(3-6) r
      by (simp add: parseToken_def Let_def valid_code_nat)
  qed
qed

lemma rule_segments_tokens:
  assumes "list_all code_range_ok rs" "rs \<noteq> []"
  shows "rule_segments (join [44] (map range_token rs)) = map range_token rs"
    and "trim (join [44] (map range_token rs)) = join [44] (map range_token rs)"
    and "join [44] (map range_token rs) \<noteq> []"
proof -
  let ?t = "map range_token rs"
  have chars: "set (join [44] (map range_token rs)) \<subseteq> insert 44 (\<Union> (set ` range_token ` set rs))" for rs
  proof (induction rs)
    case (Cons r rs)
    then show ?case by (cases rs) auto
  qed simp
  have ok: "\<And>c. c \<in> set (join [44] ?t) \<Longrightarrow> \<not> is_ws c \<and> c \<noteq> 65292"
    using chars [of rs] assms(1) range_token_no_ws by (fastforce simp: list_all_iff is_ws_def)
  then have "map (\<lambda>c. if c = 65292 then 44 else c) (join [44] ?t) = join [44] ?t"
    by (intro map_idI) auto
  moreover have "split_str [44] (join [44] ?t) = ?t"
    using assms range_token_no_ws by (intro split_join) (auto simp: list_all_iff)
  moreover have "map trim ?t = ?t"
    using assms range_token_no_ws by (intro map_idI) (auto simp: list_all_iff intro!: trim_no_ws)
  moreover have "filter (\<lambda>s. s \<noteq> []) ?t = ?t"
    using assms range_token_nonempty by (auto simp: list_all_iff filter_id_conv)
  ultimately show "rule_segments (join [44] ?t) = ?t" unfolding rule_segments_def by (simp only:)
  show "trim (join [44] ?t) = join [44] ?t" using ok by (intro trim_no_ws) blast
  show "join [44] ?t \<noteq> []"
    using assms range_token_nonempty by (cases rs rule: list.exhaust; cases "tl rs") (auto simp: list_all_iff)
qed

text \<open>The codes a rule text allows: those of a range one of its segments denotes.\<close>

definition allows :: "jstr \<Rightarrow> int \<Rightarrow> bool" where
  "allows input c \<longleftrightarrow> covers (List.map_filter parseToken (rule_segments (trim input))) c"

lemma proper_parsed: "list_all proper (List.map_filter parseToken ss)"
  by (auto simp: list_all_iff set_map_filter proper_def code_range_ok_def dest!: parseToken_ok)

lemma allows_Nil: "trim input = [] \<Longrightarrow> \<not> allows input c"
  by (simp add: allows_def rule_segments_def map_filter_def)

lemma rule_segments_Nil [simp]: "rule_segments [] = []"
  by (simp add: rule_segments_def)

lemma parse_ranges:
  assumes "rules_ok (parseHttpStatusCodeRules input)"
  shows "ranges (parseHttpStatusCodeRules input) =
      mergeRanges (List.map_filter parseToken (rule_segments (trim input)))"
    and "normalized (parseHttpStatusCodeRules input) =
      join [44] (map range_token (ranges (parseHttpStatusCodeRules input)))"
    and "tokens (parseHttpStatusCodeRules input) = map range_token (ranges (parseHttpStatusCodeRules input))"
  using assms by (auto simp: parseHttpStatusCodeRules_def Let_def mergeRanges_def map_filter_def split: if_splits)

lemma merge_step_bounds:
  "list_all code_range_ok m \<Longrightarrow> code_range_ok r \<Longrightarrow> list_all code_range_ok (merge_step m r)"
  by (cases m rule: rev_cases) (auto simp: merge_step_def Let_def code_range_ok_def max_def)

lemma mergeRanges_bounds:
  assumes "list_all code_range_ok rs"
  shows "list_all code_range_ok (mergeRanges rs)"
proof -
  have "list_all code_range_ok (foldl merge_step m xs)" if "list_all code_range_ok m" "list_all code_range_ok xs" for m xs
    using that by (induction xs arbitrary: m) (auto intro: merge_step_bounds)
  from this [of "[]" "sort rs"] show ?thesis using assms by (simp add: mergeRanges_def list_all_iff)
qed

lemma parsed_bounds: "list_all code_range_ok (List.map_filter parseToken ss)"
  by (auto simp: list_all_iff set_map_filter dest!: parseToken_ok)

text \<open>A rule text whose tokens are all valid is turned into the canonical list of ranges for
  the codes it allows: ascending, non-empty, between 100 and 599, with a gap between any two,
  and together covering exactly the codes of its tokens.\<close>

theorem parse_rules_canonical:
  assumes "rules_ok (parseHttpStatusCodeRules input)"
  shows "canonical (ranges (parseHttpStatusCodeRules input))
    \<and> list_all code_range_ok (ranges (parseHttpStatusCodeRules input))
    \<and> (\<forall>c. covers (ranges (parseHttpStatusCodeRules input)) c = allows input c)"
  using mergeRanges_canonical [OF proper_parsed] mergeRanges_bounds [OF parsed_bounds]
  by (simp add: parse_ranges(1) [OF assms] allows_def)

lemma parse_rules_canonical_witness:
  "canonical (ranges (parseHttpStatusCodeRules (js ''500-502, 401,503'')))
    \<and> list_all code_range_ok (ranges (parseHttpStatusCodeRules (js ''500-502, 401,503'')))
    \<and> (\<forall>c. covers (ranges (parseHttpStatusCodeRules (js ''500-502, 401,503''))) c = allows (js ''500-502, 401,503'') c)"
  by (rule parse_rules_canonical) code_simp

lemma parse_normalized:
  assumes "rules_ok (parseHttpStatusCodeRules input)"
  shows "parseHttpStatusCodeRules (normalized (parseHttpStatusCodeRules input)) = parseHttpStatusCodeRules input"
proof (cases "ranges (parseHttpStatusCodeRules input) = []")
  case True
  moreover have "invalidTokens (parseHttpStatusCodeRules input) = []"
    using assms by (simp add: parseHttpStatusCodeRules_def Let_def split: if_splits)
  moreover have "tokens (parseHttpStatusCodeRules input) = []" "normalized (parseHttpStatusCodeRules input) = []"
    using True parse_ranges(2,3) [OF assms] by simp_all
  moreover have "parseHttpStatusCodeRules [] =
      \<lparr>rules_ok = True, ranges = [], tokens = [], normalized = [], invalidTokens = []\<rparr>"
    by (simp add: parseHttpStatusCodeRules_def)
  ultimately show ?thesis
    using assms True by (intro parsed_rules.equality) simp_all
next
  case False
  let ?rs = "ranges (parseHttpStatusCodeRules input)"
  have ok: "list_all code_range_ok ?rs" "canonical ?rs"
    using mergeRanges_canonical [OF proper_parsed] mergeRanges_bounds [OF parsed_bounds]
    by (simp_all add: parse_ranges(1) [OF assms])
  have p: "List.map_filter parseToken (map range_token ?rs) = ?rs"
    using ok(1) by (intro map_filter_id) (simp add: list_all_iff parseToken_range_token)
  have v: "filter (\<lambda>s. parseToken s = None) (map range_token ?rs) = []"
    using ok(1) by (auto simp: filter_empty_conv list_all_iff parseToken_range_token)
  have i: "invalidTokens (parseHttpStatusCodeRules input) = []"
    using assms by (simp add: parseHttpStatusCodeRules_def Let_def split: if_splits)
  note seg = rule_segments_tokens [OF ok(1) False]
  have "parseHttpStatusCodeRules (join [44] (map range_token ?rs)) =
      \<lparr>rules_ok = True, ranges = ?rs, tokens = map range_token ?rs,
       normalized = join [44] (map range_token ?rs), invalidTokens = []\<rparr>"
    unfolding parseHttpStatusCodeRules_def [of "join [44] (map range_token ?rs)"]
    by (simp add: Let_def seg v p mergeRanges_id [OF ok(2)])
  then show ?thesis
    using assms i parse_ranges(2,3) [OF assms] by (intro parsed_rules.equality) simp_all
qed

text \<open>Normalising is idempotent: the normalised text of a valid rule text parses again, to
  the same ranges, tokens and normalised text.\<close>

theorem normalized_roundtrip:
  assumes "rules_ok (parseHttpStatusCodeRules input)"
  shows "parseHttpStatusCodeRules (normalized (parseHttpStatusCodeRules input)) = parseHttpStatusCodeRules input"
  by (rule parse_normalized [OF assms])

lemma normalized_roundtrip_witness:
  "parseHttpStatusCodeRules (normalized (parseHttpStatusCodeRules (js ''503, 500-502,401''))) =
   parseHttpStatusCodeRules (js ''503, 500-502,401'')"
  by (rule normalized_roundtrip) code_simp

text \<open>C10 The normalised text is a normal form: two valid rule texts allow the same codes exactly
  when their normalised texts are equal.\<close>

theorem normalized_decides:
  assumes "rules_ok (parseHttpStatusCodeRules a)" "rules_ok (parseHttpStatusCodeRules b)"
  shows "normalized (parseHttpStatusCodeRules a) = normalized (parseHttpStatusCodeRules b)
    \<longleftrightarrow> (\<forall>c. allows a c = allows b c)"
proof -
  let ?r = "\<lambda>x. ranges (parseHttpStatusCodeRules x)"
  have ok: "canonical (?r x) \<and> (\<forall>c. covers (?r x) c = allows x c)" if "rules_ok (parseHttpStatusCodeRules x)" for x
    using mergeRanges_canonical [OF proper_parsed] by (simp add: parse_ranges(1) [OF that] allows_def)
  show ?thesis
  proof
    assume "normalized (parseHttpStatusCodeRules a) = normalized (parseHttpStatusCodeRules b)"
    then have "parseHttpStatusCodeRules a = parseHttpStatusCodeRules b"
      using parse_normalized [OF assms(1)] parse_normalized [OF assms(2)] by metis
    with ok [OF assms(1)] ok [OF assms(2)] show "\<forall>c. allows a c = allows b c" by metis
  next
    assume "\<forall>c. allows a c = allows b c"
    with ok [OF assms(1)] ok [OF assms(2)] have "?r a = ?r b"
      by (intro canonical_unique) auto
    then show "normalized (parseHttpStatusCodeRules a) = normalized (parseHttpStatusCodeRules b)"
      using parse_ranges(2) [OF assms(1)] parse_ranges(2) [OF assms(2)] by simp
  qed
qed

lemma normalized_decides_witness:
  "\<forall>c. allows (js ''500-502,503'') c = allows (js ''503 , 500-501,502'') c"
proof -
  have ok: "rules_ok (parseHttpStatusCodeRules (js ''500-502,503''))" by code_simp
  have ok': "rules_ok (parseHttpStatusCodeRules (js ''503 , 500-501,502''))" by code_simp
  have "normalized (parseHttpStatusCodeRules (js ''500-502,503'')) = normalized (parseHttpStatusCodeRules (js ''503 , 500-501,502''))"
    by code_simp
  with normalized_decides [OF ok ok'] show ?thesis by blast
qed

text \<open>A range token with more parts than two is accepted, the rest of it dropped.\<close>

lemma parseToken_drops_rest: "parseToken (js ''100-200-oops'') = Some (Range 100 200)"
  by code_simp

section \<open>Redirects of status codes\<close>

lemma risky_entry_Some:
  "risky_entry (k, v) = Some m \<longleftrightarrow>
     (\<exists>f t. parseStatusCodeKey k = Some f \<and> parseStatusCodeMappingTarget v = Some t
        \<and> (f = 504 \<or> f = 524) \<and> f \<noteq> t \<and> m = int_str f @ js '' -> '' @ int_str t)"
  by (cases "parseStatusCodeKey k"; cases "parseStatusCodeMappingTarget v")
    (auto simp: risky_entry_def NON_REDIRECTABLE_STATUS_CODES_def)

text \<open>The redirects that need a confirmation are those of 504 and 524 to another code: the
  list names each pair of valid codes the mapping holds with such a source once, in order, and
  the new ones are those the original mapping did not have.\<close>

theorem disallowed_redirects:
  "sorted (collectDisallowedStatusCodeRedirects s)
   \<and> distinct (collectDisallowedStatusCodeRedirects s)
   \<and> (m \<in> set (collectDisallowedStatusCodeRedirects s) \<longleftrightarrow>
       (\<exists>k v f t. (k, v) \<in> set (mapping_entries s) \<and> parseStatusCodeKey k = Some f
         \<and> parseStatusCodeMappingTarget v = Some t \<and> (f = 504 \<or> f = 524) \<and> f \<noteq> t
         \<and> m = int_str f @ js '' -> '' @ int_str t))
   \<and> set (collectNewDisallowedStatusCodeRedirects original s) =
       set (collectDisallowedStatusCodeRedirects s) - set (collectDisallowedStatusCodeRedirects original)"
proof -
  have "m \<in> set (collectDisallowedStatusCodeRedirects s) \<longleftrightarrow>
      (\<exists>p\<in>set (mapping_entries s). risky_entry (fst p, snd p) = Some m)"
    by (simp add: collectDisallowedStatusCodeRedirects_def set_map_filter)
  also have "\<dots> \<longleftrightarrow> (\<exists>k v f t. (k, v) \<in> set (mapping_entries s) \<and> parseStatusCodeKey k = Some f
         \<and> parseStatusCodeMappingTarget v = Some t \<and> (f = 504 \<or> f = 524) \<and> f \<noteq> t
         \<and> m = int_str f @ js '' -> '' @ int_str t)"
    unfolding risky_entry_Some by force
  moreover have "set (collectNewDisallowedStatusCodeRedirects original s) =
       set (collectDisallowedStatusCodeRedirects s) - set (collectDisallowedStatusCodeRedirects original)"
    by (auto simp: collectNewDisallowedStatusCodeRedirects_def Let_def)
  ultimately show ?thesis
    by (simp add: collectDisallowedStatusCodeRedirects_def)
qed

end
