(* ===== verification/ModelMapping.thy ===== *)
theory ModelMapping
  imports JsJson
begin

text \<open>
  The model list and the model mapping of a channel
  (\<open>features/channels/lib/model-mapping-validation.ts\<close>) and the model names an upstream check
  reports (\<open>features/channels/lib/upstream-update-utils.ts\<close>). A JavaScript \<open>Set\<close> is its list
  of elements in insertion order.
\<close>

section \<open>Model lists\<close>

definition parseModelsString :: "jstr \<Rightarrow> jstr list" where
  "parseModelsString s =
     (if s = [] then [] else filter (\<lambda>m. m \<noteq> []) (map trim (split_str [44] s)))"

definition formatModelsArray :: "jstr list \<Rightarrow> jstr" where
  "formatModelsArray models = join [44] (from_set models)"

definition normalizeModelName :: "jstr \<Rightarrow> jstr" where
  "normalizeModelName m = trim m"

section \<open>Model mappings\<close>

text \<open>The object a mapping text holds, when it holds one.\<close>

definition parse_mapping :: "jstr \<Rightarrow> (jstr \<times> jsval) list option" where
  "parse_mapping s = (case json_parse s of Some (JObj ps) \<Rightarrow> Some ps | _ \<Rightarrow> None)"

definition extractMappingSourceModels :: "jstr \<Rightarrow> jstr list" where
  "extractMappingSourceModels modelMapping =
     (let trimmed = trim modelMapping in
      if trimmed = [] then []
      else case parse_mapping trimmed of
             None \<Rightarrow> []
           | Some ps \<Rightarrow> from_set (filter (\<lambda>k. k \<noteq> []) (map trim (own_keys ps))))"

fun trimmed_string :: "jsval \<Rightarrow> jstr option" where
  "trimmed_string (JStr s) = (if trim s = [] then None else Some (trim s))"
| "trimmed_string _ = None"

definition extractRedirectModels :: "jstr \<Rightarrow> jstr list" where
  "extractRedirectModels modelMapping =
     (let trimmed = trim modelMapping in
      if trimmed = [] then []
      else case parse_mapping trimmed of
             None \<Rightarrow> []
           | Some ps \<Rightarrow> from_set (List.map_filter trimmed_string (own_values ps)))"

fun lists_differ_from :: "jstr list \<Rightarrow> jstr list \<Rightarrow> nat \<Rightarrow> nat \<Rightarrow> bool" where
  "lists_differ_from xs ys i 0 = False"
| "lists_differ_from xs ys i (Suc n) = (xs ! i \<noteq> ys ! i \<or> lists_differ_from xs ys (Suc i) n)"

definition hasModelConfigChanged :: "jstr list \<Rightarrow> jstr \<Rightarrow> jstr list \<Rightarrow> jstr \<Rightarrow> bool" where
  "hasModelConfigChanged currentModels currentModelMapping initialModels initialModelMapping =
     (if length initialModels = 0 \<and> initialModelMapping = [] then True
      else if length currentModels \<noteq> length initialModels then True
      else if lists_differ_from currentModels initialModels 0 (length currentModels) then True
      else trim currentModelMapping \<noteq> trim initialModelMapping)"

definition findMissingModelsInMapping :: "jstr \<Rightarrow> jstr list \<Rightarrow> jstr list" where
  "findMissingModelsInMapping modelMapping currentModels =
     (if trim modelMapping = [] then []
      else case parse_mapping modelMapping of
             None \<Rightarrow> []
           | Some ps \<Rightarrow>
               (let modelSet = from_set (map normalizeModelName currentModels)
                in from_set (filter (\<lambda>k. k \<noteq> [] \<and> k \<notin> set modelSet)
                     (map normalizeModelName (own_keys ps)))))"

datatype mapping_error = NotAnObject | ValuesNotStrings | NotJson

fun is_string :: "jsval \<Rightarrow> bool" where
  "is_string (JStr _) = True"
| "is_string _ = False"

text \<open>\<open>validateModelMappingJson\<close>; \<open>None\<close> when the mapping is valid.\<close>

definition validateModelMappingJson :: "jstr \<Rightarrow> mapping_error option" where
  "validateModelMappingJson modelMapping =
     (if trim modelMapping = [] then None
      else case json_parse modelMapping of
             None \<Rightarrow> Some NotJson
           | Some (JObj ps) \<Rightarrow>
               (if list_ex (\<lambda>v. \<not> is_string v) (own_values ps) then Some ValuesNotStrings else None)
           | Some _ \<Rightarrow> Some NotAnObject)"

definition findExposedTargetModels :: "jstr \<Rightarrow> jstr list \<Rightarrow> jstr list" where
  "findExposedTargetModels modelMapping currentModels =
     (let redirectModels = extractRedirectModels modelMapping in
      if redirectModels = [] then []
      else let modelSet = from_set (map normalizeModelName currentModels)
           in filter (\<lambda>m. normalizeModelName m \<in> set modelSet) redirectModels)"

record model_categories =
  normalizedCurrentModels :: "jstr list"
  normalizedRedirectModels :: "jstr list"
  classificationSet :: "jstr list"
  redirectOnlySet :: "jstr list"

definition categorizeModelsWithRedirect :: "jstr list \<Rightarrow> jstr list \<Rightarrow> model_categories" where
  "categorizeModelsWithRedirect currentModels redirectModels =
     (let cur = from_set (filter (\<lambda>m. m \<noteq> []) (map normalizeModelName currentModels));
          red = from_set (filter (\<lambda>m. m \<noteq> []) (map normalizeModelName redirectModels))
      in \<lparr>normalizedCurrentModels = cur, normalizedRedirectModels = red,
          classificationSet = from_set (cur @ red),
          redirectOnlySet = from_set (filter (\<lambda>m. m \<notin> set cur) red)\<rparr>)"

section \<open>Upstream updates\<close>

definition normalizeModelList :: "jsval list \<Rightarrow> jstr list" where
  "normalizeModelList models =
     from_set (filter (\<lambda>m. m \<noteq> []) (map (\<lambda>m. trim (if truthy m then to_str m else [])) models))"

record upstream_meta =
  upstream_enabled :: bool
  pendingAddModels :: "jstr list"
  pendingRemoveModels :: "jstr list"

text \<open>\<open>parsed.x || []\<close> handed to \<open>normalizeModelList\<close>: \<open>None\<close> when \<open>map\<close> is no method of it.\<close>

definition pending_models :: "jsval option \<Rightarrow> jstr list option" where
  "pending_models v =
     (if \<not> truthy_opt v then Some []
      else case v of Some (JArr ms) \<Rightarrow> Some (normalizeModelList ms) | _ \<Rightarrow> None)"

text \<open>\<open>parseUpstreamUpdateMeta\<close>: settings are an object or a text; \<open>None\<close> when it throws.\<close>

definition upstream_settings :: "jsval option \<Rightarrow> jsval option" where
  "upstream_settings settings =
     (case settings of
        Some (JObj ps) \<Rightarrow> Some (JObj ps)
      | Some (JStr s) \<Rightarrow>
          (case json_parse s of
             Some (JObj ps) \<Rightarrow> Some (JObj ps)
           | Some (JArr vs) \<Rightarrow> Some (JArr vs)
           | _ \<Rightarrow> None)
      | _ \<Rightarrow> None)"

definition parseUpstreamUpdateMeta :: "jsval option \<Rightarrow> upstream_meta option" where
  "parseUpstreamUpdateMeta settings =
     (case upstream_settings settings of
        None \<Rightarrow> Some \<lparr>upstream_enabled = False, pendingAddModels = [], pendingRemoveModels = []\<rparr>
      | Some parsed \<Rightarrow>
          (case (pending_models (get_prop parsed ''upstream_model_update_last_detected_models''),
                 pending_models (get_prop parsed ''upstream_model_update_last_removed_models'')) of
             (Some add, Some rem) \<Rightarrow>
               Some \<lparr>upstream_enabled =
                       (get_prop parsed ''upstream_model_update_check_enabled'' = Some (JBool True)),
                     pendingAddModels = add, pendingRemoveModels = rem\<rparr>
           | _ \<Rightarrow> None))"

section \<open>What they compute\<close>

lemma split_trim_chars:
  "m \<in> set (parseModelsString s) \<Longrightarrow> m \<noteq> [] \<and> trimmed m \<and> 44 \<notin> set m"
  using split_char_no_sep [of _ 44 s] set_trim_subset
  by (auto simp: parseModelsString_def split: if_splits)

text \<open>Formatting a list of model names and parsing the text again gives the names without
  repetition, in the order of their first occurrences, for names that are not blank, carry no
  white space at their ends and hold no comma; so the names parsed from any text survive.\<close>

theorem models_roundtrip:
  assumes "\<forall>m\<in>set ms. m \<noteq> [] \<and> trimmed m \<and> 44 \<notin> set m"
  shows "parseModelsString (formatModelsArray ms) = from_set ms"
proof (cases "ms = []")
  case True
  then show ?thesis by (simp add: formatModelsArray_def parseModelsString_def)
next
  case False
  have s: "split_str [44] (join [44] (from_set ms)) = from_set ms"
    using assms False by (intro split_join) auto
  have t: "map trim (from_set ms) = from_set ms"
    using assms by (intro map_idI) auto
  have f: "filter (\<lambda>m. m \<noteq> []) (from_set ms) = from_set ms"
    using assms by (auto simp: filter_id_conv)
  have "join [44] (from_set ms) \<noteq> []"
    using s f t by (metis assms False from_set_eq_Nil_iff list.set_intros(1) neq_Nil_conv set_from_set split_char_Nil)
  then show ?thesis by (simp add: parseModelsString_def formatModelsArray_def s t f)
qed

lemma models_roundtrip_witness:
  "parseModelsString (formatModelsArray [js ''gpt-4o'', js ''o1'', js ''gpt-4o'']) =
   from_set [js ''gpt-4o'', js ''o1'', js ''gpt-4o'']"
  by (rule models_roundtrip) (simp add: trimmed_def js_Cons is_ws_def)

lemma lists_differ:
  "i + n = length xs \<Longrightarrow> length xs = length ys \<Longrightarrow>
   lists_differ_from xs ys i n \<longleftrightarrow> drop i xs \<noteq> drop i ys"
proof (induction n arbitrary: i)
  case (Suc n)
  then have "drop i xs = xs ! i # drop (Suc i) xs" "drop i ys = ys ! i # drop (Suc i) ys"
    by (simp_all add: Cons_nth_drop_Suc)
  with Suc show ?case by simp
qed simp

text \<open>A channel's model configuration counts as unchanged exactly when the channel had one
  before, its model list is the same list and its mapping the same text up to white space at
  the ends.\<close>

theorem config_unchanged_iff:
  "\<not> hasModelConfigChanged cur curMap ini iniMap \<longleftrightarrow>
     (ini, iniMap) \<noteq> ([], []) \<and> cur = ini \<and> trim curMap = trim iniMap"
  using lists_differ [of 0 "length cur" cur ini] by (auto simp: hasModelConfigChanged_def)

text \<open>The classification of models: the two normalised sets cover the classification set,
  the redirect-only set is the rest of the redirects, and no set lists a name twice.\<close>

theorem categorize_partition:
  "let r = categorizeModelsWithRedirect cur red in
   set (classificationSet r) = set (normalizedCurrentModels r) \<union> set (redirectOnlySet r)
   \<and> set (normalizedCurrentModels r) \<inter> set (redirectOnlySet r) = {}
   \<and> set (normalizedCurrentModels r) = {m. m \<noteq> [] \<and> (\<exists>x\<in>set cur. m = trim x)}
   \<and> set (normalizedRedirectModels r) = {m. m \<noteq> [] \<and> (\<exists>x\<in>set red. m = trim x)}
   \<and> set (redirectOnlySet r) \<subseteq> set (normalizedRedirectModels r)
   \<and> classificationSet r = normalizedCurrentModels r @ redirectOnlySet r"
proof -
  have "from_set (a @ b) = a @ filter (\<lambda>m. m \<notin> set a) b" if "distinct a" "distinct b" for a b :: "jstr list"
  proof -
    have "foldl set_add a b = a @ filter (\<lambda>m. m \<notin> set a) b" using that(2)
    proof (induction b arbitrary: a)
      case (Cons x b)
      show ?case
      proof (cases "x \<in> set a")
        case True
        with Cons show ?thesis by (simp add: set_add_def)
      next
        case False
        have "filter (\<lambda>m. m \<noteq> x \<and> m \<notin> set a) b = filter (\<lambda>m. m \<notin> set a) b"
          using Cons.prems by (auto intro: filter_cong)
        with False Cons show ?thesis by (simp add: set_add_def)
      qed
    qed simp
    with that(1) show ?thesis by (simp add: from_set_def foldl_set_add_distinct)
  qed
  then show ?thesis
    by (auto simp: categorizeModelsWithRedirect_def Let_def normalizeModelName_def)
qed

end
