(* ===== verification/ChannelTypes.thy ===== *)
theory ChannelTypes
  imports JsJson
begin

text \<open>
  The data of upstream channels (\<open>features/channels/types.ts\<close>), the tables of
  \<open>features/channels/constants.ts\<close>, and the per-type configuration of
  \<open>features/channels/lib/channel-type-config.ts\<close>. A nullish field is an \<open>option\<close>.
\<close>

section \<open>Channels\<close>

datatype multi_key_strategy = RandomKey | PollingKey | StickyHashBounded

record channel_info =
  is_multi_key :: bool
  multi_key_size :: jnum
  multi_key_status_list :: "(jstr \<times> jnum) list option"
  multi_key_polling_index :: jnum
  info_multi_key_mode :: multi_key_strategy

record channel =
  ch_id :: jnum
  ch_type :: int
  ch_key :: jstr
  ch_openai_organization :: "jstr option"
  ch_test_model :: "jstr option"
  ch_status :: int
  ch_name :: jstr
  ch_weight :: "jnum option"
  ch_created_time :: jnum
  ch_test_time :: jnum
  ch_response_time :: jnum
  ch_base_url :: "jstr option"
  ch_other :: jstr
  ch_balance :: jnum
  ch_balance_updated_time :: jnum
  ch_models :: jstr
  ch_group :: jstr
  ch_used_quota :: jnum
  ch_model_mapping :: "jstr option"
  ch_status_code_mapping :: "jstr option"
  ch_priority :: "jnum option"
  ch_auto_ban :: "jnum option"
  ch_other_info :: jstr
  ch_tag :: "jstr option"
  ch_setting :: "jstr option"
  ch_param_override :: "jstr option"
  ch_header_override :: "jstr option"
  ch_remark :: jstr
  ch_max_input_tokens :: jnum
  ch_info :: channel_info
  ch_settings :: jstr

section \<open>Tables\<close>

definition CHANNEL_TYPES :: "(int \<times> string) list" where
  "CHANNEL_TYPES =
     [(0, ''Unknown''), (1, ''OpenAI''), (2, ''Midjourney''), (3, ''Azure''),
      (4, ''Ollama''), (5, ''MidjourneyPlus''), (6, ''OpenAIMax''), (7, ''OhMyGPT''),
      (8, ''Custom''), (9, ''AILS''), (10, ''AI Proxy''), (11, ''PaLM''),
      (12, ''API2GPT''), (13, ''AIGC2D''), (14, ''Anthropic''), (15, ''Baidu''),
      (16, ''Zhipu''), (17, ''Ali''), (18, ''Xunfei''), (19, ''360''),
      (20, ''OpenRouter''), (21, ''AI Proxy Library''), (22, ''FastGPT''), (23, ''Tencent''),
      (24, ''Gemini''), (25, ''Moonshot''), (26, ''Zhipu V4''), (27, ''Perplexity''),
      (31, ''LingYiWanWu''), (33, ''AWS''), (34, ''Cohere''), (35, ''MiniMax''),
      (36, ''SunoAPI''), (37, ''Dify''), (38, ''Jina''), (39, ''Cloudflare''),
      (40, ''SiliconFlow''), (41, ''Vertex AI''), (42, ''Mistral''), (43, ''DeepSeek''),
      (44, ''MokaAI''), (45, ''VolcEngine''), (46, ''Baidu V2''), (47, ''Xinference''),
      (48, ''xAI''), (49, ''Coze''), (50, ''Kling''), (51, ''Jimeng''),
      (52, ''Vidu''), (53, ''Submodel''), (54, ''DoubaoVideo''), (55, ''Sora''),
      (56, ''Replicate''), (57, ''Codex'')]"

definition CHANNEL_TYPE_DISPLAY_ORDER :: "int list" where
  "CHANNEL_TYPE_DISPLAY_ORDER =
     [1, 14, 33, 24, 43, 3, 41, 48, 42, 34, 20, 4, 40, 27, 25, 17, 26, 15, 46, 23,
      18, 45, 31, 35, 49, 19, 47, 37, 38, 39, 11, 8, 57, 22, 21, 44, 2, 5, 36, 50,
      51, 52, 53, 54, 55, 56]"

text \<open>The first loop takes the display order, the second the types it misses.\<close>

definition CHANNEL_TYPE_OPTIONS :: "(int \<times> string) list" where
  "CHANNEL_TYPE_OPTIONS =
     (let ordered = List.map_filter (\<lambda>id. map_option (Pair id) (map_of CHANNEL_TYPES id))
                      CHANNEL_TYPE_DISPLAY_ORDER;
          seen = map fst ordered
      in ordered @ filter (\<lambda>(id, _). id \<noteq> 0 \<and> id \<notin> set seen) CHANNEL_TYPES)"

definition CHANNEL_STATUS_ENABLED :: int where
  "CHANNEL_STATUS_ENABLED = 1"

definition MODEL_FETCHABLE_TYPES :: "int list" where
  "MODEL_FETCHABLE_TYPES = [1, 4, 14, 17, 20, 23, 24, 25, 26, 27, 31, 34, 35, 40, 42, 43, 47, 48]"

definition TYPE_TO_KEY_PROMPT :: "(int \<times> string) list" where
  "TYPE_TO_KEY_PROMPT =
     [(15, ''Format: APIKey|SecretKey''),
      (18, ''Format: APPID|APISecret|APIKey''),
      (22, ''Format: APIKey-AppId, e.g., fastgpt-0sp2gtvfdgyi4k30jwlgwf1i-64f335d84283f05518e9e041''),
      (23, ''Format: AppId|SecretId|SecretKey''),
      (33, ''Format: Ak|Sk|Region''),
      (50, ''Format: AccessKey|SecretKey (or just ApiKey for Data Proxy-compatible upstreams)''),
      (51, ''Format: Access Key ID|Secret Access Key''),
      (57, ''Paste Codex OAuth JSON credential (access_token / refresh_token / account_id)'')]"

definition TYPE_TO_ICON :: "(int \<times> string) list" where
  "TYPE_TO_ICON =
     [(1, ''OpenAI''), (6, ''OpenAI''), (7, ''OpenAI''), (8, ''OpenAI''),
      (3, ''Azure''), (14, ''Claude''), (24, ''Gemini''), (11, ''Google''),
      (41, ''Gemini''), (33, ''Aws''), (39, ''Cloudflare''), (15, ''Baidu''),
      (46, ''Baidu''), (16, ''Zhipu''), (26, ''Zhipu''), (17, ''Qwen''),
      (18, ''Spark''), (23, ''Hunyuan''), (19, ''Ai360''), (25, ''Moonshot''),
      (31, ''Yi''), (35, ''Minimax''), (45, ''Volcengine''), (4, ''Ollama''),
      (27, ''Perplexity''), (34, ''Cohere''), (42, ''Mistral''), (43, ''DeepSeek''),
      (48, ''XAI''), (49, ''Coze''), (40, ''SiliconCloud''), (44, ''OpenAI''),
      (20, ''OpenRouter''), (2, ''Midjourney''), (5, ''Midjourney''), (50, ''Kling''),
      (51, ''Jimeng''), (52, ''Vidu''), (36, ''Suno''), (55, ''OpenAI''),
      (54, ''Doubao''), (56, ''Replicate''), (37, ''Dify''), (38, ''Jina''),
      (22, ''FastGPT''), (47, ''Xinference''), (53, ''OpenAI''), (10, ''OpenAI''),
      (21, ''OpenAI''), (12, ''OpenAI''), (13, ''OpenAI''), (9, ''OpenAI'')]"

text \<open>\<open>TABLE[k] || d\<close> for a table of non-empty strings.\<close>

definition table_or :: "(int \<times> string) list \<Rightarrow> int \<Rightarrow> string \<Rightarrow> string" where
  "table_or t k d = (case map_of t k of None \<Rightarrow> d | Some s \<Rightarrow> if s = [] then d else s)"

definition getChannelTypeLabel :: "int \<Rightarrow> string" where
  "getChannelTypeLabel ty = table_or CHANNEL_TYPES ty ''Unknown''"

definition getChannelTypeIcon :: "int \<Rightarrow> string" where
  "getChannelTypeIcon ty = table_or TYPE_TO_ICON ty ''OpenAI''"

definition getKeyPromptForType :: "int \<Rightarrow> string" where
  "getKeyPromptForType ty = table_or TYPE_TO_KEY_PROMPT ty ''Enter API key for this channel''"

section \<open>Configuration of a type\<close>

record type_hints =
  hint_baseUrl :: "string option"
  hint_key :: "string option"
  hint_models :: "string option"
  hint_other :: "string option"

text \<open>\<open>key_prefix\<close> is the pattern \<open>/^prefix/\<close> of \<open>keyFormat\<close>.\<close>

record channel_type_config =
  cfg_id :: int
  cfg_name :: string
  cfg_icon :: string
  defaultBaseUrl :: "string option"
  requires_org :: bool
  requires_reg :: bool
  hints :: type_hints
  key_validation :: "(string \<times> nat) option"

definition type_name :: "int \<Rightarrow> string" where
  "type_name ty = table_or CHANNEL_TYPES ty ''Unknown''"

definition CHANNEL_TYPE_CONFIGS :: "channel_type_config list" where
  "CHANNEL_TYPE_CONFIGS =
     [\<lparr>cfg_id = 1, cfg_name = type_name 1, cfg_icon = ''openai'', defaultBaseUrl = Some ''https://api.openai.com'',
        requires_org = True, requires_reg = False,
        hints = \<lparr>hint_baseUrl = Some ''Default: https://api.openai.com'', hint_key = Some ''Format: sk-...'',
                 hint_models = Some ''gpt-4,gpt-4-turbo,gpt-3.5-turbo'', hint_other = None\<rparr>,
        key_validation = Some (''sk-'', 20)\<rparr>,
      \<lparr>cfg_id = 3, cfg_name = type_name 3, cfg_icon = ''azure'', defaultBaseUrl = None,
        requires_org = False, requires_reg = True,
        hints = \<lparr>hint_baseUrl = Some ''Azure OpenAI Endpoint'', hint_key = Some ''Azure API Key'',
                 hint_models = Some ''Deployment names'', hint_other = None\<rparr>,
        key_validation = None\<rparr>,
      \<lparr>cfg_id = 14, cfg_name = type_name 14, cfg_icon = ''anthropic'', defaultBaseUrl = Some ''https://api.anthropic.com'',
        requires_org = False, requires_reg = False,
        hints = \<lparr>hint_baseUrl = None, hint_key = Some ''Format: sk-ant-...'',
                 hint_models = Some ''claude-3-opus,claude-3-sonnet,claude-3-haiku'', hint_other = None\<rparr>,
        key_validation = None\<rparr>,
      \<lparr>cfg_id = 24, cfg_name = type_name 24, cfg_icon = ''google'', defaultBaseUrl = None,
        requires_org = False, requires_reg = False,
        hints = \<lparr>hint_baseUrl = None, hint_key = Some ''Google API Key'',
                 hint_models = Some ''gemini-pro,gemini-pro-vision'', hint_other = None\<rparr>,
        key_validation = None\<rparr>,
      \<lparr>cfg_id = 41, cfg_name = type_name 41, cfg_icon = ''google'', defaultBaseUrl = None,
        requires_org = False, requires_reg = True,
        hints = \<lparr>hint_baseUrl = None, hint_key = Some ''Service account JSON or API key'',
                 hint_models = Some ''gemini-pro,gemini-1.5-pro'', hint_other = Some ''Region config: {\"default\": \"us-central1\"}''\<rparr>,
        key_validation = None\<rparr>,
      \<lparr>cfg_id = 43, cfg_name = type_name 43, cfg_icon = ''deepseek'', defaultBaseUrl = Some ''https://api.deepseek.com'',
        requires_org = False, requires_reg = False,
        hints = \<lparr>hint_baseUrl = None, hint_key = Some ''DeepSeek API Key'',
                 hint_models = Some ''deepseek-chat,deepseek-coder'', hint_other = None\<rparr>,
        key_validation = None\<rparr>,
      \<lparr>cfg_id = 20, cfg_name = type_name 20, cfg_icon = ''openrouter'', defaultBaseUrl = Some ''https://openrouter.ai/api'',
        requires_org = False, requires_reg = False,
        hints = \<lparr>hint_baseUrl = None, hint_key = Some ''OpenRouter API Key'',
                 hint_models = Some ''Use model IDs from OpenRouter'', hint_other = None\<rparr>,
        key_validation = None\<rparr>,
      \<lparr>cfg_id = 56, cfg_name = type_name 56, cfg_icon = ''replicate'', defaultBaseUrl = Some ''https://api.replicate.com'',
        requires_org = False, requires_reg = False,
        hints = \<lparr>hint_baseUrl = Some ''Default: https://api.replicate.com'', hint_key = Some ''Replicate API Token'',
                 hint_models = Some ''Replicate model IDs'', hint_other = None\<rparr>,
        key_validation = None\<rparr>]"

definition type_config :: "int \<Rightarrow> channel_type_config option" where
  "type_config ty = List.find (\<lambda>c. cfg_id c = ty) CHANNEL_TYPE_CONFIGS"

definition no_hints :: type_hints where
  "no_hints = \<lparr>hint_baseUrl = None, hint_key = None, hint_models = None, hint_other = None\<rparr>"

definition getChannelTypeConfig :: "int \<Rightarrow> channel_type_config" where
  "getChannelTypeConfig ty =
     (case type_config ty of
        Some c \<Rightarrow> c
      | None \<Rightarrow> \<lparr>cfg_id = ty, cfg_name = type_name ty, cfg_icon = ''openai'', defaultBaseUrl = None,
                  requires_org = False, requires_reg = False, hints = no_hints, key_validation = None\<rparr>)"

definition requiresOrganization :: "int \<Rightarrow> bool" where
  "requiresOrganization ty = (case type_config ty of None \<Rightarrow> False | Some c \<Rightarrow> requires_org c)"

definition requiresRegion :: "int \<Rightarrow> bool" where
  "requiresRegion ty = (case type_config ty of None \<Rightarrow> False | Some c \<Rightarrow> requires_reg c)"

definition getDefaultBaseUrl :: "int \<Rightarrow> string" where
  "getDefaultBaseUrl ty =
     (case Option.bind (type_config ty) defaultBaseUrl of None \<Rightarrow> [] | Some u \<Rightarrow> u)"

definition getChannelTypeHints :: "int \<Rightarrow> type_hints" where
  "getChannelTypeHints ty = (case type_config ty of None \<Rightarrow> no_hints | Some c \<Rightarrow> hints c)"

definition validateKeyFormat :: "int \<Rightarrow> jstr \<Rightarrow> bool" where
  "validateKeyFormat ty k =
     (case Option.bind (type_config ty) key_validation of
        None \<Rightarrow> True
      | Some (key_prefix, keyMinLength) \<Rightarrow>
          (if length k < keyMinLength then False
           else if \<not> prefix (js key_prefix) k then False else True))"

end
