(* ===== verification/ChannelForm.thy ===== *)
theory ChannelForm
  imports ChannelTypes
begin

text \<open>
  \<open>features/channels/lib/channel-form.ts\<close>: the channel form, its validation, the values it
  starts from, and the payloads that create and update a channel. A value the form takes
  unchecked from a parsed setting is a JSON value. The schema library itself is not modelled:
  the rules the source gives it are predicates, and the issues of \<open>superRefine\<close> a list.
\<close>

section \<open>JSON texts of the form\<close>

text \<open>\<open>parseOptionalJson\<close>: \<open>None\<close> when it throws, \<open>Some None\<close> for \<open>undefined\<close>.\<close>

definition parseOptionalJson :: "jstr option \<Rightarrow> jsval option option" where
  "parseOptionalJson v =
     (case v of
        None \<Rightarrow> Some None
      | Some s \<Rightarrow> if trim s = [] then Some None else map_option Some (json_parse s))"

fun isJsonObjectValue :: "jsval \<Rightarrow> bool" where
  "isJsonObjectValue (JObj _) = True"
| "isJsonObjectValue _ = False"

definition isOptionalJsonObject :: "jstr option \<Rightarrow> bool" where
  "isOptionalJsonObject v =
     (case parseOptionalJson v of
        None \<Rightarrow> False | Some None \<Rightarrow> True | Some (Some x) \<Rightarrow> isJsonObjectValue x)"

fun is_str_val :: "jsval \<Rightarrow> bool" where
  "is_str_val (JStr _) = True"
| "is_str_val _ = False"

definition isOptionalModelMapping :: "jstr option \<Rightarrow> bool" where
  "isOptionalModelMapping v =
     (case parseOptionalJson v of
        None \<Rightarrow> False
      | Some None \<Rightarrow> True
      | Some (Some (JObj ps)) \<Rightarrow> list_all is_str_val (own_values ps)
      | Some (Some _) \<Rightarrow> False)"

definition is_code_number :: "jnum \<Rightarrow> bool" where
  "is_code_number n \<longleftrightarrow> isInteger n \<and> num_le (Fin 100) n \<and> num_le n (Fin 599)"

definition isOptionalStatusCodeMapping :: "jstr option \<Rightarrow> bool" where
  "isOptionalStatusCodeMapping v =
     (case parseOptionalJson v of
        None \<Rightarrow> False
      | Some None \<Rightarrow> True
      | Some (Some (JObj ps)) \<Rightarrow>
          list_all (\<lambda>(from_code, to_code). is_code_number (to_number from_code) \<and> is_code_number (js_number to_code))
            (own_entries ps)
      | Some (Some _) \<Rightarrow> False)"

definition nonblank_str :: "jsval option \<Rightarrow> bool" where
  "nonblank_str v = (case v of Some (JStr s) \<Rightarrow> trim s \<noteq> [] | _ \<Rightarrow> False)"

definition stream_error_rule_ok :: "jsval \<Rightarrow> bool" where
  "stream_error_rule_ok item =
     (if \<not> isJsonObjectValue item then False
      else if get_prop item ''enabled'' = Some (JBool False) then True
      else nonblank_str (get_prop item ''pattern''))"

definition isOptionalStreamErrorMapping :: "jstr option \<Rightarrow> bool" where
  "isOptionalStreamErrorMapping v =
     (case parseOptionalJson v of
        None \<Rightarrow> False
      | Some None \<Rightarrow> True
      | Some (Some (JArr items)) \<Rightarrow> list_all stream_error_rule_ok items
      | Some (Some _) \<Rightarrow> False)"

definition isCodexCredential :: "jstr option \<Rightarrow> bool" where
  "isCodexCredential v =
     (case parseOptionalJson v of
        None \<Rightarrow> False
      | Some None \<Rightarrow> True
      | Some (Some x) \<Rightarrow> isJsonObjectValue x \<and> nonblank_str (get_prop x ''access_token'')
                          \<and> nonblank_str (get_prop x ''account_id''))"

definition isVertexJsonKey :: "jstr option \<Rightarrow> bool" where
  "isVertexJsonKey v =
     (case parseOptionalJson v of
        None \<Rightarrow> False
      | Some None \<Rightarrow> True
      | Some (Some (JArr items)) \<Rightarrow> list_all isJsonObjectValue items
      | Some (Some x) \<Rightarrow> isJsonObjectValue x)"

section \<open>Form values\<close>

datatype add_mode = SingleMode | BatchMode | MultiToSingle

datatype key_mode = AppendKeys | ReplaceKeys

record channel_form =
  f_name :: jstr
  f_type :: int
  f_base_url :: "jstr option"
  f_key :: jstr
  f_openai_organization :: "jstr option"
  f_models :: jstr
  f_group :: "jstr list"
  f_model_mapping :: "jstr option"
  f_priority :: "jnum option"
  f_weight :: "jnum option"
  f_test_model :: "jstr option"
  f_auto_ban :: "jnum option"
  f_status :: int
  f_status_code_mapping :: "jstr option"
  f_stream_error_mapping :: "jstr option"
  f_tag :: "jstr option"
  f_remark :: "jstr option"
  f_setting :: "jstr option"
  f_param_override :: "jstr option"
  f_header_override :: "jstr option"
  f_settings :: "jstr option"
  f_other :: "jstr option"
  f_multi_key_mode :: "add_mode option"
  f_multi_key_type :: "multi_key_strategy option"
  f_batch_add_set_key_prefix_2_name :: "bool option"
  f_key_mode :: "key_mode option"
  f_force_format :: "jsval option"
  f_thinking_to_content :: "jsval option"
  f_proxy :: "jsval option"
  f_pass_through_body_enabled :: "jsval option"
  f_system_prompt :: "jsval option"
  f_system_prompt_override :: "jsval option"
  f_is_enterprise_account :: "bool option"
  f_vertex_key_type :: "jsval option"
  f_aws_key_type :: "jsval option"
  f_azure_responses_version :: "jsval option"
  f_responses_protocol :: "jstr option"
  f_responses_reasoning_adapter :: "jstr option"
  f_allow_service_tier :: "bool option"
  f_disable_store :: "bool option"
  f_allow_safety_identifier :: "bool option"
  f_allow_include_obfuscation :: "bool option"
  f_allow_inference_geo :: "bool option"
  f_allow_speed :: "bool option"
  f_claude_beta_query :: "bool option"
  f_upstream_check_enabled :: "bool option"
  f_upstream_auto_sync_enabled :: "bool option"
  f_upstream_ignored_models :: "jstr option"

definition RESPONSES_PROTOCOLS :: "jstr list" where
  "RESPONSES_PROTOCOLS = map js [''auto'', ''native'', ''chat_completions'', ''disabled'']"

definition REASONING_ADAPTERS :: "jstr list" where
  "REASONING_ADAPTERS = map js [''default'', ''auto'', ''off'', ''openai'', ''deepseek'', ''openrouter'',
     ''qwen_enable_thinking'', ''minimax_reasoning_split'', ''low_high'']"

section \<open>Validation\<close>

fun opt_in :: "'a list \<Rightarrow> 'a option \<Rightarrow> bool" where
  "opt_in xs None = True"
| "opt_in xs (Some x) = (x \<in> set xs)"

fun opt_bool :: "jsval option \<Rightarrow> bool" where
  "opt_bool None = True"
| "opt_bool (Some (JBool _)) = True"
| "opt_bool _ = False"

fun opt_str :: "jsval option \<Rightarrow> bool" where
  "opt_str None = True"
| "opt_str (Some (JStr _)) = True"
| "opt_str _ = False"

text \<open>The rules on the single fields of \<open>channelFormSchema\<close>.\<close>

definition fields_ok :: "channel_form \<Rightarrow> bool" where
  "fields_ok f \<longleftrightarrow>
     1 \<le> length (f_name f) \<and> 0 \<le> f_type f \<and> 1 \<le> length (f_models f) \<and> 1 \<le> length (f_group f)
     \<and> isOptionalModelMapping (f_model_mapping f)
     \<and> isOptionalStatusCodeMapping (f_status_code_mapping f)
     \<and> isOptionalStreamErrorMapping (f_stream_error_mapping f)
     \<and> (case f_remark f of None \<Rightarrow> True | Some r \<Rightarrow> length r \<le> 255)
     \<and> isOptionalJsonObject (f_setting f)
     \<and> isOptionalJsonObject (f_param_override f)
     \<and> isOptionalJsonObject (f_header_override f)
     \<and> isOptionalJsonObject (f_settings f)
     \<and> opt_bool (f_force_format f) \<and> opt_bool (f_thinking_to_content f) \<and> opt_str (f_proxy f)
     \<and> opt_bool (f_pass_through_body_enabled f) \<and> opt_str (f_system_prompt f)
     \<and> opt_bool (f_system_prompt_override f)
     \<and> opt_in [JStr (js ''json''), JStr (js ''api_key'')] (f_vertex_key_type f)
     \<and> opt_in [JStr (js ''ak_sk''), JStr (js ''api_key'')] (f_aws_key_type f)
     \<and> opt_str (f_azure_responses_version f)
     \<and> opt_in RESPONSES_PROTOCOLS (f_responses_protocol f)
     \<and> opt_in REASONING_ADAPTERS (f_responses_reasoning_adapter f)"

datatype issue =
    BaseUrlRequired
  | OtherRequired
  | CodexNoBatch
  | CodexCredential
  | VertexKeyJson
  | VertexApiKeyNoBatch

definition blank :: "jstr option \<Rightarrow> bool" where
  "blank v = (case v of None \<Rightarrow> True | Some s \<Rightarrow> trim s = [])"

definition superRefine :: "channel_form \<Rightarrow> issue list" where
  "superRefine f =
     (if f_type f \<in> set [3, 8, 36, 45] \<and> blank (f_base_url f) then [BaseUrlRequired] else [])
     @ (if f_type f \<in> set [3, 18, 21, 39, 41, 49] \<and> blank (f_other f) then [OtherRequired] else [])
     @ (if f_type f = 57
        then (if f_multi_key_mode f \<noteq> None \<and> f_multi_key_mode f \<noteq> Some SingleMode then [CodexNoBatch] else [])
             @ (if trim (f_key f) \<noteq> [] \<and> \<not> isCodexCredential (Some (f_key f)) then [CodexCredential] else [])
        else [])
     @ (if f_type f = 41 \<and> f_vertex_key_type f = Some (JStr (js ''json''))
            \<and> trim (f_key f) \<noteq> [] \<and> \<not> isVertexJsonKey (Some (f_key f)) then [VertexKeyJson] else [])
     @ (if f_type f = 41 \<and> f_vertex_key_type f = Some (JStr (js ''api_key''))
            \<and> f_multi_key_mode f \<noteq> None \<and> f_multi_key_mode f \<noteq> Some SingleMode
        then [VertexApiKeyNoBatch] else [])"

definition form_valid :: "channel_form \<Rightarrow> bool" where
  "form_valid f \<longleftrightarrow> fields_ok f \<and> superRefine f = []"

section \<open>Lists in texts\<close>

definition parseModels :: "jstr \<Rightarrow> jstr list" where
  "parseModels models =
     (if models = [] then [] else filter (\<lambda>m. 0 < length m) (map trim (split_str [44] models)))"

definition parseGroups :: "jstr \<Rightarrow> jstr list" where
  "parseGroups groups =
     (if groups = [] then [] else filter (\<lambda>g. 0 < length g) (map trim (split_str [44] groups)))"

definition formatModels :: "jstr list \<Rightarrow> jstr" where
  "formatModels models = join [44] models"

definition formatGroups :: "jstr list \<Rightarrow> jstr" where
  "formatGroups groups = join [44] groups"

definition validateJSON :: "jstr \<Rightarrow> bool" where
  "validateJSON v = (if v = [] \<or> trim v = [] then True else json_parse v \<noteq> None)"

definition validateModelMapping :: "jstr \<Rightarrow> bool" where
  "validateModelMapping v = (if v = [] \<or> trim v = [] then True else validateJSON v)"

section \<open>Starting values\<close>

definition CHANNEL_FORM_DEFAULT_VALUES :: channel_form where
  "CHANNEL_FORM_DEFAULT_VALUES =
     \<lparr>f_name = [], f_type = 1, f_base_url = Some [], f_key = [], f_openai_organization = Some [],
      f_models = [], f_group = [js ''default''], f_model_mapping = Some [],
      f_priority = Some (Fin 0), f_weight = Some (Fin 0), f_test_model = Some [],
      f_auto_ban = Some (Fin 1), f_status = CHANNEL_STATUS_ENABLED, f_status_code_mapping = Some [],
      f_stream_error_mapping = Some [], f_tag = Some [], f_remark = Some [], f_setting = Some [],
      f_param_override = Some [], f_header_override = Some [], f_settings = Some (js ''{}''),
      f_other = Some [], f_multi_key_mode = Some SingleMode, f_multi_key_type = Some RandomKey,
      f_batch_add_set_key_prefix_2_name = Some False, f_key_mode = Some AppendKeys,
      f_force_format = Some (JBool False), f_thinking_to_content = Some (JBool False),
      f_proxy = Some (JStr []), f_pass_through_body_enabled = Some (JBool False),
      f_system_prompt = Some (JStr []), f_system_prompt_override = Some (JBool False),
      f_is_enterprise_account = Some False, f_vertex_key_type = Some (JStr (js ''json'')),
      f_aws_key_type = Some (JStr (js ''ak_sk'')), f_azure_responses_version = Some (JStr []),
      f_responses_protocol = Some (js ''auto''), f_responses_reasoning_adapter = Some (js ''default''),
      f_allow_service_tier = Some False, f_disable_store = Some False,
      f_allow_safety_identifier = Some False, f_allow_include_obfuscation = Some False,
      f_allow_inference_geo = Some False, f_allow_speed = Some False, f_claude_beta_query = Some False,
      f_upstream_check_enabled = Some False, f_upstream_auto_sync_enabled = Some False,
      f_upstream_ignored_models = Some []\<rparr>"

text \<open>The object a stored setting text holds, as far as the \<open>try\<close> block reads it: \<open>None\<close> when
  there is no text, when it does not parse, and when it is \<open>null\<close>, whose properties throw.\<close>

definition stored_json :: "jstr \<Rightarrow> jsval option" where
  "stored_json s =
     (if s = [] then None
      else case json_parse s of None \<Rightarrow> None | Some v \<Rightarrow> if v = JNull then None else Some v)"

text \<open>\<open>parsed.k || d\<close>, and \<open>parsed.k === true\<close>, with the value used without a parsed object.\<close>

definition stored_or :: "jsval option \<Rightarrow> string \<Rightarrow> jsval \<Rightarrow> jsval" where
  "stored_or p k d = (if truthy_opt (get_prop_opt p k) then the (get_prop_opt p k) else d)"

definition stored_true :: "jsval option \<Rightarrow> string \<Rightarrow> bool" where
  "stored_true p k = (get_prop_opt p k = Some (JBool True))"

definition stored_member :: "jsval option \<Rightarrow> string \<Rightarrow> jstr list \<Rightarrow> jstr \<Rightarrow> jstr" where
  "stored_member p k allowed d =
     (case get_prop_opt p k of Some (JStr s) \<Rightarrow> if s \<in> set allowed then s else d | _ \<Rightarrow> d)"

definition ignored_models_text :: "jsval option \<Rightarrow> jstr" where
  "ignored_models_text p =
     (case get_prop_opt p ''upstream_model_update_ignored_models'' of
        Some (JArr vs) \<Rightarrow> to_str (JArr vs) | _ \<Rightarrow> [])"

definition stream_error_text :: "jsval option \<Rightarrow> jstr" where
  "stream_error_text p =
     (case get_prop_opt p ''stream_error_mapping'' of Some (JArr vs) \<Rightarrow> pretty 0 (JArr vs) | _ \<Rightarrow> [])"

text \<open>\<open>n || 0\<close> on an optional number.\<close>

definition form_num_or_zero :: "jnum option \<Rightarrow> jnum" where
  "form_num_or_zero n = (case n of None \<Rightarrow> Fin 0 | Some x \<Rightarrow> if truthy_num x then x else Fin 0)"

definition transformChannelToFormDefaults :: "channel \<Rightarrow> channel_form" where
  "transformChannelToFormDefaults c =
     (let e = stored_json (or_else (ch_setting c) []);
          p = stored_json (ch_settings c)
      in \<lparr>f_name = ch_name c, f_type = ch_type c, f_base_url = Some (or_else (ch_base_url c) []),
          f_key = [], f_openai_organization = Some (or_else (ch_openai_organization c) []),
          f_models = ch_models c,
          f_group = parseGroups (if ch_group c = [] then js ''default'' else ch_group c),
          f_model_mapping = Some (or_else (ch_model_mapping c) []),
          f_priority = Some (form_num_or_zero (ch_priority c)), f_weight = Some (form_num_or_zero (ch_weight c)),
          f_test_model = Some (or_else (ch_test_model c) []),
          f_auto_ban = Some (case ch_auto_ban c of None \<Rightarrow> Fin 1 | Some n \<Rightarrow> n),
          f_status = ch_status c,
          f_status_code_mapping = Some (or_else (ch_status_code_mapping c) []),
          f_stream_error_mapping = Some (stream_error_text p),
          f_tag = Some (or_else (ch_tag c) []), f_remark = Some (ch_remark c),
          f_setting = Some (or_else (ch_setting c) []),
          f_param_override = Some (or_else (ch_param_override c) []),
          f_header_override = Some (or_else (ch_header_override c) []),
          f_settings = Some (if ch_settings c = [] then js ''{}'' else ch_settings c),
          f_other = Some (ch_other c), f_multi_key_mode = Some SingleMode,
          f_multi_key_type = Some (info_multi_key_mode (ch_info c)),
          f_batch_add_set_key_prefix_2_name = Some False, f_key_mode = Some AppendKeys,
          f_force_format = Some (stored_or e ''force_format'' (JBool False)),
          f_thinking_to_content = Some (stored_or e ''thinking_to_content'' (JBool False)),
          f_proxy = Some (stored_or e ''proxy'' (JStr [])),
          f_pass_through_body_enabled = Some (stored_or e ''pass_through_body_enabled'' (JBool False)),
          f_system_prompt = Some (stored_or e ''system_prompt'' (JStr [])),
          f_system_prompt_override = Some (stored_or e ''system_prompt_override'' (JBool False)),
          f_is_enterprise_account = Some (stored_true p ''openrouter_enterprise''),
          f_vertex_key_type = Some (stored_or p ''vertex_key_type'' (JStr (js ''json''))),
          f_aws_key_type = Some (stored_or p ''aws_key_type'' (JStr (js ''ak_sk''))),
          f_azure_responses_version = Some (stored_or p ''azure_responses_version'' (JStr [])),
          f_responses_protocol = Some (stored_member p ''responses_protocol'' RESPONSES_PROTOCOLS (js ''auto'')),
          f_responses_reasoning_adapter =
            Some (stored_member p ''responses_reasoning_adapter'' REASONING_ADAPTERS (js ''default'')),
          f_allow_service_tier = Some (stored_true p ''allow_service_tier''),
          f_disable_store = Some (stored_true p ''disable_store''),
          f_allow_safety_identifier = Some (stored_true p ''allow_safety_identifier''),
          f_allow_include_obfuscation = Some (stored_true p ''allow_include_obfuscation''),
          f_allow_inference_geo = Some (stored_true p ''allow_inference_geo''),
          f_allow_speed = Some (stored_true p ''allow_speed''),
          f_claude_beta_query = Some (stored_true p ''claude_beta_query''),
          f_upstream_check_enabled = Some (stored_true p ''upstream_model_update_check_enabled''),
          f_upstream_auto_sync_enabled = Some (stored_true p ''upstream_model_update_auto_sync_enabled''),
          f_upstream_ignored_models = Some (ignored_models_text p)\<rparr>)"

section \<open>Settings\<close>

type_synonym props = "(jstr \<times> jsval) list"

text \<open>\<open>v || d\<close> on an optional value.\<close>

definition val_or :: "jsval option \<Rightarrow> jsval \<Rightarrow> jsval" where
  "val_or v d = (if truthy_opt v then the v else d)"

definition setting_object :: "channel_form \<Rightarrow> props" where
  "setting_object f =
     [(js ''force_format'', val_or (f_force_format f) (JBool False)),
      (js ''thinking_to_content'', val_or (f_thinking_to_content f) (JBool False)),
      (js ''proxy'', val_or (f_proxy f) (JStr [])),
      (js ''pass_through_body_enabled'', val_or (f_pass_through_body_enabled f) (JBool False)),
      (js ''system_prompt'', val_or (f_system_prompt f) (JStr [])),
      (js ''system_prompt_override'', val_or (f_system_prompt_override f) (JBool False))]"

definition buildSettingJSON :: "channel_form \<Rightarrow> jstr" where
  "buildSettingJSON f = stringify (JObj (setting_object f))"

definition put :: "string \<Rightarrow> jsval \<Rightarrow> props \<Rightarrow> props" where
  "put k v ps = obj_put (js k) v ps"

definition del :: "string \<Rightarrow> props \<Rightarrow> props" where
  "del k ps = obj_del (js k) ps"

definition is_true :: "bool option \<Rightarrow> jsval" where
  "is_true b = JBool (b = Some True)"

text \<open>\<open>if (c) o.k = v; else if ('k' in o) delete o.k\<close>\<close>

definition put_if :: "bool \<Rightarrow> string \<Rightarrow> jsval \<Rightarrow> props \<Rightarrow> props" where
  "put_if c k v ps = (if c then put k v ps else del k ps)"

text \<open>The assignments of \<open>buildSettingsJSON\<close> on a parsed object, in the order of the source.\<close>

definition set_protocol_keys :: "channel_form \<Rightarrow> props \<Rightarrow> props" where
  "set_protocol_keys f o1 =
     (let o2 = put_if (f_type f = 41) ''vertex_key_type'' (val_or (f_vertex_key_type f) (JStr (js ''json''))) o1;
          o3 = put_if (f_type f = 3 \<and> truthy_opt (f_azure_responses_version f))
                 ''azure_responses_version'' (the (f_azure_responses_version f)) o2;
          o4 = put_if (truthy_str (f_responses_protocol f) \<and> f_responses_protocol f \<noteq> Some (js ''auto''))
                 ''responses_protocol'' (JStr (the (f_responses_protocol f))) o3;
          o5 = put_if (truthy_str (f_responses_reasoning_adapter f)
                       \<and> f_responses_reasoning_adapter f \<noteq> Some (js ''default''))
                 ''responses_reasoning_adapter'' (JStr (the (f_responses_reasoning_adapter f))) o4;
          o6 = put_if (f_type f = 20) ''openrouter_enterprise'' (is_true (f_is_enterprise_account f)) o5
      in put_if (f_type f = 33) ''aws_key_type'' (val_or (f_aws_key_type f) (JStr (js ''ak_sk''))) o6)"

text \<open>\<open>allow_inference_geo\<close> is written for type 1 in the first block and for type 14 in the
  second, which the first leaves alone.\<close>

definition set_passthrough_keys :: "channel_form \<Rightarrow> props \<Rightarrow> props" where
  "set_passthrough_keys f o1 =
     (let o2 = put_if (f_type f = 1 \<or> f_type f = 14) ''allow_service_tier'' (is_true (f_allow_service_tier f)) o1;
          o3 = put_if (f_type f = 1) ''disable_store'' (is_true (f_disable_store f)) o2;
          o4 = put_if (f_type f = 1) ''allow_safety_identifier'' (is_true (f_allow_safety_identifier f)) o3;
          o5 = put_if (f_type f = 1) ''allow_include_obfuscation'' (is_true (f_allow_include_obfuscation f)) o4;
          o6 = put_if (f_type f = 1 \<or> f_type f = 14) ''allow_inference_geo'' (is_true (f_allow_inference_geo f)) o5;
          o7 = put_if (f_type f = 14) ''allow_speed'' (is_true (f_allow_speed f)) o6
      in put_if (f_type f = 14) ''claude_beta_query'' (is_true (f_claude_beta_query f)) o7)"

definition ignored_models :: "channel_form \<Rightarrow> jstr list" where
  "ignored_models f =
     from_set (filter (\<lambda>m. m \<noteq> []) (map trim (split_str [44] (or_else (f_upstream_ignored_models f) []))))"

definition set_upstream_keys :: "channel_form \<Rightarrow> props \<Rightarrow> props" where
  "set_upstream_keys f o1 =
     (if f_type f \<in> set MODEL_FETCHABLE_TYPES
      then let check = (f_upstream_check_enabled f = Some True);
               o2 = put ''upstream_model_update_check_enabled'' (JBool check) o1;
               o3 = put ''upstream_model_update_auto_sync_enabled''
                      (JBool (check \<and> f_upstream_auto_sync_enabled f = Some True)) o2;
               o4 = put ''upstream_model_update_ignored_models'' (JArr (map JStr (ignored_models f))) o3;
               o5 = (if as_arr (map_of o4 (js ''upstream_model_update_last_detected_models'')) = None \<or> \<not> check
                     then put ''upstream_model_update_last_detected_models'' (JArr []) o4 else o4)
           in if as_num (map_of o5 (js ''upstream_model_update_last_check_time'')) = None
              then put ''upstream_model_update_last_check_time'' (JNum (Fin 0)) o5 else o5
      else o1)"

definition set_stream_error_key :: "channel_form \<Rightarrow> props \<Rightarrow> props" where
  "set_stream_error_key f o1 =
     (if \<not> blank (f_stream_error_mapping f)
      then case json_parse (the (f_stream_error_mapping f)) of
             None \<Rightarrow> o1
           | Some (JArr vs) \<Rightarrow>
               if 0 < length vs then put ''stream_error_mapping'' (JArr vs) o1
               else del ''stream_error_mapping'' o1
           | Some _ \<Rightarrow> del ''stream_error_mapping'' o1
      else del ''stream_error_mapping'' o1)"

definition settings_object :: "channel_form \<Rightarrow> props \<Rightarrow> props" where
  "settings_object f ps =
     set_stream_error_key f (set_upstream_keys f (set_passthrough_keys f (set_protocol_keys f ps)))"

text \<open>The value the builder starts from: the parsed settings, or the empty object.\<close>

definition existing_settings :: "channel_form \<Rightarrow> jsval" where
  "existing_settings f =
     (if truthy_str (f_settings f) \<and> f_settings f \<noteq> Some (js ''{}'')
      then case json_parse (the (f_settings f)) of None \<Rightarrow> JObj [] | Some v \<Rightarrow> v
      else JObj [])"

text \<open>
  \<open>buildSettingsJSON\<close>; \<open>None\<close> when it throws. On \<open>null\<close> and on a primitive the first
  assignment or \<open>in\<close> test throws; the properties set on an array are not part of its text.
\<close>

definition buildSettingsJSON :: "channel_form \<Rightarrow> jstr option" where
  "buildSettingsJSON f =
     (case existing_settings f of
        JObj ps \<Rightarrow> Some (stringify (JObj (settings_object f ps)))
      | JArr vs \<Rightarrow> Some (stringify (JArr vs))
      | _ \<Rightarrow> None)"

section \<open>Payloads\<close>

text \<open>\<open>String(v || '').trim().replace(/\/+$/, '')\<close>\<close>

definition normalizeBaseUrl :: "jstr option \<Rightarrow> jstr" where
  "normalizeBaseUrl v = rev (dropWhile (\<lambda>c. c = 47) (rev (trim (or_else v []))))"

text \<open>\<open>s || null\<close>, \<open>n || null\<close> and \<open>n ?? d\<close>\<close>

definition str_or_null :: "jstr \<Rightarrow> jsval" where
  "str_or_null s = (if s = [] then JNull else JStr s)"

definition num_or_null :: "jnum option \<Rightarrow> jsval" where
  "num_or_null n = (case n of None \<Rightarrow> JNull | Some x \<Rightarrow> if truthy_num x then JNum x else JNull)"

definition num_default :: "jnum option \<Rightarrow> jnum \<Rightarrow> jsval" where
  "num_default n d = (case n of None \<Rightarrow> JNum d | Some x \<Rightarrow> JNum x)"

text \<open>The loop that turns empty strings into \<open>null\<close>.\<close>

definition clean :: "props \<Rightarrow> props" where
  "clean ps = map (\<lambda>(k, v). (k, if v = JStr [] then JNull else v)) ps"

record create_payload =
  add_mode_of :: add_mode
  payload_multi_key_mode :: "multi_key_strategy option"
  payload_batch_prefix :: "bool option"
  payload_channel :: props

definition create_fields :: "channel_form \<Rightarrow> jstr \<Rightarrow> props" where
  "create_fields f settings =
     [(js ''name'', JStr (f_name f)),
      (js ''type'', JNum (num_of_int (f_type f))),
      (js ''base_url'', str_or_null (normalizeBaseUrl (f_base_url f))),
      (js ''key'', JStr (f_key f)),
      (js ''openai_organization'', str_or_null (or_else (f_openai_organization f) [])),
      (js ''models'', JStr (f_models f)),
      (js ''group'', JStr (formatGroups (f_group f))),
      (js ''model_mapping'', str_or_null (or_else (f_model_mapping f) [])),
      (js ''priority'', num_or_null (f_priority f)),
      (js ''weight'', num_or_null (f_weight f)),
      (js ''test_model'', str_or_null (or_else (f_test_model f) [])),
      (js ''auto_ban'', num_default (f_auto_ban f) (Fin 1)),
      (js ''status'', JNum (num_of_int (f_status f))),
      (js ''status_code_mapping'', str_or_null (or_else (f_status_code_mapping f) [])),
      (js ''tag'', str_or_null (or_else (f_tag f) [])),
      (js ''remark'', JStr (or_else (f_remark f) [])),
      (js ''setting'', JStr (buildSettingJSON f)),
      (js ''param_override'', str_or_null (or_else (f_param_override f) [])),
      (js ''header_override'', str_or_null (or_else (f_header_override f) [])),
      (js ''settings'', JStr settings),
      (js ''other'', JStr (or_else (f_other f) []))]"

definition transformFormDataToCreatePayload :: "channel_form \<Rightarrow> create_payload option" where
  "transformFormDataToCreatePayload f =
     (let mode = (case f_multi_key_mode f of None \<Rightarrow> SingleMode | Some m \<Rightarrow> m)
      in case buildSettingsJSON f of
           None \<Rightarrow> None
         | Some settings \<Rightarrow>
             Some \<lparr>add_mode_of = mode,
                   payload_multi_key_mode = (if mode = MultiToSingle then f_multi_key_type f else None),
                   payload_batch_prefix =
                     (if mode = BatchMode then f_batch_add_set_key_prefix_2_name f else None),
                   payload_channel = clean (create_fields f settings)\<rparr>)"

fun strategy_str :: "multi_key_strategy \<Rightarrow> jstr" where
  "strategy_str RandomKey = js ''random''"
| "strategy_str PollingKey = js ''polling''"
| "strategy_str StickyHashBounded = js ''sticky_hash_bounded''"

definition update_fields :: "channel_form \<Rightarrow> jnum \<Rightarrow> jstr \<Rightarrow> props" where
  "update_fields f channelId settings =
     [(js ''id'', JNum channelId),
      (js ''name'', JStr (f_name f)),
      (js ''type'', JNum (num_of_int (f_type f))),
      (js ''base_url'', str_or_null (normalizeBaseUrl (f_base_url f))),
      (js ''openai_organization'', str_or_null (or_else (f_openai_organization f) [])),
      (js ''models'', JStr (f_models f)),
      (js ''group'', JStr (formatGroups (f_group f))),
      (js ''model_mapping'', str_or_null (or_else (f_model_mapping f) [])),
      (js ''priority'', num_default (f_priority f) (Fin 0)),
      (js ''weight'', num_default (f_weight f) (Fin 0)),
      (js ''test_model'', str_or_null (or_else (f_test_model f) [])),
      (js ''auto_ban'', num_default (f_auto_ban f) (Fin 1)),
      (js ''status'', JNum (num_of_int (f_status f))),
      (js ''status_code_mapping'', str_or_null (or_else (f_status_code_mapping f) [])),
      (js ''tag'', str_or_null (or_else (f_tag f) [])),
      (js ''remark'', JStr (or_else (f_remark f) [])),
      (js ''setting'', JStr (buildSettingJSON f)),
      (js ''param_override'', str_or_null (or_else (f_param_override f) [])),
      (js ''header_override'', str_or_null (or_else (f_header_override f) [])),
      (js ''settings'', JStr settings),
      (js ''other'', JStr (or_else (f_other f) []))]"

definition explicit_strings :: "channel_form \<Rightarrow> props \<Rightarrow> props" where
  "explicit_strings f p =
     put ''header_override'' (JStr (or_else (f_header_override f) []))
      (put ''param_override'' (JStr (or_else (f_param_override f) []))
       (put ''status_code_mapping'' (JStr (or_else (f_status_code_mapping f) []))
        (put ''model_mapping'' (JStr (or_else (f_model_mapping f) []))
         (put ''remark'' (JStr (or_else (f_remark f) []))
          (put ''tag'' (JStr (or_else (f_tag f) []))
           (put ''test_model'' (JStr (or_else (f_test_model f) []))
            (put ''openai_organization'' (JStr (or_else (f_openai_organization f) []))
             (put ''base_url'' (JStr (normalizeBaseUrl (f_base_url f))) p))))))))"

definition transformFormDataToUpdatePayload :: "channel_form \<Rightarrow> jnum \<Rightarrow> bool \<Rightarrow> props option" where
  "transformFormDataToUpdatePayload f channelId isMultiKeyChannel =
     (case buildSettingsJSON f of
        None \<Rightarrow> None
      | Some settings \<Rightarrow>
          (let p1 = update_fields f channelId settings;
               p2 = (if f_key f \<noteq> [] \<and> trim (f_key f) \<noteq> [] then put ''key'' (JStr (f_key f)) p1 else p1);
               p3 = (if isMultiKeyChannel \<and> f_multi_key_type f \<noteq> None
                     then put ''multi_key_mode'' (JStr (strategy_str (the (f_multi_key_type f)))) p2 else p2)
           in Some (explicit_strings f (clean p3))))"

end
