(* ===== verification/ChannelFormProps.thy ===== *)
theory ChannelFormProps
  imports ChannelForm
begin

text \<open>
  What the channel form promises (\<open>features/channels/lib/channel-form.ts\<close>): the settings text
  keeps the keys it does not own and reads back, a valid form has payloads, and the fields the
  payloads send.
\<close>

section \<open>Settings keep what they do not own\<close>

lemma map_of_put [simp]: "map_of (put k v ps) = (map_of ps)(js k \<mapsto> v)"
  by (simp add: put_def)

lemma map_of_del [simp]: "map_of (del k ps) = (map_of ps)(js k := None)"
  by (simp add: del_def)

lemma map_of_put_if [simp]:
  "map_of (put_if c k v ps) = (map_of ps)(js k := if c then Some v else None)"
  by (auto simp: put_if_def)

definition OWNED_KEYS :: "string list" where
  "OWNED_KEYS = [''vertex_key_type'', ''azure_responses_version'', ''responses_protocol'',
     ''responses_reasoning_adapter'', ''openrouter_enterprise'', ''aws_key_type'', ''allow_service_tier'',
     ''disable_store'', ''allow_safety_identifier'', ''allow_include_obfuscation'', ''allow_inference_geo'',
     ''allow_speed'', ''claude_beta_query'', ''upstream_model_update_check_enabled'',
     ''upstream_model_update_auto_sync_enabled'', ''upstream_model_update_ignored_models'',
     ''upstream_model_update_last_detected_models'', ''upstream_model_update_last_check_time'',
     ''stream_error_mapping'']"

lemma protocol_keys_other:
  assumes "k \<notin> js ` set OWNED_KEYS"
  shows "map_of (set_protocol_keys f ps) k = map_of ps k"
  using assms by (simp add: set_protocol_keys_def Let_def OWNED_KEYS_def)

lemma passthrough_keys_other:
  assumes "k \<notin> js ` set OWNED_KEYS"
  shows "map_of (set_passthrough_keys f ps) k = map_of ps k"
  using assms by (simp add: set_passthrough_keys_def Let_def OWNED_KEYS_def)

lemma upstream_keys_other:
  assumes "k \<notin> js ` set OWNED_KEYS"
  shows "map_of (set_upstream_keys f ps) k = map_of ps k"
  using assms by (simp add: set_upstream_keys_def Let_def OWNED_KEYS_def)

lemma stream_error_key_map:
  "map_of (set_stream_error_key f ps) =
     (if \<not> blank (f_stream_error_mapping f) \<and> json_parse (the (f_stream_error_mapping f)) = None
      then map_of ps
      else (map_of ps)(js ''stream_error_mapping'' :=
        (case if blank (f_stream_error_mapping f) then None else json_parse (the (f_stream_error_mapping f)) of
           Some (JArr (v # vs)) \<Rightarrow> Some (JArr (v # vs)) | _ \<Rightarrow> None)))"
  by (auto simp: set_stream_error_key_def split: option.splits jsval.splits list.splits)

lemma stream_error_key_other:
  assumes "k \<notin> js ` set OWNED_KEYS"
  shows "map_of (set_stream_error_key f ps) k = map_of ps k"
  using assms by (simp add: stream_error_key_map OWNED_KEYS_def)

lemma settings_other:
  assumes "k \<notin> js ` set OWNED_KEYS"
  shows "map_of (settings_object f ps) k = map_of ps k"
  unfolding settings_object_def
  using assms by (simp add: stream_error_key_other upstream_keys_other passthrough_keys_other protocol_keys_other)

text \<open>The keys the later stages do not touch.\<close>

lemma stage_frames:
  "k \<noteq> ''stream_error_mapping'' \<Longrightarrow> map_of (set_stream_error_key f ps) (js k) = map_of ps (js k)"
  "k \<notin> set [''upstream_model_update_check_enabled'', ''upstream_model_update_auto_sync_enabled'',
     ''upstream_model_update_ignored_models'', ''upstream_model_update_last_detected_models'',
     ''upstream_model_update_last_check_time''] \<Longrightarrow> map_of (set_upstream_keys f ps) (js k) = map_of ps (js k)"
  "k \<notin> set [''allow_service_tier'', ''disable_store'', ''allow_safety_identifier'',
     ''allow_include_obfuscation'', ''allow_inference_geo'', ''allow_speed'', ''claude_beta_query''] \<Longrightarrow>
     map_of (set_passthrough_keys f ps) (js k) = map_of ps (js k)"
  by (simp_all add: stream_error_key_map set_upstream_keys_def set_passthrough_keys_def Let_def)

definition type_flag :: "int list \<Rightarrow> channel_form \<Rightarrow> bool option \<Rightarrow> jsval option" where
  "type_flag tys f b = (if f_type f \<in> set tys then Some (is_true b) else None)"

lemma settings_typed:
  "map_of (settings_object f ps) (js ''vertex_key_type'') =
     (if f_type f = 41 then Some (val_or (f_vertex_key_type f) (JStr (js ''json''))) else None)"
  "map_of (settings_object f ps) (js ''azure_responses_version'') =
     (if f_type f = 3 \<and> truthy_opt (f_azure_responses_version f) then Some (the (f_azure_responses_version f)) else None)"
  "map_of (settings_object f ps) (js ''openrouter_enterprise'') = type_flag [20] f (f_is_enterprise_account f)"
  "map_of (settings_object f ps) (js ''aws_key_type'') =
     (if f_type f = 33 then Some (val_or (f_aws_key_type f) (JStr (js ''ak_sk''))) else None)"
  "map_of (settings_object f ps) (js ''responses_protocol'') =
     (if truthy_str (f_responses_protocol f) \<and> f_responses_protocol f \<noteq> Some (js ''auto'')
      then Some (JStr (the (f_responses_protocol f))) else None)"
  "map_of (settings_object f ps) (js ''responses_reasoning_adapter'') =
     (if truthy_str (f_responses_reasoning_adapter f) \<and> f_responses_reasoning_adapter f \<noteq> Some (js ''default'')
      then Some (JStr (the (f_responses_reasoning_adapter f))) else None)"
  by (simp_all add: settings_object_def stage_frames type_flag_def set_protocol_keys_def)

lemma settings_flags:
  "map_of (settings_object f ps) (js ''allow_service_tier'') = type_flag [1, 14] f (f_allow_service_tier f)"
  "map_of (settings_object f ps) (js ''disable_store'') = type_flag [1] f (f_disable_store f)"
  "map_of (settings_object f ps) (js ''allow_safety_identifier'') = type_flag [1] f (f_allow_safety_identifier f)"
  "map_of (settings_object f ps) (js ''allow_include_obfuscation'') = type_flag [1] f (f_allow_include_obfuscation f)"
  "map_of (settings_object f ps) (js ''allow_inference_geo'') = type_flag [1, 14] f (f_allow_inference_geo f)"
  "map_of (settings_object f ps) (js ''allow_speed'') = type_flag [14] f (f_allow_speed f)"
  "map_of (settings_object f ps) (js ''claude_beta_query'') = type_flag [14] f (f_claude_beta_query f)"
  by (simp_all add: settings_object_def stage_frames type_flag_def set_passthrough_keys_def Let_def)

lemma settings_upstream:
  assumes "f_type f \<in> set MODEL_FETCHABLE_TYPES"
  shows "map_of (settings_object f ps) (js ''upstream_model_update_check_enabled'') =
      Some (JBool (f_upstream_check_enabled f = Some True))"
    "map_of (settings_object f ps) (js ''upstream_model_update_auto_sync_enabled'') =
      Some (JBool (f_upstream_check_enabled f = Some True \<and> f_upstream_auto_sync_enabled f = Some True))"
    "map_of (settings_object f ps) (js ''upstream_model_update_ignored_models'') =
      Some (JArr (map JStr (ignored_models f)))"
  using assms by (simp_all add: settings_object_def stage_frames set_upstream_keys_def Let_def)

section \<open>Well-formedness\<close>

lemma array_index_js: "s \<noteq> [] \<Longrightarrow> \<not> is_digit (of_char (hd s)) \<Longrightarrow> array_index (js s) = None"
  by (cases s) (auto simp: array_index_def js_Cons)

lemma own_entries_split:
  "own_entries ps = ps \<longleftrightarrow>
     (\<exists>a b. ps = a @ b \<and> (\<forall>p\<in>set a. array_index (fst p) \<noteq> None) \<and> (\<forall>p\<in>set b. array_index (fst p) = None)
        \<and> sort_key (\<lambda>(k, _). the (array_index k)) a = a)"
proof
  assume *: "own_entries ps = ps"
  let ?a = "filter (\<lambda>(k, _). array_index k \<noteq> None) ps"
  let ?b = "filter (\<lambda>(k, _). array_index k = None) ps"
  let ?s = "sort_key (\<lambda>(k, _). the (array_index k)) ?a"
  have "ps = ?s @ ?b" using * by (simp add: own_entries_def)
  moreover have "\<forall>p\<in>set ?s. array_index (fst p) \<noteq> None" "\<forall>p\<in>set ?b. array_index (fst p) = None" by auto
  ultimately show "\<exists>a b. ps = a @ b \<and> (\<forall>p\<in>set a. array_index (fst p) \<noteq> None) \<and> (\<forall>p\<in>set b. array_index (fst p) = None)
        \<and> sort_key (\<lambda>(k, _). the (array_index k)) a = a"
    by (metis sort_key_id_if_sorted sorted_sort_key)
next
  assume "\<exists>a b. ps = a @ b \<and> (\<forall>p\<in>set a. array_index (fst p) \<noteq> None) \<and> (\<forall>p\<in>set b. array_index (fst p) = None)
        \<and> sort_key (\<lambda>(k, _). the (array_index k)) a = a"
  then obtain a b where ab: "ps = a @ b" "\<forall>p\<in>set a. array_index (fst p) \<noteq> None" "\<forall>p\<in>set b. array_index (fst p) = None"
    "sort_key (\<lambda>(k, _). the (array_index k)) a = a" by blast
  then have "filter (\<lambda>(k, _). array_index k \<noteq> None) ps = a" "filter (\<lambda>(k, _). array_index k = None) ps = b"
    by (auto simp: filter_id_conv filter_empty_conv case_prod_unfold)
  with ab show "own_entries ps = ps" by (simp add: own_entries_def)
qed

lemma obj_put_append: "k \<notin> fst ` set a \<Longrightarrow> obj_put k v (a @ b) = a @ obj_put k v b"
  by (induction a) auto

lemma own_entries_put:
  assumes "own_entries ps = ps" "array_index k = None"
  shows "own_entries (obj_put k v ps) = obj_put k v ps"
proof -
  obtain a b where ab: "ps = a @ b" "\<forall>p\<in>set a. array_index (fst p) \<noteq> None" "\<forall>p\<in>set b. array_index (fst p) = None"
    "sort_key (\<lambda>(k, _). the (array_index k)) a = a"
    using assms(1) unfolding own_entries_split by blast
  then have "k \<notin> fst ` set a" using assms(2) by auto
  then have "obj_put k v ps = a @ obj_put k v b" by (simp add: ab(1) obj_put_append)
  moreover have "\<forall>p\<in>set (obj_put k v b). array_index (fst p) = None"
    using ab(3) assms(2) fst_obj_put [of k v b] by (metis (no_types, lifting) imageE imageI insert_iff)
  ultimately show ?thesis unfolding own_entries_split using ab by blast
qed

lemma own_entries_del: "own_entries ps = ps \<Longrightarrow> own_entries (obj_del k ps) = obj_del k ps"
proof -
  assume "own_entries ps = ps"
  then obtain a b where ab: "ps = a @ b" "\<forall>p\<in>set a. array_index (fst p) \<noteq> None" "\<forall>p\<in>set b. array_index (fst p) = None"
    "sort_key (\<lambda>(k, _). the (array_index k)) a = a" unfolding own_entries_split by blast
  have "obj_del k ps = obj_del k a @ obj_del k b" by (simp add: ab(1) obj_del_def)
  moreover have "sort_key (\<lambda>(k, _). the (array_index k)) (obj_del k a) = obj_del k a"
    unfolding obj_del_def by (metis ab(4) filter_sort)
  moreover have "\<forall>p\<in>set (obj_del k a). array_index (fst p) \<noteq> None" "\<forall>p\<in>set (obj_del k b). array_index (fst p) = None"
    using ab(2,3) by (auto simp: obj_del_def)
  ultimately show ?thesis unfolding own_entries_split by blast
qed

lemma json_wf_put:
  assumes "json_wf (JObj ps)" "json_wf v" "k \<noteq> []" "\<not> is_digit (of_char (hd k))" "units_ok (js k)"
  shows "json_wf (JObj (put k v ps))"
  using assms own_entries_put [OF _ array_index_js [OF assms(3,4)], of ps v]
  by (auto simp: put_def dest!: subsetD [OF set_obj_put_subset])

lemma json_wf_del: "json_wf (JObj ps) \<Longrightarrow> json_wf (JObj (del k ps))"
  using own_entries_del [of ps "js k"] by (auto simp: del_def) (auto simp: obj_del_def)

definition wf_opt :: "jsval option \<Rightarrow> bool" where
  "wf_opt v = (case v of None \<Rightarrow> True | Some x \<Rightarrow> json_wf x)"

definition units_opt :: "jstr option \<Rightarrow> bool" where
  "units_opt s = (case s of None \<Rightarrow> True | Some x \<Rightarrow> units_ok x)"

text \<open>The values of a form that end up in the settings text are ones a program can hold, with
  integers for numbers.\<close>

definition form_json_wf :: "channel_form \<Rightarrow> bool" where
  "form_json_wf f \<longleftrightarrow> wf_opt (f_vertex_key_type f) \<and> wf_opt (f_azure_responses_version f)
     \<and> wf_opt (f_aws_key_type f) \<and> units_opt (f_responses_protocol f)
     \<and> units_opt (f_responses_reasoning_adapter f) \<and> units_opt (f_upstream_ignored_models f)
     \<and> wf_opt (json_parse (or_else (f_stream_error_mapping f) []))"

lemma json_wf_val_or: "wf_opt v \<Longrightarrow> json_wf d \<Longrightarrow> json_wf (val_or v d)"
  by (auto simp: val_or_def truthy_opt_def wf_opt_def split: option.splits)

lemma json_wf_put_if:
  assumes "json_wf (JObj ps)" "c \<Longrightarrow> json_wf v" "k \<noteq> []" "\<not> is_digit (of_char (hd k))" "units_ok (js k)"
  shows "json_wf (JObj (put_if c k v ps))"
  using assms json_wf_put [of ps v k] json_wf_del [of ps k] by (simp add: put_if_def del: json_wf.simps)

lemma json_wf_the: "wf_opt v \<Longrightarrow> truthy_opt v \<Longrightarrow> json_wf (the v)"
  by (auto simp: wf_opt_def truthy_opt_def split: option.splits)

lemma units_the: "units_opt s \<Longrightarrow> truthy_str s \<Longrightarrow> units_ok (the s)"
  by (auto simp: units_opt_def split: option.splits)

lemma json_wf_is_true [simp]: "json_wf (is_true b)"
  by (simp add: is_true_def)

lemmas wf_stage = json_wf_put_if json_wf_put json_wf_del json_wf_val_or json_wf_the

lemma wf_protocol_keys:
  assumes "json_wf (JObj ps)" "form_json_wf f"
  shows "json_wf (JObj (set_protocol_keys f ps))"
  using assms unfolding set_protocol_keys_def Let_def form_json_wf_def
  by (intro wf_stage) (auto simp: is_digit_def units_ok_js units_the simp del: json_wf.simps(6) intro: json_wf_the)

lemma wf_passthrough_keys:
  assumes "json_wf (JObj ps)"
  shows "json_wf (JObj (set_passthrough_keys f ps))"
  using assms unfolding set_passthrough_keys_def Let_def
  by (intro wf_stage) (auto simp: is_digit_def units_ok_js simp del: json_wf.simps(6))

lemma units_ok_subset: "units_ok s \<Longrightarrow> set t \<subseteq> set s \<Longrightarrow> units_ok t"
  by (auto simp: units_ok_def list_all_iff)

lemma units_ignored: "units_opt (f_upstream_ignored_models f) \<Longrightarrow> m \<in> set (ignored_models f) \<Longrightarrow> units_ok m"
proof -
  assume u: "units_opt (f_upstream_ignored_models f)" and m: "m \<in> set (ignored_models f)"
  let ?t = "or_else (f_upstream_ignored_models f) []"
  obtain p where p: "p \<in> set (split_str [44] ?t)" "m = trim p" using m by (auto simp: ignored_models_def)
  have "set p \<subseteq> set ?t" using set_split_char [of 44 ?t] p(1) by blast
  then have "set m \<subseteq> set ?t" using set_trim_subset p(2) by blast
  moreover have "units_ok ?t" using u by (auto simp: units_opt_def split: option.splits)
  ultimately show ?thesis by (rule units_ok_subset [rotated])
qed

lemma wf_upstream_keys:
  assumes "json_wf (JObj ps)" "units_opt (f_upstream_ignored_models f)"
  shows "json_wf (JObj (set_upstream_keys f ps))"
proof -
  let ?o4 = "\<lambda>b c. put ''upstream_model_update_ignored_models'' (JArr (map JStr (ignored_models f)))
    (put ''upstream_model_update_auto_sync_enabled'' (JBool b)
      (put ''upstream_model_update_check_enabled'' (JBool c) ps))"
  have 4: "json_wf (JObj (?o4 b c))" for b c
    using assms units_ignored [OF assms(2)]
    by (intro json_wf_put) (auto simp: is_digit_def units_ok_js simp del: json_wf.simps(6))
  have 5: "json_wf (JObj (put ''upstream_model_update_last_detected_models'' (JArr []) (?o4 b c)))" for b c
    by (rule json_wf_put [OF 4]) (auto simp: is_digit_def units_ok_js simp del: json_wf.simps(6))
  have 6: "json_wf (JObj (put ''upstream_model_update_last_check_time'' (JNum (Fin 0)) o5))" if "json_wf (JObj o5)" for o5
    using that by (intro json_wf_put) (auto simp: is_digit_def units_ok_js num_ok_def simp del: json_wf.simps(6))
  show ?thesis
    unfolding set_upstream_keys_def Let_def
    using 4 5 6 [OF 4] 6 [OF 5] assms(1) by (simp del: json_wf.simps(6))
qed

lemma wf_stream_error_key:
  assumes "json_wf (JObj ps)" "wf_opt (json_parse (or_else (f_stream_error_mapping f) []))"
  shows "json_wf (JObj (set_stream_error_key f ps))"
proof -
  have "json_wf (JArr vs)" if "json_parse (the (f_stream_error_mapping f)) = Some (JArr vs)" "\<not> blank (f_stream_error_mapping f)" for vs
    using that assms(2) by (cases "f_stream_error_mapping f") (auto simp: wf_opt_def blank_def split: if_splits)
  moreover have "json_wf (JObj (put ''stream_error_mapping'' v ps))" if "json_wf v" for v
    using assms(1) that by (intro json_wf_put) (auto simp: is_digit_def units_ok_js simp del: json_wf.simps(6))
  ultimately show ?thesis
    using assms(1) by (auto simp: set_stream_error_key_def json_wf_del simp del: json_wf.simps(5,6) split: option.splits jsval.splits)
qed

lemma wf_settings:
  "json_wf (JObj ps) \<Longrightarrow> form_json_wf f \<Longrightarrow> json_wf (JObj (settings_object f ps))"
  unfolding settings_object_def
  by (intro wf_stream_error_key wf_upstream_keys wf_passthrough_keys wf_protocol_keys)
    (auto simp: form_json_wf_def)

lemma settings_text:
  assumes "existing_settings f = JObj ps" "json_wf (JObj ps)" "form_json_wf f"
  shows "\<exists>t. buildSettingsJSON f = Some t \<and> t \<noteq> [] \<and> json_parse t = Some (JObj (settings_object f ps))"
  using assms json_parse_stringify [OF wf_settings [OF assms(2,3)]]
  by (simp add: buildSettingsJSON_def)

text \<open>The keys of a channel type and what a form puts under them, \<open>None\<close> where it leaves none.\<close>

definition typed_settings :: "channel_form \<Rightarrow> (string \<times> jsval option) list" where
  "typed_settings f =
     [(''vertex_key_type'',
        if f_type f = 41 then Some (val_or (f_vertex_key_type f) (JStr (js ''json''))) else None),
      (''azure_responses_version'',
        if f_type f = 3 \<and> truthy_opt (f_azure_responses_version f) then f_azure_responses_version f else None),
      (''openrouter_enterprise'', type_flag [20] f (f_is_enterprise_account f)),
      (''aws_key_type'',
        if f_type f = 33 then Some (val_or (f_aws_key_type f) (JStr (js ''ak_sk''))) else None),
      (''allow_service_tier'', type_flag [1, 14] f (f_allow_service_tier f)),
      (''disable_store'', type_flag [1] f (f_disable_store f)),
      (''allow_safety_identifier'', type_flag [1] f (f_allow_safety_identifier f)),
      (''allow_include_obfuscation'', type_flag [1] f (f_allow_include_obfuscation f)),
      (''allow_inference_geo'', type_flag [1, 14] f (f_allow_inference_geo f)),
      (''allow_speed'', type_flag [14] f (f_allow_speed f)),
      (''claude_beta_query'', type_flag [14] f (f_claude_beta_query f)),
      (''responses_protocol'',
        if truthy_str (f_responses_protocol f) \<and> f_responses_protocol f \<noteq> Some (js ''auto'')
        then map_option JStr (f_responses_protocol f) else None),
      (''responses_reasoning_adapter'',
        if truthy_str (f_responses_reasoning_adapter f) \<and> f_responses_reasoning_adapter f \<noteq> Some (js ''default'')
        then map_option JStr (f_responses_reasoning_adapter f) else None)]"

lemma truthy_str_value: "truthy_str t \<Longrightarrow> Some (JStr (the t)) = map_option JStr t"
  by (cases t) simp_all

lemma settings_stream_errors:
  "map_of (settings_object f ps) (js ''stream_error_mapping'') =
     (if blank (f_stream_error_mapping f) then None
      else case json_parse (the (f_stream_error_mapping f)) of
             None \<Rightarrow> map_of ps (js ''stream_error_mapping'')
           | Some (JArr (v # vs)) \<Rightarrow> Some (JArr (v # vs))
           | Some _ \<Rightarrow> None)"
  by (auto simp: settings_object_def stream_error_key_map stage_frames set_protocol_keys_def
      split: option.splits jsval.splits list.splits)

lemma typed_settings_written: "(k, v) \<in> set (typed_settings f) \<Longrightarrow> map_of (settings_object f ps) (js k) = v"
  unfolding typed_settings_def
  by (elim set_ConsD [elim_format] disjE) (auto simp: settings_typed settings_flags truthy_opt_def truthy_str_value split: option.splits)

text \<open>C9 Saving a channel whose stored settings are an object never loses a setting the form does
  not own: the settings text it writes parses to an object that has every other key of the stored
  settings with its value. The thirteen keys of channel types and protocols are exactly what the
  form holds, whatever was stored: the kind of key for the types 41 and 33, the version of the
  responses interface for type 3 if one is given, the enterprise flag for type 20, the switches of
  the types 1 and 14, each as true or false for its types only, and the protocol and reasoning
  adapter unless they are the defaults. The mapping of stream errors is the form's list if it has
  one that is not empty, is gone otherwise, and stays as stored if the text of the form cannot be
  read. For the types whose models can be fetched the check, the
  automatic sync, which needs the check, and the ignored models are the form's too.\<close>

theorem settings_preserved:
  assumes "existing_settings f = JObj ps" "json_wf (JObj ps)" "form_json_wf f"
  shows "\<exists>t o'. buildSettingsJSON f = Some t \<and> json_parse t = Some (JObj o')
    \<and> (\<forall>k. k \<notin> js ` set OWNED_KEYS \<longrightarrow> map_of o' k = map_of ps k)
    \<and> (\<forall>(k, v)\<in>set (typed_settings f). map_of o' (js k) = v)
    \<and> map_of o' (js ''stream_error_mapping'') =
        (if blank (f_stream_error_mapping f) then None
         else case json_parse (the (f_stream_error_mapping f)) of
                None \<Rightarrow> map_of ps (js ''stream_error_mapping'')
              | Some (JArr (v # vs)) \<Rightarrow> Some (JArr (v # vs))
              | Some _ \<Rightarrow> None)
    \<and> (f_type f \<in> set MODEL_FETCHABLE_TYPES \<longrightarrow>
        map_of o' (js ''upstream_model_update_check_enabled'') = Some (is_true (f_upstream_check_enabled f))
        \<and> map_of o' (js ''upstream_model_update_auto_sync_enabled'') =
            Some (JBool (f_upstream_check_enabled f = Some True \<and> f_upstream_auto_sync_enabled f = Some True))
        \<and> map_of o' (js ''upstream_model_update_ignored_models'') = Some (JArr (map JStr (ignored_models f))))"
proof -
  obtain t where t: "buildSettingsJSON f = Some t" "json_parse t = Some (JObj (settings_object f ps))"
    using settings_text [OF assms] by blast
  have "\<forall>(k, v)\<in>set (typed_settings f). map_of (settings_object f ps) (js k) = v"
    using typed_settings_written by blast
  with t show ?thesis
    by (intro exI [of _ t] exI [of _ "settings_object f ps"])
      (simp add: settings_other settings_upstream settings_stream_errors is_true_def)
qed

lemma settings_preserved_witness:
  "\<exists>t o'. buildSettingsJSON (CHANNEL_FORM_DEFAULT_VALUES\<lparr>f_settings := Some (js ''{\"mine\":7,\"aws_key_type\":null}'')\<rparr>) = Some t
    \<and> json_parse t = Some (JObj o') \<and> map_of o' (js ''mine'') = Some (JNum (Fin 7))
    \<and> map_of o' (js ''aws_key_type'') = None"
proof -
  let ?f = "CHANNEL_FORM_DEFAULT_VALUES\<lparr>f_settings := Some (js ''{\"mine\":7,\"aws_key_type\":null}'')\<rparr>"
  let ?ps = "[(js ''mine'', JNum (Fin 7)), (js ''aws_key_type'', JNull)]"
  have "json_parse (js ''{\"mine\":7,\"aws_key_type\":null}'') = Some (JObj ?ps)" by code_simp
  then have 1: "existing_settings ?f = JObj ?ps"
    by (simp add: existing_settings_def)
  have 2: "json_wf (JObj ?ps)"
    by (simp add: own_entries_def array_index_js is_digit_def units_ok_js num_ok_def)
  have "json_parse [] = None" by code_simp
  then have 3: "form_json_wf ?f"
    by (simp add: form_json_wf_def wf_opt_def units_opt_def CHANNEL_FORM_DEFAULT_VALUES_def units_ok_js)
  have o: "js ''mine'' \<notin> js ` set OWNED_KEYS" by (simp add: OWNED_KEYS_def)
  have k: "(''aws_key_type'', None) \<in> set (typed_settings ?f)"
    by (simp add: typed_settings_def CHANNEL_FORM_DEFAULT_VALUES_def)
  obtain t o' where t: "buildSettingsJSON ?f = Some t" "json_parse t = Some (JObj o')"
    "\<forall>k. k \<notin> js ` set OWNED_KEYS \<longrightarrow> map_of o' k = map_of ?ps k"
    "\<forall>(k, v)\<in>set (typed_settings ?f). map_of o' (js k) = v"
    using settings_preserved [OF 1 2 3] by blast
  have "map_of o' (js ''mine'') = Some (JNum (Fin 7))" using t(3) o by simp
  moreover have "map_of o' (js ''aws_key_type'') = None" using bspec [OF t(4) k] by simp
  ultimately show ?thesis using t(1,2) by blast
qed

text \<open>The values the form of an edited channel starts from.\<close>

lemma stored_json_text:
  "t \<noteq> [] \<Longrightarrow> json_parse t = Some (JObj o') \<Longrightarrow> stored_json t = Some (JObj o')"
  by (simp add: stored_json_def)

lemma stored_true_flag:
  "map_of o' (js k) = type_flag tys f b \<Longrightarrow> stored_true (Some (JObj o')) k = (f_type f \<in> set tys \<and> b = Some True)"
  by (auto simp: stored_true_def get_prop_opt_def type_flag_def is_true_def)

text \<open>What a form saves, the form of the saved channel shows again: the switches of the
  channel's own type, the protocol and the reasoning adapter come back as they were, switches of
  other types come back off, and an automatic sync comes back only with the check it needs.\<close>

theorem settings_roundtrip:
  assumes "existing_settings f = JObj ps" "json_wf (JObj ps)" "form_json_wf f"
    and "f_responses_protocol f = Some proto" "proto \<in> set RESPONSES_PROTOCOLS"
    and "f_responses_reasoning_adapter f = Some adapter" "adapter \<in> set REASONING_ADAPTERS"
    and "buildSettingsJSON f = Some t" "ch_settings c = t"
  shows "let g = transformChannelToFormDefaults c in
    f_allow_service_tier g = Some (f_type f \<in> {1, 14} \<and> f_allow_service_tier f = Some True)
    \<and> f_disable_store g = Some (f_type f = 1 \<and> f_disable_store f = Some True)
    \<and> f_allow_safety_identifier g = Some (f_type f = 1 \<and> f_allow_safety_identifier f = Some True)
    \<and> f_allow_include_obfuscation g = Some (f_type f = 1 \<and> f_allow_include_obfuscation f = Some True)
    \<and> f_allow_inference_geo g = Some (f_type f \<in> {1, 14} \<and> f_allow_inference_geo f = Some True)
    \<and> f_allow_speed g = Some (f_type f = 14 \<and> f_allow_speed f = Some True)
    \<and> f_claude_beta_query g = Some (f_type f = 14 \<and> f_claude_beta_query f = Some True)
    \<and> f_is_enterprise_account g = Some (f_type f = 20 \<and> f_is_enterprise_account f = Some True)
    \<and> f_responses_protocol g = Some proto
    \<and> f_responses_reasoning_adapter g = Some adapter
    \<and> (f_type f \<in> set MODEL_FETCHABLE_TYPES \<longrightarrow>
        f_upstream_check_enabled g = Some (f_upstream_check_enabled f = Some True)
        \<and> f_upstream_auto_sync_enabled g =
            Some (f_upstream_check_enabled f = Some True \<and> f_upstream_auto_sync_enabled f = Some True))"
proof -
  have p: "stored_json t = Some (JObj (settings_object f ps))"
    using settings_text [OF assms(1-3)] assms(8) stored_json_text by auto
  have proto: "stored_member (Some (JObj (settings_object f ps))) ''responses_protocol'' RESPONSES_PROTOCOLS (js ''auto'') = proto"
    using assms(4,5) by (auto simp: stored_member_def get_prop_opt_def settings_typed RESPONSES_PROTOCOLS_def)
  have adapter: "stored_member (Some (JObj (settings_object f ps))) ''responses_reasoning_adapter'' REASONING_ADAPTERS (js ''default'') = adapter"
    using assms(6,7) by (auto simp: stored_member_def get_prop_opt_def settings_typed REASONING_ADAPTERS_def)
  note flags = stored_true_flag [OF settings_flags(1)] stored_true_flag [OF settings_flags(2)]
    stored_true_flag [OF settings_flags(3)] stored_true_flag [OF settings_flags(4)]
    stored_true_flag [OF settings_flags(5)] stored_true_flag [OF settings_flags(6)]
    stored_true_flag [OF settings_flags(7)] stored_true_flag [OF settings_typed(3)]
  have up: "f_type f \<in> set MODEL_FETCHABLE_TYPES \<longrightarrow>
      stored_true (Some (JObj (settings_object f ps))) ''upstream_model_update_check_enabled'' =
        (f_upstream_check_enabled f = Some True)
      \<and> stored_true (Some (JObj (settings_object f ps))) ''upstream_model_update_auto_sync_enabled'' =
        (f_upstream_check_enabled f = Some True \<and> f_upstream_auto_sync_enabled f = Some True)"
    using settings_upstream [of f ps] by (simp add: stored_true_def get_prop_opt_def)
  show ?thesis
    using up by (simp add: transformChannelToFormDefaults_def Let_def assms(9) p proto adapter flags)
qed

lemma settings_roundtrip_witness:
  "\<exists>(c :: channel) f g. f_type f = 14 \<and> f_disable_store f = Some True \<and> f_allow_speed f = Some True
    \<and> g = transformChannelToFormDefaults (c\<lparr>ch_settings := the (buildSettingsJSON f)\<rparr>)
    \<and> f_allow_speed g = Some True \<and> f_disable_store g = Some False \<and> f_responses_protocol g = Some (js ''auto'')"
proof -
  fix c :: channel
  let ?f = "CHANNEL_FORM_DEFAULT_VALUES\<lparr>f_type := 14, f_allow_speed := Some True, f_disable_store := Some True\<rparr>"
  obtain f where f: "f = ?f" by blast
  have 1: "existing_settings f = JObj []" by (simp add: f existing_settings_def CHANNEL_FORM_DEFAULT_VALUES_def)
  have 2: "json_wf (JObj [])" by (simp add: own_entries_def)
  have "json_parse [] = None" by code_simp
  then have 3: "form_json_wf f"
    by (simp add: f form_json_wf_def wf_opt_def units_opt_def CHANNEL_FORM_DEFAULT_VALUES_def units_ok_js)
  obtain t where t: "buildSettingsJSON f = Some t" using settings_text [OF 1 2 3] by blast
  have p: "f_responses_protocol f = Some (js ''auto'')" "js ''auto'' \<in> set RESPONSES_PROTOCOLS"
    "f_responses_reasoning_adapter f = Some (js ''default'')" "js ''default'' \<in> set REASONING_ADAPTERS"
    by (simp_all add: f CHANNEL_FORM_DEFAULT_VALUES_def RESPONSES_PROTOCOLS_def REASONING_ADAPTERS_def)
  have v: "f_type f = 14" "f_disable_store f = Some True" "f_allow_speed f = Some True" by (simp_all add: f)
  have c: "ch_settings (c\<lparr>ch_settings := the (buildSettingsJSON f)\<rparr>) = t" by (simp add: t)
  obtain g where g: "g = transformChannelToFormDefaults (c\<lparr>ch_settings := the (buildSettingsJSON f)\<rparr>)" by blast
  note r = settings_roundtrip [OF 1 2 3 p t c, unfolded Let_def, folded g]
  note r2 = r [THEN conjunct2]
  note r6 = r2 [THEN conjunct2, THEN conjunct2, THEN conjunct2, THEN conjunct2]
  have "f_allow_speed g = Some True"
    using r6 [THEN conjunct1] by (simp only: v simp_thms)
  moreover have "f_disable_store g = Some False"
    using r2 [THEN conjunct1] unfolding v by simp
  moreover have "f_responses_protocol g = Some (js ''auto'')"
    by (rule r6 [THEN conjunct2, THEN conjunct2, THEN conjunct2, THEN conjunct1])
  ultimately have "f_type f = 14 \<and> f_disable_store f = Some True \<and> f_allow_speed f = Some True
    \<and> g = transformChannelToFormDefaults (c\<lparr>ch_settings := the (buildSettingsJSON f)\<rparr>)
    \<and> f_allow_speed g = Some True \<and> f_disable_store g = Some False \<and> f_responses_protocol g = Some (js ''auto'')"
    using v g by (intro conjI)
  then show ?thesis by - (rule exI, rule exI, rule exI, assumption)
qed

section \<open>Payloads\<close>

lemma map_of_clean: "map_of (clean ps) k = map_option (\<lambda>v. if v = JStr [] then JNull else v) (map_of ps k)"
  by (simp add: clean_def map_of_map)

lemma clean_no_empty: "map_of (clean ps) k \<noteq> Some (JStr [])"
  by (auto simp: map_of_clean split: if_splits)

definition EXPLICIT_KEYS :: "string list" where
  "EXPLICIT_KEYS = [''base_url'', ''openai_organization'', ''test_model'', ''tag'', ''remark'',
     ''model_mapping'', ''status_code_mapping'', ''param_override'', ''header_override'']"

lemma explicit_strings_other: "k \<notin> js ` set EXPLICIT_KEYS \<Longrightarrow> map_of (explicit_strings f p) k = map_of p k"
  by (simp add: explicit_strings_def EXPLICIT_KEYS_def)

lemma update_fields_keys:
  "map_of (update_fields f cid s) (js ''key'') = None"
  "map_of (update_fields f cid s) (js ''multi_key_mode'') = None"
  "map_of (update_fields f cid s) (js ''id'') = Some (JNum cid)"
  by (simp_all add: update_fields_def)

text \<open>An update sends a key only when the form has one that is not blank, so an update never
  wipes the stored key; the nine nullable texts are always sent as texts, empty ones included,
  so that the server clears them; no other field is an empty text; and the strategy of a
  multi-key channel is sent for such channels only.\<close>

theorem update_payload_spec:
  assumes "transformFormDataToUpdatePayload f cid multi = Some p"
  shows "map_of p (js ''key'') = (if trim (f_key f) = [] then None else Some (JStr (f_key f)))
    \<and> map_of p (js ''id'') = Some (JNum cid)
    \<and> map_of p (js ''base_url'') = Some (JStr (normalizeBaseUrl (f_base_url f)))
    \<and> map_of p (js ''openai_organization'') = Some (JStr (or_else (f_openai_organization f) []))
    \<and> map_of p (js ''test_model'') = Some (JStr (or_else (f_test_model f) []))
    \<and> map_of p (js ''tag'') = Some (JStr (or_else (f_tag f) []))
    \<and> map_of p (js ''remark'') = Some (JStr (or_else (f_remark f) []))
    \<and> map_of p (js ''model_mapping'') = Some (JStr (or_else (f_model_mapping f) []))
    \<and> map_of p (js ''status_code_mapping'') = Some (JStr (or_else (f_status_code_mapping f) []))
    \<and> map_of p (js ''param_override'') = Some (JStr (or_else (f_param_override f) []))
    \<and> map_of p (js ''header_override'') = Some (JStr (or_else (f_header_override f) []))
    \<and> (map_of p (js ''multi_key_mode'') \<noteq> None \<longleftrightarrow> multi \<and> f_multi_key_type f \<noteq> None)
    \<and> (\<forall>k. k \<notin> js ` set EXPLICIT_KEYS \<longrightarrow> map_of p k \<noteq> Some (JStr []))"
proof -
  obtain s where s: "buildSettingsJSON f = Some s"
    using assms by (auto simp: transformFormDataToUpdatePayload_def split: option.splits)
  let ?p1 = "update_fields f cid s"
  let ?p2 = "if f_key f \<noteq> [] \<and> trim (f_key f) \<noteq> [] then put ''key'' (JStr (f_key f)) ?p1 else ?p1"
  let ?p3 = "if multi \<and> f_multi_key_type f \<noteq> None
             then put ''multi_key_mode'' (JStr (strategy_str (the (f_multi_key_type f)))) ?p2 else ?p2"
  have p: "p = explicit_strings f (clean ?p3)"
    using assms s by (simp add: transformFormDataToUpdatePayload_def Let_def)
  have other: "map_of p k = map_option (\<lambda>v. if v = JStr [] then JNull else v) (map_of ?p3 k)"
    if "k \<notin> js ` set EXPLICIT_KEYS" for k
    unfolding p explicit_strings_other [OF that] map_of_clean ..
  have keys: "js ''key'' \<notin> js ` set EXPLICIT_KEYS" "js ''id'' \<notin> js ` set EXPLICIT_KEYS"
    "js ''multi_key_mode'' \<notin> js ` set EXPLICIT_KEYS"
    by (simp_all add: EXPLICIT_KEYS_def)
  have ne: "trim (f_key f) \<noteq> [] \<Longrightarrow> f_key f \<noteq> []" by auto
  have "map_of p (js ''key'') = (if trim (f_key f) = [] then None else Some (JStr (f_key f)))"
    using ne by (simp add: other [OF keys(1)] update_fields_keys)
  moreover have "map_of p (js ''id'') = Some (JNum cid)"
    by (simp add: other [OF keys(2)] update_fields_keys)
  moreover have "map_of p (js ''multi_key_mode'') \<noteq> None \<longleftrightarrow> multi \<and> f_multi_key_type f \<noteq> None"
    by (simp add: other [OF keys(3)] update_fields_keys)
  moreover have "map_of p k \<noteq> Some (JStr [])" if "k \<notin> js ` set EXPLICIT_KEYS" for k
    unfolding p explicit_strings_other [OF that] by (rule clean_no_empty)
  ultimately show ?thesis
    by (simp add: p explicit_strings_def)
qed

text \<open>The forms that build settings.\<close>

lemma json_ws_is_ws: "json_ws c \<Longrightarrow> is_ws c"
  by (auto simp: json_ws_def is_ws_def)

lemma is_ws_no_start:
  "is_ws c \<Longrightarrow> \<not> json_ws c \<Longrightarrow> c \<noteq> 123 \<and> c \<noteq> 91 \<and> c \<noteq> 34 \<and> c \<noteq> 45 \<and> c \<noteq> 116 \<and> c \<noteq> 102 \<and> c \<noteq> 110 \<and> \<not> is_digit c"
  by (auto simp: is_ws_def json_ws_def is_digit_def)

lemma update_payload_spec_witness:
  "\<exists>p. transformFormDataToUpdatePayload CHANNEL_FORM_DEFAULT_VALUES (Fin 5) False = Some p
    \<and> map_of p (js ''key'') = None \<and> map_of p (js ''tag'') = Some (JStr [])
    \<and> map_of p (js ''multi_key_mode'') = None"
proof -
  have "buildSettingsJSON CHANNEL_FORM_DEFAULT_VALUES \<noteq> None"
    by (simp add: buildSettingsJSON_def existing_settings_def CHANNEL_FORM_DEFAULT_VALUES_def)
  then obtain p where p: "transformFormDataToUpdatePayload CHANNEL_FORM_DEFAULT_VALUES (Fin 5) False = Some p"
    by (auto simp: transformFormDataToUpdatePayload_def Let_def)
  have d: "f_key CHANNEL_FORM_DEFAULT_VALUES = []" "f_tag CHANNEL_FORM_DEFAULT_VALUES = Some []"
    by (simp_all add: CHANNEL_FORM_DEFAULT_VALUES_def)
  note r = update_payload_spec [OF p, unfolded d]
  have "map_of p (js ''key'') = (if trim [] = [] then None else Some (JStr []))"
    "map_of p (js ''tag'') = Some (JStr (or_else (Some []) []))"
    "map_of p (js ''multi_key_mode'') \<noteq> None \<longleftrightarrow> False \<and> f_multi_key_type CHANNEL_FORM_DEFAULT_VALUES \<noteq> None"
    using r by blast+
  with p show ?thesis by simp
qed

lemma pnum_not_start: "\<not> is_digit c \<Longrightarrow> c \<noteq> 45 \<Longrightarrow> pnum (c # cs) = None"
  by (simp add: pnum_def)

lemma skip_ws_Nil [simp]: "skip_ws [] = []"
  by (simp add: skip_ws_def)

lemma json_parse_blank:
  assumes "list_all is_ws s"
  shows "json_parse s = None"
proof -
  have "pval (Suc n) s = None" for n
  proof (cases "skip_ws s")
    case (Cons c cs)
    then have "c \<in> set s" "\<not> json_ws c"
      unfolding skip_ws_def by (metis list.set_intros(1) set_dropWhileD, metis hd_dropWhile list.distinct(1) list.sel(1))
    then have "is_ws c" using assms by (auto simp: list_all_iff)
    from is_ws_no_start [OF this \<open>\<not> json_ws c\<close>] show ?thesis
      by (simp add: Cons pnum_not_start)
  qed simp
  then show ?thesis by (simp add: json_parse_def)
qed

text \<open>C11 A form that passes validation always has its payloads: building the settings text does
  not throw, whatever the stored settings, so neither payload function does.\<close>

theorem valid_form_has_payloads:
  assumes "form_valid f"
  shows "transformFormDataToCreatePayload f \<noteq> None \<and> transformFormDataToUpdatePayload f cid multi \<noteq> None"
proof -
  have ok: "isOptionalJsonObject (f_settings f)" using assms by (simp add: form_valid_def fields_ok_def)
  have "\<exists>ps. existing_settings f = JObj ps"
  proof (cases "truthy_str (f_settings f) \<and> f_settings f \<noteq> Some (js ''{}'')")
    case True
    then obtain s where s: "f_settings f = Some s" "s \<noteq> []" by (cases "f_settings f") auto
    show ?thesis
    proof (cases "trim s = []")
      case True
      then have "json_parse s = None" by (simp add: trim_eq_Nil_iff json_parse_blank)
      then show ?thesis by (simp add: existing_settings_def s)
    next
      case False
      then obtain v where v: "json_parse s = Some v" "isJsonObjectValue v"
        using ok s by (auto simp: isOptionalJsonObject_def parseOptionalJson_def split: option.splits)
      then show ?thesis by (cases v) (simp_all add: existing_settings_def s)
    qed
  next
    case False
    then have "existing_settings f = JObj []" unfolding existing_settings_def by (rule if_not_P)
    then show ?thesis by blast
  qed
  then show ?thesis
    by (auto simp: transformFormDataToCreatePayload_def transformFormDataToUpdatePayload_def
        buildSettingsJSON_def Let_def)
qed

lemma valid_form_has_payloads_witness:
  "transformFormDataToCreatePayload (CHANNEL_FORM_DEFAULT_VALUES\<lparr>f_name := js ''n'', f_models := js ''m''\<rparr>) \<noteq> None
   \<and> transformFormDataToUpdatePayload (CHANNEL_FORM_DEFAULT_VALUES\<lparr>f_name := js ''n'', f_models := js ''m''\<rparr>) (Fin 1) True \<noteq> None"
proof (rule valid_form_has_payloads)
  have "json_parse (js ''{}'') = Some (JObj [])" "trim (js ''{}'') = js ''{}''" by code_simp+
  then show "form_valid (CHANNEL_FORM_DEFAULT_VALUES\<lparr>f_name := js ''n'', f_models := js ''m''\<rparr>)"
    by (simp add: form_valid_def fields_ok_def superRefine_def CHANNEL_FORM_DEFAULT_VALUES_def
        isOptionalModelMapping_def isOptionalStatusCodeMapping_def isOptionalStreamErrorMapping_def
        isOptionalJsonObject_def parseOptionalJson_def RESPONSES_PROTOCOLS_def REASONING_ADAPTERS_def)
qed

text \<open>The payload that creates a channel has no empty text left: every value is a non-empty
  text, a number or \<open>null\<close>; the key mode is there for the mode that makes one channel of many
  keys and the name prefix switch for batches only.\<close>

theorem create_payload_spec:
  assumes "transformFormDataToCreatePayload f = Some p"
  shows "map_of (payload_channel p) k \<noteq> Some (JStr [])
    \<and> (payload_multi_key_mode p \<noteq> None \<longrightarrow> add_mode_of p = MultiToSingle)
    \<and> (payload_batch_prefix p \<noteq> None \<longrightarrow> add_mode_of p = BatchMode)
    \<and> map_of (payload_channel p) (js ''name'') = Some (if f_name f = [] then JNull else JStr (f_name f))
    \<and> map_of (payload_channel p) (js ''setting'') = Some (JStr (buildSettingJSON f))"
proof -
  obtain s where s: "p = \<lparr>add_mode_of = (case f_multi_key_mode f of None \<Rightarrow> SingleMode | Some m \<Rightarrow> m),
      payload_multi_key_mode = (if (case f_multi_key_mode f of None \<Rightarrow> SingleMode | Some m \<Rightarrow> m) = MultiToSingle
        then f_multi_key_type f else None),
      payload_batch_prefix = (if (case f_multi_key_mode f of None \<Rightarrow> SingleMode | Some m \<Rightarrow> m) = BatchMode
        then f_batch_add_set_key_prefix_2_name f else None),
      payload_channel = clean (create_fields f s)\<rparr>"
    using assms by (auto simp: transformFormDataToCreatePayload_def Let_def split: option.splits)
  have "buildSettingJSON f \<noteq> []" by (simp add: buildSettingJSON_def)
  then show ?thesis by (auto simp: s clean_no_empty) (auto simp: map_of_clean create_fields_def)
qed

lemma create_payload_spec_witness:
  "\<exists>p. transformFormDataToCreatePayload CHANNEL_FORM_DEFAULT_VALUES = Some p
    \<and> map_of (payload_channel p) (js ''name'') = Some JNull"
proof -
  have "buildSettingsJSON CHANNEL_FORM_DEFAULT_VALUES \<noteq> None"
    by (simp add: buildSettingsJSON_def existing_settings_def CHANNEL_FORM_DEFAULT_VALUES_def)
  then obtain p where p: "transformFormDataToCreatePayload CHANNEL_FORM_DEFAULT_VALUES = Some p"
    by (auto simp: transformFormDataToCreatePayload_def Let_def)
  have d: "f_name CHANNEL_FORM_DEFAULT_VALUES = []" by (simp add: CHANNEL_FORM_DEFAULT_VALUES_def)
  from create_payload_spec [OF p, unfolded d] p show ?thesis by simp
qed

text \<open>The form's check of a status code mapping converts the target with \<open>Number\<close>, so a list of
  one code and a code in hexadecimal pass.\<close>

lemma loose_status_codes:
  "isOptionalStatusCodeMapping (Some (js ''{\"404\":[500],\"0x1F5\":502}''))"
  by code_simp

end
