(* ===== verification/ChannelUtils.thy ===== *)
theory ChannelUtils
  imports ModelMapping ChannelTypes
begin

text \<open>
  The helpers of the channel list: badges, masked keys, texts of lists and settings, the
  channels that need attention, the rows of tag mode and the removal of duplicate keys
  (\<open>features/channels/lib/channel-utils.ts\<close>), the actions on single keys
  (\<open>features/channels/lib/multi-key-utils.ts\<close>) and the models of an Ollama server
  (\<open>features/channels/lib/ollama-utils.ts\<close>).
\<close>

section \<open>Badges\<close>

record badge =
  badge_variant :: string
  badge_label :: string

definition badge_of :: "string \<Rightarrow> string \<Rightarrow> badge" where
  "badge_of v l = \<lparr>badge_variant = v, badge_label = l\<rparr>"

definition CHANNEL_STATUS_CONFIG :: "(int \<times> badge) list" where
  "CHANNEL_STATUS_CONFIG =
     [(0, badge_of ''neutral'' ''Unknown''), (1, badge_of ''success'' ''Enabled''),
      (2, badge_of ''danger'' ''Disabled''), (3, badge_of ''warning'' ''Auto Disabled'')]"

definition MULTI_KEY_STATUS_CONFIG :: "(int \<times> badge) list" where
  "MULTI_KEY_STATUS_CONFIG =
     [(1, badge_of ''success'' ''Enabled''), (2, badge_of ''neutral'' ''Manual Disabled''),
      (3, badge_of ''danger'' ''Auto Disabled'')]"

definition RESPONSE_TIME_CONFIG :: "(string \<times> badge) list" where
  "RESPONSE_TIME_CONFIG =
     [(''EXCELLENT'', badge_of ''success'' ''Excellent''), (''GOOD'', badge_of ''info'' ''Good''),
      (''FAIR'', badge_of ''warning'' ''Fair''), (''POOR'', badge_of ''danger'' ''Poor''),
      (''UNKNOWN'', badge_of ''neutral'' ''Not tested'')]"

definition getChannelStatusBadge :: "int \<Rightarrow> badge" where
  "getChannelStatusBadge status =
     (case map_of CHANNEL_STATUS_CONFIG status of
        Some b \<Rightarrow> b | None \<Rightarrow> the (map_of CHANNEL_STATUS_CONFIG 0))"

definition getMultiKeyStatusBadge :: "int \<Rightarrow> badge" where
  "getMultiKeyStatusBadge status =
     (case map_of MULTI_KEY_STATUS_CONFIG status of
        Some b \<Rightarrow> b | None \<Rightarrow> the (map_of MULTI_KEY_STATUS_CONFIG 1))"

definition getMultiKeyStatusConfig :: "int \<Rightarrow> badge" where
  "getMultiKeyStatusConfig status =
     (case map_of MULTI_KEY_STATUS_CONFIG status of
        Some b \<Rightarrow> b | None \<Rightarrow> badge_of ''neutral'' ''Unknown'')"

definition isChannelEnabled :: "channel \<Rightarrow> bool" where
  "isChannelEnabled c \<longleftrightarrow> ch_status c = 1"

definition isMultiKeyChannel :: "channel \<Rightarrow> bool" where
  "isMultiKeyChannel c \<longleftrightarrow> is_multi_key (ch_info c)"

definition getBalanceVariant :: "jnum \<Rightarrow> string" where
  "getBalanceVariant balance =
     (if num_eq balance (Fin 0) then ''neutral''
      else if num_lt balance (Fin 1) then ''danger''
      else if num_lt balance (Fin 10) then ''warning''
      else ''success'')"

definition response_time_badge :: "string \<Rightarrow> badge" where
  "response_time_badge k = the (map_of RESPONSE_TIME_CONFIG k)"

definition getResponseTimeConfig :: "jnum \<Rightarrow> badge" where
  "getResponseTimeConfig timeMs =
     (if num_eq timeMs (Fin 0) then response_time_badge ''UNKNOWN''
      else if num_le timeMs (Fin 500) then response_time_badge ''EXCELLENT''
      else if num_le timeMs (Fin 1000) then response_time_badge ''GOOD''
      else if num_le timeMs (Fin 2000) then response_time_badge ''FAIR''
      else response_time_badge ''POOR'')"

text \<open>\<open>t\<close> translates a key with an optional value; without it the text is English.\<close>

definition formatResponseTime :: "jnum \<Rightarrow> (string \<Rightarrow> jsval option \<Rightarrow> jstr) option \<Rightarrow> jstr" where
  "formatResponseTime timeMs t =
     (if num_eq timeMs (Fin 0) then
        (case t of Some f \<Rightarrow> f ''Not tested'' None | None \<Rightarrow> js ''Not tested'')
      else if num_lt timeMs (Fin 1000) then
        (case t of Some f \<Rightarrow> f ''{{value}}ms'' (Some (JNum timeMs)) | None \<Rightarrow> num_str timeMs @ js ''ms'')
      else let s = to_fixed 2 (num_div timeMs (Fin 1000))
           in case t of Some f \<Rightarrow> f ''{{value}}s'' (Some (JStr s)) | None \<Rightarrow> s @ js ''s'')"

definition getPriorityDisplay :: "jnum option \<Rightarrow> jstr" where
  "getPriorityDisplay priority = (case priority of None \<Rightarrow> js ''0'' | Some n \<Rightarrow> num_str n)"

definition getWeightDisplay :: "jnum option \<Rightarrow> jstr" where
  "getWeightDisplay weight = (case weight of None \<Rightarrow> js ''0'' | Some n \<Rightarrow> num_str n)"

section \<open>Keys\<close>

text \<open>\<open>s.slice(-n)\<close> for \<open>n > 0\<close>.\<close>

definition slice_end :: "nat \<Rightarrow> jstr \<Rightarrow> jstr" where
  "slice_end n s = drop (length s - n) s"

definition key_lines :: "jstr \<Rightarrow> jstr list" where
  "key_lines key = filter (\<lambda>k. trim k \<noteq> []) (split_str [10] key)"

definition formatChannelKey :: "jstr \<Rightarrow> bool \<Rightarrow> jstr" where
  "formatChannelKey key isMultiKey =
     (if key = [] then []
      else if isMultiKey then nat_str (length (key_lines key)) @ js '' keys''
      else if length key \<le> 16 then take 4 key @ js ''...'' @ slice_end 4 key
      else take 8 key @ js ''...'' @ slice_end 8 key)"

definition formatKeyPreview :: "jstr \<Rightarrow> nat \<Rightarrow> jstr" where
  "formatKeyPreview key maxLength =
     (if key = [] then []
      else if length key \<le> maxLength then key
      else take maxLength key @ js ''...'')"

definition countKeys :: "jstr \<Rightarrow> nat" where
  "countKeys key = (if key = [] then 0 else length (key_lines key))"

section \<open>Texts of lists and settings\<close>

definition parseModelsList :: "jstr \<Rightarrow> jstr list" where
  "parseModelsList models =
     (if models = [] then [] else filter (\<lambda>m. 0 < length m) (map trim (split_str [44] models)))"

definition formatModelsString :: "jstr list \<Rightarrow> jstr" where
  "formatModelsString models = join [44] models"

definition formatGroupsString :: "jstr list \<Rightarrow> jstr" where
  "formatGroupsString groups = join [44] groups"

definition parseChannelSettings :: "jstr option \<Rightarrow> jsval" where
  "parseChannelSettings settingStr =
     (case settingStr of
        None \<Rightarrow> JObj []
      | Some s \<Rightarrow> if s = [] then JObj [] else case json_parse s of Some v \<Rightarrow> v | None \<Rightarrow> JObj [])"

definition parseChannelOtherSettings :: "jstr option \<Rightarrow> jsval" where
  "parseChannelOtherSettings settingsStr =
     (case settingsStr of
        None \<Rightarrow> JObj []
      | Some s \<Rightarrow>
          if s = [] \<or> s = js ''{}'' then JObj []
          else case json_parse s of Some v \<Rightarrow> v | None \<Rightarrow> JObj [])"

definition validateChannelSettings :: "jstr \<Rightarrow> bool" where
  "validateChannelSettings settings =
     (if settings = [] \<or> trim settings = [] then True else json_parse settings \<noteq> None)"

definition validateChannelName :: "jstr \<Rightarrow> bool" where
  "validateChannelName name \<longleftrightarrow> 0 < length (trim name)"

definition validateApiKey :: "jstr \<Rightarrow> bool" where
  "validateApiKey key \<longleftrightarrow> 0 < length (trim key)"

definition validateModels :: "jstr \<Rightarrow> bool" where
  "validateModels models \<longleftrightarrow> 0 < length (parseModelsList models)"

section \<open>Attention\<close>

text \<open>The last test of both functions: every key of a multi-key channel has a status entry.\<close>

definition all_keys_listed :: "channel_info \<Rightarrow> bool" where
  "all_keys_listed i \<longleftrightarrow>
     is_multi_key i \<and>
     (case multi_key_status_list i of
        None \<Rightarrow> False
      | Some sl \<Rightarrow> num_le (multi_key_size i) (num_of_int (int (length (own_keys sl)))))"

definition channelNeedsAttention :: "channel \<Rightarrow> bool" where
  "channelNeedsAttention c =
     (if ch_status c = 3 then True
      else if num_lt (Fin 0) (ch_balance c) \<and> num_lt (ch_balance c) (Fin 1) then True
      else if all_keys_listed (ch_info c) then True
      else False)"

definition getAttentionReason :: "channel \<Rightarrow> string option" where
  "getAttentionReason c =
     (if ch_status c = 3 then Some ''Auto-disabled''
      else if num_lt (Fin 0) (ch_balance c) \<and> num_lt (ch_balance c) (Fin 1) then Some ''Low balance''
      else if all_keys_listed (ch_info c) then Some ''All keys disabled''
      else None)"

section \<open>Tag rows\<close>

text \<open>
  A tag row spreads the first channel of its tag and overwrites most fields; its id is the tag
  itself and its status starts \<open>undefined\<close>, so both have fields of their own here (the
  numeric id and status of \<open>row_base\<close> are not those of the row).
\<close>

record tag_row =
  row_base :: channel
  row_id :: jstr
  row_status :: "int option"
  row_children :: "channel list"

definition tag_of :: "channel \<Rightarrow> jstr" where
  "tag_of c = or_else (ch_tag c) []"

definition new_tag_row :: "channel \<Rightarrow> tag_row" where
  "new_tag_row c =
     (let tag = tag_of c in
      \<lparr>row_base = c\<lparr>ch_key := tag, ch_tag := Some tag, ch_name := tag, ch_type := 0, ch_group := [],
                    ch_used_quota := Fin 0, ch_response_time := Fin 0, ch_priority := Some (Fin (- 1)),
                    ch_weight := Some (Fin (- 1)), ch_balance := Fin 0, ch_test_time := Fin 0,
                    ch_created_time := Fin 0, ch_balance_updated_time := Fin 0, ch_models := []\<rparr>,
       row_id = tag, row_status = None, row_children = []\<rparr>)"

text \<open>\<open>===\<close> on numbers that may be \<open>null\<close>.\<close>

fun opt_num_eq :: "jnum option \<Rightarrow> jnum option \<Rightarrow> bool" where
  "opt_num_eq None None = True"
| "opt_num_eq (Some a) (Some b) = num_eq a b"
| "opt_num_eq _ _ = False"

text \<open>Priority and weight: \<open>-1\<close> marks a row without a channel so far.\<close>

definition same_or_null :: "jnum option \<Rightarrow> jnum option \<Rightarrow> jnum option" where
  "same_or_null acc v =
     (if opt_num_eq acc (Some (Fin (- 1))) then v
      else if \<not> opt_num_eq acc v then None
      else acc)"

definition comma_parts :: "jstr \<Rightarrow> jstr list" where
  "comma_parts s = filter (\<lambda>g. g \<noteq> []) (split_str [44] s)"

definition merge_groups :: "jstr \<Rightarrow> jstr \<Rightarrow> jstr" where
  "merge_groups acc grp =
     (if acc = [] then grp
      else let existingGroups = from_set (comma_parts acc)
           in foldl (\<lambda>a g. if g \<notin> set existingGroups then a @ [44] @ g else a) acc (comma_parts grp))"

definition merge_status :: "int option \<Rightarrow> int \<Rightarrow> int option" where
  "merge_status acc status =
     (if status = 1 then Some 1 else if acc = None then Some status else acc)"

definition add_child :: "tag_row \<Rightarrow> channel \<Rightarrow> tag_row" where
  "add_child row c =
     (let children = row_children row @ [c];
          n = int (length children);
          b = row_base row
      in row\<lparr>row_children := children,
             row_status := merge_status (row_status row) (ch_status c),
             row_base := b\<lparr>
               ch_used_quota := num_add (ch_used_quota b) (ch_used_quota c),
               ch_response_time :=
                 num_div (num_add (num_mul (ch_response_time b) (num_of_int (n - 1))) (ch_response_time c))
                         (num_of_int n),
               ch_priority := same_or_null (ch_priority b) (ch_priority c),
               ch_weight := same_or_null (ch_weight b) (ch_weight c),
               ch_group := merge_groups (ch_group b) (ch_group c)\<rparr>\<rparr>)"

text \<open>The rows are the values of \<open>tagMap\<close>, in the order in which \<open>result\<close> got them; the row
  the map finds is the object in \<open>result\<close>.\<close>

definition tag_step :: "tag_row list \<Rightarrow> channel \<Rightarrow> tag_row list" where
  "tag_step rows c =
     (let tag = tag_of c;
          rows' = (if list_ex (\<lambda>r. row_id r = tag) rows then rows else rows @ [new_tag_row c])
      in map (\<lambda>r. if row_id r = tag then add_child r c else r) rows')"

definition aggregateChannelsByTag :: "channel list \<Rightarrow> tag_row list" where
  "aggregateChannelsByTag channels = foldl tag_step [] channels"

section \<open>Duplicate keys\<close>

record dedup_result =
  deduplicatedText :: jstr
  beforeCount :: nat
  afterCount :: nat
  removedCount :: int

definition deduplicateKeys :: "jstr \<Rightarrow> dedup_result" where
  "deduplicateKeys keysText =
     (if keysText = [] \<or> trim keysText = [] then
        \<lparr>deduplicatedText = [], beforeCount = 0, afterCount = 0, removedCount = 0\<rparr>
      else
        let keyLines = split_str [10] keysText;
            deduplicatedKeys =
              foldl (\<lambda>ks line. let t = trim line in if t \<noteq> [] \<and> t \<notin> set ks then ks @ [t] else ks) [] keyLines
        in \<lparr>deduplicatedText = join [10] deduplicatedKeys, beforeCount = length keyLines,
            afterCount = length deduplicatedKeys,
            removedCount = int (length keyLines) - int (length deduplicatedKeys)\<rparr>)"

section \<open>Actions on single keys\<close>

datatype multi_key_action = EnableKey | DisableKey | DeleteKey | EnableAll | DisableAll | DeleteDisabled

definition getMultiKeyConfirmMessage :: "multi_key_action option \<Rightarrow> string" where
  "getMultiKeyConfirmMessage action =
     (case action of
        None \<Rightarrow> ''''
      | Some DeleteKey \<Rightarrow> ''Are you sure you want to delete this key? This action cannot be undone.''
      | Some EnableKey \<Rightarrow> ''Enable this key?''
      | Some DisableKey \<Rightarrow> ''Disable this key?''
      | Some EnableAll \<Rightarrow> ''Are you sure you want to enable all keys?''
      | Some DisableAll \<Rightarrow> ''Are you sure you want to disable all enabled keys?''
      | Some DeleteDisabled \<Rightarrow>
          ''Are you sure you want to delete all auto-disabled keys? This action cannot be undone.'')"

definition isDestructiveAction :: "multi_key_action option \<Rightarrow> bool" where
  "isDestructiveAction action =
     (case action of
        None \<Rightarrow> False
      | Some a \<Rightarrow> a = DeleteKey \<or> a = DeleteDisabled \<or> a = DisableAll)"

section \<open>Ollama models\<close>

fun isRecord :: "jsval \<Rightarrow> bool" where
  "isRecord (JObj _) = True"
| "isRecord (JArr _) = True"
| "isRecord _ = False"

definition isRecord_opt :: "jsval option \<Rightarrow> bool" where
  "isRecord_opt v = (case v of None \<Rightarrow> False | Some x \<Rightarrow> isRecord x)"

definition getString :: "jsval option \<Rightarrow> jstr option" where
  "getString value = (case value of Some (JStr s) \<Rightarrow> Some s | _ \<Rightarrow> None)"

definition getNumber :: "jsval option \<Rightarrow> jnum option" where
  "getNumber value = (case value of Some (JNum n) \<Rightarrow> Some n | _ \<Rightarrow> None)"

text \<open>\<open>None\<close> and \<open>JNull\<close> are both the \<open>null\<close> result.\<close>

definition parseMaybeJSON :: "jsval option \<Rightarrow> jsval option" where
  "parseMaybeJSON value =
     (if \<not> truthy_opt value then None
      else case value of
             Some (JStr s) \<Rightarrow> json_parse s
           | Some v \<Rightarrow> if isRecord v then Some v else None
           | None \<Rightarrow> None)"

text \<open>The first of the texts that is not empty once trimmed.\<close>

fun first_text :: "jstr option list \<Rightarrow> jstr" where
  "first_text [] = []"
| "first_text (s # ss) = (case s of None \<Rightarrow> first_text ss | Some x \<Rightarrow> if trim x = [] then first_text ss else trim x)"

text \<open>\<open>alt\<close> is the \<open>ollama_base_url\<close> a channel of an older server may carry.\<close>

definition resolveOllamaBaseUrl :: "channel option \<Rightarrow> jsval option \<Rightarrow> jstr" where
  "resolveOllamaBaseUrl ch alt =
     (case ch of
        None \<Rightarrow> []
      | Some c \<Rightarrow>
          let parsed = parseMaybeJSON (Some (JStr (ch_other_info c)));
              stored = (\<lambda>k. if isRecord_opt parsed then getString (get_prop_opt parsed k) else None)
          in first_text [ch_base_url c, getString alt, stored ''base_url'', stored ''public_url'', stored ''api_url''])"

text \<open>\<open>a || b\<close> on optional texts.\<close>

fun first_str :: "jstr option list \<Rightarrow> jstr option" where
  "first_str [] = None"
| "first_str (s # ss) = (if truthy_str s then s else first_str ss)"

text \<open>\<open>if (v && !o.k) o.k = v\<close>; \<open>v\<close> is \<open>None\<close> when its guard fails.\<close>

definition fill :: "string \<Rightarrow> jsval option \<Rightarrow> (jstr \<times> jsval) list \<Rightarrow> (jstr \<times> jsval) list" where
  "fill k v ps =
     (case v of
        None \<Rightarrow> ps
      | Some x \<Rightarrow> if truthy_opt (map_of ps (js k)) then ps else obj_put (js k) x ps)"

definition ollama_metadata :: "(jstr \<times> jsval) list \<Rightarrow> jsval option" where
  "ollama_metadata item =
     (case map_of item (js ''metadata'') of
        None \<Rightarrow> map_of item (js ''Metadata'')
      | Some JNull \<Rightarrow> map_of item (js ''Metadata'')
      | Some v \<Rightarrow> Some v)"

definition truthy_text :: "jstr option \<Rightarrow> jsval option" where
  "truthy_text s = (case s of None \<Rightarrow> None | Some t \<Rightarrow> if t = [] then None else Some (JStr t))"

definition truthy_value :: "jsval option \<Rightarrow> jsval option" where
  "truthy_value v = (if truthy_opt v then v else None)"

definition fill_from_metadata :: "jsval option \<Rightarrow> (jstr \<times> jsval) list \<Rightarrow> (jstr \<times> jsval) list" where
  "fill_from_metadata metadata ps =
     (if isRecord_opt metadata then
        fill ''details'' (truthy_value (get_prop_opt metadata ''details''))
          (fill ''modified_at'' (truthy_text (getString (get_prop_opt metadata ''modified_at'')))
            (fill ''digest'' (truthy_text (getString (get_prop_opt metadata ''digest'')))
              (fill ''size'' (map_option JNum (getNumber (get_prop_opt metadata ''size''))) ps)))
      else ps)"

definition candidate_id :: "(jstr \<times> jsval) list \<Rightarrow> jstr option" where
  "candidate_id item =
     first_str (map (\<lambda>k. getString (map_of item (js k))) [''id'', ''ID'', ''name'', ''model'', ''Model''])"

definition owner_of :: "(jstr \<times> jsval) list \<Rightarrow> jstr" where
  "owner_of item =
     (case first_str (map (\<lambda>k. getString (map_of item (js k))) [''owned_by'', ''ownedBy'']) of
        Some s \<Rightarrow> s | None \<Rightarrow> js ''ollama'')"

definition normalize_ollama_item :: "jsval \<Rightarrow> jsval option" where
  "normalize_ollama_item item =
     (if \<not> truthy item then None
      else case item of
             JStr s \<Rightarrow> Some (JObj [(js ''id'', JStr s), (js ''owned_by'', JStr (js ''ollama''))])
           | JObj ps \<Rightarrow>
               (case candidate_id ps of
                  None \<Rightarrow> None
                | Some cid \<Rightarrow>
                    Some (JObj (fill_from_metadata (ollama_metadata ps)
                      (fill ''size'' (map_option JNum (getNumber (map_of ps (js ''size''))))
                        (obj_put (js ''owned_by'') (JStr (owner_of ps))
                          (obj_put (js ''id'') (JStr cid) ps))))))
           | _ \<Rightarrow> None)"

definition normalizeOllamaModels :: "jsval option \<Rightarrow> jsval list" where
  "normalizeOllamaModels items =
     (case items of
        Some (JArr vs) \<Rightarrow> List.map_filter normalize_ollama_item vs
      | _ \<Rightarrow> [])"

definition formatBytes :: "jnum option \<Rightarrow> jstr" where
  "formatBytes bytes =
     (case bytes of
        None \<Rightarrow> js ''-''
      | Some b \<Rightarrow>
          if b = NaN then js ''-''
          else if num_lt b (Fin 1024) then num_str b @ js '' B''
          else
            let kb = num_div b (Fin 1024); mb = num_div kb (Fin 1024); gb = num_div mb (Fin 1024)
            in if num_lt kb (Fin 1024) then to_fixed 1 kb @ js '' KB''
               else if num_lt mb (Fin 1024) then to_fixed 1 mb @ js '' MB''
               else to_fixed 2 gb @ js '' GB'')"

end
