(* ===== verification/ChannelUtilsProps.thy ===== *)
theory ChannelUtilsProps
  imports ChannelUtils
begin

text \<open>
  The helpers of the channel list: what the rows of tag mode hold, that a channel needs attention
  exactly when there is a reason to, what the removal of duplicate keys keeps, and that the
  models of an Ollama server are stable under normalisation.
\<close>

section \<open>Rows kept per key\<close>

text \<open>A list of rows, one for each key, that is updated with one element after the other: the
  rows are those of the keys in order of appearance, and each holds what its own elements
  gave.\<close>

locale keyed_rows =
  fixes key_of :: "'c \<Rightarrow> 'k" and row_key :: "'r \<Rightarrow> 'k" and start :: "'c \<Rightarrow> 'r"
    and add :: "'r \<Rightarrow> 'c \<Rightarrow> 'r" and upsert :: "'r list \<Rightarrow> 'c \<Rightarrow> 'r list"
  assumes start_key: "row_key (start c) = key_of c"
    and add_key: "row_key (add r c) = row_key r"
    and upsert_old: "key_of c \<in> row_key ` set rows \<Longrightarrow>
      upsert rows c = map (\<lambda>r. if row_key r = key_of c then add r c else r) rows"
    and upsert_new: "key_of c \<notin> row_key ` set rows \<Longrightarrow> upsert rows c = rows @ [add (start c) c]"
begin

definition row_for :: "'k \<Rightarrow> 'c list \<Rightarrow> 'r" where
  "row_for k cs = (let ms = filter (\<lambda>c. key_of c = k) cs in foldl add (start (hd ms)) ms)"

lemma key_foldl: "row_key (foldl add r cs) = row_key r"
  by (induction cs arbitrary: r) (simp_all add: add_key)

lemma members_nonempty: "k \<in> key_of ` set cs \<Longrightarrow> filter (\<lambda>c. key_of c = k) cs \<noteq> []"
  by (auto simp: filter_empty_conv)

lemma key_row_for: "k \<in> key_of ` set cs \<Longrightarrow> row_key (row_for k cs) = k"
  using members_nonempty [of k cs] hd_in_set [of "filter (\<lambda>c. key_of c = k) cs"]
  by (auto simp: row_for_def Let_def key_foldl start_key)

lemma row_for_snoc_same:
  assumes "key_of x \<in> key_of ` set cs"
  shows "row_for (key_of x) (cs @ [x]) = add (row_for (key_of x) cs) x"
  using members_nonempty [OF assms] by (simp add: row_for_def Let_def)

lemma row_for_snoc_other: "key_of x \<noteq> k \<Longrightarrow> row_for k (cs @ [x]) = row_for k cs"
  by (simp add: row_for_def)

lemma row_for_first:
  assumes "key_of x \<notin> key_of ` set cs"
  shows "row_for (key_of x) (cs @ [x]) = add (start x) x"
proof -
  have "filter (\<lambda>c. key_of c = key_of x) cs = []"
    using assms by (metis (mono_tags, lifting) filter_empty_conv image_eqI)
  then show ?thesis by (simp add: row_for_def)
qed

theorem rows_fold: "foldl upsert [] cs = map (\<lambda>k. row_for k cs) (from_set (map key_of cs))"
proof (induction cs rule: rev_induct)
  case Nil
  then show ?case by simp
next
  case (snoc x cs)
  let ?ks = "from_set (map key_of cs)"
  have keys: "row_key ` set (foldl upsert [] cs) = key_of ` set cs"
    unfolding snoc.IH set_map set_from_set image_image by (simp add: key_row_for)
  have ks: "from_set (map key_of cs @ [key_of x]) = set_add ?ks (key_of x)"
    by (simp add: from_set_def)
  show ?case
  proof (cases "key_of x \<in> key_of ` set cs")
    case True
    then have "foldl upsert [] (cs @ [x]) =
        map (\<lambda>r. if row_key r = key_of x then add r x else r) (map (\<lambda>k. row_for k cs) ?ks)"
      using keys snoc.IH by (simp add: upsert_old)
    also have "\<dots> = map (\<lambda>k. row_for k (cs @ [x])) ?ks"
      using True by (auto simp: key_row_for row_for_snoc_same row_for_snoc_other)
    finally show ?thesis using True by (simp add: ks set_add_def)
  next
    case False
    then have "foldl upsert [] (cs @ [x]) = map (\<lambda>k. row_for k cs) ?ks @ [add (start x) x]"
      using keys snoc.IH by (simp add: upsert_new)
    also have "map (\<lambda>k. row_for k cs) ?ks = map (\<lambda>k. row_for k (cs @ [x])) ?ks"
      using False by (auto intro!: row_for_snoc_other [symmetric])
    finally show ?thesis using False by (simp add: ks set_add_def row_for_first)
  qed
qed

lemma row_keys: "map row_key (foldl upsert [] cs) = from_set (map key_of cs)"
  unfolding rows_fold map_map by (rule map_idI) (simp add: key_row_for)

end

interpretation tag_rows: keyed_rows tag_of row_id new_tag_row add_child tag_step
proof
  fix c r
  show "row_id (new_tag_row c) = tag_of c" by (simp add: new_tag_row_def Let_def)
  show "row_id (add_child r c) = row_id r" by (simp add: add_child_def Let_def)
next
  fix c :: channel and rows :: "tag_row list"
  assume "tag_of c \<in> row_id ` set rows"
  then have "list_ex (\<lambda>r. row_id r = tag_of c) rows" by (auto simp: list_ex_iff)
  then show "tag_step rows c = map (\<lambda>r. if row_id r = tag_of c then add_child r c else r) rows"
    by (simp add: tag_step_def)
next
  fix c :: channel and rows :: "tag_row list"
  assume a: "tag_of c \<notin> row_id ` set rows"
  then have "\<not> list_ex (\<lambda>r. row_id r = tag_of c) rows" using a unfolding list_ex_iff by (metis imageI)
  moreover have "map (\<lambda>r. if row_id r = tag_of c then add_child r c else r) rows = rows"
  proof (rule map_idI)
    fix r assume "r \<in> set rows"
    then have "row_id r \<noteq> tag_of c" using a by (metis imageI)
    then show "(if row_id r = tag_of c then add_child r c else r) = r" by simp
  qed
  moreover have "row_id (new_tag_row c) = tag_of c" by (simp add: new_tag_row_def Let_def)
  ultimately show "tag_step rows c = rows @ [add_child (new_tag_row c) c]"
    by (simp add: tag_step_def)
qed

section \<open>The fields of a tag row\<close>

lemma row_children_fold: "row_children (foldl add_child r cs) = row_children r @ cs"
  by (induction cs arbitrary: r) (simp_all add: add_child_def Let_def)

lemma row_status_fold:
  "row_status (foldl add_child r cs) = foldl merge_status (row_status r) (map ch_status cs)"
  by (induction cs arbitrary: r) (simp_all add: add_child_def Let_def)

lemma row_quota_fold:
  "ch_used_quota (row_base (foldl add_child r cs)) = foldl num_add (ch_used_quota (row_base r)) (map ch_used_quota cs)"
  by (induction cs arbitrary: r) (simp_all add: add_child_def Let_def)

lemma row_priority_fold:
  "ch_priority (row_base (foldl add_child r cs)) = foldl same_or_null (ch_priority (row_base r)) (map ch_priority cs)"
  by (induction cs arbitrary: r) (simp_all add: add_child_def Let_def)

lemma row_weight_fold:
  "ch_weight (row_base (foldl add_child r cs)) = foldl same_or_null (ch_weight (row_base r)) (map ch_weight cs)"
  by (induction cs arbitrary: r) (simp_all add: add_child_def Let_def)

lemma row_group_fold:
  "ch_group (row_base (foldl add_child r cs)) = foldl merge_groups (ch_group (row_base r)) (map ch_group cs)"
  by (induction cs arbitrary: r) (simp_all add: add_child_def Let_def)

lemmas row_folds = row_children_fold row_status_fold row_quota_fold row_priority_fold
  row_weight_fold row_group_fold

text \<open>Status.\<close>

lemma merge_status_fold:
  "foldl merge_status acc ss =
     (if acc = Some 1 \<or> 1 \<in> set ss then Some 1
      else case acc of Some s \<Rightarrow> Some s | None \<Rightarrow> (case ss of [] \<Rightarrow> None | s # _ \<Rightarrow> Some s))"
  by (induction ss arbitrary: acc) (auto simp: merge_status_def split: option.splits list.splits)

text \<open>Priority and weight.\<close>

lemma opt_num_eq_iff: "opt_num_eq a b \<longleftrightarrow> a = b \<and> a \<noteq> Some NaN"
  by (cases "(a, b)" rule: opt_num_eq.cases) (auto simp: num_eq_def)

lemma same_or_null_fold:
  assumes "\<And>v. v \<in> set (a # vs) \<Longrightarrow> v \<noteq> Some (Fin (- 1)) \<and> v \<noteq> Some NaN"
  shows "foldl same_or_null a vs = (if \<forall>v\<in>set vs. v = a then a else None)"
  using assms
proof (induction vs arbitrary: a)
  case (Cons v vs)
  show ?case
  proof (cases "v = a")
    case True
    with Cons.prems [of a] have "same_or_null a v = a" by (simp add: same_or_null_def opt_num_eq_iff)
    with Cons.IH [of a] Cons.prems True show ?thesis by simp
  next
    case False
    with Cons.prems [of a] have s: "same_or_null a v = None" by (simp add: same_or_null_def opt_num_eq_iff)
    have "foldl same_or_null None vs = None" using Cons.IH [of None] Cons.prems by auto
    with False s show ?thesis by auto
  qed
qed simp

lemma same_or_null_start:
  "v \<noteq> Some NaN \<Longrightarrow> same_or_null (Some (Fin (- 1))) v = v"
  by (simp add: same_or_null_def opt_num_eq_iff)

text \<open>Groups.\<close>

lemma split_char_append_any: "split_str [c] (a @ c # b) = split_str [c] a @ split_str [c] b"
  using split_str_nonempty [of "[c]"]
  by (induction a) (auto simp: split_char_Cons split: list.splits)

lemma comma_parts_Nil [simp]: "comma_parts [] = []"
  by (simp add: comma_parts_def)

lemma comma_parts_append: "comma_parts (a @ 44 # b) = comma_parts a @ comma_parts b"
  by (simp add: comma_parts_def split_char_append_any)

lemma comma_parts_single: "g \<noteq> [] \<Longrightarrow> 44 \<notin> set g \<Longrightarrow> comma_parts g = [g]"
  by (simp add: comma_parts_def split_char_absent)

lemma in_comma_parts: "g \<in> set (comma_parts s) \<Longrightarrow> g \<noteq> [] \<and> 44 \<notin> set g"
  using split_char_no_sep [of g 44 s] by (auto simp: comma_parts_def)

lemma comma_parts_add_missing:
  assumes "\<And>g. g \<in> set gs \<Longrightarrow> g \<noteq> [] \<and> 44 \<notin> set g"
  shows "comma_parts (foldl (\<lambda>a g. if g \<notin> old then a @ [44] @ g else a) acc gs)
           = comma_parts acc @ filter (\<lambda>g. g \<notin> old) gs"
  using assms
  by (induction gs arbitrary: acc) (simp_all add: comma_parts_append comma_parts_single)

lemma comma_parts_merge:
  "comma_parts (merge_groups acc g) =
     comma_parts acc @ filter (\<lambda>x. x \<notin> set (comma_parts acc)) (comma_parts g)"
proof (cases "acc = []")
  case True
  then show ?thesis by (simp add: merge_groups_def)
next
  case False
  have "\<And>x. x \<in> set (comma_parts g) \<Longrightarrow> x \<noteq> [] \<and> 44 \<notin> set x" by (rule in_comma_parts)
  from comma_parts_add_missing [OF this, of "comma_parts g" "set (comma_parts acc)" acc] False
  show ?thesis by (simp add: merge_groups_def Let_def)
qed

lemma set_comma_parts_fold:
  "set (comma_parts (foldl merge_groups acc gs)) =
     set (comma_parts acc) \<union> (\<Union>g\<in>set gs. set (comma_parts g))"
  by (induction gs arbitrary: acc) (auto simp: comma_parts_merge)

lemma distinct_comma_parts_fold:
  "distinct (comma_parts acc) \<Longrightarrow> \<forall>g\<in>set gs. distinct (comma_parts g) \<Longrightarrow>
   distinct (comma_parts (foldl merge_groups acc gs))"
proof (induction gs arbitrary: acc)
  case (Cons g gs)
  then have "distinct (comma_parts (merge_groups acc g))" by (auto simp: comma_parts_merge)
  with Cons show ?case by simp
qed simp

text \<open>The row of a tag.\<close>

lemma tag_row_exists:
  assumes "r \<in> set (aggregateChannelsByTag cs)"
  obtains c ms where "filter (\<lambda>x. tag_of x = row_id r) cs = c # ms"
    and "r = foldl add_child (new_tag_row c) (c # ms)"
proof -
  obtain c0 where c0: "c0 \<in> set cs" "r = tag_rows.row_for (tag_of c0) cs"
    using assms by (auto simp: aggregateChannelsByTag_def tag_rows.rows_fold)
  then have id: "row_id r = tag_of c0" using tag_rows.key_row_for by simp
  have "filter (\<lambda>x. tag_of x = tag_of c0) cs \<noteq> []" using c0 tag_rows.members_nonempty by blast
  then obtain c ms where "filter (\<lambda>x. tag_of x = tag_of c0) cs = c # ms" by (meson neq_Nil_conv)
  then show thesis using that [of c ms] c0(2) id by (simp add: tag_rows.row_for_def del: foldl_Cons)
qed

lemma new_tag_row_fields [simp]:
  "row_children (new_tag_row c) = []" "row_status (new_tag_row c) = None"
  "ch_used_quota (row_base (new_tag_row c)) = Fin 0" "ch_response_time (row_base (new_tag_row c)) = Fin 0"
  "ch_priority (row_base (new_tag_row c)) = Some (Fin (- 1))"
  "ch_weight (row_base (new_tag_row c)) = Some (Fin (- 1))" "ch_group (row_base (new_tag_row c)) = []"
  by (simp_all add: new_tag_row_def Let_def)

lemma mset_partition_by:
  "distinct ks \<Longrightarrow> f ` set xs \<subseteq> set ks \<Longrightarrow>
   mset (concat (map (\<lambda>k. filter (\<lambda>x. f x = k) xs) ks)) = mset xs"
proof (induction ks arbitrary: xs)
  case Nil
  then show ?case by (cases xs) simp_all
next
  case (Cons k ks)
  let ?ys = "filter (\<lambda>x. f x \<noteq> k) xs"
  have "map (\<lambda>k'. filter (\<lambda>x. f x = k') xs) ks = map (\<lambda>k'. filter (\<lambda>x. f x = k') ?ys) ks"
  proof (rule map_cong [OF refl])
    fix k' assume "k' \<in> set ks"
    then have "k' \<noteq> k" using Cons.prems(1) by auto
    then show "filter (\<lambda>x. f x = k') xs = filter (\<lambda>x. f x = k') ?ys"
      by (auto intro: filter_cong)
  qed
  then have "mset (concat (map (\<lambda>k'. filter (\<lambda>x. f x = k') xs) ks)) =
      mset (concat (map (\<lambda>k'. filter (\<lambda>x. f x = k') ?ys) ks))" by (simp only:)
  also have "\<dots> = mset ?ys" using Cons.prems by (intro Cons.IH) auto
  finally have "mset (concat (map (\<lambda>k'. filter (\<lambda>x. f x = k') xs) (k # ks))) =
      mset (filter (\<lambda>x. f x = k) xs) + mset ?ys" by simp
  also have "\<dots> = mset xs" by (simp add: multiset_partition [symmetric])
  finally show ?case .
qed

text \<open>Tag mode shows every channel once: there is one row for each tag, in the order in which
  the tags first appear, its children are the channels of that tag in their order, and the
  children of all rows together are the channels.\<close>

theorem aggregate_partition:
  "map (\<lambda>r. (row_id r, row_children r)) (aggregateChannelsByTag channels) =
     map (\<lambda>t. (t, filter (\<lambda>c. tag_of c = t) channels)) (from_set (map tag_of channels))
   \<and> mset (concat (map row_children (aggregateChannelsByTag channels))) = mset channels"
proof -
  let ?rows = "aggregateChannelsByTag channels"
  have row: "row_children r = filter (\<lambda>c. tag_of c = row_id r) channels" if "r \<in> set ?rows" for r
    using tag_row_exists [OF that] by (metis row_children_fold new_tag_row_fields(1) append_Nil)
  have ids: "map row_id ?rows = from_set (map tag_of channels)"
    by (simp add: aggregateChannelsByTag_def tag_rows.row_keys)
  have "map (\<lambda>r. (row_id r, row_children r)) ?rows =
      map (\<lambda>t. (t, filter (\<lambda>c. tag_of c = t) channels)) (map row_id ?rows)"
    using row by simp
  moreover have "map row_children ?rows = map (\<lambda>t. filter (\<lambda>c. tag_of c = t) channels) (map row_id ?rows)"
    using row by simp
  ultimately show ?thesis unfolding ids by (simp add: mset_partition_by)
qed

text \<open>A tag row is enabled when one of its channels is, else it has the status of its first
  channel; its groups are those of its channels, each once when no channel repeats one.\<close>

theorem aggregate_fields:
  assumes "r \<in> set (aggregateChannelsByTag channels)"
  shows "row_status r = Some (if \<exists>c\<in>set (row_children r). isChannelEnabled c then 1
                              else ch_status (hd (row_children r)))
    \<and> set (comma_parts (ch_group (row_base r))) =
           (\<Union>c\<in>set (row_children r). set (comma_parts (ch_group c)))
    \<and> (list_all (\<lambda>c. distinct (comma_parts (ch_group c))) (row_children r)
           \<longrightarrow> distinct (comma_parts (ch_group (row_base r))))"
proof (intro conjI)
  obtain c ms where r: "r = foldl add_child (new_tag_row c) (c # ms)"
    using tag_row_exists [OF assms] by metis
  have ch: "row_children r = c # ms" unfolding r by (simp only: row_children_fold) simp
  show "row_status r = Some (if \<exists>c\<in>set (row_children r). isChannelEnabled c then 1
                              else ch_status (hd (row_children r)))"
    unfolding ch unfolding r row_folds
    by (subst merge_status_fold) (auto simp: isChannelEnabled_def)
  show "set (comma_parts (ch_group (row_base r))) =
           (\<Union>c\<in>set (row_children r). set (comma_parts (ch_group c)))"
    unfolding ch unfolding r row_folds set_comma_parts_fold by simp
  show "list_all (\<lambda>c. distinct (comma_parts (ch_group c))) (row_children r)
           \<longrightarrow> distinct (comma_parts (ch_group (row_base r)))"
    unfolding ch unfolding r row_folds
    by (auto simp: list_all_iff simp del: foldl_Cons intro!: distinct_comma_parts_fold)
qed

text \<open>Sums and averages.\<close>

lemma num_add_fold_ints:
  assumes "0 \<le> a" "\<forall>q\<in>set qs. 0 \<le> q" "a + sum_list qs < 2 ^ 53"
  shows "foldl num_add (num_of_int a) (map num_of_int qs) = num_of_int (a + sum_list qs)"
  using assms
proof (induction qs arbitrary: a)
  case (Cons q qs)
  have "0 \<le> sum_list qs" using Cons.prems by (auto intro: sum_list_nonneg)
  then have "num_add (num_of_int a) (num_of_int q) = num_of_int (a + q)"
    using Cons.prems by (intro num_add_int) auto
  with Cons show ?case by (simp add: add.assoc)
qed simp

definition mean_step :: "int \<Rightarrow> jnum \<Rightarrow> jnum \<Rightarrow> jnum" where
  "mean_step n a t = num_div (num_add (num_mul a (num_of_int (n - 1))) t) (num_of_int n)"

lemma mean_step_between:
  assumes "0 \<le> lo" "1 < n" "hi * n < 2 ^ 53"
    and "of_int lo \<le> a" "a \<le> of_int hi" "of_int lo \<le> t" "t \<le> of_int hi"
  obtains y where "mean_step n (Fin a) (Fin t) = Fin y" "of_int lo \<le> y" "y \<le> of_int hi"
proof -
  have lohi: "lo \<le> hi" using assms(4,5) by (meson of_int_le_iff order_trans)
  have hi: "0 \<le> hi" using lohi assms(1) by simp
  have "hi * 1 \<le> hi * n" using hi assms(2) by (intro mult_left_mono) auto
  then have b1: "hi < 2 ^ 53" using assms(3) by simp
  have "hi * (n - 1) \<le> hi * n" using hi by (intro mult_left_mono) auto
  then have b2: "hi * (n - 1) < 2 ^ 53" using assms(3) by simp
  have "of_int (lo * (n - 1)) \<le> a * of_int (n - 1)" "a * of_int (n - 1) \<le> of_int (hi * (n - 1))"
    using assms(2,4,5) by (simp_all add: mult_right_mono)
  then obtain p where p: "round64 (a * of_int (n - 1)) = Fin p"
      "of_int (lo * (n - 1)) \<le> p" "p \<le> of_int (hi * (n - 1))"
    using round64_between [of "lo * (n - 1)" "a * of_int (n - 1)" "hi * (n - 1)"] assms(1,2) b2 by auto
  have "of_int (lo * n) \<le> p + t" "p + t \<le> of_int (hi * n)"
    using p(2,3) assms(6,7) by (simp_all add: algebra_simps)
  then obtain s where s: "round64 (p + t) = Fin s" "of_int (lo * n) \<le> s" "s \<le> of_int (hi * n)"
    using round64_between [of "lo * n" "p + t" "hi * n"] assms(1,2,3) by auto
  have n: "(0 :: rat) < of_int n" using assms(2) by simp
  have "of_int lo \<le> s / of_int n" "s / of_int n \<le> of_int hi"
    using s(2,3) n by (simp_all add: field_simps)
  then obtain y where y: "round64 (s / of_int n) = Fin y" "of_int lo \<le> y" "y \<le> of_int hi"
    using round64_between [of lo "s / of_int n" hi] assms(1) b1 by auto
  have "mean_step n (Fin a) (Fin t) = Fin y"
    using assms(2) p(1) s(1) y(1) by (simp add: mean_step_def num_of_int_def num_mul_def num_div_def)
  then show thesis using that y(2,3) by blast
qed

lemma mean_step_first:
  assumes "0 \<le> lo" "hi < 2 ^ 53" "of_int lo \<le> t" "t \<le> of_int hi"
  obtains y where "mean_step 1 (Fin 0) (Fin t) = Fin y" "of_int lo \<le> y" "y \<le> of_int hi"
proof -
  obtain s where s: "round64 t = Fin s" "of_int lo \<le> s" "s \<le> of_int hi"
    using round64_between [OF assms(1,3,4,2)] by metis
  obtain y where y: "round64 s = Fin y" "of_int lo \<le> y" "y \<le> of_int hi"
    using round64_between [OF assms(1) s(2,3) assms(2)] by metis
  have "round64 0 = Fin 0" by (simp add: round64_def)
  then have "mean_step 1 (Fin 0) (Fin t) = Fin y"
    using s(1) y(1) by (simp add: mean_step_def num_of_int_def num_mul_def num_div_def)
  then show thesis using that y(2,3) by blast
qed

lemma row_time_step:
  "ch_response_time (row_base (add_child r c)) =
     mean_step (int (Suc (length (row_children r)))) (ch_response_time (row_base r)) (ch_response_time c)"
  by (simp add: add_child_def Let_def mean_step_def)

definition time_within :: "int \<Rightarrow> int \<Rightarrow> jnum \<Rightarrow> bool" where
  "time_within lo hi t = (case t of Fin x \<Rightarrow> of_int lo \<le> x \<and> x \<le> of_int hi | _ \<Rightarrow> False)"

lemma row_time_fold:
  assumes "0 \<le> lo" "hi * int (length (row_children r) + length cs) < 2 ^ 53"
    and "row_children r \<noteq> []" "time_within lo hi (ch_response_time (row_base r))"
    and "\<forall>c\<in>set cs. time_within lo hi (ch_response_time c)"
  shows "time_within lo hi (ch_response_time (row_base (foldl add_child r cs)))"
  using assms
proof (induction cs arbitrary: r)
  case (Cons c cs)
  obtain a where a: "ch_response_time (row_base r) = Fin a" "of_int lo \<le> a" "a \<le> of_int hi"
    using Cons.prems(4) by (auto simp: time_within_def split: jnum.splits)
  obtain t where t: "ch_response_time c = Fin t" "of_int lo \<le> t" "t \<le> of_int hi"
    using Cons.prems(5) by (auto simp: time_within_def split: jnum.splits)
  have "lo \<le> hi" using a(2,3) by (meson of_int_le_iff order_trans)
  then have "0 \<le> hi" using Cons.prems(1) by simp
  then have "hi * int (Suc (length (row_children r))) \<le> hi * int (length (row_children r) + length (c # cs))"
    by (intro mult_left_mono) simp_all
  then have "hi * int (Suc (length (row_children r))) < 2 ^ 53" using Cons.prems(2) by linarith
  moreover have "1 < int (Suc (length (row_children r)))" using Cons.prems(3) by (cases "row_children r") auto
  ultimately obtain y where "ch_response_time (row_base (add_child r c)) = Fin y" "of_int lo \<le> y" "y \<le> of_int hi"
    unfolding row_time_step a(1) t(1)
    using mean_step_between [of lo "int (Suc (length (row_children r)))" hi a t] Cons.prems(1) a(2,3) t(2,3) by metis
  then have "time_within lo hi (ch_response_time (row_base (add_child r c)))" by (simp add: time_within_def)
  moreover have "row_children (add_child r c) = row_children r @ [c]" by (simp add: add_child_def Let_def)
  ultimately have "time_within lo hi (ch_response_time (row_base (foldl add_child (add_child r c) cs)))"
    using Cons.prems by (intro Cons.IH) simp_all
  then show ?case by simp
qed simp


text \<open>The quota of a tag row is the exact sum of the quotas of its channels as long as that is
  below \<open>2 ^ 53\<close>, and its response time, a running mean that is rounded at every step, never
  leaves the range of the response times of its channels.\<close>

theorem aggregate_numbers:
  assumes "r \<in> set (aggregateChannelsByTag channels)"
    and "map ch_used_quota (row_children r) = map num_of_int qs"
    and "\<forall>q\<in>set qs. 0 \<le> q" and "sum_list qs < 2 ^ 53"
    and "\<forall>c\<in>set (row_children r). time_within lo hi (ch_response_time c)"
    and "0 \<le> lo" and "hi * int (length (row_children r)) < 2 ^ 53"
  shows "ch_used_quota (row_base r) = num_of_int (sum_list qs)
    \<and> time_within lo hi (ch_response_time (row_base r))"
proof
  obtain c ms where r: "r = foldl add_child (new_tag_row c) (c # ms)"
    using tag_row_exists [OF assms(1)] by metis
  have ch: "row_children r = c # ms" unfolding r by (simp only: row_children_fold) simp
  have "ch_used_quota (row_base r) = foldl num_add (num_of_int 0) (map num_of_int qs)"
    unfolding assms(2) [symmetric] ch unfolding r row_quota_fold by (simp add: num_of_int_def)
  then show "ch_used_quota (row_base r) = num_of_int (sum_list qs)"
    using num_add_fold_ints [of 0 qs] assms(3,4) by simp
  obtain t where t: "ch_response_time c = Fin t" "of_int lo \<le> t" "t \<le> of_int hi"
    using assms(5) unfolding ch by (auto simp: time_within_def split: jnum.splits)
  have "lo \<le> hi" using t(2,3) by (meson of_int_le_iff order_trans)
  then have "hi * 1 \<le> hi * int (length (row_children r))"
    using assms(6) unfolding ch by (intro mult_left_mono) auto
  then have "hi < 2 ^ 53" using assms(7) by simp
  then obtain y where y: "mean_step 1 (Fin 0) (Fin t) = Fin y" "of_int lo \<le> y" "y \<le> of_int hi"
    using mean_step_first [OF assms(6) _ t(2,3)] by metis
  let ?r1 = "add_child (new_tag_row c) c"
  have "ch_response_time (row_base ?r1) = Fin y" using y(1) by (simp add: row_time_step t(1))
  then have "time_within lo hi (ch_response_time (row_base ?r1))" using y by (simp add: time_within_def)
  moreover have "row_children ?r1 = [c]" by (simp add: add_child_def Let_def)
  ultimately have "time_within lo hi (ch_response_time (row_base (foldl add_child ?r1 ms)))"
    using assms(5-7) unfolding ch by (intro row_time_fold) simp_all
  then show "time_within lo hi (ch_response_time (row_base r))" unfolding r by simp
qed

text \<open>The priority and the weight of a tag row are those its channels share, and \<open>null\<close> when
  they differ, provided no channel has the value \<open>-1\<close> that marks an empty row.\<close>

theorem aggregate_priority:
  assumes "r \<in> set (aggregateChannelsByTag channels)"
    and "\<forall>c\<in>set (row_children r). ch_priority c \<noteq> Some (Fin (- 1)) \<and> ch_priority c \<noteq> Some NaN
           \<and> ch_weight c \<noteq> Some (Fin (- 1)) \<and> ch_weight c \<noteq> Some NaN"
  shows "ch_priority (row_base r) = (if \<forall>c\<in>set (row_children r). ch_priority c = ch_priority (hd (row_children r))
                                     then ch_priority (hd (row_children r)) else None)
    \<and> ch_weight (row_base r) = (if \<forall>c\<in>set (row_children r). ch_weight c = ch_weight (hd (row_children r))
                                 then ch_weight (hd (row_children r)) else None)"
proof
  obtain c ms where r: "r = foldl add_child (new_tag_row c) (c # ms)"
    using tag_row_exists [OF assms(1)] by metis
  have ch: "row_children r = c # ms" unfolding r by (simp only: row_children_fold) simp
  have "ch_priority (row_base r) = foldl same_or_null (ch_priority c) (map ch_priority ms)"
    using assms(2) unfolding ch unfolding r row_priority_fold by (simp add: same_or_null_start)
  also have "\<dots> = (if \<forall>v\<in>set (map ch_priority ms). v = ch_priority c then ch_priority c else None)"
    using assms(2) unfolding ch by (intro same_or_null_fold) auto
  finally show "ch_priority (row_base r) = (if \<forall>c\<in>set (row_children r). ch_priority c = ch_priority (hd (row_children r))
                                     then ch_priority (hd (row_children r)) else None)"
    unfolding ch by simp
  have "ch_weight (row_base r) = foldl same_or_null (ch_weight c) (map ch_weight ms)"
    using assms(2) unfolding ch unfolding r row_weight_fold by (simp add: same_or_null_start)
  also have "\<dots> = (if \<forall>v\<in>set (map ch_weight ms). v = ch_weight c then ch_weight c else None)"
    using assms(2) unfolding ch by (intro same_or_null_fold) auto
  finally show "ch_weight (row_base r) = (if \<forall>c\<in>set (row_children r). ch_weight c = ch_weight (hd (row_children r))
                                 then ch_weight (hd (row_children r)) else None)"
    unfolding ch by simp
qed

text \<open>A channel with the value \<open>-1\<close> does not count: the next channel decides alone.\<close>

lemma priority_sentinel:
  assumes "p \<noteq> NaN" and "ch_tag c1 = ch_tag c2"
  shows "map (\<lambda>x. ch_priority (row_base x))
    (aggregateChannelsByTag [c1\<lparr>ch_priority := Some (Fin (- 1))\<rparr>, c2\<lparr>ch_priority := Some p\<rparr>]) = [Some p]"
  using assms
  by (simp add: aggregateChannelsByTag_def tag_step_def new_tag_row_def add_child_def tag_of_def Let_def
      same_or_null_def opt_num_eq_iff)

section \<open>Keys\<close>

lemma slice_end_length: "n \<le> length s \<Longrightarrow> length (slice_end n s) = n"
  by (simp add: slice_end_def)

text \<open>The first and the last \<open>n\<close> of at most \<open>2 n\<close> units are all there is.\<close>

lemma ends_determine:
  assumes "length a = length b" "length a \<le> 2 * n" "take n a = take n b" "slice_end n a = slice_end n b"
  shows "a = b"
proof (rule nth_equalityI)
  show "length a = length b" by fact
  fix i assume i: "i < length a"
  show "a ! i = b ! i"
  proof (cases "i < n")
    case True
    then show ?thesis using assms(3) i by (metis nth_take)
  next
    case False
    let ?d = "length a - n"
    have d: "?d \<le> i" using False assms(2) i by simp
    have "drop ?d a ! (i - ?d) = drop ?d b ! (i - ?d)" using assms(1,4) by (simp add: slice_end_def)
    then show ?thesis using d i assms(1) by simp
  qed
qed

lemma mask_parts:
  assumes "length a = length b"
  shows "take n a @ m @ slice_end n a = take n b @ m @ slice_end n b \<longleftrightarrow>
         take n a = take n b \<and> slice_end n a = slice_end n b"
proof -
  have "length (take n a) = length (take n b)" using assms by simp
  then show ?thesis by simp
qed

text \<open>Masking: for keys of one length above 8, the mask shows the ends of the key and nothing
  else, so keys that differ only in between look the same; a key of at most 8 units is shown in
  full, whatever its mask looks like.\<close>

theorem mask_shows_ends:
  assumes "length a = length b" and "a \<noteq> []"
  shows "formatChannelKey a False = formatChannelKey b False \<longleftrightarrow>
    (if length a \<le> 8 then a = b
     else take (if length a \<le> 16 then 4 else 8) a = take (if length a \<le> 16 then 4 else 8) b
       \<and> slice_end (if length a \<le> 16 then 4 else 8) a = slice_end (if length a \<le> 16 then 4 else 8) b)"
proof -
  have b: "b \<noteq> []" using assms by auto
  show ?thesis
  proof (cases "length a \<le> 16")
    case True
    then have "formatChannelKey a False = formatChannelKey b False \<longleftrightarrow>
        take 4 a = take 4 b \<and> slice_end 4 a = slice_end 4 b"
      using assms b mask_parts [OF assms(1)] by (simp add: formatChannelKey_def)
    moreover have "take 4 a = take 4 b \<and> slice_end 4 a = slice_end 4 b \<longleftrightarrow> a = b" if "length a \<le> 8"
      using ends_determine [of a b 4] assms(1) that by auto
    ultimately show ?thesis using True by simp
  next
    case False
    then show ?thesis using assms b mask_parts [OF assms(1)] by (simp add: formatChannelKey_def)
  qed
qed

lemma mask_shows_ends_witness:
  "formatChannelKey (js ''sk-abcdefXYZW'') False = formatChannelKey (js ''sk-aFEDCBXYZW'') False
   \<and> formatChannelKey (js ''hunter2'') False \<noteq> formatChannelKey (js ''hunter3'') False"
proof
  show "formatChannelKey (js ''sk-abcdefXYZW'') False = formatChannelKey (js ''sk-aFEDCBXYZW'') False"
    by (subst mask_shows_ends) (simp_all add: slice_end_def js_def)
  show "formatChannelKey (js ''hunter2'') False \<noteq> formatChannelKey (js ''hunter3'') False"
    by (subst mask_shows_ends) (simp_all add: js_def)
qed

section \<open>Duplicate keys\<close>

lemma dedup_fold:
  "foldl (\<lambda>ks line. let t = trim line in if t \<noteq> [] \<and> t \<notin> set ks then ks @ [t] else ks) ks lines
     = foldl set_add ks (filter (\<lambda>t. t \<noteq> []) (map trim lines))"
  by (induction lines arbitrary: ks) (auto simp: Let_def set_add_def)

lemma trimmed_key_lines:
  "filter (\<lambda>t. t \<noteq> []) (map trim (split_str [10] s)) = map trim (key_lines s)"
  by (simp add: key_lines_def filter_map comp_def)

definition keys_unique :: "jstr \<Rightarrow> jstr list" where
  "keys_unique s = from_set (map trim (key_lines s))"

lemma dedup_fold_keys:
  "foldl (\<lambda>ks line. let t = trim line in if t \<noteq> [] \<and> t \<notin> set ks then ks @ [t] else ks) [] (split_str [10] s)
     = keys_unique s"
  unfolding dedup_fold trimmed_key_lines by (simp add: keys_unique_def from_set_def)

lemma newline_ws: "is_ws 10"
  by (simp add: is_ws_def)

lemma unique_key_facts:
  assumes "k \<in> set (keys_unique s)"
  shows "k \<noteq> []" and "trim k = k" and "10 \<notin> set k"
proof -
  obtain l where l: "l \<in> set (split_str [10] s)" "k = trim l" "k \<noteq> []"
    using assms by (auto simp: keys_unique_def key_lines_def)
  show "k \<noteq> []" "trim k = k" using l by simp_all
  show "10 \<notin> set k" using split_char_no_sep [OF l(1)] set_trim_subset [of l] l(2) by auto
qed

lemma blank_no_keys: "trim s = [] \<Longrightarrow> keys_unique s = []"
proof -
  assume "trim s = []"
  then have ws: "list_all is_ws s" by (simp add: trim_eq_Nil_iff)
  have "trim l = []" if "l \<in> set (split_str [10] s)" for l
  proof -
    have "set l \<subseteq> set s" using set_split_char [of 10 s] that by auto
    with ws have "list_all is_ws l" by (auto simp: list_all_iff)
    then show ?thesis by (simp add: trim_eq_Nil_iff)
  qed
  then have "key_lines s = []" by (simp add: key_lines_def filter_empty_conv)
  then show ?thesis by (simp add: keys_unique_def)
qed

lemma deduplicated_text: "deduplicatedText (deduplicateKeys s) = join [10] (keys_unique s)"
  "afterCount (deduplicateKeys s) = length (keys_unique s)"
  by (simp_all add: deduplicateKeys_def dedup_fold_keys [unfolded Let_def] Let_def blank_no_keys)

lemma key_lines_join:
  assumes "\<And>k. k \<in> set ks \<Longrightarrow> k \<noteq> [] \<and> trim k = k \<and> 10 \<notin> set k"
  shows "key_lines (join [10] ks) = ks"
proof (cases "ks = []")
  case True
  then show ?thesis by (simp add: key_lines_def)
next
  case False
  then have "split_str [10] (join [10] ks) = ks" using assms by (intro split_join) auto
  moreover have "filter (\<lambda>k. trim k \<noteq> []) ks = ks" using assms by (simp add: filter_id_conv)
  ultimately show ?thesis by (simp add: key_lines_def)
qed

lemma key_lines_unique: "key_lines (join [10] (keys_unique s)) = keys_unique s"
  using unique_key_facts by (intro key_lines_join) blast

lemma keys_unique_fixed: "keys_unique (join [10] (keys_unique s)) = keys_unique s"
proof -
  have "map trim (keys_unique s) = keys_unique s" using unique_key_facts(2) by (simp add: map_idI)
  then show ?thesis
    unfolding keys_unique_def [of "join [10] (keys_unique s)"] key_lines_unique
    by (simp add: keys_unique_def)
qed

text \<open>Removing duplicates leaves each trimmed non-blank line once, in order of appearance: the
  lines of the new text are those keys, their number is the count reported and the one
  \<open>countKeys\<close> gives, and doing it again changes and removes nothing.\<close>

theorem dedupe_spec:
  "key_lines (deduplicatedText (deduplicateKeys s)) = from_set (map trim (key_lines s))
   \<and> afterCount (deduplicateKeys s) = countKeys (deduplicatedText (deduplicateKeys s))
   \<and> removedCount (deduplicateKeys s) = int (beforeCount (deduplicateKeys s)) - int (afterCount (deduplicateKeys s))
   \<and> deduplicatedText (deduplicateKeys (deduplicatedText (deduplicateKeys s))) = deduplicatedText (deduplicateKeys s)
   \<and> removedCount (deduplicateKeys (deduplicatedText (deduplicateKeys s))) = 0"
proof (intro conjI)
  let ?t = "join [10] (keys_unique s)"
  show "key_lines (deduplicatedText (deduplicateKeys s)) = from_set (map trim (key_lines s))"
    unfolding deduplicated_text key_lines_unique by (simp add: keys_unique_def)
  have count: "countKeys ?t = length (keys_unique s)"
  proof (cases "?t = []")
    case True
    then have "keys_unique s = []" using key_lines_unique [of s] by (simp add: key_lines_def)
    then show ?thesis by (simp add: countKeys_def)
  next
    case False
    then show ?thesis by (simp add: countKeys_def key_lines_unique)
  qed
  then show "afterCount (deduplicateKeys s) = countKeys (deduplicatedText (deduplicateKeys s))"
    unfolding deduplicated_text by simp
  have rem: "removedCount (deduplicateKeys u) = int (beforeCount (deduplicateKeys u)) - int (afterCount (deduplicateKeys u))" for u
    by (simp add: deduplicateKeys_def Let_def)
  then show "removedCount (deduplicateKeys s) = int (beforeCount (deduplicateKeys s)) - int (afterCount (deduplicateKeys s))" .
  show "deduplicatedText (deduplicateKeys (deduplicatedText (deduplicateKeys s))) = deduplicatedText (deduplicateKeys s)"
    unfolding deduplicated_text keys_unique_fixed ..
  have "beforeCount (deduplicateKeys ?t) = length (keys_unique s)"
  proof (cases "trim ?t = []")
    case True
    then have "keys_unique s = []" using blank_no_keys [of ?t] keys_unique_fixed by simp
    then show ?thesis by (simp add: deduplicateKeys_def)
  next
    case False
    then have ne: "?t \<noteq> []" by auto
    then have "keys_unique s \<noteq> []" by auto
    then have "split_str [10] ?t = keys_unique s" using unique_key_facts(3) by (intro split_join) auto
    then show ?thesis using False ne by (simp add: deduplicateKeys_def Let_def)
  qed
  then show "removedCount (deduplicateKeys (deduplicatedText (deduplicateKeys s))) = 0"
    unfolding deduplicated_text rem keys_unique_fixed by simp
qed

text \<open>Two channels of a tag.\<close>

definition demo_channel :: channel where
  "demo_channel =
     \<lparr>ch_id = Fin 1, ch_type = 1, ch_key = js ''sk-1'', ch_openai_organization = None, ch_test_model = None,
      ch_status = 2, ch_name = js ''one'', ch_weight = Some (Fin 3), ch_created_time = Fin 0, ch_test_time = Fin 0,
      ch_response_time = Fin 400, ch_base_url = None, ch_other = [], ch_balance = Fin 0,
      ch_balance_updated_time = Fin 0, ch_models = js ''gpt'', ch_group = js ''default,vip'',
      ch_used_quota = Fin 10, ch_model_mapping = None, ch_status_code_mapping = None, ch_priority = Some (Fin 5),
      ch_auto_ban = None, ch_other_info = [], ch_tag = Some (js ''a''), ch_setting = None, ch_param_override = None,
      ch_header_override = None, ch_remark = [], ch_max_input_tokens = Fin 0,
      ch_info = \<lparr>is_multi_key = False, multi_key_size = Fin 0, multi_key_status_list = None,
                 multi_key_polling_index = Fin 0, info_multi_key_mode = RandomKey\<rparr>,
      ch_settings = []\<rparr>"

definition demo_channels :: "channel list" where
  "demo_channels =
     [demo_channel, demo_channel\<lparr>ch_status := 1, ch_priority := Some (Fin 7), ch_response_time := Fin 800,
                                 ch_used_quota := Fin 32, ch_group := js ''vip,beta''\<rparr>]"

definition demo_row :: tag_row where
  "demo_row = foldl add_child (new_tag_row demo_channel) demo_channels"

lemma demo_row_in: "demo_row \<in> set (aggregateChannelsByTag demo_channels)"
  and demo_children: "row_children demo_row = demo_channels"
proof -
  have "tag_of c = js ''a''" if "c \<in> set demo_channels" for c
    using that by (auto simp: demo_channels_def demo_channel_def tag_of_def)
  then have "filter (\<lambda>c. tag_of c = js ''a'') demo_channels = demo_channels" by (simp add: filter_id_conv)
  moreover have "map tag_of demo_channels = [js ''a'', js ''a'']"
    by (simp add: demo_channels_def demo_channel_def tag_of_def)
  moreover have "hd demo_channels = demo_channel" by (simp add: demo_channels_def)
  ultimately show "demo_row \<in> set (aggregateChannelsByTag demo_channels)"
    by (simp add: aggregateChannelsByTag_def tag_rows.rows_fold tag_rows.row_for_def demo_row_def)
  show "row_children demo_row = demo_channels" by (simp add: demo_row_def row_children_fold)
qed

lemma aggregate_fields_witness:
  "row_status demo_row = Some 1"
  using aggregate_fields [OF demo_row_in] unfolding demo_children
  by (simp add: demo_channels_def demo_channel_def isChannelEnabled_def)

lemma aggregate_numbers_witness:
  "ch_used_quota (row_base demo_row) = num_of_int 42
   \<and> time_within 400 800 (ch_response_time (row_base demo_row))"
  using aggregate_numbers [OF demo_row_in, of "[10, 32]" 400 800] unfolding demo_children
  by (simp add: demo_channels_def demo_channel_def time_within_def num_of_int_def)

lemma aggregate_priority_witness:
  "ch_priority (row_base demo_row) = None \<and> ch_weight (row_base demo_row) = Some (Fin 3)"
  using aggregate_priority [OF demo_row_in] unfolding demo_children
  by (simp add: demo_channels_def demo_channel_def)

section \<open>Ollama models\<close>

lemma obj_put_same: "map_of ps k = Some v \<Longrightarrow> obj_put k v ps = ps"
  by (induction ps) (auto split: if_splits)

lemma map_of_fill_other: "k \<noteq> k' \<Longrightarrow> map_of (fill k v ps) (js k') = map_of ps (js k')"
  by (simp add: fill_def split: option.split)

lemma map_of_fill:
  "map_of (fill k v ps) (js k) =
     (case v of None \<Rightarrow> map_of ps (js k)
      | Some x \<Rightarrow> if truthy_opt (map_of ps (js k)) then map_of ps (js k) else Some x)"
  by (simp add: fill_def split: option.split)

lemma fill_id:
  "(\<And>x. v = Some x \<Longrightarrow> truthy_opt (map_of ps (js k)) \<or> map_of ps (js k) = Some x) \<Longrightarrow> fill k v ps = ps"
  by (cases v) (auto simp: fill_def obj_put_same)

lemma fill_settled: "v = Some x \<Longrightarrow> truthy_opt (map_of (fill k v ps) (js k)) \<or> map_of (fill k v ps) (js k) = Some x"
  by (simp add: map_of_fill)

lemma truthy_fill: "truthy_opt (map_of ps (js k)) \<Longrightarrow> truthy_opt (map_of (fill k' v ps) (js k))"
  by (cases "k = k'") (simp_all add: map_of_fill map_of_fill_other split: option.split)

lemma fill_own_size: "fill ''size'' (map_option JNum (getNumber (map_of ps (js ''size'')))) ps = ps"
  by (rule fill_id) (auto simp: getNumber_def split: option.splits jsval.splits)

lemma fill_from_metadata_idem:
  "fill_from_metadata metadata (fill_from_metadata metadata ps) = fill_from_metadata metadata ps"
proof (cases "isRecord_opt metadata")
  case True
  let ?s = "map_option JNum (getNumber (get_prop_opt metadata ''size''))"
  let ?d = "truthy_text (getString (get_prop_opt metadata ''digest''))"
  let ?m = "truthy_text (getString (get_prop_opt metadata ''modified_at''))"
  let ?e = "truthy_value (get_prop_opt metadata ''details'')"
  let ?ps = "fill ''details'' ?e (fill ''modified_at'' ?m (fill ''digest'' ?d (fill ''size'' ?s ps)))"
  have s: "fill ''size'' ?s ?ps = ?ps"
    by (rule fill_id, drule fill_settled) (simp add: map_of_fill_other)
  have d: "fill ''digest'' ?d ?ps = ?ps"
    by (rule fill_id, drule fill_settled) (simp add: map_of_fill_other)
  have m: "fill ''modified_at'' ?m ?ps = ?ps"
    by (rule fill_id, drule fill_settled) (simp add: map_of_fill_other)
  have e: "fill ''details'' ?e ?ps = ?ps"
    by (rule fill_id, drule fill_settled)
  show ?thesis using True by (simp add: fill_from_metadata_def s d m e)
qed (simp add: fill_from_metadata_def)

lemma map_of_fill_from_metadata:
  assumes "k \<notin> {''size'', ''digest'', ''modified_at'', ''details''}"
  shows "map_of (fill_from_metadata metadata ps) (js k) = map_of ps (js k)"
  using assms by (auto simp: fill_from_metadata_def map_of_fill_other)

lemma ollama_metadata_cong:
  "map_of a (js ''metadata'') = map_of b (js ''metadata'') \<Longrightarrow>
   map_of a (js ''Metadata'') = map_of b (js ''Metadata'') \<Longrightarrow> ollama_metadata a = ollama_metadata b"
  by (simp only: ollama_metadata_def)

lemma first_str_nonempty: "first_str ss = Some s \<Longrightarrow> s \<noteq> []"
  by (induction ss) (auto split: if_splits)

lemma owner_nonempty: "owner_of ps \<noteq> []"
  using first_str_nonempty by (auto simp: owner_of_def split: option.split)

theorem normalize_item_stable:
  assumes "normalize_ollama_item v = Some w"
  shows "normalize_ollama_item w = Some w
    \<and> (\<exists>ps i. w = JObj ps \<and> map_of ps (js ''id'') = Some (JStr i) \<and> i \<noteq> [])"
proof (cases v)
  case (JStr s)
  then have s: "s \<noteq> []" and w: "w = JObj [(js ''id'', JStr s), (js ''owned_by'', JStr (js ''ollama''))]"
    using assms by (auto simp: normalize_ollama_item_def split: if_splits)
  have "normalize_ollama_item w = Some w"
    unfolding w using s
    by (simp add: normalize_ollama_item_def candidate_id_def owner_of_def ollama_metadata_def
        getString_def getNumber_def fill_def fill_from_metadata_def isRecord_opt_def)
  then show ?thesis using s w by auto
next
  case (JObj ps)
  then obtain cid where cid: "candidate_id ps = Some cid"
      and w: "w = JObj (fill_from_metadata (ollama_metadata ps)
                (fill ''size'' (map_option JNum (getNumber (map_of ps (js ''size''))))
                  (obj_put (js ''owned_by'') (JStr (owner_of ps)) (obj_put (js ''id'') (JStr cid) ps))))"
    using assms by (auto simp: normalize_ollama_item_def split: option.splits)
  let ?qs = "obj_put (js ''owned_by'') (JStr (owner_of ps)) (obj_put (js ''id'') (JStr cid) ps)"
  let ?ws = "fill_from_metadata (ollama_metadata ps)
                (fill ''size'' (map_option JNum (getNumber (map_of ps (js ''size'')))) ?qs)"
  have w': "w = JObj ?ws" using w .
  have ne: "cid \<noteq> []" using cid first_str_nonempty unfolding candidate_id_def by blast
  have id: "map_of ?ws (js ''id'') = Some (JStr cid)"
    by (simp add: map_of_fill_from_metadata map_of_fill_other)
  have ow: "map_of ?ws (js ''owned_by'') = Some (JStr (owner_of ps))"
    by (simp add: map_of_fill_from_metadata map_of_fill_other)
  have md: "ollama_metadata ?ws = ollama_metadata ps"
    by (rule ollama_metadata_cong) (simp_all add: map_of_fill_from_metadata map_of_fill_other)
  have "candidate_id ?ws = Some cid" using id ne by (simp add: candidate_id_def getString_def)
  moreover have "owner_of ?ws = owner_of ps" using ow owner_nonempty [of ps] by (simp add: owner_of_def getString_def)
  moreover have "obj_put (js ''id'') (JStr cid) ?ws = ?ws" using id by (rule obj_put_same)
  moreover have "obj_put (js ''owned_by'') (JStr (owner_of ps)) ?ws = ?ws" using ow by (rule obj_put_same)
  ultimately have "normalize_ollama_item w = Some w"
    unfolding w' normalize_ollama_item_def
    by (simp only: truthy.simps not_True_eq_False if_False jsval.case option.case md fill_own_size fill_from_metadata_idem)
  then show ?thesis unfolding w' using id ne by auto
qed (use assms in \<open>auto simp: normalize_ollama_item_def split: if_splits\<close>)

text \<open>Every model listed for an Ollama server is an object whose id is a non-empty text, and
  normalising a normalised list changes nothing.\<close>

theorem ollama_models_normal:
  "normalizeOllamaModels (Some (JArr (normalizeOllamaModels items))) = normalizeOllamaModels items
   \<and> list_all (\<lambda>w. getString (get_prop w ''id'') \<noteq> None \<and> getString (get_prop w ''id'') \<noteq> Some [])
       (normalizeOllamaModels items)"
proof
  have stable: "normalize_ollama_item w = Some w
      \<and> (\<exists>ps i. w = JObj ps \<and> map_of ps (js ''id'') = Some (JStr i) \<and> i \<noteq> [])"
    if w: "w \<in> set (normalizeOllamaModels items)" for w
  proof -
    obtain v where "normalize_ollama_item v = Some w"
      using w by (auto simp: normalizeOllamaModels_def set_map_filter split: option.splits jsval.splits)
    then show ?thesis by (rule normalize_item_stable)
  qed
  have "List.map_filter normalize_ollama_item (map id (normalizeOllamaModels items)) = normalizeOllamaModels items"
    by (rule map_filter_id) (simp add: stable)
  then show "normalizeOllamaModels (Some (JArr (normalizeOllamaModels items))) = normalizeOllamaModels items"
    by (simp add: normalizeOllamaModels_def [of "Some (JArr (normalizeOllamaModels items))"])
  show "list_all (\<lambda>w. getString (get_prop w ''id'') \<noteq> None \<and> getString (get_prop w ''id'') \<noteq> Some [])
       (normalizeOllamaModels items)"
    using stable by (fastforce simp: list_all_iff getString_def)
qed

end
