(* ===== verification/JsRegex.thy ===== *)
theory JsRegex
  imports JsString
begin

text \<open>
  Regular expressions as JavaScript runs them: a backtracking matcher that lists all ways to
  match in the order in which they are tried, with numbered groups and back references. The
  first way is the match.
\<close>

section \<open>The matcher\<close>

datatype rx =
    Lit jstr
  | Cls "cunit \<Rightarrow> bool"
  | Seq rx rx
  | Alt rx rx
  | Star rx
  | Cap nat rx
  | Bref nat
  | Eos

type_synonym caps = "nat \<Rightarrow> jstr option"

text \<open>A greedy repetition; an iteration that consumes nothing is not tried. The length of the
  rest bounds the number of iterations.\<close>

primrec star_run :: "nat \<Rightarrow> (caps \<times> jstr \<Rightarrow> (caps \<times> jstr) list) \<Rightarrow> caps \<times> jstr \<Rightarrow> (caps \<times> jstr) list" where
  "star_run 0 f st = [st]"
| "star_run (Suc n) f st =
     concat (map (\<lambda>st'. if length (snd st') < length (snd st) then star_run n f st' else []) (f st)) @ [st]"

primrec run :: "rx \<Rightarrow> caps \<times> jstr \<Rightarrow> (caps \<times> jstr) list" where
  "run (Lit w) st = (if prefix w (snd st) then [(fst st, drop (length w) (snd st))] else [])"
| "run (Cls P) st = (case snd st of [] \<Rightarrow> [] | x # s \<Rightarrow> if P x then [(fst st, s)] else [])"
| "run (Seq a b) st = concat (map (run b) (run a st))"
| "run (Alt a b) st = run a st @ run b st"
| "run (Star r) st = star_run (length (snd st)) (run r) st"
| "run (Cap n r) st =
     map (\<lambda>(c, s). (c(n \<mapsto> take (length (snd st) - length s) (snd st)), s)) (run r st)"
| "run (Bref n) st =
     (case fst st n of
        None \<Rightarrow> [st]
      | Some w \<Rightarrow> if prefix w (snd st) then [(fst st, drop (length w) (snd st))] else [])"
| "run Eos st = (if snd st = [] then [st] else [])"

text \<open>\<open>s.match(/^.../)\<close>: the groups of the first match.\<close>

definition match_start :: "rx \<Rightarrow> jstr \<Rightarrow> caps option" where
  "match_start r s = (case run r (Map.empty, s) of [] \<Rightarrow> None | m # _ \<Rightarrow> Some (fst m))"

definition grp :: "caps \<Rightarrow> nat \<Rightarrow> jstr" where
  "grp c n = (case c n of None \<Rightarrow> [] | Some w \<Rightarrow> w)"

definition Plus :: "(cunit \<Rightarrow> bool) \<Rightarrow> rx" where
  "Plus P = Seq (Cls P) (Star (Cls P))"

definition Opt :: "rx \<Rightarrow> rx" where
  "Opt r = Alt r (Lit [])"

fun seqs :: "rx list \<Rightarrow> rx" where
  "seqs [] = Lit []"
| "seqs [r] = r"
| "seqs (r # r' # rs) = Seq r (seqs (r' # rs))"

fun alts :: "rx list \<Rightarrow> rx" where
  "alts [] = Cls (\<lambda>_. False)"
| "alts [r] = r"
| "alts (r # r' # rs) = Alt r (alts (r' # rs))"

text \<open>\<open>.\<close> without the \<open>s\<close> flag.\<close>

definition dot :: "cunit \<Rightarrow> bool" where
  "dot c \<longleftrightarrow> c \<notin> {10, 13, 8232, 8233}"

section \<open>What can be matched\<close>

lemma in_run_Lit [simp]:
  "(c', s') \<in> set (run (Lit w) (c, s)) \<longleftrightarrow> c' = c \<and> s = w @ s'"
  by (auto simp: prefix_def)

lemma in_run_Cls [simp]:
  "(c', s') \<in> set (run (Cls P) (c, s)) \<longleftrightarrow> c' = c \<and> (\<exists>x. s = x # s' \<and> P x)"
  by (auto split: list.splits)

lemma in_run_Seq [simp]:
  "(c', s') \<in> set (run (Seq a b) (c, s)) \<longleftrightarrow>
   (\<exists>c1 s1. (c1, s1) \<in> set (run a (c, s)) \<and> (c', s') \<in> set (run b (c1, s1)))"
  by auto

lemma in_run_Alt [simp]:
  "x \<in> set (run (Alt a b) st) \<longleftrightarrow> x \<in> set (run a st) \<or> x \<in> set (run b st)"
  by simp

lemma in_run_Cap [simp]:
  "(c', s') \<in> set (run (Cap n r) (c, s)) \<longleftrightarrow>
   (\<exists>c1. (c1, s') \<in> set (run r (c, s)) \<and> c' = c1(n \<mapsto> take (length s - length s') s))"
  by auto

lemma in_run_Eos [simp]: "(c', s') \<in> set (run Eos (c, s)) \<longleftrightarrow> c' = c \<and> s = [] \<and> s' = []"
  by auto

text \<open>Repetition of a class.\<close>

lemma star_run_Cls:
  "star_run (Suc n) (run (Cls P)) (c, []) = [(c, [])]"
  "star_run (Suc n) (run (Cls P)) (c, x # t) =
     (if P x then star_run n (run (Cls P)) (c, t) @ [(c, x # t)] else [(c, x # t)])"
  by simp_all

lemma in_star_Cls:
  "(c', s') \<in> set (star_run n (run (Cls P)) (c, s)) \<longleftrightarrow>
   c' = c \<and> (\<exists>w. s = w @ s' \<and> list_all P w \<and> length w \<le> n)"
proof (induction n arbitrary: s)
  case 0
  then show ?case by auto
next
  case (Suc n)
  show ?case
  proof (cases s)
    case Nil
    then show ?thesis by (auto simp only: star_run_Cls) auto
  next
    case (Cons x t)
    have split: "(\<exists>w. x # t = w @ s' \<and> list_all P w \<and> length w \<le> Suc n) \<longleftrightarrow>
        s' = x # t \<or> P x \<and> (\<exists>w. t = w @ s' \<and> list_all P w \<and> length w \<le> n)"
      (is "?l \<longleftrightarrow> ?r")
    proof
      assume ?l
      then obtain w where "x # t = w @ s'" "list_all P w" "length w \<le> Suc n" by blast
      then show ?r by (cases w) auto
    next
      assume ?r
      then show ?l
      proof
        assume "P x \<and> (\<exists>w. t = w @ s' \<and> list_all P w \<and> length w \<le> n)"
        then obtain w where "P x" "t = w @ s'" "list_all P w" "length w \<le> n" by blast
        then show ?l by (intro exI [of _ "x # w"]) simp
      qed simp
    qed
    show ?thesis
      unfolding Cons star_run_Cls split by (cases "P x") (auto simp del: run.simps simp: Suc)
  qed
qed

lemma in_run_Star_Cls [simp]:
  "(c', s') \<in> set (run (Star (Cls P)) (c, s)) \<longleftrightarrow> c' = c \<and> (\<exists>w. s = w @ s' \<and> list_all P w)"
  by (auto simp: in_star_Cls)

lemma in_run_Plus [simp]:
  "(c', s') \<in> set (run (Plus P) (c, s)) \<longleftrightarrow> c' = c \<and> (\<exists>w. w \<noteq> [] \<and> s = w @ s' \<and> list_all P w)"
proof -
  have "(c', s') \<in> set (run (Plus P) (c, s)) \<longleftrightarrow>
      c' = c \<and> (\<exists>x t. s = x # t \<and> P x \<and> (\<exists>w. t = w @ s' \<and> list_all P w))"
    unfolding Plus_def by (simp del: run.simps) blast
  also have "\<dots> \<longleftrightarrow> c' = c \<and> (\<exists>w. w \<noteq> [] \<and> s = w @ s' \<and> list_all P w)"
    by (metis (no_types, lifting) append_Cons list.pred_inject(2) neq_Nil_conv)
  finally show ?thesis .
qed

lemma in_run_Cap_Plus [simp]:
  "(c', s') \<in> set (run (Cap n (Plus P)) (c, s)) \<longleftrightarrow>
   (\<exists>w. w \<noteq> [] \<and> s = w @ s' \<and> list_all P w \<and> c' = c(n \<mapsto> w))"
  by (auto simp del: run.simps simp: in_run_Cap)

section \<open>Running a sequence\<close>

text \<open>Equations that follow a sequence step by step. \<open>strip w s\<close> is what is left of \<open>s\<close> after
  the literal \<open>w\<close>.\<close>

fun strip :: "jstr \<Rightarrow> jstr \<Rightarrow> jstr option" where
  "strip [] s = Some s"
| "strip (a # w) [] = None"
| "strip (a # w) (x # s) = (if a = x then strip w s else None)"

lemma strip_append [simp]: "strip w (w @ s) = Some s"
  by (induction w) simp_all

lemma strip_self [simp]: "strip w w = Some []"
  using strip_append [of w "[]"] by simp

lemma strip_prefix: "strip w s = (if prefix w s then Some (drop (length w) s) else None)"
  by (induction w s rule: strip.induct) simp_all

lemma run_Lit: "run (Lit w) (c, s) = (case strip w s of None \<Rightarrow> [] | Some t \<Rightarrow> [(c, t)])"
  by (simp add: strip_prefix)

lemma run_Seq_Lit: "run (Seq (Lit w) r) (c, s) = (case strip w s of None \<Rightarrow> [] | Some t \<Rightarrow> run r (c, t))"
  by (simp add: strip_prefix)

lemma run_Seq_Bref:
  "run (Seq (Bref n) r) (c, s) =
     (case c n of None \<Rightarrow> run r (c, s)
      | Some w \<Rightarrow> (case strip w s of None \<Rightarrow> [] | Some t \<Rightarrow> run r (c, t)))"
  by (simp add: strip_prefix split: option.split)

lemma run_Seq_Cap_Alt: "run (Seq (Cap n (Alt a b)) r) st = run (Seq (Cap n a) r) st @ run (Seq (Cap n b) r) st"
  by simp

lemma run_Seq_Cap_Lit:
  "run (Seq (Cap n (Lit w)) r) (c, s) = (case strip w s of None \<Rightarrow> [] | Some t \<Rightarrow> run r (c(n \<mapsto> w), t))"
  by (auto simp: strip_prefix prefix_def)

lemma run_Eos: "run Eos (c, s) = (if s = [] then [(c, s)] else [])"
  by simp

lemma concat_map_concat: "concat (map f (concat (map g xs))) = concat (map (\<lambda>x. concat (map f (g x))) xs)"
  by (induction xs) simp_all

lemma run_Seq_assoc: "run (Seq (Seq a b) r) st = run (Seq a (Seq b r)) st"
  by (simp add: concat_map_concat run.simps(3) [of b r, abs_def])

lemmas rx_steps = run_Lit run_Seq_Lit run_Seq_Bref run_Seq_Cap_Alt run_Seq_Cap_Lit run_Eos

text \<open>A greedy run of a class in front of a unit that is not in it, when what follows cannot
  start with a unit of the class: only the longest run leads on.\<close>

definition rejects :: "(cunit \<Rightarrow> bool) \<Rightarrow> rx \<Rightarrow> bool" where
  "rejects P r \<longleftrightarrow> (\<forall>c z s. P z \<longrightarrow> run r (c, z # s) = [])"

lemma rejects_Lit [intro]: "\<not> P a \<Longrightarrow> rejects P (Lit (a # w))"
  by (auto simp: rejects_def run_Lit simp del: run.simps)

lemma rejects_Seq_Lit [intro]: "\<not> P a \<Longrightarrow> rejects P (Seq (Lit (a # w)) r)"
  by (auto simp: rejects_def run_Seq_Lit simp del: run.simps)

lemma rejects_Eos [intro]: "rejects P Eos"
  by (simp add: rejects_def)

lemma star_run_span:
  assumes "list_all P x" "ys = [] \<or> \<not> P (hd ys)" "length x < n \<or> ys = [] \<and> length x \<le> n"
    and "\<And>z t. P z \<Longrightarrow> K (c, z # t) = []"
  shows "concat (map K (star_run n (run (Cls P)) (c, x @ ys))) = K (c, ys)"
  using assms
proof (induction x arbitrary: n)
  case Nil
  then show ?case
  proof (cases n)
    case (Suc m)
    with Nil show ?thesis by (cases ys) (simp_all only: append_Nil star_run_Cls, auto)
  qed auto
next
  case (Cons a x)
  then obtain m where m: "n = Suc m" by (cases n) auto
  have "concat (map K (star_run m (run (Cls P)) (c, x @ ys))) = K (c, ys)"
    using Cons.prems m by (intro Cons.IH) auto
  then show ?case using Cons.prems by (simp add: m star_run_Cls del: star_run.simps run.simps)
qed

lemma run_Seq_Cap_Plus:
  assumes "x \<noteq> []" "list_all P x" "ys = [] \<or> \<not> P (hd ys)" "rejects P r"
  shows "run (Seq (Cap n (Plus P)) r) (c, x @ ys) = run r (c(n \<mapsto> x), ys)"
proof -
  obtain a w where x: "x = a # w" using assms(1) by (cases x) auto
  let ?K = "\<lambda>(c', s'). run r (c'(n \<mapsto> take (length (x @ ys) - length s') (x @ ys)), s')"
  have "run (Seq (Cap n (Plus P)) r) (c, x @ ys) =
      concat (map ?K (star_run (length (w @ ys)) (run (Cls P)) (c, w @ ys)))"
    using assms(2) unfolding x Plus_def
    by (simp add: comp_def case_prod_unfold del: star_run.simps)
  also have "\<dots> = ?K (c, ys)"
  proof (rule star_run_span)
    show "list_all P w" using assms(2) x by simp
    show "\<And>z t. P z \<Longrightarrow> ?K (c, z # t) = []" using assms(4) by (simp add: rejects_def)
    show "length w < length (w @ ys) \<or> ys = [] \<and> length w \<le> length (w @ ys)" by (cases ys) auto
  qed (rule assms(3))
  finally show ?thesis by simp
qed

lemma run_Seq_Cap_Plus_Cons:
  assumes "x \<noteq> []" "list_all P x" "\<not> P y" "rejects P r"
  shows "run (Seq (Cap n (Plus P)) r) (c, x @ y # s) = run r (c(n \<mapsto> x), y # s)"
  using run_Seq_Cap_Plus [of x P "y # s" r] assms by simp

lemma run_Seq_Cap_Plus_end:
  assumes "x \<noteq> []" "list_all P x" "rejects P r"
  shows "run (Seq (Cap n (Plus P)) r) (c, x) = run r (c(n \<mapsto> x), [])"
  using run_Seq_Cap_Plus [of x P "[]" r] assms by simp

text \<open>When every way to match gives the same groups, so does the first.\<close>

lemma match_start_unique:
  assumes "(c, s') \<in> set (run r (Map.empty, s))"
    and "\<And>c' s'. (c', s') \<in> set (run r (Map.empty, s)) \<Longrightarrow> c' = c"
  shows "match_start r s = Some c"
proof -
  obtain m ms where ms: "run r (Map.empty, s) = m # ms" using assms(1) by (cases "run r (Map.empty, s)") auto
  then have "m \<in> set (run r (Map.empty, s))" by simp
  then have "fst m = c" using assms(2) by (metis prod.collapse)
  with ms show ?thesis by (simp add: match_start_def)
qed

end
