(* ===== verification/BillingExpr.thy ===== *)
theory BillingExpr
  imports JsJson JsRegex
begin

text \<open>
  The request rules of a billing expression (\<open>features/pricing/lib/billing-expr.ts\<close>): their
  printer, their parser, and how a base expression and its rules are combined and split. A
  parser that meets a text literal that is not JSON throws.
\<close>

datatype 'a outcome = Throws | Returns 'a

section \<open>Conditions\<close>

datatype time_func = Hour | Minute | Weekday | Month | Day

definition TIME_FUNCS :: "(string \<times> time_func) list" where
  "TIME_FUNCS = [(''hour'', Hour), (''minute'', Minute), (''weekday'', Weekday), (''month'', Month), (''day'', Day)]"

fun time_func_name :: "time_func \<Rightarrow> string" where
  "time_func_name Hour = ''hour''"
| "time_func_name Minute = ''minute''"
| "time_func_name Weekday = ''weekday''"
| "time_func_name Month = ''month''"
| "time_func_name Day = ''day''"

datatype cond_source = ParamSource | HeaderSource

datatype request_condition =
    ParamHeaderCondition (ph_source: cond_source) (ph_path: jstr) (ph_mode: string) (ph_value: jstr)
  | TimeCondition (tc_func: time_func) (tc_timezone: jstr) (tc_mode: string) (tc_value: jstr)
      (tc_rangeStart: jstr) (tc_rangeEnd: jstr)

record request_rule_group =
  rg_conditions :: "request_condition list"
  rg_multiplier :: jstr

definition MATCH_MODES_TIME :: "string list" where
  "MATCH_MODES_TIME = [''eq'', ''gte'', ''lt'', ''range'']"

definition MATCH_MODES_HEADER :: "string list" where
  "MATCH_MODES_HEADER = [''eq'', ''contains'', ''exists'']"

definition MATCH_MODES_PARAM :: "string list" where
  "MATCH_MODES_PARAM = MATCH_MODES_HEADER @ [''gt'', ''gte'', ''lt'', ''lte'']"

text \<open>\<open>None\<close> is the time source.\<close>

definition getRequestRuleMatchOptions :: "cond_source option \<Rightarrow> string list" where
  "getRequestRuleMatchOptions source =
     (case source of
        None \<Rightarrow> MATCH_MODES_TIME
      | Some HeaderSource \<Rightarrow> MATCH_MODES_HEADER
      | Some ParamSource \<Rightarrow> MATCH_MODES_PARAM)"

definition createEmptyCondition :: request_condition where
  "createEmptyCondition = ParamHeaderCondition ParamSource [] ''eq'' []"

definition createEmptyTimeCondition :: request_condition where
  "createEmptyTimeCondition = TimeCondition Hour (js ''Asia/Shanghai'') ''gte'' [] [] []"

definition createEmptyRuleGroup :: request_rule_group where
  "createEmptyRuleGroup = \<lparr>rg_conditions = [createEmptyCondition], rg_multiplier = []\<rparr>"

definition createEmptyTimeRuleGroup :: request_rule_group where
  "createEmptyTimeRuleGroup = \<lparr>rg_conditions = [createEmptyTimeCondition], rg_multiplier = []\<rparr>"

text \<open>The editor's conditions may lack fields; \<open>None\<close> is a missing one.\<close>

record partial_condition =
  pc_source :: "string option"
  pc_timeFunc :: "string option"
  pc_timezone :: "jstr option"
  pc_path :: "jstr option"
  pc_mode :: "string option"
  pc_value :: "jstr option"
  pc_rangeStart :: "jstr option"
  pc_rangeEnd :: "jstr option"

definition text_or_empty :: "jstr option \<Rightarrow> jstr" where
  "text_or_empty v = (case v of None \<Rightarrow> [] | Some s \<Rightarrow> s)"

definition mode_or :: "string list \<Rightarrow> string option \<Rightarrow> string \<Rightarrow> string" where
  "mode_or options mode d = (case mode of Some m \<Rightarrow> if m \<in> set options then m else d | None \<Rightarrow> d)"

definition isTimeFunc :: "string option \<Rightarrow> time_func option" where
  "isTimeFunc v = (case v of None \<Rightarrow> None | Some s \<Rightarrow> map_of TIME_FUNCS s)"

definition normalizeCondition :: "partial_condition option \<Rightarrow> request_condition" where
  "normalizeCondition cond =
     (let get = (\<lambda>f. case cond of None \<Rightarrow> None | Some p \<Rightarrow> f p);
          src = (case cond of None \<Rightarrow> None | Some p \<Rightarrow> pc_source p);
          mode = (case cond of None \<Rightarrow> None | Some p \<Rightarrow> pc_mode p)
      in if src = Some ''time'' then
           TimeCondition
             (case isTimeFunc (case cond of None \<Rightarrow> None | Some p \<Rightarrow> pc_timeFunc p) of
                Some f \<Rightarrow> f | None \<Rightarrow> Hour)
             (or_else (get pc_timezone) (js ''Asia/Shanghai''))
             (mode_or (getRequestRuleMatchOptions None) mode ''gte'')
             (text_or_empty (get pc_value)) (text_or_empty (get pc_rangeStart)) (text_or_empty (get pc_rangeEnd))
         else
           let source = (if src = Some ''header'' then HeaderSource else ParamSource)
           in ParamHeaderCondition source (or_else (get pc_path) [])
                (mode_or (getRequestRuleMatchOptions (Some source)) mode ''eq'')
                (text_or_empty (get pc_value)))"

fun to_partial :: "request_condition \<Rightarrow> partial_condition" where
  "to_partial (ParamHeaderCondition s p m v) =
     \<lparr>pc_source = Some (case s of HeaderSource \<Rightarrow> ''header'' | ParamSource \<Rightarrow> ''param''),
      pc_timeFunc = None, pc_timezone = None, pc_path = Some p, pc_mode = Some m, pc_value = Some v,
      pc_rangeStart = None, pc_rangeEnd = None\<rparr>"
| "to_partial (TimeCondition f tz m v rs re) =
     \<lparr>pc_source = Some ''time'', pc_timeFunc = Some (time_func_name f), pc_timezone = Some tz,
      pc_path = None, pc_mode = Some m, pc_value = Some v, pc_rangeStart = Some rs, pc_rangeEnd = Some re\<rparr>"

definition renormalize :: "request_condition \<Rightarrow> request_condition" where
  "renormalize c = normalizeCondition (Some (to_partial c))"

section \<open>Regular expressions\<close>

definition num_char :: "cunit \<Rightarrow> bool" where
  "num_char c \<longleftrightarrow> is_digit c \<or> c \<in> {46, 101, 69, 43, 45}"

definition not_quote :: "cunit \<Rightarrow> bool" where
  "not_quote c \<longleftrightarrow> c \<noteq> 34"

definition L :: "string \<Rightarrow> rx" where
  "L w = Lit (js w)"

definition NUMERIC_LITERAL_REGEX :: rx where
  "NUMERIC_LITERAL_REGEX =
     seqs [Opt (L ''-''),
           Alt (seqs [Plus is_digit, Opt (L ''.''), Star (Cls is_digit)]) (Seq (L ''.'') (Plus is_digit)),
           Opt (seqs [Cls (\<lambda>c. c = 101 \<or> c = 69), Opt (Cls (\<lambda>c. c = 43 \<or> c = 45)), Plus is_digit]),
           Eos]"

definition numeric_literal :: "jstr \<Rightarrow> bool" where
  "numeric_literal s \<longleftrightarrow> match_start NUMERIC_LITERAL_REGEX s \<noteq> None"

definition rx_time_func :: rx where
  "rx_time_func = alts [L ''hour'', L ''minute'', L ''weekday'', L ''month'', L ''day'']"

definition rx_time_range :: "rx \<Rightarrow> rx" where
  "rx_time_range close =
     seqs [Cap 1 rx_time_func, L ''(\"'', Cap 2 (Plus not_quote), L ''\") >= '', Cap 3 (Plus num_char),
           L '' || '', Bref 1, L ''(\"'', Bref 2, L ''\") < '', Cap 4 (Plus num_char), close]"

definition rx_time_op :: rx where
  "rx_time_op =
     seqs [Cap 1 rx_time_func, L ''(\"'', Cap 2 (Plus not_quote), L ''\") '',
           Cap 3 (alts [L ''=='', L ''>='', L ''<'']), L '' '', Cap 4 (Plus num_char), Eos]"

definition rx_header_exists :: rx where
  "rx_header_exists = seqs [L ''header(\"'', Cap 1 (Plus not_quote), L ''\") != \"\"'', Eos]"

definition rx_param_exists :: rx where
  "rx_param_exists = seqs [L ''param(\"'', Cap 1 (Plus not_quote), L ''\") != nil'', Eos]"

definition rx_text_literal :: rx where
  "rx_text_literal =
     seqs [L ''\"'', Star (Alt (Cls (\<lambda>c. c \<noteq> 34 \<and> c \<noteq> 92)) (Seq (Lit [92]) (Cls dot))), L ''\"'']"

definition rx_header_contains :: rx where
  "rx_header_contains =
     seqs [L ''has(header(\"'', Cap 1 (Plus not_quote), L ''\"), '', Cap 2 rx_text_literal, L '')'', Eos]"

definition rx_param_contains :: rx where
  "rx_param_contains =
     seqs [L ''param(\"'', Cap 1 (Plus not_quote), L ''\") != nil && has(param(\"'', Cap 2 (Plus not_quote),
           L ''\"), '', Cap 3 rx_text_literal, L '')'', Eos]"

definition rx_param_op :: rx where
  "rx_param_op =
     seqs [L ''param(\"'', Cap 1 (Plus not_quote), L ''\") != nil && param(\"'', Cap 2 (Plus not_quote), L ''\") '',
           Cap 3 (alts [L ''>'', L ''>='', L ''<'', L ''<='']), L '' '', Cap 4 (Plus num_char), Eos]"

definition rx_equals :: rx where
  "rx_equals =
     seqs [Cap 1 (alts [L ''param'', L ''header'']), L ''(\"'', Cap 2 (Plus not_quote), L ''\") == '',
           Cap 3 (Plus dot), Eos]"

definition rx_rule_group :: rx where
  "rx_rule_group =
     seqs [L ''('', Cap 1 (Plus (\<lambda>_. True)), L '' ? '', Cap 2 (Plus num_char), L '' : 1)'', Eos]"

section \<open>The parser\<close>

text \<open>Splitting at a separator outside parentheses. \<open>depth\<close> counts every parenthesis, those in
  text literals too; \<open>cur\<close> is the part since \<open>start\<close>.\<close>

function split_scan :: "jstr \<Rightarrow> int \<Rightarrow> jstr \<Rightarrow> jstr \<Rightarrow> jstr list" where
  "split_scan sep depth cur s =
     (case s of
        [] \<Rightarrow> [cur]
      | c # t \<Rightarrow>
          let d = (if c = 40 then depth + 1 else if c = 41 then depth - 1 else depth)
          in if d = 0 \<and> sep \<noteq> [] \<and> prefix sep s
             then cur # split_scan sep d [] (drop (length sep) s)
             else split_scan sep d (cur @ [c]) t)"
  by pat_completeness auto

termination
  by (relation "measure (\<lambda>(_, _, _, s). length s)") auto

declare split_scan.simps [simp del]

definition split_top :: "jstr \<Rightarrow> jstr \<Rightarrow> jstr list" where
  "split_top sep expr = filter (\<lambda>p. p \<noteq> []) (map trim (split_scan sep 0 [] expr))"

definition splitTopLevelMultiply :: "jstr \<Rightarrow> jstr list" where
  "splitTopLevelMultiply expr = split_top (js '' * '') expr"

definition splitTopLevelAnd :: "jstr \<Rightarrow> jstr list" where
  "splitTopLevelAnd expr = split_top (js '' && '') expr"

text \<open>\<open>None\<close> is \<open>null\<close>; a text that is the JSON \<open>null\<close> gives it too.\<close>

definition parseExprLiteral :: "jstr \<Rightarrow> jsval option" where
  "parseExprLiteral raw =
     (let t = trim raw in
      if t = js ''true'' \<or> t = js ''false'' then Some (JStr t)
      else if numeric_literal t then Some (JStr t)
      else case json_parse t of Some JNull \<Rightarrow> None | v \<Rightarrow> v)"

definition time_func_of :: "jstr \<Rightarrow> time_func" where
  "time_func_of s = (case List.find (\<lambda>(n, _). js n = s) TIME_FUNCS of Some (_, f) \<Rightarrow> f | None \<Rightarrow> Hour)"

definition time_op_mode :: "jstr \<Rightarrow> string" where
  "time_op_mode op1 = (if op1 = js ''>='' then ''gte'' else if op1 = js ''<'' then ''lt'' else ''eq'')"

definition range_condition :: "caps \<Rightarrow> request_condition" where
  "range_condition m = TimeCondition (time_func_of (grp m 1)) (grp m 2) ''range'' [] (grp m 3) (grp m 4)"

definition tryParseTimeCondition :: "jstr \<Rightarrow> request_condition option" where
  "tryParseTimeCondition expr =
     (case match_start (rx_time_range Eos) expr of
        Some m \<Rightarrow> Some (range_condition m)
      | None \<Rightarrow>
     (case match_start (seqs [L ''('', rx_time_range (L '')''), Eos]) expr of
        Some m \<Rightarrow> Some (range_condition m)
      | None \<Rightarrow>
     (case match_start rx_time_op expr of
        Some m \<Rightarrow> Some (TimeCondition (time_func_of (grp m 1)) (grp m 2) (time_op_mode (grp m 3)) (grp m 4) [] [])
      | None \<Rightarrow> None)))"

definition param_op_mode :: "jstr \<Rightarrow> string" where
  "param_op_mode op1 = (if op1 = js ''>'' then ''gt'' else if op1 = js ''>='' then ''gte''
                        else if op1 = js ''<'' then ''lt'' else ''lte'')"

text \<open>\<open>JSON.parse(text) as string\<close>; the text is a quoted literal, so what it parses to is a text.\<close>

definition contains_condition :: "cond_source \<Rightarrow> jstr \<Rightarrow> jstr \<Rightarrow> request_condition option outcome" where
  "contains_condition src path literal =
     (case json_parse literal of
        None \<Rightarrow> Throws
      | Some v \<Rightarrow> Returns (Some (ParamHeaderCondition src path ''contains'' (to_str v))))"

definition equals_condition :: "jstr \<Rightarrow> request_condition option" where
  "equals_condition expr =
     (case match_start rx_equals expr of
        None \<Rightarrow> None
      | Some m \<Rightarrow>
          (case parseExprLiteral (grp m 3) of
             None \<Rightarrow> None
           | Some v \<Rightarrow>
               Some (ParamHeaderCondition (if grp m 1 = js ''param'' then ParamSource else HeaderSource)
                       (grp m 2) ''eq'' (to_str v))))"

definition param_op_condition :: "jstr \<Rightarrow> request_condition option" where
  "param_op_condition expr =
     (case match_start rx_param_op expr of
        Some m \<Rightarrow>
          if grp m 1 = grp m 2 then Some (ParamHeaderCondition ParamSource (grp m 1) (param_op_mode (grp m 3)) (grp m 4))
          else equals_condition expr
      | None \<Rightarrow> equals_condition expr)"

definition contains_or_op :: "jstr \<Rightarrow> request_condition option outcome" where
  "contains_or_op expr =
     (case match_start rx_header_contains expr of
        Some m \<Rightarrow> contains_condition HeaderSource (grp m 1) (grp m 2)
      | None \<Rightarrow>
     (case match_start rx_param_contains expr of
        Some m \<Rightarrow>
          if grp m 1 = grp m 2 then contains_condition ParamSource (grp m 1) (grp m 3)
          else Returns (param_op_condition expr)
      | None \<Rightarrow> Returns (param_op_condition expr)))"

definition tryParseRequestCondition :: "jstr \<Rightarrow> request_condition option outcome" where
  "tryParseRequestCondition expr =
     (case tryParseTimeCondition expr of
        Some tc \<Rightarrow> Returns (Some tc)
      | None \<Rightarrow>
     (case match_start rx_header_exists expr of
        Some m \<Rightarrow> Returns (Some (ParamHeaderCondition HeaderSource (grp m 1) ''exists'' []))
      | None \<Rightarrow>
     (case match_start rx_param_exists expr of
        Some m \<Rightarrow> Returns (Some (ParamHeaderCondition ParamSource (grp m 1) ''exists'' []))
      | None \<Rightarrow> contains_or_op expr)))"

text \<open>A loop that collects results, gives up at the first \<open>null\<close> and lets an exception pass.\<close>

fun collect :: "('a \<Rightarrow> 'b option outcome) \<Rightarrow> 'a list \<Rightarrow> 'b list option outcome" where
  "collect f [] = Returns (Some [])"
| "collect f (x # xs) =
     (case f x of
        Throws \<Rightarrow> Throws
      | Returns None \<Rightarrow> Returns None
      | Returns (Some y) \<Rightarrow>
          (case collect f xs of
             Throws \<Rightarrow> Throws
           | Returns None \<Rightarrow> Returns None
           | Returns (Some ys) \<Rightarrow> Returns (Some (y # ys))))"

definition tryParseRuleGroupFactor :: "jstr \<Rightarrow> request_rule_group option outcome" where
  "tryParseRuleGroupFactor part =
     (case match_start rx_rule_group part of
        None \<Rightarrow> Returns None
      | Some m \<Rightarrow>
          (case collect (\<lambda>ap. tryParseRequestCondition (trim ap)) (splitTopLevelAnd (grp m 1)) of
             Throws \<Rightarrow> Throws
           | Returns None \<Rightarrow> Returns None
           | Returns (Some cs) \<Rightarrow>
               if cs = [] then Returns None
               else Returns (Some \<lparr>rg_conditions = cs, rg_multiplier = grp m 2\<rparr>)))"

definition tryParseRequestRuleExpr :: "jstr \<Rightarrow> request_rule_group list option outcome" where
  "tryParseRequestRuleExpr expr =
     (let trimmed = trim expr in
      if trimmed = [] then Returns (Some [])
      else collect tryParseRuleGroupFactor (splitTopLevelMultiply trimmed))"

section \<open>Combining and splitting\<close>

text \<open>The depth after each unit; the loop leaves when it is 0 before the last one.\<close>

fun outer_scan :: "int \<Rightarrow> jstr \<Rightarrow> bool" where
  "outer_scan depth [] = (depth = 0)"
| "outer_scan depth (c # s) =
     (let d = (if c = 40 then depth + 1 else if c = 41 then depth - 1 else depth)
      in if d = 0 \<and> s \<noteq> [] then False else outer_scan d s)"

definition hasFullOuterParens :: "jstr \<Rightarrow> bool" where
  "hasFullOuterParens expr \<longleftrightarrow> expr \<noteq> [] \<and> hd expr = 40 \<and> last expr = 41 \<and> outer_scan 0 expr"

text \<open>\<open>current.slice(1, -1).trim()\<close>.\<close>

definition strip_outer :: "jstr \<Rightarrow> jstr" where
  "strip_outer s = trim (butlast (tl s))"

lemma strip_outer_shorter: "s \<noteq> [] \<Longrightarrow> length (strip_outer s) < length s"
  using length_trim_le [of "butlast (tl s)"] by (cases s) (auto simp: strip_outer_def)

function unwrap :: "jstr \<Rightarrow> jstr" where
  "unwrap current = (if hasFullOuterParens current then unwrap (strip_outer current) else current)"
  by pat_completeness auto

termination
  by (relation "measure length") (auto simp: hasFullOuterParens_def intro: strip_outer_shorter)

declare unwrap.simps [simp del]

definition unwrapOuterParens :: "jstr \<Rightarrow> jstr" where
  "unwrapOuterParens expr = unwrap (trim expr)"

record split_result =
  billingExpr :: jstr
  requestRuleExpr :: jstr

text \<open>The loop over the parts: those that parse as rules, and the others.\<close>

fun classify_parts :: "jstr list \<Rightarrow> (jstr list \<times> jstr list) outcome" where
  "classify_parts [] = Returns ([], [])"
| "classify_parts (p # ps) =
     (case tryParseRequestRuleExpr p of
        Throws \<Rightarrow> Throws
      | Returns r \<Rightarrow>
          (case classify_parts ps of
             Throws \<Rightarrow> Throws
           | Returns (rules, bases) \<Rightarrow>
               (case r of
                  Some (g # gs) \<Rightarrow> Returns (p # rules, bases)
                | _ \<Rightarrow> Returns (rules, p # bases))))"

definition splitBillingExprAndRequestRules :: "jstr \<Rightarrow> split_result outcome" where
  "splitBillingExprAndRequestRules expr =
     (let trimmed = trim expr in
      if trimmed = [] then Returns \<lparr>billingExpr = [], requestRuleExpr = []\<rparr>
      else let parts = splitTopLevelMultiply trimmed in
        if length parts \<le> 1 then Returns \<lparr>billingExpr = trimmed, requestRuleExpr = []\<rparr>
        else case classify_parts parts of
               Throws \<Rightarrow> Throws
             | Returns (rules, bases) \<Rightarrow>
                 if rules = [] \<or> length bases \<noteq> 1 then Returns \<lparr>billingExpr = trimmed, requestRuleExpr = []\<rparr>
                 else Returns \<lparr>billingExpr = unwrapOuterParens (hd bases), requestRuleExpr = join (js '' * '') rules\<rparr>)"

definition combineBillingExpr :: "jstr \<Rightarrow> jstr \<Rightarrow> jstr" where
  "combineBillingExpr baseExpr rulesExpr =
     (let base = trim baseExpr; rules = trim rulesExpr
      in if base = [] then [] else if rules = [] then base
         else js ''('' @ base @ js '') * '' @ rules)"

section \<open>The printer\<close>

definition buildExprLiteral :: "string \<Rightarrow> jstr \<Rightarrow> jstr" where
  "buildExprLiteral mode value =
     (let t = trim value in
      if mode = ''contains'' then json_quote t
      else if t = js ''true'' \<or> t = js ''false'' then t
      else if numeric_literal t then t
      else json_quote t)"

fun build_time :: "request_condition \<Rightarrow> jstr" where
  "build_time (TimeCondition f tz mode v rs re) =
     (let fn = js (time_func_name f) @ js ''('' @ json_quote tz @ js '')''
      in if mode = ''range'' then
           let s = trim rs; e = trim re
           in if \<not> numeric_literal s \<or> \<not> numeric_literal e then []
              else fn @ js '' >= '' @ s @ js '' || '' @ fn @ js '' < '' @ e
         else let t = trim v
           in if \<not> numeric_literal t then []
              else fn @ js '' '' @ js (if mode = ''gte'' then ''>='' else if mode = ''lt'' then ''<'' else ''=='')
                     @ js '' '' @ t)"
| "build_time (ParamHeaderCondition _ _ _ _) = []"

definition buildTimeConditionExpr :: "request_condition \<Rightarrow> jstr" where
  "buildTimeConditionExpr cond = build_time (renormalize cond)"

definition param_op :: "string \<Rightarrow> string" where
  "param_op mode = (if mode = ''gt'' then ''>'' else if mode = ''gte'' then ''>=''
                    else if mode = ''lt'' then ''<'' else ''<='')"

definition source_expr :: "cond_source \<Rightarrow> jstr \<Rightarrow> jstr" where
  "source_expr src path =
     (if src = HeaderSource then js ''header('' else js ''param('') @ json_quote path @ js '')''"

fun build_param_header :: "request_condition \<Rightarrow> jstr" where
  "build_param_header (ParamHeaderCondition src p mode v) =
     (let path = trim p; e = source_expr src path
      in if path = [] then []
         else if mode = ''exists'' then e @ (if src = HeaderSource then js '' != \"\"'' else js '' != nil'')
         else if mode = ''contains'' then
           (if src = HeaderSource then js ''has('' @ e @ js '', '' @ buildExprLiteral mode v @ js '')''
            else e @ js '' != nil && has('' @ e @ js '', '' @ buildExprLiteral mode v @ js '')'')
         else if mode \<in> {''gt'', ''gte'', ''lt'', ''lte''} then
           (if \<not> numeric_literal (trim v) then []
            else e @ js '' != nil && '' @ e @ js '' '' @ js (param_op mode) @ js '' '' @ trim v)
         else e @ js '' == '' @ buildExprLiteral mode v)"
| "build_param_header (TimeCondition _ _ _ _ _ _) = []"

fun buildRequestConditionExpr :: "request_condition \<Rightarrow> jstr" where
  "buildRequestConditionExpr (TimeCondition f tz m v rs re) =
     buildTimeConditionExpr (TimeCondition f tz m v rs re)"
| "buildRequestConditionExpr (ParamHeaderCondition src p m v) =
     build_param_header (renormalize (ParamHeaderCondition src p m v))"

definition wrap_or :: "jstr \<Rightarrow> jstr" where
  "wrap_or e = (if str_includes e (js '' || '') then js ''('' @ e @ js '')'' else e)"

definition buildRuleGroupFactor :: "request_rule_group \<Rightarrow> jstr" where
  "buildRuleGroupFactor g =
     (let multiplier = trim (rg_multiplier g) in
      if \<not> numeric_literal multiplier then []
      else let condExprs = filter (\<lambda>e. e \<noteq> []) (map buildRequestConditionExpr (rg_conditions g))
        in if condExprs = [] then []
           else let combined = (if length condExprs = 1 then hd condExprs
                                else join (js '' && '') (map wrap_or condExprs))
             in js ''('' @ combined @ js '' ? '' @ multiplier @ js '' : 1)'')"

definition buildRequestRuleExpr :: "request_rule_group list \<Rightarrow> jstr" where
  "buildRequestRuleExpr groups =
     join (js '' * '') (filter (\<lambda>f. f \<noteq> []) (map buildRuleGroupFactor groups))"

end
