(* ===== verification/BillingRules.thy ===== *)
theory BillingRules
  imports BillingExpr
begin

text \<open>
  Request rules survive printing and parsing, and combining with a base expression and splitting:
  what the parser reads back, condition by condition, rule by rule and as a whole, the
  conditions it cannot read back, and which parentheses are taken off.
\<close>

section \<open>Texts the parser reads back\<close>

text \<open>No quote, backslash, parenthesis, control unit or surrogate.\<close>

definition plain :: "jstr \<Rightarrow> bool" where
  "plain s \<longleftrightarrow> list_all (\<lambda>c. 32 \<le> c \<and> c \<notin> {34, 40, 41, 92} \<and> \<not> is_lead c \<and> \<not> is_trail c) s"

lemma plain_Cons [simp]:
  "plain (c # s) \<longleftrightarrow> 32 \<le> c \<and> c \<notin> {34, 40, 41, 92} \<and> \<not> is_lead c \<and> \<not> is_trail c \<and> plain s"
  and plain_Nil [simp]: "plain []"
  by (simp_all add: plain_def)

lemma quote_body_plain: "plain s \<Longrightarrow> quote_body s = s"
  by (induction s rule: quote_body.induct) (auto simp: quote_unit_def)

lemma json_quote_plain: "plain s \<Longrightarrow> json_quote s = 34 # s @ [34]"
  by (simp add: json_quote_def quote_body_plain)

lemma plain_not_quote: "plain s \<Longrightarrow> list_all not_quote s"
  by (induction s) (auto simp: not_quote_def)

text \<open>Number literals.\<close>

definition consumes :: "(cunit \<Rightarrow> bool) \<Rightarrow> rx \<Rightarrow> bool" where
  "consumes P r \<longleftrightarrow> (\<forall>c s c' s'. (c', s') \<in> set (run r (c, s)) \<longrightarrow> (\<exists>w. s = w @ s' \<and> list_all P w))"

lemma consumes_Lit: "list_all P w \<Longrightarrow> consumes P (Lit w)"
  and consumes_Cls: "(\<And>c. Q c \<Longrightarrow> P c) \<Longrightarrow> consumes P (Cls Q)"
  and consumes_Star: "(\<And>c. Q c \<Longrightarrow> P c) \<Longrightarrow> consumes P (Star (Cls Q))"
  and consumes_Plus: "(\<And>c. Q c \<Longrightarrow> P c) \<Longrightarrow> consumes P (Plus Q)"
  and consumes_Eos: "consumes P Eos"
  by (auto simp: consumes_def list_all_iff simp del: run.simps)

lemma consumes_Seq: "consumes P a \<Longrightarrow> consumes P b \<Longrightarrow> consumes P (Seq a b)"
  by (simp add: consumes_def del: run.simps) (metis append.assoc list_all_append)

lemma consumes_Alt: "consumes P a \<Longrightarrow> consumes P b \<Longrightarrow> consumes P (Alt a b)"
  by (auto simp: consumes_def simp del: run.simps)

lemmas consumes_rules = consumes_Seq consumes_Alt consumes_Lit consumes_Cls consumes_Star consumes_Plus consumes_Eos

lemma numeric_consumes: "consumes num_char NUMERIC_LITERAL_REGEX"
  unfolding NUMERIC_LITERAL_REGEX_def seqs.simps Opt_def L_def
  by (intro consumes_rules) (auto simp: num_char_def js_eval)

lemma numeric_not_empty: "\<not> numeric_literal []"
  by (simp add: numeric_literal_def NUMERIC_LITERAL_REGEX_def match_start_def Opt_def Plus_def L_def js_eval)

lemma numeric_ends: "(c', s') \<in> set (run NUMERIC_LITERAL_REGEX (c, s)) \<Longrightarrow> s' = []"
  by (auto simp: NUMERIC_LITERAL_REGEX_def simp del: run.simps)

lemma numeric_literal_chars:
  assumes "numeric_literal s" shows "s \<noteq> []" and "list_all num_char s"
proof -
  show "s \<noteq> []" using assms numeric_not_empty by auto
  obtain c' s' where m: "(c', s') \<in> set (run NUMERIC_LITERAL_REGEX (Map.empty, s))"
    using assms by (cases "run NUMERIC_LITERAL_REGEX (Map.empty, s)")
      (auto simp: numeric_literal_def match_start_def)
  then obtain w where "s = w @ s'" "list_all num_char w" using numeric_consumes unfolding consumes_def by blast
  then show "list_all num_char s" using numeric_ends [OF m] by simp
qed

lemma num_char_facts: "num_char c \<Longrightarrow> c \<notin> {32, 34, 38, 40, 41} \<and> \<not> is_ws c"
  by (auto simp: num_char_def is_digit_def is_ws_def)

lemma numeric_literal_trim: "numeric_literal s \<Longrightarrow> trim s = s"
  using numeric_literal_chars [of s] num_char_facts
  by (intro trim_id) (auto simp: trimmed_def list_all_iff)

lemma num_char_units: "\<not> num_char 32" "\<not> num_char 41" "\<not> not_quote 34"
  by (simp_all add: num_char_def is_digit_def not_quote_def)

section \<open>Time conditions\<close>

lemma rejects_assoc: "rejects P (Seq (Seq a b) r) \<longleftrightarrow> rejects P (Seq a (Seq b r))"
  by (simp add: rejects_def run_Seq_assoc del: run.simps)

lemmas rx_eval = rejects_assoc rx_steps run_Seq_assoc run_Seq_Cap_Plus_Cons run_Seq_Cap_Plus_end js_eval L_def
  num_char_units rejects_Lit rejects_Seq_Lit rejects_Eos

lemma parse_range:
  assumes "tz \<noteq> []" "list_all not_quote tz" "s \<noteq> []" "list_all num_char s" "e \<noteq> []" "list_all num_char e"
  shows "tryParseTimeCondition
     (js (time_func_name f) @ js ''(\"'' @ tz @ js ''\") >= '' @ s @ js '' || '' @
      js (time_func_name f) @ js ''(\"'' @ tz @ js ''\") < '' @ e) = Some (TimeCondition f tz ''range'' [] s e)"
  using assms
  by (cases f) (simp_all add: tryParseTimeCondition_def rx_time_range_def rx_time_func_def match_start_def
    rx_eval range_condition_def grp_def time_func_of_def TIME_FUNCS_def del: run.simps)


lemma parse_range_parens:
  assumes "tz \<noteq> []" "list_all not_quote tz" "s \<noteq> []" "list_all num_char s" "e \<noteq> []" "list_all num_char e"
  shows "tryParseTimeCondition
     (js ''('' @ js (time_func_name f) @ js ''(\"'' @ tz @ js ''\") >= '' @ s @ js '' || '' @
      js (time_func_name f) @ js ''(\"'' @ tz @ js ''\") < '' @ e @ js '')'') = Some (TimeCondition f tz ''range'' [] s e)"
  using assms
  by (cases f) (simp_all add: tryParseTimeCondition_def rx_time_range_def rx_time_func_def match_start_def
    rx_eval range_condition_def grp_def time_func_of_def TIME_FUNCS_def del: run.simps)

lemma parse_time_op:
  assumes "tz \<noteq> []" "list_all not_quote tz" "v \<noteq> []" "list_all num_char v" "m \<in> {''eq'', ''gte'', ''lt''}"
  shows "tryParseTimeCondition
     (js (time_func_name f) @ js ''(\"'' @ tz @ js ''\") '' @
      js (if m = ''gte'' then ''>='' else if m = ''lt'' then ''<'' else ''=='') @ js '' '' @ v)
     = Some (TimeCondition f tz m v [] [])"
proof -
  have "m = ''eq'' \<or> m = ''gte'' \<or> m = ''lt''" using assms(5) by auto
  with assms(1-4) show ?thesis
    by (cases f) (auto simp: tryParseTimeCondition_def rx_time_range_def rx_time_func_def rx_time_op_def match_start_def
      rx_eval time_op_mode_def grp_def time_func_of_def TIME_FUNCS_def simp del: run.simps)
qed

section \<open>Conditions on parameters and headers\<close>

lemma not_time:
  "tryParseTimeCondition (js ''header('' @ s) = None" "tryParseTimeCondition (js ''param('' @ s) = None"
  "tryParseTimeCondition (js ''has('' @ s) = None"
  by (simp_all add: tryParseTimeCondition_def rx_time_range_def rx_time_func_def rx_time_op_def match_start_def
      rx_eval del: run.simps)

lemma parse_exists:
  assumes "p \<noteq> []" "list_all not_quote p"
  shows "tryParseRequestCondition (js ''header(\"'' @ p @ js ''\") != \"\"'')
           = Returns (Some (ParamHeaderCondition HeaderSource p ''exists'' []))"
    and "tryParseRequestCondition (js ''param(\"'' @ p @ js ''\") != nil'')
           = Returns (Some (ParamHeaderCondition ParamSource p ''exists'' []))"
  using assms not_time(1) [of "js ''\"'' @ p @ js ''\") != \"\"''"] not_time(2) [of "js ''\"'' @ p @ js ''\") != nil''"]
  by (simp_all add: tryParseRequestCondition_def rx_header_exists_def rx_param_exists_def match_start_def
      rx_eval grp_def del: run.simps)

text \<open>The literal of a text: no group is set inside it, and it can be matched in one way.\<close>

definition keeps :: "rx \<Rightarrow> bool" where
  "keeps r \<longleftrightarrow> (\<forall>c s c' s'. (c', s') \<in> set (run r (c, s)) \<longrightarrow> c' = c)"

lemma star_run_keeps:
  assumes "\<And>c s c' s'. (c', s') \<in> set (f (c, s)) \<Longrightarrow> c' = c"
  shows "(c', s') \<in> set (star_run n f (c, s)) \<Longrightarrow> c' = c"
proof (induction n arbitrary: c s)
  case (Suc n)
  then consider "(c', s') = (c, s)"
    | c1 s1 where "(c1, s1) \<in> set (f (c, s))" "(c', s') \<in> set (star_run n f (c1, s1))"
    by (auto split: if_splits)
  then show ?case
  proof cases
    case 2
    then show ?thesis using Suc.IH assms by metis
  qed simp
qed simp

lemma keeps_rules:
  "keeps (Lit w)" "keeps (Cls P)" "keeps a \<Longrightarrow> keeps b \<Longrightarrow> keeps (Seq a b)"
  "keeps a \<Longrightarrow> keeps b \<Longrightarrow> keeps (Alt a b)" "keeps a \<Longrightarrow> keeps (Star a)"
proof -
  show "keeps a \<Longrightarrow> keeps b \<Longrightarrow> keeps (Seq a b)" unfolding keeps_def in_run_Seq by blast
  show "keeps a \<Longrightarrow> keeps b \<Longrightarrow> keeps (Alt a b)" unfolding keeps_def in_run_Alt by blast
  show "keeps a \<Longrightarrow> keeps (Star a)" unfolding keeps_def run.simps(5) using star_run_keeps [of "run a"] by blast
qed (auto simp: keeps_def simp del: run.simps)

lemma star_run_refl: "st \<in> set (star_run n f st)"
  by (cases n) simp_all

lemma star_run_step:
  "(c1, s1) \<in> set (f (c, s)) \<Longrightarrow> length s1 < length s \<Longrightarrow> x \<in> set (star_run n f (c1, s1)) \<Longrightarrow>
   x \<in> set (star_run (Suc n) f (c, s))"
  by force

definition rx_text_unit :: rx where
  "rx_text_unit = Alt (Cls (\<lambda>c. c \<noteq> 34 \<and> c \<noteq> 92)) (Seq (Lit [92]) (Cls dot))"

definition text_body :: "jstr \<Rightarrow> bool" where
  "text_body e \<longleftrightarrow> (\<forall>c t n. length (e @ t) \<le> n \<longrightarrow> (c, t) \<in> set (star_run n (run rx_text_unit) (c, e @ t)))"

lemma text_body_Nil: "text_body []"
  by (simp add: text_body_def star_run_refl)

lemma text_body_unit:
  assumes "z \<noteq> 34" "z \<noteq> 92" "text_body e" shows "text_body (z # e)"
  unfolding text_body_def
proof (intro allI impI)
  fix c t n assume n: "length ((z # e) @ t) \<le> n"
  then obtain m where m: "n = Suc m" by (cases n) auto
  have "(c, e @ t) \<in> set (run rx_text_unit (c, (z # e) @ t))"
    using assms(1,2) by (simp add: rx_text_unit_def)
  moreover have "(c, t) \<in> set (star_run m (run rx_text_unit) (c, e @ t))"
    using assms(3) n m by (simp add: text_body_def)
  ultimately show "(c, t) \<in> set (star_run n (run rx_text_unit) (c, (z # e) @ t))"
    unfolding m by (intro star_run_step) simp_all
qed

lemma text_body_escape:
  assumes "dot d" "text_body e" shows "text_body (92 # d # e)"
  unfolding text_body_def
proof (intro allI impI)
  fix c t n assume n: "length ((92 # d # e) @ t) \<le> n"
  then obtain m where m: "n = Suc m" by (cases n) auto
  have "(c, e @ t) \<in> set (run rx_text_unit (c, (92 # d # e) @ t))"
    using assms(1) by (simp add: rx_text_unit_def)
  moreover have "(c, t) \<in> set (star_run m (run rx_text_unit) (c, e @ t))"
    using assms(2) n m by (simp add: text_body_def)
  ultimately show "(c, t) \<in> set (star_run n (run rx_text_unit) (c, (92 # d # e) @ t))"
    unfolding m by (intro star_run_step) simp_all
qed

lemma hex_digit_text: "hex_digit d \<noteq> 34" "hex_digit d \<noteq> 92"
  by (auto simp: hex_digit_def)

lemma text_body_u_escape: "text_body e \<Longrightarrow> text_body (u_escape c @ e)"
  unfolding u_escape_def append_Cons append_Nil
  by (intro text_body_escape text_body_unit) (simp_all add: dot_def hex_digit_text)

lemma text_body_quote_unit: "text_body e \<Longrightarrow> text_body (quote_unit c @ e)"
  by (auto simp: quote_unit_def dot_def intro: text_body_u_escape text_body_unit text_body_escape)

lemma text_body_quote: "text_body (quote_body v)"
proof (induction v rule: quote_body.induct)
  case (2 c)
  then show ?case
    using text_body_u_escape [OF text_body_Nil, of c] text_body_quote_unit [OF text_body_Nil, of c] by simp
next
  case (3 c d v)
  have "is_lead c \<Longrightarrow> c \<noteq> 34 \<and> c \<noteq> 92" "is_trail d \<Longrightarrow> d \<noteq> 34 \<and> d \<noteq> 92"
    by (auto simp: is_lead_def is_trail_def)
  with 3 show ?case by (auto intro: text_body_unit text_body_u_escape text_body_quote_unit)
qed (simp add: text_body_Nil)

lemma keeps_text_literal: "keeps rx_text_literal"
  unfolding rx_text_literal_def seqs.simps L_def by (intro keeps_rules)

lemma text_literal_match:
  "\<exists>ms. run (Seq (Cap n rx_text_literal) (Seq (Lit [41]) Eos)) (c, json_quote v @ [41])
     = (c(n \<mapsto> json_quote v), []) # ms"
proof -
  let ?r = "Seq (Cap n rx_text_literal) (Seq (Lit [41]) Eos)" and ?s = "json_quote v @ [41]"
  have "(c, 34 # [41]) \<in> set (run (Star rx_text_unit) (c, quote_body v @ 34 # [41]))"
    using text_body_quote [of v] unfolding text_body_def run.simps(5) snd_conv by blast
  moreover have "(c, [41]) \<in> set (run (Lit [34]) (c, 34 # [41]))" by simp
  ultimately have "(c, [41]) \<in> set (run (Seq (Star rx_text_unit) (Lit [34])) (c, quote_body v @ 34 # [41]))"
    unfolding in_run_Seq by blast
  then have "(c, [41]) \<in> set (run rx_text_literal (c, ?s))"
    by (simp add: rx_text_literal_def rx_text_unit_def [symmetric] json_quote_def L_def js_eval run_Seq_Lit
        del: run.simps)
  then have "(c(n \<mapsto> json_quote v), []) \<in> set (run ?r (c, ?s))" by force
  then obtain x ms where ms: "run ?r (c, ?s) = x # ms" by (cases "run ?r (c, ?s)") auto
  obtain c2 s2 where c2: "x = (c2, s2)" by (cases x)
  then have "(c2, s2) \<in> set (run ?r (c, ?s))" using ms by simp
  then obtain c1 s1 where x: "(c1, s1) \<in> set (run rx_text_literal (c, ?s))" "s1 = [41]"
      "c2 = c1(n \<mapsto> take (length ?s - length s1) ?s)" "s2 = []"
    unfolding in_run_Seq in_run_Cap in_run_Lit in_run_Eos by auto
  then have "c1 = c" using keeps_text_literal by (auto simp: keeps_def)
  with x(2-4) ms c2 show ?thesis by simp
qed

lemma json_parse_quote: "units_ok v \<Longrightarrow> json_parse (json_quote v) = Some (JStr v)"
  using json_parse_stringify [of "JStr v"] by simp

lemma parse_header_contains:
  assumes "p \<noteq> []" "list_all not_quote p" "units_ok v"
  shows "tryParseRequestCondition (js ''has(header(\"'' @ p @ js ''\"), '' @ json_quote v @ js '')'')
     = Returns (Some (ParamHeaderCondition HeaderSource p ''contains'' v))"
proof -
  let ?e = "js ''has(header(\"'' @ p @ js ''\"), '' @ json_quote v @ js '')''"
  obtain ms where ms: "run (Seq (Cap 2 rx_text_literal) (Seq (Lit [41]) Eos)) ([1 \<mapsto> p], json_quote v @ [41])
      = ([1 \<mapsto> p, 2 \<mapsto> json_quote v], []) # ms" using text_literal_match by blast
  have "tryParseTimeCondition ?e = None"
    using not_time(3) [of "js ''header(\"'' @ p @ js ''\"), '' @ json_quote v @ js '')''"] by (simp add: js_eval)
  moreover have "match_start rx_header_exists ?e = None" "match_start rx_param_exists ?e = None"
    by (simp_all add: rx_header_exists_def rx_param_exists_def match_start_def rx_eval del: run.simps)
  moreover have "match_start rx_header_contains ?e = Some [1 \<mapsto> p, 2 \<mapsto> json_quote v]"
    using assms ms by (simp add: rx_header_contains_def match_start_def rx_eval del: run.simps)
  ultimately show ?thesis
    using assms(3)
    by (simp add: tryParseRequestCondition_def contains_or_op_def contains_condition_def grp_def json_parse_quote)
qed

lemma dot_hex_digit: "d < 16 \<Longrightarrow> dot (hex_digit d)"
  by (auto simp: dot_def hex_digit_def)

lemma dot_u_escape: "c < 65536 \<Longrightarrow> list_all dot (u_escape c)"
  by (simp add: u_escape_def dot_hex_digit) (simp add: dot_def)

lemma dot_quote_unit: "c < 65536 \<Longrightarrow> c \<notin> {8232, 8233} \<Longrightarrow> list_all dot (quote_unit c)"
  by (auto simp: quote_unit_def dot_u_escape) (auto simp: dot_def)

lemma dot_quote_body: "units_ok v \<Longrightarrow> 8232 \<notin> set v \<Longrightarrow> 8233 \<notin> set v \<Longrightarrow> list_all dot (quote_body v)"
proof (induction v rule: quote_body.induct)
  case (3 c d v)
  have "is_lead c \<Longrightarrow> dot c" "is_trail d \<Longrightarrow> dot d"
    by (auto simp: is_lead_def is_trail_def dot_def)
  with 3 show ?case by (auto simp: dot_u_escape dot_quote_unit)
qed (auto simp: dot_u_escape dot_quote_unit)

text \<open>The values an equality is written with.\<close>

definition eq_value :: "jstr \<Rightarrow> bool" where
  "eq_value v \<longleftrightarrow> units_ok v \<and> trimmed v \<and> 8232 \<notin> set v \<and> 8233 \<notin> set v"

lemma literal_dot:
  assumes "eq_value v" shows "buildExprLiteral ''eq'' v \<noteq> []" "list_all dot (buildExprLiteral ''eq'' v)"
proof -
  have t: "trim v = v" using assms by (simp add: eq_value_def)
  have n: "list_all dot v" "v \<noteq> []" if "numeric_literal v"
    using numeric_literal_chars [OF that] by (auto simp: list_all_iff dot_def num_char_def is_digit_def)
  have q: "list_all dot (json_quote v)"
    using assms by (simp add: json_quote_def eq_value_def dot_quote_body) (simp add: dot_def)
  show "buildExprLiteral ''eq'' v \<noteq> []" using n(2) by (auto simp: buildExprLiteral_def Let_def t json_quote_def js_eval)
  show "list_all dot (buildExprLiteral ''eq'' v)"
    using n(1) q by (auto simp: buildExprLiteral_def Let_def t js_eval dot_def)
qed

lemma json_quote_not_numeric: "\<not> numeric_literal (json_quote v)"
  using numeric_literal_chars(2) [of "json_quote v"]
  by (auto simp: json_quote_def num_char_def is_digit_def)

lemma trim_json_quote: "trim (json_quote v) = json_quote v"
  by (intro trim_id) (simp add: trimmed_def json_quote_def is_ws_def)

lemma parse_literal:
  assumes "eq_value v" shows "parseExprLiteral (buildExprLiteral ''eq'' v) = Some (JStr v)"
proof -
  have t: "trim v = v" and u: "units_ok v" using assms by (simp_all add: eq_value_def)
  have "parseExprLiteral (json_quote v) = Some (JStr v)"
    using u json_parse_quote [of v]
    by (simp add: parseExprLiteral_def trim_json_quote json_quote_not_numeric Let_def)
      (simp add: json_quote_def js_eval)
  moreover have "parseExprLiteral v = Some (JStr v)" if "v = js ''true'' \<or> v = js ''false'' \<or> numeric_literal v"
    using that by (auto simp: parseExprLiteral_def Let_def t)
  ultimately show ?thesis by (auto simp: buildExprLiteral_def Let_def t)
qed

definition source_name :: "cond_source \<Rightarrow> string" where
  "source_name src = (if src = HeaderSource then ''header'' else ''param'')"

lemma parse_equals:
  assumes "p \<noteq> []" "list_all not_quote p" "eq_value v"
  shows "tryParseRequestCondition
      (js (source_name src) @ js ''(\"'' @ p @ js ''\") == '' @ buildExprLiteral ''eq'' v)
     = Returns (Some (ParamHeaderCondition src p ''eq'' v))"
proof -
  let ?l = "buildExprLiteral ''eq'' v"
  let ?e = "js (source_name src) @ js ''(\"'' @ p @ js ''\") == '' @ ?l"
  note l = literal_dot [OF assms(3)]
  have "tryParseTimeCondition ?e = None"
    using not_time(1,2) [of "js ''\"'' @ p @ js ''\") == '' @ ?l"] by (cases src) (simp_all add: source_name_def js_eval)
  moreover have "match_start rx_header_exists ?e = None" "match_start rx_param_exists ?e = None"
    "match_start rx_header_contains ?e = None" "match_start rx_param_contains ?e = None"
    "match_start rx_param_op ?e = None"
    using assms(1,2) by (cases src; simp add: rx_header_exists_def rx_param_exists_def rx_header_contains_def
        rx_param_contains_def rx_param_op_def source_name_def match_start_def rx_eval del: run.simps)+
  moreover have "match_start rx_equals ?e = Some [1 \<mapsto> js (source_name src), 2 \<mapsto> p, 3 \<mapsto> ?l]"
    using assms(1,2) l by (cases src) (simp_all add: rx_equals_def source_name_def match_start_def rx_eval del: run.simps)
  ultimately show ?thesis
    using assms(3)
    by (cases src) (simp_all add: tryParseRequestCondition_def contains_or_op_def param_op_condition_def
        equals_condition_def grp_def source_name_def parse_literal)
qed

section \<open>Texts with balanced parentheses\<close>

fun bal_from :: "nat \<Rightarrow> jstr \<Rightarrow> bool" where
  "bal_from k [] = (k = 0)"
| "bal_from k (c # s) =
     (if c = 40 then bal_from (Suc k) s
      else if c = 41 then 0 < k \<and> bal_from (k - 1) s
      else bal_from k s)"

abbreviation bal :: "jstr \<Rightarrow> bool" where
  "bal s \<equiv> bal_from 0 s"

lemma bal_from_append: "bal_from j a \<Longrightarrow> bal_from (j + k) (a @ t) = bal_from k t"
proof (induction a arbitrary: j)
  case (Cons c a)
  show ?case
  proof (cases "c = 41")
    case True
    then obtain i where "j = Suc i" using Cons.prems by (cases j) auto
    with Cons True show ?thesis by simp
  next
    case False
    with Cons.prems Cons.IH [of "Suc j"] Cons.IH [of j] show ?thesis by auto
  qed
qed simp

lemma bal_append [simp]: "bal a \<Longrightarrow> bal_from k (a @ t) = bal_from k t"
  using bal_from_append [of 0 a k t] by simp

lemma bal_parens [simp]: "bal e \<Longrightarrow> bal_from k (40 # e @ 41 # t) = bal_from k t"
  by simp

lemma bal_no_parens: "40 \<notin> set s \<Longrightarrow> 41 \<notin> set s \<Longrightarrow> bal s"
  by (induction s) auto

section \<open>Splitting\<close>

lemma split_scan_Nil [simp]: "split_scan sep d cur [] = [cur]"
  by (subst split_scan.simps) simp

lemma split_scan_Cons:
  "\<not> (d' = 0 \<and> prefix sep (c # t)) \<Longrightarrow> d' = (if c = 40 then d + 1 else if c = 41 then d - 1 else d) \<Longrightarrow>
   split_scan sep d cur (c # t) = split_scan sep d' (cur @ [c]) t"
  by (subst split_scan.simps) (auto simp: Let_def)

lemma split_scan_sep:
  assumes "sep = 32 # w" shows "split_scan sep 0 cur (sep @ t) = cur # split_scan sep 0 [] t"
  by (subst split_scan.simps) (simp add: assms Let_def)

text \<open>Inside parentheses no separator is seen.\<close>

lemma split_scan_inside:
  "bal_from j e \<Longrightarrow> split_scan sep (1 + int j) cur (e @ t) = split_scan sep 1 (cur @ e) t"
proof (induction e arbitrary: j cur)
  case (Cons c e)
  let ?d = "if c = 40 then 1 + int j + 1 else if c = 41 then 1 + int j - 1 else 1 + int j"
  have "?d \<noteq> 0" using Cons.prems by (auto split: if_splits)
  then have step: "split_scan sep (1 + int j) cur (c # e @ t) = split_scan sep ?d (cur @ [c]) (e @ t)"
    by (intro split_scan_Cons) simp_all
  obtain i where i: "bal_from i e" "?d = 1 + int i"
  proof (cases "c = 40")
    case True
    with Cons.prems that [of "Suc j"] show thesis by simp
  next
    case False
    with Cons.prems that [of "if c = 41 then j - 1 else j"] show thesis by (auto split: if_splits)
  qed
  show ?case using Cons.IH [OF i(1)] step i(2) by simp
qed simp

lemma split_scan_parens:
  assumes "bal e" "sep = 32 # w"
  shows "split_scan sep 0 cur (40 # e @ 41 # t) = split_scan sep 0 (cur @ 40 # e @ [41]) t"
proof -
  have "split_scan sep 0 cur (40 # e @ 41 # t) = split_scan sep 1 (cur @ [40]) (e @ 41 # t)"
    by (intro split_scan_Cons) simp_all
  also have "\<dots> = split_scan sep 1 (cur @ 40 # e) (41 # t)"
    using split_scan_inside [OF assms(1), of sep "cur @ [40]" "41 # t"] by simp
  also have "\<dots> = split_scan sep 0 (cur @ 40 # e @ [41]) t"
    using split_scan_Cons [of 0 sep 41 t 1] assms(2) by simp
  finally show ?thesis .
qed

lemma split_scan_quiet:
  "bal_from j e \<Longrightarrow> (\<And>i. i < length e \<Longrightarrow> \<not> prefix sep (drop i e @ t)) \<Longrightarrow>
   split_scan sep (int j) cur (e @ t) = split_scan sep 0 (cur @ e) t"
proof (induction e arbitrary: j cur)
  case (Cons c e)
  let ?d = "if c = 40 then int j + 1 else if c = 41 then int j - 1 else int j"
  have step: "split_scan sep (int j) cur (c # e @ t) = split_scan sep ?d (cur @ [c]) (e @ t)"
    using Cons.prems(2) [of 0] by (intro split_scan_Cons) simp_all
  obtain i where i: "bal_from i e" "?d = int i"
  proof (cases "c = 40")
    case True
    with Cons.prems that [of "Suc j"] show thesis by simp
  next
    case False
    with Cons.prems that [of "if c = 41 then j - 1 else j"] show thesis by (auto split: if_splits)
  qed
  have "\<And>i. i < length e \<Longrightarrow> \<not> prefix sep (drop i e @ t)"
    using Cons.prems(2) [of "Suc i" for i] by simp
  from Cons.IH [OF i(1) this] step i(2) show ?case by simp
qed simp

definition AND :: jstr where "AND = js '' && ''"
definition MUL :: jstr where "MUL = js '' * ''"

lemma AND_units: "AND = [32, 38, 38, 32]" and MUL_units: "MUL = [32, 42, 32]"
  by (simp_all add: AND_def MUL_def js_eval)

text \<open>A text without the separator in it, that does not end with \<open>&\<close>, is passed over.\<close>

lemma no_AND_at:
  assumes "\<not> sublist AND e" "e \<noteq> []" "last e \<noteq> 38" "t = [] \<or> prefix AND t" "i < length e"
  shows "\<not> prefix AND (drop i e @ t)"
proof
  assume p: "prefix AND (drop i e @ t)"
  obtain u where def_u: "drop i e = u" by blast
  have u: "u \<noteq> []" "last u = last e" using assms(5) def_u by auto
  have "\<not> prefix AND u"
  proof
    assume "prefix AND u"
    then have "sublist AND u" by blast
    then have "sublist AND e" using def_u by (metis sublist_drop sublist_order.order_trans)
    with assms(1) show False ..
  qed
  with p obtain v where v: "AND = u @ v" "prefix v t" by (auto simp: prefix_append def_u)
  have "v \<noteq> []" using v(1) \<open>\<not> prefix AND u\<close> by auto
  then have "t \<noteq> []" using v(2) by auto
  with assms(4) obtain t' where t: "t = 32 # 38 # 38 # 32 # t'" by (auto simp: AND_units prefix_def)
  have "u = [32, 38, 38]"
    using v t u(1) \<open>v \<noteq> []\<close> unfolding AND_units by (auto simp: Cons_eq_append_conv)
  with u(2) assms(3) show False by simp
qed

definition text_ok :: "jstr \<Rightarrow> bool" where
  "text_ok e \<longleftrightarrow> e \<noteq> [] \<and> bal e \<and> trimmed e \<and> last e \<noteq> 38 \<and> \<not> sublist AND e"

lemma split_scan_AND:
  assumes "es \<noteq> []" "\<forall>e\<in>set es. text_ok e"
  shows "split_scan AND 0 [] (join AND es) = es"
  using assms
proof (induction es rule: list_nonempty_induct)
  case (single e)
  then have "split_scan AND (int 0) [] (e @ []) = split_scan AND 0 ([] @ e) []"
    by (intro split_scan_quiet no_AND_at) (auto simp: text_ok_def)
  then show ?case by simp
next
  case (cons e es)
  have "split_scan AND (int 0) [] (e @ (AND @ join AND es)) = split_scan AND 0 ([] @ e) (AND @ join AND es)"
    using cons.prems by (intro split_scan_quiet no_AND_at) (auto simp: text_ok_def)
  also have "\<dots> = e # split_scan AND 0 [] (join AND es)"
    using split_scan_sep [of AND "[38, 38, 32]" e "join AND es"] by (simp add: AND_units)
  finally show ?case using cons by (simp add: join_Cons)
qed

lemma splitTopLevelAnd_join:
  assumes "es \<noteq> []" "\<forall>e\<in>set es. text_ok e"
  shows "splitTopLevelAnd (join AND es) = es"
proof -
  have "map trim es = es" using assms(2) by (simp add: text_ok_def map_idI)
  moreover have "filter (\<lambda>p. p \<noteq> []) es = es" using assms(2) by (auto simp: text_ok_def filter_id_conv)
  ultimately show ?thesis
    by (simp add: splitTopLevelAnd_def split_top_def AND_def [symmetric] split_scan_AND [OF assms])
qed

lemma split_scan_MUL:
  assumes "es \<noteq> []" "\<forall>e\<in>set es. bal e"
  shows "split_scan MUL 0 [] (join MUL (map (\<lambda>e. 40 # e @ [41]) es)) = map (\<lambda>e. 40 # e @ [41]) es"
  using assms
proof (induction es rule: list_nonempty_induct)
  case (single e)
  then show ?case using split_scan_parens [of e MUL "[42, 32]" "[]" "[]"] by (simp add: MUL_units)
next
  case (cons e es)
  let ?r = "join MUL (map (\<lambda>e. 40 # e @ [41]) es)"
  have "split_scan MUL 0 [] (40 # e @ 41 # MUL @ ?r) = split_scan MUL 0 (40 # e @ [41]) (MUL @ ?r)"
    using split_scan_parens [of e MUL "[42, 32]" "[]" "MUL @ ?r"] cons.prems by (simp add: MUL_units)
  also have "\<dots> = (40 # e @ [41]) # split_scan MUL 0 [] ?r"
    using split_scan_sep [of MUL "[42, 32]" "40 # e @ [41]" ?r] by (simp add: MUL_units)
  finally show ?case using cons by (simp add: join_Cons)
qed

lemma trim_parens: "trim (40 # e @ [41]) = 40 # e @ [41]"
  by (intro trim_id) (simp add: trimmed_def is_ws_def)

lemma splitTopLevelMultiply_join:
  assumes "es \<noteq> []" "\<forall>e\<in>set es. bal e"
  shows "splitTopLevelMultiply (join MUL (map (\<lambda>e. 40 # e @ [41]) es)) = map (\<lambda>e. 40 # e @ [41]) es"
  by (simp add: splitTopLevelMultiply_def split_top_def MUL_def [symmetric] split_scan_MUL [OF assms]
      comp_def trim_parens)

section \<open>Conditions that can be read back\<close>

text \<open>The conditions an editor holds once they are complete and normalised, of the kinds that
  are read back: texts the printer need not escape as paths and time zones, no parentheses in
  values, and not a parameter compared with anything but \<open>==\<close>.\<close>

definition no_parens :: "jstr \<Rightarrow> bool" where
  "no_parens s \<longleftrightarrow> 40 \<notin> set s \<and> 41 \<notin> set s"

fun cond_ok :: "request_condition \<Rightarrow> bool" where
  "cond_ok (TimeCondition f tz m v rs re) \<longleftrightarrow>
     plain tz \<and> tz \<noteq> [] \<and>
     (if m = ''range'' then v = [] \<and> numeric_literal rs \<and> numeric_literal re
      else m \<in> {''eq'', ''gte'', ''lt''} \<and> numeric_literal v \<and> rs = [] \<and> re = [])"
| "cond_ok (ParamHeaderCondition src p m v) \<longleftrightarrow>
     plain p \<and> p \<noteq> [] \<and> trimmed p \<and>
     (m = ''exists'' \<and> v = [] \<or>
      m = ''contains'' \<and> src = HeaderSource \<and> units_ok v \<and> trimmed v \<and> no_parens v \<or>
      m = ''eq'' \<and> eq_value v \<and> no_parens v)"

fun is_range :: "request_condition \<Rightarrow> bool" where
  "is_range (TimeCondition _ _ m _ _ _) = (m = ''range'')"
| "is_range (ParamHeaderCondition _ _ _ _) = False"

text \<open>What the parser sees between the parts of a rule: the separators must not occur in a text.\<close>

definition reparsable :: "request_condition \<Rightarrow> bool" where
  "reparsable c \<longleftrightarrow>
     cond_ok c \<and> \<not> str_includes (buildRequestConditionExpr c) (js '' && '') \<and>
     (is_range c \<or> \<not> str_includes (buildRequestConditionExpr c) (js '' || ''))"

lemma time_funcs_map: "map_of TIME_FUNCS (time_func_name f) = Some f"
  by (cases f) (simp_all add: TIME_FUNCS_def)

lemma renormalize_ok: "cond_ok c \<Longrightarrow> renormalize c = c"
proof (induction c)
  case (ParamHeaderCondition src p m v)
  then show ?case
    by (cases src) (auto simp: renormalize_def normalizeCondition_def Let_def mode_or_def text_or_empty_def
        getRequestRuleMatchOptions_def MATCH_MODES_HEADER_def MATCH_MODES_PARAM_def)
next
  case (TimeCondition f tz m v rs re)
  then show ?case
    by (auto simp: renormalize_def normalizeCondition_def Let_def mode_or_def text_or_empty_def isTimeFunc_def
        getRequestRuleMatchOptions_def MATCH_MODES_TIME_def time_funcs_map split: if_splits)
qed

text \<open>The texts of the conditions.\<close>

definition time_head :: "time_func \<Rightarrow> jstr \<Rightarrow> jstr" where
  "time_head f tz = js (time_func_name f) @ js ''(\"'' @ tz @ js ''\")''"

definition source_head :: "cond_source \<Rightarrow> jstr \<Rightarrow> jstr" where
  "source_head src p = js (source_name src) @ js ''(\"'' @ p @ js ''\")''"

lemma source_expr_plain: "plain p \<Longrightarrow> source_expr src p = source_head src p"
  by (cases src) (simp_all add: source_expr_def source_head_def source_name_def json_quote_plain js_eval)

fun cond_text :: "request_condition \<Rightarrow> jstr" where
  "cond_text (TimeCondition f tz m v rs re) =
     (if m = ''range'' then time_head f tz @ js '' >= '' @ rs @ js '' || '' @ time_head f tz @ js '' < '' @ re
      else time_head f tz @ js '' '' @ js (if m = ''gte'' then ''>='' else if m = ''lt'' then ''<'' else ''=='') @ js '' '' @ v)"
| "cond_text (ParamHeaderCondition src p m v) =
     (if m = ''exists'' then source_head src p @ (if src = HeaderSource then js '' != \"\"'' else js '' != nil'')
      else if m = ''contains'' then js ''has('' @ source_head src p @ js '', '' @ json_quote v @ js '')''
      else source_head src p @ js '' == '' @ buildExprLiteral ''eq'' v)"

lemma build_text: "cond_ok c \<Longrightarrow> buildRequestConditionExpr c = cond_text c"
proof (induction c)
  case (ParamHeaderCondition src p m v)
  then have p: "plain p" "p \<noteq> []" "trim p = p" by simp_all
  have r: "buildRequestConditionExpr (ParamHeaderCondition src p m v) = build_param_header (ParamHeaderCondition src p m v)"
    using renormalize_ok [OF ParamHeaderCondition] by simp
  consider "m = ''exists''" | "m = ''contains''" "src = HeaderSource" "trim v = v" | "m = ''eq''"
    using ParamHeaderCondition by auto
  then show ?case
    unfolding r by cases (simp_all add: Let_def p source_expr_plain buildExprLiteral_def)
next
  case (TimeCondition f tz m v rs re)
  have tz: "json_quote tz = js ''\"'' @ tz @ js ''\"''"
    using TimeCondition by (simp add: json_quote_plain js_eval)
  show ?case
  proof (cases "m = ''range''")
    case True
    then have "trim rs = rs" "trim re = re" using TimeCondition numeric_literal_trim by simp_all
    with True TimeCondition show ?thesis
      using renormalize_ok [OF TimeCondition]
      by (simp add: buildTimeConditionExpr_def Let_def time_head_def tz) (simp add: js_eval)
  next
    case False
    then have "trim v = v" using TimeCondition numeric_literal_trim by simp
    with False TimeCondition show ?thesis
      using renormalize_ok [OF TimeCondition]
      by (simp add: buildTimeConditionExpr_def Let_def time_head_def tz) (simp add: js_eval)
  qed
qed

lemma cond_roundtrip: "cond_ok c \<Longrightarrow> tryParseRequestCondition (cond_text c) = Returns (Some c)"
proof (induction c)
  case (ParamHeaderCondition src p m v)
  then have p: "p \<noteq> []" "list_all not_quote p" by (simp_all add: plain_not_quote)
  consider "m = ''exists''" "v = []" | "m = ''contains''" "src = HeaderSource" "units_ok v" | "m = ''eq''" "eq_value v"
    using ParamHeaderCondition by auto
  then show ?case
  proof cases
    case 1
    then show ?thesis
      using parse_exists [OF p] by (cases src) (simp_all add: source_head_def source_name_def js_eval)
  next
    case 2
    then show ?thesis
      using parse_header_contains [OF p, of v] by (simp add: source_head_def source_name_def js_eval)
  next
    case 3
    then show ?thesis using parse_equals [OF p, of v src] by (simp add: source_head_def js_eval)
  qed
next
  case (TimeCondition f tz m v rs re)
  then have tz: "tz \<noteq> []" "list_all not_quote tz" by (simp_all add: plain_not_quote)
  show ?case
  proof (cases "m = ''range''")
    case True
    then show ?thesis
      using TimeCondition parse_range [OF tz, of rs re f] numeric_literal_chars
      by (simp add: tryParseRequestCondition_def time_head_def js_eval)
  next
    case False
    then show ?thesis
      using TimeCondition parse_time_op [OF tz, of v m f] numeric_literal_chars [of v]
      by (auto simp: tryParseRequestCondition_def time_head_def js_eval)
  qed
qed

lemma range_parens_roundtrip:
  assumes "cond_ok c" "is_range c"
  shows "tryParseRequestCondition (40 # cond_text c @ [41]) = Returns (Some c)"
  using assms
proof (cases c)
  case (TimeCondition f tz m v rs re)
  then show ?thesis
    using assms parse_range_parens [of tz rs re f] numeric_literal_chars plain_not_quote [of tz]
    by (simp add: tryParseRequestCondition_def time_head_def js_eval)
qed simp

section \<open>The parts of a rule\<close>

lemma plain_bal: "plain p \<Longrightarrow> bal p"
  by (intro bal_no_parens) (auto simp: plain_def list_all_iff)

lemma numeric_bal: "numeric_literal s \<Longrightarrow> bal s"
  using numeric_literal_chars(2) [of s] num_char_facts by (intro bal_no_parens) (auto simp: list_all_iff)

lemma hex_digit_no_parens: "hex_digit d \<noteq> 40" "hex_digit d \<noteq> 41"
  by (auto simp: hex_digit_def)

lemma quote_unit_no_parens:
  "40 \<noteq> c \<Longrightarrow> 40 \<notin> set (quote_unit c)" "41 \<noteq> c \<Longrightarrow> 41 \<notin> set (quote_unit c)"
  "40 \<notin> set (u_escape c)" "41 \<notin> set (u_escape c)"
  using hex_digit_no_parens by (auto simp: quote_unit_def u_escape_def eq_commute [of 40] eq_commute [of 41])

lemma quote_body_no_parens: "no_parens v \<Longrightarrow> 40 \<notin> set (quote_body v) \<and> 41 \<notin> set (quote_body v)"
  by (induction v rule: quote_body.induct) (auto simp: no_parens_def quote_unit_no_parens)

lemma quote_bal: "no_parens v \<Longrightarrow> bal (json_quote v)"
  using quote_body_no_parens [of v] by (intro bal_no_parens) (auto simp: json_quote_def)

text \<open>How a text may end: not in white space, nor with the first half of a separator.\<close>

definition ends_ok :: "jstr \<Rightarrow> bool" where
  "ends_ok e \<longleftrightarrow> e \<noteq> [] \<and> last e \<noteq> 38 \<and> \<not> is_ws (last e)"

lemma ends_ok_append [simp]: "ends_ok e \<Longrightarrow> ends_ok (a @ e)" "ends_ok e \<Longrightarrow> ends_ok (x # e)"
  by (auto simp: ends_ok_def)

lemma numeric_ends_ok: "numeric_literal s \<Longrightarrow> ends_ok s"
  using numeric_literal_chars [of s] num_char_facts by (auto simp: ends_ok_def list_all_iff)

lemma quote_ends_ok: "ends_ok (json_quote v)"
  by (simp add: ends_ok_def json_quote_def is_ws_def)

lemma literal_ok:
  assumes "eq_value v" "no_parens v"
  shows "bal (buildExprLiteral ''eq'' v)" and "ends_ok (buildExprLiteral ''eq'' v)"
proof -
  have t: "trim v = v" using assms(1) by (simp add: eq_value_def)
  show "bal (buildExprLiteral ''eq'' v)"
    using assms(2) by (auto simp: buildExprLiteral_def Let_def t quote_bal numeric_bal js_eval)
  show "ends_ok (buildExprLiteral ''eq'' v)"
    by (auto simp: buildExprLiteral_def Let_def t quote_ends_ok numeric_ends_ok js_eval)
      (simp_all add: ends_ok_def is_ws_def)
qed

lemma head_bal: "plain p \<Longrightarrow> bal (time_head f p)" "plain p \<Longrightarrow> bal (source_head src p)"
  by (cases f; simp add: time_head_def js_eval plain_bal)
    (cases src; simp add: source_head_def source_name_def js_eval plain_bal)

lemma head_start:
  "\<exists>c s. time_head f p = c # s \<and> \<not> is_ws c" "\<exists>c s. source_head src p = c # s \<and> \<not> is_ws c"
  by (cases f; simp add: time_head_def js_eval is_ws_def)
    (cases src; simp add: source_head_def source_name_def js_eval is_ws_def)

definition starts_ok :: "jstr \<Rightarrow> bool" where
  "starts_ok e \<longleftrightarrow> e \<noteq> [] \<and> \<not> is_ws (hd e)"

lemma starts_ok_append [simp]: "starts_ok a \<Longrightarrow> starts_ok (a @ e)"
  by (cases a) (auto simp: starts_ok_def)

lemma starts_ok_heads: "starts_ok (time_head f p)" "starts_ok (source_head src p)" "starts_ok (js ''has('' @ e)"
  using head_start(1) [of f p] head_start(2) [of src p]
  by (auto simp: starts_ok_def) (auto simp: js_eval is_ws_def)

lemma starts_ends_trimmed: "starts_ok e \<Longrightarrow> ends_ok e \<Longrightarrow> trimmed e"
  by (simp add: starts_ok_def ends_ok_def trimmed_def)

lemma bal_js: "bal (js '' >= '')" "bal (js '' || '')" "bal (js '' < '')" "bal (js '' '')" "bal (js ''>='')"
  "bal (js ''<'')" "bal (js ''=='')" "bal (js '' == '')" "bal (js '' != nil'')" "bal (js '' != \"\"'')"
  by (simp_all add: js_eval)

lemma cond_text_shape:
  assumes "cond_ok c" shows "bal (cond_text c)" and "starts_ok (cond_text c)" and "ends_ok (cond_text c)"
proof -
  have lits: "ends_ok (js '' != nil'')" "ends_ok (js '' != \"\"'')" "ends_ok (js '')'')"
    by (simp_all add: ends_ok_def js_eval is_ws_def)
  have has: "bal (js ''has('' @ e @ js '')'')" if "bal e" for e
    using that by (simp add: js_eval)
  have comma: "bal (js '', '')" by (simp add: js_eval)
  show "bal (cond_text c)"
  proof (cases c)
    case (ParamHeaderCondition src p m v)
    have "bal (js ''has('' @ (source_head src p @ js '', '' @ json_quote v) @ js '')'')" if "no_parens v"
      using assms that ParamHeaderCondition by (intro has) (simp add: head_bal comma quote_bal)
    then show ?thesis using assms ParamHeaderCondition by (auto simp: head_bal bal_js literal_ok)
  next
    case (TimeCondition f tz m v rs re)
    then show ?thesis using assms by (auto simp: head_bal bal_js numeric_bal)
  qed
  show "starts_ok (cond_text c)" by (cases c) (auto simp: starts_ok_heads)
  show "ends_ok (cond_text c)"
    using assms by (cases c) (auto simp: literal_ok numeric_ends_ok lits)
qed

lemma reparsable_text_ok:
  assumes "reparsable c" shows "text_ok (cond_text c)"
proof -
  have ok: "cond_ok c" and "\<not> str_includes (cond_text c) (js '' && '')"
    using assms build_text by (auto simp: reparsable_def)
  then have "\<not> sublist AND (cond_text c)" by (simp add: str_includes_iff AND_def)
  with cond_text_shape [OF ok] show ?thesis
    by (simp add: text_ok_def starts_ends_trimmed) (simp add: ends_ok_def)
qed

lemma sublist_parens: "sublist AND (40 # e @ [41]) \<Longrightarrow> sublist AND e"
proof -
  assume "sublist AND (40 # e @ [41])"
  then have "sublist AND (e @ [41])" by (auto simp: sublist_Cons_right AND_units)
  then have "sublist (rev AND) (41 # rev e)" by (metis sublist_rev rev.simps(2) rev_append rev_rev_ident append_Cons append_Nil)
  then have "sublist (rev AND) (rev e)" by (auto simp: sublist_Cons_right AND_units)
  then show ?thesis by (simp only: sublist_rev)
qed

lemma text_ok_parens: "text_ok e \<Longrightarrow> text_ok (40 # e @ [41])"
  using sublist_parens [of e] by (auto simp: text_ok_def trimmed_def is_ws_def)

lemma range_has_or: "cond_ok c \<Longrightarrow> is_range c \<Longrightarrow> str_includes (cond_text c) (js '' || '')"
proof (cases c)
  case (TimeCondition f tz m v rs re)
  assume "is_range c"
  then have "cond_text c = (time_head f tz @ js '' >= '' @ rs) @ js '' || '' @ (time_head f tz @ js '' < '' @ re)"
    using TimeCondition by simp
  then show ?thesis unfolding str_includes_iff sublist_def by blast
qed simp

definition wrapped_text :: "request_condition \<Rightarrow> jstr" where
  "wrapped_text c = (if is_range c then 40 # cond_text c @ [41] else cond_text c)"

lemma wrap_or_text: "reparsable c \<Longrightarrow> wrap_or (buildRequestConditionExpr c) = wrapped_text c"
  using build_text [of c] range_has_or [of c]
  by (auto simp: reparsable_def wrap_or_def wrapped_text_def js_eval)

lemma wrapped_text_ok: "reparsable c \<Longrightarrow> text_ok (wrapped_text c)"
  by (simp add: wrapped_text_def reparsable_text_ok text_ok_parens)

lemma wrapped_roundtrip: "reparsable c \<Longrightarrow> tryParseRequestCondition (wrapped_text c) = Returns (Some c)"
  by (simp add: wrapped_text_def reparsable_def cond_roundtrip range_parens_roundtrip)

lemma collect_all: "(\<And>x. x \<in> set xs \<Longrightarrow> f (g x) = Returns (Some x)) \<Longrightarrow> collect f (map g xs) = Returns (Some xs)"
  by (induction xs) simp_all

section \<open>Rules\<close>

definition group_ok :: "request_rule_group \<Rightarrow> bool" where
  "group_ok g \<longleftrightarrow> rg_conditions g \<noteq> [] \<and> list_all reparsable (rg_conditions g) \<and> numeric_literal (rg_multiplier g)"

definition group_pieces :: "request_rule_group \<Rightarrow> jstr list" where
  "group_pieces g =
     (case rg_conditions g of [c] \<Rightarrow> [cond_text c] | cs \<Rightarrow> map wrapped_text cs)"

definition group_inner :: "request_rule_group \<Rightarrow> jstr" where
  "group_inner g = join AND (group_pieces g) @ js '' ? '' @ rg_multiplier g @ js '' : 1''"

lemma group_pieces_ok:
  assumes "group_ok g"
  shows "group_pieces g \<noteq> []" "\<forall>e\<in>set (group_pieces g). text_ok e"
    and "collect (\<lambda>ap. tryParseRequestCondition (trim ap)) (group_pieces g) = Returns (Some (rg_conditions g))"
proof -
  have r: "\<And>c. c \<in> set (rg_conditions g) \<Longrightarrow> reparsable c" and ne: "rg_conditions g \<noteq> []"
    using assms by (auto simp: group_ok_def list_all_iff)
  have t: "trim e = e" if "text_ok e" for e using that by (simp add: text_ok_def)
  obtain c cs where gc: "rg_conditions g = c # cs" using ne by (cases "rg_conditions g") auto
  consider "rg_conditions g = [c]" | "group_pieces g = map wrapped_text (rg_conditions g)"
    using gc by (cases cs) (simp_all add: group_pieces_def)
  then have "group_pieces g \<noteq> [] \<and> (\<forall>e\<in>set (group_pieces g). text_ok e)
    \<and> collect (\<lambda>ap. tryParseRequestCondition (trim ap)) (group_pieces g) = Returns (Some (rg_conditions g))"
  proof cases
    case 1
    then have c: "reparsable c" using r by simp
    then have "cond_ok c" by (simp add: reparsable_def)
    with 1 c show ?thesis
      using t [OF reparsable_text_ok [OF c]]
      by (simp add: group_pieces_def reparsable_text_ok cond_roundtrip)
  next
    case 2
    have "tryParseRequestCondition (trim (wrapped_text c)) = Returns (Some c)" if "c \<in> set (rg_conditions g)" for c
      using r [OF that] t [OF wrapped_text_ok] wrapped_roundtrip by simp
    then have "collect (\<lambda>ap. tryParseRequestCondition (trim ap)) (map wrapped_text (rg_conditions g)) = Returns (Some (rg_conditions g))"
      by (rule collect_all)
    with 2 show ?thesis using ne r by (auto simp: wrapped_text_ok)
  qed
  then show "group_pieces g \<noteq> []" "\<forall>e\<in>set (group_pieces g). text_ok e"
    "collect (\<lambda>ap. tryParseRequestCondition (trim ap)) (group_pieces g) = Returns (Some (rg_conditions g))"
    by simp_all
qed

lemma build_not_empty: "reparsable c \<Longrightarrow> buildRequestConditionExpr c \<noteq> []"
  using reparsable_text_ok [of c] build_text [of c] by (auto simp: reparsable_def text_ok_def)

lemma build_group:
  assumes "group_ok g" shows "buildRuleGroupFactor g = 40 # group_inner g @ [41]"
proof -
  have r: "\<And>c. c \<in> set (rg_conditions g) \<Longrightarrow> reparsable c" and m: "numeric_literal (rg_multiplier g)"
    and ne: "rg_conditions g \<noteq> []"
    using assms by (auto simp: group_ok_def list_all_iff)
  have all: "filter (\<lambda>e. e \<noteq> []) (map buildRequestConditionExpr (rg_conditions g)) = map buildRequestConditionExpr (rg_conditions g)"
    using r build_not_empty by (auto simp: filter_id_conv)
  let ?bs = "map buildRequestConditionExpr (rg_conditions g)"
  have combined: "(if length ?bs = 1 then hd ?bs else join AND (map wrap_or ?bs)) = join AND (group_pieces g)"
  proof (cases "length ?bs = 1")
    case True
    then obtain c where c: "rg_conditions g = [c]" by (cases "rg_conditions g") auto
    then have "buildRequestConditionExpr c = cond_text c" using r [of c] build_text by (simp add: reparsable_def)
    with c show ?thesis by (simp add: group_pieces_def)
  next
    case False
    then have p: "group_pieces g = map wrapped_text (rg_conditions g)"
      using ne by (auto simp: group_pieces_def split: list.split)
    have w: "map wrap_or ?bs = map wrapped_text (rg_conditions g)" using r wrap_or_text by simp
    show ?thesis by (simp only: False if_False p w)
  qed
  have "buildRuleGroupFactor g =
      js ''('' @ (if length ?bs = 1 then hd ?bs else join AND (map wrap_or ?bs))
        @ js '' ? '' @ rg_multiplier g @ js '' : 1)''"
    unfolding buildRuleGroupFactor_def all Let_def numeric_literal_trim [OF m] AND_def using m ne by simp
  then show ?thesis unfolding combined by (simp add: group_inner_def js_eval)
qed

lemma span_suffix:
  assumes "a @ y # m = b @ y # n" "\<not> P y" "list_all P m" "list_all P n"
  shows "a = b \<and> m = n"
proof -
  have "takeWhile P (rev m @ y # rev a) = rev m" "takeWhile P (rev n @ y # rev b) = rev n"
    using assms(2-4) by (simp_all add: takeWhile_append list_all_iff)
  moreover have "rev m @ y # rev a = rev n @ y # rev b"
    using arg_cong [OF assms(1), of rev] by simp
  ultimately have "rev m = rev n" by metis
  with assms(1) show ?thesis by simp
qed

lemma rule_group_match:
  assumes "x \<noteq> []" "numeric_literal m"
  shows "match_start rx_rule_group (40 # x @ js '' ? '' @ m @ js '' : 1)'') = Some [1 \<mapsto> x, 2 \<mapsto> m]"
proof (rule match_start_unique)
  let ?s = "40 # x @ js '' ? '' @ m @ js '' : 1)''"
  note m = numeric_literal_chars [OF assms(2)]
  show "([1 \<mapsto> x, 2 \<mapsto> m], []) \<in> set (run rx_rule_group (Map.empty, ?s))"
    unfolding rx_rule_group_def seqs.simps L_def in_run_Seq in_run_Lit in_run_Cap_Plus in_run_Eos
    using assms(1) m by (auto simp: js_eval list_all_iff)
  fix c' s'
  assume "(c', s') \<in> set (run rx_rule_group (Map.empty, ?s))"
  then obtain w w2 where w: "w \<noteq> []" "list_all num_char w2" "c' = [1 \<mapsto> w, 2 \<mapsto> w2]"
      "?s = 40 # w @ js '' ? '' @ w2 @ js '' : 1)''"
    unfolding rx_rule_group_def seqs.simps L_def in_run_Seq in_run_Lit in_run_Cap_Plus in_run_Eos
    by (auto simp: js_eval)
  then have "(x @ js '' ? '') @ m = (w @ js '' ? '') @ w2" by simp
  then have "(x @ [32, 63]) @ 32 # m = (w @ [32, 63]) @ 32 # w2" by (simp add: js_eval)
  from span_suffix [OF this num_char_units(1) m(2) w(2)] show "c' = [1 \<mapsto> x, 2 \<mapsto> m]" using w(3) by simp
qed

lemma join_not_empty: "es \<noteq> [] \<Longrightarrow> \<forall>e\<in>set es. e \<noteq> [] \<Longrightarrow> join sep es \<noteq> []"
  by (induction sep es rule: join.induct) auto

lemma factor_roundtrip:
  assumes "group_ok g"
  shows "tryParseRuleGroupFactor (40 # group_inner g @ [41]) = Returns (Some g)"
proof -
  note p = group_pieces_ok [OF assms]
  have m: "numeric_literal (rg_multiplier g)" and ne: "rg_conditions g \<noteq> []"
    using assms by (simp_all add: group_ok_def)
  have j: "join AND (group_pieces g) \<noteq> []" using p(1,2) by (intro join_not_empty) (auto simp: text_ok_def)
  have "40 # group_inner g @ [41] = 40 # join AND (group_pieces g) @ js '' ? '' @ rg_multiplier g @ js '' : 1)''"
    by (simp add: group_inner_def js_eval)
  then show ?thesis
    using rule_group_match [OF j m] splitTopLevelAnd_join [OF p(1,2)] p(3) ne
    by (simp add: tryParseRuleGroupFactor_def grp_def)
qed

lemma bal_join: "\<forall>e\<in>set es. bal e \<Longrightarrow> bal (join AND es)"
  by (induction AND es rule: join.induct) (auto simp: AND_units)

lemma group_inner_bal: "group_ok g \<Longrightarrow> bal (group_inner g)"
proof -
  assume g: "group_ok g"
  have "bal (join AND (group_pieces g))"
    using group_pieces_ok(2) [OF g] by (intro bal_join) (simp add: text_ok_def)
  moreover have "bal (rg_multiplier g)" using g by (simp add: group_ok_def numeric_bal)
  ultimately show ?thesis by (simp add: group_inner_def js_eval)
qed

lemma build_rules:
  assumes "list_all group_ok gs"
  shows "buildRequestRuleExpr gs = join MUL (map (\<lambda>e. 40 # e @ [41]) (map group_inner gs))"
proof -
  have b: "map buildRuleGroupFactor gs = map (\<lambda>e. 40 # e @ [41]) (map group_inner gs)"
    using assms build_group by (simp add: list_all_iff)
  moreover have "filter (\<lambda>f. f \<noteq> []) (map (\<lambda>e. 40 # e @ [41]) es) = map (\<lambda>e. 40 # e @ [41]) es" for es :: "jstr list"
    by (simp add: filter_id_conv)
  ultimately show ?thesis by (simp add: buildRequestRuleExpr_def MUL_def del: map_map)
qed

lemma join_parens_ends:
  assumes "es \<noteq> []"
  shows "hd (join MUL (map (\<lambda>e. 40 # e @ [41]) es)) = 40" "last (join MUL (map (\<lambda>e. 40 # e @ [41]) es)) = 41"
    "join MUL (map (\<lambda>e. 40 # e @ [41]) es) \<noteq> []"
proof -
  have ne: "join MUL (map (\<lambda>e. 40 # e @ [41]) es) \<noteq> []" if "es \<noteq> []" for es :: "jstr list"
    using that by (intro join_not_empty) auto
  show "hd (join MUL (map (\<lambda>e. 40 # e @ [41]) es)) = 40"
    using assms by (cases es) (simp_all add: join_Cons, cases "tl es", simp_all add: join_Cons)
  show "last (join MUL (map (\<lambda>e. 40 # e @ [41]) es)) = 41"
    using assms
  proof (induction es rule: list_nonempty_induct)
    case (cons e es)
    then show ?case using ne [of es] by (simp add: join_Cons)
  qed simp
  show "join MUL (map (\<lambda>e. 40 # e @ [41]) es) \<noteq> []" by (rule ne) fact
qed

lemma trim_join_parens: "trim (join MUL (map (\<lambda>e. 40 # e @ [41]) es)) = join MUL (map (\<lambda>e. 40 # e @ [41]) es)"
proof (cases "es = []")
  case False
  then show ?thesis using join_parens_ends [OF False] by (intro trim_id) (simp add: trimmed_def is_ws_def)
qed simp


definition demo_rules :: "request_rule_group list" where
  "demo_rules =
     [\<lparr>rg_conditions =
         [TimeCondition Hour (js ''UTC'') ''range'' [] (js ''21'') (js ''6''),
          ParamHeaderCondition ParamSource (js ''model'') ''eq'' (js ''a b'')],
       rg_multiplier = js ''1.5''\<rparr>,
      \<lparr>rg_conditions = [ParamHeaderCondition HeaderSource (js ''x-plan'') ''contains'' (js ''pro'')],
       rg_multiplier = js ''2''\<rparr>]"

lemma demo_rules_ok: "list_all group_ok demo_rules"
  by code_simp


section \<open>Combining and splitting\<close>

lemma outer_scan_inside: "bal_from j e \<Longrightarrow> outer_scan (1 + int j) (e @ [41])"
proof (induction e arbitrary: j)
  case (Cons c e)
  obtain i where i: "bal_from i e" "(if c = 40 then 1 + int j + 1 else if c = 41 then 1 + int j - 1 else 1 + int j) = 1 + int i"
  proof (cases "c = 40")
    case True
    with Cons.prems that [of "Suc j"] show thesis by simp
  next
    case False
    with Cons.prems that [of "if c = 41 then j - 1 else j"] show thesis by (auto split: if_splits)
  qed
  show ?case using Cons.IH [OF i(1)] i(2) by (simp add: Let_def)
qed simp

lemma outer_scan_balanced: "outer_scan (1 + int j) (e @ [41]) \<Longrightarrow> bal_from j e"
proof (induction e arbitrary: j)
  case (Cons c e)
  consider "c = 40" | "c = 41" | "c \<noteq> 40" "c \<noteq> 41" by blast
  then show ?case
  proof cases
    case 1
    then show ?thesis using Cons.prems Cons.IH [of "Suc j"] by (simp add: Let_def add.commute)
  next
    case 2
    then have "j \<noteq> 0" using Cons.prems by (auto simp: Let_def split: if_splits)
    then obtain i where "j = Suc i" by (cases j) auto
    then show ?thesis using 2 Cons.prems Cons.IH [of i] by (simp add: Let_def)
  next
    case 3
    then show ?thesis using Cons.prems Cons.IH [of j] by (simp add: Let_def)
  qed
qed (simp add: Let_def)

lemma full_parens_iff: "hasFullOuterParens s \<longleftrightarrow> (\<exists>x. s = 40 # x @ [41] \<and> bal x)"
proof
  assume full: "hasFullOuterParens s"
  then have e: "s \<noteq> []" "hd s = 40" "last s = 41" by (simp_all add: hasFullOuterParens_def)
  then obtain t where t: "s = 40 # t" by (cases s) auto
  then have "t \<noteq> []" using e by auto
  then obtain x where x: "s = 40 # x @ [41]" using e(3) t by (cases t rule: rev_cases) auto
  then have "outer_scan (1 + int 0) (x @ [41])" using full by (simp add: hasFullOuterParens_def Let_def)
  then show "\<exists>x. s = 40 # x @ [41] \<and> bal x" using outer_scan_balanced x by blast
next
  assume "\<exists>x. s = 40 # x @ [41] \<and> bal x"
  then obtain x where "s = 40 # x @ [41]" "bal x" by blast
  then show "hasFullOuterParens s"
    using outer_scan_inside [of 0 x] by (simp add: hasFullOuterParens_def Let_def)
qed

lemma full_parens: "bal e \<Longrightarrow> hasFullOuterParens (40 # e @ [41])"
  by (auto simp: full_parens_iff)

lemma unwrap_once:
  assumes "bal e" "trim e = e" "\<not> hasFullOuterParens e"
  shows "unwrapOuterParens (40 # e @ [41]) = e"
proof -
  have "strip_outer (40 # e @ [41]) = e" using assms(2) by (simp add: strip_outer_def)
  then have "unwrap (40 # e @ [41]) = unwrap e" using full_parens [OF assms(1)] by (subst unwrap.simps) simp
  also have "\<dots> = e" using assms(3) by (subst unwrap.simps) simp
  finally show ?thesis by (simp add: unwrapOuterParens_def trim_parens)
qed

lemma unwrap_ends:
  "\<not> hasFullOuterParens (unwrap t) \<and> length (unwrap t) \<le> length t \<and> (trim t = t \<longrightarrow> trim (unwrap t) = unwrap t)"
proof (induction t rule: unwrap.induct)
  case (1 t)
  show ?case
  proof (cases "hasFullOuterParens t")
    case True
    then have "t \<noteq> []" by (simp add: hasFullOuterParens_def)
    have "unwrap t = unwrap (strip_outer t)" using True by (subst unwrap.simps) simp
    moreover have "trim (strip_outer t) = strip_outer t" by (simp add: strip_outer_def)
    ultimately show ?thesis using 1 [OF True] strip_outer_shorter [OF \<open>t \<noteq> []\<close>] by simp
  next
    case False
    then have "unwrap t = t" by (subst unwrap.simps) simp
    with False show ?thesis by simp
  qed
qed

text \<open>C14 Unwrapping takes off exactly the parentheses that enclose the whole text: as long as the
  trimmed text is an opening parenthesis, a text with balanced parentheses, none of which closes
  before it was opened, and a closing one, it goes on with the text between, and any other text,
  such as \<open>(a) && (b)\<close>, it gives back as it is. It ends for every text, with one that is not
  enclosed any more and is never longer, and unwrapping again changes nothing.\<close>

theorem unwrap_spec:
  "unwrapOuterParens s =
     (if \<exists>x. trim s = 40 # x @ [41] \<and> bal_from 0 x then unwrapOuterParens (butlast (tl (trim s))) else trim s)
   \<and> \<not> (\<exists>x. unwrapOuterParens s = 40 # x @ [41] \<and> bal_from 0 x)
   \<and> length (unwrapOuterParens s) \<le> length s
   \<and> unwrapOuterParens (unwrapOuterParens s) = unwrapOuterParens s"
proof -
  have "unwrapOuterParens s =
     (if hasFullOuterParens (trim s) then unwrapOuterParens (butlast (tl (trim s))) else trim s)"
    by (simp add: unwrapOuterParens_def unwrap.simps [of "trim s"] strip_outer_def)
  moreover have "trim (unwrapOuterParens s) = unwrapOuterParens s"
    using unwrap_ends [of "trim s"] by (simp add: unwrapOuterParens_def)
  then have "unwrapOuterParens (unwrapOuterParens s) = unwrapOuterParens s"
    using unwrap_ends [of "trim s"]
    by (simp add: unwrapOuterParens_def [of "unwrapOuterParens s"] unwrap.simps [of "unwrapOuterParens s"])
      (simp add: unwrapOuterParens_def)
  moreover have "\<not> hasFullOuterParens (unwrapOuterParens s)" "length (unwrapOuterParens s) \<le> length s"
    using unwrap_ends [of "trim s"] length_trim_le [of s] by (simp_all add: unwrapOuterParens_def)
  ultimately show ?thesis unfolding full_parens_iff by blast
qed

lemma single_factor:
  assumes "bal e"
  shows "tryParseRequestRuleExpr (40 # e @ [41]) = collect tryParseRuleGroupFactor [40 # e @ [41]]"
  using splitTopLevelMultiply_join [of "[e]"] assms by (simp add: tryParseRequestRuleExpr_def trim_parens)

lemma classify_rules:
  assumes "\<forall>g\<in>set gs. group_ok g"
  shows "classify_parts (map (\<lambda>e. 40 # e @ [41]) (map group_inner gs))
     = Returns (map (\<lambda>e. 40 # e @ [41]) (map group_inner gs), [])"
  using assms by (induction gs) (simp_all add: single_factor group_inner_bal factor_roundtrip)

text \<open>Splitting undoes combining: a base expression with balanced parentheses that is not
  wrapped in parentheses as a whole and is not itself a rule, combined with printed rules, splits
  into that base and those rules.\<close>

theorem split_combine:
  assumes "list_all group_ok gs" and "gs \<noteq> []"
    and "base \<noteq> []" and "trim base = base" and "bal base"
    and "\<not> hasFullOuterParens base" and "tryParseRuleGroupFactor (js ''('' @ base @ js '')'') = Returns None"
  shows "splitBillingExprAndRequestRules (combineBillingExpr base (buildRequestRuleExpr gs))
     = Returns \<lparr>billingExpr = base, requestRuleExpr = buildRequestRuleExpr gs\<rparr>"
proof -
  let ?par = "\<lambda>e. 40 # e @ [41]"
  let ?es = "map group_inner gs"
  let ?rules = "join MUL (map ?par ?es)"
  let ?all = "join MUL (map ?par (base # ?es))"
  have es: "?es \<noteq> []" using assms(2) by simp
  have rules: "buildRequestRuleExpr gs = ?rules" by (rule build_rules) fact
  have ne: "?rules \<noteq> []" using join_parens_ends(3) [OF es] .
  have comb: "combineBillingExpr base (buildRequestRuleExpr gs) = ?all"
    using assms(3,4) ne es
    by (simp add: combineBillingExpr_def rules trim_join_parens join_Cons Let_def del: map_map) (simp add: MUL_def js_eval)
  have b: "\<forall>e\<in>set (base # ?es). bal e" using assms(1,5) group_inner_bal by (auto simp: list_all_iff)
  have parts: "splitTopLevelMultiply ?all = map ?par (base # ?es)" by (rule splitTopLevelMultiply_join) (simp, rule b)
  have "tryParseRequestRuleExpr (?par base) = Returns None"
    using single_factor [OF assms(5)] assms(7) by (simp add: js_eval)
  then have cl: "classify_parts (map ?par (base # ?es)) = Returns (map ?par ?es, [?par base])"
    using classify_rules [of gs] assms(1) by (simp add: list_all_iff)
  have "?all \<noteq> []" by (rule join_parens_ends(3)) simp
  moreover have "\<not> length (map ?par (base # ?es)) \<le> 1" using assms(2) by (cases gs) simp_all
  moreover have "map ?par ?es \<noteq> []" using assms(2) by simp
  ultimately show ?thesis
    unfolding comb unfolding splitBillingExprAndRequestRules_def Let_def trim_join_parens parts cl rules
    using unwrap_once [OF assms(5,4,6)] by (simp add: MUL_def)
qed

lemma split_combine_witness:
  "splitBillingExprAndRequestRules (combineBillingExpr (js ''p * 3 + c * 4'') (buildRequestRuleExpr demo_rules))
     = Returns \<lparr>billingExpr = js ''p * 3 + c * 4'', requestRuleExpr = buildRequestRuleExpr demo_rules\<rparr>"
proof (rule split_combine [OF demo_rules_ok])
  show "demo_rules \<noteq> []" by (simp add: demo_rules_def)
  show "trim (js ''p * 3 + c * 4'') = js ''p * 3 + c * 4''" by code_simp
  show "bal (js ''p * 3 + c * 4'')" by (simp add: js_eval)
  show "\<not> hasFullOuterParens (js ''p * 3 + c * 4'')" by code_simp
  show "tryParseRuleGroupFactor (js ''('' @ js ''p * 3 + c * 4'' @ js '')'') = Returns None" by code_simp
qed simp

section \<open>Conditions that are lost\<close>

text \<open>A comparison or search on a parameter is printed as two tests joined by \<open>&&\<close>, which the
  parser of a rule splits; it can read neither second test on its own.\<close>

definition op_text :: "jstr \<Rightarrow> string \<Rightarrow> jstr \<Rightarrow> jstr" where
  "op_text p m v =
     (if m = ''contains'' then js ''has('' @ source_head ParamSource p @ js '', '' @ json_quote v @ js '')''
      else source_head ParamSource p @ js '' '' @ js (param_op m) @ js '' '' @ v)"

definition param_cond_ok :: "jstr \<Rightarrow> string \<Rightarrow> jstr \<Rightarrow> bool" where
  "param_cond_ok p m v \<longleftrightarrow>
     plain p \<and> p \<noteq> [] \<and> trimmed p \<and> 38 \<notin> set p \<and>
     (m \<in> {''gt'', ''gte'', ''lt'', ''lte''} \<and> numeric_literal v \<or>
      m = ''contains'' \<and> trimmed v \<and> units_ok v \<and> no_parens v \<and> 38 \<notin> set v)"

lemma param_build:
  assumes "param_cond_ok p m v"
  shows "buildRequestConditionExpr (ParamHeaderCondition ParamSource p m v)
     = join AND [source_head ParamSource p @ js '' != nil'', op_text p m v]"
proof -
  have p: "plain p" "p \<noteq> []" "trim p = p" using assms by (simp_all add: param_cond_ok_def)
  have m: "m \<in> set MATCH_MODES_PARAM"
    using assms by (auto simp: param_cond_ok_def MATCH_MODES_PARAM_def MATCH_MODES_HEADER_def)
  have "renormalize (ParamHeaderCondition ParamSource p m v) = ParamHeaderCondition ParamSource p m v"
    using m p(2) by (simp add: renormalize_def normalizeCondition_def Let_def mode_or_def text_or_empty_def
        getRequestRuleMatchOptions_def)
  then have r: "buildRequestConditionExpr (ParamHeaderCondition ParamSource p m v)
      = build_param_header (ParamHeaderCondition ParamSource p m v)" by simp
  consider "m \<in> {''gt'', ''gte'', ''lt'', ''lte''}" "numeric_literal v" "trim v = v" | "m = ''contains''" "trim v = v"
    using assms numeric_literal_trim by (auto simp: param_cond_ok_def)
  then show ?thesis
  proof cases
    case 1
    then have "m \<noteq> ''exists''" "m \<noteq> ''contains''" by auto
    with 1 p show ?thesis
      unfolding r by (simp add: Let_def source_expr_plain op_text_def AND_def) (simp add: js_eval)
  next
    case 2
    with p show ?thesis
      unfolding r by (simp add: Let_def source_expr_plain op_text_def AND_def buildExprLiteral_def) (simp add: js_eval)
  qed
qed

lemma op_text_unread:
  assumes "param_cond_ok p m v" shows "tryParseRequestCondition (op_text p m v) = Returns None"
proof -
  have p: "p \<noteq> []" "list_all not_quote p" using assms by (simp_all add: param_cond_ok_def plain_not_quote)
  let ?e = "op_text p m v"
  have ops: "m \<in> {''gt'', ''gte'', ''lt'', ''lte'', ''contains''}" using assms by (auto simp: param_cond_ok_def)
  have "tryParseTimeCondition ?e = None"
    using not_time(2,3) by (simp add: op_text_def source_head_def source_name_def js_eval)
  moreover have "match_start rx_header_exists ?e = None" "match_start rx_param_exists ?e = None"
    "match_start rx_header_contains ?e = None" "match_start rx_param_contains ?e = None"
    "match_start rx_param_op ?e = None" "match_start rx_equals ?e = None"
    using ops p by (auto simp: rx_header_exists_def rx_param_exists_def rx_header_contains_def
        rx_param_contains_def rx_param_op_def rx_equals_def op_text_def source_head_def source_name_def
        match_start_def param_op_def rx_eval simp del: run.simps)
  ultimately show ?thesis
    by (simp add: tryParseRequestCondition_def contains_or_op_def param_op_condition_def equals_condition_def)
qed

lemma no_amp_no_AND: "38 \<notin> set e \<Longrightarrow> \<not> sublist AND e"
  using set_mono_sublist [of AND e] by (auto simp: AND_units)

lemma quote_body_no_amp: "38 \<notin> set v \<Longrightarrow> 38 \<notin> set (quote_body v)"
proof -
  have hex: "hex_digit d \<noteq> 38" "38 \<noteq> hex_digit d" for d by (auto simp: hex_digit_def)
  have u: "38 \<notin> set (u_escape c)" for c by (simp add: u_escape_def hex)
  have "c \<noteq> 38 \<Longrightarrow> 38 \<notin> set (quote_unit c)" for c by (auto simp: quote_unit_def u)
  then show "38 \<notin> set v \<Longrightarrow> 38 \<notin> set (quote_body v)"
    by (induction v rule: quote_body.induct) (auto simp: u)
qed

lemma has_bal: "bal (a @ b @ c) \<Longrightarrow> bal (js ''has('' @ a @ b @ c @ js '')'')"
proof -
  have "bal e \<Longrightarrow> bal (js ''has('' @ e @ js '')'')" for e by (simp add: js_eval)
  from this [of "a @ b @ c"] show "bal (a @ b @ c) \<Longrightarrow> ?thesis" by simp
qed

lemma exists_text_ok:
  assumes "param_cond_ok p m v" shows "text_ok (source_head ParamSource p @ js '' != nil'')"
proof -
  have ok: "cond_ok (ParamHeaderCondition ParamSource p ''exists'' [])"
    using assms by (simp add: param_cond_ok_def)
  have "38 \<notin> set (source_head ParamSource p @ js '' != nil'')"
    using assms by (auto simp: param_cond_ok_def source_head_def source_name_def js_eval)
  with cond_text_shape [OF ok] show ?thesis
    by (simp add: text_ok_def no_amp_no_AND starts_ends_trimmed) (simp add: ends_ok_def)
qed

lemma op_text_ok:
  assumes "param_cond_ok p m v" shows "text_ok (op_text p m v)"
proof -
  have p: "plain p" "38 \<notin> set p" using assms by (simp_all add: param_cond_ok_def)
  have "bal (op_text p m v) \<and> ends_ok (op_text p m v) \<and> 38 \<notin> set (op_text p m v)"
  proof (cases "m = ''contains''")
    case True
    then have v: "no_parens v" "38 \<notin> set v" using assms by (auto simp: param_cond_ok_def)
    have "ends_ok (js '')'')" by (simp add: ends_ok_def js_eval is_ws_def)
    moreover have "bal (source_head ParamSource p @ js '', '' @ json_quote v)"
      using p v quote_bal [of v] head_bal(2) [of p ParamSource] by (simp add: js_eval)
    then have "bal (op_text p m v)" using True has_bal by (simp add: op_text_def)
    moreover have "38 \<notin> set (op_text p m v)"
      using True p v quote_body_no_amp [of v]
      by (auto simp: op_text_def js_eval source_head_def source_name_def json_quote_def)
    ultimately show ?thesis using True by (simp add: op_text_def)
  next
    case False
    then have n: "numeric_literal v" using assms by (auto simp: param_cond_ok_def)
    have "38 \<notin> set v" using numeric_literal_chars(2) [OF n] num_char_facts by (auto simp: list_all_iff)
    then have "38 \<notin> set (op_text p m v)"
      using False p by (simp add: op_text_def param_op_def source_head_def source_name_def js_eval)
    moreover have "bal (js (param_op m))" by (simp add: param_op_def js_eval)
    then have "bal (op_text p m v)"
      using False n p by (simp add: op_text_def head_bal bal_js numeric_bal)
    moreover have "ends_ok (op_text p m v)" using False n by (simp add: op_text_def numeric_ends_ok)
    ultimately show ?thesis by blast
  qed
  moreover have "starts_ok (op_text p m v)" by (simp add: op_text_def starts_ok_heads)
  ultimately show ?thesis
    by (simp add: text_ok_def no_amp_no_AND starts_ends_trimmed) (simp add: ends_ok_def)
qed

text \<open>C13 A rule that compares a parameter by order or searches in it cannot be read back: the
  printer's own text for it is rejected by the parser.\<close>

theorem param_rule_lost:
  assumes "param_cond_ok p m v" and "numeric_literal mul"
  shows "buildRequestRuleExpr [\<lparr>rg_conditions = [ParamHeaderCondition ParamSource p m v], rg_multiplier = mul\<rparr>] \<noteq> []
    \<and> tryParseRequestRuleExpr
        (buildRequestRuleExpr [\<lparr>rg_conditions = [ParamHeaderCondition ParamSource p m v], rg_multiplier = mul\<rparr>])
      = Returns None"
proof -
  let ?c = "ParamHeaderCondition ParamSource p m v"
  let ?a = "source_head ParamSource p @ js '' != nil''" and ?o = "op_text p m v"
  let ?x = "join AND [?a, ?o]"
  let ?body = "?x @ js '' ? '' @ mul @ js '' : 1''"
  note a = exists_text_ok [OF assms(1)] and o = op_text_ok [OF assms(1)]
  have x: "?x \<noteq> []" by (simp add: AND_units)
  have b: "buildRequestConditionExpr ?c = ?x" by (rule param_build) fact
  have built: "buildRequestRuleExpr [\<lparr>rg_conditions = [?c], rg_multiplier = mul\<rparr>] = 40 # ?body @ [41]"
    using x numeric_literal_trim [OF assms(2)] assms(2)
    by (simp add: buildRequestRuleExpr_def buildRuleGroupFactor_def b Let_def del: join.simps buildRequestConditionExpr.simps)
      (simp add: js_eval)
  have bx: "bal ?x" using a o by (intro bal_join) (auto simp: text_ok_def)
  have "bal (js '' ? '' @ mul @ js '' : 1'')" using numeric_bal [OF assms(2)] by (simp add: js_eval)
  with bx have "bal ?body" by (simp del: join.simps)
  note single = single_factor [OF this]
  have shape: "40 # ?body @ [41] = 40 # ?x @ js '' ? '' @ mul @ js '' : 1)''" by (simp add: js_eval)
  have factor: "tryParseRuleGroupFactor (40 # ?x @ js '' ? '' @ mul @ js '' : 1)'') = Returns None"
  proof -
    have "cond_ok (ParamHeaderCondition ParamSource p ''exists'' [])" using assms(1) by (simp add: param_cond_ok_def)
    from cond_roundtrip [OF this]
    have "tryParseRequestCondition ?a = Returns (Some (ParamHeaderCondition ParamSource p ''exists'' []))" by simp
    moreover have "splitTopLevelAnd ?x = [?a, ?o]" using a o by (intro splitTopLevelAnd_join) auto
    moreover have "trim ?a = ?a" "trim ?o = ?o" using a o by (simp_all add: text_ok_def)
    ultimately show ?thesis
      using rule_group_match [OF x assms(2)] op_text_unread [OF assms(1)]
      by (simp add: tryParseRuleGroupFactor_def grp_def del: join.simps)
  qed
  have "tryParseRequestRuleExpr (40 # ?body @ [41]) = Returns None"
    unfolding single unfolding shape collect.simps factor by simp
  then show ?thesis unfolding built by simp
qed

lemma param_rule_lost_witness:
  "tryParseRequestRuleExpr
     (buildRequestRuleExpr [\<lparr>rg_conditions = [ParamHeaderCondition ParamSource (js ''max_tokens'') ''gt'' (js ''4096'')],
                            rg_multiplier = js ''2''\<rparr>]) = Returns None"
proof -
  have "param_cond_ok (js ''max_tokens'') ''gt'' (js ''4096'')" "numeric_literal (js ''2'')" by code_simp+
  from param_rule_lost [OF this] show ?thesis by simp
qed

text \<open>A text literal that is not JSON is not an unreadable rule but an exception.\<close>

lemma bad_literal_throws:
  "tryParseRequestRuleExpr (js ''(has(header(\"x\"), \"'' @ [92] @ js ''q\") ? 2 : 1)'') = Throws"
  by code_simp

end
