(* ===== verification/JsRegexScan.thy ===== *)
theory JsRegexScan
  imports JsRegex
begin

text \<open>
  Searching with a regular expression: the global \<open>exec\<close> loop, \<open>split\<close>, and rules that follow
  the first way to match through an expression (\<open>hit\<close>) or show that there is none (\<open>miss\<close>).
\<close>

section \<open>Global search\<close>

text \<open>The first match at or after the start of the text: its groups and what follows it.\<close>

fun exec_scan :: "rx \<Rightarrow> jstr \<Rightarrow> (caps \<times> jstr) option" where
  "exec_scan r s =
     (case run r (Map.empty, s) of
        m # _ \<Rightarrow> Some m
      | [] \<Rightarrow> (case s of [] \<Rightarrow> None | x # t \<Rightarrow> exec_scan r t))"

declare exec_scan.simps [simp del]

text \<open>\<open>while ((m = re.exec(s)) !== null)\<close>: the groups of the successive matches. The expressions
  of the sources match no empty text; the loop stops at one.\<close>

function exec_all :: "rx \<Rightarrow> jstr \<Rightarrow> caps list" where
  "exec_all r s =
     (case exec_scan r s of
        None \<Rightarrow> []
      | Some (c, t) \<Rightarrow> c # (if length t < length s then exec_all r t else []))"
  by pat_completeness auto
termination by (relation "measure (length \<circ> snd)") auto

declare exec_all.simps [simp del]

text \<open>\<open>s.split(re)\<close> for an expression without groups that matches no empty text; \<open>acc\<close> is the
  piece so far, reversed.\<close>

function split_rx :: "rx \<Rightarrow> jstr \<Rightarrow> jstr \<Rightarrow> jstr list" where
  "split_rx r acc s =
     (case s of
        [] \<Rightarrow> [rev acc]
      | x # t \<Rightarrow>
          (case run r (Map.empty, s) of
             m # _ \<Rightarrow> if length (snd m) < length s then rev acc # split_rx r [] (snd m)
                      else split_rx r (x # acc) t
           | [] \<Rightarrow> split_rx r (x # acc) t))"
  by pat_completeness auto
termination by (relation "measure (\<lambda>(r, acc, s). length s)") auto

declare split_rx.simps [simp del]

section \<open>The first way to match\<close>

definition hit :: "rx \<Rightarrow> caps \<Rightarrow> jstr \<Rightarrow> caps \<Rightarrow> jstr \<Rightarrow> bool" where
  "hit r c s c' s' \<longleftrightarrow> (\<exists>ms. run r (c, s) = (c', s') # ms)"

definition miss :: "rx \<Rightarrow> caps \<Rightarrow> jstr \<Rightarrow> bool" where
  "miss r c s \<longleftrightarrow> run r (c, s) = []"

lemma hit_Lit: "hit (Lit w) c (w @ s) c s"
  by (simp add: hit_def)

lemma hit_Cls: "P x \<Longrightarrow> hit (Cls P) c (x # s) c s"
  by (simp add: hit_def)

lemma hit_Seq: "hit a c s c1 s1 \<Longrightarrow> hit b c1 s1 c2 s2 \<Longrightarrow> hit (Seq a b) c s c2 s2"
  by (auto simp: hit_def)

lemma hit_AltL: "hit a c s c1 s1 \<Longrightarrow> hit (Alt a b) c s c1 s1"
  by (auto simp: hit_def)

lemma hit_AltR: "miss a c s \<Longrightarrow> hit b c s c1 s1 \<Longrightarrow> hit (Alt a b) c s c1 s1"
  by (auto simp: hit_def miss_def)

lemma run_Seq_Alt: "run (Seq (Alt a b) r) st = run (Seq a r) st @ run (Seq b r) st"
  by simp

lemma hit_Seq_AltL: "hit (Seq a r) c s c1 s1 \<Longrightarrow> hit (Seq (Alt a b) r) c s c1 s1"
  by (auto simp: hit_def)

lemma hit_Seq_AltR: "miss (Seq a r) c s \<Longrightarrow> hit (Seq b r) c s c1 s1 \<Longrightarrow> hit (Seq (Alt a b) r) c s c1 s1"
  by (auto simp: hit_def miss_def simp del: run.simps(3) simp: run_Seq_Alt)

lemma hit_Opt: "hit r c s c1 s1 \<Longrightarrow> hit (Opt r) c s c1 s1"
  unfolding Opt_def by (rule hit_AltL)

lemma hit_Opt_none: "miss r c s \<Longrightarrow> hit (Opt r) c s c s"
  unfolding Opt_def by (erule hit_AltR) (simp add: hit_def)

lemma hit_Cap: "hit r c (w @ s') c' s' \<Longrightarrow> hit (Cap n r) c (w @ s') (c'(n \<mapsto> w)) s'"
  by (auto simp: hit_def)

lemma hit_Star_Cls:
  assumes "list_all P w" and "s = [] \<or> \<not> P (hd s)"
  shows "hit (Star (Cls P)) c (w @ s) c s"
proof -
  have "\<exists>ms. star_run n (run (Cls P)) (c, w @ s) = (c, s) # ms" if "length (w @ s) \<le> n" for n
    using assms(1) that
  proof (induction w arbitrary: n)
    case Nil
    then show ?case
      using assms(2) by (cases n; cases s) (auto simp only: star_run_Cls append_Nil star_run.simps(1), simp_all)
  next
    case (Cons x w)
    then obtain m where m: "n = Suc m" by (cases n) auto
    moreover have "list_all P w" "length (w @ s) \<le> m" using Cons.prems m by auto
    ultimately obtain ms where "star_run m (run (Cls P)) (c, w @ s) = (c, s) # ms" using Cons.IH by blast
    then show ?case using Cons.prems m by (simp add: star_run_Cls del: star_run.simps run.simps)
  qed
  then show ?thesis by (simp add: hit_def)
qed

lemma hit_Plus:
  assumes "list_all P w" and "w \<noteq> []" and "s = [] \<or> \<not> P (hd s)"
  shows "hit (Plus P) c (w @ s) c s"
proof -
  obtain x w' where "w = x # w'" using assms(2) by (cases w) auto
  with assms show ?thesis unfolding Plus_def
    by (intro hit_Seq [of _ c "w @ s" c "w' @ s"]) (auto intro: hit_Star_Cls simp: hit_Cls)
qed

text \<open>A repetition in general: the number of rounds allowed does not matter.\<close>

lemma star_run_empty: "length (snd st) = 0 \<Longrightarrow> star_run n f st = [st]"
  by (cases n) (auto simp: concat_eq_Nil_conv)

lemma star_run_fuel:
  "length (snd st) \<le> n \<Longrightarrow> length (snd st) \<le> m \<Longrightarrow> star_run n f st = star_run m f st"
proof (induction n arbitrary: m st)
  case 0
  then show ?case by (simp add: star_run_empty)
next
  case (Suc n)
  show ?case
  proof (cases m)
    case 0
    then show ?thesis using Suc.prems by (simp add: star_run_empty)
  next
    case (Suc k)
    have "star_run n f st' = star_run k f st'" if "length (snd st') < length (snd st)" for st'
      using that Suc.prems Suc by (intro Suc.IH) simp_all
    then show ?thesis using Suc by (simp cong: if_cong)
  qed
qed

lemma hit_Star_step:
  assumes "hit r c s c1 s1" and "length s1 < length s" and "hit (Star r) c1 s1 c2 s2"
  shows "hit (Star r) c s c2 s2"
proof -
  obtain n where n: "length s = Suc n" using assms(2) by (cases "length s") auto
  have "star_run n (run r) (c1, s1) = star_run (length s1) (run r) (c1, s1)"
    using assms(2) n by (intro star_run_fuel) auto
  with assms n show ?thesis by (auto simp: hit_def)
qed

lemma hit_Star_stop: "miss r c s \<Longrightarrow> hit (Star r) c s c s"
  by (cases s) (simp_all add: hit_def miss_def)

section \<open>No way to match\<close>

lemma miss_Lit: "strip w s = None \<Longrightarrow> miss (Lit w) c s"
  by (simp add: miss_def run_Lit del: run.simps)

lemma miss_Seq: "miss a c s \<Longrightarrow> miss (Seq a b) c s"
  by (simp add: miss_def)

lemma miss_Seq_Lit: "strip w s = Some t \<Longrightarrow> miss r c t \<Longrightarrow> miss (Seq (Lit w) r) c s"
  by (simp add: miss_def run_Seq_Lit del: run.simps)

lemma miss_Seq_Lit_None: "strip w s = None \<Longrightarrow> miss (Seq (Lit w) r) c s"
  by (simp add: miss_def run_Seq_Lit del: run.simps)

lemma miss_Alt: "miss a c s \<Longrightarrow> miss b c s \<Longrightarrow> miss (Alt a b) c s"
  by (simp add: miss_def)

lemma miss_Seq_Alt: "miss (Seq a r) c s \<Longrightarrow> miss (Seq b r) c s \<Longrightarrow> miss (Seq (Alt a b) r) c s"
  by (simp add: miss_def)

lemma miss_Cap: "miss r c s \<Longrightarrow> miss (Cap n r) c s"
  by (simp add: miss_def)

lemma missI: "(\<And>c' s'. (c', s') \<notin> set (run r (c, s))) \<Longrightarrow> miss r c s"
  unfolding miss_def by (cases "run r (c, s)") auto

lemma miss_iff: "miss r c s \<longleftrightarrow> (\<forall>c' s'. (c', s') \<notin> set (run r (c, s)))"
  unfolding miss_def by (cases "run r (c, s)") auto

lemma miss_Seq_iff: "miss (Seq a b) c s \<longleftrightarrow> (\<forall>c' s'. (c', s') \<in> set (run a (c, s)) \<longrightarrow> miss b c' s')"
  by (auto simp: miss_iff simp del: run.simps)

lemma miss_not_hit: "hit r c s c' s' \<Longrightarrow> \<not> miss r c s"
  by (auto simp: hit_def miss_def)

text \<open>White space and then a literal that is not what follows the white space.\<close>

abbreviation ws :: rx where
  "ws \<equiv> Star (Cls is_ws)"

lemma dropWhile_ws_suffix:
  "list_all P w \<Longrightarrow> s = w @ t \<Longrightarrow> t \<noteq> [] \<Longrightarrow> \<not> P (hd t) \<Longrightarrow> dropWhile P s = t"
  by (induction w arbitrary: s) (cases t; auto)+

lemma strip_Some: "strip w s = Some t \<longleftrightarrow> s = w @ t"
  by (auto simp: strip_prefix prefix_def)

lemma miss_ws_Lit:
  assumes "strip w (dropWhile is_ws s) = None" and "w \<noteq> []" and "\<not> is_ws (hd w)"
  shows "miss (Seq ws (Seq (Lit w) r)) c s"
proof (rule missI)
  fix c' s'
  show "(c', s') \<notin> set (run (Seq ws (Seq (Lit w) r)) (c, s))"
  proof
    assume "(c', s') \<in> set (run (Seq ws (Seq (Lit w) r)) (c, s))"
    then obtain v t where "s = v @ w @ t" "list_all is_ws v" by (auto simp del: run.simps)
    then have "dropWhile is_ws s = w @ t"
      using assms(2,3) dropWhile_ws_suffix [of is_ws v s "w @ t"] by (cases w) auto
    with assms(1) show False by simp
  qed
qed

lemma hit_ws: "s = [] \<or> \<not> is_ws (hd s) \<Longrightarrow> hit ws c s c s"
  using hit_Star_Cls [of is_ws "[]" s c] by simp

lemma hit_ws_space: "s = [] \<or> \<not> is_ws (hd s) \<Longrightarrow> hit ws c (32 # s) c s"
  using hit_Star_Cls [of is_ws "[32]" s c] by (simp add: is_ws_def)

section \<open>Searching\<close>

lemma exec_scan_hit: "hit r Map.empty s c t \<Longrightarrow> exec_scan r s = Some (c, t)"
  by (auto simp: hit_def exec_scan.simps)

lemma exec_scan_skip: "miss r Map.empty (x # s) \<Longrightarrow> exec_scan r (x # s) = exec_scan r s"
  by (subst exec_scan.simps) (simp add: miss_def)

lemma exec_scan_skips:
  "(\<And>i. i < length w \<Longrightarrow> miss r Map.empty (drop i w @ s)) \<Longrightarrow> exec_scan r (w @ s) = exec_scan r s"
proof (induction w)
  case (Cons x w)
  have "miss r Map.empty (x # w @ s)" using Cons.prems [of 0] by simp
  moreover have "exec_scan r (w @ s) = exec_scan r s"
  proof (rule Cons.IH)
    show "miss r Map.empty (drop i w @ s)" if "i < length w" for i
      using Cons.prems [of "Suc i"] that by simp
  qed
  ultimately show ?case by (simp add: exec_scan_skip)
qed simp

lemma exec_all_hit:
  "exec_scan r s = Some (c, t) \<Longrightarrow> length t < length s \<Longrightarrow> exec_all r s = c # exec_all r t"
  by (subst exec_all.simps) simp

lemma exec_all_none: "exec_scan r s = None \<Longrightarrow> exec_all r s = []"
  by (subst exec_all.simps) simp

lemma match_start_hit: "hit r Map.empty s c t \<Longrightarrow> match_start r s = Some c"
  by (auto simp: hit_def match_start_def)

lemma match_start_miss: "miss r Map.empty s \<Longrightarrow> match_start r s = None"
  by (simp add: miss_def match_start_def)

end
