(* ===== verification/TierExpr.thy ===== *)
theory TierExpr
  imports JsRegexScan JsDecimal
begin

text \<open>
  The tiers of a billing expression (\<open>features/pricing/lib/tier-expr.ts\<close> and the tier parser
  of \<open>features/pricing/lib/billing-expr.ts\<close>): the variables, the tiers of the visual editor and
  their normal form, the printer, the parser of the editor and the parser for display. Fields
  of a tier beyond the declared ones are carried along by the source and not represented.
\<close>

section \<open>Variables\<close>

record billing_var =
  bv_key :: string
  bv_field :: "string option"
  bv_tierField :: "string option"
  bv_isBase :: bool
  bv_isConditionOnly :: bool

definition base_var :: "string \<Rightarrow> string \<Rightarrow> string \<Rightarrow> billing_var" where
  "base_var k f t = \<lparr>bv_key = k, bv_field = Some f, bv_tierField = Some t,
                     bv_isBase = True, bv_isConditionOnly = False\<rparr>"

definition extra_var :: "string \<Rightarrow> string \<Rightarrow> string \<Rightarrow> billing_var" where
  "extra_var k f t = (base_var k f t)\<lparr>bv_isBase := False\<rparr>"

definition BILLING_VARS :: "billing_var list" where
  "BILLING_VARS =
     [base_var ''p'' ''inputPrice'' ''input_unit_cost'',
      base_var ''c'' ''outputPrice'' ''output_unit_cost'',
      \<lparr>bv_key = ''len'', bv_field = None, bv_tierField = None,
       bv_isBase = False, bv_isConditionOnly = True\<rparr>,
      extra_var ''cr'' ''cacheReadPrice'' ''cache_read_unit_cost'',
      extra_var ''cc'' ''cacheCreatePrice'' ''cache_create_unit_cost'',
      extra_var ''cc1h'' ''cacheCreate1hPrice'' ''cache_create_1h_unit_cost'',
      extra_var ''img'' ''imagePrice'' ''image_unit_cost'',
      extra_var ''img_o'' ''imageOutputPrice'' ''image_output_unit_cost'',
      extra_var ''ai'' ''audioInputPrice'' ''audio_input_unit_cost'',
      extra_var ''ao'' ''audioOutputPrice'' ''audio_output_unit_cost'']"

definition BILLING_PRICING_VARS :: "billing_var list" where
  "BILLING_PRICING_VARS = filter (\<lambda>v. \<not> bv_isConditionOnly v) BILLING_VARS"

definition BILLING_CONDITION_VARS :: "string list" where
  "BILLING_CONDITION_VARS = map bv_key (filter (\<lambda>v. bv_isBase v \<or> bv_isConditionOnly v) BILLING_VARS)"

definition BILLING_EXTRA_VARS :: "billing_var list" where
  "BILLING_EXTRA_VARS = filter (\<lambda>v. \<not> bv_isBase v \<and> \<not> bv_isConditionOnly v) BILLING_VARS"

text \<open>Pairs of the tier's field and the variable of the expression.\<close>

definition BILLING_CACHE_VAR_MAP :: "(string \<times> string) list" where
  "BILLING_CACHE_VAR_MAP = map (\<lambda>v. (the (bv_tierField v), bv_key v)) BILLING_EXTRA_VARS"

definition BILLING_VAR_KEY_TO_FIELD :: "(string \<times> string) list" where
  "BILLING_VAR_KEY_TO_FIELD = map (\<lambda>v. (bv_key v, the (bv_field v))) BILLING_PRICING_VARS"

section \<open>Tiers of the editor\<close>

datatype cache_mode = Timed | Generic

datatype cond_var = VarP | VarC | VarLen

datatype cond_op = OpLt | OpLe | OpGt | OpGe

datatype cond_value = NumVal jnum | StrVal jstr

record tier_condition =
  tc_var :: cond_var
  tc_op :: cond_op
  tc_value :: cond_value

text \<open>The costs of the extra variables are keyed by the names of their fields.\<close>

record visual_tier =
  vt_label :: jstr
  vt_conditions :: "tier_condition list"
  vt_input :: jnum
  vt_output :: jnum
  vt_mode :: cache_mode
  vt_costs :: "(string \<times> jnum) list"

type_synonym visual_config = "visual_tier list"

text \<open>\<open>Partial<VisualTier>\<close>: a key is absent or has a value.\<close>

record partial_tier =
  pt_label :: "jstr option"
  pt_conditions :: "tier_condition list option"
  pt_input :: "jnum option"
  pt_output :: "jnum option"
  pt_mode :: "cache_mode option"
  pt_costs :: "(string \<times> jnum) list"

definition as_partial :: "visual_tier \<Rightarrow> partial_tier" where
  "as_partial t = \<lparr>pt_label = Some (vt_label t), pt_conditions = Some (vt_conditions t),
                   pt_input = Some (vt_input t), pt_output = Some (vt_output t),
                   pt_mode = Some (vt_mode t), pt_costs = vt_costs t\<rparr>"

text \<open>\<open>Number(x) || 0\<close> of an optional number.\<close>

definition num_or_zero :: "jnum option \<Rightarrow> jnum" where
  "num_or_zero x = (case x of None \<Rightarrow> Fin 0 | Some n \<Rightarrow> if truthy_num n then n else Fin 0)"

definition getTierCacheMode :: "partial_tier \<Rightarrow> cache_mode" where
  "getTierCacheMode t =
     (case pt_mode t of
        Some m \<Rightarrow> m
      | None \<Rightarrow> (case map_of (pt_costs t) ''cache_create_1h_unit_cost'' of
                   Some n \<Rightarrow> if num_lt (Fin 0) n then Timed else Generic
                 | None \<Rightarrow> Generic))"

text \<open>The spread of the argument stands after the first five properties: a value it has for
  one of them wins as it is, and their defaults only fill in.\<close>

definition normalizeVisualTier :: "partial_tier \<Rightarrow> visual_tier" where
  "normalizeVisualTier t =
     \<lparr>vt_label = (case pt_label t of None \<Rightarrow> [] | Some l \<Rightarrow> l),
      vt_conditions = (case pt_conditions t of None \<Rightarrow> [] | Some cs \<Rightarrow> cs),
      vt_input = (case pt_input t of None \<Rightarrow> Fin 0 | Some n \<Rightarrow> n),
      vt_output = (case pt_output t of None \<Rightarrow> Fin 0 | Some n \<Rightarrow> n),
      vt_mode = (case pt_mode t of None \<Rightarrow> getTierCacheMode t | Some m \<Rightarrow> m),
      vt_costs = map (\<lambda>(f, _). (f, num_or_zero (map_of (pt_costs t) f))) BILLING_CACHE_VAR_MAP\<rparr>"

definition createDefaultVisualConfig :: visual_config where
  "createDefaultVisualConfig =
     [normalizeVisualTier
        \<lparr>pt_label = Some (js ''base''), pt_conditions = Some [], pt_input = Some (Fin 0),
         pt_output = Some (Fin 0), pt_mode = Some Generic, pt_costs = []\<rparr>]"

definition normalizeVisualConfig :: "visual_config option \<Rightarrow> visual_config" where
  "normalizeVisualConfig config =
     (case config of
        None \<Rightarrow> createDefaultVisualConfig
      | Some tiers \<Rightarrow>
          if tiers = [] then createDefaultVisualConfig
          else map (\<lambda>t. normalizeVisualTier (as_partial t)) tiers)"

section \<open>Printing\<close>

fun var_str :: "cond_var \<Rightarrow> string" where
  "var_str VarP = ''p''"
| "var_str VarC = ''c''"
| "var_str VarLen = ''len''"

fun op_str :: "cond_op \<Rightarrow> string" where
  "op_str OpLt = ''<''"
| "op_str OpLe = ''<=''"
| "op_str OpGt = ''>''"
| "op_str OpGe = ''>=''"

fun value_str :: "cond_value \<Rightarrow> jstr" where
  "value_str (NumVal n) = num_str n"
| "value_str (StrVal s) = s"

definition condition_str :: "tier_condition \<Rightarrow> jstr" where
  "condition_str c = js (var_str (tc_var c)) @ [32] @ js (op_str (tc_op c)) @ [32] @ value_str (tc_value c)"

definition buildConditionStr :: "tier_condition list \<Rightarrow> jstr" where
  "buildConditionStr conditions =
     join (js '' && '') (map condition_str (filter (\<lambda>c. tc_value c \<noteq> StrVal []) conditions))"

definition cost_part :: "string \<Rightarrow> jnum \<Rightarrow> jstr" where
  "cost_part v n = js v @ js '' * '' @ num_str n"

definition buildTierBodyExpr :: "visual_tier \<Rightarrow> jstr" where
  "buildTierBodyExpr t =
     join (js '' + '')
       ([cost_part ''p'' (num_or_zero (Some (vt_input t))), cost_part ''c'' (num_or_zero (Some (vt_output t)))]
        @ map (\<lambda>(f, v). cost_part v (num_or_zero (map_of (vt_costs t) f)))
            (filter (\<lambda>(f, _). num_or_zero (map_of (vt_costs t) f) \<noteq> Fin 0) BILLING_CACHE_VAR_MAP))"

definition tier_call :: "jstr \<Rightarrow> visual_tier \<Rightarrow> jstr" where
  "tier_call label t = js ''tier('' @ 34 # label @ 34 # js '', '' @ buildTierBodyExpr t @ js '')''"

text \<open>The expression of the tiers from number \<open>i\<close> on; the condition of the last is not printed.\<close>

fun tier_parts :: "nat \<Rightarrow> visual_tier list \<Rightarrow> jstr list" where
  "tier_parts i [] = []"
| "tier_parts i (t # ts) =
     (let label = (if vt_label t = [] then js ''tier_'' @ nat_str (i + 1) else vt_label t);
          cond = buildConditionStr (vt_conditions t)
      in (if ts \<noteq> [] \<and> cond \<noteq> [] then cond @ js '' ? '' @ tier_call label t else tier_call label t)
         # tier_parts (i + 1) ts)"

definition generateExprFromVisualConfig :: "visual_config option \<Rightarrow> jstr" where
  "generateExprFromVisualConfig config =
     (case config of
        None \<Rightarrow> js ''p * 0 + c * 0''
      | Some [] \<Rightarrow> js ''p * 0 + c * 0''
      | Some [t] \<Rightarrow>
          let label = (if vt_label t = [] then js ''default'' else vt_label t);
              body = tier_call label t;
              cond = buildConditionStr (vt_conditions t)
          in if cond \<noteq> [] then cond @ js '' ? '' @ body @ js '' : p * 0 + c * 0'' else body
      | Some tiers \<Rightarrow> join (js '' : '') (tier_parts 0 tiers))"

section \<open>Parsing\<close>

definition num_class :: "cunit \<Rightarrow> bool" where
  "num_class c \<longleftrightarrow> is_digit c \<or> c \<in> {46, 101, 69, 43, 45}"

definition cond_num_class :: "cunit \<Rightarrow> bool" where
  "cond_num_class c \<longleftrightarrow> is_digit c \<or> c \<in> {46, 101, 69, 43}"

definition rx_label :: "nat \<Rightarrow> rx" where
  "rx_label n = seqs [Lit (js ''tier('' @ [34]), Cap n (Star (Cls (\<lambda>c. c \<noteq> 34))), Lit (34 # js '',''), ws]"

text \<open>A variable, a star, and the number as group \<open>n\<close>.\<close>

definition rx_cost :: "string \<Rightarrow> nat \<Rightarrow> rx" where
  "rx_cost v n = seqs [Lit (js v), ws, Lit (js ''*''), ws, Cap n (Plus num_class)]"

definition rx_opt_cost :: "string \<Rightarrow> nat \<Rightarrow> rx" where
  "rx_opt_cost v n = Opt (seqs [ws, Lit (js ''+''), ws, rx_cost v n])"

fun rx_opt_costs :: "nat \<Rightarrow> string list \<Rightarrow> rx \<Rightarrow> rx" where
  "rx_opt_costs n [] r = r"
| "rx_opt_costs n (v # vs) r = Seq (rx_opt_cost v n) (rx_opt_costs (Suc n) vs r)"

text \<open>\<open>bodyPat\<close> with its groups from \<open>n\<close> on, and what comes behind it.\<close>

definition rx_body :: "nat \<Rightarrow> rx \<Rightarrow> rx" where
  "rx_body n r =
     seqs [rx_cost ''p'' n, ws, Lit (js ''+''), ws, rx_cost ''c'' (n + 1),
           rx_opt_costs (n + 2) (map snd BILLING_CACHE_VAR_MAP) r]"

definition rx_single :: rx where
  "rx_single = Seq (rx_label 1) (rx_body 2 (Seq (Lit (js '')'')) Eos))"

definition rx_condition :: rx where
  "rx_condition =
     seqs [alts [Lit (js ''p''), Lit (js ''c''), Lit (js ''len'')], ws,
           alts [Lit (js ''<''), Lit (js ''<=''), Lit (js ''>''), Lit (js ''>='')], ws, Plus cond_num_class]"

definition rx_cond_group :: "nat \<Rightarrow> rx" where
  "rx_cond_group n = Cap n (Seq rx_condition (Star (seqs [ws, Lit (js ''&&''), ws, rx_condition])))"

definition rx_opt_conditions :: "nat \<Rightarrow> rx" where
  "rx_opt_conditions n = Opt (seqs [rx_cond_group n, ws, Lit (js ''?''), ws])"

definition rx_tier :: rx where
  "rx_tier = Seq (rx_opt_conditions 1) (Seq (rx_label 2) (rx_body 3 (Lit (js '')''))))"

definition rx_and :: rx where
  "rx_and = seqs [ws, Lit (js ''&&''), ws]"

definition rx_condition_parts :: rx where
  "rx_condition_parts =
     seqs [Cap 1 (alts [Lit (js ''p''), Lit (js ''c''), Lit (js ''len'')]), ws,
           Cap 2 (alts [Lit (js ''<''), Lit (js ''<=''), Lit (js ''>''), Lit (js ''>='')]), ws,
           Cap 3 (Plus cond_num_class), Eos]"

definition rx_version :: rx where
  "rx_version = seqs [Lit (js ''v''), Cap 1 (Plus is_digit), Lit (js '':''), Cap 2 (Star (Cls (\<lambda>_. True))), Eos]"

text \<open>The string with its version tag stripped, and the version.\<close>

definition stripExprVersion :: "jstr \<Rightarrow> jnum \<times> jstr" where
  "stripExprVersion s =
     (if s = [] then (Fin 1, [])
      else case match_start rx_version s of
             Some c \<Rightarrow> (to_number (grp c 1), grp c 2)
           | None \<Rightarrow> (Fin 1, s))"

definition parse_condition :: "jstr \<Rightarrow> tier_condition option" where
  "parse_condition cp =
     (case match_start rx_condition_parts (trim cp) of
        None \<Rightarrow> None
      | Some c \<Rightarrow>
          (case (List.find (\<lambda>v. js (var_str v) = grp c 1) [VarP, VarC, VarLen],
                 List.find (\<lambda>x. js (op_str x) = grp c 2) [OpLt, OpLe, OpGt, OpGe]) of
             (Some v, Some x) \<Rightarrow> Some \<lparr>tc_var = v, tc_op = x, tc_value = NumVal (to_number (grp c 3))\<rparr>
           | _ \<Rightarrow> None))"

definition parse_conditions :: "jstr \<Rightarrow> tier_condition list" where
  "parse_conditions condStr =
     (if condStr = [] then [] else List.map_filter parse_condition (split_rx rx_and [] condStr))"

text \<open>The tier of a match: \<open>n\<close> is the group of its label.\<close>

fun cost_groups :: "caps \<Rightarrow> nat \<Rightarrow> (string \<times> string) list \<Rightarrow> (string \<times> jnum) list" where
  "cost_groups c n [] = []"
| "cost_groups c n ((f, v) # vs) =
     (case c n of None \<Rightarrow> cost_groups c (Suc n) vs
      | Some w \<Rightarrow> (f, to_number w) # cost_groups c (Suc n) vs)"

definition match_tier :: "caps \<Rightarrow> nat \<Rightarrow> tier_condition list \<Rightarrow> visual_tier" where
  "match_tier c n conditions =
     normalizeVisualTier
       \<lparr>pt_label = Some (grp c n), pt_conditions = Some conditions,
        pt_input = Some (to_number (grp c (n + 1))), pt_output = Some (to_number (grp c (n + 2))),
        pt_mode = None, pt_costs = cost_groups c (n + 3) BILLING_CACHE_VAR_MAP\<rparr>"

definition strip_ws :: "jstr \<Rightarrow> jstr" where
  "strip_ws s = filter (\<lambda>c. \<not> is_ws c) s"

definition tryParseVisualConfig :: "jstr option \<Rightarrow> visual_config option" where
  "tryParseVisualConfig exprStr =
     (case exprStr of
        None \<Rightarrow> None
      | Some s \<Rightarrow>
          if s = [] then None
          else let body = snd (stripExprVersion s)
               in case match_start rx_single body of
                    Some c \<Rightarrow> Some (normalizeVisualConfig (Some [match_tier c 1 []]))
                  | None \<Rightarrow>
                      let tiers = map (\<lambda>c. match_tier c 2 (parse_conditions (grp c 1))) (exec_all rx_tier body)
                      in if tiers = [] then None
                         else let cfg = normalizeVisualConfig (Some tiers)
                              in if strip_ws (generateExprFromVisualConfig (Some cfg)) = strip_ws body
                                 then Some cfg else None)"

section \<open>The parser for display\<close>

definition is_word :: "cunit \<Rightarrow> bool" where
  "is_word c \<longleftrightarrow> is_digit c \<or> 65 \<le> c \<and> c \<le> 90 \<or> 97 \<le> c \<and> c \<le> 122 \<or> c = 95"

definition rx_var :: rx where
  "rx_var = seqs [Cap 1 (alts (map (\<lambda>v. Lit (js (bv_key v))) BILLING_PRICING_VARS)), ws, Lit (js ''*''), ws,
                  Cap 2 (Plus num_class)]"

text \<open>The matches of \<open>BILLING_VAR_REGEX\<close>; \<open>prev\<close> tells whether the unit before is a word
  character, so that \<open>\b\<close> holds when the next one differs in that.\<close>

function var_matches :: "bool \<Rightarrow> jstr \<Rightarrow> caps list" where
  "var_matches prev s =
     (case s of
        [] \<Rightarrow> []
      | x # t \<Rightarrow>
          if prev = is_word x then var_matches (is_word x) t
          else case run rx_var (Map.empty, s) of
                 [] \<Rightarrow> var_matches (is_word x) t
               | m # _ \<Rightarrow>
                   if length (snd m) < length s
                   then fst m # var_matches (is_word (s ! (length s - length (snd m) - 1))) (snd m)
                   else var_matches (is_word x) t)"
  by pat_completeness auto
termination by (relation "measure (\<lambda>(prev, s). length s)") auto

declare var_matches.simps [simp del]

text \<open>The first coefficient of each variable.\<close>

definition coefficients :: "jstr \<Rightarrow> (jstr \<times> jnum) list" where
  "coefficients body =
     foldl (\<lambda>acc c. if grp c 1 \<in> fst ` set acc then acc else acc @ [(grp c 1, to_number (grp c 2))])
       [] (var_matches False body)"

definition parseTierBody :: "jstr \<Rightarrow> (string \<times> jnum) list" where
  "parseTierBody body =
     map (\<lambda>(k, f). (f, num_or_zero (map_of (coefficients body) (js k)))) BILLING_VAR_KEY_TO_FIELD"

record parsed_tier =
  pd_label :: jstr
  pd_conditions :: "tier_condition list"
  pd_prices :: "(string \<times> jnum) list"

definition rx_display_tier :: rx where
  "rx_display_tier =
     seqs [rx_opt_conditions 1, rx_label 2, Cap 3 (Plus (\<lambda>c. c \<noteq> 41)), Lit (js '')'')]"

definition parseTiersFromExpr :: "jstr \<Rightarrow> parsed_tier list" where
  "parseTiersFromExpr exprStr =
     (if exprStr = [] then []
      else map (\<lambda>c. \<lparr>pd_label = grp c 2, pd_conditions = parse_conditions (grp c 1),
                     pd_prices = parseTierBody (grp c 3)\<rparr>)
             (exec_all rx_display_tier (snd (stripExprVersion exprStr))))"

end
