(* ===== verification/TierExprProps.thy ===== *)
theory TierExprProps
  imports TierExpr
begin

text \<open>
  The printer and the parsers of tier expressions agree: what gets into the text the editor's parser
  takes back, the parser for display reads the same tiers, and the conditions of a last tier are lost.
\<close>

section \<open>Numbers in expressions\<close>

lemma num_unit_classes: "num_unit c \<Longrightarrow> num_class c"
  by (auto simp: num_unit_def num_class_def)

lemma num_str_class: "num_ok n \<Longrightarrow> list_all num_class (num_str n) \<and> num_str n \<noteq> []"
  using num_str_units [of n] by (auto simp: list_all_iff num_unit_classes)

lemma num_or_zero_ok [simp]: "num_ok n \<Longrightarrow> num_or_zero (Some n) = n"
  by (auto simp: num_or_zero_def truthy_num_def num_ok_def)

section \<open>White space in front\<close>

lemma miss_ws:
  assumes "rejects is_ws r" and "miss r c s" and "s = [] \<or> \<not> is_ws (hd s)"
  shows "miss (Seq ws r) c s" and "miss (Seq ws r) c (32 # s)"
proof -
  have sp: "miss r c' (32 # t)" for c' t using assms(1) by (simp add: rejects_def miss_def is_ws_def)
  have stay: "s' = s" if "s = w @ s'" "list_all is_ws w" for w s'
    using that assms(3) by (cases w) auto
  show "miss (Seq ws r) c s"
    unfolding miss_Seq_iff
  proof (intro allI impI)
    fix c' s'
    assume "(c', s') \<in> set (run ws (c, s))"
    then obtain w where "c' = c" "s = w @ s'" "list_all is_ws w" by (auto simp del: run.simps)
    then show "miss r c' s'" using assms(2) stay by metis
  qed
  have sp2: "s' = s \<or> s' = 32 # s" if "32 # s = w @ s'" "list_all is_ws w" for w s'
    using that stay [of "tl w" s'] by (cases w) auto
  then show "miss (Seq ws r) c (32 # s)"
    unfolding miss_Seq_iff
  proof (intro allI impI)
    fix c' s'
    assume "(c', s') \<in> set (run ws (c, 32 # s))"
    then obtain w where "c' = c" "32 # s = w @ s'" "list_all is_ws w" by (auto simp del: run.simps)
    then show "miss r c' s'" using assms(2) sp sp2 by metis
  qed
qed

lemma ws_facts [simp]: "\<not> is_ws 43" "\<not> is_ws 42" "\<not> is_ws 41" "\<not> is_ws 38" "\<not> is_ws 63" "is_ws 32"
  by (simp_all add: is_ws_def)

lemma miss_ws_Plus: "\<not> is_ws x \<Longrightarrow> \<not> P x \<Longrightarrow> miss (Seq ws (Plus P)) c (x # s)"
proof (rule missI)
  fix c' s'
  assume x: "\<not> is_ws x" "\<not> P x"
  show "(c', s') \<notin> set (run (Seq ws (Plus P)) (c, x # s))"
  proof
    assume "(c', s') \<in> set (run (Seq ws (Plus P)) (c, x # s))"
    then obtain v w where "x # s = v @ w @ s'" "list_all is_ws v" "w \<noteq> []" "list_all P w"
      by (auto simp del: run.simps)
    then show False using x by (cases v; cases w) auto
  qed
qed

section \<open>Costs\<close>

lemma hit_cost:
  assumes "num_ok n" and "s = [] \<or> \<not> num_class (hd s)"
  shows "hit (rx_cost v k) c (cost_part v n @ s) (c(k \<mapsto> num_str n)) s"
proof -
  have cls: "list_all num_class (num_str n)" "num_str n \<noteq> []" using num_str_class [OF assms(1)] by auto
  then have "num_class (hd (num_str n))" by (cases "num_str n") auto
  then have ne: "\<not> is_ws (hd (num_str n @ s))" using cls(2) by (auto simp: num_class_def is_digit_def is_ws_def)
  have star: "js '' * '' = 32 # js ''*'' @ [32]" by (simp add: js_eval)
  show ?thesis
    unfolding rx_cost_def cost_part_def star seqs.simps append.assoc append_Cons append_Nil
  proof (intro hit_Seq)
    show "hit (Lit (js v)) c (js v @ 32 # js ''*'' @ 32 # num_str n @ s) c (32 # js ''*'' @ 32 # num_str n @ s)"
      by (rule hit_Lit)
    show "hit ws c (32 # js ''*'' @ 32 # num_str n @ s) c (js ''*'' @ 32 # num_str n @ s)"
      by (rule hit_ws_space) (simp add: js_eval is_ws_def)
    show "hit (Lit (js ''*'')) c (js ''*'' @ 32 # num_str n @ s) c (32 # num_str n @ s)" by (rule hit_Lit)
    show "hit ws c (32 # num_str n @ s) c (num_str n @ s)" using ne by (intro hit_ws_space) simp
    show "hit (Cap k (Plus num_class)) c (num_str n @ s) (c(k \<mapsto> num_str n)) s"
      using cls assms(2) by (intro hit_Cap hit_Plus)
  qed
qed

text \<open>The optional costs: those that are not zero, in the order of their variables.\<close>

definition cost_tail :: "(string \<Rightarrow> jnum) \<Rightarrow> string list \<Rightarrow> jstr" where
  "cost_tail f vs = concat (map (\<lambda>v. if f v = Fin 0 then [] else js '' + '' @ cost_part v (f v)) vs)"

fun cost_caps :: "caps \<Rightarrow> nat \<Rightarrow> (string \<Rightarrow> jnum) \<Rightarrow> string list \<Rightarrow> caps" where
  "cost_caps c n f [] = c"
| "cost_caps c n f (v # vs) =
     cost_caps (if f v = Fin 0 then c else c(n \<mapsto> num_str (f v))) (Suc n) f vs"

text \<open>The expression for \<open>v\<close> does not match at a later variable.\<close>

definition apart :: "string \<Rightarrow> string \<Rightarrow> bool" where
  "apart v w \<longleftrightarrow> v \<noteq> [] \<and> w \<noteq> [] \<and> \<not> is_ws (hd (js v)) \<and> \<not> is_ws (hd (js w)) \<and>
     (\<forall>c n t. miss (rx_cost v n) c (js w @ 32 # t))"

lemma cost_tail_start:
  "cost_tail f vs = [] \<or> (\<exists>w\<in>set vs. \<exists>t. cost_tail f vs = 32 # 43 # 32 # js w @ 32 # t)"
proof (induction vs)
  case (Cons v vs)
  have "js '' + '' @ cost_part v (f v) = 32 # 43 # 32 # js v @ 32 # (42 # 32 # num_str (f v))"
    by (simp add: cost_part_def js_eval)
  then have "f v \<noteq> Fin 0 \<Longrightarrow> cost_tail f (v # vs) = 32 # 43 # 32 # js v @ 32 # (42 # 32 # num_str (f v) @ cost_tail f vs)"
    by (simp add: cost_tail_def)
  moreover have "f v = Fin 0 \<Longrightarrow> cost_tail f (v # vs) = cost_tail f vs" by (simp add: cost_tail_def)
  ultimately show ?case using Cons by (cases "f v = Fin 0") (auto simp del: append_Cons)
qed (simp add: cost_tail_def)

lemma rejects_rx_cost: "v \<noteq> [] \<Longrightarrow> \<not> is_ws (hd (js v)) \<Longrightarrow> rejects is_ws (rx_cost v n)"
  unfolding rx_cost_def seqs.simps by (cases v) (auto simp: js_Cons intro: rejects_Seq_Lit)

lemma miss_opt_cost:
  assumes "\<forall>w\<in>set vs. apart v w" and "v \<noteq> []" "\<not> is_ws (hd (js v))" and "\<not> is_ws x" "x \<noteq> 43"
  shows "miss (seqs [ws, Lit (js ''+''), ws, rx_cost v n]) c (cost_tail f vs @ x # e)"
  using cost_tail_start [of f vs]
proof
  assume "cost_tail f vs = []"
  then show ?thesis
    using assms(4,5) unfolding seqs.simps by (intro miss_ws_Lit) (simp_all add: js_eval)
next
  assume "\<exists>w\<in>set vs. \<exists>t. cost_tail f vs = 32 # 43 # 32 # js w @ 32 # t"
  then obtain w t where w: "w \<in> set vs" and t: "cost_tail f vs = 32 # 43 # 32 # js w @ 32 # t" by blast
  have a: "apart v w" using assms(1) w by blast
  have "miss (rx_cost v n) c (js w @ 32 # t @ x # e)" using a by (simp add: apart_def)
  moreover have "\<not> is_ws (hd (js w @ 32 # t @ x # e))" using a by (auto simp: apart_def hd_append)
  ultimately have "miss (Seq ws (rx_cost v n)) c (32 # js w @ 32 # t @ x # e)"
    using miss_ws(2) [OF rejects_rx_cost [OF assms(2,3)]] by blast
  then have "miss (Seq (Lit (js ''+'')) (Seq ws (rx_cost v n))) c (43 # 32 # js w @ 32 # t @ x # e)"
    by (intro miss_Seq_Lit) (simp_all add: js_eval)
  then have "miss (Seq ws (Seq (Lit (js ''+'')) (Seq ws (rx_cost v n)))) c (32 # 43 # 32 # js w @ 32 # t @ x # e)"
    by (intro miss_ws(2)) (auto simp: js_eval is_ws_def)
  then show ?thesis by (simp add: t)
qed

lemma tail_no_num: "\<not> num_class x \<Longrightarrow> \<not> num_class (hd (cost_tail f vs @ x # e))"
  using cost_tail_start [of f vs] by (auto simp: num_class_def is_digit_def)

lemma hit_opt_costs:
  assumes "sorted_wrt apart vs" and "\<forall>v\<in>set vs. v \<noteq> [] \<and> \<not> is_ws (hd (js v)) \<and> num_ok (f v)"
    and "\<not> is_ws x" "\<not> num_class x"
    and "hit r (cost_caps c n f vs) (x # e) c' e'"
  shows "hit (rx_opt_costs n vs r) c (cost_tail f vs @ x # e) c' e'"
  using assms
proof (induction vs arbitrary: c n)
  case Nil
  then show ?case by (simp add: cost_tail_def)
next
  case (Cons v vs)
  have x43: "x \<noteq> 43" using Cons.prems(4) by (auto simp: num_class_def)
  show ?case
  proof (cases "f v = Fin 0")
    case True
    have "hit (rx_opt_cost v n) c (cost_tail f vs @ x # e) c (cost_tail f vs @ x # e)"
      unfolding rx_opt_cost_def
      using Cons.prems x43 by (intro hit_Opt_none miss_opt_cost) auto
    moreover have "hit (rx_opt_costs (Suc n) vs r) c (cost_tail f vs @ x # e) c' e'"
      using Cons.prems True by (intro Cons.IH) auto
    ultimately show ?thesis using True by (auto intro: hit_Seq simp: cost_tail_def)
  next
    case False
    let ?rest = "cost_tail f vs @ x # e"
    have ok: "num_ok (f v)" "v \<noteq> []" "\<not> is_ws (hd (js v))" using Cons.prems(2) by auto
    have tx: "cost_tail f (v # vs) @ x # e = 32 # js ''+'' @ 32 # cost_part v (f v) @ ?rest"
      using False by (simp add: cost_tail_def js_eval)
    have h1: "hit (rx_cost v n) c (cost_part v (f v) @ ?rest) (c(n \<mapsto> num_str (f v))) ?rest"
      using ok(1) tail_no_num [OF Cons.prems(4)] by (intro hit_cost) auto
    have "\<not> is_ws (hd (cost_part v (f v) @ ?rest))" using ok by (auto simp: cost_part_def hd_append)
    then have h2: "hit ws c (32 # cost_part v (f v) @ ?rest) c (cost_part v (f v) @ ?rest)"
      by (intro hit_ws_space) simp
    have h3: "hit ws c (32 # js ''+'' @ 32 # cost_part v (f v) @ ?rest) c (js ''+'' @ 32 # cost_part v (f v) @ ?rest)"
      by (intro hit_ws_space) (simp add: js_eval is_ws_def)
    have here: "hit (rx_opt_cost v n) c (cost_tail f (v # vs) @ x # e) (c(n \<mapsto> num_str (f v))) ?rest"
      unfolding rx_opt_cost_def tx seqs.simps by (intro hit_Opt hit_Seq) (rule h3 hit_Lit h2 h1)+
    have "hit r (cost_caps (c(n \<mapsto> num_str (f v))) (Suc n) f vs) (x # e) c' e'"
      using Cons.prems(5) False by simp
    moreover have "sorted_wrt apart vs" "\<forall>v\<in>set vs. v \<noteq> [] \<and> \<not> is_ws (hd (js v)) \<and> num_ok (f v)"
      using Cons.prems(1,2) by auto
    ultimately have "hit (rx_opt_costs (Suc n) vs r) (c(n \<mapsto> num_str (f v))) ?rest c' e'"
      using Cons.IH Cons.prems(3,4) by blast
    with here show ?thesis unfolding rx_opt_costs.simps by (rule hit_Seq)
  qed
qed


text \<open>The seven variables are apart.\<close>

lemma rx_cost_miss:
  assumes "strip (js v) (js w @ 32 # t) = None \<or> (\<exists>x s. strip (js v) (js w @ 32 # t) = Some (x # s) \<and> \<not> is_ws x \<and> x \<noteq> 42)"
  shows "miss (rx_cost v n) c (js w @ 32 # t)"
  using assms unfolding rx_cost_def seqs.simps
proof
  assume "strip (js v) (js w @ 32 # t) = None"
  then show "miss (Seq (Lit (js v)) (Seq ws (Seq (Lit (js ''*'')) (Seq ws (Cap n (Plus num_class)))))) c (js w @ 32 # t)"
    by (rule miss_Seq_Lit_None)
next
  assume "\<exists>x s. strip (js v) (js w @ 32 # t) = Some (x # s) \<and> \<not> is_ws x \<and> x \<noteq> 42"
  then obtain x s where "strip (js v) (js w @ 32 # t) = Some (x # s)" "\<not> is_ws x" "x \<noteq> 42" by blast
  then show "miss (Seq (Lit (js v)) (Seq ws (Seq (Lit (js ''*'')) (Seq ws (Cap n (Plus num_class)))))) c (js w @ 32 # t)"
    by (intro miss_Seq_Lit miss_ws_Lit) (auto simp: js_eval)
qed

lemma apartI:
  assumes "v \<noteq> []" "w \<noteq> []" "\<not> is_ws (hd (js v))" "\<not> is_ws (hd (js w))"
    and "\<And>t. case strip (js v) (js w @ 32 # t) of None \<Rightarrow> True
              | Some u \<Rightarrow> u \<noteq> [] \<and> \<not> is_ws (hd u) \<and> hd u \<noteq> 42"
  shows "apart v w"
  unfolding apart_def
proof (intro conjI allI)
  fix c n t
  have "strip (js v) (js w @ 32 # t) = None \<or> (\<exists>x s. strip (js v) (js w @ 32 # t) = Some (x # s) \<and> \<not> is_ws x \<and> x \<noteq> 42)"
    using assms(5) [of t] by (auto split: option.splits simp: neq_Nil_conv)
  then show "miss (rx_cost v n) c (js w @ 32 # t)" by (rule rx_cost_miss)
qed (use assms in simp_all)

lemma cache_vars: "map snd BILLING_CACHE_VAR_MAP = [''cr'', ''cc'', ''cc1h'', ''img'', ''img_o'', ''ai'', ''ao'']"
  by code_simp

lemma cache_fields:
  "map fst BILLING_CACHE_VAR_MAP =
     [''cache_read_unit_cost'', ''cache_create_unit_cost'', ''cache_create_1h_unit_cost'',
      ''image_unit_cost'', ''image_output_unit_cost'', ''audio_input_unit_cost'', ''audio_output_unit_cost'']"
  by code_simp

lemma cache_vars_apart: "sorted_wrt apart (map snd BILLING_CACHE_VAR_MAP)"
  unfolding cache_vars
  by (simp add: apartI js_eval is_ws_def)

lemma cache_vars_ok: "\<forall>v\<in>set (map snd BILLING_CACHE_VAR_MAP). v \<noteq> [] \<and> \<not> is_ws (hd (js v))"
  unfolding cache_vars by (simp add: js_eval is_ws_def)

section \<open>Bodies and calls\<close>

definition tier_cost :: "visual_tier \<Rightarrow> string \<Rightarrow> jnum" where
  "tier_cost t v = (case List.find (\<lambda>(f, w). w = v) BILLING_CACHE_VAR_MAP of
                      Some (f, _) \<Rightarrow> num_or_zero (map_of (vt_costs t) f) | None \<Rightarrow> Fin 0)"

definition tier_nums_ok :: "visual_tier \<Rightarrow> bool" where
  "tier_nums_ok t \<longleftrightarrow> num_ok (vt_input t) \<and> num_ok (vt_output t) \<and> (\<forall>n\<in>snd ` set (vt_costs t). num_ok n)"

lemma tier_cost_ok: "tier_nums_ok t \<Longrightarrow> num_ok (tier_cost t v)"
proof -
  assume ok: "tier_nums_ok t"
  have z: "num_ok (Fin 0)" by (simp add: num_ok_def)
  have "num_ok (num_or_zero (map_of (vt_costs t) f))" for f
  proof (cases "map_of (vt_costs t) f")
    case (Some n)
    then have "n \<in> snd ` set (vt_costs t)" by (force dest: map_of_SomeD)
    then have "num_ok n" using ok by (auto simp: tier_nums_ok_def)
    then show ?thesis using Some by simp
  qed (simp add: num_or_zero_def z)
  then show ?thesis by (auto simp: tier_cost_def z split: option.split)
qed

lemma tier_cost_cache:
  "map (\<lambda>(f, v). num_or_zero (map_of (vt_costs t) f)) BILLING_CACHE_VAR_MAP = map (\<lambda>(f, v). tier_cost t v) BILLING_CACHE_VAR_MAP"
  by (simp add: tier_cost_def BILLING_CACHE_VAR_MAP_def BILLING_EXTRA_VARS_def BILLING_VARS_def
      base_var_def extra_var_def)

lemma join_cons: "join sep (x # xs) = x @ concat (map (\<lambda>y. sep @ y) xs)"
  by (induction xs arbitrary: x) simp_all

lemma body_text:
  assumes "tier_nums_ok t"
  shows "buildTierBodyExpr t = cost_part ''p'' (vt_input t) @ js '' + '' @ cost_part ''c'' (vt_output t)
    @ cost_tail (tier_cost t) (map snd BILLING_CACHE_VAR_MAP)"
proof -
  have "concat (map (\<lambda>y. sep @ y) (map (\<lambda>(f, v). g v (h f)) (filter (\<lambda>(f, _). h f \<noteq> Fin 0) ps))) =
      concat (map (\<lambda>v. if k v = Fin 0 then [] else sep @ g v (k v)) (map snd ps))"
    if "map (\<lambda>(f, v). h f) ps = map (\<lambda>(f, v). k v) ps" for sep g h k and ps :: "(string \<times> string) list"
    using that by (induction ps) auto
  from this [OF tier_cost_cache [of t]] show ?thesis
    using assms unfolding buildTierBodyExpr_def tier_nums_ok_def cost_tail_def
    by (simp add: join_cons)
qed

definition body_caps :: "caps \<Rightarrow> nat \<Rightarrow> visual_tier \<Rightarrow> caps" where
  "body_caps c n t = cost_caps (c(n \<mapsto> num_str (vt_input t), n + 1 \<mapsto> num_str (vt_output t))) (n + 2)
     (tier_cost t) (map snd BILLING_CACHE_VAR_MAP)"

lemma hit_body:
  assumes ok: "tier_nums_ok t" and r: "hit r (body_caps c n t) (41 # e) c' e'"
  shows "hit (rx_body n r) c (buildTierBodyExpr t @ 41 # e) c' e'"
proof -
  let ?tail = "cost_tail (tier_cost t) (map snd BILLING_CACHE_VAR_MAP) @ 41 # e"
  let ?c1 = "c(n \<mapsto> num_str (vt_input t))"
  let ?c2 = "?c1(n + 1 \<mapsto> num_str (vt_output t))"
  have nums: "num_ok (vt_input t)" "num_ok (vt_output t)" using ok by (auto simp: tier_nums_ok_def)
  have tx: "buildTierBodyExpr t @ 41 # e = cost_part ''p'' (vt_input t) @ 32 # js ''+'' @ 32 # cost_part ''c'' (vt_output t) @ ?tail"
    by (simp add: body_text [OF ok] js_eval)
  have p: "\<not> is_ws (hd (cost_part ''c'' x @ s))" for x s by (simp add: cost_part_def js_eval is_ws_def)
  show ?thesis
    unfolding rx_body_def tx seqs.simps
  proof (intro hit_Seq)
    show "hit (rx_cost ''p'' n) c (cost_part ''p'' (vt_input t) @ 32 # js ''+'' @ 32 # cost_part ''c'' (vt_output t) @ ?tail)
        ?c1 (32 # js ''+'' @ 32 # cost_part ''c'' (vt_output t) @ ?tail)"
      by (rule hit_cost [OF nums(1)]) (simp add: num_class_def is_digit_def)
    show "hit ws ?c1 (32 # js ''+'' @ 32 # cost_part ''c'' (vt_output t) @ ?tail)
        ?c1 (js ''+'' @ 32 # cost_part ''c'' (vt_output t) @ ?tail)"
      by (rule hit_ws_space) (simp add: js_eval)
    show "hit (Lit (js ''+'')) ?c1 (js ''+'' @ 32 # cost_part ''c'' (vt_output t) @ ?tail)
        ?c1 (32 # cost_part ''c'' (vt_output t) @ ?tail)"
      by (rule hit_Lit)
    show "hit ws ?c1 (32 # cost_part ''c'' (vt_output t) @ ?tail) ?c1 (cost_part ''c'' (vt_output t) @ ?tail)"
      by (rule hit_ws_space) (use p in blast)
    show "hit (rx_cost ''c'' (n + 1)) ?c1 (cost_part ''c'' (vt_output t) @ ?tail) ?c2 ?tail"
      using tail_no_num [of 41] by (intro hit_cost [OF nums(2)]) (simp add: num_class_def is_digit_def)
    show "hit (rx_opt_costs (n + 2) (map snd BILLING_CACHE_VAR_MAP) r) ?c2 ?tail c' e'"
      using cache_vars_apart cache_vars_ok tier_cost_ok [OF ok] r
      by (intro hit_opt_costs) (auto simp: body_caps_def num_class_def is_digit_def)
  qed
qed

lemma body_start: "tier_nums_ok t \<Longrightarrow> \<not> is_ws (hd (buildTierBodyExpr t @ e))"
  by (simp add: body_text cost_part_def js_eval is_ws_def)

lemma hit_label:
  assumes "34 \<notin> set label" and "s = [] \<or> \<not> is_ws (hd s)"
  shows "hit (rx_label n) c (js ''tier('' @ 34 # label @ 34 # js '', '' @ s) (c(n \<mapsto> label)) s"
proof -
  have tx: "js ''tier('' @ 34 # label @ 34 # js '', '' @ s = (js ''tier('' @ [34]) @ label @ (34 # js '','') @ 32 # s"
    by (simp add: js_eval)
  show ?thesis
    unfolding tx rx_label_def seqs.simps
  proof (intro hit_Seq)
    show "hit (Lit (js ''tier('' @ [34])) c ((js ''tier('' @ [34]) @ label @ (34 # js '','') @ 32 # s)
        c (label @ (34 # js '','') @ 32 # s)" by (rule hit_Lit)
    show "hit (Cap n (Star (Cls (\<lambda>c. c \<noteq> 34)))) c (label @ (34 # js '','') @ 32 # s)
        (c(n \<mapsto> label)) ((34 # js '','') @ 32 # s)"
      using assms(1) by (intro hit_Cap hit_Star_Cls) (auto simp: list_all_iff)
    show "hit (Lit (34 # js '','')) (c(n \<mapsto> label)) ((34 # js '','') @ 32 # s) (c(n \<mapsto> label)) (32 # s)"
      by (rule hit_Lit)
    show "hit ws (c(n \<mapsto> label)) (32 # s) (c(n \<mapsto> label)) s" by (rule hit_ws_space [OF assms(2)])
  qed
qed

lemma hit_call:
  assumes "tier_nums_ok t" "34 \<notin> set label" and "hit r (body_caps (c(n \<mapsto> label)) (n + 1) t) (41 # e) c' e'"
  shows "hit (Seq (rx_label n) (rx_body (n + 1) r)) c (tier_call label t @ e) c' e'"
proof -
  have "tier_call label t @ e = js ''tier('' @ 34 # label @ 34 # js '', '' @ buildTierBodyExpr t @ 41 # e"
    by (simp add: tier_call_def js_eval)
  moreover have "hit (rx_label n) c (js ''tier('' @ 34 # label @ 34 # js '', '' @ buildTierBodyExpr t @ 41 # e)
      (c(n \<mapsto> label)) (buildTierBodyExpr t @ 41 # e)"
    using assms(2) body_start [OF assms(1)] by (intro hit_label) auto
  ultimately show ?thesis using hit_body [OF assms(1,3)] by (auto intro: hit_Seq)
qed

section \<open>The groups of a call\<close>

lemma cost_caps_below: "m < n \<Longrightarrow> cost_caps c n f vs m = c m"
  by (induction vs arbitrary: c n) auto

lemma cost_groups_caps:
  assumes "\<forall>v\<in>set (map snd ps). num_ok (f v)" and "\<forall>m\<ge>n. c m = None"
  shows "cost_groups (cost_caps c n f (map snd ps)) n ps = map (\<lambda>(k, v). (k, f v)) (filter (\<lambda>(k, v). f v \<noteq> Fin 0) ps)"
  using assms
proof (induction ps arbitrary: c n)
  case (Cons p ps)
  obtain k v where p: "p = (k, v)" by fastforce
  let ?c = "if f v = Fin 0 then c else c(n \<mapsto> num_str (f v))"
  have "cost_caps ?c (Suc n) f (map snd ps) n = ?c n" by (rule cost_caps_below) simp
  moreover have "cost_groups (cost_caps ?c (Suc n) f (map snd ps)) (Suc n) ps
      = map (\<lambda>(k, v). (k, f v)) (filter (\<lambda>(k, v). f v \<noteq> Fin 0) ps)"
    using Cons.prems by (intro Cons.IH) auto
  ultimately show ?case using Cons.prems p by (auto simp: to_number_num_str)
qed simp


text \<open>The tier as its expression shows it: the cache mode follows from the one hour cost.\<close>

definition shown_mode :: "visual_tier \<Rightarrow> cache_mode" where
  "shown_mode t = (if num_lt (Fin 0) (tier_cost t ''cc1h'') then Timed else Generic)"

definition normal_costs :: "visual_tier \<Rightarrow> bool" where
  "normal_costs t \<longleftrightarrow> vt_costs t = map (\<lambda>(f, v). (f, tier_cost t v)) BILLING_CACHE_VAR_MAP"

lemma map_of_nonzero:
  assumes "distinct (map fst ps)" and "(k, v) \<in> set ps"
  shows "map_of (map (\<lambda>(k, v). (k, g v)) (filter (\<lambda>(k, v). g v \<noteq> z) ps)) k = (if g v = z then None else Some (g v))"
  using assms
proof (induction ps)
  case (Cons p ps)
  have "map_of (map (\<lambda>(k, v). (k, g v)) (filter (\<lambda>(k, v). g v \<noteq> z) ps)) k = None" if "k \<notin> fst ` set ps"
    using that by (force simp: map_of_eq_None_iff)
  moreover have "(k, v) \<in> set ps \<Longrightarrow> k \<in> fst ` set ps" by force
  ultimately show ?case using Cons by (cases p) auto
qed simp

lemma cache_fields_distinct: "distinct (map fst BILLING_CACHE_VAR_MAP)"
  unfolding cache_fields by simp

lemma num_or_zero_lookup:
  "num_ok x \<Longrightarrow> num_or_zero (if x = Fin 0 then None else Some x) = x"
  by (auto simp: num_or_zero_def truthy_num_def num_ok_def)

lemma match_tier_caps:
  assumes ok: "tier_nums_ok t" "normal_costs t" and c: "\<forall>m\<ge>n. c m = None" and l: "vt_label t = label"
  shows "match_tier (body_caps (c(n \<mapsto> label)) (n + 1) t) n conds = t\<lparr>vt_conditions := conds, vt_mode := shown_mode t\<rparr>"
proof -
  let ?M = "BILLING_CACHE_VAR_MAP"
  let ?b = "c(n \<mapsto> label, n + 1 \<mapsto> num_str (vt_input t), n + 2 \<mapsto> num_str (vt_output t))"
  let ?c = "cost_caps ?b (n + 3) (tier_cost t) (map snd ?M)"
  let ?nz = "map (\<lambda>(k, v). (k, tier_cost t v)) (filter (\<lambda>(k, v). tier_cost t v \<noteq> Fin 0) ?M)"
  have caps: "body_caps (c(n \<mapsto> label)) (n + 1) t = ?c" by (simp add: body_caps_def eval_nat_numeral)
  have g: "grp ?c n = label" "grp ?c (n + 1) = num_str (vt_input t)" "grp ?c (n + 2) = num_str (vt_output t)"
    by (simp_all add: grp_def cost_caps_below)
  have groups: "cost_groups ?c (n + 3) ?M = ?nz"
    using c tier_cost_ok [OF ok(1)] by (intro cost_groups_caps) auto
  have look: "map_of ?nz f = (if tier_cost t v = Fin 0 then None else Some (tier_cost t v))" if "(f, v) \<in> set ?M" for f v
    using map_of_nonzero [OF cache_fields_distinct that] .
  have costs: "map (\<lambda>(f, _). (f, num_or_zero (map_of ?nz f))) ?M = vt_costs t"
  proof -
    have "map (\<lambda>(f, _). (f, num_or_zero (map_of ?nz f))) ?M = map (\<lambda>(f, v). (f, tier_cost t v)) ?M"
      by (intro map_cong refl) (auto simp: look num_or_zero_lookup tier_cost_ok [OF ok(1)])
    then show ?thesis using ok(2) by (simp add: normal_costs_def)
  qed
  have in1h: "(''cache_create_1h_unit_cost'', ''cc1h'') \<in> set ?M" by code_simp
  have "num_lt (Fin 0) (Fin 0) = False" by simp
  then have mode: "getTierCacheMode \<lparr>pt_label = a, pt_conditions = b, pt_input = x, pt_output = y, pt_mode = None, pt_costs = ?nz\<rparr>
      = shown_mode t" for a b x y
    unfolding getTierCacheMode_def shown_mode_def by (simp add: look [OF in1h])
  have nums: "num_ok (vt_input t)" "num_ok (vt_output t)" using ok by (auto simp: tier_nums_ok_def)
  show ?thesis
    unfolding caps match_tier_def g groups normalizeVisualTier_def
    unfolding costs partial_tier.simps option.case mode to_number_num_str [OF nums(1)] to_number_num_str [OF nums(2)]
    by (rule visual_tier.equality) (simp_all add: l)
qed

section \<open>Conditions\<close>

text \<open>A condition whose value the parser's number class covers: no sign, no negative exponent.\<close>

definition cond_ok :: "tier_condition \<Rightarrow> bool" where
  "cond_ok c \<longleftrightarrow> (case tc_value c of NumVal n \<Rightarrow> num_ok n \<and> list_all cond_num_class (num_str n) | StrVal _ \<Rightarrow> False)"

lemma cond_ok_text:
  assumes "cond_ok k"
  obtains n where "tc_value k = NumVal n" "num_ok n" "list_all cond_num_class (num_str n)" "num_str n \<noteq> []"
    "\<not> is_ws (hd (num_str n))"
    "condition_str k = js (var_str (tc_var k)) @ 32 # js (op_str (tc_op k)) @ 32 # num_str n"
proof -
  obtain n where n: "tc_value k = NumVal n" "num_ok n" "list_all cond_num_class (num_str n)"
    using assms by (auto simp: cond_ok_def split: cond_value.splits)
  have ne: "num_str n \<noteq> []" using num_str_class [OF n(2)] by blast
  then have "num_class (hd (num_str n))" using num_str_class [OF n(2)] by (cases "num_str n") auto
  then have "\<not> is_ws (hd (num_str n))" by (auto simp: num_class_def is_digit_def is_ws_def)
  with n ne show thesis by (intro that) (simp_all add: condition_str_def)
qed

lemma cond_num_not_ws: "cond_num_class x \<Longrightarrow> \<not> is_ws x"
  by (auto simp: cond_num_class_def is_digit_def is_ws_def)

text \<open>An operator in front of a number: the shorter operator is tried first and fails.\<close>

lemma hit_op:
  assumes "hit (Seq ws r) c (32 # s) c' s'"
    and "\<And>x t. x = 61 \<Longrightarrow> miss (Seq ws r) c (x # t)"
  shows "hit (Seq (alts [Lit (js ''<''), Lit (js ''<=''), Lit (js ''>''), Lit (js ''>='')]) (Seq ws r)) c
      (js (op_str p) @ 32 # s) c' s'"
proof -
  have l: "hit (Seq (Lit w) (Seq ws r)) c (w @ 32 # s) c' s'" for w
    by (rule hit_Seq [OF hit_Lit assms(1)])
  have m: "miss (Seq (Lit (js ''<'')) (Seq ws r)) c (60 # 61 # t)" "miss (Seq (Lit (js ''>'')) (Seq ws r)) c (62 # 61 # t)" for t
    using assms(2) by (auto intro!: miss_Seq_Lit simp: js_eval)
  have n: "miss (Seq (Lit (js ''<'')) (Seq ws r)) c (62 # t)" "miss (Seq (Lit (js ''<='')) (Seq ws r)) c (62 # t)" for t
    by (auto intro!: miss_Seq_Lit_None simp: js_eval)
  show ?thesis
  proof (cases p)
    case OpLt
    then show ?thesis using l [of "js ''<''"] by (simp add: hit_Seq_AltL)
  next
    case OpLe
    then have "miss (Seq (Lit (js ''<'')) (Seq ws r)) c (js (op_str p) @ 32 # s)" using m by (simp add: js_eval)
    moreover have "hit (Seq (Lit (js ''<='')) (Seq ws r)) c (js (op_str p) @ 32 # s) c' s'"
      using l [of "js ''<=''"] OpLe by simp
    ultimately show ?thesis by (simp add: hit_Seq_AltL hit_Seq_AltR)
  next
    case OpGt
    have "miss (Seq (Lit (js ''<'')) (Seq ws r)) c (js ''>'' @ 32 # s)" "miss (Seq (Lit (js ''<='')) (Seq ws r)) c (js ''>'' @ 32 # s)"
      using n by (simp_all add: js_eval)
    with OpGt l [of "js ''>''"] show ?thesis by (simp add: hit_Seq_AltL hit_Seq_AltR)
  next
    case OpGe
    have "miss (Seq (Lit (js ''<'')) (Seq ws r)) c (js ''>='' @ 32 # s)" "miss (Seq (Lit (js ''<='')) (Seq ws r)) c (js ''>='' @ 32 # s)"
      "miss (Seq (Lit (js ''>'')) (Seq ws r)) c (js ''>='' @ 32 # s)"
      using m n by (simp_all add: js_eval)
    with OpGe l [of "js ''>=''"] show ?thesis by (simp add: hit_Seq_AltL hit_Seq_AltR)
  qed
qed

lemma hit_var:
  assumes "\<And>w. w = js (var_str v) \<Longrightarrow> hit (Seq (Lit w) r) c (w @ s) c' s'"
  shows "hit (Seq (alts [Lit (js ''p''), Lit (js ''c''), Lit (js ''len'')]) r) c (js (var_str v) @ s) c' s'"
proof (cases v)
  case VarP
  then show ?thesis using assms [of "js ''p''"] by (simp add: hit_Seq_AltL)
next
  case VarC
  have "miss (Seq (Lit (js ''p'')) r) c (js ''c'' @ s)" by (intro miss_Seq_Lit_None) (simp add: js_eval)
  then show ?thesis using assms [of "js ''c''"] VarC by (simp add: hit_Seq_AltL hit_Seq_AltR)
next
  case VarLen
  have "miss (Seq (Lit (js ''p'')) r) c (js ''len'' @ s)" "miss (Seq (Lit (js ''c'')) r) c (js ''len'' @ s)"
    by (intro miss_Seq_Lit_None; simp add: js_eval)+
  then show ?thesis using assms [of "js ''len''"] VarLen by (simp add: hit_Seq_AltR)
qed

lemma op_start: "\<not> is_ws (hd (js (op_str p) @ s))"
  by (cases p) (simp_all add: js_eval is_ws_def)

lemma var_start: "\<not> is_ws (hd (js (var_str v) @ s))"
  by (cases v) (simp_all add: js_eval is_ws_def)

lemma hit_condition:
  assumes "cond_ok k" and "s = [] \<or> \<not> cond_num_class (hd s)"
  shows "hit rx_condition c (condition_str k @ s) c s"
proof -
  from assms(1) obtain n where n: "list_all cond_num_class (num_str n)" "num_str n \<noteq> []" "\<not> is_ws (hd (num_str n))"
    and tx: "condition_str k = js (var_str (tc_var k)) @ 32 # js (op_str (tc_op k)) @ 32 # num_str n"
    by (rule cond_ok_text)
  have num: "hit (Seq ws (Plus cond_num_class)) c (32 # num_str n @ s) c s"
    using n assms(2) by (intro hit_Seq [OF hit_ws_space hit_Plus]) (auto simp: hd_append)
  have "hit (Seq (alts [Lit (js ''<''), Lit (js ''<=''), Lit (js ''>''), Lit (js ''>='')]) (Seq ws (Plus cond_num_class))) c
      (js (op_str (tc_op k)) @ 32 # num_str n @ s) c s"
    using num by (rule hit_op) (auto intro!: miss_ws_Plus simp: is_ws_def cond_num_class_def is_digit_def)
  then have "hit (Seq ws (Seq (alts [Lit (js ''<''), Lit (js ''<=''), Lit (js ''>''), Lit (js ''>='')]) (Seq ws (Plus cond_num_class)))) c
      (32 # js (op_str (tc_op k)) @ 32 # num_str n @ s) c s"
    using op_start by (intro hit_Seq [OF hit_ws_space]) auto
  then show ?thesis
    unfolding rx_condition_def tx seqs.simps append.assoc append_Cons
    by (intro hit_var hit_Seq [OF hit_Lit])
qed

definition conds_text :: "tier_condition list \<Rightarrow> jstr" where
  "conds_text ks = join (js '' && '') (map condition_str ks)"

lemma buildConditionStr_ok: "\<forall>k\<in>set ks. cond_ok k \<Longrightarrow> buildConditionStr ks = conds_text ks"
proof -
  assume "\<forall>k\<in>set ks. cond_ok k"
  then have "filter (\<lambda>c. tc_value c \<noteq> StrVal []) ks = ks"
    by (auto simp: filter_id_conv cond_ok_def)
  then show ?thesis by (simp add: buildConditionStr_def conds_text_def)
qed

definition and_tail :: "tier_condition list \<Rightarrow> jstr" where
  "and_tail ks = concat (map (\<lambda>k. js '' && '' @ condition_str k) ks)"

lemma conds_text_Cons: "conds_text (k # ks) = condition_str k @ and_tail ks"
  by (simp add: conds_text_def and_tail_def join_cons comp_def)

lemma condition_start: "\<not> is_ws (hd (condition_str k @ s)) \<and> condition_str k \<noteq> []"
  using var_start [of "tc_var k"] by (cases "tc_var k") (simp_all add: condition_str_def js_eval is_ws_def)

lemma and_tail_head: "and_tail ks @ s = [] \<or> \<not> cond_num_class (hd (and_tail ks @ s))"
  if "s = [] \<or> \<not> cond_num_class (hd s)"
  using that by (cases ks) (auto simp: and_tail_def js_eval cond_num_class_def is_digit_def)

lemma hit_and_tail:
  assumes "\<forall>k\<in>set ks. cond_ok k" and "s = [] \<or> \<not> cond_num_class (hd s)"
    and "strip (js ''&&'') (dropWhile is_ws s) = None"
  shows "hit (Star (seqs [ws, Lit (js ''&&''), ws, rx_condition])) c (and_tail ks @ s) c s"
  using assms(1)
proof (induction ks)
  case Nil
  have "miss (seqs [ws, Lit (js ''&&''), ws, rx_condition]) c s"
    unfolding seqs.simps by (rule miss_ws_Lit [OF assms(3)]) (simp_all add: js_eval)
  then show ?case by (simp add: and_tail_def hit_Star_stop)
next
  case (Cons k ks)
  let ?rest = "and_tail ks @ s"
  have tx: "and_tail (k # ks) @ s = 32 # js ''&&'' @ 32 # condition_str k @ ?rest"
    by (simp add: and_tail_def js_eval)
  have 1: "hit ws c (32 # js ''&&'' @ 32 # condition_str k @ ?rest) c (js ''&&'' @ 32 # condition_str k @ ?rest)"
    by (rule hit_ws_space) (simp add: js_eval)
  have 2: "hit ws c (32 # condition_str k @ ?rest) c (condition_str k @ ?rest)"
    using condition_start by (intro hit_ws_space) blast
  have 3: "hit rx_condition c (condition_str k @ ?rest) c ?rest"
    using Cons.prems and_tail_head [OF assms(2)] by (intro hit_condition) auto
  have step: "hit (seqs [ws, Lit (js ''&&''), ws, rx_condition]) c (and_tail (k # ks) @ s) c ?rest"
    unfolding tx seqs.simps by (intro hit_Seq) (rule 1 2 3 hit_Lit)+
  show ?case
    by (rule hit_Star_step [OF step]) (use Cons in \<open>simp_all add: tx\<close>)
qed

lemma hit_opt_conditions:
  assumes "\<forall>k\<in>set ks. cond_ok k" and "ks \<noteq> []" and "s = [] \<or> \<not> is_ws (hd s)"
  shows "hit (rx_opt_conditions n) c (conds_text ks @ js '' ? '' @ s) (c(n \<mapsto> conds_text ks)) s"
proof -
  obtain k ks' where ks: "ks = k # ks'" using assms(2) by (cases ks) auto
  let ?q = "32 # js ''?'' @ 32 # s"
  have q: "js '' ? '' @ s = ?q" by (simp add: js_eval)
  have no: "\<not> cond_num_class (hd ?q)" by (simp add: cond_num_class_def is_digit_def)
  have "hit rx_condition c (condition_str k @ and_tail ks' @ ?q) c (and_tail ks' @ ?q)"
    using assms(1) ks and_tail_head [of ?q ks'] no by (intro hit_condition) auto
  moreover have "hit (Star (seqs [ws, Lit (js ''&&''), ws, rx_condition])) c (and_tail ks' @ ?q) c ?q"
    using assms(1) ks no by (intro hit_and_tail) (auto simp: js_eval)
  ultimately have "hit (Seq rx_condition (Star (seqs [ws, Lit (js ''&&''), ws, rx_condition]))) c (conds_text ks @ ?q) c ?q"
    unfolding ks conds_text_Cons append.assoc by (rule hit_Seq)
  then have 1: "hit (rx_cond_group n) c (conds_text ks @ ?q) (c(n \<mapsto> conds_text ks)) ?q"
    unfolding rx_cond_group_def by (rule hit_Cap)
  have 2: "hit ws c' ?q c' (js ''?'' @ 32 # s)" for c' by (rule hit_ws_space) (simp add: js_eval)
  have 3: "hit ws c' (32 # s) c' s" for c' by (rule hit_ws_space [OF assms(3)])
  show ?thesis
    unfolding rx_opt_conditions_def q seqs.simps
    by (intro hit_Opt hit_Seq) (rule 1 2 3 hit_Lit)+
qed

lemma call_start: "tier_call label t @ e = 116 # drop 1 (tier_call label t) @ e"
  by (simp add: tier_call_def js_eval)

text \<open>At a unit that starts neither a condition nor a call there is no match.\<close>

lemma miss_condition_unit:
  assumes "x \<notin> {112, 99, 108}"
  shows "miss (Seq rx_condition r) c (x # s)"
  using assms unfolding rx_condition_def seqs.simps alts.simps
  by (intro miss_Seq miss_Seq_Alt miss_Seq_Lit_None) (auto simp: js_eval)

lemma opt_conditions_none:
  assumes "x \<notin> {112, 99, 108}"
  shows "run (rx_opt_conditions n) (c, x # s) = [(c, x # s)]"
proof -
  have "miss (seqs [rx_cond_group n, ws, Lit (js ''?''), ws]) c (x # s)"
    unfolding seqs.simps rx_cond_group_def
    by (intro miss_Seq miss_Cap miss_condition_unit [OF assms])
  then show ?thesis by (simp add: rx_opt_conditions_def Opt_def miss_def)
qed

lemma miss_tier_unit:
  assumes "x \<notin> {112, 99, 108, 116}"
  shows "miss rx_tier c (x # s)"
proof -
  have "miss (Seq (rx_label 2) r) c (x # s)" for r
    unfolding rx_label_def seqs.simps using assms
    by (intro miss_Seq miss_Seq_Lit_None) (auto simp: js_eval)
  then show ?thesis
    using opt_conditions_none [of x 1 c s] assms by (simp add: rx_tier_def miss_def)
qed

section \<open>Tiers of an expression\<close>

definition tier_ok :: "visual_tier \<Rightarrow> bool" where
  "tier_ok t \<longleftrightarrow> tier_nums_ok t \<and> normal_costs t \<and> vt_label t \<noteq> [] \<and> 34 \<notin> set (vt_label t)
                \<and> (\<forall>k\<in>set (vt_conditions t). cond_ok k)"

definition tier_text :: "visual_tier \<Rightarrow> jstr" where
  "tier_text t = (if vt_conditions t = [] then [] else conds_text (vt_conditions t) @ js '' ? '') @ tier_call (vt_label t) t"

definition tier_caps :: "visual_tier \<Rightarrow> caps" where
  "tier_caps t = body_caps ((if vt_conditions t = [] then Map.empty else [1 \<mapsto> conds_text (vt_conditions t)])
                              (2 \<mapsto> vt_label t)) 3 t"

lemma hit_tier:
  assumes "tier_ok t"
  shows "hit rx_tier Map.empty (tier_text t @ e) (tier_caps t) e"
proof -
  let ?c = "if vt_conditions t = [] then Map.empty else [1 \<mapsto> conds_text (vt_conditions t)]"
  let ?call = "tier_call (vt_label t) t @ e"
  have "hit (Seq (rx_label 2) (rx_body (2 + 1) (Lit (js '')'')))) ?c ?call (tier_caps t) e"
    using assms by (intro hit_call) (auto simp: tier_ok_def tier_caps_def js_eval intro: hit_Lit [of "[41]", simplified])
  moreover have "hit (rx_opt_conditions 1) Map.empty (tier_text t @ e) ?c ?call"
  proof (cases "vt_conditions t = []")
    case True
    have "run (rx_opt_conditions 1) (Map.empty, ?call) = [(Map.empty, ?call)]"
      by (subst (1 2) call_start) (rule opt_conditions_none, simp)
    then show ?thesis using True by (simp add: tier_text_def hit_def)
  next
    case False
    have "\<not> is_ws (hd ?call)" by (simp add: tier_call_def js_eval is_ws_def)
    then show ?thesis using False assms hit_opt_conditions [of "vt_conditions t" ?call 1 Map.empty]
      by (simp add: tier_text_def tier_ok_def)
  qed
  ultimately show ?thesis unfolding rx_tier_def by (auto intro: hit_Seq)
qed

lemma tier_text_start: "tier_text t = [] \<or> hd (tier_text t) \<in> {112, 99, 108, 116}"
proof (cases "vt_conditions t")
  case (Cons k ks)
  then show ?thesis
    by (cases "tc_var k") (simp_all add: tier_text_def conds_text_Cons condition_str_def js_eval)
qed (simp add: tier_text_def tier_call_def js_eval)

lemma length_tier_text: "length (tier_text t) \<noteq> 0"
  by (simp add: tier_text_def tier_call_def)

text \<open>An expression that finds tiers: it matches the text of a tier with the groups \<open>caps_of\<close>,
  and nowhere in front of a tier. The search finds the tiers one after the other.\<close>

locale tier_scanner =
  fixes scanner :: rx and caps_of :: "visual_tier \<Rightarrow> caps"
  assumes hit_text: "tier_ok t \<Longrightarrow> hit scanner Map.empty (tier_text t @ e) (caps_of t) e"
    and miss_unit: "x \<notin> {112, 99, 108, 116} \<Longrightarrow> miss scanner Map.empty (x # s)"
begin

lemma all_tiers:
  assumes "\<forall>t\<in>set ts. tier_ok t" and "ts \<noteq> []" and "exec_scan scanner e = None"
  shows "exec_all scanner (join (js '' : '') (map tier_text ts) @ e) = map caps_of ts"
  using assms(1,2)
proof (induction ts)
  case (Cons t ts)
  have t: "tier_ok t" using Cons.prems by simp
  show ?case
  proof (cases ts)
    case Nil
    have "exec_all scanner (tier_text t @ e) = caps_of t # exec_all scanner e"
      using length_tier_text [of t] by (intro exec_all_hit exec_scan_hit hit_text [OF t]) simp
    then show ?thesis using Nil assms(3) by (simp add: exec_all_none)
  next
    case (Cons u us)
    let ?rest = "join (js '' : '') (map tier_text ts) @ e"
    obtain e' where e': "?rest = tier_text u @ e'" using Cons by (cases us) auto
    have h: "exec_scan scanner ?rest = Some (caps_of u, e')"
      unfolding e' using Cons.prems \<open>ts = u # us\<close> by (intro exec_scan_hit hit_text) simp
    have skip: "exec_scan scanner (js '' : '' @ ?rest) = exec_scan scanner ?rest"
      by (simp add: js_eval exec_scan_skip miss_unit)
    have len: "length e' < length ?rest" using length_tier_text [of u] unfolding e' by simp
    have "exec_all scanner (tier_text t @ js '' : '' @ ?rest) = caps_of t # exec_all scanner (js '' : '' @ ?rest)"
      using length_tier_text [of t] by (intro exec_all_hit exec_scan_hit hit_text [OF t]) simp
    also have "exec_all scanner (js '' : '' @ ?rest) = caps_of u # exec_all scanner e'"
      using h len skip by (intro exec_all_hit) simp_all
    also have "\<dots> = exec_all scanner ?rest"
      using h len by (rule exec_all_hit [symmetric])
    also have "\<dots> = map caps_of ts" using Cons.IH Cons.prems \<open>ts = u # us\<close> by simp
    finally show ?thesis using Cons by simp
  qed
qed simp

end

interpretation editor_scan: tier_scanner rx_tier tier_caps
  by unfold_locales (auto intro: hit_tier miss_tier_unit)

section \<open>Reading conditions back\<close>

lemma split_rx_skip:
  "(\<And>i. i < length u \<Longrightarrow> miss r Map.empty (drop i u @ s)) \<Longrightarrow>
   split_rx r acc (u @ s) = split_rx r (rev u @ acc) s"
proof (induction u arbitrary: acc)
  case (Cons x u)
  have "miss r Map.empty (x # u @ s)" using Cons.prems [of 0] by simp
  then have "split_rx r acc (x # u @ s) = split_rx r (x # acc) (u @ s)"
    by (subst split_rx.simps) (simp add: miss_def)
  moreover have "split_rx r (x # acc) (u @ s) = split_rx r (rev u @ x # acc) s"
  proof (rule Cons.IH)
    show "miss r Map.empty (drop i u @ s)" if "i < length u" for i
      using Cons.prems [of "Suc i"] that by simp
  qed
  ultimately show ?case by simp
qed simp

lemma split_rx_hit:
  assumes "hit r Map.empty s c t" and "length t < length s"
  shows "split_rx r acc s = rev acc # split_rx r [] t"
proof -
  obtain x s' where s: "s = x # s'" using assms(2) by (cases s) auto
  show ?thesis using assms unfolding s by (subst split_rx.simps) (auto simp: hit_def)
qed

lemma split_rx_end: "split_rx r acc [] = [rev acc]"
  by (subst split_rx.simps) simp

text \<open>Pieces without an ampersand that end in something other than white space.\<close>

definition piece_ok :: "jstr \<Rightarrow> bool" where
  "piece_ok u \<longleftrightarrow> u \<noteq> [] \<and> 38 \<notin> set u \<and> \<not> is_ws (hd u) \<and> \<not> is_ws (last u)"

lemma miss_and:
  assumes "v \<noteq> []" "38 \<notin> set v" "\<not> is_ws (last v)"
  shows "miss rx_and c (v @ s)"
proof -
  have "dropWhile is_ws v \<noteq> []" using assms(1,3) by (metis dropWhile_eq_Nil_conv last_in_set)
  then obtain y ys where y: "dropWhile is_ws v = y # ys" by (cases "dropWhile is_ws v") auto
  then have "y \<noteq> 38" using assms(2) by (metis list.set_intros(1) set_dropWhileD)
  moreover have "dropWhile is_ws (v @ s) = y # ys @ s"
    using y by (metis append_Cons dropWhile_append1 dropWhile_eq_Nil_conv list.distinct(1))
  ultimately show ?thesis
    unfolding rx_and_def seqs.simps by (intro miss_ws_Lit) (simp_all add: js_eval)
qed

lemma split_pieces:
  assumes "\<forall>u\<in>set us. piece_ok u" and "us \<noteq> []"
  shows "split_rx rx_and [] (join (js '' && '') us) = us"
  using assms
proof (induction us)
  case (Cons u us)
  have u: "piece_ok u" using Cons.prems by simp
  have skip: "split_rx rx_and [] (u @ s) = split_rx rx_and (rev u) s" for s
  proof -
    have "miss rx_and Map.empty (drop i u @ s)" if "i < length u" for i
      using u that by (intro miss_and) (auto simp: piece_ok_def dest: in_set_dropD)
    from split_rx_skip [OF this] show ?thesis by simp
  qed
  show ?case
  proof (cases us)
    case Nil
    then show ?thesis using skip [of "[]"] by (simp add: split_rx_end)
  next
    case (Cons w ws')
    let ?rest = "join (js '' && '') us"
    have "piece_ok w" using Cons.prems \<open>us = w # ws'\<close> by simp
    then have st: "?rest \<noteq> []" "\<not> is_ws (hd ?rest)" using Cons by (cases ws'; auto simp: piece_ok_def)+
    have "hit rx_and Map.empty (js '' && '' @ ?rest) Map.empty ?rest"
    proof -
      have tx: "js '' && '' @ ?rest = 32 # js ''&&'' @ 32 # ?rest" by (simp add: js_eval)
      have 1: "hit ws Map.empty (32 # js ''&&'' @ 32 # ?rest) Map.empty (js ''&&'' @ 32 # ?rest)"
        by (rule hit_ws_space) (simp add: js_eval)
      have 2: "hit ws Map.empty (32 # ?rest) Map.empty ?rest" using st by (intro hit_ws_space) simp
      show ?thesis unfolding rx_and_def tx seqs.simps by (intro hit_Seq) (rule 1 2 hit_Lit)+
    qed
    from split_rx_hit [OF this, of "rev u"] have "split_rx rx_and (rev u) (js '' && '' @ ?rest) = u # split_rx rx_and [] ?rest"
      by simp
    moreover have "split_rx rx_and [] ?rest = us" using Cons.IH Cons.prems \<open>us = w # ws'\<close> by simp
    ultimately show ?thesis using Cons skip by simp
  qed
qed simp

lemma condition_piece:
  assumes "cond_ok k"
  shows "piece_ok (condition_str k)"
proof -
  from assms obtain n where n: "list_all cond_num_class (num_str n)" "num_str n \<noteq> []"
    and tx: "condition_str k = js (var_str (tc_var k)) @ 32 # js (op_str (tc_op k)) @ 32 # num_str n"
    by (rule cond_ok_text)
  have "38 \<notin> set (num_str n)" using n(1) by (auto simp: list_all_iff cond_num_class_def is_digit_def)
  moreover have "38 \<notin> set (js (var_str v))" "38 \<notin> set (js (op_str p))" for v p
    by (cases v; cases p; simp add: js_eval)+
  moreover have "\<not> is_ws (last (num_str n))"
    using n cond_num_not_ws by (simp add: list_all_iff)
  ultimately show ?thesis using condition_start [of k "[]"] n(2) by (simp add: piece_ok_def tx)
qed

lemma run_Seq_ws:
  assumes "rejects is_ws r" and "s = [] \<or> \<not> is_ws (hd s)"
  shows "run (Seq ws r) (c, s) = run r (c, s)" and "run (Seq ws r) (c, 32 # s) = run r (c, s)"
proof -
  have K: "\<And>z t. is_ws z \<Longrightarrow> run r (c, z # t) = []" using assms(1) by (simp add: rejects_def)
  have "run (Seq ws r) (c, s) = concat (map (run r) (star_run (length s) (run (Cls is_ws)) (c, [] @ s)))" by simp
  also have "\<dots> = run r (c, s)" by (rule star_run_span) (use assms(2) K in auto)
  finally show "run (Seq ws r) (c, s) = run r (c, s)" .
  have "run (Seq ws r) (c, 32 # s) = concat (map (run r) (star_run (length (32 # s)) (run (Cls is_ws)) (c, [32] @ s)))" by simp
  also have "\<dots> = run r (c, s)" by (rule star_run_span) (use assms(2) K in auto)
  finally show "run (Seq ws r) (c, 32 # s) = run r (c, s)" .
qed

definition rx_cond_number :: rx where
  "rx_cond_number = Seq ws (Seq (Cap 3 (Plus cond_num_class)) Eos)"

definition rx_cond_op :: rx where
  "rx_cond_op = Seq (Cap 2 (alts [Lit (js ''<''), Lit (js ''<=''), Lit (js ''>''), Lit (js ''>='')])) rx_cond_number"

lemma rejects_number: "rejects is_ws (Seq (Cap 3 (Plus cond_num_class)) Eos)"
  unfolding rejects_def
proof (intro allI impI)
  fix c z s
  assume z: "is_ws z"
  have "miss (Seq (Cap 3 (Plus cond_num_class)) Eos) c (z # s)"
  proof (rule missI)
    fix c' s'
    show "(c', s') \<notin> set (run (Seq (Cap 3 (Plus cond_num_class)) Eos) (c, z # s))"
    proof
      assume "(c', s') \<in> set (run (Seq (Cap 3 (Plus cond_num_class)) Eos) (c, z # s))"
      then have "cond_num_class z" by (auto simp del: run.simps)
      with z show False using cond_num_not_ws by blast
    qed
  qed
  then show "run (Seq (Cap 3 (Plus cond_num_class)) Eos) (c, z # s) = []" by (simp add: miss_def)
qed

lemma run_cond_number:
  assumes "list_all cond_num_class w" "w \<noteq> []"
  shows "run rx_cond_number (c, 32 # w) = [(c(3 \<mapsto> w), [])]"
proof -
  have "\<not> is_ws (hd w)" using assms by (cases w) (auto dest: cond_num_not_ws)
  then have "run rx_cond_number (c, 32 # w) = run (Seq (Cap 3 (Plus cond_num_class)) Eos) (c, w)"
    unfolding rx_cond_number_def by (intro run_Seq_ws rejects_number) simp
  also have "\<dots> = run Eos (c(3 \<mapsto> w), [])"
    using assms by (intro run_Seq_Cap_Plus_end rejects_Eos)
  finally show ?thesis by simp
qed

lemma run_cond_number_eq: "run rx_cond_number (c, 61 # t) = []"
proof -
  have "run (Seq (Cap 3 (Plus cond_num_class)) Eos) (c, 61 # t) = []"
    by (simp add: Plus_def cond_num_class_def is_digit_def)
  then show ?thesis
    unfolding rx_cond_number_def by (subst run_Seq_ws(1)) (simp_all add: rejects_number is_ws_def)
qed

lemma rejects_op: "rejects is_ws rx_cond_op"
  unfolding rejects_def rx_cond_op_def
  by (auto simp: rx_steps js_eval is_ws_def simp del: run.simps)

lemma run_cond_op:
  assumes "list_all cond_num_class w" "w \<noteq> []"
  shows "run rx_cond_op (c, js (op_str p) @ 32 # w) = [(c(2 \<mapsto> js (op_str p), 3 \<mapsto> w), [])]"
  using run_cond_number [OF assms] run_cond_number_eq unfolding rx_cond_op_def
  by (cases p) (simp_all add: rx_steps js_eval del: run.simps)

lemma parse_condition_str:
  assumes "cond_ok k"
  shows "parse_condition (condition_str k) = Some k"
proof -
  from assms obtain n where n: "tc_value k = NumVal n" "num_ok n" "list_all cond_num_class (num_str n)" "num_str n \<noteq> []"
    and tx: "condition_str k = js (var_str (tc_var k)) @ 32 # js (op_str (tc_op k)) @ 32 # num_str n"
    by (rule cond_ok_text)
  let ?v = "js (var_str (tc_var k))" and ?o = "js (op_str (tc_op k))"
  have rx: "rx_condition_parts = Seq (Cap 1 (alts [Lit (js ''p''), Lit (js ''c''), Lit (js ''len'')])) (Seq ws rx_cond_op)"
    by (simp add: rx_condition_parts_def rx_cond_op_def rx_cond_number_def)
  have wsop: "run (Seq ws rx_cond_op) (c, 32 # ?o @ 32 # num_str n) = [(c(2 \<mapsto> ?o, 3 \<mapsto> num_str n), [])]" for c
    using run_cond_op [OF n(3,4)] op_start [of "tc_op k"] by (subst run_Seq_ws(2) [OF rejects_op]) auto
  have "run rx_condition_parts (Map.empty, condition_str k) = [([1 \<mapsto> ?v, 2 \<mapsto> ?o, 3 \<mapsto> num_str n], [])]"
    unfolding rx tx using wsop
    by (cases "tc_var k") (simp_all add: rx_steps js_eval del: run.simps)
  then have m: "match_start rx_condition_parts (condition_str k) = Some [1 \<mapsto> ?v, 2 \<mapsto> ?o, 3 \<mapsto> num_str n]"
    by (simp add: match_start_def)
  have "trimmed (condition_str k)" using condition_piece [OF assms] by (simp add: piece_ok_def trimmed_def)
  then have t: "trim (condition_str k) = condition_str k" by simp
  have f: "List.find (\<lambda>v. js (var_str v) = ?v) [VarP, VarC, VarLen] = Some (tc_var k)"
    "List.find (\<lambda>x. js (op_str x) = ?o) [OpLt, OpLe, OpGt, OpGe] = Some (tc_op k)"
    by (cases "tc_var k"; simp) (cases "tc_op k"; simp)
  show ?thesis
    unfolding parse_condition_def t m using f n(1) by (simp add: grp_def to_number_num_str [OF n(2)])
qed

lemma parse_conditions_text:
  assumes "\<forall>k\<in>set ks. cond_ok k"
  shows "parse_conditions (conds_text ks) = ks"
proof (cases "ks = []")
  case True
  then show ?thesis by (simp add: parse_conditions_def conds_text_def)
next
  case False
  have "split_rx rx_and [] (conds_text ks) = map condition_str ks"
    unfolding conds_text_def using assms False by (intro split_pieces) (auto simp: condition_piece)
  moreover have "conds_text ks \<noteq> []"
    using False condition_start by (cases ks) (auto simp: conds_text_Cons)
  ultimately show ?thesis
    using assms by (simp add: parse_conditions_def map_filter_id parse_condition_str)
qed

section \<open>The editor's parser takes back what the editor prints\<close>

text \<open>
  What the printer makes of the tiers the editor holds: a tier without a label is printed with a
  name, a condition without a value is left out, and the conditions of the last of several tiers
  are not printed at all.
\<close>

definition valued_conditions :: "visual_tier \<Rightarrow> tier_condition list" where
  "valued_conditions t = filter (\<lambda>c. tc_value c \<noteq> StrVal []) (vt_conditions t)"

fun printed_from :: "nat \<Rightarrow> visual_tier list \<Rightarrow> visual_tier list" where
  "printed_from i [] = []"
| "printed_from i (t # ts) =
     t\<lparr>vt_label := (if vt_label t = [] then js ''tier_'' @ nat_str (i + 1) else vt_label t),
       vt_conditions := (if ts = [] then [] else valued_conditions t)\<rparr> # printed_from (i + 1) ts"

definition printed_tiers :: "visual_config \<Rightarrow> visual_config" where
  "printed_tiers ts =
     (case ts of
        [t] \<Rightarrow> [t\<lparr>vt_label := (if vt_label t = [] then js ''default'' else vt_label t),
                  vt_conditions := valued_conditions t\<rparr>]
      | _ \<Rightarrow> printed_from 0 ts)"

lemma printed_from_Nil [simp]: "printed_from i ts = [] \<longleftrightarrow> ts = []"
  by (cases ts) simp_all

lemma named_not_empty: "(if l = [] then js ''tier_'' @ n else l) \<noteq> []" "(if l = [] then js ''default'' else l) \<noteq> []"
  by (simp_all add: js_eval)

lemma build_valued: "buildConditionStr (valued_conditions t) = buildConditionStr (vt_conditions t)"
  by (simp add: buildConditionStr_def valued_conditions_def)

lemma call_fields:
  "tier_call l (t\<lparr>vt_label := x\<rparr>) = tier_call l t" "tier_call l (t\<lparr>vt_conditions := cs\<rparr>) = tier_call l t"
  by (simp_all add: tier_call_def buildTierBodyExpr_def)

lemma tier_parts_printed: "tier_parts i (printed_from i ts) = tier_parts i ts"
  by (induction ts arbitrary: i) (auto simp: Let_def build_valued call_fields named_not_empty)

lemma generate_printed: "generateExprFromVisualConfig (Some (printed_tiers ts)) = generateExprFromVisualConfig (Some ts)"
proof (cases ts)
  case (Cons t us)
  show ?thesis
  proof (cases us)
    case Nil
    then show ?thesis using Cons
      by (simp add: printed_tiers_def generateExprFromVisualConfig_def Let_def build_valued call_fields named_not_empty)
  next
    case (Cons u vs)
    then have "printed_tiers ts = printed_from 0 ts" using \<open>ts = t # us\<close> by (simp add: printed_tiers_def)
    then show ?thesis
      using tier_parts_printed [of 0 ts] Cons \<open>ts = t # us\<close>
      by (simp add: generateExprFromVisualConfig_def del: tier_parts.simps)
  qed
qed (simp add: printed_tiers_def)

lemma generate_several:
  "generateExprFromVisualConfig (Some (u # v # vs)) = join (js '' : '') (tier_parts 0 (u # v # vs))"
  by (simp add: generateExprFromVisualConfig_def)

text \<open>The editor offers conditions for every tier, also for the last of several. What they were
  does not show in the expression: it is the one of the tiers without them.\<close>

lemma last_conditions_lost:
  assumes "ts \<noteq> []"
  shows "generateExprFromVisualConfig (Some (ts @ [t\<lparr>vt_conditions := cs\<rparr>]))
       = generateExprFromVisualConfig (Some (ts @ [t]))"
proof -
  have p: "tier_parts i (ts @ [t\<lparr>vt_conditions := cs\<rparr>]) = tier_parts i (ts @ [t])" for i
    by (induction ts arbitrary: i) (simp_all add: Let_def call_fields)
  obtain u v vs where 1: "ts @ [t] = u # v # vs" using assms by (cases ts; cases "tl ts") auto
  obtain u' v' vs' where 2: "ts @ [t\<lparr>vt_conditions := cs\<rparr>] = u' # v' # vs'"
    using assms by (cases ts; cases "tl ts") auto
  show ?thesis using p [of 0] unfolding 1 2 generate_several by simp
qed

text \<open>The tiers the properties are about: those for which, as they are printed, every tier but the
  last has a condition, so that they form a chain.\<close>

definition config_ok :: "visual_config \<Rightarrow> bool" where
  "config_ok ts \<longleftrightarrow> ts \<noteq> [] \<and> (\<forall>t\<in>set ts. tier_ok t) \<and>
     (length ts = 1 \<or> vt_conditions (last ts) = [] \<and> (\<forall>t\<in>set (butlast ts). vt_conditions t \<noteq> []))"

definition shown_tier :: "visual_tier \<Rightarrow> visual_tier" where
  "shown_tier t = t\<lparr>vt_mode := shown_mode t\<rparr>"

lemma vt_shown [simp]:
  "vt_label (shown_tier t) = vt_label t" "vt_conditions (shown_tier t) = vt_conditions t"
  "vt_input (shown_tier t) = vt_input t" "vt_output (shown_tier t) = vt_output t"
  "vt_costs (shown_tier t) = vt_costs t"
  by (simp_all add: shown_tier_def)

lemma normalize_fixed:
  assumes "tier_ok t"
  shows "normalizeVisualTier (as_partial (shown_tier t)) = shown_tier t"
proof -
  have c: "vt_costs t = map (\<lambda>(f, v). (f, tier_cost t v)) BILLING_CACHE_VAR_MAP" and n: "tier_nums_ok t"
    using assms by (auto simp: tier_ok_def normal_costs_def)
  have "map_of (vt_costs t) f = Some (tier_cost t v)" if "(f, v) \<in> set BILLING_CACHE_VAR_MAP" for f v
    unfolding c using cache_fields_distinct that by (intro map_of_is_SomeI) (force simp: comp_def case_prod_unfold)+
  then have "map (\<lambda>(f, _). (f, num_or_zero (map_of (vt_costs t) f))) BILLING_CACHE_VAR_MAP = vt_costs t"
    by (subst (2) c) (auto intro!: map_cong simp: tier_cost_ok [OF n])
  then show ?thesis
    by (intro visual_tier.equality) (simp_all add: normalizeVisualTier_def as_partial_def)
qed

lemma normalize_config_fixed:
  assumes "\<forall>t\<in>set ts. tier_ok t" and "ts \<noteq> []"
  shows "normalizeVisualConfig (Some (map shown_tier ts)) = map shown_tier ts"
  using assms by (auto simp: normalizeVisualConfig_def normalize_fixed)

lemma call_shown [simp]: "tier_call l (shown_tier t) = tier_call l t"
  by (simp add: tier_call_def buildTierBodyExpr_def)

lemma tier_parts_shown: "tier_parts i (map shown_tier ts) = tier_parts i ts"
  by (induction ts arbitrary: i) (simp_all add: Let_def)

lemma generate_shown: "generateExprFromVisualConfig (Some (map shown_tier ts)) = generateExprFromVisualConfig (Some ts)"
proof (cases ts)
  case (Cons t us)
  then show ?thesis
    using tier_parts_shown [of 0 ts] by (cases us) (simp_all add: generateExprFromVisualConfig_def Let_def)
qed simp

lemma conds_text_Nil [simp]: "conds_text [] = []"
  by (simp add: conds_text_def)

lemma conds_text_nonempty [simp]: "conds_text ks = [] \<longleftrightarrow> ks = []"
  using condition_start by (cases ks) (auto simp: conds_text_Cons)

lemma tier_parts_text:
  assumes "\<forall>t\<in>set ts. tier_ok t" and "ts \<noteq> []"
    and "vt_conditions (last ts) = []" and "\<forall>t\<in>set (butlast ts). vt_conditions t \<noteq> []"
  shows "tier_parts i ts = map tier_text ts"
  using assms
proof (induction ts arbitrary: i)
  case (Cons t ts)
  have l: "vt_label t \<noteq> []" and b: "buildConditionStr (vt_conditions t) = conds_text (vt_conditions t)"
    using Cons.prems(1) by (auto simp: tier_ok_def intro: buildConditionStr_ok)
  show ?case
  proof (cases "ts = []")
    case True
    then show ?thesis using l Cons.prems(3) by (simp add: Let_def tier_text_def)
  next
    case False
    then have "tier_parts (Suc i) ts = map tier_text ts" "vt_conditions t \<noteq> []"
      using Cons by auto
    then show ?thesis using False l b by (simp add: Let_def tier_text_def)
  qed
qed simp

text \<open>The text of a configuration: its tiers, and the fallback of a single conditional one.\<close>

lemma generate_text:
  assumes "config_ok ts"
  shows "generateExprFromVisualConfig (Some ts) = join (js '' : '') (map tier_text ts)
    @ (if length ts = 1 \<and> vt_conditions (hd ts) \<noteq> [] then js '' : p * 0 + c * 0'' else [])"
proof -
  obtain t us where ts: "ts = t # us" using assms by (cases ts) (auto simp: config_ok_def)
  have t: "vt_label t \<noteq> []" "buildConditionStr (vt_conditions t) = conds_text (vt_conditions t)"
    using assms ts by (auto simp: config_ok_def tier_ok_def intro: buildConditionStr_ok)
  show ?thesis
  proof (cases us)
    case Nil
    then show ?thesis using ts t by (simp add: generateExprFromVisualConfig_def Let_def tier_text_def)
  next
    case (Cons u vs)
    then have "tier_parts 0 ts = map tier_text ts"
      using assms ts by (intro tier_parts_text) (auto simp: config_ok_def)
    then show ?thesis using ts Cons by (simp add: generateExprFromVisualConfig_def)
  qed
qed

lemma generate_head:
  assumes "config_ok ts"
  obtains x s where "generateExprFromVisualConfig (Some ts) = x # s" and "x \<in> {112, 99, 108, 116}"
    and "vt_conditions (hd ts) \<noteq> [] \<Longrightarrow> x \<noteq> 116"
proof -
  obtain t us where ts: "ts = t # us" using assms by (cases ts) (auto simp: config_ok_def)
  obtain x s where x: "tier_text t = x # s" using length_tier_text [of t] by (cases "tier_text t") auto
  then have "x \<in> {112, 99, 108, 116}" using tier_text_start [of t] by simp
  moreover have "x \<noteq> 116" if "vt_conditions t \<noteq> []"
    using that x by (cases "vt_conditions t"; cases "tc_var (hd (vt_conditions t))")
      (auto simp: tier_text_def conds_text_Cons condition_str_def js_eval)
  moreover obtain s' where s': "join (js '' : '') (map tier_text ts) = x # s'"
    using ts x by (cases us) auto
  moreover from s' have "generateExprFromVisualConfig (Some ts) = x # s'
      @ (if length ts = 1 \<and> vt_conditions (hd ts) \<noteq> [] then js '' : p * 0 + c * 0'' else [])"
    unfolding generate_text [OF assms] by simp
  ultimately show thesis using that ts by auto
qed

lemma no_version:
  assumes "x \<noteq> 118"
  shows "snd (stripExprVersion (x # s)) = x # s"
proof -
  have "match_start rx_version (x # s) = None"
    unfolding rx_version_def seqs.simps using assms
    by (intro match_start_miss miss_Seq_Lit_None) (simp add: js_eval)
  then show ?thesis by (simp add: stripExprVersion_def)
qed

lemma read_tier:
  assumes "tier_ok t"
  shows "match_tier (tier_caps t) 2 (parse_conditions (grp (tier_caps t) 1)) = shown_tier t"
proof -
  let ?c = "if vt_conditions t = [] then Map.empty else [1 \<mapsto> conds_text (vt_conditions t)] :: caps"
  have "tier_caps t 1 = ?c 1" by (simp add: tier_caps_def body_caps_def cost_caps_below)
  then have "grp (tier_caps t) 1 = conds_text (vt_conditions t)" by (simp add: grp_def)
  then have p: "parse_conditions (grp (tier_caps t) 1) = vt_conditions t"
    using assms by (simp add: parse_conditions_text tier_ok_def)
  have "match_tier (body_caps (?c(2 \<mapsto> vt_label t)) (2 + 1) t) 2 (vt_conditions t)
      = t\<lparr>vt_conditions := vt_conditions t, vt_mode := shown_mode t\<rparr>"
    using assms by (intro match_tier_caps) (auto simp: tier_ok_def)
  then show ?thesis unfolding p by (simp add: tier_caps_def shown_tier_def)
qed

lemma tail_scan: "exec_scan rx_tier [] = None" "exec_scan rx_tier (js '' : p * 0 + c * 0'') = None"
  by code_simp+

lemma tier_expr_read:
  assumes "config_ok ts"
  shows "tryParseVisualConfig (Some (generateExprFromVisualConfig (Some ts)))
       = Some (map (\<lambda>t. t\<lparr>vt_mode := shown_mode t\<rparr>) ts)"
proof -
  have ok: "ts \<noteq> []" "\<forall>t\<in>set ts. tier_ok t" using assms by (auto simp: config_ok_def)
  obtain x s where xs: "generateExprFromVisualConfig (Some ts) = x # s" "x \<in> {112, 99, 108, 116}"
    "vt_conditions (hd ts) \<noteq> [] \<Longrightarrow> x \<noteq> 116"
    by (rule generate_head [OF assms]) blast
  let ?g = "generateExprFromVisualConfig (Some ts)"
  have body: "snd (stripExprVersion ?g) = ?g" using xs no_version [of x s] by auto
  have sh: "map (\<lambda>t. t\<lparr>vt_mode := shown_mode t\<rparr>) ts = map shown_tier ts" by (simp add: shown_tier_def)
  show ?thesis
  proof (cases "vt_conditions (hd ts) = []")
    case True
    then obtain t where t: "ts = [t]" "vt_conditions t = []" "tier_ok t"
      using assms by (cases ts; cases "tl ts") (auto simp: config_ok_def)
    let ?c = "body_caps (Map.empty(1 \<mapsto> vt_label t)) (1 + 1) t"
    have "?g = tier_call (vt_label t) t @ []"
      using t generate_text [OF assms] by (simp add: tier_text_def)
    moreover have "hit (Seq (Lit (js '')'')) Eos) ?c (41 # []) ?c []"
      by (simp add: hit_def js_eval)
    ultimately have "hit rx_single Map.empty ?g ?c []"
      unfolding rx_single_def using t(3) hit_call [of t "vt_label t" "Seq (Lit (js '')'')) Eos" Map.empty 1 "[]"]
      by (simp add: tier_ok_def numeral_2_eq_2)
    then have m: "match_start rx_single ?g = Some ?c" by (rule match_start_hit)
    have "match_tier ?c 1 [] = shown_tier t"
      using t match_tier_caps [of t 1 Map.empty "vt_label t" "[]"] by (simp add: tier_ok_def shown_tier_def)
    moreover have "normalizeVisualConfig (Some [shown_tier t]) = map shown_tier ts"
      using normalize_config_fixed [of ts] t by simp
    moreover have ne: "?g \<noteq> []" using xs(1) by simp
    ultimately show ?thesis
      unfolding sh tryParseVisualConfig_def option.case if_not_P [OF ne] Let_def body m by simp
  next
    case False
    have m: "match_start rx_single ?g = None"
      unfolding rx_single_def rx_label_def seqs.simps xs(1) using xs(3) [OF False]
      by (intro match_start_miss miss_Seq miss_Seq_Lit_None) (simp add: js_eval)
    have e: "exec_all rx_tier ?g = map tier_caps ts"
      unfolding generate_text [OF assms] using ok tail_scan by (intro editor_scan.all_tiers) auto
    have r: "map (\<lambda>c. match_tier c 2 (parse_conditions (grp c 1))) (map tier_caps ts) = map shown_tier ts"
      unfolding map_map comp_def using ok(2) by (intro map_cong refl read_tier) auto
    have ne: "?g \<noteq> []" using xs(1) by simp
    have ne2: "map shown_tier ts \<noteq> []" using ok(1) by simp
    show ?thesis
      unfolding sh tryParseVisualConfig_def option.case if_not_P [OF ne] Let_def body m e r if_not_P [OF ne2]
        normalize_config_fixed [OF ok(2,1)] generate_shown by simp
  qed
qed

text \<open>C15 What the visual editor prints for its tiers its parser reads back as the tiers that were
  printed, in order, with their labels, conditions and prices. Four things do not come back as the
  editor held them: the cache mode is the one the one hour price shows, a tier without a label has
  the name printed for it, a condition without a value is gone, and the last of several tiers has
  no conditions whatever it had. The tiers are such that, printed, every one but the last has a
  condition, that labels hold no quote, that the bounds of conditions are numbers without a
  sign or a negative exponent, and that the prices are numbers in the editor's normal form.\<close>

theorem tier_expr_roundtrip:
  assumes "config_ok (printed_tiers ts)"
  shows "tryParseVisualConfig (Some (generateExprFromVisualConfig (Some ts)))
       = Some (map (\<lambda>t. t\<lparr>vt_mode := shown_mode t\<rparr>) (printed_tiers ts))"
  using tier_expr_read [OF assms] by (simp add: generate_printed)

lemma tier_expr_roundtrip_witness:
  "let a = \<lparr>vt_label = js ''x'', vt_conditions = [\<lparr>tc_var = VarLen, tc_op = OpLe, tc_value = NumVal (Fin 200000)\<rparr>],
            vt_input = Fin 3, vt_output = Fin 15, vt_mode = Generic,
            vt_costs = map (\<lambda>(f, _). (f, Fin 0)) BILLING_CACHE_VAR_MAP\<rparr>;
       b = a\<lparr>vt_label := js ''y'', vt_input := Fin 6\<rparr>
   in tryParseVisualConfig (Some (generateExprFromVisualConfig (Some [a, b]))) = Some [a, b\<lparr>vt_conditions := []\<rparr>]"
proof -
  let ?a = "\<lparr>vt_label = js ''x'', vt_conditions = [\<lparr>tc_var = VarLen, tc_op = OpLe, tc_value = NumVal (Fin 200000)\<rparr>],
            vt_input = Fin 3, vt_output = Fin 15, vt_mode = Generic,
            vt_costs = map (\<lambda>(f, _). (f, Fin 0)) BILLING_CACHE_VAR_MAP\<rparr>"
  let ?b = "?a\<lparr>vt_label := js ''y'', vt_input := Fin 6\<rparr>"
  have p: "printed_tiers [?a, ?b] = [?a, ?b\<lparr>vt_conditions := []\<rparr>]"
    by (simp add: printed_tiers_def valued_conditions_def js_eval)
  have "config_ok (printed_tiers [?a, ?b])" unfolding p by code_simp
  moreover have "shown_mode ?a = Generic" "shown_mode (?b\<lparr>vt_conditions := []\<rparr>) = Generic" by code_simp+
  ultimately show ?thesis using tier_expr_roundtrip [of "[?a, ?b]"] unfolding p by (simp add: Let_def)
qed

section \<open>A single tier is not compared with its expression\<close>

text \<open>The parser compares what it read with the expression only when there are conditions or
  several tiers.\<close>

definition lossy_expr :: jstr where
  "lossy_expr = js ''tier('' @ 34 # js ''base'' @ 34 # js '', p * 2+1 + c * 3)''"

text \<open>An expression with one tier whose price is a sum (it charges 1 on top of twice the
  input) is accepted by the editor's parser: the input price is read as \<open>NaN\<close>, which the normal
  form keeps, and printing the tier again gives an input price of 0.\<close>

theorem single_tier_unchecked:
  "map_option (map vt_input) (tryParseVisualConfig (Some lossy_expr)) = Some [NaN]
   \<and> generateExprFromVisualConfig (tryParseVisualConfig (Some lossy_expr))
     = js ''tier('' @ 34 # js ''base'' @ 34 # js '', p * 0 + c * 3)''"
proof -
  have p: "tryParseVisualConfig (Some lossy_expr)
      = Some [\<lparr>vt_label = js ''base'', vt_conditions = [], vt_input = NaN, vt_output = Fin 3, vt_mode = Generic,
              vt_costs = map (\<lambda>(f, _). (f, Fin 0)) BILLING_CACHE_VAR_MAP\<rparr>]"
    by code_simp
  show ?thesis unfolding p by (intro conjI; code_simp)
qed

section \<open>The parser for display reads the same tiers\<close>

definition rx_times :: rx where
  "rx_times = Seq ws (Seq (Lit (js ''*'')) (Seq ws (Cap 2 (Plus num_class))))"

lemma rx_var_eq:
  "rx_var = Seq (Cap 1 (alts [Lit (js ''p''), Lit (js ''c''), Lit (js ''cr''), Lit (js ''cc''), Lit (js ''cc1h''),
     Lit (js ''img''), Lit (js ''img_o''), Lit (js ''ai''), Lit (js ''ao'')])) rx_times"
  by (simp add: rx_var_def rx_times_def BILLING_PRICING_VARS_def BILLING_VARS_def base_var_def extra_var_def)

lemma run_times_other: "\<not> is_ws x \<Longrightarrow> x \<noteq> 42 \<Longrightarrow> run rx_times (c, x # s) = []"
  using miss_ws_Lit [of "js ''*''" "x # s" "Seq ws (Cap 2 (Plus num_class))" c]
  by (simp add: rx_times_def miss_def js_eval)

lemma hit_times:
  assumes "num_ok n" and "s = [] \<or> \<not> num_class (hd s)"
  shows "hit rx_times c (32 # 42 # 32 # num_str n @ s) (c(2 \<mapsto> num_str n)) s"
proof -
  have cls: "list_all num_class (num_str n)" "num_str n \<noteq> []" using num_str_class [OF assms(1)] by auto
  then have "num_class (hd (num_str n))" by (cases "num_str n") auto
  then have ne: "\<not> is_ws (hd (num_str n @ s))" using cls(2) by (auto simp: num_class_def is_digit_def is_ws_def)
  have 1: "hit ws c (32 # 42 # 32 # num_str n @ s) c (42 # 32 # num_str n @ s)" by (rule hit_ws_space) simp
  have 2: "hit (Lit (js ''*'')) c (42 # 32 # num_str n @ s) c (32 # num_str n @ s)"
    using hit_Lit [of "js ''*''" c "32 # num_str n @ s"] by (simp add: js_eval)
  have 3: "hit ws c (32 # num_str n @ s) c (num_str n @ s)" using ne by (intro hit_ws_space) simp
  have 4: "hit (Cap 2 (Plus num_class)) c (num_str n @ s) (c(2 \<mapsto> num_str n)) s"
    using cls assms(2) by (intro hit_Cap hit_Plus)
  show ?thesis unfolding rx_times_def by (intro hit_Seq) (rule 1 2 3 4)+
qed

definition price_keys :: "string list" where
  "price_keys = [''p'', ''c'', ''cr'', ''cc'', ''cc1h'', ''img'', ''img_o'', ''ai'', ''ao'']"

lemma hit_rx_var:
  assumes "v \<in> set price_keys" and "num_ok n" and "s = [] \<or> \<not> num_class (hd s)"
  shows "hit rx_var Map.empty (cost_part v n @ s) [1 \<mapsto> js v, 2 \<mapsto> num_str n] s"
proof -
  obtain ms where "run rx_times (c, 32 # 42 # 32 # num_str n @ s) = (c(2 \<mapsto> num_str n), s) # ms c" for c
  proof -
    have "\<forall>c. \<exists>ms. run rx_times (c, 32 # 42 # 32 # num_str n @ s) = (c(2 \<mapsto> num_str n), s) # ms"
      using hit_times [OF assms(2,3)] by (simp add: hit_def)
    then show thesis using that by metis
  qed
  note hits = this
  have miss: "run rx_times (c, x # t) = []" if "x \<in> {114, 99, 49, 109, 95, 105, 111}" for c x t
    using that by (intro run_times_other) (auto simp: is_ws_def)
  show ?thesis
    using assms(1) unfolding price_keys_def hit_def rx_var_eq cost_part_def
    by (auto simp: rx_steps js_eval hits miss simp del: run.simps)
qed

lemma rx_var_other: "x \<notin> {112, 99, 105, 97} \<Longrightarrow> run rx_var (c, x # s) = []"
  unfolding rx_var_eq by (auto simp: rx_steps js_eval simp del: run.simps)

lemma var_matches_Nil [simp]: "var_matches b [] = []"
  by (subst var_matches.simps) simp

lemma var_matches_skip:
  "x \<notin> {112, 99, 105, 97} \<or> b = is_word x \<Longrightarrow> var_matches b (x # s) = var_matches (is_word x) s"
  by (subst var_matches.simps) (auto simp: rx_var_other)

lemma var_matches_sep: "var_matches b (js '' + '' @ s) = var_matches False s"
  by (simp add: js_eval var_matches_skip) (simp add: is_word_def is_digit_def)

lemma var_matches_part:
  assumes "v \<in> set price_keys" and "num_ok n" and "s = [] \<or> (\<exists>t. s = js '' + '' @ t)"
  shows "var_matches False (cost_part v n @ s) = [1 \<mapsto> js v, 2 \<mapsto> num_str n] # var_matches False (drop 3 s)"
proof -
  have s: "s = [] \<or> \<not> num_class (hd s)" using assms(3) by (auto simp: js_eval num_class_def is_digit_def)
  obtain ms where h: "run rx_var (Map.empty, cost_part v n @ s) = ([1 \<mapsto> js v, 2 \<mapsto> num_str n], s) # ms"
    using hit_rx_var [OF assms(1,2) s] by (auto simp: hit_def)
  obtain x t where x: "cost_part v n @ s = x # t" "is_word x"
    using assms(1) by (auto simp: price_keys_def cost_part_def js_eval is_word_def)
  have len: "length s < length (cost_part v n @ s)" by (simp add: cost_part_def)
  have "var_matches False (cost_part v n @ s) =
      [1 \<mapsto> js v, 2 \<mapsto> num_str n]
      # var_matches (is_word ((cost_part v n @ s) ! (length (cost_part v n @ s) - length s - 1))) s"
    using h x(2) len unfolding x(1) by (subst var_matches.simps) simp
  also have "var_matches b s = var_matches False (drop 3 s)" for b
    using assms(3) var_matches_sep by (auto simp: js_eval)
  finally show ?thesis .
qed

definition item_caps :: "string \<Rightarrow> jnum \<Rightarrow> caps" where
  "item_caps v n = [1 \<mapsto> js v, 2 \<mapsto> num_str n]"

lemma grp_item [simp]: "grp (item_caps v n) 1 = js v" "grp (item_caps v n) (Suc 0) = js v" "grp (item_caps v n) 2 = num_str n"
  by (simp_all add: grp_def item_caps_def)

definition items_text :: "(string \<times> jnum) list \<Rightarrow> jstr" where
  "items_text vs = join (js '' + '') (map (\<lambda>(v, n). cost_part v n) vs)"

lemma var_matches_items:
  "\<forall>(v, n)\<in>set vs. v \<in> set price_keys \<and> num_ok n \<Longrightarrow>
   var_matches False (items_text vs) = map (\<lambda>(v, n). item_caps v n) vs"
proof (induction vs)
  case Nil
  then show ?case by (simp add: items_text_def)
next
  case (Cons p vs)
  obtain v n where p: "p = (v, n)" by fastforce
  show ?case
  proof (cases vs)
    case Nil
    then show ?thesis using Cons.prems p var_matches_part [of v n "[]", folded item_caps_def] by (simp add: items_text_def)
  next
    case (Cons q us)
    then have "items_text (p # vs) = cost_part v n @ js '' + '' @ items_text vs" using p by (simp add: items_text_def)
    then show ?thesis
      using Cons.IH Cons.prems p var_matches_part [of v n "js '' + '' @ items_text vs", folded item_caps_def] by (simp add: js_eval)
  qed
qed

lemma coefficients_items:
  assumes "\<forall>(v, n)\<in>set vs. v \<in> set price_keys \<and> num_ok n" and "distinct (map fst vs)"
  shows "coefficients (items_text vs) = map (\<lambda>(v, n). (js v, n)) vs"
proof -
  let ?step = "\<lambda>acc c. if grp c 1 \<in> fst ` set acc then acc else acc @ [(grp c 1, to_number (grp c 2))]"
  have "foldl ?step (map (\<lambda>(v, n). (js v, n)) us) (map (\<lambda>(v, n). item_caps v n) vs)
      = map (\<lambda>(v, n). (js v, n)) (us @ vs)"
    if "\<forall>(v, n)\<in>set vs. num_ok n" "distinct (map fst (us @ vs))" for us vs
    using that
  proof (induction vs arbitrary: us)
    case (Cons p vs)
    obtain v n where p: "p = (v, n)" by fastforce
    have "js v \<notin> fst ` set (map (\<lambda>(v, n). (js v, n)) us)" using Cons.prems(2) p by force
    then show ?case
      using Cons.IH [of "us @ [(v, n)]"] Cons.prems p by (simp add: to_number_num_str)
  qed simp
  from this [of vs "[]"] assms show ?thesis
    unfolding coefficients_def var_matches_items [OF assms(1)] by auto
qed

text \<open>The prices of a tier, and those its expression shows: the two base prices, and the others
  that are not zero.\<close>

definition tier_price :: "visual_tier \<Rightarrow> string \<Rightarrow> jnum" where
  "tier_price t k = (if k = ''p'' then vt_input t else if k = ''c'' then vt_output t else tier_cost t k)"

definition tier_items :: "visual_tier \<Rightarrow> (string \<times> jnum) list" where
  "tier_items t = [(''p'', vt_input t), (''c'', vt_output t)]
     @ map (\<lambda>v. (v, tier_cost t v)) (filter (\<lambda>v. tier_cost t v \<noteq> Fin 0) (map snd BILLING_CACHE_VAR_MAP))"

lemma body_items: "tier_nums_ok t \<Longrightarrow> buildTierBodyExpr t = items_text (tier_items t)"
proof -
  have "cost_tail f vs = concat (map (\<lambda>y. js '' + '' @ y)
      (map (\<lambda>(v, n). cost_part v n) (map (\<lambda>v. (v, f v)) (filter (\<lambda>v. f v \<noteq> Fin 0) vs))))" for f vs
    by (induction vs) (simp_all add: cost_tail_def)
  then show "tier_nums_ok t \<Longrightarrow> ?thesis"
    by (simp add: body_text items_text_def tier_items_def join_cons)
qed

lemma tier_items_ok:
  assumes "tier_nums_ok t"
  shows "\<forall>(v, n)\<in>set (tier_items t). v \<in> set price_keys \<and> num_ok n" and "distinct (map fst (tier_items t))"
proof -
  show "\<forall>(v, n)\<in>set (tier_items t). v \<in> set price_keys \<and> num_ok n"
    using assms tier_cost_ok [OF assms] by (auto simp: tier_items_def tier_nums_ok_def price_keys_def cache_vars)
  show "distinct (map fst (tier_items t))"
    by (simp add: tier_items_def cache_vars comp_def)
qed

lemma tier_items_lookup:
  assumes "k \<in> set price_keys" and "tier_nums_ok t"
  shows "num_or_zero (map_of (tier_items t) k) = tier_price t k"
proof -
  have "map_of (map (\<lambda>v. (v, f v)) (filter (\<lambda>v. f v \<noteq> z) vs)) k = (if k \<in> set vs \<and> f k \<noteq> z then Some (f k) else None)"
    for f :: "string \<Rightarrow> jnum" and z vs
    by (induction vs) auto
  moreover have "k = ''p'' \<or> k = ''c'' \<or> k \<in> set (map snd BILLING_CACHE_VAR_MAP)"
    using assms(1) by (auto simp: price_keys_def cache_vars)
  ultimately show ?thesis
    using assms(2) tier_cost_ok [OF assms(2), of k] num_or_zero_lookup [of "tier_cost t k"]
    by (auto simp: tier_items_def tier_price_def tier_nums_ok_def split: if_splits)
qed

lemma parse_body:
  assumes "tier_nums_ok t"
  shows "parseTierBody (buildTierBodyExpr t) = map (\<lambda>(k, f). (f, tier_price t k)) BILLING_VAR_KEY_TO_FIELD"
proof -
  have c: "coefficients (buildTierBodyExpr t) = map (\<lambda>(v, n). (js v, n)) (tier_items t)"
    unfolding body_items [OF assms] by (rule coefficients_items [OF tier_items_ok [OF assms]])
  have m: "map_of (map (\<lambda>(v, n). (js v, n)) vs) (js k) = map_of vs k" for vs :: "(string \<times> jnum) list" and k
    by (induction vs) auto
  have k: "\<forall>p\<in>set BILLING_VAR_KEY_TO_FIELD. fst p \<in> set price_keys" by code_simp
  show ?thesis
    unfolding parseTierBody_def c m
    using k assms by (intro map_cong refl) (auto simp: tier_items_lookup)
qed

definition shown_caps :: "visual_tier \<Rightarrow> caps" where
  "shown_caps t = (if vt_conditions t = [] then Map.empty else [1 \<mapsto> conds_text (vt_conditions t)])
                    (2 \<mapsto> vt_label t, 3 \<mapsto> buildTierBodyExpr t)"

lemma part_no_paren: "v \<in> set price_keys \<Longrightarrow> num_ok n \<Longrightarrow> 41 \<notin> set (cost_part v n)"
proof -
  assume v: "v \<in> set price_keys" and n: "num_ok n"
  have "41 \<notin> set (num_str n)" using num_str_class [OF n] by (auto simp: list_all_iff num_class_def is_digit_def)
  moreover have "41 \<notin> set (js v)" using v by (auto simp: price_keys_def js_eval)
  ultimately show ?thesis by (simp add: cost_part_def js_eval)
qed

lemma body_no_paren:
  assumes "tier_nums_ok t"
  shows "list_all (\<lambda>c. c \<noteq> 41) (buildTierBodyExpr t) \<and> buildTierBodyExpr t \<noteq> []"
proof -
  have "41 \<notin> set (items_text vs)" if "\<forall>(v, n)\<in>set vs. v \<in> set price_keys \<and> num_ok n" for vs
    using that unfolding items_text_def
  proof (induction vs)
    case (Cons p vs)
    obtain v n where p: "p = (v, n)" by fastforce
    with Cons part_no_paren [of v n] show ?case by (cases vs) (auto simp: js_eval)
  qed simp
  from this [OF tier_items_ok(1) [OF assms]] show ?thesis
    using body_items [OF assms] by (auto simp: list_all_iff body_text [OF assms] cost_part_def)
qed

lemma hit_opt_tier_conditions:
  assumes "tier_ok t"
  shows "hit (rx_opt_conditions 1) Map.empty (tier_text t @ e)
           (if vt_conditions t = [] then Map.empty else [1 \<mapsto> conds_text (vt_conditions t)])
           (tier_call (vt_label t) t @ e)"
proof (cases "vt_conditions t = []")
  case True
  have "run (rx_opt_conditions 1) (Map.empty, tier_call (vt_label t) t @ e) = [(Map.empty, tier_call (vt_label t) t @ e)]"
    by (subst (1 2) call_start) (rule opt_conditions_none, simp)
  then show ?thesis using True by (simp add: tier_text_def hit_def)
next
  case False
  have "\<not> is_ws (hd (tier_call (vt_label t) t @ e))" by (simp add: tier_call_def js_eval is_ws_def)
  then show ?thesis
    using False assms hit_opt_conditions [of "vt_conditions t" "tier_call (vt_label t) t @ e" 1 Map.empty]
    by (simp add: tier_text_def tier_ok_def)
qed

interpretation display_scan: tier_scanner rx_display_tier shown_caps
proof
  fix t e
  assume ok: "tier_ok t"
  let ?c = "if vt_conditions t = [] then Map.empty else [1 \<mapsto> conds_text (vt_conditions t)]"
  let ?b = "buildTierBodyExpr t"
  have nums: "tier_nums_ok t" and l: "34 \<notin> set (vt_label t)" using ok by (auto simp: tier_ok_def)
  have call: "tier_call (vt_label t) t @ e = js ''tier('' @ 34 # vt_label t @ 34 # js '', '' @ ?b @ 41 # e"
    by (simp add: tier_call_def js_eval)
  have 1: "hit (rx_label 2) ?c (tier_call (vt_label t) t @ e) (?c(2 \<mapsto> vt_label t)) (?b @ 41 # e)"
    unfolding call using l body_start [OF nums] by (intro hit_label) auto
  have 2: "hit (Cap 3 (Plus (\<lambda>c. c \<noteq> 41))) c (?b @ 41 # e) (c(3 \<mapsto> ?b)) (41 # e)" for c
    using body_no_paren [OF nums] by (intro hit_Cap hit_Plus) auto
  have 3: "hit (Lit (js '')'')) c (41 # e) c e" for c
    using hit_Lit [of "js '')''" c e] by (simp add: js_eval)
  show "hit rx_display_tier Map.empty (tier_text t @ e) (shown_caps t) e"
    unfolding rx_display_tier_def shown_caps_def seqs.simps
    by (intro hit_Seq) (rule hit_opt_tier_conditions [OF ok] 1 2 3)+
next
  fix x s
  assume x: "x \<notin> {112, 99, 108, 116 :: nat}"
  have "miss (Seq (rx_label 2) r) c (x # s)" for r c
    unfolding rx_label_def seqs.simps using x
    by (intro miss_Seq miss_Seq_Lit_None) (auto simp: js_eval)
  then show "miss rx_display_tier Map.empty (x # s)"
    using opt_conditions_none [of x 1 Map.empty s] x by (simp add: rx_display_tier_def miss_def)
qed

lemma display_tail: "exec_scan rx_display_tier [] = None" "exec_scan rx_display_tier (js '' : p * 0 + c * 0'') = None"
  by code_simp+

lemma display_reads:
  assumes "config_ok ts"
  shows "parseTiersFromExpr (generateExprFromVisualConfig (Some ts)) =
    map (\<lambda>t. \<lparr>pd_label = vt_label t, pd_conditions = vt_conditions t,
              pd_prices = map (\<lambda>(k, f). (f, tier_price t k)) BILLING_VAR_KEY_TO_FIELD\<rparr>) ts"
proof -
  let ?g = "generateExprFromVisualConfig (Some ts)"
  have ok: "ts \<noteq> []" "\<forall>t\<in>set ts. tier_ok t" using assms by (auto simp: config_ok_def)
  obtain x s where xs: "?g = x # s" "x \<in> {112, 99, 108, 116}" by (rule generate_head [OF assms]) blast
  then have ne: "?g \<noteq> []" and body: "snd (stripExprVersion ?g) = ?g" using no_version [of x s] by auto
  have e: "exec_all rx_display_tier ?g = map shown_caps ts"
    unfolding generate_text [OF assms] using ok display_tail by (intro display_scan.all_tiers) auto
  have g: "grp (shown_caps t) 1 = conds_text (vt_conditions t)" "grp (shown_caps t) 2 = vt_label t"
    "grp (shown_caps t) 3 = buildTierBodyExpr t" for t
    by (simp_all add: grp_def shown_caps_def)
  show ?thesis
    unfolding parseTiersFromExpr_def if_not_P [OF ne] body e map_map comp_def g
    using ok(2) by (intro map_cong refl) (simp add: parse_conditions_text parse_body tier_ok_def)
qed

text \<open>C16 The two parsers agree: for an expression the editor prints, the price table shows the
  tiers as they were printed, with their labels, conditions and all nine prices: those the editor
  holds, but for the name of a tier without a label, the conditions without a value, and those
  of the last of several tiers, which the printer drops. The tiers are as for C15.\<close>

theorem display_shows_tiers:
  assumes "config_ok (printed_tiers ts)"
  shows "parseTiersFromExpr (generateExprFromVisualConfig (Some ts)) =
    map (\<lambda>t. \<lparr>pd_label = vt_label t, pd_conditions = vt_conditions t,
              pd_prices = map (\<lambda>(k, f). (f, tier_price t k)) BILLING_VAR_KEY_TO_FIELD\<rparr>) (printed_tiers ts)"
  using display_reads [OF assms] by (simp add: generate_printed)

lemma display_shows_tiers_witness:
  "let t = \<lparr>vt_label = js ''x'', vt_conditions = [\<lparr>tc_var = VarLen, tc_op = OpLe, tc_value = NumVal (Fin 200000)\<rparr>],
            vt_input = Fin 3, vt_output = Fin 15, vt_mode = Generic,
            vt_costs = map (\<lambda>(f, _). (f, Fin 0)) BILLING_CACHE_VAR_MAP\<rparr>
   in map pd_label (parseTiersFromExpr (generateExprFromVisualConfig (Some [t]))) = [js ''x'']"
proof -
  let ?t = "\<lparr>vt_label = js ''x'', vt_conditions = [\<lparr>tc_var = VarLen, tc_op = OpLe, tc_value = NumVal (Fin 200000)\<rparr>],
            vt_input = Fin 3, vt_output = Fin 15, vt_mode = Generic,
            vt_costs = map (\<lambda>(f, _). (f, Fin 0)) BILLING_CACHE_VAR_MAP\<rparr>"
  have p: "printed_tiers [?t] = [?t]" by (simp add: printed_tiers_def valued_conditions_def js_eval)
  have "config_ok (printed_tiers [?t])" unfolding p by code_simp
  from display_shows_tiers [OF this] show ?thesis unfolding p by (simp add: Let_def)
qed

end
