(* ===== verification/JsPretty.thy ===== *)
theory JsPretty
  imports JsJson
begin

text \<open>
  What \<open>JSON.stringify(v, null, 2)\<close> prints, \<open>JSON.parse\<close> reads back. A text is \<open>read_as\<close> a value
  when the parser takes it, whatever follows, as soon as its fuel is large enough.
\<close>

definition read_as :: "jstr \<Rightarrow> jsval \<Rightarrow> bool" where
  "read_as t v \<longleftrightarrow> (\<forall>r. num_end r \<longrightarrow> (\<forall>\<^sub>F n in sequentially. pval n (t @ r) = Some (v, r)))"

lemma read_asD: "read_as t v \<Longrightarrow> num_end r \<Longrightarrow> \<forall>\<^sub>F n in sequentially. pval n (t @ r) = Some (v, r)"
  by (simp add: read_as_def)

text \<open>It is enough to know the parser one unit of fuel later.\<close>

lemma eventually_SucI:
  "\<forall>\<^sub>F n in sequentially. P (Suc n) \<Longrightarrow> \<forall>\<^sub>F n in sequentially. P n"
  by (simp add: eventually_sequentially_Suc)

section \<open>White space between tokens\<close>

lemma skip_ws_append: "list_all json_ws w \<Longrightarrow> skip_ws (w @ s) = skip_ws s"
  by (induction w) (auto simp: skip_ws_def)

lemma json_ws_units [simp]: "json_ws 32" "json_ws 10" "\<not> json_ws 34" "\<not> json_ws 44" "\<not> json_ws 58"
    "\<not> json_ws 93" "\<not> json_ws 125"
  by (simp_all add: json_ws_def)

lemma json_ws_replicate [simp]: "list_all json_ws (replicate n 32)"
  by (simp add: list_all_iff)

lemma pval_ws: "list_all json_ws w \<Longrightarrow> pval n (w @ s) = pval n s"
  by (cases n) (simp_all add: skip_ws_append)

lemma parr_ws: "list_all json_ws w \<Longrightarrow> parr n (w @ s) = parr n s"
  by (cases n) (simp_all add: pval_ws)

lemma pobj_ws: "list_all json_ws w \<Longrightarrow> pobj n acc (w @ s) = pobj n acc s"
  by (cases n) (simp_all add: skip_ws_append)

lemma read_as_ws: "read_as t v \<Longrightarrow> list_all json_ws w \<Longrightarrow> read_as (w @ t) v"
  by (simp add: read_as_def pval_ws)

section \<open>Elements and members\<close>

text \<open>The white space before the closing bracket and after a comma.\<close>

definition line_ws :: "jstr \<Rightarrow> bool" where
  "line_ws u \<longleftrightarrow> list_all json_ws u \<and> (u = [] \<or> hd u = 10)"

lemma num_end_line: "line_ws u \<Longrightarrow> num_end (u @ c # r) \<longleftrightarrow> u \<noteq> [] \<or> c \<in> {10, 44, 93, 125}"
  by (cases u) (auto simp: line_ws_def num_end_def)

lemma parr_layout:
  assumes "vs \<noteq> []" and "\<And>v. v \<in> set vs \<Longrightarrow> read_as (f v) v"
    and "list_all json_ws w" and "line_ws u"
  shows "\<forall>\<^sub>F n in sequentially. parr n (join (44 # w) (map f vs) @ u @ 93 # r) = Some (vs, r)"
  using assms(1,2)
proof (induction vs rule: list_nonempty_induct)
  case (single v)
  have "skip_ws (u @ 93 # r) = 93 # r"
    using assms(4) by (simp add: line_ws_def skip_ws_append)
  moreover have "\<forall>\<^sub>F n in sequentially. pval n (f v @ u @ 93 # r) = Some (v, u @ 93 # r)"
    using single assms(4) by (intro read_asD) (simp_all add: num_end_line)
  ultimately have "\<forall>\<^sub>F n in sequentially. parr (Suc n) (f v @ u @ 93 # r) = Some ([v], r)"
    by (auto elim!: eventually_mono simp del: pval.simps)
  then show ?case by - (rule eventually_SucI, simp)
next
  case (cons v vs)
  let ?rest = "join (44 # w) (map f vs) @ u @ 93 # r"
  have "\<forall>\<^sub>F n in sequentially. pval n (f v @ 44 # w @ ?rest) = Some (v, 44 # w @ ?rest)"
    using cons by (intro read_asD) (simp_all add: num_end_def)
  moreover have "\<forall>\<^sub>F n in sequentially. parr n ?rest = Some (vs, r)" using cons by simp
  ultimately have "\<forall>\<^sub>F n in sequentially. parr (Suc n) (f v @ 44 # w @ ?rest) = Some (v # vs, r)"
    by eventually_elim (simp add: parr_ws [OF assms(3)])
  then show ?case using cons.hyps by - (rule eventually_SucI, simp add: join_Cons del: parr.simps)
qed

text \<open>A member is its name, a colon, white space and its value.\<close>

definition member_text :: "jstr \<Rightarrow> jstr \<Rightarrow> (jsval \<Rightarrow> jstr) \<Rightarrow> jstr \<times> jsval \<Rightarrow> jstr" where
  "member_text w w' f p = w @ json_quote (fst p) @ 58 # w' @ f (snd p)"

lemma pobj_layout:
  assumes "ps \<noteq> []" and "\<And>p. p \<in> set ps \<Longrightarrow> units_ok (fst p) \<and> read_as (f (snd p)) (snd p)"
    and "distinct (map fst (acc @ ps))"
    and "list_all json_ws w" and "list_all json_ws w'" and "list_all json_ws z" and "line_ws u"
  shows "\<forall>\<^sub>F n in sequentially.
           pobj n acc (join (44 # z) (map (member_text w w' f) ps) @ u @ 125 # r) = Some (acc @ ps, r)"
  using assms(1,2,3)
proof (induction ps arbitrary: acc rule: list_nonempty_induct)
  case (single p)
  obtain k v where p: "p = (k, v)" by fastforce
  have "\<forall>\<^sub>F n in sequentially. pval n (f v @ u @ 125 # r) = Some (v, u @ 125 # r)"
    using single p assms(7) by (intro read_asD) (auto simp: num_end_line)
  moreover have "skip_ws (u @ 125 # r) = 125 # r"
    using assms(7) by (simp add: line_ws_def skip_ws_append)
  moreover have "obj_put k v acc = acc @ [(k, v)]" using single(2) p by (simp add: obj_put_fresh)
  ultimately have "\<forall>\<^sub>F n in sequentially.
      pobj (Suc n) acc (member_text w w' f p @ u @ 125 # r) = Some (acc @ [p], r)"
    using p single(1) [of p] pval_ws [OF assms(5)] skip_ws_append [OF assms(4)]
    by (elim eventually_mono)
      (simp add: member_text_def json_quote_def pstr_quote_body del: pval.simps)
  then show ?case by - (rule eventually_SucI, simp)
next
  case (cons p ps)
  obtain k v where p: "p = (k, v)" by fastforce
  let ?rest = "join (44 # z) (map (member_text w w' f) ps) @ u @ 125 # r"
  have put: "obj_put k v acc = acc @ [(k, v)]" and k: "units_ok k"
    using cons.prems(1) [of p] cons.prems(2) p by (simp_all add: obj_put_fresh)
  have "\<forall>\<^sub>F n in sequentially. pval n (f v @ 44 # z @ ?rest) = Some (v, 44 # z @ ?rest)"
    using cons.prems(1) [of p] p by (intro read_asD) (simp_all add: num_end_def)
  moreover have "\<forall>\<^sub>F n in sequentially. pobj n (acc @ [(k, v)]) ?rest = Some ((acc @ [(k, v)]) @ ps, r)"
    using cons.prems p by (intro cons.IH) auto
  ultimately have "\<forall>\<^sub>F n in sequentially.
      pobj (Suc n) acc (member_text w w' f p @ 44 # z @ ?rest) = Some (acc @ p # ps, r)"
    by eventually_elim
      (simp add: p put k pval_ws [OF assms(5)] skip_ws_append [OF assms(4)] pobj_ws [OF assms(6)]
         member_text_def json_quote_def pstr_quote_body del: pval.simps)
  then show ?case using cons.hyps by - (rule eventually_SucI, simp add: join_Cons del: pobj.simps)
qed

section \<open>The printer with indentation\<close>

lemma pretty_obj_wf:
  assumes "own_entries ps = ps" "ps \<noteq> []"
  shows "pretty n (JObj ps) = 123 # 10 # join (44 # [10])
           (map (member_text (replicate (n + 2) 32) [32] (pretty (n + 2))) ps) @ (10 # replicate n 32) @ [125]"
  using own_entries_map [of "\<lambda>k v. replicate (n + 2) 32 @ json_quote k @ 58 # 32 # pretty (n + 2) v" ps] assms
  by (simp add: own_values_def member_text_def [abs_def] comp_def case_prod_unfold)

lemma read_as_stringify: "json_wf v \<Longrightarrow> read_as (stringify v) v"
  unfolding read_as_def by (auto intro!: pval_stringify eventually_sequentiallyI)

lemma join_ws_start:
  assumes "xs \<noteq> []" "hd xs = w @ c # s" "list_all json_ws w" "\<not> json_ws c"
  shows "\<exists>s'. skip_ws (join sep xs @ r) = c # s'"
  using assms by (cases xs; cases "tl xs") (auto simp: skip_ws_append)

lemma pretty_start:
  assumes "json_wf v"
  shows "\<exists>c s. pretty n v = c # s \<and> val_start c"
proof (cases v)
  case (JArr vs)
  then show ?thesis by (auto simp: val_start_def js_eval)
next
  case (JObj ps)
  then show ?thesis by (auto simp: val_start_def js_eval)
qed (simp_all only: pretty.simps, (metis assms stringify_start)+)

lemma read_as_bracket:
  assumes "\<And>r. num_end r \<Longrightarrow> \<forall>\<^sub>F n in sequentially. pval (Suc n) (t @ r) = Some (v, r)"
  shows "read_as t v"
  unfolding read_as_def by (intro allI impI, rule eventually_SucI, rule assms)

lemma read_as_pretty: "json_wf v \<Longrightarrow> read_as (pretty n v) v"
proof (induction v arbitrary: n)
  case (JArr vs)
  show ?case
  proof (cases "vs = []")
    case True
    then show ?thesis by (intro read_as_bracket) (simp add: js_eval json_ws_def)
  next
    case False
    let ?f = "\<lambda>v. replicate (n + 2) 32 @ pretty (n + 2) v"
    let ?T = "\<lambda>r. join (44 # [10]) (map ?f vs) @ (10 # replicate n 32) @ 93 # r"
    have "read_as (?f v) v" if "v \<in> set vs" for v
      using JArr that by (intro read_as_ws) auto
    then have parr: "\<forall>\<^sub>F m in sequentially. parr m (?T r) = Some (vs, r)" for r
      using False by (intro parr_layout) (auto simp: line_ws_def json_ws_def list_all_iff)
    obtain c s where cs: "pretty (n + 2) (hd vs) = c # s" "val_start c"
      using pretty_start [of "hd vs"] JArr.prems False by (cases vs) (auto, blast)
    have c: "\<not> json_ws c" "c \<noteq> 93" using val_start_facts [OF cs(2)] by auto
    have "\<exists>s'. skip_ws (?T r) = c # s'" for r
      using False cs c by (intro join_ws_start [of _ "replicate (n + 2) 32" c s]) (auto simp: hd_map)
    then obtain s' where s': "\<And>r. skip_ws (?T r) = c # s' r" by metis
    have "parr m (c # s' r) = parr m (?T r)" for m r
    proof -
      have "?T r = takeWhile json_ws (?T r) @ c # s' r"
        using s' [of r] unfolding skip_ws_def by (metis takeWhile_dropWhile_id)
      then show ?thesis using parr_ws [of "takeWhile json_ws (?T r)" m "c # s' r"]
        by (metis list_all_iff set_takeWhileD)
    qed
    with parr have "\<forall>\<^sub>F m in sequentially. parr m (c # s' r) = Some (vs, r)" for r by simp
    moreover have "skip_ws (10 # ?T r) = c # s' r" for r
      using s' [of r] by (simp add: skip_ws_def json_ws_def)
    ultimately have "\<forall>\<^sub>F m in sequentially. pval (Suc m) (91 # 10 # ?T r) = Some (JArr vs, r)" for r
      using c by (auto simp: json_ws_def elim!: eventually_mono)
    then show ?thesis using False by (intro read_as_bracket) simp
  qed
next
  case (JObj ps)
  show ?case
  proof (cases "ps = []")
    case True
    then show ?thesis by (intro read_as_bracket) (simp add: js_eval json_ws_def)
  next
    case False
    let ?f = "member_text (replicate (n + 2) 32) [32] (pretty (n + 2))"
    let ?T = "\<lambda>r. join (44 # [10]) (map ?f ps) @ (10 # replicate n 32) @ 125 # r"
    have pobj: "\<forall>\<^sub>F m in sequentially. pobj m [] (?T r) = Some ([] @ ps, r)" for r
      using False JObj by (intro pobj_layout) (auto simp: line_ws_def json_ws_def list_all_iff)
    obtain s where s: "hd (map ?f ps) = replicate (n + 2) 32 @ 34 # s"
      using False by (cases ps) (auto simp: member_text_def json_quote_def)
    have "\<exists>s'. skip_ws (?T r) = 34 # s'" for r
      using False s by (intro join_ws_start [of _ "replicate (n + 2) 32" 34 s]) (auto simp: json_ws_def)
    then obtain s' where s': "\<And>r. skip_ws (?T r) = 34 # s' r" by metis
    have "pobj m [] (34 # s' r) = pobj m [] (?T r)" for m r
    proof -
      have "?T r = takeWhile json_ws (?T r) @ 34 # s' r"
        using s' [of r] unfolding skip_ws_def by (metis takeWhile_dropWhile_id)
      then show ?thesis using pobj_ws [of "takeWhile json_ws (?T r)" m "[]" "34 # s' r"]
        by (metis list_all_iff set_takeWhileD)
    qed
    with pobj have "\<forall>\<^sub>F m in sequentially. pobj m [] (34 # s' r) = Some (ps, r)" for r by simp
    moreover have "skip_ws (10 # ?T r) = 34 # s' r" for r
      using s' [of r] by (simp add: skip_ws_def json_ws_def)
    ultimately have "\<forall>\<^sub>F m in sequentially. pval (Suc m) (123 # 10 # ?T r) = Some (JObj ps, r)" for r
      by (auto simp: json_ws_def elim!: eventually_mono)
    then show ?thesis using False JObj.prems
      by (intro read_as_bracket) (simp add: pretty_obj_wf del: pretty.simps)
  qed
qed (simp_all add: read_as_stringify del: stringify.simps)

theorem json_parse_pretty: "json_wf v \<Longrightarrow> json_parse (pretty n v) = Some v"
proof -
  assume "json_wf v"
  then have "\<forall>\<^sub>F m in sequentially. pval m (pretty n v) = Some (v, [])"
    using read_asD [OF read_as_pretty, of v "[]" n] by (simp add: num_end_def)
  then obtain N where N: "\<And>m. N \<le> m \<Longrightarrow> pval m (pretty n v) = Some (v, [])"
    by (auto simp: eventually_sequentially)
  let ?m = "max N (Suc (2 * length (pretty n v)))"
  have "pval (Suc (2 * length (pretty n v))) (pretty n v) = Some (v, [])"
    using N [of ?m] pval_fuel [of "pretty n v" ?m] by simp
  then show ?thesis by (simp add: json_parse_def skip_ws_def)
qed

end
