(* ===== verification/ParamOverride.thy ===== *)
theory ParamOverride
  imports JsPretty
begin

text \<open>
  The editor of parameter overrides
  (\<open>features/channels/components/dialogs/param-override-editor-dialog.tsx\<close>), its functions:
  the rules it edits, the JSON texts they are read from and printed to, and the drafts of the
  two structured values. An identifier is made of the time and a counter of the module, so
  every function that makes one takes the counter and returns its new value; \<open>clk n\<close> is the time
  at the \<open>n\<close>-th identifier. Reading a property of \<open>null\<close> throws, which is \<open>None\<close>.
\<close>

section \<open>Identifiers\<close>

definition nextLocalId :: "(nat \<Rightarrow> nat) \<Rightarrow> nat \<Rightarrow> jstr" where
  "nextLocalId clk n = js ''po_'' @ nat_str (clk n) @ 95 # nat_str n"

type_synonym 'a gen = "nat \<Rightarrow> 'a option \<times> nat"

text \<open>\<open>xs.map(f)\<close> with a function that takes identifiers and may throw.\<close>

fun gen_map :: "('a \<Rightarrow> 'b gen) \<Rightarrow> 'a list \<Rightarrow> 'b list gen" where
  "gen_map f [] n = (Some [], n)"
| "gen_map f (x # xs) n =
     (case f x n of
        (None, n') \<Rightarrow> (None, n')
      | (Some y, n') \<Rightarrow> (case gen_map f xs n' of (r, n'') \<Rightarrow> (map_option ((#) y) r, n'')))"

section \<open>Rules and their modes\<close>

record override_condition =
  cond_id :: jstr
  cond_path :: jstr
  cond_mode :: jstr
  cond_value_text :: jstr
  cond_invert :: bool
  cond_pass_missing_key :: bool

record override_operation =
  op_id :: jstr
  op_description :: jstr
  op_path :: jstr
  op_mode :: jstr
  op_from :: jstr
  op_to :: jstr
  op_value_text :: jstr
  op_keep_origin :: bool
  op_logic :: jstr
  op_conditions :: "override_condition list"

definition OPERATION_MODE_VALUES :: "string list" where
  "OPERATION_MODE_VALUES =
     [''set'', ''delete'', ''append'', ''prepend'', ''copy'', ''move'', ''replace'', ''regex_replace'',
      ''trim_prefix'', ''trim_suffix'', ''ensure_prefix'', ''ensure_suffix'', ''trim_space'',
      ''to_lower'', ''to_upper'', ''return_error'', ''prune_objects'', ''pass_headers'',
      ''sync_fields'', ''set_header'', ''delete_header'', ''copy_header'', ''move_header'']"

definition CONDITION_MODE_VALUES :: "string list" where
  "CONDITION_MODE_VALUES =
     [''full'', ''prefix'', ''suffix'', ''contains'', ''gt'', ''gte'', ''lt'', ''lte'']"

definition has_mode :: "string list \<Rightarrow> jstr \<Rightarrow> bool" where
  "has_mode ms m \<longleftrightarrow> m \<in> set (map js ms)"

text \<open>The fields a mode has; \<open>to: false\<close> of two entries is the same as no entry.\<close>

datatype meta_field = MPath | MPathOptional | MValue | MFrom | MTo | MKeepOrigin | MPathAlias

definition MODE_META :: "(string \<times> meta_field list) list" where
  "MODE_META =
     [(''delete'', [MPath]), (''set'', [MPath, MValue, MKeepOrigin]),
      (''append'', [MPath, MValue, MKeepOrigin]), (''prepend'', [MPath, MValue, MKeepOrigin]),
      (''copy'', [MFrom, MTo]), (''move'', [MFrom, MTo]),
      (''replace'', [MPath, MFrom]), (''regex_replace'', [MPath, MFrom]),
      (''trim_prefix'', [MPath, MValue]), (''trim_suffix'', [MPath, MValue]),
      (''ensure_prefix'', [MPath, MValue]), (''ensure_suffix'', [MPath, MValue]),
      (''trim_space'', [MPath]), (''to_lower'', [MPath]), (''to_upper'', [MPath]),
      (''return_error'', [MValue]), (''prune_objects'', [MPathOptional, MValue]),
      (''pass_headers'', [MValue, MKeepOrigin]), (''sync_fields'', [MFrom, MTo]),
      (''set_header'', [MPath, MValue, MKeepOrigin]), (''delete_header'', [MPath]),
      (''copy_header'', [MFrom, MTo, MKeepOrigin, MPathAlias]),
      (''move_header'', [MFrom, MTo, MKeepOrigin, MPathAlias])]"

text \<open>\<open>MODE_META[mode] || MODE_META.set\<close>; a mode is one of the options, never the name of a
  property every object inherits.\<close>

definition mode_meta :: "jstr \<Rightarrow> meta_field list" where
  "mode_meta mode =
     (case map_of (map (\<lambda>(k, v). (js k, v)) MODE_META) mode of
        Some fs \<Rightarrow> fs | None \<Rightarrow> [MPath, MValue, MKeepOrigin])"

definition VALUE_REQUIRED_MODES :: "string list" where
  "VALUE_REQUIRED_MODES =
     [''trim_prefix'', ''trim_suffix'', ''ensure_prefix'', ''ensure_suffix'', ''set_header'',
      ''return_error'', ''prune_objects'', ''pass_headers'']"

definition FROM_REQUIRED_MODES :: "string list" where
  "FROM_REQUIRED_MODES =
     [''copy'', ''move'', ''replace'', ''regex_replace'', ''copy_header'', ''move_header'', ''sync_fields'']"

definition TO_REQUIRED_MODES :: "string list" where
  "TO_REQUIRED_MODES = [''copy'', ''move'', ''copy_header'', ''move_header'', ''sync_fields'']"

section \<open>Values as texts\<close>

definition toValueText :: "jsval option \<Rightarrow> jstr" where
  "toValueText v = (case v of None \<Rightarrow> [] | Some (JStr s) \<Rightarrow> s | Some x \<Rightarrow> stringify x)"

definition parseLooseValue :: "jstr \<Rightarrow> jsval" where
  "parseLooseValue valueText =
     (let raw = trim valueText
      in if raw = [] then JStr []
         else case json_parse raw of Some v \<Rightarrow> v | None \<Rightarrow> JStr raw)"

definition verifyJSON :: "jstr \<Rightarrow> bool" where
  "verifyJSON s \<longleftrightarrow> json_parse s \<noteq> None"

section \<open>Reading conditions and operations\<close>

text \<open>\<open>typeof v.k === 'string' ? v.k : ''\<close> and \<open>v.k === true\<close>.\<close>

definition str_prop :: "jsval \<Rightarrow> string \<Rightarrow> jstr" where
  "str_prop v k = (case as_str (get_prop v k) of Some s \<Rightarrow> s | None \<Rightarrow> [])"

definition true_prop :: "jsval \<Rightarrow> string \<Rightarrow> bool" where
  "true_prop v k \<longleftrightarrow> get_prop v k = Some (JBool True)"

definition mode_prop :: "string list \<Rightarrow> string \<Rightarrow> jsval \<Rightarrow> jstr" where
  "mode_prop ms d v =
     (case as_str (get_prop v ''mode'') of
        Some m \<Rightarrow> if has_mode ms m then m else js d
      | None \<Rightarrow> js d)"

definition condition_of :: "jstr \<Rightarrow> jsval \<Rightarrow> override_condition" where
  "condition_of i v =
     \<lparr>cond_id = i, cond_path = str_prop v ''path'',
      cond_mode = mode_prop CONDITION_MODE_VALUES ''full'' v,
      cond_value_text = toValueText (get_prop v ''value''),
      cond_invert = true_prop v ''invert'',
      cond_pass_missing_key = true_prop v ''pass_missing_key''\<rparr>"

definition normalizeCondition_override :: "(nat \<Rightarrow> nat) \<Rightarrow> jsval \<Rightarrow> override_condition gen" where
  "normalizeCondition_override clk v n =
     (if v = JNull then None else Some (condition_of (nextLocalId clk n) v), Suc n)"

definition createDefaultCondition :: "(nat \<Rightarrow> nat) \<Rightarrow> nat \<Rightarrow> override_condition \<times> nat" where
  "createDefaultCondition clk n = (condition_of (nextLocalId clk n) (JObj []), Suc n)"

text \<open>\<open>v || d\<close> as a string.\<close>

definition str_or :: "jsval option \<Rightarrow> jstr \<Rightarrow> jstr" where
  "str_or v d = (case v of Some x \<Rightarrow> if truthy x then to_str x else d | None \<Rightarrow> d)"

definition operation_of :: "jstr \<Rightarrow> override_condition list \<Rightarrow> jsval \<Rightarrow> override_operation" where
  "operation_of i cs v =
     \<lparr>op_id = i, op_description = str_prop v ''description'', op_path = str_prop v ''path'',
      op_mode = mode_prop OPERATION_MODE_VALUES ''set'' v,
      op_from = str_prop v ''from'', op_to = str_prop v ''to'',
      op_value_text = toValueText (get_prop v ''value''),
      op_keep_origin = true_prop v ''keep_origin'',
      op_logic = (if upper_ascii (str_or (get_prop v ''logic'') (js ''OR'')) = js ''AND''
                  then js ''AND'' else js ''OR''),
      op_conditions = cs\<rparr>"

definition normalizeOperation :: "(nat \<Rightarrow> nat) \<Rightarrow> jsval \<Rightarrow> override_operation gen" where
  "normalizeOperation clk v n =
     (if v = JNull then (None, Suc n)
      else case get_prop v ''conditions'' of
             Some (JArr vs) \<Rightarrow>
               (case gen_map (normalizeCondition_override clk) vs (Suc n) of
                  (r, n') \<Rightarrow> (map_option (\<lambda>cs. operation_of (nextLocalId clk n) cs v) r, n'))
           | _ \<Rightarrow> (Some (operation_of (nextLocalId clk n) [] v), Suc n))"

definition createDefaultOperation :: "(nat \<Rightarrow> nat) \<Rightarrow> nat \<Rightarrow> override_operation \<times> nat" where
  "createDefaultOperation clk n =
     (operation_of (nextLocalId clk n) [] (JObj [(js ''mode'', JStr (js ''set''))]), Suc n)"

section \<open>Order of the rules\<close>

datatype drop_position = Before | After

fun find_index :: "('a \<Rightarrow> bool) \<Rightarrow> 'a list \<Rightarrow> nat option" where
  "find_index P [] = None"
| "find_index P (x # xs) = (if P x then Some 0 else map_option Suc (find_index P xs))"

definition reorderOperations ::
    "override_operation list \<Rightarrow> jstr \<Rightarrow> jstr \<Rightarrow> drop_position \<Rightarrow> override_operation list" where
  "reorderOperations ops sourceId targetId position =
     (if sourceId = [] \<or> targetId = [] \<or> sourceId = targetId then ops
      else case find_index (\<lambda>o1. op_id o1 = sourceId) ops of
             None \<Rightarrow> ops
           | Some i \<Rightarrow>
               let rest = take i ops @ drop (Suc i) ops
               in case find_index (\<lambda>o1. op_id o1 = targetId) rest of
                    None \<Rightarrow> ops
                  | Some j \<Rightarrow>
                      let k = (if position = After then j + 1 else j)
                      in take k rest @ [ops ! i] @ drop k rest)"

definition isOperationBlank :: "override_operation \<Rightarrow> bool" where
  "isOperationBlank op \<longleftrightarrow>
     op_mode op = js ''set'' \<and> trim (op_path op) = [] \<and> trim (op_from op) = [] \<and> trim (op_to op) = []
     \<and> trim (op_value_text op) = [] \<and> \<not> op_keep_origin op
     \<and> \<not> list_ex (\<lambda>c. trim (cond_path c) \<noteq> [] \<or> trim (cond_value_text c) \<noteq> []
                     \<or> cond_mode c \<noteq> js ''full'' \<or> cond_invert c \<or> cond_pass_missing_key c)
           (op_conditions op)"

section \<open>Targets of synchronised fields\<close>

definition parseSyncTargetSpec :: "jstr \<Rightarrow> jstr \<times> jstr" where
  "parseSyncTargetSpec spec =
     (let raw = trim spec
      in if raw = [] then (js ''json'', [])
         else case index_of [58] raw of
                None \<Rightarrow> (js ''json'', raw)
              | Some idx \<Rightarrow>
                  (if lower_ascii (trim (take idx raw)) = js ''header'' then js ''header''
                   else js ''json'', trim (drop (idx + 1) raw)))"

definition buildSyncTargetSpec :: "jstr \<Rightarrow> jstr \<Rightarrow> jstr" where
  "buildSyncTargetSpec ty key =
     (let k = trim key
      in if k = [] then []
         else (if ty = js ''header'' then js ''header'' else js ''json'') @ 58 # k)"

section \<open>The draft of a custom error\<close>

record return_error_draft =
  red_message :: jstr
  red_statusCode :: jnum
  red_code :: jstr
  red_type :: jstr
  red_skipRetry :: bool
  red_simpleMode :: bool

definition default_error_draft :: return_error_draft where
  "default_error_draft =
     \<lparr>red_message = [], red_statusCode = Fin 400, red_code = [], red_type = [],
      red_skipRetry = True, red_simpleMode = True\<rparr>"

text \<open>A status an answer can carry; any other becomes 400.\<close>

definition error_status :: "jnum \<Rightarrow> jnum" where
  "error_status x = (if isInteger x \<and> num_le (Fin 100) x \<and> num_le x (Fin 599) then x else Fin 400)"

definition parseReturnErrorDraft :: "jstr \<Rightarrow> return_error_draft" where
  "parseReturnErrorDraft valueText =
     (let raw = trim valueText
      in if raw = [] then default_error_draft
         else case json_parse raw of
                Some (JObj ps) \<Rightarrow>
                  (let v = JObj ps;
                       statusRaw = (case get_prop v ''status_code'' of
                                      Some x \<Rightarrow> Some x | None \<Rightarrow> get_prop v ''status'');
                       statusValue = (case statusRaw of Some x \<Rightarrow> js_number x | None \<Rightarrow> NaN)
                   in \<lparr>red_message = trim (str_or (get_prop v ''message'') (str_or (get_prop v ''msg'') [])),
                       red_statusCode = error_status statusValue,
                       red_code = trim (str_or (get_prop v ''code'') []),
                       red_type = trim (str_or (get_prop v ''type'') []),
                       red_skipRetry = (get_prop v ''skip_retry'' \<noteq> Some (JBool False)),
                       red_simpleMode = False\<rparr>)
              | _ \<Rightarrow> default_error_draft\<lparr>red_message := raw, red_simpleMode := True\<rparr>)"

text \<open>\<open>payload.k = v\<close>, unconditionally and under a condition.\<close>

definition set_prop :: "string \<Rightarrow> jsval \<Rightarrow> (jstr \<times> jsval) list \<Rightarrow> (jstr \<times> jsval) list" where
  "set_prop k v ps = obj_put (js k) v ps"

definition set_prop_if :: "bool \<Rightarrow> string \<Rightarrow> jsval \<Rightarrow> (jstr \<times> jsval) list \<Rightarrow> (jstr \<times> jsval) list" where
  "set_prop_if b k v ps = (if b then set_prop k v ps else ps)"

definition buildReturnErrorValueText :: "return_error_draft \<Rightarrow> jstr" where
  "buildReturnErrorValueText d =
     (let message = trim (red_message d)
      in if red_simpleMode d then message
         else let code = trim (red_code d); ty = trim (red_type d);
                  p0 = [(js ''message'', JStr message),
                        (js ''status_code'', JNum (error_status (red_statusCode d)))];
                  p1 = set_prop_if (code \<noteq> []) ''code'' (JStr code) p0;
                  p2 = set_prop_if (ty \<noteq> []) ''type'' (JStr ty) p1;
                  p3 = set_prop_if (\<not> red_skipRetry d) ''skip_retry'' (JBool False) p2
              in stringify (JObj p3))"

section \<open>The draft of a pruning\<close>

text \<open>A prune rule has the fields of a condition.\<close>

type_synonym prune_rule = override_condition

record prune_objects_draft =
  pod_simpleMode :: bool
  pod_typeText :: jstr
  pod_logic :: jstr
  pod_recursive :: bool
  pod_rules :: "prune_rule list"

definition default_prune_draft :: prune_objects_draft where
  "default_prune_draft =
     \<lparr>pod_simpleMode = True, pod_typeText = [], pod_logic = js ''AND'', pod_recursive = True,
      pod_rules = []\<rparr>"

definition normalizePruneRule :: "(nat \<Rightarrow> nat) \<Rightarrow> jsval \<Rightarrow> nat \<Rightarrow> prune_rule \<times> nat" where
  "normalizePruneRule clk v n = (condition_of (nextLocalId clk n) v, Suc n)"

text \<open>The values the loops of \<open>parsePruneObjectsDraft\<close> make a rule of, in their order: each
  property of an object is an exact match, each object in a list a rule.\<close>

definition is_object_value :: "jsval \<Rightarrow> bool" where
  "is_object_value v \<longleftrightarrow> (case v of JObj _ \<Rightarrow> True | JArr _ \<Rightarrow> True | _ \<Rightarrow> False)"

definition entry_rules :: "(jstr \<times> jsval) list \<Rightarrow> jsval list" where
  "entry_rules ps =
     map (\<lambda>(k, v). JObj [(js ''path'', JStr k), (js ''mode'', JStr (js ''full'')), (js ''value'', v)])
       (own_entries ps)"

definition where_rules :: "jsval \<Rightarrow> jsval list" where
  "where_rules v = (case get_prop v ''where'' of Some (JObj ps) \<Rightarrow> entry_rules ps | _ \<Rightarrow> [])"

definition condition_rules :: "jsval \<Rightarrow> jsval list" where
  "condition_rules v =
     (case get_prop v ''conditions'' of
        Some (JArr vs) \<Rightarrow> filter is_object_value vs
      | Some (JObj ps) \<Rightarrow> entry_rules ps
      | _ \<Rightarrow> [])"

fun number_rules :: "(nat \<Rightarrow> nat) \<Rightarrow> jsval list \<Rightarrow> nat \<Rightarrow> prune_rule list \<times> nat" where
  "number_rules clk [] n = ([], n)"
| "number_rules clk (v # vs) n =
     (case normalizePruneRule clk v n of (r, n1) \<Rightarrow>
        (case number_rules clk vs n1 of (rs, n2) \<Rightarrow> (r # rs, n2)))"

definition parsePruneObjectsDraft :: "(nat \<Rightarrow> nat) \<Rightarrow> jstr \<Rightarrow> nat \<Rightarrow> prune_objects_draft \<times> nat" where
  "parsePruneObjectsDraft clk valueText n =
     (let raw = trim valueText
      in if raw = [] then (default_prune_draft, n)
         else case json_parse raw of
                None \<Rightarrow> (default_prune_draft\<lparr>pod_typeText := raw\<rparr>, n)
              | Some (JStr s) \<Rightarrow> (default_prune_draft\<lparr>pod_typeText := trim s\<rparr>, n)
              | Some (JObj ps) \<Rightarrow>
                  (let v = JObj ps;
                       (rules, n') = number_rules clk (where_rules v @ condition_rules v) n
                   in (\<lparr>pod_simpleMode = (get_prop v ''logic'' = None \<and> get_prop v ''recursive'' = None
                           \<and> get_prop v ''where'' = None \<and> get_prop v ''conditions'' = None),
                        pod_typeText = (case get_prop v ''type'' of None \<Rightarrow> [] | Some x \<Rightarrow> trim (to_str x)),
                        pod_logic = (if upper_ascii (str_or (get_prop v ''logic'') (js ''AND'')) = js ''OR''
                                     then js ''OR'' else js ''AND''),
                        pod_recursive = (get_prop v ''recursive'' \<noteq> Some (JBool False)),
                        pod_rules = rules\<rparr>, n'))
              | Some JNull \<Rightarrow> (default_prune_draft, n)
              | Some x \<Rightarrow> (default_prune_draft\<lparr>pod_typeText := trim (to_str x)\<rparr>, n))"

definition prune_rule_payload :: "prune_rule \<Rightarrow> jsval" where
  "prune_rule_payload r =
     (let valueRaw = trim (cond_value_text r);
          p0 = [(js ''path'', JStr (trim (cond_path r))),
                (js ''mode'', JStr (if has_mode CONDITION_MODE_VALUES (cond_mode r) then cond_mode r
                                   else js ''full''))];
          p1 = set_prop_if (valueRaw \<noteq> []) ''value'' (parseLooseValue valueRaw) p0;
          p2 = set_prop_if (cond_invert r) ''invert'' (JBool True) p1
      in JObj (set_prop_if (cond_pass_missing_key r) ''pass_missing_key'' (JBool True) p2))"

definition buildPruneObjectsValueText :: "prune_objects_draft \<Rightarrow> jstr" where
  "buildPruneObjectsValueText d =
     (let typeText = trim (pod_typeText d)
      in if pod_simpleMode d then typeText
         else let logic = (if pod_logic d = [] then js ''AND'' else pod_logic d);
                  conditions = map prune_rule_payload (filter (\<lambda>r. trim (cond_path r) \<noteq> []) (pod_rules d));
                  p1 = set_prop_if (typeText \<noteq> []) ''type'' (JStr typeText) [];
                  p2 = set_prop_if (upper_ascii logic = js ''OR'') ''logic'' (JStr (js ''OR'')) p1;
                  p3 = set_prop_if (\<not> pod_recursive d) ''recursive'' (JBool False) p2;
                  p4 = set_prop_if (conditions \<noteq> []) ''conditions'' (JArr conditions) p3
              in if typeText = [] \<and> conditions = [] then stringify (JObj [(js ''logic'', JStr (js ''AND''))])
                 else stringify (JObj p4))"

section \<open>Names of headers\<close>

definition name_of :: "jsval \<Rightarrow> jstr" where
  "name_of v = trim (if v = JNull then [] else to_str v)"

definition parsePassHeaderNames :: "jsval \<Rightarrow> jstr list" where
  "parsePassHeaderNames v =
     (case v of
        JArr vs \<Rightarrow> filter (\<lambda>s. s \<noteq> []) (map name_of vs)
      | JObj ps \<Rightarrow>
          (case get_prop v ''headers'' of
             Some (JArr vs) \<Rightarrow> filter (\<lambda>s. s \<noteq> []) (map name_of vs)
           | _ \<Rightarrow> (case get_prop v ''header'' of
                     None \<Rightarrow> []
                   | Some x \<Rightarrow> if name_of x = [] then [] else [name_of x]))
      | JStr s \<Rightarrow> filter (\<lambda>s. s \<noteq> []) (map trim (split_str [44] s))
      | _ \<Rightarrow> [])"

section \<open>Payloads\<close>

definition buildConditionPayload :: "override_condition \<Rightarrow> jsval option" where
  "buildConditionPayload c =
     (let path = trim (cond_path c)
      in if path = [] then None
         else let p0 = [(js ''path'', JStr path),
                        (js ''mode'', JStr (if cond_mode c = [] then js ''full'' else cond_mode c)),
                        (js ''value'', parseLooseValue (cond_value_text c))];
                  p1 = set_prop_if (cond_invert c) ''invert'' (JBool True) p0
              in Some (JObj (set_prop_if (cond_pass_missing_key c) ''pass_missing_key'' (JBool True) p1)))"

definition mode_of :: "override_operation \<Rightarrow> jstr" where
  "mode_of op = (if op_mode op = [] then js ''set'' else op_mode op)"

text \<open>A field of the payload, read back: empty when it is absent or an empty string.\<close>

definition empty_prop :: "string \<Rightarrow> (jstr \<times> jsval) list \<Rightarrow> bool" where
  "empty_prop k ps \<longleftrightarrow> \<not> truthy_opt (map_of ps (js k))"

definition operation_payload :: "override_operation \<Rightarrow> jsval" where
  "operation_payload op =
     (let meta = set (mode_meta (mode_of op));
          descr = trim (op_description op); path = trim (op_path op);
          source = trim (op_from op); target = trim (op_to op);
          p1 = set_prop_if (descr \<noteq> []) ''description'' (JStr descr) [(js ''mode'', JStr (mode_of op))];
          p2 = set_prop_if (MPath \<in> meta) ''path'' (JStr path) p1;
          p3 = set_prop_if (MPathOptional \<in> meta \<and> path \<noteq> []) ''path'' (JStr path) p2;
          p4 = set_prop_if (MValue \<in> meta) ''value'' (parseLooseValue (op_value_text op)) p3;
          p5 = set_prop_if (MKeepOrigin \<in> meta \<and> op_keep_origin op) ''keep_origin'' (JBool True) p4;
          p6 = set_prop_if (MFrom \<in> meta) ''from'' (JStr source) p5;
          p7 = set_prop_if (MTo \<notin> meta \<and> target \<noteq> []) ''to'' (JStr target) p6;
          p8 = set_prop_if (MTo \<in> meta) ''to'' (JStr target) p7;
          p9 = set_prop_if (MPathAlias \<in> meta \<and> empty_prop ''from'' p8 \<and> path \<noteq> []) ''from'' (JStr path) p8;
          p10 = set_prop_if (MPathAlias \<in> meta \<and> empty_prop ''to'' p9 \<and> path \<noteq> []) ''to'' (JStr path) p9;
          conditions = List.map_filter buildConditionPayload (op_conditions op);
          p11 = set_prop_if (conditions \<noteq> []) ''conditions'' (JArr conditions) p10
      in JObj (set_prop_if (conditions \<noteq> []) ''logic''
                 (JStr (if op_logic op = js ''AND'' then js ''AND'' else js ''OR'')) p11))"

section \<open>Validation\<close>

text \<open>\<open>tr k (Some n)\<close> is the translated text of \<open>k\<close> with the line \<open>n\<close>.\<close>

type_synonym translator = "string \<Rightarrow> nat option \<Rightarrow> jstr"

text \<open>The first check of the loop body that returns, for the rule at \<open>line\<close>.\<close>

definition operation_issue :: "override_operation \<Rightarrow> string option" where
  "operation_issue op =
     (let mode = mode_of op; meta = set (mode_meta mode);
          path = trim (op_path op); source = trim (op_from op); target = trim (op_to op);
          raw = trim (op_value_text op); alias = (MPathAlias \<in> meta \<and> path \<noteq> [])
      in if MPath \<in> meta \<and> path = [] then Some ''Rule {{line}} is missing target path''
         else if has_mode FROM_REQUIRED_MODES mode \<and> source = [] \<and> \<not> alias
         then Some ''Rule {{line}} is missing source field''
         else if has_mode TO_REQUIRED_MODES mode \<and> target = [] \<and> \<not> alias
         then Some ''Rule {{line}} is missing target field''
         else if has_mode VALUE_REQUIRED_MODES mode \<and> raw = []
         then Some ''Rule {{line}} is missing value''
         else if mode = js ''return_error'' \<and> raw = [] then Some ''Rule {{line}} is missing value''
         else if mode = js ''return_error'' \<and>
                 (case json_parse raw of
                    Some (JObj ps) \<Rightarrow> trim (str_or (get_prop (JObj ps) ''message'') []) = [] | _ \<Rightarrow> False)
         then Some ''Rule {{line}} return_error requires a message field''
         else if mode = js ''prune_objects'' \<and> raw = []
         then Some ''Rule {{line}} prune_objects is missing conditions''
         else if mode = js ''pass_headers'' \<and> raw = []
         then Some ''Rule {{line}} pass_headers is missing header names''
         else if mode = js ''pass_headers'' \<and> parsePassHeaderNames (parseLooseValue raw) = []
         then Some ''Rule {{line}} pass_headers format is invalid''
         else None)"

fun validate_from :: "translator \<Rightarrow> nat \<Rightarrow> override_operation list \<Rightarrow> jstr" where
  "validate_from tr line [] = []"
| "validate_from tr line (op # ops) =
     (case operation_issue op of
        Some k \<Rightarrow> tr k (Some line)
      | None \<Rightarrow> validate_from tr (line + 1) ops)"

definition validateOperations :: "translator \<Rightarrow> override_operation list \<Rightarrow> jstr" where
  "validateOperations tr ops = validate_from tr 1 ops"

section \<open>Printing the rules\<close>

text \<open>\<open>Inl\<close> is the message of the error the function throws.\<close>

definition buildOperationsJson :: "translator \<Rightarrow> bool \<Rightarrow> override_operation list \<Rightarrow> jstr + jstr" where
  "buildOperationsJson tr validate ops =
     (let filteredOps = filter (\<lambda>o1. \<not> isOperationBlank o1) ops;
          message = validateOperations tr filteredOps
      in if filteredOps = [] then Inr []
         else if validate \<and> message \<noteq> [] then Inl message
         else Inr (pretty 0 (JObj [(js ''operations'', JArr (map operation_payload filteredOps))])))"

section \<open>The state a text opens with\<close>

datatype edit_mode = VisualEdit | JsonEdit
datatype visual_mode = OperationsMode | LegacyMode

record editor_start =
  es_editMode :: edit_mode
  es_visualMode :: visual_mode
  es_legacyValue :: jstr
  es_operations :: "override_operation list"
  es_jsonText :: jstr
  es_jsonError :: jstr

text \<open>The rules of a parsed \<open>operations\<close> array, or one default rule when it is empty.\<close>

definition operations_of :: "(nat \<Rightarrow> nat) \<Rightarrow> jsval list \<Rightarrow> override_operation list gen" where
  "operations_of clk vs n =
     (if vs = [] then (case createDefaultOperation clk n of (d, n') \<Rightarrow> (Some [d], n'))
      else gen_map (normalizeOperation clk) vs n)"

definition parseInitialState :: "(nat \<Rightarrow> nat) \<Rightarrow> jstr \<Rightarrow> editor_start gen" where
  "parseInitialState clk text n =
     (let trimmed = trim text; (d, n') = createDefaultOperation clk n
      in if trimmed = [] then
           (Some \<lparr>es_editMode = VisualEdit, es_visualMode = OperationsMode, es_legacyValue = [],
                  es_operations = [d], es_jsonText = [], es_jsonError = []\<rparr>, n')
         else case json_parse trimmed of
           None \<Rightarrow>
             (Some \<lparr>es_editMode = JsonEdit, es_visualMode = OperationsMode, es_legacyValue = [],
                    es_operations = [d], es_jsonText = text,
                    es_jsonError = js ''Invalid JSON format''\<rparr>, n')
         | Some (JObj ps) \<Rightarrow>
             (case get_prop (JObj ps) ''operations'' of
                Some (JArr vs) \<Rightarrow>
                  (case operations_of clk vs n of (r, n'') \<Rightarrow>
                     (map_option (\<lambda>ops.
                        \<lparr>es_editMode = VisualEdit, es_visualMode = OperationsMode, es_legacyValue = [],
                         es_operations = ops, es_jsonText = pretty 0 (JObj ps), es_jsonError = []\<rparr>) r, n''))
              | _ \<Rightarrow>
                  (Some \<lparr>es_editMode = VisualEdit, es_visualMode = LegacyMode,
                         es_legacyValue = pretty 0 (JObj ps), es_operations = [d],
                         es_jsonText = pretty 0 (JObj ps), es_jsonError = []\<rparr>, n'))
         | Some v \<Rightarrow>
             (Some \<lparr>es_editMode = JsonEdit, es_visualMode = OperationsMode, es_legacyValue = [],
                    es_operations = [d], es_jsonText = pretty 0 v, es_jsonError = []\<rparr>, n'))"

end
