(* ===== verification/ParamEditor.thy ===== *)
theory ParamEditor
  imports ParamOverride
begin

text \<open>
  The editor of parameter overrides
  (\<open>features/channels/components/dialogs/param-override-editor-dialog.tsx\<close>), its state and
  handlers. A handler is a function of the state; an update that throws leaves only the counter
  of identifiers changed. Messages shown as toasts are not part of the state.
\<close>

section \<open>Templates\<close>

definition obj_val :: "(string \<times> jsval) list \<Rightarrow> jsval" where
  "obj_val ps = JObj (map (\<lambda>(k, v). (js k, v)) ps)"

definition text_val :: "string \<Rightarrow> jsval" where
  "text_val s = JStr (js s)"

definition LEGACY_TEMPLATE :: jsval where
  "LEGACY_TEMPLATE = obj_val [(''temperature'', JNum (Fin 0)), (''max_tokens'', JNum (Fin 1000))]"

definition OPERATION_TEMPLATE :: jsval where
  "OPERATION_TEMPLATE = obj_val [(''operations'', JArr [obj_val
     [(''description'', text_val ''Set default temperature for openai/* models.''),
      (''path'', text_val ''temperature''), (''mode'', text_val ''set''),
      (''value'', JNum (round64 (7 / 10))),
      (''conditions'', JArr [obj_val [(''path'', text_val ''model''), (''mode'', text_val ''prefix''),
                                      (''value'', text_val ''openai/'')]]),
      (''logic'', text_val ''AND'')]])]"

definition HEADER_PASSTHROUGH_TEMPLATE :: jsval where
  "HEADER_PASSTHROUGH_TEMPLATE = obj_val [(''operations'', JArr [obj_val
     [(''description'', text_val ''Pass through X-Request-Id header to upstream.''),
      (''mode'', text_val ''pass_headers''), (''value'', JArr [text_val ''X-Request-Id'']),
      (''keep_origin'', JBool True)]])]"

definition model_condition :: "string \<Rightarrow> string \<Rightarrow> jsval" where
  "model_condition mode v =
     obj_val [(''path'', text_val ''original_model''), (''mode'', text_val mode), (''value'', text_val v)]"

definition GEMINI_IMAGE_4K_TEMPLATE :: jsval where
  "GEMINI_IMAGE_4K_TEMPLATE = obj_val [(''operations'', JArr [obj_val
     [(''description'',
         text_val ''Set imageSize to 4K when model contains gemini/image and ends with 4k.''),
      (''mode'', text_val ''set''),
      (''path'', text_val ''generationConfig.imageConfig.imageSize''), (''value'', text_val ''4K''),
      (''conditions'', JArr [model_condition ''contains'' ''gemini'', model_condition ''contains'' ''image'',
                             model_condition ''suffix'' ''4k'']),
      (''logic'', text_val ''AND'')]])]"

definition CODEX_CLI_HEADER_PASSTHROUGH_HEADERS :: "string list" where
  "CODEX_CLI_HEADER_PASSTHROUGH_HEADERS =
     [''Originator'', ''Session_id'', ''User-Agent'', ''X-Codex-Beta-Features'', ''X-Codex-Turn-Metadata'']"

definition CLAUDE_CLI_HEADER_PASSTHROUGH_HEADERS :: "string list" where
  "CLAUDE_CLI_HEADER_PASSTHROUGH_HEADERS =
     [''X-Stainless-Arch'', ''X-Stainless-Lang'', ''X-Stainless-Os'', ''X-Stainless-Package-Version'',
      ''X-Stainless-Retry-Count'', ''X-Stainless-Runtime'', ''X-Stainless-Runtime-Version'',
      ''X-Stainless-Timeout'', ''User-Agent'', ''X-App'', ''Anthropic-Beta'',
      ''Anthropic-Dangerous-Direct-Browser-Access'', ''Anthropic-Version'']"

definition buildPassHeadersTemplate :: "string list \<Rightarrow> jsval" where
  "buildPassHeadersTemplate headers = obj_val [(''operations'', JArr [obj_val
     [(''mode'', text_val ''pass_headers''), (''value'', JArr (map text_val headers)),
      (''keep_origin'', JBool True)]])]"

definition AWS_BEDROCK_ANTHROPIC_COMPAT_TEMPLATE :: jsval where
  "AWS_BEDROCK_ANTHROPIC_COMPAT_TEMPLATE = obj_val [(''operations'', JArr [
     obj_val
      [(''description'', text_val ''Normalize anthropic-beta header tokens for Bedrock compatibility.''),
       (''mode'', text_val ''set_header''), (''path'', text_val ''anthropic-beta''),
       (''value'', obj_val
         [(''advanced-tool-use-2025-11-20'', text_val ''tool-search-tool-2025-10-19''),
          (''bash_20241022'', JNull),
          (''bash_20250124'', JNull),
          (''code-execution-2025-08-25'', JNull),
          (''compact-2026-01-12'', text_val ''compact-2026-01-12''),
          (''computer-use-2025-01-24'', text_val ''computer-use-2025-01-24''),
          (''computer-use-2025-11-24'', text_val ''computer-use-2025-11-24''),
          (''context-1m-2025-08-07'', text_val ''context-1m-2025-08-07''),
          (''context-management-2025-06-27'', text_val ''context-management-2025-06-27''),
          (''effort-2025-11-24'', JNull),
          (''fast-mode-2026-02-01'', JNull),
          (''files-api-2025-04-14'', JNull),
          (''fine-grained-tool-streaming-2025-05-14'', JNull),
          (''interleaved-thinking-2025-05-14'', text_val ''interleaved-thinking-2025-05-14''),
          (''mcp-client-2025-11-20'', JNull),
          (''mcp-client-2025-04-04'', JNull),
          (''mcp-servers-2025-12-04'', JNull),
          (''output-128k-2025-02-19'', JNull),
          (''structured-output-2024-03-01'', JNull),
          (''prompt-caching-scope-2026-01-05'', JNull),
          (''skills-2025-10-02'', JNull),
          (''structured-outputs-2025-11-13'', JNull),
          (''text_editor_20241022'', JNull),
          (''text_editor_20250124'', JNull),
          (''token-efficient-tools-2025-02-19'', JNull),
          (''tool-search-tool-2025-10-19'', text_val ''tool-search-tool-2025-10-19''),
          (''web-fetch-2025-09-10'', JNull),
          (''web-search-2025-03-05'', JNull),
          (''oauth-2025-04-20'', JNull)])],
     obj_val
      [(''description'', text_val ''Remove all tools[*].custom.input_examples before upstream relay.''),
       (''mode'', text_val ''delete''), (''path'', text_val ''tools.*.custom.input_examples'')]])]"

datatype template_kind = OperationsKind | LegacyKind

definition TEMPLATE_PRESET_CONFIG :: "(string \<times> template_kind \<times> jsval) list" where
  "TEMPLATE_PRESET_CONFIG =
     [(''operations_default'', OperationsKind, OPERATION_TEMPLATE),
      (''legacy_default'', LegacyKind, LEGACY_TEMPLATE),
      (''pass_headers_auth'', OperationsKind, HEADER_PASSTHROUGH_TEMPLATE),
      (''gemini_image_4k'', OperationsKind, GEMINI_IMAGE_4K_TEMPLATE),
      (''claude_cli_headers_passthrough'', OperationsKind,
         buildPassHeadersTemplate CLAUDE_CLI_HEADER_PASSTHROUGH_HEADERS),
      (''codex_cli_headers_passthrough'', OperationsKind,
         buildPassHeadersTemplate CODEX_CLI_HEADER_PASSTHROUGH_HEADERS),
      (''aws_bedrock_anthropic_beta_override'', OperationsKind, AWS_BEDROCK_ANTHROPIC_COMPAT_TEMPLATE)]"

text \<open>The preset of a key, the first one for any other key.\<close>

definition template_preset :: "jstr \<Rightarrow> template_kind \<times> jsval" where
  "template_preset key =
     (case map_of (map (\<lambda>(k, p). (js k, p)) TEMPLATE_PRESET_CONFIG) key of
        Some p \<Rightarrow> p | None \<Rightarrow> (OperationsKind, OPERATION_TEMPLATE))"

definition template_operations :: "jsval \<Rightarrow> jsval list" where
  "template_operations payload = (case as_arr (get_prop payload ''operations'') of Some vs \<Rightarrow> vs | None \<Rightarrow> [])"

section \<open>The state of the dialog\<close>

record editor =
  ed_editMode :: edit_mode
  ed_visualMode :: visual_mode
  ed_legacyValue :: jstr
  ed_operations :: "override_operation list"
  ed_jsonText :: jstr
  ed_jsonError :: jstr
  ed_operationSearch :: jstr
  ed_selectedOperationId :: jstr
  ed_expandedConditions :: "jstr \<Rightarrow> bool option"
  ed_draggedOperationId :: jstr
  ed_dragOverOperationId :: jstr
  ed_dragOverPosition :: drop_position
  ed_templatePresetKey :: jstr
  ed_seed :: nat

definition initial_editor :: "(nat \<Rightarrow> nat) \<Rightarrow> nat \<Rightarrow> editor" where
  "initial_editor clk n =
     (case createDefaultOperation clk n of (d, n') \<Rightarrow>
        \<lparr>ed_editMode = VisualEdit, ed_visualMode = OperationsMode, ed_legacyValue = [],
         ed_operations = [d], ed_jsonText = [], ed_jsonError = [], ed_operationSearch = [],
         ed_selectedOperationId = [], ed_expandedConditions = (\<lambda>_. None),
         ed_draggedOperationId = [], ed_dragOverOperationId = [], ed_dragOverPosition = Before,
         ed_templatePresetKey = js ''operations_default'', ed_seed = n'\<rparr>)"

text \<open>\<open>ops[0]?.id || ''\<close>.\<close>

definition first_id :: "override_operation list \<Rightarrow> jstr" where
  "first_id ops = (case ops of [] \<Rightarrow> [] | o1 # _ \<Rightarrow> op_id o1)"

text \<open>The effect that runs when the dialog opens with a value.\<close>

definition open_dialog :: "(nat \<Rightarrow> nat) \<Rightarrow> jstr \<Rightarrow> editor \<Rightarrow> editor" where
  "open_dialog clk text e =
     (case parseInitialState clk text (ed_seed e) of
        (None, n) \<Rightarrow> e\<lparr>ed_seed := n\<rparr>
      | (Some st, n) \<Rightarrow>
          \<lparr>ed_editMode = es_editMode st, ed_visualMode = es_visualMode st,
           ed_legacyValue = es_legacyValue st, ed_operations = es_operations st,
           ed_jsonText = es_jsonText st, ed_jsonError = es_jsonError st, ed_operationSearch = [],
           ed_selectedOperationId = first_id (es_operations st), ed_expandedConditions = (\<lambda>_. None),
           ed_draggedOperationId = [], ed_dragOverOperationId = [], ed_dragOverPosition = Before,
           ed_templatePresetKey = (if es_visualMode st = LegacyMode then js ''legacy_default''
                                   else js ''operations_default''),
           ed_seed = n\<rparr>)"

text \<open>The effect that keeps the selection on a rule that exists.\<close>

definition keep_selected :: "editor \<Rightarrow> editor" where
  "keep_selected e =
     (if ed_operations e = [] then e\<lparr>ed_selectedOperationId := []\<rparr>
      else if list_ex (\<lambda>o1. op_id o1 = ed_selectedOperationId e) (ed_operations e) then e
      else e\<lparr>ed_selectedOperationId := op_id (hd (ed_operations e))\<rparr>)"

definition selectedOperation :: "editor \<Rightarrow> override_operation option" where
  "selectedOperation e = List.find (\<lambda>o1. op_id o1 = ed_selectedOperationId e) (ed_operations e)"

section \<open>Handlers of rules and conditions\<close>

text \<open>The fields a rule can be updated in.\<close>

datatype operation_patch =
  PDescription jstr | PPath jstr | PMode jstr | PFrom jstr | PTo jstr | PValueText jstr
  | PKeepOrigin bool | PLogic jstr

fun patch_operation :: "operation_patch \<Rightarrow> override_operation \<Rightarrow> override_operation" where
  "patch_operation (PDescription s) op = op\<lparr>op_description := s\<rparr>"
| "patch_operation (PPath s) op = op\<lparr>op_path := s\<rparr>"
| "patch_operation (PMode s) op = op\<lparr>op_mode := s\<rparr>"
| "patch_operation (PFrom s) op = op\<lparr>op_from := s\<rparr>"
| "patch_operation (PTo s) op = op\<lparr>op_to := s\<rparr>"
| "patch_operation (PValueText s) op = op\<lparr>op_value_text := s\<rparr>"
| "patch_operation (PKeepOrigin b) op = op\<lparr>op_keep_origin := b\<rparr>"
| "patch_operation (PLogic s) op = op\<lparr>op_logic := s\<rparr>"

definition map_operation ::
    "jstr \<Rightarrow> (override_operation \<Rightarrow> override_operation) \<Rightarrow> override_operation list \<Rightarrow> override_operation list" where
  "map_operation i f ops = map (\<lambda>o1. if op_id o1 = i then f o1 else o1) ops"

definition updateOperation :: "jstr \<Rightarrow> operation_patch list \<Rightarrow> editor \<Rightarrow> editor" where
  "updateOperation i patch e =
     e\<lparr>ed_operations := map_operation i (fold patch_operation patch) (ed_operations e)\<rparr>"

definition addOperation :: "(nat \<Rightarrow> nat) \<Rightarrow> editor \<Rightarrow> editor" where
  "addOperation clk e =
     (case createDefaultOperation clk (ed_seed e) of (d, n) \<Rightarrow>
        e\<lparr>ed_operations := ed_operations e @ [d], ed_selectedOperationId := op_id d, ed_seed := n\<rparr>)"

text \<open>The object \<open>duplicateOperation\<close> normalises.\<close>

definition condition_value :: "override_condition \<Rightarrow> jsval" where
  "condition_value c =
     obj_val [(''path'', JStr (cond_path c)), (''mode'', JStr (cond_mode c)),
              (''value'', parseLooseValue (cond_value_text c)), (''invert'', JBool (cond_invert c)),
              (''pass_missing_key'', JBool (cond_pass_missing_key c))]"

definition operation_value :: "override_operation \<Rightarrow> jsval" where
  "operation_value op =
     obj_val [(''description'', JStr (op_description op)), (''path'', JStr (op_path op)),
              (''mode'', JStr (op_mode op)), (''value'', parseLooseValue (op_value_text op)),
              (''keep_origin'', JBool (op_keep_origin op)), (''from'', JStr (op_from op)),
              (''to'', JStr (op_to op)), (''logic'', JStr (op_logic op)),
              (''conditions'', JArr (map condition_value (op_conditions op)))]"

text \<open>The identifier of the copy is known after \<open>setOperations\<close> only when React runs the update
  at once (\<open>eager\<close>).\<close>

definition duplicateOperation :: "(nat \<Rightarrow> nat) \<Rightarrow> bool \<Rightarrow> jstr \<Rightarrow> editor \<Rightarrow> editor" where
  "duplicateOperation clk eager i e =
     (let ops = ed_operations e in
      case find_index (\<lambda>o1. op_id o1 = i) ops of
        None \<Rightarrow> e
      | Some k \<Rightarrow>
          (case normalizeOperation clk (operation_value (ops ! k)) (ed_seed e) of
             (None, n) \<Rightarrow> e\<lparr>ed_seed := n\<rparr>
           | (Some cloned, n) \<Rightarrow>
               e\<lparr>ed_operations := take (k + 1) ops @ [cloned] @ drop (k + 1) ops,
                 ed_selectedOperationId := (if eager \<and> op_id cloned \<noteq> [] then op_id cloned
                                            else ed_selectedOperationId e),
                 ed_seed := n\<rparr>))"

definition removeOperation :: "(nat \<Rightarrow> nat) \<Rightarrow> jstr \<Rightarrow> editor \<Rightarrow> editor" where
  "removeOperation clk i e =
     (if length (ed_operations e) \<le> 1 then
        (case createDefaultOperation clk (ed_seed e) of (d, n) \<Rightarrow> e\<lparr>ed_operations := [d], ed_seed := n\<rparr>)
      else e\<lparr>ed_operations := filter (\<lambda>o1. op_id o1 \<noteq> i) (ed_operations e)\<rparr>)"

definition addCondition :: "(nat \<Rightarrow> nat) \<Rightarrow> jstr \<Rightarrow> editor \<Rightarrow> editor" where
  "addCondition clk i e =
     (case createDefaultCondition clk (ed_seed e) of (c, n) \<Rightarrow>
        e\<lparr>ed_operations := map_operation i (op_conditions_update (\<lambda>cs. cs @ [c])) (ed_operations e),
          ed_expandedConditions := (ed_expandedConditions e)(cond_id c := Some True), ed_seed := n\<rparr>)"

datatype condition_patch =
  CPath jstr | CMode jstr | CValueText jstr | CInvert bool | CPassMissingKey bool

fun patch_condition :: "condition_patch \<Rightarrow> override_condition \<Rightarrow> override_condition" where
  "patch_condition (CPath s) c = c\<lparr>cond_path := s\<rparr>"
| "patch_condition (CMode s) c = c\<lparr>cond_mode := s\<rparr>"
| "patch_condition (CValueText s) c = c\<lparr>cond_value_text := s\<rparr>"
| "patch_condition (CInvert b) c = c\<lparr>cond_invert := b\<rparr>"
| "patch_condition (CPassMissingKey b) c = c\<lparr>cond_pass_missing_key := b\<rparr>"

definition map_condition ::
    "jstr \<Rightarrow> (override_condition \<Rightarrow> override_condition) \<Rightarrow> override_condition list \<Rightarrow> override_condition list" where
  "map_condition i f cs = map (\<lambda>c. if cond_id c = i then f c else c) cs"

definition updateCondition :: "jstr \<Rightarrow> jstr \<Rightarrow> condition_patch list \<Rightarrow> editor \<Rightarrow> editor" where
  "updateCondition i ci patch e =
     e\<lparr>ed_operations := map_operation i
         (op_conditions_update (map_condition ci (fold patch_condition patch))) (ed_operations e)\<rparr>"

definition removeCondition :: "jstr \<Rightarrow> jstr \<Rightarrow> editor \<Rightarrow> editor" where
  "removeCondition i ci e =
     e\<lparr>ed_operations := map_operation i
         (op_conditions_update (filter (\<lambda>c. cond_id c \<noteq> ci))) (ed_operations e)\<rparr>"

section \<open>Handlers of the drafts\<close>

datatype return_error_patch =
  RMessage jstr | RStatusCode jnum | RCode jstr | RType jstr | RSkipRetry bool | RSimpleMode bool

fun patch_return_error :: "return_error_patch \<Rightarrow> return_error_draft \<Rightarrow> return_error_draft" where
  "patch_return_error (RMessage s) d = d\<lparr>red_message := s\<rparr>"
| "patch_return_error (RStatusCode x) d = d\<lparr>red_statusCode := x\<rparr>"
| "patch_return_error (RCode s) d = d\<lparr>red_code := s\<rparr>"
| "patch_return_error (RType s) d = d\<lparr>red_type := s\<rparr>"
| "patch_return_error (RSkipRetry b) d = d\<lparr>red_skipRetry := b\<rparr>"
| "patch_return_error (RSimpleMode b) d = d\<lparr>red_simpleMode := b\<rparr>"

definition updateReturnErrorDraft :: "jstr \<Rightarrow> return_error_patch list \<Rightarrow> editor \<Rightarrow> editor" where
  "updateReturnErrorDraft i patch e =
     e\<lparr>ed_operations := map_operation i
         (\<lambda>o1. o1\<lparr>op_value_text := buildReturnErrorValueText
                    (fold patch_return_error patch (parseReturnErrorDraft (op_value_text o1)))\<rparr>)
         (ed_operations e)\<rparr>"

text \<open>The draft is parsed afresh, with new identifiers of its rules, for every update; the updater
  may take identifiers too.\<close>

type_synonym prune_updater = "prune_objects_draft \<Rightarrow> nat \<Rightarrow> prune_objects_draft \<times> nat"

fun update_prune_texts ::
    "(nat \<Rightarrow> nat) \<Rightarrow> jstr \<Rightarrow> prune_updater \<Rightarrow> override_operation list \<Rightarrow> nat \<Rightarrow> override_operation list \<times> nat" where
  "update_prune_texts clk i f [] n = ([], n)"
| "update_prune_texts clk i f (o1 # ops) n =
     (if op_id o1 \<noteq> i then
        (case update_prune_texts clk i f ops n of (ops', n') \<Rightarrow> (o1 # ops', n'))
      else case parsePruneObjectsDraft clk (op_value_text o1) n of (d, n1) \<Rightarrow>
             (case f d n1 of (d', n2) \<Rightarrow>
               (case update_prune_texts clk i f ops n2 of (ops', n3) \<Rightarrow>
                  (o1\<lparr>op_value_text := buildPruneObjectsValueText d'\<rparr> # ops', n3))))"

definition updatePruneObjectsDraft :: "(nat \<Rightarrow> nat) \<Rightarrow> jstr \<Rightarrow> prune_updater \<Rightarrow> editor \<Rightarrow> editor" where
  "updatePruneObjectsDraft clk i f e =
     (case update_prune_texts clk i f (ed_operations e) (ed_seed e) of (ops, n) \<Rightarrow>
        e\<lparr>ed_operations := ops, ed_seed := n\<rparr>)"

text \<open>The updates the fields of the draft make without taking identifiers.\<close>

datatype prune_patch = DSimpleMode bool | DTypeText jstr | DLogic jstr | DRecursive bool

fun patch_prune :: "prune_patch \<Rightarrow> prune_objects_draft \<Rightarrow> prune_objects_draft" where
  "patch_prune (DSimpleMode b) d = d\<lparr>pod_simpleMode := b\<rparr>"
| "patch_prune (DTypeText s) d = d\<lparr>pod_typeText := s\<rparr>"
| "patch_prune (DLogic s) d = d\<lparr>pod_logic := s\<rparr>"
| "patch_prune (DRecursive b) d = d\<lparr>pod_recursive := b\<rparr>"

definition patch_updater :: "prune_patch list \<Rightarrow> prune_updater" where
  "patch_updater patch d n = (fold patch_prune patch d, n)"

definition addPruneRule :: "(nat \<Rightarrow> nat) \<Rightarrow> jstr \<Rightarrow> editor \<Rightarrow> editor" where
  "addPruneRule clk i =
     updatePruneObjectsDraft clk i
       (\<lambda>d n. case normalizePruneRule clk (JObj []) n of (r, n') \<Rightarrow>
          (d\<lparr>pod_simpleMode := False, pod_rules := pod_rules d @ [r]\<rparr>, n'))"

definition updatePruneRule :: "(nat \<Rightarrow> nat) \<Rightarrow> jstr \<Rightarrow> jstr \<Rightarrow> condition_patch list \<Rightarrow> editor \<Rightarrow> editor" where
  "updatePruneRule clk i ri patch =
     updatePruneObjectsDraft clk i
       (\<lambda>d n. (d\<lparr>pod_rules := map_condition ri (fold patch_condition patch) (pod_rules d)\<rparr>, n))"

definition removePruneRule :: "(nat \<Rightarrow> nat) \<Rightarrow> jstr \<Rightarrow> jstr \<Rightarrow> editor \<Rightarrow> editor" where
  "removePruneRule clk i ri =
     updatePruneObjectsDraft clk i
       (\<lambda>d n. (d\<lparr>pod_rules := filter (\<lambda>r. cond_id r \<noteq> ri) (pod_rules d)\<rparr>, n))"

text \<open>What the memoised drafts of the selected rule show.\<close>

definition returnErrorDraft :: "editor \<Rightarrow> return_error_draft option" where
  "returnErrorDraft e =
     (case selectedOperation e of
        Some op \<Rightarrow> if op_mode op \<noteq> js ''return_error'' then None else Some (parseReturnErrorDraft (op_value_text op))
      | None \<Rightarrow> None)"

definition pruneObjectsDraft :: "(nat \<Rightarrow> nat) \<Rightarrow> editor \<Rightarrow> prune_objects_draft option \<times> editor" where
  "pruneObjectsDraft clk e =
     (case selectedOperation e of
        Some op \<Rightarrow>
          if op_mode op \<noteq> js ''prune_objects'' then (None, e)
          else (case parsePruneObjectsDraft clk (op_value_text op) (ed_seed e) of (d, n) \<Rightarrow>
                  (Some d, e\<lparr>ed_seed := n\<rparr>))
      | None \<Rightarrow> (None, e))"

section \<open>Drag and drop\<close>

definition resetDragState :: "editor \<Rightarrow> editor" where
  "resetDragState e =
     e\<lparr>ed_draggedOperationId := [], ed_dragOverOperationId := [], ed_dragOverPosition := Before\<rparr>"

definition handleDragStart :: "jstr \<Rightarrow> editor \<Rightarrow> editor" where
  "handleDragStart i e = e\<lparr>ed_draggedOperationId := i, ed_selectedOperationId := i\<rparr>"

text \<open>\<open>lower_half\<close>: the pointer is in the lower half of the row.\<close>

definition handleDragOver :: "jstr \<Rightarrow> bool \<Rightarrow> editor \<Rightarrow> editor" where
  "handleDragOver i lower_half e =
     (if ed_draggedOperationId e = [] \<or> ed_draggedOperationId e = i then e
      else e\<lparr>ed_dragOverOperationId := i, ed_dragOverPosition := (if lower_half then After else Before)\<rparr>)"

text \<open>\<open>transferred\<close> is the text of the event's data transfer.\<close>

definition handleDrop :: "jstr \<Rightarrow> jstr \<Rightarrow> editor \<Rightarrow> editor" where
  "handleDrop i transferred e =
     (let sourceId = (if ed_draggedOperationId e \<noteq> [] then ed_draggedOperationId e else transferred);
          position = (if ed_dragOverOperationId e = i then ed_dragOverPosition e else Before)
      in resetDragState
           (if sourceId \<noteq> [] \<and> i \<noteq> [] \<and> sourceId \<noteq> i then
              e\<lparr>ed_operations := reorderOperations (ed_operations e) sourceId i position,
                ed_selectedOperationId := sourceId\<rparr>
            else e))"

section \<open>Both modes and the templates\<close>

definition is_obj :: "jsval \<Rightarrow> bool" where
  "is_obj v \<longleftrightarrow> (case v of JObj _ \<Rightarrow> True | _ \<Rightarrow> False)"

definition buildVisualJson :: "translator \<Rightarrow> editor \<Rightarrow> jstr + jstr" where
  "buildVisualJson tr e =
     (if ed_visualMode e = LegacyMode then
        (let trimmed = trim (ed_legacyValue e)
         in if trimmed = [] then Inr []
            else case json_parse trimmed of
                   None \<Rightarrow> Inl (tr ''Parameter override must be valid JSON format'' None)
                 | Some v \<Rightarrow> if is_obj v then Inr (pretty 0 v)
                             else Inl (tr ''Legacy format must be a JSON object'' None))
      else buildOperationsJson tr True (ed_operations e))"

definition switchToJsonMode :: "translator \<Rightarrow> editor \<Rightarrow> editor" where
  "switchToJsonMode tr e =
     (if ed_editMode e = JsonEdit then e
      else (case buildVisualJson tr e of
              Inr s \<Rightarrow> e\<lparr>ed_jsonText := s, ed_jsonError := []\<rparr>
            | Inl msg \<Rightarrow>
                e\<lparr>ed_jsonText := (if ed_visualMode e = LegacyMode then ed_legacyValue e
                                   else case buildOperationsJson tr False (ed_operations e) of
                                          Inr s \<Rightarrow> s | Inl _ \<Rightarrow> ed_jsonText e),
                  ed_jsonError := (if msg \<noteq> [] then msg else tr ''Parameter configuration error'' None)\<rparr>)
           \<lparr>ed_editMode := JsonEdit\<rparr>)"

text \<open>A text that is no JSON object is refused with a toast, which leaves the state.\<close>

definition switchToVisualMode :: "(nat \<Rightarrow> nat) \<Rightarrow> editor \<Rightarrow> editor" where
  "switchToVisualMode clk e =
     (let trimmed = trim (ed_jsonText e); (d, n') = createDefaultOperation clk (ed_seed e)
      in if ed_editMode e = VisualEdit then e
         else if trimmed = [] then
           e\<lparr>ed_visualMode := OperationsMode, ed_operations := [d], ed_selectedOperationId := op_id d,
             ed_legacyValue := [], ed_jsonError := [], ed_editMode := VisualEdit, ed_seed := n'\<rparr>
         else case json_parse trimmed of
           Some (JObj ps) \<Rightarrow>
             (case get_prop (JObj ps) ''operations'' of
                Some (JArr vs) \<Rightarrow>
                  (case operations_of clk vs (ed_seed e) of
                     (None, n) \<Rightarrow> e\<lparr>ed_seed := n\<rparr>
                   | (Some ops, n) \<Rightarrow>
                       e\<lparr>ed_visualMode := OperationsMode, ed_operations := ops,
                         ed_selectedOperationId := first_id ops, ed_legacyValue := [], ed_jsonError := [],
                         ed_editMode := VisualEdit, ed_templatePresetKey := js ''operations_default'',
                         ed_seed := n\<rparr>)
              | _ \<Rightarrow>
                  e\<lparr>ed_visualMode := LegacyMode, ed_legacyValue := pretty 0 (JObj ps), ed_operations := [d],
                    ed_selectedOperationId := op_id d, ed_jsonError := [], ed_editMode := VisualEdit,
                    ed_templatePresetKey := js ''legacy_default'', ed_seed := n'\<rparr>)
         | _ \<Rightarrow> e)"

datatype fill_mode = Fill | Append

text \<open>The state that shows a legacy text.\<close>

definition show_legacy :: "(nat \<Rightarrow> nat) \<Rightarrow> jstr \<Rightarrow> editor \<Rightarrow> editor" where
  "show_legacy clk s e =
     (case createDefaultOperation clk (ed_seed e) of (d, n) \<Rightarrow>
        e\<lparr>ed_visualMode := LegacyMode, ed_legacyValue := s, ed_operations := [d], ed_jsonText := s,
          ed_jsonError := [], ed_editMode := VisualEdit, ed_seed := n\<rparr>)"

definition fill_legacy :: "(nat \<Rightarrow> nat) \<Rightarrow> fill_mode \<Rightarrow> jsval \<Rightarrow> editor \<Rightarrow> editor" where
  "fill_legacy clk mode payload e =
     (if mode = Append \<and> ed_visualMode e = LegacyMode then
        (let trimmed = trim (ed_legacyValue e);
             merged = (\<lambda>v. show_legacy clk (pretty 0 (JObj (spread_over (own_props payload) v))) e)
         in if trimmed = [] then merged (JObj [])
            else case json_parse trimmed of None \<Rightarrow> e | Some v \<Rightarrow> merged v)
      else show_legacy clk (pretty 0 payload) e)"

definition fill_operations :: "(nat \<Rightarrow> nat) \<Rightarrow> fill_mode \<Rightarrow> jsval list \<Rightarrow> editor \<Rightarrow> editor" where
  "fill_operations clk mode vs e =
     (if mode = Append then
        (case gen_map (normalizeOperation clk) vs (ed_seed e) of
           (None, n) \<Rightarrow> e\<lparr>ed_seed := n\<rparr>
         | (Some appended, n) \<Rightarrow>
             (let existing = (if ed_visualMode e = OperationsMode
                              then filter (\<lambda>o1. \<not> isOperationBlank o1) (ed_operations e) else []);
                  nextOps = existing @ appended
              in e\<lparr>ed_visualMode := OperationsMode,
                   ed_operations := (if nextOps \<noteq> [] then nextOps else appended),
                   ed_selectedOperationId := (if first_id nextOps \<noteq> [] then first_id nextOps
                                              else first_id appended),
                   ed_legacyValue := [], ed_jsonError := [], ed_editMode := VisualEdit, ed_jsonText := [],
                   ed_seed := n\<rparr>))
      else
        (case operations_of clk vs (ed_seed e) of
           (None, n) \<Rightarrow> e\<lparr>ed_seed := n\<rparr>
         | (Some ops, n) \<Rightarrow>
             e\<lparr>ed_visualMode := OperationsMode, ed_operations := ops,
               ed_selectedOperationId := first_id ops,
               ed_jsonText := pretty 0 (JObj [(js ''operations'', JArr vs)]),
               ed_jsonError := [], ed_editMode := VisualEdit, ed_seed := n\<rparr>))"

definition fillTemplate :: "(nat \<Rightarrow> nat) \<Rightarrow> fill_mode \<Rightarrow> editor \<Rightarrow> editor" where
  "fillTemplate clk mode e =
     (case template_preset (ed_templatePresetKey e) of
        (LegacyKind, payload) \<Rightarrow> fill_legacy clk mode payload e
      | (OperationsKind, payload) \<Rightarrow> fill_operations clk mode (template_operations payload) e)"

definition resetEditorState :: "(nat \<Rightarrow> nat) \<Rightarrow> editor \<Rightarrow> editor" where
  "resetEditorState clk e =
     (case createDefaultOperation clk (ed_seed e) of (d, n) \<Rightarrow>
        e\<lparr>ed_visualMode := OperationsMode, ed_legacyValue := [], ed_operations := [d],
          ed_selectedOperationId := op_id d, ed_jsonText := [], ed_jsonError := [],
          ed_templatePresetKey := js ''operations_default'', ed_editMode := VisualEdit, ed_seed := n\<rparr>)"

section \<open>The JSON text and saving\<close>

definition handleJsonChange :: "translator \<Rightarrow> jstr \<Rightarrow> editor \<Rightarrow> editor" where
  "handleJsonChange tr s e =
     e\<lparr>ed_jsonText := s,
       ed_jsonError := (if trim s = [] \<or> verifyJSON (trim s) then [] else tr ''JSON format error'' None)\<rparr>"

definition formatJson :: "editor \<Rightarrow> editor" where
  "formatJson e =
     (if trim (ed_jsonText e) = [] then e
      else case json_parse (trim (ed_jsonText e)) of
             None \<Rightarrow> e
           | Some v \<Rightarrow> e\<lparr>ed_jsonText := pretty 0 v, ed_jsonError := []\<rparr>)"

definition visualValidationError :: "translator \<Rightarrow> editor \<Rightarrow> jstr" where
  "visualValidationError tr e =
     (if ed_editMode e \<noteq> VisualEdit then []
      else case buildVisualJson tr e of
             Inr _ \<Rightarrow> []
           | Inl msg \<Rightarrow> if msg \<noteq> [] then msg else tr ''Parameter configuration error'' None)"

text \<open>The text passed to \<open>onSave\<close> before the dialog closes, or \<open>None\<close> when a toast is shown
  instead.\<close>

definition handleSave :: "translator \<Rightarrow> editor \<Rightarrow> jstr option" where
  "handleSave tr e =
     (if ed_editMode e = JsonEdit then
        (let trimmed = trim (ed_jsonText e)
         in if trimmed = [] then Some []
            else map_option (pretty 0) (json_parse trimmed))
      else case buildVisualJson tr e of Inr s \<Rightarrow> Some s | Inl _ \<Rightarrow> None)"

text \<open>The other setters the dialog's inputs call.\<close>

definition setLegacyValue :: "jstr \<Rightarrow> editor \<Rightarrow> editor" where
  "setLegacyValue s e = e\<lparr>ed_legacyValue := s\<rparr>"

definition setSelectedOperationId :: "jstr \<Rightarrow> editor \<Rightarrow> editor" where
  "setSelectedOperationId i e = e\<lparr>ed_selectedOperationId := i\<rparr>"

definition setTemplatePresetKey :: "jstr \<Rightarrow> editor \<Rightarrow> editor" where
  "setTemplatePresetKey k e =
     e\<lparr>ed_templatePresetKey := (if k = [] then js ''operations_default'' else k)\<rparr>"

definition setOperationSearch :: "jstr \<Rightarrow> editor \<Rightarrow> editor" where
  "setOperationSearch s e = e\<lparr>ed_operationSearch := s\<rparr>"

definition setExpandedCondition :: "jstr \<Rightarrow> bool \<Rightarrow> editor \<Rightarrow> editor" where
  "setExpandedCondition ci b e = e\<lparr>ed_expandedConditions := (ed_expandedConditions e)(ci := Some b)\<rparr>"

definition set_all_expanded :: "bool \<Rightarrow> editor \<Rightarrow> editor" where
  "set_all_expanded b e =
     (case selectedOperation e of
        None \<Rightarrow> e
      | Some op \<Rightarrow>
          e\<lparr>ed_expandedConditions :=
              (\<lambda>i. if i \<in> set (map cond_id (op_conditions op)) then Some b else ed_expandedConditions e i)\<rparr>)"

definition expandAllConditions :: "editor \<Rightarrow> editor" where
  "expandAllConditions = set_all_expanded True"

definition collapseAllConditions :: "editor \<Rightarrow> editor" where
  "collapseAllConditions = set_all_expanded False"

end
