(* ===== verification/ParamOverrideProps.thy ===== *)
theory ParamOverrideProps
  imports ParamOverride
begin

text \<open>
  What the functions of the parameter override editor promise: which values survive being shown
  as a text, what moving a rule does, that drafts settle, that printed rules read back, and that
  validated rules are complete.
\<close>

section \<open>Values as texts\<close>

lemma is_ws_brackets [simp]: "\<not> is_ws 34" "\<not> is_ws 91" "\<not> is_ws 93" "\<not> is_ws 123" "\<not> is_ws 125" "\<not> is_ws 58"
  by (simp_all add: is_ws_def)

lemma stringify_nonempty: "json_wf v \<Longrightarrow> stringify v \<noteq> []"
  by (metis list.distinct(1) stringify_start)

lemma stringify_trimmed: "json_wf v \<Longrightarrow> trimmed (stringify v)"
proof (cases v)
  case (JNum x)
  then show "json_wf v \<Longrightarrow> trimmed (stringify v)"
    by (simp add: num_ok_finite num_str_trimmed)
next
  case JNull
  then show ?thesis by (simp add: trimmed_def js_eval is_ws_def)
next
  case (JBool b)
  then show ?thesis by (simp add: trimmed_def js_eval is_ws_def)
qed (simp_all add: trimmed_def json_quote_def)

lemma parseLooseValue_stringify [simp]: "json_wf v \<Longrightarrow> parseLooseValue (stringify v) = v"
  by (simp add: parseLooseValue_def stringify_trimmed stringify_nonempty json_parse_stringify)

text \<open>No text is the JSON literal of itself: a literal is longer than its string.\<close>

lemma pstr_shorter: "pstr s = Some (t, r) \<Longrightarrow> length t + length r < length s"
proof (induction s arbitrary: t r rule: pstr.induct)
  case (2 c cs)
  then show ?case by (fastforce split: if_splits list.splits option.splits)
qed simp

lemma json_parse_shorter: "json_parse u = Some (JStr s) \<Longrightarrow> length s < length u"
proof -
  assume "json_parse u = Some (JStr s)"
  then obtain r where v: "pval (Suc (2 * length u)) u = Some (JStr s, r)"
    by (auto simp: json_parse_def split: option.splits if_splits prod.splits)
  obtain c cs where cs: "skip_ws u = c # cs" using v by (auto split: list.splits)
  then have "c = 34" using v by (auto simp: lit_def split: list.splits if_splits)
  with v cs have "pstr cs = Some (s, r)" by auto
  moreover have "length cs < length u" using skip_ws_Cons_length [OF cs] .
  ultimately show ?thesis using pstr_shorter by fastforce
qed

lemma json_parse_not_self: "json_parse (trim s) \<noteq> Some (JStr s)"
  using json_parse_shorter [of "trim s" s] length_trim_le [of s] by (meson leD)

text \<open>A text is kept by the field that shows a value when printing what it parses to gives it
  back.\<close>

definition text_kept :: "jstr \<Rightarrow> bool" where
  "text_kept s \<longleftrightarrow> toValueText (Some (parseLooseValue s)) = s"

lemma parseLooseValue_text:
  "parseLooseValue s = JStr s \<longleftrightarrow> trimmed s \<and> (s = [] \<or> json_parse s = None)"
proof
  assume a: "parseLooseValue s = JStr s"
  show "trimmed s \<and> (s = [] \<or> json_parse s = None)"
  proof (cases "trim s = []")
    case True
    with a have "s = []" by (simp add: parseLooseValue_def)
    then show ?thesis by (simp add: trimmed_def)
  next
    case False
    with a json_parse_not_self [of s] have "json_parse (trim s) = None" "trim s = s"
      by (auto simp: parseLooseValue_def Let_def split: option.splits)
    then show ?thesis by (metis trimmed_trim)
  qed
qed (auto simp: parseLooseValue_def trim_id)

definition value_kept :: "jsval \<Rightarrow> bool" where
  "value_kept v \<longleftrightarrow> parseLooseValue (toValueText (Some v)) = v"

text \<open>The editor shows the value of a rule or condition as a text and reads the text back when
  it prints the rule. A value that is no string is kept; a string is kept exactly when it has no
  white space around it and is not itself the text of a JSON value, so the string "123" comes
  back as the number 123 and "true" as a truth value.\<close>

theorem override_value_kept:
  assumes "json_wf v"
  shows "value_kept v \<longleftrightarrow> (case v of JStr s \<Rightarrow> trimmed s \<and> (s = [] \<or> json_parse s = None) | _ \<Rightarrow> True)"
  using assms parseLooseValue_stringify [OF assms]
  by (cases v) (auto simp: value_kept_def toValueText_def parseLooseValue_text simp del: stringify.simps)

theorem override_value_kept_witness:
  "\<not> value_kept (JStr (js ''123'')) \<and> value_kept (JStr (js ''gpt-4'')) \<and> value_kept (JNum (Fin 123))"
proof -
  have 1: "json_wf (JStr (js ''123''))" "trimmed (js ''123'') \<and> (js ''123'' = [] \<or> json_parse (js ''123'') = None) \<longleftrightarrow> False"
    by code_simp+
  have 2: "json_wf (JStr (js ''gpt-4''))" "trimmed (js ''gpt-4'') \<and> (js ''gpt-4'' = [] \<or> json_parse (js ''gpt-4'') = None)"
    by code_simp+
  have 3: "json_wf (JNum (Fin 123))" by (simp add: num_ok_def)
  show ?thesis
    unfolding override_value_kept [OF 1(1)] override_value_kept [OF 2(1)] override_value_kept [OF 3]
    using 1(2) 2(2) by simp
qed

section \<open>Moving a rule\<close>

lemma find_index_Some:
  "find_index P xs = Some i \<Longrightarrow> i < length xs \<and> P (xs ! i) \<and> (\<forall>x\<in>set (take i xs). \<not> P x)"
  by (induction xs arbitrary: i) (auto split: if_splits)

lemma find_index_None: "find_index P xs = None \<longleftrightarrow> (\<forall>x\<in>set xs. \<not> P x)"
  by (induction xs) auto

lemma take_drop_nth: "i < length xs \<Longrightarrow> xs = take i xs @ xs ! i # drop (Suc i) xs"
  by (rule id_take_nth_drop)

lemma filter_without:
  assumes "distinct (map f xs)" and "i < length xs"
  shows "filter (\<lambda>x. f x \<noteq> f (xs ! i)) xs = take i xs @ drop (Suc i) xs"
proof -
  note split = take_drop_nth [OF assms(2)]
  then have "distinct (map f (take i xs @ xs ! i # drop (Suc i) xs))" using assms(1) by simp
  then have "filter (\<lambda>x. f x \<noteq> f (xs ! i)) (take i xs @ xs ! i # drop (Suc i) xs) = take i xs @ drop (Suc i) xs"
    by (auto simp: filter_id_conv image_iff intro!: arg_cong2 [of _ _ _ _ "(@)"]) metis+
  then show ?thesis using split by metis
qed

definition ids :: "override_operation list \<Rightarrow> jstr list" where
  "ids ops = map op_id ops"

lemma reorder_shape:
  assumes d: "distinct (ids ops)" and ne: "src \<noteq> []" "tgt \<noteq> []" "src \<noteq> tgt"
    and i: "src \<in> set (ids ops)" "tgt \<in> set (ids ops)"
  obtains m t as bs where "op_id m = src" "op_id t = tgt" "m \<in> set ops"
    and "filter (\<lambda>x. op_id x \<noteq> src) ops = as @ t # bs"
    and "reorderOperations ops src tgt p = as @ (if p = Before then [m, t] else [t, m]) @ bs"
proof -
  obtain i where i': "find_index (\<lambda>x. op_id x = src) ops = Some i"
    using i(1) by (cases "find_index (\<lambda>x. op_id x = src) ops") (auto simp: find_index_None ids_def)
  note fi = find_index_Some [OF i']
  let ?rest = "take i ops @ drop (Suc i) ops"
  have rest: "filter (\<lambda>x. op_id x \<noteq> src) ops = ?rest"
    using filter_without [of op_id ops i] d fi by (simp add: ids_def)
  have "\<exists>x\<in>set ?rest. op_id x = tgt"
    using i(2) ne(3) unfolding rest [symmetric] by (auto simp: ids_def)
  then obtain j where j: "find_index (\<lambda>x. op_id x = tgt) ?rest = Some j"
    by (cases "find_index (\<lambda>x. op_id x = tgt) ?rest") (auto simp: find_index_None)
  note fj = find_index_Some [OF j]
  have sp: "?rest = take j ?rest @ ?rest ! j # drop (Suc j) ?rest"
    using fj by (intro take_drop_nth) simp
  have tk: "take (Suc j) ?rest = take j ?rest @ [?rest ! j]" using fj by (intro take_Suc_conv_app_nth) simp
  have dr: "drop j ?rest = ?rest ! j # drop (Suc j) ?rest" using fj by (intro Cons_nth_drop_Suc [symmetric]) simp
  have "reorderOperations ops src tgt p
      = take j ?rest @ (if p = Before then [ops ! i, ?rest ! j] else [?rest ! j, ops ! i]) @ drop (Suc j) ?rest"
    using ne i' j dr tk by (cases p) (simp_all add: reorderOperations_def Let_def del: take_append drop_append)
  then show thesis using that [of "ops ! i" "?rest ! j" "take j ?rest" "drop (Suc j) ?rest"] fi fj sp rest by simp
qed

text \<open>Dropping a rule on another one moves it next to that one, before or after it, and changes
  nothing else: the other rules keep their order and no rule is lost or doubled. When either
  rule is not in the list, the list is unchanged.\<close>

theorem reorder_moves:
  assumes "distinct (ids ops)" and "src \<noteq> []" "tgt \<noteq> []" "src \<noteq> tgt"
  shows "if {src, tgt} \<subseteq> set (ids ops) then
      mset (reorderOperations ops src tgt p) = mset ops \<and>
      filter (\<lambda>x. op_id x \<noteq> src) (reorderOperations ops src tgt p) = filter (\<lambda>x. op_id x \<noteq> src) ops \<and>
      sublist (if p = Before then [src, tgt] else [tgt, src]) (ids (reorderOperations ops src tgt p))
    else reorderOperations ops src tgt p = ops"
proof (cases "{src, tgt} \<subseteq> set (ids ops)")
  case True
  then obtain m t as bs where m: "op_id m = src" "op_id t = tgt" "m \<in> set ops"
    and f: "filter (\<lambda>x. op_id x \<noteq> src) ops = as @ t # bs"
    and r: "reorderOperations ops src tgt p = as @ (if p = Before then [m, t] else [t, m]) @ bs"
    by - (rule reorder_shape [OF assms, where p = p], auto)
  have "set (as @ t # bs) \<subseteq> {x. op_id x \<noteq> src}" unfolding f [symmetric] by auto
  then have "filter (\<lambda>x. op_id x \<noteq> src) as = as" "filter (\<lambda>x. op_id x \<noteq> src) bs = bs" "op_id t \<noteq> src"
    by (auto intro!: filter_True)
  then have fr: "filter (\<lambda>x. op_id x \<noteq> src) (reorderOperations ops src tgt p) = as @ t # bs"
    using m(1) by (simp add: r)
  have "filter (\<lambda>x. op_id x = src) ops = [m]"
    using assms(1) m(1,3)
  proof (induction ops)
    case (Cons a ops)
    show ?case
    proof (cases "op_id a = src")
      case True
      with Cons.prems have "a = m" by (force simp: ids_def)
      moreover have "\<forall>x\<in>set ops. op_id x \<noteq> src" using Cons.prems True
        unfolding ids_def list.map distinct.simps by (metis imageI list.set_map)
      ultimately show ?thesis using True by (simp add: filter_empty_conv)
    next
      case False
      with Cons show ?thesis by (auto simp: ids_def)
    qed
  qed simp
  then have "mset ops = {#m#} + mset (as @ t # bs)"
    using multiset_partition [of "mset ops" "\<lambda>x. op_id x = src"] f by (metis mset.simps mset_filter)
  moreover have "ids (reorderOperations ops src tgt p)
      = map op_id as @ (if p = Before then [src, tgt] else [tgt, src]) @ map op_id bs"
    using m(1,2) by (simp add: r ids_def)
  then have "sublist (if p = Before then [src, tgt] else [tgt, src]) (ids (reorderOperations ops src tgt p))"
    by (simp only: sublist_appendI)
  ultimately show ?thesis using True fr f by (simp add: r)
next
  case False
  have "reorderOperations ops src tgt p = ops"
  proof (cases "find_index (\<lambda>x. op_id x = src) ops")
    case (Some i)
    then have "src \<in> set (ids ops)" using find_index_Some [OF Some] by (auto simp: ids_def)
    with False have "tgt \<notin> set (ids ops)" by simp
    then have "find_index (\<lambda>x. op_id x = tgt) (take i ops @ drop (Suc i) ops) = None"
      by (auto simp: find_index_None ids_def dest: in_set_takeD in_set_dropD)
    with Some show ?thesis by (simp add: reorderOperations_def Let_def)
  qed (simp add: reorderOperations_def)
  then show ?thesis by (simp only: False if_False)
qed

theorem reorder_moves_witness:
  "sublist [js ''c'', js ''a'']
     (ids (reorderOperations (map (\<lambda>i. operation_of i [] JNull) [js ''a'', js ''b'', js ''c'']) (js ''a'') (js ''c'') After))"
proof -
  let ?ops = "map (\<lambda>i. operation_of i [] JNull) [js ''a'', js ''b'', js ''c'']"
  have "ids ?ops = [js ''a'', js ''b'', js ''c'']" by (simp add: ids_def operation_of_def)
  then show ?thesis using reorder_moves [of ?ops "js ''a''" "js ''c''" After] by simp
qed

section \<open>Printed objects\<close>

text \<open>An object with plain keys reads back from its text.\<close>

definition plain_key :: "string \<Rightarrow> bool" where
  "plain_key k \<longleftrightarrow> array_index (js k) = None"

definition plain_obj :: "(jstr \<times> jsval) list \<Rightarrow> bool" where
  "plain_obj ps \<longleftrightarrow> distinct (map fst ps) \<and>
     (\<forall>p\<in>set ps. array_index (fst p) = None \<and> units_ok (fst p) \<and> json_wf (snd p))"

lemma plain_keyI [simp]: "\<not> is_digit (of_char c) \<Longrightarrow> plain_key (c # s)"
  by (simp add: plain_key_def array_index_def js_Cons)

lemma json_wf_plain: "plain_obj ps \<Longrightarrow> json_wf (JObj ps)"
  by (simp add: plain_obj_def own_entries_no_index)

lemma plain_obj_Nil [simp]: "plain_obj []"
  by (simp add: plain_obj_def)

lemma plain_obj_Cons [simp]:
  "plain_obj ((js k, v) # ps) \<longleftrightarrow> js k \<notin> fst ` set ps \<and> plain_key k \<and> json_wf v \<and> plain_obj ps"
  by (auto simp: plain_obj_def plain_key_def units_ok_js)

lemma plain_obj_set_prop_if [intro]:
  "plain_obj ps \<Longrightarrow> plain_key k \<Longrightarrow> (b \<Longrightarrow> json_wf v) \<Longrightarrow> plain_obj (set_prop_if b k v ps)"
  using set_obj_put_subset [of "js k" v ps]
  by (auto simp: set_prop_if_def set_prop_def plain_obj_def plain_key_def units_ok_js)

lemma map_of_set_prop_if [simp]:
  "map_of (set_prop_if b k v ps) (js k') = (if b \<and> k = k' then Some v else map_of ps (js k'))"
  by (simp add: set_prop_if_def set_prop_def)

lemma units_ok_trim [simp]: "units_ok s \<Longrightarrow> units_ok (trim s)"
  using set_trim_subset [of s] by (auto simp: units_ok_def list_all_iff)

lemma trim_stringify [simp]: "json_wf v \<Longrightarrow> trim (stringify v) = stringify v"
  by (simp add: stringify_trimmed)

section \<open>The draft of a custom error\<close>

lemma error_status_idem: "error_status (error_status x) = error_status x"
  by (simp add: error_status_def isInteger_def num_le_def)

lemma error_status_ok: "json_wf (JNum (error_status x))"
proof -
  have "json_wf (JNum (Fin 400))" by (simp add: num_ok_def)
  moreover have "num_ok x" if i: "isInteger x" and r: "num_le (Fin 100) x" "num_le x (Fin 599)"
  proof -
    obtain q where q: "x = Fin q" using i by (auto simp: isInteger_def split: jnum.splits)
    then have "q = of_int (floor q)" using i by (auto simp: isInteger_def floor_of_int elim!: Ints_cases)
    moreover have "\<bar>q\<bar> < 2 ^ 53" using r by (auto simp: q num_le_def num_eq_def)
    ultimately show ?thesis by (simp add: q num_ok_def)
  qed
  ultimately show ?thesis by (simp add: error_status_def)
qed

text \<open>What a draft is turned into by one update: texts without the white space around them, a status
  an answer can carry, and in simple mode only the message.\<close>

definition settled_error_draft :: "return_error_draft \<Rightarrow> return_error_draft" where
  "settled_error_draft d =
     (if red_simpleMode d then default_error_draft\<lparr>red_message := trim (red_message d)\<rparr>
      else d\<lparr>red_message := trim (red_message d), red_statusCode := error_status (red_statusCode d),
             red_code := trim (red_code d), red_type := trim (red_type d)\<rparr>)"

text \<open>Every keystroke in the editor of a custom error prints the draft and parses it again. The
  result is the settled draft: a message that ends in a space loses it at once, so words cannot
  be typed one after the other, and a status that is still too short to be one becomes 400. In
  simple mode this holds for messages that are not JSON objects.\<close>

theorem return_error_settles:
  assumes "units_ok (red_message d)" "units_ok (red_code d)" "units_ok (red_type d)"
    and "red_simpleMode d \<Longrightarrow> \<not> (\<exists>ps. json_parse (trim (red_message d)) = Some (JObj ps))"
  shows "parseReturnErrorDraft (buildReturnErrorValueText d) = settled_error_draft d"
proof (cases "red_simpleMode d")
  case True
  with assms(4) show ?thesis
    by (auto simp: parseReturnErrorDraft_def buildReturnErrorValueText_def settled_error_draft_def
        default_error_draft_def Let_def split: option.splits jsval.splits)
next
  case False
  let ?p = "set_prop_if (\<not> red_skipRetry d) ''skip_retry'' (JBool False)
     (set_prop_if (trim (red_type d) \<noteq> []) ''type'' (JStr (trim (red_type d)))
     (set_prop_if (trim (red_code d) \<noteq> []) ''code'' (JStr (trim (red_code d)))
       [(js ''message'', JStr (trim (red_message d))),
        (js ''status_code'', JNum (error_status (red_statusCode d)))]))"
  have "plain_obj ?p"
    using assms(1-3) error_status_ok by (intro plain_obj_set_prop_if) (simp_all add: is_digit_def)
  then have wf: "json_wf (JObj ?p)" by (rule json_wf_plain)
  have "buildReturnErrorValueText d = stringify (JObj ?p)"
    using False by (simp add: buildReturnErrorValueText_def Let_def)
  moreover have "parseReturnErrorDraft (stringify (JObj ?p)) = settled_error_draft d"
    using False unfolding parseReturnErrorDraft_def trim_stringify [OF wf] Let_def json_parse_stringify [OF wf]
    by (intro return_error_draft.equality)
      (simp_all add: stringify_nonempty [OF wf] settled_error_draft_def str_or_def error_status_idem
        del: stringify.simps)
  ultimately show ?thesis by simp
qed


theorem return_error_settles_witness:
  "let d = default_error_draft\<lparr>red_message := js ''not '', red_simpleMode := False, red_statusCode := Fin 42\<rparr>
   in parseReturnErrorDraft (buildReturnErrorValueText d) =
      default_error_draft\<lparr>red_message := js ''not'', red_simpleMode := False\<rparr>"
proof -
  let ?d = "default_error_draft\<lparr>red_message := js ''not '', red_simpleMode := False, red_statusCode := Fin 42\<rparr>"
  have "parseReturnErrorDraft (buildReturnErrorValueText ?d) = settled_error_draft ?d"
    by (rule return_error_settles) (simp_all add: units_ok_js default_error_draft_def)
  moreover have "trim (js ''not '') = js ''not''" by code_simp
  moreover have "error_status (Fin 42) = Fin 400" by (simp add: error_status_def num_le_def num_eq_def)
  ultimately show ?thesis by (simp add: settled_error_draft_def default_error_draft_def)
qed

section \<open>Targets of synchronised fields\<close>

text \<open>The two inputs of a target read back what was entered in them, whatever the key contains.\<close>

theorem sync_target_roundtrip:
  "trim key \<noteq> [] \<Longrightarrow>
   parseSyncTargetSpec (buildSyncTargetSpec ty key)
   = (if ty = js ''header'' then js ''header'' else js ''json'', trim key)"
proof -
  assume ne: "trim key \<noteq> []"
  let ?ty = "if ty = js ''header'' then js ''header'' else js ''json''"
  have "\<not> is_ws (last (trim key))" using trimmed_trim [of key] ne by (simp add: trimmed_def del: trimmed_trim)
  then have "trimmed (?ty @ 58 # trim key)" using ne by (auto simp: trimmed_def js_eval is_ws_def)
  moreover have "index_of [58] (?ty @ 58 # trim key) = Some (length ?ty)"
    by (simp add: index_of_single js_eval)
  moreover have "trim ?ty = ?ty" "lower_ascii ?ty = ?ty" by (auto; code_simp)+
  ultimately show ?thesis
    using ne by (auto simp: parseSyncTargetSpec_def buildSyncTargetSpec_def Let_def)
qed

section \<open>Rules read back\<close>

lemma get_prop_set_prop_if [simp]:
  "get_prop (JObj (set_prop_if b k v ps)) k' = (if b \<and> k = k' then Some v else get_prop (JObj ps) k')"
  by simp

lemma has_modeE: "has_mode ms m \<Longrightarrow> (\<And>s. s \<in> set ms \<Longrightarrow> m = js s \<Longrightarrow> P) \<Longrightarrow> P"
  by (auto simp: has_mode_def)

text \<open>A rule without its identifiers.\<close>

definition bare_condition :: "override_condition \<Rightarrow> override_condition" where
  "bare_condition c = c\<lparr>cond_id := []\<rparr>"

definition bare_operation :: "override_operation \<Rightarrow> override_operation" where
  "bare_operation op = op\<lparr>op_id := [], op_conditions := map bare_condition (op_conditions op)\<rparr>"

text \<open>
  What a printed rule opens as. Texts come back trimmed; a value text comes back as the text of
  the value it was printed as, so \<open>123\<close> in quotes comes back as the number; a path,
  source, value or switch the mode does not have comes back empty, whatever an earlier mode left
  in it, while a target is printed in every mode; a header rule with a path
  alias comes back with its fields; the condition logic is kept only with conditions, and
  conditions without a path are gone.
\<close>

definition settled_condition :: "override_condition \<Rightarrow> override_condition" where
  "settled_condition c =
     (let m = (if cond_mode c = [] then js ''full'' else cond_mode c)
      in \<lparr>cond_id = [], cond_path = trim (cond_path c),
          cond_mode = (if has_mode CONDITION_MODE_VALUES m then m else js ''full''),
          cond_value_text = toValueText (Some (parseLooseValue (cond_value_text c))),
          cond_invert = cond_invert c, cond_pass_missing_key = cond_pass_missing_key c\<rparr>)"

definition printed_conditions :: "override_operation \<Rightarrow> override_condition list" where
  "printed_conditions op = filter (\<lambda>c. trim (cond_path c) \<noteq> []) (op_conditions op)"

definition settled_operation :: "override_operation \<Rightarrow> override_operation" where
  "settled_operation op =
     (let meta = set (mode_meta (mode_of op)); path = trim (op_path op);
          alias = (MPathAlias \<in> meta \<and> path \<noteq> [])
      in \<lparr>op_id = [], op_description = trim (op_description op),
          op_path = (if MPath \<in> meta \<or> MPathOptional \<in> meta then path else []),
          op_mode = (if has_mode OPERATION_MODE_VALUES (mode_of op) then mode_of op else js ''set''),
          op_from = (if alias \<and> (MFrom \<in> meta \<longrightarrow> trim (op_from op) = []) then path
                     else if MFrom \<in> meta then trim (op_from op) else []),
          op_to = (if alias \<and> trim (op_to op) = [] then path else trim (op_to op)),
          op_value_text = (if MValue \<in> meta then toValueText (Some (parseLooseValue (op_value_text op))) else []),
          op_keep_origin = (MKeepOrigin \<in> meta \<and> op_keep_origin op),
          op_logic = (if printed_conditions op \<noteq> [] \<and> op_logic op = js ''AND'' then js ''AND'' else js ''OR''),
          op_conditions = map settled_condition (printed_conditions op)\<rparr>)"

text \<open>Texts a JSON text can hold, and values that are printed as they were parsed: numbers are in
  the range the printer of numbers is modelled for.\<close>

definition printable_condition :: "override_condition \<Rightarrow> bool" where
  "printable_condition c \<longleftrightarrow> units_ok (cond_path c) \<and> units_ok (cond_mode c)
     \<and> json_wf (parseLooseValue (cond_value_text c))"

definition printable_operation :: "override_operation \<Rightarrow> bool" where
  "printable_operation op \<longleftrightarrow> units_ok (op_mode op)
     \<and> (\<forall>t\<in>{op_description op, op_path op, op_from op, op_to op}. units_ok t)
     \<and> json_wf (parseLooseValue (op_value_text op))
     \<and> (\<forall>c\<in>set (op_conditions op). printable_condition c)"

text \<open>The rules that come back as they are: trimmed texts, values that are kept, and no entry in
  a field the mode does not have.\<close>

definition kept_text :: "jstr \<Rightarrow> bool" where
  "kept_text s \<longleftrightarrow> text_kept s \<and> json_wf (parseLooseValue s)"

definition clean_text :: "jstr \<Rightarrow> bool" where
  "clean_text s \<longleftrightarrow> trimmed s \<and> units_ok s"

definition canonical_condition :: "override_condition \<Rightarrow> bool" where
  "canonical_condition c \<longleftrightarrow> clean_text (cond_path c) \<and> cond_path c \<noteq> []
     \<and> has_mode CONDITION_MODE_VALUES (cond_mode c) \<and> kept_text (cond_value_text c)"

definition canonical_operation :: "override_operation \<Rightarrow> bool" where
  "canonical_operation op \<longleftrightarrow>
     has_mode OPERATION_MODE_VALUES (op_mode op)
     \<and> clean_text (op_description op) \<and> clean_text (op_path op) \<and> clean_text (op_from op) \<and> clean_text (op_to op)
     \<and> (op_path op \<noteq> [] \<longrightarrow> MPath \<in> set (mode_meta (op_mode op)) \<or> MPathOptional \<in> set (mode_meta (op_mode op)))
     \<and> (if MValue \<in> set (mode_meta (op_mode op)) then kept_text (op_value_text op) else op_value_text op = [])
     \<and> (op_keep_origin op \<longrightarrow> MKeepOrigin \<in> set (mode_meta (op_mode op)))
     \<and> (op_from op \<noteq> [] \<longrightarrow> MFrom \<in> set (mode_meta (op_mode op)))
     \<and> op_logic op \<in> {js ''AND'', js ''OR''} \<and> (op_conditions op = [] \<longrightarrow> op_logic op = js ''OR'')
     \<and> (\<forall>c\<in>set (op_conditions op). canonical_condition c)"

lemma clean_trim [simp]: "clean_text s \<Longrightarrow> trim s = s" "clean_text s \<Longrightarrow> units_ok s"
  by (simp_all add: clean_text_def)

lemma has_mode_nonempty: "has_mode OPERATION_MODE_VALUES m \<Longrightarrow> m \<noteq> [] \<and> units_ok m"
  "has_mode CONDITION_MODE_VALUES m \<Longrightarrow> m \<noteq> [] \<and> units_ok m"
  by (auto simp: has_mode_def OPERATION_MODE_VALUES_def CONDITION_MODE_VALUES_def units_ok_js)

lemma condition_printed:
  assumes "printable_condition c" "trim (cond_path c) \<noteq> []"
  obtains v where "buildConditionPayload c = Some v" "v \<noteq> JNull" "json_wf v"
    and "\<forall>i. bare_condition (condition_of i v) = settled_condition c"
proof -
  let ?m = "if cond_mode c = [] then js ''full'' else cond_mode c"
  let ?p = "set_prop_if (cond_pass_missing_key c) ''pass_missing_key'' (JBool True)
     (set_prop_if (cond_invert c) ''invert'' (JBool True)
       [(js ''path'', JStr (trim (cond_path c))), (js ''mode'', JStr ?m),
        (js ''value'', parseLooseValue (cond_value_text c))])"
  have b: "buildConditionPayload c = Some (JObj ?p)"
    using assms(2) by (simp add: buildConditionPayload_def)
  have "plain_obj ?p"
    using assms(1) by (intro plain_obj_set_prop_if) (simp_all add: is_digit_def printable_condition_def units_ok_js)
  then have wf: "json_wf (JObj ?p)" by (rule json_wf_plain)
  have "bare_condition (condition_of i (JObj ?p)) = settled_condition c" for i
    by (intro override_condition.equality)
      (simp_all add: bare_condition_def condition_of_def settled_condition_def str_prop_def true_prop_def mode_prop_def
         as_str_def Let_def)
  with b wf that show thesis by blast
qed

lemma normalizeCondition_override_ok:
  "v \<noteq> JNull \<Longrightarrow> normalizeCondition_override clk v n = (Some (condition_of (nextLocalId clk n) v), Suc n)"
  by (simp add: normalizeCondition_override_def)

lemma conditions_printed:
  assumes "\<forall>c\<in>set cs. printable_condition c"
  defines "vs \<equiv> List.map_filter buildConditionPayload cs" and "ps \<equiv> filter (\<lambda>c. trim (cond_path c) \<noteq> []) cs"
  shows "length vs = length ps" and "\<forall>v\<in>set vs. json_wf v"
    and "\<exists>cs'. gen_map (normalizeCondition_override clk) vs n = (Some cs', n + length ps) \<and>
               map bare_condition cs' = map settled_condition ps"
  using assms(1) unfolding vs_def ps_def
proof (induction cs arbitrary: n)
  case (Cons c cs)
  have none: "buildConditionPayload c = None" if "trim (cond_path c) = []"
    using that by (simp add: buildConditionPayload_def)
  {
    case 1
    show ?case
    proof (cases "trim (cond_path c) = []")
      case False
      from 1 have "printable_condition c" by simp
      then obtain v where "buildConditionPayload c = Some v" using False by (rule condition_printed)
      with False 1 Cons.IH(1) show ?thesis by (simp add: map_filter_def)
    qed (use 1 Cons.IH(1) none in \<open>simp add: map_filter_def\<close>)
  next
    case 2
    show ?case
    proof (cases "trim (cond_path c) = []")
      case False
      from 2 have "printable_condition c" by simp
      then obtain v where "buildConditionPayload c = Some v" "json_wf v" using False by (rule condition_printed)
      with False 2 Cons.IH(2) show ?thesis by (simp add: map_filter_def)
    qed (use 2 Cons.IH(2) none in \<open>simp add: map_filter_def\<close>)
  next
    case 3
    show ?case
    proof (cases "trim (cond_path c) = []")
      case True
      then show ?thesis using Cons.IH(3) [of n] 3 none by (simp add: map_filter_def)
    next
      case False
      from 3 have "printable_condition c" by simp
      then obtain v where v: "buildConditionPayload c = Some v" "v \<noteq> JNull"
        "\<forall>i. bare_condition (condition_of i v) = settled_condition c" using False by (rule condition_printed)
      obtain cs' where "gen_map (normalizeCondition_override clk) (List.map_filter buildConditionPayload cs) (Suc n)
          = (Some cs', Suc n + length (filter (\<lambda>c. trim (cond_path c) \<noteq> []) cs))"
        "map bare_condition cs' = map settled_condition (filter (\<lambda>c. trim (cond_path c) \<noteq> []) cs)"
        using 3 Cons.IH(3) [of "Suc n"] by auto
      with v False show ?thesis
        by (simp add: normalizeCondition_override_ok map_filter_def)
    qed
  }
qed simp_all


text \<open>The fields of a printed rule.\<close>

lemma operation_payload_props:
  fixes op defines "v \<equiv> operation_payload op" and "meta \<equiv> set (mode_meta (mode_of op))"
    and "cs \<equiv> List.map_filter buildConditionPayload (op_conditions op)"
  shows "v \<noteq> JNull"
    and "get_prop v ''mode'' = Some (JStr (mode_of op))"
    and "get_prop v ''description'' =
           (if trim (op_description op) \<noteq> [] then Some (JStr (trim (op_description op))) else None)"
    and "get_prop v ''path'' =
           (if MPath \<in> meta \<or> MPathOptional \<in> meta \<and> trim (op_path op) \<noteq> [] then Some (JStr (trim (op_path op))) else None)"
    and "get_prop v ''value'' = (if MValue \<in> meta then Some (parseLooseValue (op_value_text op)) else None)"
    and "get_prop v ''keep_origin'' = (if MKeepOrigin \<in> meta \<and> op_keep_origin op then Some (JBool True) else None)"
    and "get_prop v ''from'' =
           (if MPathAlias \<in> meta \<and> trim (op_path op) \<noteq> [] \<and> (MFrom \<in> meta \<longrightarrow> trim (op_from op) = [])
            then Some (JStr (trim (op_path op)))
            else if MFrom \<in> meta then Some (JStr (trim (op_from op))) else None)"
    and "get_prop v ''to'' =
           (if MPathAlias \<in> meta \<and> trim (op_path op) \<noteq> [] \<and> trim (op_to op) = []
            then Some (JStr (trim (op_path op)))
            else if MTo \<in> meta \<or> trim (op_to op) \<noteq> [] then Some (JStr (trim (op_to op))) else None)"
    and "get_prop v ''conditions'' = (if cs \<noteq> [] then Some (JArr cs) else None)"
    and "get_prop v ''logic'' =
           (if cs \<noteq> [] then Some (JStr (if op_logic op = js ''AND'' then js ''AND'' else js ''OR'')) else None)"
  unfolding v_def meta_def cs_def operation_payload_def Let_def
  by (auto simp: empty_prop_def truthy_opt_def)

lemma operation_payload_wf:
  assumes "units_ok (mode_of op)" "units_ok (op_description op)" "units_ok (op_path op)"
    "units_ok (op_from op)" "units_ok (op_to op)"
    and "MValue \<in> set (mode_meta (mode_of op)) \<Longrightarrow> json_wf (parseLooseValue (op_value_text op))"
    and "\<forall>v\<in>set (List.map_filter buildConditionPayload (op_conditions op)). json_wf v"
  shows "json_wf (operation_payload op)"
  unfolding operation_payload_def Let_def
  using assms by (intro json_wf_plain plain_obj_set_prop_if) (simp_all add: is_digit_def units_ok_js)


lemma units_mode_of: "units_ok (op_mode op) \<Longrightarrow> units_ok (mode_of op)"
  by (simp add: mode_of_def units_ok_js)

lemma printable_payload_wf: "printable_operation op \<Longrightarrow> json_wf (operation_payload op)"
  using conditions_printed(2) [of "op_conditions op"] units_mode_of [of op]
  by (intro operation_payload_wf) (auto simp: printable_operation_def)

lemma upper_cases: "upper_ascii (js ''OR'') = js ''OR''" "upper_ascii (js ''AND'') = js ''AND''"
  by code_simp+

lemma alias_no_path:
  "MPathAlias \<in> set (mode_meta m) \<Longrightarrow> MPath \<notin> set (mode_meta m) \<and> MPathOptional \<notin> set (mode_meta m)"
  by (auto simp: mode_meta_def MODE_META_def split: if_splits)

lemma operation_printed:
  assumes "printable_operation op"
  shows "\<exists>op' n'. normalizeOperation clk (operation_payload op) n = (Some op', n') \<and>
           bare_operation op' = settled_operation op"
proof -
  let ?v = "operation_payload op"
  let ?vs = "List.map_filter buildConditionPayload (op_conditions op)"
  note props = operation_payload_props [of op]
  have cs: "\<forall>c\<in>set (op_conditions op). printable_condition c" using assms by (simp add: printable_operation_def)
  note rt = conditions_printed [OF cs, folded printed_conditions_def]
  have empty: "?vs = [] \<longleftrightarrow> printed_conditions op = []" using rt(1) by (metis length_0_conv)
  have bare: "bare_operation (operation_of i cs' ?v) = settled_operation op"
    if "map bare_condition cs' = map settled_condition (printed_conditions op)" for i cs'
  proof -
    have logic: "(if upper_ascii (str_or (get_prop ?v ''logic'') (js ''OR'')) = js ''AND'' then js ''AND'' else js ''OR'')
        = (if printed_conditions op \<noteq> [] \<and> op_logic op = js ''AND'' then js ''AND'' else js ''OR'')"
      using empty by (auto simp: props str_or_def upper_cases)
    show ?thesis
      unfolding bare_operation_def operation_of_def settled_operation_def Let_def logic
      using empty
      by (intro override_operation.equality)
        (auto simp: that str_prop_def true_prop_def mode_prop_def as_str_def toValueText_def props)
  qed
  show ?thesis
  proof (cases "?vs = []")
    case True
    then show ?thesis using empty bare [of "[]"] props(1,9)
      by (simp add: normalizeOperation_def)
  next
    case False
    obtain cs' where cs': "gen_map (normalizeCondition_override clk) ?vs (Suc n) = (Some cs', Suc n + length (printed_conditions op))"
      "map bare_condition cs' = map settled_condition (printed_conditions op)" using rt(3) by blast
    with False bare [OF cs'(2)] props(1,9) show ?thesis by (simp add: normalizeOperation_def)
  qed
qed

lemma operations_printed:
  assumes "\<forall>op\<in>set ops. printable_operation op"
  shows "\<exists>ops' n'. gen_map (normalizeOperation clk) (map operation_payload ops) n = (Some ops', n') \<and>
           map bare_operation ops' = map settled_operation ops"
  using assms
proof (induction ops arbitrary: n)
  case (Cons op ops)
  obtain op' n1 where 1: "normalizeOperation clk (operation_payload op) n = (Some op', n1)"
    "bare_operation op' = settled_operation op" using operation_printed Cons.prems by (metis list.set_intros(1))
  obtain ops' n2 where 2: "gen_map (normalizeOperation clk) (map operation_payload ops) n1 = (Some ops', n2)"
    "map bare_operation ops' = map settled_operation ops" using Cons.IH Cons.prems by (metis list.set_intros(2))
  from 1 2 show ?case by simp
qed simp

text \<open>A rule in canonical form is printable and settles as it is.\<close>

lemma canonical_condition_settled: "canonical_condition c \<Longrightarrow> printable_condition c \<and> settled_condition c = bare_condition c"
  using has_mode_nonempty(2) [of "cond_mode c"]
  by (auto simp: canonical_condition_def printable_condition_def settled_condition_def bare_condition_def
      kept_text_def text_kept_def Let_def)

lemma canonical_settled:
  assumes "canonical_operation op"
  shows "settled_operation op = bare_operation op"
proof -
  note c = assms [unfolded canonical_operation_def]
  have m: "mode_of op = op_mode op" using c has_mode_nonempty(1) [of "op_mode op"] by (simp add: mode_of_def)
  have p: "printed_conditions op = op_conditions op"
    using c by (auto simp: printed_conditions_def filter_id_conv canonical_condition_def)
  have cs: "map settled_condition (op_conditions op) = map bare_condition (op_conditions op)"
    using c canonical_condition_settled by (intro map_cong) auto
  have noal: "\<not> (MPathAlias \<in> set (mode_meta (op_mode op)) \<and> op_path op \<noteq> [])"
    using c alias_no_path [of "op_mode op"] by blast
  have t: "trim (op_description op) = op_description op" "trim (op_path op) = op_path op"
    "trim (op_from op) = op_from op" "trim (op_to op) = op_to op"
    using c by simp_all
  have v: "(if MValue \<in> set (mode_meta (op_mode op)) then toValueText (Some (parseLooseValue (op_value_text op))) else [])
      = op_value_text op"
    using c by (auto simp: kept_text_def text_kept_def split: if_splits)
  have path: "(if MPath \<in> set (mode_meta (op_mode op)) \<or> MPathOptional \<in> set (mode_meta (op_mode op)) then op_path op else [])
      = op_path op" using c by auto
  have source: "(if MFrom \<in> set (mode_meta (op_mode op)) then op_from op else []) = op_from op" using c by auto
  have keep: "(MKeepOrigin \<in> set (mode_meta (op_mode op)) \<and> op_keep_origin op) = op_keep_origin op" using c by blast
  have logic: "(if op_conditions op \<noteq> [] \<and> op_logic op = js ''AND'' then js ''AND'' else js ''OR'') = op_logic op"
    using c by auto
  have mode: "(if has_mode OPERATION_MODE_VALUES (op_mode op) then op_mode op else js ''set'') = op_mode op"
    using c by simp
  show ?thesis
    unfolding settled_operation_def bare_operation_def m p Let_def t cs v path source keep logic mode
    using noal by (intro override_operation.equality) auto
qed

lemma pretty_obj_trimmed: "trimmed (pretty n (JObj ps))" "pretty n (JObj ps) \<noteq> []"
  by (auto simp: trimmed_def js_eval)

text \<open>C17 The rules of the editor that are not blank survive being printed and opened again, in order,
  up to identifiers and in their settled form: texts are trimmed, a value is shown as the text of
  what its text was parsed as (\<open>123\<close> typed in quotes comes back without them), a path, source, value
  or switch the mode does not have is gone though an earlier mode had filled it (a target is
  printed in every mode), an alias fills the fields it stands for,
  the logic is \<open>OR\<close> without conditions, and conditions without a path are gone. A rule in canonical
  form comes back as it is. The text opens in the visual mode; numbers in values are in the range
  the printer of numbers is modelled for.\<close>

theorem override_roundtrip:
  assumes "\<forall>op\<in>set ops. printable_operation op"
    and "buildOperationsJson tr b ops = Inr text" and "text \<noteq> []"
  shows "\<exists>st n'. parseInitialState clk text n = (Some st, n') \<and> es_editMode st = VisualEdit \<and>
    es_visualMode st = OperationsMode \<and>
    map bare_operation (es_operations st) =
      map (\<lambda>op. if canonical_operation op then bare_operation op else settled_operation op)
        (filter (\<lambda>op. \<not> isOperationBlank op) ops)"
proof -
  let ?ops = "filter (\<lambda>op. \<not> isOperationBlank op) ops"
  let ?ps = "[(js ''operations'', JArr (map operation_payload ?ops))]"
  have ne: "?ops \<noteq> []" and printed: "text = pretty 0 (JObj ?ps)"
    using assms(2,3) by (auto simp: buildOperationsJson_def Let_def simp del: pretty.simps split: if_splits)
  have p: "\<forall>op\<in>set ?ops. printable_operation op" using assms(1) by simp
  then have "plain_obj ?ps" using printable_payload_wf by (auto simp: is_digit_def)
  then have wf: "json_wf (JObj ?ps)" by (rule json_wf_plain)
  obtain ops' n' where o: "gen_map (normalizeOperation clk) (map operation_payload ?ops) n = (Some ops', n')"
    "map bare_operation ops' = map settled_operation ?ops" using operations_printed [OF p] by metis
  have "map settled_operation ?ops = map (\<lambda>op. if canonical_operation op then bare_operation op else settled_operation op) ?ops"
    by (simp add: canonical_settled)
  with o show ?thesis
    using ne pretty_obj_trimmed [of 0 ?ps]
    by (simp add: parseInitialState_def printed json_parse_pretty [OF wf] operations_of_def
        createDefaultOperation_def Let_def del: pretty.simps)
qed

theorem override_roundtrip_witness:
  "let op = operation_of (js ''a'') [condition_of (js ''b'') (JObj [(js ''path'', JStr (js ''model'')),
              (js ''mode'', JStr (js ''prefix'')), (js ''value'', JStr (js ''openai/''))])]
        (JObj [(js ''path'', JStr (js ''user'')), (js ''mode'', JStr (js ''append'')),
               (js ''value'', JStr (js ''-proxy'')), (js ''logic'', JStr (js ''and''))]);
       text = pretty 0 (JObj [(js ''operations'', JArr [operation_payload op])])
   in \<exists>st n'. parseInitialState (\<lambda>_. 0) text 7 = (Some st, n') \<and>
        map bare_operation (es_operations st) = [bare_operation op]"
proof -
  let ?op = "operation_of (js ''a'') [condition_of (js ''b'') (JObj [(js ''path'', JStr (js ''model'')),
              (js ''mode'', JStr (js ''prefix'')), (js ''value'', JStr (js ''openai/''))])]
        (JObj [(js ''path'', JStr (js ''user'')), (js ''mode'', JStr (js ''append'')),
               (js ''value'', JStr (js ''-proxy'')), (js ''logic'', JStr (js ''and''))])"
  have c': "canonical_operation ?op" "\<not> isOperationBlank ?op" "printable_operation ?op" by code_simp+
  obtain op where op: "op = ?op" by blast
  note c = c' [folded op]
  let ?text = "pretty 0 (JObj [(js ''operations'', JArr [operation_payload op])])"
  have b: "buildOperationsJson (\<lambda>_ _. []) False [op] = Inr ?text"
    using c by (simp add: buildOperationsJson_def del: pretty.simps)
  have p: "\<forall>op\<in>set [op]. printable_operation op" using c(3) by simp
  obtain st n' where "parseInitialState (\<lambda>_. 0) ?text 7 = (Some st, n')"
    "map bare_operation (es_operations st) = [bare_operation op]"
    using override_roundtrip [OF p b pretty_obj_trimmed(2), of "\<lambda>_. 0" 7] c by auto
  then show ?thesis unfolding Let_def op by (intro exI conjI)
qed

section \<open>Validated rules are complete\<close>

text \<open>What the server needs of a printed rule. The value of a mode that requires one is what the text
  of the rule parses as, and that text is not blank; so the value is the empty text only for a
  rule whose text spells it out in quotes.\<close>

definition complete_rule :: "override_operation \<Rightarrow> bool" where
  "complete_rule op \<longleftrightarrow>
     (let v = operation_payload op; mode = str_prop v ''mode''; raw = trim (op_value_text op)
      in mode = mode_of op
         \<and> (MPath \<in> set (mode_meta mode) \<longrightarrow> str_prop v ''path'' \<noteq> [])
         \<and> (has_mode FROM_REQUIRED_MODES mode \<longrightarrow> str_prop v ''from'' \<noteq> [])
         \<and> (has_mode TO_REQUIRED_MODES mode \<longrightarrow> str_prop v ''to'' \<noteq> [])
         \<and> (has_mode VALUE_REQUIRED_MODES mode \<longrightarrow>
              raw \<noteq> [] \<and> get_prop v ''value'' = Some (parseLooseValue raw)
              \<and> (get_prop v ''value'' = Some (JStr []) \<longrightarrow> json_parse raw = Some (JStr [])))
         \<and> (mode = js ''return_error'' \<longrightarrow>
              (\<forall>ps. get_prop v ''value'' = Some (JObj ps) \<longrightarrow>
                 trim (str_or (get_prop (JObj ps) ''message'') []) \<noteq> []))
         \<and> (mode = js ''pass_headers'' \<longrightarrow>
              parsePassHeaderNames (the (get_prop v ''value'')) \<noteq> []))"

lemma required_fields:
  "has_mode FROM_REQUIRED_MODES m \<Longrightarrow> MFrom \<in> set (mode_meta m)"
  "has_mode TO_REQUIRED_MODES m \<Longrightarrow> MTo \<in> set (mode_meta m)"
  "has_mode VALUE_REQUIRED_MODES m \<Longrightarrow> MValue \<in> set (mode_meta m)"
  by (auto simp: has_mode_def FROM_REQUIRED_MODES_def TO_REQUIRED_MODES_def VALUE_REQUIRED_MODES_def
      mode_meta_def MODE_META_def)

lemma required_value_modes:
  "has_mode VALUE_REQUIRED_MODES (js ''return_error'')" "has_mode VALUE_REQUIRED_MODES (js ''pass_headers'')"
  by (simp_all add: has_mode_def VALUE_REQUIRED_MODES_def)

lemma parseLooseValue_trim [simp]: "parseLooseValue (trim s) = parseLooseValue s"
  by (simp add: parseLooseValue_def)

lemma parseLooseValue_obj: "parseLooseValue s = JObj ps \<Longrightarrow> json_parse (trim s) = Some (JObj ps)"
  by (auto simp: parseLooseValue_def Let_def split: if_splits option.splits)

lemma no_issue_complete:
  assumes "operation_issue op = None"
  shows "complete_rule op"
proof -
  let ?v = "operation_payload op"
  note props = operation_payload_props [of op]
  have mode: "str_prop ?v ''mode'' = mode_of op" by (simp add: str_prop_def as_str_def props)
  note issue = assms [unfolded operation_issue_def Let_def]
  have "MPath \<in> set (mode_meta (mode_of op)) \<longrightarrow> str_prop ?v ''path'' \<noteq> []"
    using issue by (auto simp: str_prop_def as_str_def props split: if_splits)
  moreover have "has_mode FROM_REQUIRED_MODES (mode_of op) \<longrightarrow> str_prop ?v ''from'' \<noteq> []"
    using issue required_fields(1) by (auto simp: str_prop_def as_str_def props split: if_splits)
  moreover have "has_mode TO_REQUIRED_MODES (mode_of op) \<longrightarrow> str_prop ?v ''to'' \<noteq> []"
    using issue required_fields(2) by (auto simp: str_prop_def as_str_def props split: if_splits)
  moreover have "has_mode VALUE_REQUIRED_MODES (mode_of op) \<longrightarrow> trim (op_value_text op) \<noteq> []"
    using issue by (auto split: if_splits)
  moreover have "has_mode VALUE_REQUIRED_MODES (mode_of op) \<longrightarrow>
      get_prop ?v ''value'' = Some (parseLooseValue (trim (op_value_text op)))"
    using required_fields(3) by (simp add: props)
  moreover have "json_parse (trim s) = Some (JStr [])" if "parseLooseValue s = JStr []" "trim s \<noteq> []" for s
    using that by (auto simp: parseLooseValue_def Let_def split: option.splits)
  moreover have "trim (str_or (get_prop (JObj ps) ''message'') []) \<noteq> []"
    if "mode_of op = js ''return_error''" "get_prop ?v ''value'' = Some (JObj ps)" for ps
  proof -
    have "parseLooseValue (op_value_text op) = JObj ps" using that by (simp add: props split: if_splits)
    then have "json_parse (trim (op_value_text op)) = Some (JObj ps)" by (rule parseLooseValue_obj)
    then show ?thesis using issue that(1) by (auto split: if_splits)
  qed
  moreover have "parsePassHeaderNames (the (get_prop ?v ''value'')) \<noteq> []" if "mode_of op = js ''pass_headers''"
    using issue that required_fields(3) [OF required_value_modes(2)] by (auto simp: props split: if_splits)
  ultimately show ?thesis unfolding complete_rule_def Let_def mode by auto
qed

text \<open>C18 What a saved text asks of the server is complete: when the rules pass validation, the text
  is the list of the rules that are not blank, and every printed rule has the target path, source
  and target its mode needs, the ones of a header rule possibly from its path; the text of a value
  that is required is not blank and the value printed is what it parses as; a custom error given
  as an object has a message, and a header rule names a header. No translation of a message is
  empty.\<close>

theorem validated_rules_complete:
  assumes "\<And>k n. tr k n \<noteq> []" and "buildOperationsJson tr True ops = Inr text" and "text \<noteq> []"
  shows "\<exists>ops'. text = pretty 0 (JObj [(js ''operations'', JArr (map operation_payload ops'))]) \<and> ops' \<noteq> [] \<and>
    ops' = filter (\<lambda>op. \<not> isOperationBlank op) ops \<and> (\<forall>op\<in>set ops'. complete_rule op)"
proof -
  let ?ops = "filter (\<lambda>op. \<not> isOperationBlank op) ops"
  have b: "?ops \<noteq> []" "validateOperations tr ?ops = []" "text = pretty 0 (JObj [(js ''operations'', JArr (map operation_payload ?ops))])"
    using assms(2,3) by (auto simp: buildOperationsJson_def Let_def simp del: pretty.simps split: if_splits)
  have "\<forall>op\<in>set xs. operation_issue op = None" if "validate_from tr line xs = []" for line xs
    using that assms(1) by (induction xs arbitrary: line) (auto split: option.splits)
  then have "\<forall>op\<in>set ?ops. operation_issue op = None" using b(2) unfolding validateOperations_def by blast
  then show ?thesis using b no_issue_complete by (intro exI [of _ ?ops]) auto
qed

theorem validated_rules_complete_witness:
  "let op = operation_of (js ''a'') [] (JObj [(js ''mode'', JStr (js ''copy_header'')), (js ''path'', JStr (js ''X-Id''))])
   in complete_rule op"
proof -
  let ?op = "operation_of (js ''a'') [] (JObj [(js ''mode'', JStr (js ''copy_header'')), (js ''path'', JStr (js ''X-Id''))])"
  have "\<not> isOperationBlank ?op" "operation_issue ?op = None" by code_simp+
  then have b: "buildOperationsJson (\<lambda>_ _. js ''error'') True [?op]
      = Inr (pretty 0 (JObj [(js ''operations'', JArr [operation_payload ?op])]))"
    by (simp add: buildOperationsJson_def validateOperations_def del: pretty.simps)
  from validated_rules_complete [OF _ b] \<open>\<not> isOperationBlank ?op\<close> pretty_obj_trimmed(2)
  show ?thesis unfolding Let_def by auto
qed

end
