(* ===== verification/ParamEditorProps.thy ===== *)
theory ParamEditorProps
  imports ParamEditor ParamOverrideProps
begin

text \<open>
  Sessions with the parameter override editor: identifiers are fresh, the rules stay well typed
  through every action, switching modes settles them and keeps those in canonical form, what is saved is JSON, and the edits of
  prune rules that are lost.
\<close>

section \<open>Fresh identifiers\<close>

lemma nat_str_no_underscore: "95 \<notin> set (nat_str n)"
  using nat_str_digits [of n] by (auto simp: list_all_iff is_digit_def)

lemma nextLocalId_inj: "nextLocalId clk m = nextLocalId clk n \<longleftrightarrow> m = n"
proof
  assume "nextLocalId clk m = nextLocalId clk n"
  then have "rev (nat_str m) @ 95 # rev (js ''po_'' @ nat_str (clk m)) = rev (nat_str n) @ 95 # rev (js ''po_'' @ nat_str (clk n))"
    unfolding nextLocalId_def by (metis append_assoc append_Cons append_Nil rev.simps(2) rev_append)
  then have "takeWhile (\<lambda>c. c \<noteq> 95) (rev (nat_str m) @ 95 # rev (js ''po_'' @ nat_str (clk m)))
      = takeWhile (\<lambda>c. c \<noteq> 95) (rev (nat_str n) @ 95 # rev (js ''po_'' @ nat_str (clk n)))" by metis
  moreover have "takeWhile (\<lambda>c. c \<noteq> 95) (rev (nat_str k) @ 95 # t) = rev (nat_str k)" for k t
    using nat_str_no_underscore [of k] by (subst takeWhile_append2) auto
  ultimately show "m = n" by (simp add: nat_str_inj)
qed simp

lemma nextLocalId_nonempty [simp]: "nextLocalId clk n \<noteq> []"
  by (simp add: nextLocalId_def)

text \<open>Distinct identifiers of the counter values from \<open>a\<close> up to \<open>b\<close>.\<close>

definition issued :: "(nat \<Rightarrow> nat) \<Rightarrow> nat \<Rightarrow> nat \<Rightarrow> jstr list \<Rightarrow> bool" where
  "issued clk a b xs \<longleftrightarrow> distinct xs \<and> (\<forall>x\<in>set xs. \<exists>k. a \<le> k \<and> k < b \<and> x = nextLocalId clk k)"

lemma issued_Nil [simp]: "issued clk a b []"
  by (simp add: issued_def)

lemma issued_single: "issued clk n (Suc n) [nextLocalId clk n]"
  by (auto simp: issued_def)

lemma issued_mono: "issued clk a b xs \<Longrightarrow> a' \<le> a \<Longrightarrow> b \<le> b' \<Longrightarrow> issued clk a' b' xs"
  unfolding issued_def by (meson le_trans less_le_trans)

lemma issued_append:
  assumes "issued clk a b xs" "issued clk b c ys" "a \<le> b" "b \<le> c"
  shows "issued clk a c (xs @ ys)"
proof -
  have "set xs \<inter> set ys = {}"
    using assms unfolding issued_def disjoint_iff by (metis nextLocalId_inj not_le)
  moreover have "\<exists>k\<ge>a. k < c \<and> x = nextLocalId clk k" if "x \<in> set (xs @ ys)" for x
    using that assms unfolding issued_def set_append by (meson UnE le_trans less_le_trans)
  ultimately show ?thesis using assms by (simp add: issued_def)
qed

lemma issued_submset:
  assumes "issued clk a b xs" and "mset ys \<subseteq># mset xs"
  shows "issued clk a b ys"
proof -
  have "count (mset xs) x \<le> 1" for x
    using assms(1) distinct_count_atmost_1 [of xs] by (simp add: issued_def)
  then have c: "count (mset ys) x \<le> 1" for x
    using mset_subset_eq_count [OF assms(2), of x] order_trans by blast
  have "count (mset ys) x = (if x \<in> set ys then 1 else 0)" for x
    using c [of x] count_mset_0_iff [of ys x] by (cases "count (mset ys) x") auto
  then have "distinct ys" by (simp add: distinct_count_atmost_1)
  moreover have "set ys \<subseteq> set xs" using assms(2) by (metis set_mset_mono set_mset_mset)
  ultimately show ?thesis using assms(1) by (auto simp: issued_def)
qed

text \<open>A function that takes identifiers: what it makes is good, and its names are the identifiers
  it took. Then the same holds of a list of calls.\<close>

locale id_source =
  fixes clk :: "nat \<Rightarrow> nat" and f :: "'a \<Rightarrow> 'b gen" and names :: "'b \<Rightarrow> jstr list" and good :: "'b \<Rightarrow> bool"
  assumes takes: "f x n = (r, n') \<Longrightarrow> n \<le> n'"
    and makes: "f x n = (Some y, n') \<Longrightarrow> good y \<and> issued clk n n' (names y)"
begin

lemma map_takes: "gen_map f xs n = (r, n') \<Longrightarrow> n \<le> n'"
proof (induction xs arbitrary: n r)
  case (Cons x xs)
  then show ?case by (fastforce split: prod.splits option.splits dest: takes)
qed simp

lemma map_makes:
  "gen_map f xs n = (Some ys, n') \<Longrightarrow>
   length ys = length xs \<and> list_all good ys \<and> issued clk n n' (concat (map names ys))"
proof (induction xs arbitrary: n ys)
  case (Cons x xs)
  obtain y n1 ys' where y: "f x n = (Some y, n1)" and ys: "gen_map f xs n1 = (Some ys', n')" "ys = y # ys'"
    using Cons.prems by (auto split: prod.splits option.splits)
  with Cons.IH [OF ys(1)] makes [OF y] takes [OF y] map_takes [OF ys(1)]
  show ?case by (auto intro: issued_append)
qed simp

end

section \<open>What the editor makes\<close>

definition typed_condition :: "override_condition \<Rightarrow> bool" where
  "typed_condition c \<longleftrightarrow> has_mode CONDITION_MODE_VALUES (cond_mode c)"

definition typed_operation :: "override_operation \<Rightarrow> bool" where
  "typed_operation op \<longleftrightarrow> has_mode OPERATION_MODE_VALUES (op_mode op)
     \<and> op_logic op \<in> {js ''AND'', js ''OR''} \<and> list_all typed_condition (op_conditions op)"

definition operation_names :: "override_operation \<Rightarrow> jstr list" where
  "operation_names op = op_id op # map cond_id (op_conditions op)"

lemma mode_prop_typed: "d \<in> set ms \<Longrightarrow> has_mode ms (mode_prop ms d v)"
  by (auto simp: mode_prop_def has_mode_def split: option.splits)

lemma condition_of_typed [simp]: "typed_condition (condition_of i v)"
  by (simp add: typed_condition_def condition_of_def mode_prop_typed CONDITION_MODE_VALUES_def)

lemma condition_of_id [simp]: "cond_id (condition_of i v) = i"
  by (simp add: condition_of_def)

lemma operation_of_typed [simp]: "typed_operation (operation_of i cs v) \<longleftrightarrow> list_all typed_condition cs"
  by (simp add: typed_operation_def operation_of_def mode_prop_typed OPERATION_MODE_VALUES_def)

lemma operation_of_names [simp]: "operation_names (operation_of i cs v) = i # map cond_id cs"
  "op_id (operation_of i cs v) = i"
  by (simp_all add: operation_names_def operation_of_def)

interpretation condition_ids: id_source clk "normalizeCondition_override clk" "\<lambda>c. [cond_id c]" typed_condition for clk
  by unfold_locales (auto simp: normalizeCondition_override_def issued_single split: if_splits)

lemma normalizeOperation_makes:
  assumes "normalizeOperation clk v n = (r, n')"
  shows "n < n'" and "r = Some y \<Longrightarrow> typed_operation y \<and> issued clk n n' (operation_names y)"
proof -
  consider (null) "v = JNull" "r = None" "n' = Suc n"
    | (plain) "r = Some (operation_of (nextLocalId clk n) [] v)" "n' = Suc n"
    | (conds) vs r' where "gen_map (normalizeCondition_override clk) vs (Suc n) = (r', n')"
        "r = map_option (\<lambda>cs. operation_of (nextLocalId clk n) cs v) r'"
    using assms by (auto simp: normalizeOperation_def split: if_splits option.splits jsval.splits prod.splits)
  note cases = this
  show "n < n'"
    using cases condition_ids.map_takes by cases (auto dest: condition_ids.map_takes)
  show "typed_operation y \<and> issued clk n n' (operation_names y)" if "r = Some y"
    using cases
  proof cases
    case conds
    with that obtain cs where cs: "r' = Some cs" "y = operation_of (nextLocalId clk n) cs v" by auto
    have "issued clk n n' ([nextLocalId clk n] @ concat (map (\<lambda>c. [cond_id c]) cs))"
      using condition_ids.map_makes [of clk vs "Suc n" cs n'] condition_ids.map_takes [of clk vs "Suc n"] conds(1) cs(1)
      by (intro issued_append [OF issued_single]) auto
    moreover have "concat (map (\<lambda>c. [cond_id c]) cs) = map cond_id cs" by (induction cs) auto
    ultimately show ?thesis
      using condition_ids.map_makes [of clk vs "Suc n" cs n'] conds(1) cs by simp
  qed (use that in \<open>auto simp: issued_single\<close>)
qed

interpretation operation_ids: id_source clk "normalizeOperation clk" operation_names typed_operation for clk
proof
  fix v n n' and r :: "override_operation option" and y
  show "normalizeOperation clk v n = (r, n') \<Longrightarrow> n \<le> n'" using normalizeOperation_makes(1) by (simp add: less_imp_le)
  show "normalizeOperation clk v n = (Some y, n') \<Longrightarrow> typed_operation y \<and> issued clk n n' (operation_names y)"
    using normalizeOperation_makes(2) by simp
qed

lemma default_operation_makes:
  "createDefaultOperation clk n = (d, n') \<Longrightarrow> n' = Suc n \<and> typed_operation d \<and> operation_names d = [nextLocalId clk n]
     \<and> op_id d = nextLocalId clk n"
  by (auto simp: createDefaultOperation_def)

definition all_names :: "override_operation list \<Rightarrow> jstr list" where
  "all_names ops = concat (map operation_names ops)"

lemma all_names_simps [simp]: "all_names [] = []" "all_names (o1 # ops) = operation_names o1 @ all_names ops"
  "all_names (xs @ ys) = all_names xs @ all_names ys"
  by (simp_all add: all_names_def)

text \<open>A list of rules a state may hold, its identifiers taken between two values of the counter.\<close>

definition rules_ok :: "(nat \<Rightarrow> nat) \<Rightarrow> nat \<Rightarrow> nat \<Rightarrow> override_operation list \<Rightarrow> bool" where
  "rules_ok clk a b ops \<longleftrightarrow> ops \<noteq> [] \<and> list_all typed_operation ops \<and> issued clk a b (all_names ops)"

lemma rules_ok_mono: "rules_ok clk a b ops \<Longrightarrow> a' \<le> a \<Longrightarrow> b \<le> b' \<Longrightarrow> rules_ok clk a' b' ops"
  using issued_mono by (auto simp: rules_ok_def)

lemma rules_ok_default: "createDefaultOperation clk n = (d, n') \<Longrightarrow> n < n' \<and> rules_ok clk n n' [d]"
  using default_operation_makes [of clk n d n'] issued_single [of clk n] by (simp add: rules_ok_def)

lemma rules_ok_map:
  "gen_map (normalizeOperation clk) vs n = (Some ops, n') \<Longrightarrow> vs \<noteq> [] \<Longrightarrow> n \<le> n' \<and> rules_ok clk n n' ops"
  using operation_ids.map_makes [of clk vs n ops n'] operation_ids.map_takes [of clk vs n "Some ops" n']
  by (auto simp: rules_ok_def all_names_def)

lemma rules_ok_operations_of:
  assumes "operations_of clk vs n = (Some ops, n')"
  shows "n \<le> n' \<and> rules_ok clk n n' ops"
proof (cases "vs = []")
  case True
  then show ?thesis using assms rules_ok_default [of clk n] by (fastforce simp: operations_of_def split: prod.splits)
qed (use assms rules_ok_map in \<open>simp add: operations_of_def\<close>)

lemma operations_of_takes: "operations_of clk vs n = (r, n') \<Longrightarrow> n \<le> n'"
  by (auto simp: operations_of_def createDefaultOperation_def split: if_splits prod.splits dest: operation_ids.map_takes)

lemma rules_ok_append:
  "rules_ok clk a b xs \<Longrightarrow> rules_ok clk b c ys \<Longrightarrow> a \<le> b \<Longrightarrow> b \<le> c \<Longrightarrow> rules_ok clk a c (xs @ ys)"
  using issued_append by (auto simp: rules_ok_def)

text \<open>Changes of a list that keep or drop names.\<close>

lemma rules_ok_sub:
  assumes "rules_ok clk a b ops" and "ops' \<noteq> []" and "list_all typed_operation ops'"
    and "mset (all_names ops') \<subseteq># mset (all_names ops)"
  shows "rules_ok clk a b ops'"
  using assms issued_submset by (auto simp: rules_ok_def)

lemma mset_all_names: "mset (all_names ops) = (\<Sum>o1\<in>#mset ops. mset (operation_names o1))"
  by (induction ops) auto

lemma all_names_filter: "mset (all_names (filter P ops)) \<subseteq># mset (all_names ops)"
  by (induction ops) (auto intro: subset_mset.add_mono subset_mset.add_increasing)

section \<open>A session with the editor\<close>

text \<open>Everything the user or an effect can do with the open dialog.\<close>

datatype editor_action =
  Open jstr | KeepSelected
  | UpdateOperation jstr "operation_patch list" | AddOperation | DuplicateOperation bool jstr | RemoveOperation jstr
  | AddCondition jstr | UpdateCondition jstr jstr "condition_patch list" | RemoveCondition jstr jstr
  | UpdateReturnError jstr "return_error_patch list"
  | ShowPruneDraft | UpdatePrune jstr "prune_patch list" | AddPruneRule jstr
  | UpdatePruneRule jstr jstr "condition_patch list" | RemovePruneRule jstr jstr
  | DragStart jstr | DragOver jstr bool | DragEnd | Drop jstr jstr
  | ToJson | ToVisual | FillTemplate fill_mode | Reset | JsonChange jstr | FormatJson
  | LegacyValue jstr | Select jstr | TemplateKey jstr | Search jstr | Expand jstr bool | ExpandAll | CollapseAll

fun perform :: "(nat \<Rightarrow> nat) \<Rightarrow> translator \<Rightarrow> editor_action \<Rightarrow> editor \<Rightarrow> editor" where
  "perform clk tr (Open s) = open_dialog clk s"
| "perform clk tr KeepSelected = keep_selected"
| "perform clk tr (UpdateOperation i ps) = updateOperation i ps"
| "perform clk tr AddOperation = addOperation clk"
| "perform clk tr (DuplicateOperation b i) = duplicateOperation clk b i"
| "perform clk tr (RemoveOperation i) = removeOperation clk i"
| "perform clk tr (AddCondition i) = addCondition clk i"
| "perform clk tr (UpdateCondition i ci ps) = updateCondition i ci ps"
| "perform clk tr (RemoveCondition i ci) = removeCondition i ci"
| "perform clk tr (UpdateReturnError i ps) = updateReturnErrorDraft i ps"
| "perform clk tr ShowPruneDraft = (\<lambda>e. snd (pruneObjectsDraft clk e))"
| "perform clk tr (UpdatePrune i ps) = updatePruneObjectsDraft clk i (patch_updater ps)"
| "perform clk tr (AddPruneRule i) = addPruneRule clk i"
| "perform clk tr (UpdatePruneRule i ri ps) = updatePruneRule clk i ri ps"
| "perform clk tr (RemovePruneRule i ri) = removePruneRule clk i ri"
| "perform clk tr (DragStart i) = handleDragStart i"
| "perform clk tr (DragOver i b) = handleDragOver i b"
| "perform clk tr DragEnd = resetDragState"
| "perform clk tr (Drop i s) = handleDrop i s"
| "perform clk tr ToJson = switchToJsonMode tr"
| "perform clk tr ToVisual = switchToVisualMode clk"
| "perform clk tr (FillTemplate m) = fillTemplate clk m"
| "perform clk tr Reset = resetEditorState clk"
| "perform clk tr (JsonChange s) = handleJsonChange tr s"
| "perform clk tr FormatJson = formatJson"
| "perform clk tr (LegacyValue s) = setLegacyValue s"
| "perform clk tr (Select i) = setSelectedOperationId i"
| "perform clk tr (TemplateKey k) = setTemplatePresetKey k"
| "perform clk tr (Search s) = setOperationSearch s"
| "perform clk tr (Expand ci b) = setExpandedCondition ci b"
| "perform clk tr ExpandAll = expandAllConditions"
| "perform clk tr CollapseAll = collapseAllConditions"

text \<open>The selects of the form offer only the modes and logics there are.\<close>

fun typed_patch :: "operation_patch \<Rightarrow> bool" where
  "typed_patch (PMode m) = has_mode OPERATION_MODE_VALUES m"
| "typed_patch (PLogic l) = (l \<in> {js ''AND'', js ''OR''})"
| "typed_patch _ = True"

fun typed_condition_patch :: "condition_patch \<Rightarrow> bool" where
  "typed_condition_patch (CMode m) = has_mode CONDITION_MODE_VALUES m"
| "typed_condition_patch _ = True"

fun typed_action :: "editor_action \<Rightarrow> bool" where
  "typed_action (UpdateOperation i ps) = list_all typed_patch ps"
| "typed_action (UpdateCondition i ci ps) = list_all typed_condition_patch ps"
| "typed_action _ = True"

inductive editor_reach :: "(nat \<Rightarrow> nat) \<Rightarrow> translator \<Rightarrow> editor \<Rightarrow> bool" for clk tr where
  start: "editor_reach clk tr (initial_editor clk n)"
| act: "editor_reach clk tr e \<Longrightarrow> typed_action a \<Longrightarrow> editor_reach clk tr (perform clk tr a e)"

definition editor_ok :: "(nat \<Rightarrow> nat) \<Rightarrow> editor \<Rightarrow> bool" where
  "editor_ok clk e \<longleftrightarrow> rules_ok clk 0 (ed_seed e) (ed_operations e)"

section \<open>Every action keeps the rules in order\<close>

lemma editor_ok_new: "rules_ok clk n m ops \<Longrightarrow> rules_ok clk 0 m ops"
  by (erule rules_ok_mono) simp_all

lemma editor_ok_seed: "rules_ok clk 0 n ops \<Longrightarrow> n \<le> m \<Longrightarrow> rules_ok clk 0 m ops"
  by (erule rules_ok_mono) simp_all

text \<open>An update of a rule that keeps its identifiers.\<close>

definition keeps :: "(override_operation \<Rightarrow> override_operation) \<Rightarrow> bool" where
  "keeps f \<longleftrightarrow> (\<forall>op. typed_operation op \<longrightarrow> typed_operation (f op)) \<and> (\<forall>op. mset (operation_names (f op)) \<subseteq># mset (operation_names op))"

lemma keepsI:
  "(\<And>op. typed_operation op \<Longrightarrow> typed_operation (f op)) \<Longrightarrow>
   (\<And>op. mset (operation_names (f op)) \<subseteq># mset (operation_names op)) \<Longrightarrow> keeps f"
  by (simp add: keeps_def)

lemma all_names_map_operation:
  "keeps f \<Longrightarrow> mset (all_names (map_operation i f ops)) \<subseteq># mset (all_names ops)"
  by (induction ops) (auto simp: map_operation_def keeps_def intro: subset_mset.add_mono)

lemma rules_ok_map_operation:
  assumes "rules_ok clk a b ops" and "keeps f"
  shows "rules_ok clk a b (map_operation i f ops)"
  using assms all_names_map_operation [of f i ops]
  by (intro rules_ok_sub [OF assms(1)]) (auto simp: rules_ok_def map_operation_def keeps_def list_all_iff)

lemma patch_operation_ok:
  "list_all typed_patch ps \<Longrightarrow> typed_operation op \<Longrightarrow>
   typed_operation (fold patch_operation ps op) \<and> operation_names (fold patch_operation ps op) = operation_names op"
proof (induction ps arbitrary: op)
  case (Cons p ps)
  have "typed_operation (patch_operation p op) \<and> operation_names (patch_operation p op) = operation_names op"
    using Cons.prems by (cases p) (auto simp: typed_operation_def operation_names_def)
  with Cons show ?case by simp
qed simp

lemma patch_operation_names: "operation_names (fold patch_operation ps op) = operation_names op"
proof (induction ps arbitrary: op)
  case (Cons p ps)
  have "operation_names (patch_operation p op) = operation_names op" by (cases p) (auto simp: operation_names_def)
  with Cons show ?case by simp
qed simp

lemma patch_condition_ok:
  "list_all typed_condition_patch ps \<Longrightarrow> typed_condition c \<Longrightarrow> typed_condition (fold patch_condition ps c)"
proof (induction ps arbitrary: c)
  case (Cons p ps)
  have "typed_condition (patch_condition p c)" using Cons.prems by (cases p) (auto simp: typed_condition_def)
  with Cons show ?case by simp
qed simp

lemma patch_condition_id: "cond_id (fold patch_condition ps c) = cond_id c"
proof (induction ps arbitrary: c)
  case (Cons p ps)
  have "cond_id (patch_condition p c) = cond_id c" by (cases p) auto
  with Cons show ?case by simp
qed simp

lemma keeps_patch: "list_all typed_patch ps \<Longrightarrow> keeps (fold patch_operation ps)"
  by (rule keepsI) (simp_all add: patch_operation_ok patch_operation_names)

lemma keeps_text: "keeps (\<lambda>op. op\<lparr>op_value_text := g op\<rparr>)"
  by (rule keepsI) (simp_all add: typed_operation_def operation_names_def)

lemma keeps_conditions:
  assumes "\<And>cs. list_all typed_condition cs \<Longrightarrow> list_all typed_condition (g cs)"
    and "\<And>cs. mset (map cond_id (g cs)) \<subseteq># mset (map cond_id cs)"
  shows "keeps (op_conditions_update g)"
  using assms by (intro keepsI) (auto simp: typed_operation_def operation_names_def)

lemma keeps_map_condition:
  "list_all typed_condition_patch ps \<Longrightarrow> keeps (op_conditions_update (map_condition ci (fold patch_condition ps)))"
proof (rule keeps_conditions)
  fix cs
  show "list_all typed_condition_patch ps \<Longrightarrow> list_all typed_condition cs \<Longrightarrow>
      list_all typed_condition (map_condition ci (fold patch_condition ps) cs)"
    by (auto simp: map_condition_def list_all_iff patch_condition_ok)
  have "map cond_id (map_condition ci (fold patch_condition ps) cs) = map cond_id cs"
    by (simp add: map_condition_def patch_condition_id comp_def if_distrib cong: if_cong)
  then show "mset (map cond_id (map_condition ci (fold patch_condition ps) cs)) \<subseteq># mset (map cond_id cs)" by simp
qed

lemma keeps_filter_condition: "keeps (op_conditions_update (filter P))"
  by (rule keeps_conditions) (auto simp: list_all_iff mset_map intro: image_mset_subseteq_mono)

lemma add_condition_names:
  assumes "distinct (all_names ops)"
  shows "mset (all_names (map_operation i (op_conditions_update (\<lambda>cs. cs @ [c])) ops)) \<subseteq># mset (all_names ops @ [cond_id c])"
  using assms
proof (induction ops)
  case (Cons o1 ops)
  let ?f = "op_conditions_update (\<lambda>cs. cs @ [c])"
  show ?case
  proof (cases "op_id o1 = i")
    case True
    have "\<forall>x\<in>set ops. op_id x \<noteq> i"
      using Cons.prems True by (auto simp: operation_names_def all_names_def)
    then have "map_operation i ?f ops = ops" by (auto simp: map_operation_def intro: map_idI)
    then show ?thesis using True by (simp add: map_operation_def operation_names_def)
  next
    case False
    have "distinct (all_names ops)" using Cons.prems by simp
    with Cons.IH False show ?thesis by (simp add: map_operation_def)
  qed
qed (simp add: map_operation_def)

text \<open>Rules that differ in their values only.\<close>

definition same_but_value :: "override_operation \<Rightarrow> override_operation \<Rightarrow> bool" where
  "same_but_value o1 o2 \<longleftrightarrow> (\<exists>s. o2 = o1\<lparr>op_value_text := s\<rparr>)"

lemma same_but_value_refl [simp]: "same_but_value o1 o1" "same_but_value o1 (o1\<lparr>op_value_text := s\<rparr>)"
  by (auto simp: same_but_value_def intro: exI [of _ "op_value_text o1"])

lemma rules_ok_values:
  assumes "list_all2 same_but_value ops ops'" and "rules_ok clk a b ops"
  shows "rules_ok clk a b ops'"
proof -
  have "all_names ops' = all_names ops \<and> (list_all typed_operation ops \<longrightarrow> list_all typed_operation ops')"
    using assms(1)
    by (induction rule: list_all2_induct) (auto simp: same_but_value_def operation_names_def typed_operation_def)
  then show ?thesis using assms by (auto simp: rules_ok_def)
qed

lemma number_rules_takes: "snd (number_rules clk vs n) = n + length vs"
  by (induction vs arbitrary: n) (simp_all add: normalizePruneRule_def case_prod_unfold)

lemma parsePruneObjectsDraft_takes: "n \<le> snd (parsePruneObjectsDraft clk s n)"
  using number_rules_takes [of clk _ n]
  by (auto simp: parsePruneObjectsDraft_def Let_def case_prod_unfold split: option.splits jsval.splits)

lemma update_prune_texts_ok:
  assumes "update_prune_texts clk i f ops n = (ops', n')" and "\<And>d m. m \<le> snd (f d m)"
  shows "n \<le> n' \<and> list_all2 same_but_value ops ops'"
  using assms(1)
proof (induction ops arbitrary: n ops' n')
  case (Cons o1 ops)
  show ?case
  proof (cases "op_id o1 = i")
    case False
    with Cons show ?thesis by (fastforce split: prod.splits)
  next
    case True
    obtain d n1 where d: "parsePruneObjectsDraft clk (op_value_text o1) n = (d, n1)" by fastforce
    obtain d' n2 where d': "f d n1 = (d', n2)" by fastforce
    obtain os n3 where os: "update_prune_texts clk i f ops n2 = (os, n3)" by fastforce
    have "n \<le> n1" "n1 \<le> n2"
      using parsePruneObjectsDraft_takes [of n clk "op_value_text o1"] d assms(2) [of n1 d] d' by auto
    with Cons.IH [OF os] Cons.prems True d d' os show ?thesis by auto
  qed
qed simp

lemma editor_ok_prune:
  assumes "editor_ok clk e" and "\<And>d m. m \<le> snd (f d m)"
  shows "editor_ok clk (updatePruneObjectsDraft clk i f e)"
proof -
  obtain ops n where u: "update_prune_texts clk i f (ed_operations e) (ed_seed e) = (ops, n)" by fastforce
  from update_prune_texts_ok [OF u assms(2)] assms(1) show ?thesis
    by (auto simp: updatePruneObjectsDraft_def u editor_ok_def intro: rules_ok_values editor_ok_seed)
qed

lemma reorder_mset: "mset (reorderOperations ops src tgt p) = mset ops"
proof -
  have "mset (take k rest @ [ops ! i] @ drop k rest) = mset ops"
    if "i < length ops" "rest = take i ops @ drop (Suc i) ops" for i k rest
  proof -
    have "mset (take k rest @ [ops ! i] @ drop k rest) = add_mset (ops ! i) (mset rest)"
      using arg_cong [OF append_take_drop_id [of k rest], of mset] by (simp del: append_take_drop_id)
    also have "\<dots> = mset ops" using that arg_cong [OF take_drop_nth [OF that(1)], of mset] by simp
    finally show ?thesis .
  qed
  then show ?thesis
    using find_index_Some [of "\<lambda>x. op_id x = src" ops]
    by (auto simp: reorderOperations_def Let_def split: option.splits simp del: append_Cons)
qed

lemma rules_ok_mset:
  assumes "rules_ok clk a b ops" and "mset ops' = mset ops"
  shows "rules_ok clk a b ops'"
proof (rule rules_ok_sub [OF assms(1)])
  show "ops' \<noteq> []" using assms by (auto simp: rules_ok_def)
  show "list_all typed_operation ops'"
    using assms mset_eq_setD [OF assms(2)] by (simp add: rules_ok_def list_all_iff)
  show "mset (all_names ops') \<subseteq># mset (all_names ops)" by (simp add: mset_all_names assms(2))
qed

lemma rules_ok_filter:
  assumes "rules_ok clk a b ops" and "filter P ops \<noteq> []"
  shows "rules_ok clk a b (filter P ops)"
  using assms(2) assms(1) all_names_filter
  by (intro rules_ok_sub [OF assms(1)]) (auto simp: rules_ok_def list_all_iff)


lemma parseInitialState_ok:
  "parseInitialState clk s n = (r, n') \<Longrightarrow> n \<le> n' \<and> (\<forall>st. r = Some st \<longrightarrow> rules_ok clk n n' (es_operations st))"
proof -
  assume a: "parseInitialState clk s n = (r, n')"
  obtain d m where d: "createDefaultOperation clk n = (d, m)" by fastforce
  note dd = rules_ok_default [OF d]
  show ?thesis
  proof (cases "\<exists>ps vs. trim s \<noteq> [] \<and> json_parse (trim s) = Some (JObj ps) \<and> map_of ps (js ''operations'') = Some (JArr vs)")
    case True
    then obtain ps vs where p: "trim s \<noteq> []" "json_parse (trim s) = Some (JObj ps)"
      "map_of ps (js ''operations'') = Some (JArr vs)" by blast
    obtain q n2 where o: "operations_of clk vs n = (q, n2)" by fastforce
    have "n' = n2" "\<forall>st. r = Some st \<longrightarrow> q = Some (es_operations st)"
      using a p by (auto simp: parseInitialState_def Let_def o d simp del: pretty.simps)
    with o operations_of_takes [OF o] rules_ok_operations_of show ?thesis by metis
  next
    case False
    then have "n' = m" "\<forall>st. r = Some st \<longrightarrow> es_operations st = [d]"
      using a d by (auto simp: parseInitialState_def Let_def simp del: pretty.simps
          split: if_splits option.splits jsval.splits)
    with dd show ?thesis by simp
  qed
qed

lemma default_step: "createDefaultOperation clk n = (operation_of (nextLocalId clk n) [] (JObj [(js ''mode'', JStr (js ''set''))]), Suc n)"
  by (simp add: createDefaultOperation_def)

lemma rules_ok_fresh: "rules_ok clk 0 (Suc n) [fst (createDefaultOperation clk n)]"
  using rules_ok_default [of clk n] by (auto simp: createDefaultOperation_def intro: editor_ok_new)

lemma template_operations_nonempty: "template_preset k = (OperationsKind, v) \<Longrightarrow> template_operations v \<noteq> []"
  by (auto simp: template_preset_def TEMPLATE_PRESET_CONFIG_def template_operations_def as_arr_def obj_val_def
      OPERATION_TEMPLATE_def HEADER_PASSTHROUGH_TEMPLATE_def GEMINI_IMAGE_4K_TEMPLATE_def
      buildPassHeadersTemplate_def AWS_BEDROCK_ANTHROPIC_COMPAT_TEMPLATE_def split: if_splits)

lemma filled_ok:
  assumes "editor_ok clk e" and "vs \<noteq> []"
  shows "editor_ok clk (fill_operations clk m vs e)"
proof (cases "m = Append")
  case True
  obtain r n where g: "gen_map (normalizeOperation clk) vs (ed_seed e) = (r, n)" by fastforce
  show ?thesis
  proof (cases r)
    case None
    with g operation_ids.map_takes [OF g] assms(1) True show ?thesis
      by (auto simp: fill_operations_def editor_ok_def intro: editor_ok_seed)
  next
    case (Some new)
    let ?old = "if ed_visualMode e = OperationsMode then filter (\<lambda>o1. \<not> isOperationBlank o1) (ed_operations e) else []"
    have n: "ed_seed e \<le> n" "rules_ok clk (ed_seed e) n new"
      using rules_ok_map [of clk vs "ed_seed e" new n] g Some assms(2) by auto
    have "rules_ok clk 0 n (?old @ new)"
    proof (cases "?old = []")
      case True
      then show ?thesis using n editor_ok_new by auto
    next
      case False
      then have "rules_ok clk 0 (ed_seed e) ?old" using assms(1) rules_ok_filter
        by (auto simp: editor_ok_def split: if_splits)
      then show ?thesis using n by (intro rules_ok_append) auto
    qed
    moreover from this have "?old @ new \<noteq> []" by (simp add: rules_ok_def)
    ultimately show ?thesis using g Some True
      by (simp add: fill_operations_def editor_ok_def Let_def)
  qed
next
  case False
  obtain r n where g: "operations_of clk vs (ed_seed e) = (r, n)" by fastforce
  show ?thesis
  proof (cases r)
    case None
    with g operations_of_takes [OF g] assms(1) False show ?thesis
      by (auto simp: fill_operations_def editor_ok_def intro: editor_ok_seed)
  next
    case (Some ops)
    with g rules_ok_operations_of [of clk vs "ed_seed e" ops n] False show ?thesis
      by (auto simp: fill_operations_def editor_ok_def intro: editor_ok_new)
  qed
qed

lemma removed_ok:
  assumes "editor_ok clk e"
  shows "editor_ok clk (removeOperation clk i e)"
proof (cases "length (ed_operations e) \<le> 1")
  case True
  then show ?thesis using rules_ok_fresh [of clk "ed_seed e"]
    by (simp add: removeOperation_def editor_ok_def default_step)
next
  case False
  then obtain a b ops where ops: "ed_operations e = a # b # ops"
    by (cases "ed_operations e"; cases "tl (ed_operations e)") auto
  have "op_id a \<noteq> op_id b"
    using assms by (auto simp: editor_ok_def rules_ok_def issued_def ops operation_names_def)
  then have "filter (\<lambda>o1. op_id o1 \<noteq> i) (ed_operations e) \<noteq> []" by (auto simp: ops)
  then show ?thesis using assms rules_ok_filter False
    by (simp add: removeOperation_def editor_ok_def)
qed

lemma duplicated_ok:
  assumes "editor_ok clk e"
  shows "editor_ok clk (duplicateOperation clk b i e)"
proof (cases "find_index (\<lambda>o1. op_id o1 = i) (ed_operations e)")
  case None
  then show ?thesis using assms by (simp add: duplicateOperation_def)
next
  case (Some k)
  let ?ops = "ed_operations e"
  obtain r n where g: "normalizeOperation clk (operation_value (?ops ! k)) (ed_seed e) = (r, n)" by fastforce
  note n = normalizeOperation_makes [OF g]
  show ?thesis
  proof (cases r)
    case None
    then show ?thesis using Some g n assms
      by (auto simp: duplicateOperation_def editor_ok_def intro: editor_ok_seed)
  next
    case (Some c)
    have "rules_ok clk (ed_seed e) n [c]" using n(2) [OF Some] by (simp add: rules_ok_def)
    then have "rules_ok clk 0 n (?ops @ [c])"
      using assms n(1) by (intro rules_ok_append [of clk 0 "ed_seed e"]) (simp_all add: editor_ok_def)
    moreover have "mset (take (k + 1) ?ops @ [c] @ drop (k + 1) ?ops) = mset (?ops @ [c])"
      using arg_cong [OF append_take_drop_id [of "k + 1" ?ops], of mset] by (simp del: append_take_drop_id)
    ultimately have "rules_ok clk 0 n (take (k + 1) ?ops @ [c] @ drop (k + 1) ?ops)" by (rule rules_ok_mset)
    then show ?thesis using \<open>find_index _ _ = Some k\<close> g Some
      by (simp add: duplicateOperation_def editor_ok_def Let_def)
  qed
qed


lemma condition_added_ok:
  assumes "editor_ok clk e"
  shows "editor_ok clk (addCondition clk i e)"
proof -
  let ?ops = "ed_operations e" and ?c = "condition_of (nextLocalId clk (ed_seed e)) (JObj [])"
  let ?f = "op_conditions_update (\<lambda>cs. cs @ [?c])"
  have ok: "rules_ok clk 0 (ed_seed e) ?ops" using assms by (simp add: editor_ok_def)
  have "issued clk 0 (Suc (ed_seed e)) (all_names ?ops @ [nextLocalId clk (ed_seed e)])"
    using ok by (intro issued_append [OF _ issued_single]) (simp_all add: rules_ok_def)
  moreover have "mset (all_names (map_operation i ?f ?ops)) \<subseteq># mset (all_names ?ops @ [nextLocalId clk (ed_seed e)])"
    using add_condition_names [of ?ops i ?c] ok by (simp add: rules_ok_def issued_def)
  ultimately have "issued clk 0 (Suc (ed_seed e)) (all_names (map_operation i ?f ?ops))" by (rule issued_submset)
  moreover have "list_all typed_operation (map_operation i ?f ?ops)"
    using ok by (auto simp: rules_ok_def map_operation_def list_all_iff typed_operation_def)
  moreover have "map_operation i ?f ?ops \<noteq> []" using ok by (simp add: rules_ok_def map_operation_def)
  ultimately show ?thesis
    by (simp add: addCondition_def createDefaultCondition_def editor_ok_def rules_ok_def)
qed

lemma opened_ok:
  assumes "editor_ok clk e"
  shows "editor_ok clk (open_dialog clk s e)"
proof -
  obtain r n where p: "parseInitialState clk s (ed_seed e) = (r, n)" by fastforce
  from parseInitialState_ok [OF p] assms show ?thesis
    by (cases r) (auto simp: open_dialog_def p editor_ok_def intro: editor_ok_seed editor_ok_new)
qed

lemma visual_ok:
  assumes "editor_ok clk e"
  shows "editor_ok clk (switchToVisualMode clk e)"
proof -
  obtain d m where d: "createDefaultOperation clk (ed_seed e) = (d, m)" by fastforce
  have m: "rules_ok clk 0 m [d]" using rules_ok_default [OF d] editor_ok_new by blast
  have "editor_ok clk (case operations_of clk vs (ed_seed e) of
      (None, n) \<Rightarrow> e\<lparr>ed_seed := n\<rparr>
    | (Some ops, n) \<Rightarrow> e\<lparr>ed_visualMode := OperationsMode, ed_operations := ops,
         ed_selectedOperationId := first_id ops, ed_legacyValue := [], ed_jsonError := [],
         ed_editMode := VisualEdit, ed_templatePresetKey := js ''operations_default'', ed_seed := n\<rparr>)" for vs
  proof -
    obtain r n where o: "operations_of clk vs (ed_seed e) = (r, n)" by fastforce
    show ?thesis
      using assms operations_of_takes [OF o] rules_ok_operations_of [of clk vs "ed_seed e" _ n] o
      by (cases r) (auto simp: editor_ok_def intro: editor_ok_seed editor_ok_new)
  qed
  moreover have "editor_ok clk (e'\<lparr>ed_operations := [d], ed_seed := m\<rparr>)" for e' using m by (simp add: editor_ok_def)
  ultimately show ?thesis using assms m
    by (auto simp: switchToVisualMode_def d Let_def editor_ok_def split: option.splits jsval.splits)
qed

lemma filled_template_ok: "editor_ok clk e \<Longrightarrow> editor_ok clk (fillTemplate clk m e)"
proof -
  assume e: "editor_ok clk e"
  obtain k v where t: "template_preset (ed_templatePresetKey e) = (k, v)" by fastforce
  have "editor_ok clk (show_legacy clk s e)" for s
    using rules_ok_fresh [of clk "ed_seed e"] by (simp add: show_legacy_def editor_ok_def default_step)
  then have "editor_ok clk (fill_legacy clk m v e)"
    using e by (auto simp: fill_legacy_def Let_def split: option.splits)
  then show ?thesis using t filled_ok [OF e] template_operations_nonempty
    by (cases k) (auto simp: fillTemplate_def)
qed

lemma editor_ok_same:
  "editor_ok clk e \<Longrightarrow> ed_operations e' = ed_operations e \<Longrightarrow> ed_seed e' = ed_seed e \<Longrightarrow> editor_ok clk e'"
  by (simp add: editor_ok_def)

lemma unchanged_rules:
  "ed_operations (keep_selected e) = ed_operations e" "ed_seed (keep_selected e) = ed_seed e"
  "ed_operations (switchToJsonMode tr e) = ed_operations e" "ed_seed (switchToJsonMode tr e) = ed_seed e"
  "ed_operations (formatJson e) = ed_operations e" "ed_seed (formatJson e) = ed_seed e"
  "ed_operations (set_all_expanded b e) = ed_operations e" "ed_seed (set_all_expanded b e) = ed_seed e"
  "ed_operations (handleDragOver i l e) = ed_operations e" "ed_seed (handleDragOver i l e) = ed_seed e"
  by (auto simp: keep_selected_def switchToJsonMode_def formatJson_def set_all_expanded_def handleDragOver_def
      split: sum.splits option.splits)

lemma action_ok:
  assumes e: "editor_ok clk e" and a: "typed_action a"
  shows "editor_ok clk (perform clk tr a e)"
proof -
  have ok: "rules_ok clk 0 (ed_seed e) (ed_operations e)" using e by (simp add: editor_ok_def)
  note same = editor_ok_same [OF e]
  show ?thesis
  proof (cases a)
    case (UpdateOperation i ps)
    then show ?thesis using a ok by (simp add: updateOperation_def editor_ok_def rules_ok_map_operation keeps_patch)
  next
    case (UpdateCondition i ci ps)
    then show ?thesis using a ok by (simp add: updateCondition_def editor_ok_def rules_ok_map_operation keeps_map_condition)
  next
    case (RemoveCondition i ci)
    then show ?thesis using ok by (simp add: removeCondition_def editor_ok_def rules_ok_map_operation keeps_filter_condition)
  next
    case (UpdateReturnError i ps)
    then show ?thesis using ok by (simp add: updateReturnErrorDraft_def editor_ok_def rules_ok_map_operation keeps_text)
  next
    case AddOperation
    have "rules_ok clk 0 (Suc (ed_seed e)) (ed_operations e @ [fst (createDefaultOperation clk (ed_seed e))])"
      using ok rules_ok_default [of clk "ed_seed e"] by (intro rules_ok_append [OF ok]) (auto simp: default_step)
    then show ?thesis using AddOperation by (simp add: addOperation_def editor_ok_def default_step)
  next
    case (Drop i s)
    then show ?thesis using ok rules_ok_mset [OF ok reorder_mset]
      by (simp add: handleDrop_def editor_ok_def resetDragState_def Let_def)
  next
    case Reset
    then show ?thesis using rules_ok_fresh [of clk "ed_seed e"]
      by (simp add: resetEditorState_def editor_ok_def default_step)
  next
    case ShowPruneDraft
    then show ?thesis using e parsePruneObjectsDraft_takes [of "ed_seed e" clk]
      by (auto simp: pruneObjectsDraft_def editor_ok_def case_prod_unfold intro: editor_ok_seed split: option.splits)
  next
    case (UpdatePrune i ps)
    then show ?thesis using editor_ok_prune [OF e] by (simp add: patch_updater_def)
  next
    case (AddPruneRule i)
    then show ?thesis using editor_ok_prune [OF e] by (simp add: addPruneRule_def normalizePruneRule_def)
  next
    case (UpdatePruneRule i ri ps)
    then show ?thesis using editor_ok_prune [OF e] by (simp add: updatePruneRule_def)
  next
    case (RemovePruneRule i ri)
    then show ?thesis using editor_ok_prune [OF e] by (simp add: removePruneRule_def)
  qed (use e opened_ok duplicated_ok removed_ok condition_added_ok visual_ok filled_template_ok in
      \<open>auto intro!: same simp: unchanged_rules handleDragStart_def resetDragState_def handleJsonChange_def
        setLegacyValue_def setSelectedOperationId_def setTemplatePresetKey_def setOperationSearch_def
        setExpandedCondition_def expandAllConditions_def collapseAllConditions_def\<close>)
qed

lemma reach_ok: "editor_reach clk tr e \<Longrightarrow> editor_ok clk e"
proof (induction rule: editor_reach.induct)
  case (start n)
  show ?case using rules_ok_fresh [of clk n] by (simp add: initial_editor_def editor_ok_def default_step)
qed (rule action_ok)

text \<open>C19 In every session the rules stay well typed: the mode of a rule is one of the modes, its logic
  is AND or OR, and the modes of its conditions are among those of conditions, whatever texts are
  opened, typed or taken from templates.\<close>

theorem editor_rules_typed:
  assumes "editor_reach clk tr e" and "op \<in> set (ed_operations e)"
  shows "has_mode OPERATION_MODE_VALUES (op_mode op) \<and> op_logic op \<in> {js ''AND'', js ''OR''} \<and>
    (\<forall>c\<in>set (op_conditions op). has_mode CONDITION_MODE_VALUES (cond_mode c))"
  using reach_ok [OF assms(1)] assms(2)
  by (auto simp: editor_ok_def rules_ok_def list_all_iff typed_operation_def typed_condition_def)

theorem editor_rules_typed_witness:
  "has_mode OPERATION_MODE_VALUES (op_mode (last (ed_operations (addOperation (\<lambda>_. 0) (initial_editor (\<lambda>_. 0) 0)))))"
proof -
  let ?e = "addOperation (\<lambda>_. 0) (initial_editor (\<lambda>_. 0) 0)"
  have "editor_reach (\<lambda>_. 0) (\<lambda>_ _. []) ?e"
    using editor_reach.act [OF editor_reach.start, of AddOperation "\<lambda>_. 0" "\<lambda>_ _. []" 0] by simp
  moreover have "last (ed_operations ?e) \<in> set (ed_operations ?e)"
    by (simp add: addOperation_def default_step)
  ultimately show ?thesis using editor_rules_typed by blast
qed

text \<open>In every session there is at least one rule, no two rules or conditions have the same
  identifier, and the selection is a rule after its effect has run: removing a rule, dropping
  one, duplicating, appending a template and switching modes never lose the last rule or make an
  identifier ambiguous.\<close>

theorem editor_names_unique:
  assumes "editor_reach clk tr e"
  shows "ed_operations e \<noteq> [] \<and> distinct (all_names (ed_operations e)) \<and>
    ed_selectedOperationId (keep_selected e) \<in> set (ids (ed_operations e))"
proof -
  have "ed_operations e \<noteq> []" "distinct (all_names (ed_operations e))"
    using reach_ok [OF assms] by (auto simp: editor_ok_def rules_ok_def issued_def)
  moreover from this have "ed_selectedOperationId (keep_selected e) \<in> set (ids (ed_operations e))"
    by (cases "ed_operations e") (auto simp: keep_selected_def ids_def list_ex_iff intro: rev_image_eqI)
  ultimately show ?thesis by blast
qed

theorem editor_names_unique_witness:
  "let e = duplicateOperation (\<lambda>_. 0) True (nextLocalId (\<lambda>_. 0) 0) (initial_editor (\<lambda>_. 0) 0)
   in distinct (all_names (ed_operations e))"
  using editor_names_unique [OF editor_reach.act [OF editor_reach.start,
      of "DuplicateOperation True (nextLocalId (\<lambda>_. 0) 0)" "\<lambda>_. 0" "\<lambda>_ _. []" 0]]
  by simp

section \<open>Edits of prune rules\<close>

text \<open>Everything of a draft but the identifiers of its rules.\<close>

definition bare_draft :: "prune_objects_draft \<Rightarrow> prune_objects_draft" where
  "bare_draft d = d\<lparr>pod_rules := map bare_condition (pod_rules d)\<rparr>"

lemma number_rules_bare:
  "map bare_condition (fst (number_rules clk vs n)) = map (\<lambda>v. bare_condition (condition_of [] v)) vs"
  by (induction vs arbitrary: n)
    (auto simp: normalizePruneRule_def case_prod_unfold bare_condition_def condition_of_def)

lemma number_rules_issued:
  "r \<in> set (fst (number_rules clk vs n)) \<Longrightarrow> \<exists>k\<ge>n. k < snd (number_rules clk vs n) \<and> cond_id r = nextLocalId clk k"
proof (induction vs arbitrary: n)
  case (Cons v vs)
  have "r = condition_of (nextLocalId clk n) v \<or> r \<in> set (fst (number_rules clk vs (Suc n)))"
    using Cons.prems by (auto simp: normalizePruneRule_def case_prod_unfold)
  then show ?case
  proof
    assume "r = condition_of (nextLocalId clk n) v"
    then show ?thesis by (intro exI [of _ n]) (simp add: number_rules_takes del: number_rules.simps)
  next
    assume "r \<in> set (fst (number_rules clk vs (Suc n)))"
    then obtain k where "k \<ge> Suc n" "k < snd (number_rules clk vs (Suc n))" "cond_id r = nextLocalId clk k"
      using Cons.IH by blast
    then show ?thesis by (intro exI [of _ k]) (simp add: number_rules_takes del: number_rules.simps)
  qed
qed simp

lemma parsePrune_bare: "bare_draft (fst (parsePruneObjectsDraft clk s n)) = bare_draft (fst (parsePruneObjectsDraft clk s 0))"
  by (auto simp: parsePruneObjectsDraft_def Let_def case_prod_unfold bare_draft_def number_rules_bare
      split: option.splits jsval.splits)

lemma parsePrune_issued:
  "r \<in> set (pod_rules (fst (parsePruneObjectsDraft clk s n))) \<Longrightarrow>
   \<exists>k\<ge>n. k < snd (parsePruneObjectsDraft clk s n) \<and> cond_id r = nextLocalId clk k"
  using number_rules_issued [of r clk _ n]
  by (auto simp: parsePruneObjectsDraft_def Let_def case_prod_unfold default_prune_draft_def
      split: option.splits jsval.splits if_splits)

lemma buildPrune_bare: "buildPruneObjectsValueText (bare_draft d) = buildPruneObjectsValueText d"
proof -
  have "map prune_rule_payload (filter (\<lambda>r. trim (cond_path r) \<noteq> []) (map bare_condition rs))
      = map prune_rule_payload (filter (\<lambda>r. trim (cond_path r) \<noteq> []) rs)" for rs
    by (induction rs) (auto simp: bare_condition_def prune_rule_payload_def)
  then show ?thesis by (simp add: buildPruneObjectsValueText_def bare_draft_def Let_def)
qed

text \<open>Updaters that print the same text print the same rules.\<close>

lemma update_prune_texts_cong:
  assumes "\<And>s n m. buildPruneObjectsValueText (fst (case_prod f (parsePruneObjectsDraft clk s n)))
                  = buildPruneObjectsValueText (fst (case_prod g (parsePruneObjectsDraft clk s m)))"
  shows "fst (update_prune_texts clk i f ops n) = fst (update_prune_texts clk i g ops m)"
proof (induction ops arbitrary: n m)
  case (Cons o1 ops)
  show ?case
    using Cons assms [of "op_value_text o1" n m] by (simp add: case_prod_unfold)
qed simp

lemma operations_of_same_texts:
  assumes "\<And>s n m. buildPruneObjectsValueText (fst (case_prod f (parsePruneObjectsDraft clk s n)))
                  = buildPruneObjectsValueText (fst (case_prod g (parsePruneObjectsDraft clk s m)))"
  shows "ed_operations (updatePruneObjectsDraft clk i f e) = ed_operations (updatePruneObjectsDraft clk i g e)"
  using update_prune_texts_cong [of f clk g i "ed_operations e" "ed_seed e" "ed_seed e"] assms
  by (simp add: updatePruneObjectsDraft_def case_prod_unfold)

text \<open>A rule without a path is not printed.\<close>

lemma added_rule_unprinted:
  "buildPruneObjectsValueText (fst (case_prod (\<lambda>d n. case normalizePruneRule clk (JObj []) n of (r, n') \<Rightarrow>
       (d\<lparr>pod_simpleMode := False, pod_rules := pod_rules d @ [r]\<rparr>, n')) (parsePruneObjectsDraft clk s n)))
   = buildPruneObjectsValueText (fst (case_prod (patch_updater [DSimpleMode False]) (parsePruneObjectsDraft clk s m)))"
proof -
  have 1: "buildPruneObjectsValueText (d\<lparr>pod_simpleMode := False, pod_rules := pod_rules d @ [condition_of i (JObj [])]\<rparr>)
      = buildPruneObjectsValueText (d\<lparr>pod_simpleMode := False\<rparr>)" for d i
    by (simp add: buildPruneObjectsValueText_def condition_of_def str_prop_def as_str_def Let_def)
  have 2: "buildPruneObjectsValueText (d\<lparr>pod_simpleMode := False\<rparr>)
      = buildPruneObjectsValueText ((bare_draft d)\<lparr>pod_simpleMode := False\<rparr>)" for d
  proof -
    have "(bare_draft d)\<lparr>pod_simpleMode := False\<rparr> = bare_draft (d\<lparr>pod_simpleMode := False\<rparr>)"
      by (cases d) (simp add: bare_draft_def)
    then show ?thesis by (simp only: buildPrune_bare)
  qed
  show ?thesis
    using parsePrune_bare [of clk s n] parsePrune_bare [of clk s m]
    by (simp add: case_prod_unfold normalizePruneRule_def patch_updater_def 1)
      (subst (1 2) 2, simp)
qed

lemma update_rule_identity:
  assumes "\<forall>r\<in>set rs. cond_id r \<noteq> ri"
  shows "map_condition ri h rs = rs" and "filter (\<lambda>r. cond_id r \<noteq> ri) rs = rs"
  using assms by (auto simp: map_condition_def filter_id_conv intro: map_idI)

lemma stale_rule_id:
  assumes "k < ed_seed e"
    and "\<And>d n. \<forall>r\<in>set (pod_rules d). cond_id r \<noteq> nextLocalId clk k \<Longrightarrow> f d n = g d n"
    and "\<And>d n. n \<le> snd (g d n)"
  shows "updatePruneObjectsDraft clk i f e = updatePruneObjectsDraft clk i g e"
proof -
  have "update_prune_texts clk i f ops n = update_prune_texts clk i g ops n" if "k < n" for ops n
    using that
  proof (induction ops arbitrary: n)
    case (Cons o1 ops)
    obtain d n1 where d: "parsePruneObjectsDraft clk (op_value_text o1) n = (d, n1)" by fastforce
    have "\<forall>r\<in>set (pod_rules d). cond_id r \<noteq> nextLocalId clk k"
      using parsePrune_issued [of _ clk "op_value_text o1" n] d Cons.prems by (fastforce simp: nextLocalId_inj)
    then have f: "f d n1 = g d n1" by (rule assms(2))
    have "k < snd (g d n1)"
      using Cons.prems parsePruneObjectsDraft_takes [of n clk "op_value_text o1"] d assms(3) [of n1 d] by simp
    then show ?case using Cons d f by (auto simp: case_prod_unfold)
  qed simp
  then show ?thesis using assms(1) by (simp add: updatePruneObjectsDraft_def)
qed

text \<open>The rules of a pruning cannot be edited: the form passes the identifier of a rule it has
  shown, and the handler looks for it among rules it has just parsed again under new ones. So
  changing or deleting a rule does nothing, and adding one only leaves the simple mode, since the
  new rule has no path yet and is not printed.\<close>

theorem prune_edits_lost:
  assumes shown: "pruneObjectsDraft clk e0 = (Some d, e1)" and r: "r \<in> set (pod_rules d)"
    and later: "ed_seed e1 \<le> ed_seed e"
  shows "updatePruneRule clk i (cond_id r) patch e = updatePruneObjectsDraft clk i (patch_updater []) e \<and>
    removePruneRule clk i (cond_id r) e = updatePruneObjectsDraft clk i (patch_updater []) e \<and>
    ed_operations (addPruneRule clk i e) = ed_operations (updatePruneObjectsDraft clk i (patch_updater [DSimpleMode False]) e)"
proof -
  obtain op where sel: "selectedOperation e0 = Some op"
    using shown by (cases "selectedOperation e0") (auto simp: pruneObjectsDraft_def)
  have op: "d = fst (parsePruneObjectsDraft clk (op_value_text op) (ed_seed e0))"
    "ed_seed e1 = snd (parsePruneObjectsDraft clk (op_value_text op) (ed_seed e0))"
    using shown sel by (auto simp: pruneObjectsDraft_def case_prod_unfold split: if_splits)
  obtain k where k: "k < ed_seed e" "cond_id r = nextLocalId clk k"
    using parsePrune_issued [of r clk "op_value_text op" "ed_seed e0"] r later op by (metis less_le_trans)
  have "updatePruneRule clk i (cond_id r) patch e = updatePruneObjectsDraft clk i (patch_updater []) e"
    unfolding updatePruneRule_def k(2)
    by (rule stale_rule_id [OF k(1)]) (simp_all add: update_rule_identity patch_updater_def)
  moreover have "removePruneRule clk i (cond_id r) e = updatePruneObjectsDraft clk i (patch_updater []) e"
    unfolding removePruneRule_def k(2)
    by (rule stale_rule_id [OF k(1)]) (simp_all add: update_rule_identity patch_updater_def)
  moreover have "ed_operations (addPruneRule clk i e)
      = ed_operations (updatePruneObjectsDraft clk i (patch_updater [DSimpleMode False]) e)"
    unfolding addPruneRule_def by (rule operations_of_same_texts) (rule added_rule_unprinted)
  ultimately show ?thesis by blast
qed

theorem prune_edits_lost_witness:
  "let clk = (\<lambda>_. 0);
       op = (operation_of (js ''p'') [] JNull)\<lparr>op_mode := js ''prune_objects'',
              op_value_text := js ''{\"conditions\":[{\"path\":\"type\"}]}''\<rparr>;
       e0 = (initial_editor clk 0)\<lparr>ed_operations := [op], ed_selectedOperationId := js ''p''\<rparr>
   in \<exists>d e1 r. pruneObjectsDraft clk e0 = (Some d, e1) \<and> r \<in> set (pod_rules d) \<and>
        removePruneRule clk (js ''p'') (cond_id r) e1 = updatePruneObjectsDraft clk (js ''p'') (patch_updater []) e1"
proof -
  let ?clk = "\<lambda>_. 0 :: nat"
  let ?op = "(operation_of (js ''p'') [] JNull)\<lparr>op_mode := js ''prune_objects'',
              op_value_text := js ''{\"conditions\":[{\"path\":\"type\"}]}''\<rparr>"
  let ?e0 = "(initial_editor ?clk 0)\<lparr>ed_operations := [?op], ed_selectedOperationId := js ''p''\<rparr>"
  have sel: "selectedOperation ?e0 = Some ?op" by (simp add: selectedOperation_def)
  have "pod_rules (fst (parsePruneObjectsDraft ?clk (op_value_text ?op) (ed_seed ?e0))) \<noteq> []" by code_simp
  then obtain r where r: "r \<in> set (pod_rules (fst (parsePruneObjectsDraft ?clk (op_value_text ?op) (ed_seed ?e0))))"
    by (metis list.set_intros(1) neq_Nil_conv)
  obtain d e1 where d: "pruneObjectsDraft ?clk ?e0 = (Some d, e1)" and
    dd: "d = fst (parsePruneObjectsDraft ?clk (op_value_text ?op) (ed_seed ?e0))"
    by (simp add: pruneObjectsDraft_def sel case_prod_unfold)
  show ?thesis
    unfolding Let_def using d r dd prune_edits_lost [OF d, of r e1 "js ''p''" "[]"] by blast
qed

section \<open>Leaving the simple mode of a pruning\<close>

text \<open>A pruning by a type alone: the text of its advanced draft names no field the simple mode lacks,
  so it opens in simple mode again.\<close>

theorem prune_type_stays_simple:
  assumes "trimmed t" "t \<noteq> []" "units_ok t" "json_parse t = None"
  shows "let d = fst (parsePruneObjectsDraft clk t n) in
    fst (parsePruneObjectsDraft clk (buildPruneObjectsValueText (d\<lparr>pod_simpleMode := False\<rparr>)) m) = d"
proof -
  have d: "fst (parsePruneObjectsDraft clk t n) = default_prune_draft\<lparr>pod_typeText := t\<rparr>"
    using assms by (simp add: parsePruneObjectsDraft_def Let_def)
  let ?p = "[(js ''type'', JStr t)]"
  have "plain_obj ?p" using assms by (simp add: is_digit_def)
  then have wf: "json_wf (JObj ?p)" by (rule json_wf_plain)
  have "upper_ascii (js ''AND'') \<noteq> js ''OR''" by code_simp
  then have "buildPruneObjectsValueText (default_prune_draft\<lparr>pod_typeText := t, pod_simpleMode := False\<rparr>) = stringify (JObj ?p)"
    using assms by (simp add: buildPruneObjectsValueText_def default_prune_draft_def Let_def set_prop_if_def set_prop_def)
  moreover have "fst (parsePruneObjectsDraft clk (stringify (JObj ?p)) m) = default_prune_draft\<lparr>pod_typeText := t\<rparr>"
    unfolding parsePruneObjectsDraft_def Let_def trim_stringify [OF wf] json_parse_stringify [OF wf]
    using assms stringify_nonempty [OF wf] upper_cases
    by (simp add: default_prune_draft_def str_or_def where_rules_def condition_rules_def
        \<open>upper_ascii (js ''AND'') \<noteq> js ''OR''\<close> del: stringify.simps)
  ultimately show ?thesis by (simp add: d Let_def)
qed

section \<open>Saving\<close>

text \<open>What the editor saves is the empty text or the printed form of a JSON value, an object when
  the visual mode is shown; a text that does not parse is never saved.\<close>

theorem save_prints_json:
  assumes "handleSave tr e = Some s" and "s \<noteq> []"
  shows "\<exists>v. s = pretty 0 v \<and> (json_wf v \<longrightarrow> json_parse s = Some v) \<and>
    (ed_editMode e = VisualEdit \<longrightarrow> is_obj v)"
proof -
  have "\<exists>v. s = pretty 0 v \<and> (ed_editMode e = VisualEdit \<longrightarrow> is_obj v)"
    using assms
    by (auto simp: handleSave_def buildVisualJson_def buildOperationsJson_def is_obj_def Let_def simp del: pretty.simps
        split: if_splits option.splits sum.splits jsval.splits)
  then show ?thesis using json_parse_pretty by metis
qed

lemma bare_invariant:
  "isOperationBlank (bare_operation op) = isOperationBlank op"
  "operation_payload (bare_operation op) = operation_payload op"
  "operation_issue (bare_operation op) = operation_issue op"
proof -
  have c: "buildConditionPayload (bare_condition c) = buildConditionPayload c" for c
    by (simp add: buildConditionPayload_def bare_condition_def Let_def)
  show "isOperationBlank (bare_operation op) = isOperationBlank op"
    by (simp add: isOperationBlank_def bare_operation_def bare_condition_def list_ex_iff)
  have "List.map_filter buildConditionPayload (map bare_condition cs) = List.map_filter buildConditionPayload cs" for cs
    by (induction cs) (simp_all add: map_filter_def c)
  moreover have "mode_of (bare_operation op) = mode_of op" by (simp add: mode_of_def bare_operation_def)
  ultimately show "operation_payload (bare_operation op) = operation_payload op"
    "operation_issue (bare_operation op) = operation_issue op"
    by (simp_all add: operation_payload_def operation_issue_def bare_operation_def Let_def)
qed

lemma validate_bare: "validate_from tr n (map bare_operation ops) = validate_from tr n ops"
  by (induction ops arbitrary: n) (simp_all add: bare_invariant split: option.splits)

lemma build_bare: "buildOperationsJson tr b (map bare_operation ops) = buildOperationsJson tr b ops"
proof -
  have "filter (\<lambda>op. \<not> isOperationBlank op) (map bare_operation ops)
      = map bare_operation (filter (\<lambda>op. \<not> isOperationBlank op) ops)"
    by (induction ops) (simp_all add: bare_invariant)
  then show ?thesis
    by (simp add: buildOperationsJson_def validateOperations_def validate_bare Let_def comp_def bare_invariant del: pretty.simps)
qed

text \<open>C20 Switching to the JSON text and back shows the rules that are not blank in their settled
  form, with new identifiers (as for C17: trimmed, values as the text of what was parsed, the path, source, value
  and switch of another mode gone). Saving then saves the settled rules; when every rule was in
  canonical form, the rules are the same and saving gives the same text, or the same refusal, as
  before. At least one rule is not blank, and numbers in values are in the range the printer of
  numbers is modelled for.\<close>

theorem mode_switch_keeps_rules:
  assumes "ed_editMode e = VisualEdit" "ed_visualMode e = OperationsMode"
    and "\<forall>op\<in>set (ed_operations e). printable_operation op"
    and "filter (\<lambda>op. \<not> isOperationBlank op) (ed_operations e) \<noteq> []"
  shows "let e' = switchToVisualMode clk (switchToJsonMode tr e);
      settled = map settled_operation (filter (\<lambda>op. \<not> isOperationBlank op) (ed_operations e))
    in ed_editMode e' = VisualEdit \<and> ed_visualMode e' = OperationsMode \<and>
       map bare_operation (ed_operations e') = settled \<and>
       handleSave tr e' = handleSave tr (e\<lparr>ed_operations := settled\<rparr>) \<and>
       ((\<forall>op\<in>set (ed_operations e). canonical_operation op \<and> \<not> isOperationBlank op) \<longrightarrow>
         settled = map bare_operation (ed_operations e) \<and> handleSave tr e' = handleSave tr e)"
proof -
  let ?ops = "filter (\<lambda>op. \<not> isOperationBlank op) (ed_operations e)" and ?e1 = "switchToJsonMode tr e"
  let ?ps = "[(js ''operations'', JArr (map operation_payload ?ops))]"
  have u: "buildOperationsJson tr False (ed_operations e) = Inr (pretty 0 (JObj ?ps))"
    using assms(4) by (simp add: buildOperationsJson_def Let_def del: pretty.simps)
  have "buildOperationsJson tr True (ed_operations e) = Inr (pretty 0 (JObj ?ps))
      \<or> (\<exists>m. buildOperationsJson tr True (ed_operations e) = Inl m)"
    using assms(4) by (simp add: buildOperationsJson_def Let_def del: pretty.simps)
  then have t: "ed_jsonText ?e1 = pretty 0 (JObj ?ps)" "ed_editMode ?e1 = JsonEdit" "ed_seed ?e1 = ed_seed e"
    using assms(1,2) u by (auto simp: switchToJsonMode_def buildVisualJson_def simp del: pretty.simps)
  have p: "\<forall>op\<in>set ?ops. printable_operation op" using assms(3) by simp
  then have "plain_obj ?ps" using printable_payload_wf by (auto simp: is_digit_def)
  then have wf: "json_wf (JObj ?ps)" by (rule json_wf_plain)
  obtain ops' n' where o: "gen_map (normalizeOperation clk) (map operation_payload ?ops) (ed_seed e) = (Some ops', n')"
    "map bare_operation ops' = map settled_operation ?ops" using operations_printed [OF p] by metis
  let ?e2 = "switchToVisualMode clk ?e1"
  have e2: "ed_editMode ?e2 = VisualEdit" "ed_visualMode ?e2 = OperationsMode" "ed_operations ?e2 = ops'"
    using assms(4) o(1) pretty_obj_trimmed [of 0 ?ps]
    by (simp_all add: switchToVisualMode_def t json_parse_pretty [OF wf] operations_of_def createDefaultOperation_def Let_def
        del: pretty.simps)
  have "buildOperationsJson tr True ops' = buildOperationsJson tr True (map settled_operation ?ops)"
    using build_bare [of tr True ops'] o(2) by simp
  then have saved: "handleSave tr ?e2 = handleSave tr (e\<lparr>ed_operations := map settled_operation ?ops\<rparr>)"
    using assms(1,2) e2 by (simp add: handleSave_def buildVisualJson_def)
  have same: "map settled_operation ?ops = map bare_operation (ed_operations e) \<and> handleSave tr ?e2 = handleSave tr e"
    if "\<forall>op\<in>set (ed_operations e). canonical_operation op \<and> \<not> isOperationBlank op"
  proof -
    have f: "?ops = ed_operations e" using that by (simp add: filter_id_conv)
    have m: "map settled_operation (ed_operations e) = map bare_operation (ed_operations e)"
      using that canonical_settled by (intro map_cong) auto
    have "handleSave tr (e\<lparr>ed_operations := map bare_operation (ed_operations e)\<rparr>) = handleSave tr e"
      using assms(1,2) by (simp add: handleSave_def buildVisualJson_def build_bare)
    then show ?thesis using saved unfolding f m by simp
  qed
  show ?thesis unfolding Let_def using e2 o(2) saved same by simp
qed

theorem mode_switch_keeps_rules_witness:
  "let clk = (\<lambda>_. 0);
       op = operation_of (js ''p'') [] (JObj [(js ''mode'', JStr (js ''delete'')), (js ''path'', JStr (js ''user''))]);
       e = (initial_editor clk 0)\<lparr>ed_operations := [op]\<rparr>
   in map bare_operation (ed_operations (switchToVisualMode clk (switchToJsonMode (\<lambda>_ _. js ''error'') e))) = [bare_operation op]"
proof -
  let ?op = "operation_of (js ''p'') [] (JObj [(js ''mode'', JStr (js ''delete'')), (js ''path'', JStr (js ''user''))])"
  have "canonical_operation ?op" "\<not> isOperationBlank ?op" "printable_operation ?op" by code_simp+
  then show ?thesis
    using mode_switch_keeps_rules [of "(initial_editor (\<lambda>_. 0) 0)\<lparr>ed_operations := [?op]\<rparr>" "\<lambda>_. 0" "\<lambda>_ _. js ''error''"]
    by (simp add: initial_editor_def default_step Let_def)
qed

theorem save_prints_json_witness:
  "\<exists>v. js ''[]'' = pretty 0 v \<and> json_parse (js ''[]'') = Some v"
proof -
  let ?e = "(initial_editor (\<lambda>_. 0) 0)\<lparr>ed_editMode := JsonEdit, ed_jsonText := js '' [ ] ''\<rparr>"
  have "json_parse (trim (js '' [ ] '')) = Some (JArr [])" "trim (js '' [ ] '') \<noteq> []" by code_simp+
  then have "handleSave (\<lambda>_ _. []) ?e = Some (js ''[]'')" by (simp add: handleSave_def)
  from save_prints_json [OF this] obtain v where v: "js ''[]'' = pretty 0 v" by auto
  moreover have "json_parse (js ''[]'') = Some (JArr [])" by code_simp
  moreover have "js ''[]'' = pretty 0 (JArr [])" by simp
  ultimately show ?thesis by blast
qed

end
