(* ===== verification/SecureVerification.thy ===== *)
theory SecureVerification
  imports JsJson
begin

text \<open>
  Verification before a sensitive action
  (\<open>features/auth/secure-verification/hooks/use-secure-verification.ts\<close>, its \<open>api.ts\<close>, and
  \<open>lib/secure-verification.ts\<close>). An asynchronous call is a task that waits for an answer; tasks
  have numbers, and answers arrive in any order between the user's actions. Protected calls are
  numbers. Calls that leave the hook, messages shown and the ends of tasks are effects,
  appended to a trace: \<open>VerifySent\<close> is the call of \<open>verify\<close>, \<open>CallTried\<close> the protected call made at once by
  \<open>withVerification\<close>, \<open>CallSent\<close> the one after a verification, \<open>Settled\<close> the promise settling.
\<close>

section \<open>Errors that ask for verification\<close>

text \<open>An error of the HTTP client is its value: \<open>error.response.data.code\<close>.\<close>

definition error_data :: "jsval \<Rightarrow> string \<Rightarrow> jsval option" where
  "error_data e k = get_prop_opt (get_prop_opt (get_prop e ''response'') ''data'') k"

definition isVerificationRequiredError :: "jsval \<Rightarrow> bool" where
  "isVerificationRequiredError e \<longleftrightarrow>
     get_prop_opt (get_prop e ''response'') ''status'' = Some (JNum (Fin 403))
     \<and> (case error_data e ''code'' of
           Some (JStr c) \<Rightarrow> c \<in> {js ''VERIFICATION_REQUIRED'', js ''VERIFICATION_EXPIRED'', js ''VERIFICATION_INVALID''}
         | _ \<Rightarrow> False)"

text \<open>The message shown; \<open>null\<close> and \<open>undefined\<close> give the default.\<close>

definition extractVerificationInfo :: "jsval \<Rightarrow> jsval option \<times> jsval" where
  "extractVerificationInfo e =
     (error_data e ''code'',
      case error_data e ''message'' of
        None \<Rightarrow> JStr (js ''Secure verification is required'')
      | Some JNull \<Rightarrow> JStr (js ''Secure verification is required'')
      | Some m \<Rightarrow> m)"

section \<open>The state of the hook\<close>

datatype verification_method = TwoFA | Passkey

record verification_methods =
  has2FA :: bool
  hasPasskey :: bool
  passkeySupported :: bool

record start_options =
  preferredMethod :: "verification_method option"
  so_title :: "jstr option"
  so_description :: "jstr option"

record verification =
  vf_method :: "verification_method option"
  vf_loading :: bool
  vf_code :: jstr
  vf_title :: "jstr option"
  vf_description :: "jstr option"
  vf_apiCall :: "nat option"

definition defaultMethods :: verification_methods where
  "defaultMethods = \<lparr>has2FA = False, hasPasskey = False, passkeySupported = False\<rparr>"

definition initialState :: verification where
  "initialState = \<lparr>vf_method = None, vf_loading = False, vf_code = [], vf_title = None,
                   vf_description = None, vf_apiCall = None\<rparr>"

text \<open>What an asynchronous call waits for: the protected call tried at once, the methods of the
  account, the verification, or the protected call after it.\<close>

datatype task =
  AwaitTry nat start_options
| AwaitMethods nat start_options
| AwaitVerify nat verification_method
| AwaitCall nat verification_method

datatype effect =
  VerifySent nat verification_method jstr
| Verified nat
| CallTried nat nat
| CallSent nat nat
| SuccessReported nat nat verification_method
| ErrorReported nat
| Started nat bool
| Toast string
| Info jsval
| ErrorShown nat jsval
| Settled nat bool

record verifier =
  vr_methods :: verification_methods
  vr_state :: verification
  vr_open :: bool
  vr_tasks :: "(nat \<times> task) list"
  vr_next :: nat
  vr_trace :: "effect list"

definition initial_verifier :: verifier where
  "initial_verifier = \<lparr>vr_methods = defaultMethods, vr_state = initialState, vr_open = False,
                       vr_tasks = [], vr_next = 0, vr_trace = []\<rparr>"

definition emit :: "effect list \<Rightarrow> verifier \<Rightarrow> verifier" where
  "emit es s = s\<lparr>vr_trace := vr_trace s @ es\<rparr>"

definition set_task :: "nat \<Rightarrow> task \<Rightarrow> verifier \<Rightarrow> verifier" where
  "set_task k t s = s\<lparr>vr_tasks := map (\<lambda>(j, u). if j = k then (j, t) else (j, u)) (vr_tasks s)\<rparr>"

definition new_task :: "task \<Rightarrow> verifier \<Rightarrow> verifier" where
  "new_task t s = s\<lparr>vr_tasks := vr_tasks s @ [(vr_next s, t)], vr_next := Suc (vr_next s)\<rparr>"

definition end_task :: "nat \<Rightarrow> verifier \<Rightarrow> verifier" where
  "end_task k s = s\<lparr>vr_tasks := filter (\<lambda>(j, _). j \<noteq> k) (vr_tasks s)\<rparr>"

section \<open>The user's actions\<close>

definition reset :: "verifier \<Rightarrow> verifier" where
  "reset s = s\<lparr>vr_state := initialState, vr_open := False\<rparr>"

definition cancel :: "verifier \<Rightarrow> verifier" where
  "cancel s = reset s"

definition setCode :: "jstr \<Rightarrow> verifier \<Rightarrow> verifier" where
  "setCode c s = s\<lparr>vr_state := (vr_state s)\<lparr>vf_code := c\<rparr>\<rparr>"

definition switchMethod :: "verification_method \<Rightarrow> verifier \<Rightarrow> verifier" where
  "switchMethod m s = s\<lparr>vr_state := (vr_state s)\<lparr>vf_method := Some m, vf_code := []\<rparr>\<rparr>"

definition setOpen :: "bool \<Rightarrow> verifier \<Rightarrow> verifier" where
  "setOpen b s = s\<lparr>vr_open := b\<rparr>"

definition startVerification :: "nat \<Rightarrow> start_options \<Rightarrow> verifier \<Rightarrow> verifier" where
  "startVerification api cfg s = new_task (AwaitMethods api cfg) s"

definition withVerification :: "nat \<Rightarrow> start_options \<Rightarrow> verifier \<Rightarrow> verifier" where
  "withVerification api cfg s = emit [CallTried (vr_next s) api] (new_task (AwaitTry api cfg) s)"

text \<open>The part of \<open>executeVerification\<close> before its first \<open>await\<close>. Method and code default to those of
  the state.\<close>

definition executeVerification :: "verification_method option \<Rightarrow> jstr option \<Rightarrow> verifier \<Rightarrow> verifier" where
  "executeVerification m c s =
     (let st = vr_state s in
      case vf_apiCall st of
        None \<Rightarrow> emit [Toast ''Verification is not configured properly''] s
      | Some api \<Rightarrow>
          (case (case m of Some x \<Rightarrow> Some x | None \<Rightarrow> vf_method st) of
             None \<Rightarrow> emit [Toast ''Select a verification method first''] s
           | Some actual \<Rightarrow>
               emit [VerifySent (vr_next s) actual (case c of Some x \<Rightarrow> x | None \<Rightarrow> vf_code st)]
                 (new_task (AwaitVerify api actual) (s\<lparr>vr_state := st\<lparr>vf_loading := True\<rparr>\<rparr>))))"

section \<open>The answers\<close>

datatype answer =
  MethodsAre verification_methods
| Resolved
| Rejected jsval

text \<open>\<open>setState(prev => ({ ...prev, loading: false }))\<close>, the \<open>finally\<close> block.\<close>

definition stop_loading :: "verifier \<Rightarrow> verifier" where
  "stop_loading s = s\<lparr>vr_state := (vr_state s)\<lparr>vf_loading := False\<rparr>\<rparr>"

text \<open>The method a dialog starts with.\<close>

definition default_method :: "verification_methods \<Rightarrow> verification_method option \<Rightarrow> verification_method option" where
  "default_method ms preferred =
     (case preferred of
        Some m \<Rightarrow> Some m
      | None \<Rightarrow> if hasPasskey ms \<and> passkeySupported ms then Some Passkey
                else if has2FA ms then Some TwoFA else None)"

text \<open>\<open>startVerification\<close> after the methods have arrived.\<close>

definition methods_arrive :: "nat \<Rightarrow> nat \<Rightarrow> start_options \<Rightarrow> verification_methods \<Rightarrow> verifier \<Rightarrow> verifier" where
  "methods_arrive k api cfg ms s =
     (let s1 = end_task k (s\<lparr>vr_methods := ms\<rparr>)
      in if \<not> has2FA ms \<and> \<not> hasPasskey ms
         then emit [Toast ''Please enable Two-factor Authentication or Passkey before proceeding'',
                    ErrorReported k, Started k False] s1
         else emit [Started k True]
                (s1\<lparr>vr_state := (vr_state s1)\<lparr>vf_apiCall := Some api,
                       vf_method := default_method ms (preferredMethod cfg),
                       vf_title := so_title cfg, vf_description := so_description cfg\<rparr>,
                    vr_open := True\<rparr>))"

text \<open>\<open>executeVerification\<close> from the error of either \<open>await\<close>, and after its end.\<close>

definition fail_task :: "nat \<Rightarrow> jsval \<Rightarrow> verifier \<Rightarrow> verifier" where
  "fail_task k e s = emit [ErrorShown k e, ErrorReported k, Settled k False] (stop_loading (end_task k s))"

definition succeed_task :: "bool \<Rightarrow> nat \<Rightarrow> nat \<Rightarrow> verification_method \<Rightarrow> verifier \<Rightarrow> verifier" where
  "succeed_task autoReset k api m s =
     emit [SuccessReported k api m, Settled k True]
       (stop_loading ((if autoReset then reset else id) (end_task k s)))"

text \<open>The protected call tried first: its error asks for verification, or is the caller's.\<close>

definition tried :: "nat \<Rightarrow> nat \<Rightarrow> start_options \<Rightarrow> jsval \<Rightarrow> verifier \<Rightarrow> verifier" where
  "tried k api cfg e s =
     (if isVerificationRequiredError e
      then emit [Info (snd (extractVerificationInfo e))] (set_task k (AwaitMethods api cfg) s)
      else emit [Settled k False] (end_task k s))"

text \<open>The answer to task \<open>k\<close>; an answer no task waits for changes nothing. Fetching the methods never
  fails: \<open>checkVerificationMethods\<close> catches every error.\<close>

definition answer_task :: "bool \<Rightarrow> nat \<Rightarrow> answer \<Rightarrow> verifier \<Rightarrow> verifier" where
  "answer_task autoReset k a s =
     (case map_of (vr_tasks s) k of
        None \<Rightarrow> s
      | Some (AwaitTry api cfg) \<Rightarrow>
          (case a of Resolved \<Rightarrow> emit [Settled k True] (end_task k s)
           | Rejected e \<Rightarrow> tried k api cfg e s | MethodsAre ms \<Rightarrow> s)
      | Some (AwaitMethods api cfg) \<Rightarrow>
          (case a of MethodsAre ms \<Rightarrow> methods_arrive k api cfg ms s | _ \<Rightarrow> s)
      | Some (AwaitVerify api m) \<Rightarrow>
          (case a of Resolved \<Rightarrow> emit [Verified k, CallSent k api] (set_task k (AwaitCall api m) s)
           | Rejected e \<Rightarrow> fail_task k e s | MethodsAre ms \<Rightarrow> s)
      | Some (AwaitCall api m) \<Rightarrow>
          (case a of Resolved \<Rightarrow> succeed_task autoReset k api m s
           | Rejected e \<Rightarrow> fail_task k e s | MethodsAre ms \<Rightarrow> s))"

text \<open>The methods fetched when the hook is mounted.\<close>

definition mounted :: "verification_methods \<Rightarrow> verifier \<Rightarrow> verifier" where
  "mounted ms s = s\<lparr>vr_methods := ms\<rparr>"

section \<open>What the dialog offers\<close>

definition canUseMethod :: "verification_methods \<Rightarrow> verification_method \<Rightarrow> bool" where
  "canUseMethod ms m = (case m of TwoFA \<Rightarrow> has2FA ms | Passkey \<Rightarrow> hasPasskey ms \<and> passkeySupported ms)"

definition recommendedMethod :: "verification_methods \<Rightarrow> verification_method option" where
  "recommendedMethod ms =
     (if hasPasskey ms \<and> passkeySupported ms then Some Passkey else if has2FA ms then Some TwoFA else None)"

section \<open>Checking the account's methods and verifying\<close>

text \<open>\<open>Boolean(r?.success) && Boolean(r?.data?.enabled)\<close>.\<close>

definition status_enabled :: "jsval \<Rightarrow> bool" where
  "status_enabled r \<longleftrightarrow> truthy_opt (get_prop r ''success'') \<and> truthy_opt (get_prop_opt (get_prop r ''data'') ''enabled'')"

text \<open>\<open>None\<close> stands for a request that fails.\<close>

definition checkVerificationMethods :: "(jsval \<times> jsval \<times> bool) option \<Rightarrow> verification_methods" where
  "checkVerificationMethods r =
     (case r of
        None \<Rightarrow> defaultMethods
      | Some (twoFA, passkey, supported) \<Rightarrow>
          \<lparr>has2FA = status_enabled twoFA, hasPasskey = status_enabled passkey, passkeySupported = supported\<rparr>)"

text \<open>The request a code is verified with, or the error a blank code throws before any request.\<close>

definition verifyTwoFA :: "jstr option \<Rightarrow> string + jsval" where
  "verifyTwoFA code =
     (let c = (case code of Some s \<Rightarrow> trim s | None \<Rightarrow> [])
      in if c = [] then Inl ''Please enter the verification code or backup code''
         else Inr (JObj [(js ''method'', JStr (js ''2fa'')), (js ''code'', JStr c)]))"

end
