(* ===== verification/SecureVerificationProps.thy ===== *)
theory SecureVerificationProps
  imports SecureVerification
begin

text \<open>
  Runs of the verification hook: the user's actions and the answers to its requests as events, in any
  order. The invariant of the reachable states says which requests a pending task has made and that
  the loading flag is on only while a verification is pending. From it: no protected call without its
  verification but for the first try of \<open>withVerification\<close>, every verification ends once its calls are answered, the dialog does not stay locked,
  and cancelling does not stop a verification under way.
\<close>

section \<open>Runs of the hook\<close>

datatype event =
  Start nat start_options
| WithVerification nat start_options
| Execute "verification_method option" "jstr option"
| SetCode jstr
| SwitchMethod verification_method
| Cancel
| SetOpen bool
| Mounted verification_methods
| Answer nat answer

fun handle :: "bool \<Rightarrow> event \<Rightarrow> verifier \<Rightarrow> verifier" where
  "handle ar (Start api cfg) s = startVerification api cfg s"
| "handle ar (WithVerification api cfg) s = withVerification api cfg s"
| "handle ar (Execute m c) s = executeVerification m c s"
| "handle ar (SetCode c) s = setCode c s"
| "handle ar (SwitchMethod m) s = switchMethod m s"
| "handle ar Cancel s = cancel s"
| "handle ar (SetOpen b) s = setOpen b s"
| "handle ar (Mounted ms) s = mounted ms s"
| "handle ar (Answer k a) s = answer_task ar k a s"

inductive verifier_reach :: "bool \<Rightarrow> verifier \<Rightarrow> bool" for ar where
  initial: "verifier_reach ar initial_verifier"
| event: "verifier_reach ar s \<Longrightarrow> verifier_reach ar (handle ar e s)"

lemma reach_run: "verifier_reach ar s \<Longrightarrow> verifier_reach ar (fold (handle ar) es s)"
  by (induction es arbitrary: s) (auto intro: verifier_reach.event)

text \<open>A run for the examples: a dialog for call 7, opened with the second factor, whose code was sent.\<close>

definition sample_run :: "event list" where
  "sample_run =
     [Start 7 \<lparr>preferredMethod = None, so_title = None, so_description = None\<rparr>,
      Answer 0 (MethodsAre \<lparr>has2FA = True, hasPasskey = False, passkeySupported = False\<rparr>),
      SetCode (js ''123456''), Execute None None]"

definition sample :: verifier where
  "sample = fold (handle True) sample_run initial_verifier"

lemma sample_reach: "verifier_reach True sample"
  unfolding sample_def by (rule reach_run [OF verifier_reach.initial])

lemma sample_tasks: "vr_tasks sample = [(1, AwaitVerify 7 TwoFA)]"
  by code_simp

text \<open>The tasks of \<open>executeVerification\<close>.\<close>

fun executing :: "task \<Rightarrow> bool" where
  "executing (AwaitVerify _ _) = True"
| "executing (AwaitCall _ _) = True"
| "executing _ = False"

fun call_of :: "nat \<Rightarrow> effect \<Rightarrow> bool" where
  "call_of k (CallSent j _) = (j = k)"
| "call_of k _ = False"

fun sent_of :: "nat \<Rightarrow> effect \<Rightarrow> bool" where
  "sent_of k (VerifySent j _ _) = (j = k)"
| "sent_of k _ = False"

section \<open>No protected call without its verification\<close>

text \<open>Every protected call sent by a task comes after its verification was sent and succeeded, and
  is the only one of its task.\<close>

definition guarded :: "effect list \<Rightarrow> bool" where
  "guarded tr \<longleftrightarrow> (\<forall>pre k api post. tr = pre @ CallSent k api # post \<longrightarrow>
     list_ex (sent_of k) pre \<and> Verified k \<in> set pre \<and> \<not> list_ex (call_of k) pre)"

lemma guarded_append:
  assumes "guarded tr" and "\<forall>e\<in>set es. \<forall>k. \<not> call_of k e"
  shows "guarded (tr @ es)"
  unfolding guarded_def
proof (intro allI impI)
  fix pre k api post
  assume a: "tr @ es = pre @ CallSent k api # post"
  have "length pre < length tr"
  proof (rule ccontr)
    assume "\<not> length pre < length tr"
    then obtain us where "pre = tr @ us" "es = us @ CallSent k api # post"
      using a by (auto simp: append_eq_append_conv2)
    with assms(2) show False by auto
  qed
  then obtain post' where "tr = pre @ CallSent k api # post'"
    using a by (auto simp: append_eq_append_conv2 append_eq_Cons_conv)
  then show "list_ex (sent_of k) pre \<and> Verified k \<in> set pre \<and> \<not> list_ex (call_of k) pre"
    using assms(1) by (simp add: guarded_def)
qed

lemma guarded_call:
  assumes "guarded tr" "list_ex (sent_of k) tr" "\<not> list_ex (call_of k) tr"
  shows "guarded (tr @ [Verified k, CallSent k api])"
  unfolding guarded_def
proof (intro allI impI)
  fix pre j api' post
  assume a: "tr @ [Verified k, CallSent k api] = pre @ CallSent j api' # post"
  show "list_ex (sent_of j) pre \<and> Verified j \<in> set pre \<and> \<not> list_ex (call_of j) pre"
  proof (cases post rule: rev_cases)
    case Nil
    then have "pre = tr @ [Verified k]" "j = k" using a by auto
    then show ?thesis using assms by auto
  next
    case (snoc post' x)
    then have "tr @ [Verified k] = pre @ CallSent j api' # post'"
      using a by (metis append_Cons append_assoc append_Nil append_Cons butlast_snoc butlast_append list.distinct(1))
    moreover have "guarded (tr @ [Verified k])" using assms(1) by (rule guarded_append) simp
    ultimately show ?thesis by (simp add: guarded_def)
  qed
qed

definition tasks_ok :: "verifier \<Rightarrow> bool" where
  "tasks_ok s \<longleftrightarrow>
     distinct (map fst (vr_tasks s)) \<and> (\<forall>(k, t)\<in>set (vr_tasks s). k < vr_next s)
     \<and> (\<forall>k api m. (k, AwaitVerify api m) \<in> set (vr_tasks s) \<longrightarrow>
          list_ex (sent_of k) (vr_trace s) \<and> \<not> list_ex (call_of k) (vr_trace s))
     \<and> (\<forall>k. list_ex (call_of k) (vr_trace s) \<longrightarrow> k < vr_next s)
     \<and> guarded (vr_trace s)"

definition loading_ok :: "verifier \<Rightarrow> bool" where
  "loading_ok s \<longleftrightarrow> (vf_loading (vr_state s) \<longrightarrow> (\<exists>(k, t)\<in>set (vr_tasks s). executing t))"

text \<open>How the operations on tasks keep the invariant.\<close>

lemma emit_simps [simp]:
  "vr_tasks (emit es s) = vr_tasks s" "vr_next (emit es s) = vr_next s" "vr_state (emit es s) = vr_state s"
  "vr_trace (emit es s) = vr_trace s @ es" "vr_open (emit es s) = vr_open s" "vr_methods (emit es s) = vr_methods s"
  by (simp_all add: emit_def)

lemma task_simps [simp]:
  "vr_trace (new_task t s) = vr_trace s" "vr_state (new_task t s) = vr_state s" "vr_open (new_task t s) = vr_open s"
  "vr_trace (end_task k s) = vr_trace s" "vr_state (end_task k s) = vr_state s" "vr_open (end_task k s) = vr_open s"
  "vr_next (end_task k s) = vr_next s"
  "vr_trace (set_task k t s) = vr_trace s" "vr_state (set_task k t s) = vr_state s" "vr_open (set_task k t s) = vr_open s"
  "vr_next (set_task k t s) = vr_next s"
  "vr_tasks (stop_loading s) = vr_tasks s" "vr_next (stop_loading s) = vr_next s" "vr_trace (stop_loading s) = vr_trace s"
  "vf_loading (vr_state (stop_loading s)) = False" "vr_open (stop_loading s) = vr_open s"
  "vr_tasks (reset s) = vr_tasks s" "vr_next (reset s) = vr_next s" "vr_trace (reset s) = vr_trace s"
  "vr_state (reset s) = initialState" "vr_open (reset s) = False"
  by (simp_all add: new_task_def end_task_def set_task_def stop_loading_def reset_def)

lemma tasks_ok_same:
  "tasks_ok s \<Longrightarrow> vr_tasks s' = vr_tasks s \<Longrightarrow> vr_next s' = vr_next s \<Longrightarrow> vr_trace s' = vr_trace s \<Longrightarrow> tasks_ok s'"
  by (simp add: tasks_ok_def)

lemma tasks_ok_emit:
  assumes "tasks_ok s" and "\<forall>e\<in>set es. \<forall>k. \<not> call_of k e"
  shows "tasks_ok (emit es s)"
proof -
  have "\<not> list_ex (call_of k) es" for k using assms(2) by (simp add: list_ex_iff)
  then show ?thesis using assms guarded_append by (fastforce simp: tasks_ok_def)
qed

lemma tasks_ok_end: "tasks_ok s \<Longrightarrow> tasks_ok (end_task k s)"
  by (auto simp: tasks_ok_def end_task_def distinct_map_filter)

lemma tasks_ok_new:
  assumes "tasks_ok s" and "\<not> executing t"
  shows "tasks_ok (new_task t s)"
  using assms by (fastforce simp: tasks_ok_def new_task_def)

lemma fst_set_task [simp]: "map fst (vr_tasks (set_task k t s)) = map fst (vr_tasks s)"
  by (auto simp: set_task_def comp_def case_prod_unfold)

lemma in_set_task:
  "(j, u) \<in> set (vr_tasks (set_task k t s)) \<longleftrightarrow>
     (if j = k then u = t \<and> k \<in> fst ` set (vr_tasks s) else (j, u) \<in> set (vr_tasks s))"
  by (cases "j = k") (auto simp: set_task_def image_iff split: if_splits intro: bexI [rotated])

lemma tasks_okD:
  assumes "tasks_ok s"
  shows "distinct (map fst (vr_tasks s))" and "(k, t) \<in> set (vr_tasks s) \<Longrightarrow> k < vr_next s"
    and "(k, AwaitVerify api m) \<in> set (vr_tasks s) \<Longrightarrow> list_ex (sent_of k) (vr_trace s)"
    and "(k, AwaitVerify api m) \<in> set (vr_tasks s) \<Longrightarrow> \<not> list_ex (call_of k) (vr_trace s)"
    and "list_ex (call_of k) (vr_trace s) \<Longrightarrow> k < vr_next s" and "guarded (vr_trace s)"
  using assms unfolding tasks_ok_def by blast+

lemma tasks_ok_set:
  assumes "tasks_ok s" and "\<And>api m. t \<noteq> AwaitVerify api m"
  shows "tasks_ok (set_task k t s)"
  unfolding tasks_ok_def fst_set_task task_simps
proof (intro conjI allI impI)
  show "\<forall>(j, u)\<in>set (vr_tasks (set_task k t s)). j < vr_next s"
    using tasks_okD(2) [OF assms(1)] by (auto simp: in_set_task split: if_splits)
  show "list_ex (sent_of j) (vr_trace s)" "\<not> list_ex (call_of j) (vr_trace s)"
    if "(j, AwaitVerify api m) \<in> set (vr_tasks (set_task k t s))" for j api m
    using that assms(2) [of api m] tasks_okD(3,4) [OF assms(1)] by (auto simp: in_set_task split: if_splits)
qed (use tasks_okD [OF assms(1)] in auto)

lemma tasks_ok_execute:
  assumes "tasks_ok s"
  shows "tasks_ok (emit [VerifySent (vr_next s) m c] (new_task (AwaitVerify api m) s))"
proof -
  have "\<not> list_ex (call_of (vr_next s)) (vr_trace s)" using assms by (auto simp: tasks_ok_def)
  moreover have "guarded (vr_trace s @ [VerifySent (vr_next s) m c])"
    using assms by (intro guarded_append) (simp_all add: tasks_ok_def)
  ultimately show ?thesis using assms by (fastforce simp: tasks_ok_def new_task_def)
qed

lemma tasks_ok_verified:
  assumes "tasks_ok s" and t: "map_of (vr_tasks s) k = Some (AwaitVerify api m)"
  shows "tasks_ok (emit [Verified k, CallSent k api] (set_task k (AwaitCall api m) s))"
proof -
  note D = tasks_okD [OF assms(1)]
  have k: "(k, AwaitVerify api m) \<in> set (vr_tasks s)" using t by (rule map_of_SomeD)
  have g: "guarded (vr_trace s @ [Verified k, CallSent k api])" by (rule guarded_call [OF D(6) D(3) [OF k] D(4) [OF k]])
  note D' = tasks_okD [OF tasks_ok_set [OF assms(1), of "AwaitCall api m" k]]
  show ?thesis
    unfolding tasks_ok_def emit_simps task_simps fst_set_task
  proof (intro conjI allI impI)
    show "\<forall>(j, u)\<in>set (vr_tasks (set_task k (AwaitCall api m) s)). j < vr_next s" using D'(2) by auto
    show "list_ex (sent_of j) (vr_trace s @ [Verified k, CallSent k api])"
      "\<not> list_ex (call_of j) (vr_trace s @ [Verified k, CallSent k api])"
      if "(j, AwaitVerify api' m') \<in> set (vr_tasks (set_task k (AwaitCall api m) s))" for j api' m'
      using that D(3,4) by (auto simp: in_set_task split: if_splits)
    show "j < vr_next s" if "list_ex (call_of j) (vr_trace s @ [Verified k, CallSent k api])" for j
      using that D(5) D(2) [OF k] by auto
  qed (use D(1) g in auto)
qed

lemma loading_ok_emit [simp]: "loading_ok (emit es s) = loading_ok s"
  by (simp add: loading_ok_def)

lemma loading_ok_off: "\<not> vf_loading (vr_state s) \<Longrightarrow> loading_ok s"
  by (simp add: loading_ok_def)

lemma loading_ok_end:
  assumes "loading_ok s" and "distinct (map fst (vr_tasks s))" and "map_of (vr_tasks s) k = Some t" "\<not> executing t"
  shows "loading_ok (end_task k s)"
proof -
  have "\<not> executing u" if "(k, u) \<in> set (vr_tasks s)" for u
    using assms that by (metis map_of_is_SomeI option.inject)
  then show ?thesis using assms(1) by (fastforce simp: loading_ok_def end_task_def)
qed

lemma loading_ok_set:
  assumes "loading_ok s" and "distinct (map fst (vr_tasks s))" and t: "map_of (vr_tasks s) k = Some t" "executing t \<longrightarrow> executing u"
  shows "loading_ok (set_task k u s)"
proof -
  have "\<exists>(j, w)\<in>set (vr_tasks (set_task k u s)). executing w" if jv: "(j, v) \<in> set (vr_tasks s)" "executing v" for j v
  proof (cases "j = k")
    case True
    then have "executing u" using assms(2) t jv by (metis map_of_is_SomeI option.inject)
    moreover have "(k, u) \<in> set (vr_tasks (set_task k u s))" using jv True by (force simp: in_set_task)
    ultimately show ?thesis by blast
  next
    case False
    then have "(j, v) \<in> set (vr_tasks (set_task k u s))" using jv by (simp add: in_set_task)
    with jv(2) show ?thesis by blast
  qed
  then show ?thesis using assms(1) unfolding loading_ok_def task_simps by blast
qed

definition verifier_ok :: "verifier \<Rightarrow> bool" where
  "verifier_ok s \<longleftrightarrow> tasks_ok s \<and> loading_ok s"

lemma verifier_ok_fail: "tasks_ok s \<Longrightarrow> verifier_ok (fail_task k e s)"
  by (auto simp: verifier_ok_def fail_task_def intro!: tasks_ok_emit loading_ok_off
      tasks_ok_same [of "end_task k s"] tasks_ok_end)

lemma verifier_ok_succeed: "tasks_ok s \<Longrightarrow> verifier_ok (succeed_task ar k api m s)"
  by (auto simp: verifier_ok_def succeed_task_def intro!: tasks_ok_emit loading_ok_off
      tasks_ok_same [of "end_task k s"] tasks_ok_end)

lemma verifier_ok_emit: "verifier_ok s \<Longrightarrow> \<forall>e\<in>set es. \<forall>k. \<not> call_of k e \<Longrightarrow> verifier_ok (emit es s)"
  by (simp add: verifier_ok_def tasks_ok_emit)

lemma verifier_ok_end:
  assumes "verifier_ok s" "map_of (vr_tasks s) k = Some t" "\<not> executing t"
  shows "verifier_ok (end_task k s)"
  using assms tasks_ok_end loading_ok_end [OF _ _ assms(2,3)] tasks_okD(1) by (auto simp: verifier_ok_def)

lemma verifier_ok_new:
  assumes "verifier_ok s" "\<not> executing t"
  shows "verifier_ok (new_task t s)"
  using assms tasks_ok_new by (auto simp: verifier_ok_def loading_ok_def new_task_def)

lemma verifier_ok_same:
  "verifier_ok s \<Longrightarrow> vr_tasks s' = vr_tasks s \<Longrightarrow> vr_next s' = vr_next s \<Longrightarrow> vr_trace s' = vr_trace s \<Longrightarrow>
   (vf_loading (vr_state s') \<longrightarrow> vf_loading (vr_state s)) \<Longrightarrow> verifier_ok s'"
  using tasks_ok_same [of s s'] by (auto simp: verifier_ok_def loading_ok_def)

lemma verifier_ok_methods:
  assumes "verifier_ok s" and "map_of (vr_tasks s) k = Some (AwaitMethods api cfg)"
  shows "verifier_ok (methods_arrive k api cfg ms s)"
proof -
  have "verifier_ok (end_task k s)" using assms by (rule verifier_ok_end) simp
  then show ?thesis
    unfolding methods_arrive_def Let_def
    by (auto intro!: verifier_ok_emit intro: verifier_ok_same simp: end_task_def)
qed

lemma verifier_ok_set:
  assumes "verifier_ok s" "map_of (vr_tasks s) k = Some t" "\<not> executing t" "\<not> executing u"
  shows "verifier_ok (set_task k u s)"
proof -
  have "\<And>api m. u \<noteq> AwaitVerify api m" using assms(4) by auto
  then show ?thesis using assms tasks_ok_set [of s u k] loading_ok_set [of s k t u] tasks_okD(1) [of s]
    by (auto simp: verifier_ok_def)
qed

lemma verifier_ok_execute:
  assumes "verifier_ok s"
  shows "verifier_ok (executeVerification m c s)"
proof -
  have "verifier_ok (emit [VerifySent (vr_next s) m c] (new_task (AwaitVerify api m)
      (s\<lparr>vr_state := (vr_state s)\<lparr>vf_loading := True\<rparr>\<rparr>)))" for m c api
  proof -
    let ?s = "s\<lparr>vr_state := (vr_state s)\<lparr>vf_loading := True\<rparr>\<rparr>"
    have "tasks_ok ?s" using assms tasks_ok_same [of s ?s] by (simp add: verifier_ok_def)
    from tasks_ok_execute [OF this] show ?thesis
      by (simp add: verifier_ok_def loading_ok_def new_task_def)
  qed
  then show ?thesis using assms
    by (auto simp: executeVerification_def Let_def split: option.splits intro: verifier_ok_emit)
qed

lemma verifier_ok_answer:
  assumes "verifier_ok s"
  shows "verifier_ok (answer_task ar k a s)"
proof (cases "map_of (vr_tasks s) k")
  case None
  then show ?thesis using assms by (simp add: answer_task_def)
next
  case (Some t)
  have tk: "tasks_ok s" using assms by (simp add: verifier_ok_def)
  show ?thesis
  proof (cases t)
    case (AwaitTry api cfg)
    have "verifier_ok (end_task k s)" using assms Some AwaitTry by (intro verifier_ok_end) auto
    moreover have "verifier_ok (set_task k (AwaitMethods api cfg) s)"
      using assms Some AwaitTry by (intro verifier_ok_set) auto
    ultimately show ?thesis using assms Some AwaitTry
      by (auto simp: answer_task_def tried_def intro: verifier_ok_emit split: answer.splits)
  next
    case (AwaitMethods api cfg)
    then show ?thesis using assms Some verifier_ok_methods by (auto simp: answer_task_def split: answer.splits)
  next
    case (AwaitVerify api m)
    have "verifier_ok (emit [Verified k, CallSent k api] (set_task k (AwaitCall api m) s))"
      using tasks_ok_verified [OF tk] Some AwaitVerify assms loading_ok_set [of s k t "AwaitCall api m"] tasks_okD(1) [OF tk]
      by (simp add: verifier_ok_def)
    then show ?thesis using assms Some AwaitVerify verifier_ok_fail [OF tk]
      by (auto simp: answer_task_def split: answer.splits)
  next
    case (AwaitCall api m)
    then show ?thesis using assms Some verifier_ok_fail [OF tk] verifier_ok_succeed [OF tk]
      by (auto simp: answer_task_def split: answer.splits)
  qed
qed

lemma reach_verifier_ok: "verifier_reach ar s \<Longrightarrow> verifier_ok s"
proof (induction rule: verifier_reach.induct)
  case initial
  show ?case by (simp add: verifier_ok_def tasks_ok_def loading_ok_def initial_verifier_def initialState_def guarded_def)
next
  case (event s e)
  then show ?case
    by (cases e) (auto simp: startVerification_def withVerification_def cancel_def setCode_def switchMethod_def
        setOpen_def mounted_def initialState_def
        intro!: verifier_ok_emit intro: verifier_ok_new verifier_ok_execute verifier_ok_answer verifier_ok_same)
qed

section \<open>Every protected call is sent once\<close>

text \<open>The protected calls of a task: the one \<open>withVerification\<close> tries without a verification, or the one
  \<open>executeVerification\<close> sends after it. A task that still waits for its verification has sent none.\<close>

fun protected_of :: "nat \<Rightarrow> effect \<Rightarrow> bool" where
  "protected_of k (CallSent j _) = (j = k)"
| "protected_of k (CallTried j _) = (j = k)"
| "protected_of k _ = False"

definition sent_count :: "nat \<Rightarrow> verifier \<Rightarrow> nat" where
  "sent_count k s = length (filter (protected_of k) (vr_trace s))"

definition once_ok :: "verifier \<Rightarrow> bool" where
  "once_ok s \<longleftrightarrow> (\<forall>k. sent_count k s \<le> 1) \<and> (\<forall>k\<ge>vr_next s. sent_count k s = 0)
     \<and> (\<forall>k api m. (k, AwaitVerify api m) \<in> set (vr_tasks s) \<longrightarrow> sent_count k s = 0)"

lemma once_ok_same:
  "once_ok s \<Longrightarrow> vr_trace s' = vr_trace s \<Longrightarrow> vr_next s' = vr_next s \<Longrightarrow> set (vr_tasks s') \<subseteq> set (vr_tasks s) \<Longrightarrow> once_ok s'"
  unfolding once_ok_def sent_count_def by (simp, blast)

lemma once_okD: "once_ok s \<Longrightarrow> (k, AwaitVerify api m) \<in> set (vr_tasks s) \<Longrightarrow> sent_count k s = 0"
  unfolding once_ok_def by blast

lemma once_ok_emit: "once_ok s \<Longrightarrow> \<forall>e\<in>set es. \<forall>k. \<not> protected_of k e \<Longrightarrow> once_ok (emit es s)"
  by (simp add: once_ok_def sent_count_def filter_empty_conv)

lemma once_ok_end: "once_ok s \<Longrightarrow> once_ok (end_task k s)"
  by (rule once_ok_same) (auto simp: end_task_def)

lemma once_ok_set:
  assumes "once_ok s" "\<And>api m. t \<noteq> AwaitVerify api m"
  shows "once_ok (set_task k t s)"
proof -
  have "sent_count j s = 0" if "(j, AwaitVerify api m) \<in> set (vr_tasks (set_task k t s))" for j api m
    using that assms once_okD by (auto simp: in_set_task split: if_splits)
  then show ?thesis using assms(1) unfolding once_ok_def sent_count_def task_simps by blast
qed

lemma once_ok_new:
  "once_ok s \<Longrightarrow> once_ok (new_task t s)"
  unfolding once_ok_def sent_count_def by (auto simp: new_task_def)

lemma once_ok_call:
  assumes "once_ok s" "sent_count k s = 0" "k < vr_next s" "\<And>api m. (k, AwaitVerify api m) \<notin> set (vr_tasks s)"
    and e: "e = CallSent k x \<or> e = CallTried k x"
  shows "once_ok (emit [e] s)"
proof -
  have "sent_count j (emit [e] s) = sent_count j s + (if j = k then 1 else 0)" for j
    using e by (auto simp: sent_count_def)
  then show ?thesis using assms(1-4) by (auto simp: once_ok_def)
qed

lemma once_ok_arrive: "once_ok s \<Longrightarrow> once_ok (methods_arrive k api cfg ms s)"
  unfolding methods_arrive_def Let_def
  by (auto intro!: once_ok_emit intro: once_ok_same [of s] simp: end_task_def)

lemma once_ok_finish:
  "once_ok s \<Longrightarrow> once_ok (fail_task k e s)" "once_ok s \<Longrightarrow> once_ok (succeed_task ar k api m s)"
  unfolding fail_task_def succeed_task_def
  by (auto intro!: once_ok_emit intro: once_ok_same [of "end_task k s"] once_ok_end)

lemma once_ok_verified:
  assumes "once_ok s" and t: "map_of (vr_tasks s) k = Some (AwaitVerify api m)" and "tasks_ok s"
  shows "once_ok (emit [Verified k, CallSent k api] (set_task k (AwaitCall api m) s))"
proof -
  have k: "(k, AwaitVerify api m) \<in> set (vr_tasks s)" using t by (rule map_of_SomeD)
  let ?s = "emit [Verified k] (set_task k (AwaitCall api m) s)"
  have "once_ok ?s" using assms(1) by (intro once_ok_emit once_ok_set) auto
  moreover have "sent_count k ?s = 0" using once_okD [OF assms(1) k] by (simp add: sent_count_def)
  moreover have "k < vr_next ?s" using tasks_okD(2) [OF assms(3) k] by simp
  ultimately have "once_ok (emit [CallSent k api] ?s)" by (rule once_ok_call) (auto simp: in_set_task)
  then show ?thesis by (simp add: emit_def)
qed

lemma once_ok_answer:
  assumes "once_ok s" "tasks_ok s"
  shows "once_ok (answer_task ar k a s)"
proof (cases "map_of (vr_tasks s) k")
  case (Some t)
  then show ?thesis
    using assms once_ok_verified [OF assms(1) _ assms(2)]
    by (cases t) (auto simp: answer_task_def tried_def split: answer.splits
        intro: once_ok_finish once_ok_arrive intro!: once_ok_emit once_ok_end once_ok_set)
qed (simp add: answer_task_def assms)

lemma once_ok_execute: "once_ok s \<Longrightarrow> once_ok (executeVerification m c s)"
  unfolding executeVerification_def Let_def
  by (auto intro!: once_ok_emit once_ok_new once_ok_same [of s] split: option.splits)

lemma once_ok_with:
  assumes "once_ok s" "tasks_ok s"
  shows "once_ok (withVerification api cfg s)"
proof -
  have "(vr_next s, t) \<notin> set (vr_tasks s)" for t using tasks_okD(2) [OF assms(2)] by blast
  then show ?thesis unfolding withVerification_def
    using assms(1) by (intro once_ok_call [where k = "vr_next s"] once_ok_new) (auto simp: new_task_def once_ok_def sent_count_def)
qed

lemma reach_once_ok: "verifier_reach ar s \<Longrightarrow> once_ok s"
proof (induction rule: verifier_reach.induct)
  case initial
  show ?case by (simp add: once_ok_def sent_count_def initial_verifier_def)
next
  case (event s e)
  have "tasks_ok s" using reach_verifier_ok [OF event.hyps] by (simp add: verifier_ok_def)
  then show ?case using event.IH
    by (cases e) (auto simp: startVerification_def cancel_def setCode_def switchMethod_def setOpen_def mounted_def
        intro: once_ok_new once_ok_execute once_ok_answer once_ok_with once_ok_same)
qed

text \<open>C21 In every run, whatever order answers, cancellations and further requests come in, a protected
  call is sent in two ways only, and once for each request that asks for it: \<open>withVerification\<close>
  tries it once without a verification, leaving the refusal to the server, and never sends it
  itself again; and \<open>executeVerification\<close> sends it once, after its own verification was sent and
  has succeeded.\<close>

theorem verified_before_call:
  assumes "verifier_reach ar s" and "vr_trace s = pre @ e # post" and "protected_of k e"
  shows "\<not> list_ex (protected_of k) (pre @ post)
    \<and> ((\<exists>api. e = CallTried k api)
        \<or> (\<exists>api. e = CallSent k api) \<and> list_ex (sent_of k) pre \<and> Verified k \<in> set pre)"
proof
  have "sent_count k s \<le> 1" using reach_once_ok [OF assms(1)] by (simp add: once_ok_def)
  then have "length (filter (protected_of k) (pre @ post)) = 0" using assms(2,3) by (simp add: sent_count_def)
  then show "\<not> list_ex (protected_of k) (pre @ post)" by (auto simp: list_ex_iff filter_empty_conv)
  have g: "guarded (vr_trace s)" using reach_verifier_ok [OF assms(1)] by (simp add: verifier_ok_def tasks_okD)
  consider api where "e = CallTried k api" | api where "e = CallSent k api" using assms(3) by (cases e) auto
  then show "(\<exists>api. e = CallTried k api)
      \<or> (\<exists>api. e = CallSent k api) \<and> list_ex (sent_of k) pre \<and> Verified k \<in> set pre"
  proof cases
    case 2
    then have "list_ex (sent_of k) pre \<and> Verified k \<in> set pre" using g assms(2) by (simp add: guarded_def)
    then show ?thesis using 2 by blast
  qed blast
qed

lemma verified_before_call_witness:
  "\<not> list_ex (protected_of 1) ([Started 0 True, VerifySent 1 TwoFA (js ''123456''), Verified 1] @ [])
   \<and> ((\<exists>api. CallSent 1 7 = CallTried 1 api)
       \<or> (\<exists>api. CallSent 1 7 = CallSent 1 api)
         \<and> list_ex (sent_of 1) [Started 0 True, VerifySent 1 TwoFA (js ''123456''), Verified 1]
         \<and> Verified 1 \<in> set [Started 0 True, VerifySent 1 TwoFA (js ''123456''), Verified 1])"
proof (rule verified_before_call)
  show "verifier_reach True (handle True (Answer 1 Resolved) sample)"
    by (rule verifier_reach.event [OF sample_reach])
  show "vr_trace (handle True (Answer 1 Resolved) sample)
      = [Started 0 True, VerifySent 1 TwoFA (js ''123456''), Verified 1] @ CallSent 1 7 # []"
    by code_simp
qed simp

section \<open>Every verification ends\<close>

fun answers_task :: "nat \<Rightarrow> event \<Rightarrow> bool" where
  "answers_task k (Answer j (MethodsAre ms)) = False"
| "answers_task k (Answer j a) = (j = k)"
| "answers_task k e = False"

definition answers :: "nat \<Rightarrow> event list \<Rightarrow> nat" where
  "answers k es = length (filter (answers_task k) es)"

text \<open>How many answers a task still needs.\<close>

fun needs :: "task option \<Rightarrow> nat" where
  "needs (Some (AwaitVerify _ _)) = 2"
| "needs (Some (AwaitCall _ _)) = 1"
| "needs _ = 0"

definition ended :: "nat \<Rightarrow> verifier \<Rightarrow> bool" where
  "ended k s \<longleftrightarrow> map_of (vr_tasks s) k = None \<and> (\<exists>b. Settled k b \<in> set (vr_trace s))"

lemma map_of_end [simp]: "map_of (vr_tasks (end_task j s)) k = (if k = j then None else map_of (vr_tasks s) k)"
proof -
  have "map_of (filter (\<lambda>(i, _). i \<noteq> j) ts) k = (if k = j then None else map_of ts k)" for ts :: "(nat \<times> task) list"
    by (induction ts) auto
  then show ?thesis by (simp add: end_task_def)
qed

lemma map_of_set [simp]:
  "map_of (vr_tasks (set_task j t s)) k = (if k = j then map_option (\<lambda>_. t) (map_of (vr_tasks s) k) else map_of (vr_tasks s) k)"
proof -
  have "map_of (map (\<lambda>(i, u). if i = j then (i, t) else (i, u)) ts) k
      = (if k = j then map_option (\<lambda>_. t) (map_of ts k) else map_of ts k)" for ts :: "(nat \<times> task) list"
    by (induction ts) auto
  then show ?thesis by (simp add: set_task_def)
qed

lemma map_of_new [simp]: "k \<noteq> vr_next s \<Longrightarrow> map_of (vr_tasks (new_task t s)) k = map_of (vr_tasks s) k"
  by (simp add: new_task_def map_add_def split: option.splits)

lemma end_task_methods: "end_task j (s\<lparr>vr_methods := ms\<rparr>) = (end_task j s)\<lparr>vr_methods := ms\<rparr>"
  by (simp add: end_task_def)

lemmas handler_defs = startVerification_def withVerification_def executeVerification_def cancel_def
  setCode_def switchMethod_def setOpen_def mounted_def

lemmas answer_defs = answer_task_def tried_def methods_arrive_def fail_task_def succeed_task_def end_task_methods

lemma next_mono: "vr_next s \<le> vr_next (handle ar e s)"
  by (cases e) (auto simp: handler_defs answer_defs new_task_def Let_def split: option.splits task.splits answer.splits)

lemma trace_mono: "set (vr_trace s) \<subseteq> set (vr_trace (handle ar e s))"
  by (cases e) (auto simp: handler_defs answer_defs new_task_def Let_def split: option.splits task.splits answer.splits)

text \<open>An answer to another task, or any other event, leaves a task as it is.\<close>

lemma answer_other:
  assumes "j \<noteq> k"
  shows "map_of (vr_tasks (answer_task ar j a s)) k = map_of (vr_tasks s) k"
  using assms by (auto simp: answer_defs Let_def split: option.splits task.splits answer.splits)

lemma other_task:
  assumes "k < vr_next s" and "\<forall>j a. e = Answer j a \<longrightarrow> j \<noteq> k"
  shows "map_of (vr_tasks (handle ar e s)) k = map_of (vr_tasks s) k"
  using assms
  by (cases e) (auto simp: handler_defs Let_def split: option.splits intro: answer_other)

lemma ended_step:
  assumes "ended k s" and "k < vr_next s"
  shows "ended k (handle ar e s)"
proof -
  have n: "map_of (vr_tasks s) k = None" and "\<exists>b. Settled k b \<in> set (vr_trace s)" using assms(1) by (auto simp: ended_def)
  moreover have "map_of (vr_tasks (handle ar e s)) k = None"
  proof (cases "\<exists>a. e = Answer k a")
    case True
    then show ?thesis using n by (auto simp: answer_task_def)
  next
    case False
    then show ?thesis using other_task [OF assms(2), of e] n by auto
  qed
  ultimately show ?thesis using trace_mono [of s ar e] by (auto simp: ended_def)
qed

lemma answer_step:
  assumes "map_of (vr_tasks s) k = Some t" and "executing t" and "answers_task k (Answer k a)"
  shows "ended k (answer_task ar k a s)
     \<or> (\<exists>u. map_of (vr_tasks (answer_task ar k a s)) k = Some u \<and> executing u \<and> needs (Some u) < needs (Some t))"
  using assms
  by (cases t; cases a) (auto simp: answer_task_def fail_task_def succeed_task_def ended_def)

lemma task_step:
  assumes "map_of (vr_tasks s) k = Some t" and "executing t" and "k < vr_next s"
  shows "ended k (handle ar e s)
     \<or> (\<exists>u. map_of (vr_tasks (handle ar e s)) k = Some u \<and> executing u
           \<and> needs (Some u) + (if answers_task k e then 1 else 0) \<le> needs (Some t))"
proof (cases "\<exists>a. e = Answer k a")
  case True
  then obtain a where e: "e = Answer k a" by blast
  show ?thesis
  proof (cases "answers_task k e")
    case True
    then show ?thesis using answer_step [OF assms(1,2), of a ar] e by auto
  next
    case False
    then have "\<exists>ms. a = MethodsAre ms" using e by (cases a) auto
    then have "answer_task ar k a s = s" using assms(1,2) by (cases t) (auto simp: answer_task_def)
    then show ?thesis using assms e False by auto
  qed
next
  case False
  then have "map_of (vr_tasks (handle ar e s)) k = Some t" using other_task [OF assms(3), of e] assms(1) by auto
  moreover have "\<not> answers_task k e" using False by (cases "(k, e)" rule: answers_task.cases) auto
  ultimately show ?thesis using assms(2) by simp
qed

lemma ended_run: "ended k s \<Longrightarrow> k < vr_next s \<Longrightarrow> ended k (fold (handle ar) es s)"
  by (induction es arbitrary: s) (auto intro: ended_step less_le_trans [OF _ next_mono])

lemma task_run:
  assumes "map_of (vr_tasks s) k = Some t" and "executing t" and "k < vr_next s" and "needs (Some t) \<le> answers k es"
  shows "ended k (fold (handle ar) es s)"
  using assms
proof (induction es arbitrary: s t)
  case Nil
  then show ?case by (cases t) (auto simp: answers_def)
next
  case (Cons e es)
  have k: "k < vr_next (handle ar e s)" using Cons.prems(3) next_mono by (rule less_le_trans)
  from task_step [OF Cons.prems(1-3)] show ?case
  proof
    assume "ended k (handle ar e s)"
    then show ?thesis using ended_run [OF _ k] by simp
  next
    assume "\<exists>u. map_of (vr_tasks (handle ar e s)) k = Some u \<and> executing u
           \<and> needs (Some u) + (if answers_task k e then 1 else 0) \<le> needs (Some t)"
    then obtain u where "map_of (vr_tasks (handle ar e s)) k = Some u" "executing u"
      "needs (Some u) \<le> answers k es" using Cons.prems(4) by (auto simp: answers_def split: if_splits)
    then show ?thesis using Cons.IH [OF _ _ k] by simp
  qed
qed

text \<open>C22 Every verification ends: once the two calls it makes (one, if its verification has already
  succeeded) have been answered, in whatever order other answers, cancellations and requests come,
  the promise of \<open>executeVerification\<close> has settled and its task is gone.\<close>

theorem verification_settles:
  assumes "verifier_reach ar s" and "map_of (vr_tasks s) k = Some t" and "executing t"
    and "needs (Some t) \<le> answers k es"
  shows "(\<exists>b. Settled k b \<in> set (vr_trace (fold (handle ar) es s)))
    \<and> map_of (vr_tasks (fold (handle ar) es s)) k = None"
proof -
  have "tasks_ok s" using reach_verifier_ok [OF assms(1)] by (simp add: verifier_ok_def)
  then have "k < vr_next s" using tasks_okD(2) map_of_SomeD [OF assms(2)] by blast
  then have "ended k (fold (handle ar) es s)" using assms(2-4) by (intro task_run)
  then show ?thesis by (auto simp: ended_def)
qed

lemma verification_settles_witness:
  "(\<exists>b. Settled 1 b \<in> set (vr_trace (fold (handle True)
      [Cancel, Answer 1 Resolved, Answer 1 (Rejected JNull)] sample)))
   \<and> map_of (vr_tasks (fold (handle True) [Cancel, Answer 1 Resolved, Answer 1 (Rejected JNull)] sample)) 1 = None"
  by (rule verification_settles [OF sample_reach, of 1 "AwaitVerify 7 TwoFA"])
    (simp_all add: sample_tasks answers_def)

section \<open>The loading flag\<close>

definition no_execute :: "event list \<Rightarrow> bool" where
  "no_execute es \<longleftrightarrow> list_all (\<lambda>e. case e of Execute _ _ \<Rightarrow> False | _ \<Rightarrow> True) es"

text \<open>Only \<open>executeVerification\<close> starts an executing task.\<close>

lemma executing_new:
  "map_of (vr_tasks (new_task u s)) k = Some t \<Longrightarrow> executing t \<Longrightarrow> \<not> executing u \<Longrightarrow> map_of (vr_tasks s) k = Some t"
  by (auto simp: new_task_def map_add_def split: option.splits if_splits)

lemma executing_answer:
  assumes "map_of (vr_tasks (answer_task ar j a s)) k = Some t" and "executing t"
  shows "\<exists>u. map_of (vr_tasks s) k = Some u \<and> executing u"
proof (cases "j = k")
  case True
  then show ?thesis using assms
    by (cases "map_of (vr_tasks s) k") (auto simp: answer_defs Let_def split: task.splits answer.splits if_splits)
next
  case False
  then show ?thesis using assms by (simp add: answer_other)
qed

lemma executing_from:
  assumes "\<forall>m c. e \<noteq> Execute m c" and "map_of (vr_tasks (handle ar e s)) k = Some t" and "executing t"
  shows "\<exists>u. map_of (vr_tasks s) k = Some u \<and> executing u"
  using assms
  by (cases e) (auto simp: handler_defs dest: executing_new executing_answer)

lemma executing_run:
  assumes "no_execute es" and "map_of (vr_tasks (fold (handle ar) es s)) k = Some t" and "executing t"
  shows "\<exists>u. map_of (vr_tasks s) k = Some u \<and> executing u"
  using assms
proof (induction es arbitrary: s)
  case Nil
  then show ?case by simp
next
  case (Cons e es)
  then have "\<exists>u. map_of (vr_tasks (handle ar e s)) k = Some u \<and> executing u" by (simp add: no_execute_def)
  moreover have "\<forall>m c. e \<noteq> Execute m c" using Cons.prems(1) by (auto simp: no_execute_def)
  ultimately show ?case using executing_from by blast
qed

text \<open>The dialog does not stay locked: when every verification under way has been answered and none
  was started since, the loading flag is off.\<close>

theorem loading_ends:
  assumes "verifier_reach ar s" and "no_execute es"
    and "\<forall>(k, t)\<in>set (vr_tasks s). needs (Some t) \<le> answers k es"
  shows "\<not> vf_loading (vr_state (fold (handle ar) es s))"
proof
  let ?s = "fold (handle ar) es s"
  assume "vf_loading (vr_state ?s)"
  have ok: "verifier_ok ?s" by (rule reach_verifier_ok [OF reach_run [OF assms(1)]])
  with \<open>vf_loading (vr_state ?s)\<close> obtain k t where "(k, t) \<in> set (vr_tasks ?s)" "executing t"
    by (auto simp: verifier_ok_def loading_ok_def)
  then have t: "map_of (vr_tasks ?s) k = Some t" "executing t"
    using ok tasks_okD(1) [of ?s] by (simp_all add: verifier_ok_def)
  then obtain u where u: "map_of (vr_tasks s) k = Some u" "executing u" using executing_run [OF assms(2)] by blast
  then have "(k, u) \<in> set (vr_tasks s)" by (simp add: map_of_SomeD)
  moreover have "tasks_ok s" using reach_verifier_ok [OF assms(1)] by (simp add: verifier_ok_def)
  ultimately have "k < vr_next s" "needs (Some u) \<le> answers k es" using tasks_okD(2) assms(3) by blast+
  then have "ended k ?s" using u by (intro task_run)
  then show False using t by (simp add: ended_def)
qed

lemma loading_ends_witness:
  "vf_loading (vr_state sample)
   \<and> \<not> vf_loading (vr_state (fold (handle True) [SwitchMethod Passkey, Answer 1 Resolved, Answer 1 Resolved] sample))"
proof
  show "vf_loading (vr_state sample)" by code_simp
  show "\<not> vf_loading (vr_state (fold (handle True) [SwitchMethod Passkey, Answer 1 Resolved, Answer 1 Resolved] sample))"
    by (rule loading_ends [OF sample_reach]) (simp_all add: sample_tasks answers_def no_execute_def)
qed

section \<open>Cancelling\<close>

lemma untouched_run:
  "k < vr_next s \<Longrightarrow> \<forall>a. Answer k a \<notin> set es \<Longrightarrow>
   map_of (vr_tasks (fold (handle ar) es s)) k = map_of (vr_tasks s) k"
proof (induction es arbitrary: s)
  case Nil
  then show ?case by simp
next
  case (Cons e es)
  have "k < vr_next (handle ar e s)" using Cons.prems(1) next_mono by (rule less_le_trans)
  then show ?case using Cons other_task [OF Cons.prems(1), of e ar] by auto
qed

text \<open>Cancelling does not stop a verification under way: whatever the user does after the code was
  sent, \<open>cancel\<close> included, the protected call is made when the verification succeeds.\<close>

theorem cancel_does_not_stop:
  assumes "verifier_reach ar s" and "map_of (vr_tasks s) k = Some (AwaitVerify api m)"
    and "\<forall>a. Answer k a \<notin> set es"
  shows "CallSent k api \<in> set (vr_trace (fold (handle ar) (Cancel # es @ [Answer k Resolved]) s))"
proof -
  have "tasks_ok s" using reach_verifier_ok [OF assms(1)] by (simp add: verifier_ok_def)
  then have "k < vr_next s" using tasks_okD(2) map_of_SomeD [OF assms(2)] by blast
  then have "map_of (vr_tasks (fold (handle ar) (Cancel # es) s)) k = Some (AwaitVerify api m)"
    using assms(2,3) untouched_run [of k s "Cancel # es" ar] by simp
  then show ?thesis by (simp add: answer_task_def)
qed

lemma cancel_does_not_stop_witness:
  "CallSent 1 7 \<in> set (vr_trace (fold (handle True) (Cancel # [SetOpen False] @ [Answer 1 Resolved]) sample))"
  by (rule cancel_does_not_stop [OF sample_reach, where m = TwoFA]) (simp_all add: sample_tasks)

section \<open>Which dialog is shown\<close>

text \<open>A dialog opens with a method the account has and the browser supports, the one the hook
  recommends, unless the caller prefers another; an account with no method gets an error and no dialog.\<close>

theorem dialog_method:
  assumes "map_of (vr_tasks s) k = Some (AwaitMethods api cfg)" and "preferredMethod cfg = None"
  shows "let s' = answer_task ar k (MethodsAre ms) s in
     (if has2FA ms \<or> hasPasskey ms
      then vr_open s' \<and> vf_apiCall (vr_state s') = Some api \<and> vf_method (vr_state s') = recommendedMethod ms
           \<and> (\<forall>x. vf_method (vr_state s') = Some x \<longrightarrow> canUseMethod (vr_methods s') x)
      else vr_open s' = vr_open s \<and> vr_state s' = vr_state s \<and> ErrorReported k \<in> set (vr_trace s'))"
  using assms
  by (auto simp: answer_task_def methods_arrive_def default_method_def recommendedMethod_def canUseMethod_def
      end_task_methods Let_def)

lemma dialog_method_witness:
  "let s' = answer_task True 0 (MethodsAre \<lparr>has2FA = True, hasPasskey = True, passkeySupported = False\<rparr>)
       (startVerification 7 \<lparr>preferredMethod = None, so_title = None, so_description = None\<rparr> initial_verifier) in
     (if has2FA \<lparr>has2FA = True, hasPasskey = True, passkeySupported = False\<rparr>
         \<or> hasPasskey \<lparr>has2FA = True, hasPasskey = True, passkeySupported = False\<rparr>
      then vr_open s' \<and> vf_apiCall (vr_state s') = Some 7
           \<and> vf_method (vr_state s') = recommendedMethod \<lparr>has2FA = True, hasPasskey = True, passkeySupported = False\<rparr>
           \<and> (\<forall>x. vf_method (vr_state s') = Some x \<longrightarrow> canUseMethod (vr_methods s') x)
      else vr_open s' = vr_open (startVerification 7 \<lparr>preferredMethod = None, so_title = None, so_description = None\<rparr> initial_verifier)
           \<and> vr_state s' = vr_state (startVerification 7 \<lparr>preferredMethod = None, so_title = None, so_description = None\<rparr> initial_verifier)
           \<and> ErrorReported 0 \<in> set (vr_trace s'))"
  by (rule dialog_method [where cfg = "\<lparr>preferredMethod = None, so_title = None, so_description = None\<rparr>"])
    (simp_all add: startVerification_def new_task_def initial_verifier_def)

end
