(* ===== verification/Notifications.thy ===== *)
theory Notifications
  imports JsJson "HOL-Library.Word"
begin

text \<open>
  Notifications: the store of what was read (\<open>stores/notification-store.ts\<close>) and the hook over the
  notice, the announcements and the approval requests (\<open>hooks/use-notifications.ts\<close>). The answers of
  the server are arguments; \<open>None\<close> stands for a thrown error.
\<close>

section \<open>The store\<close>

record notif_store =
  lastReadNotice :: jstr
  readAnnouncementKeys :: "jstr list"
  dismissedAnnouncementPopupKeys :: "jstr list"
  closedUntilDate :: "jstr option"

definition empty_store :: notif_store where
  "empty_store = \<lparr>lastReadNotice = [], readAnnouncementKeys = [], dismissedAnnouncementPopupKeys = [],
                   closedUntilDate = None\<rparr>"

definition markNoticeRead :: "jstr \<Rightarrow> notif_store \<Rightarrow> notif_store" where
  "markNoticeRead content st = st\<lparr>lastReadNotice := trim content\<rparr>"

definition markAnnouncementsRead :: "jstr list \<Rightarrow> notif_store \<Rightarrow> notif_store" where
  "markAnnouncementsRead ks st = st\<lparr>readAnnouncementKeys := from_set (readAnnouncementKeys st @ ks)\<rparr>"

definition dismissAnnouncementPopups :: "jstr list \<Rightarrow> notif_store \<Rightarrow> notif_store" where
  "dismissAnnouncementPopups ks st =
     st\<lparr>dismissedAnnouncementPopupKeys := from_set (dismissedAnnouncementPopupKeys st @ ks)\<rparr>"

definition setClosedUntilDate :: "jstr option \<Rightarrow> notif_store \<Rightarrow> notif_store" where
  "setClosedUntilDate d st = st\<lparr>closedUntilDate := d\<rparr>"

definition isAnnouncementRead :: "notif_store \<Rightarrow> jstr \<Rightarrow> bool" where
  "isAnnouncementRead st k \<longleftrightarrow> k \<in> set (readAnnouncementKeys st)"

definition isAnnouncementPopupDismissed :: "notif_store \<Rightarrow> jstr \<Rightarrow> bool" where
  "isAnnouncementPopupDismissed st k \<longleftrightarrow> k \<in> set (dismissedAnnouncementPopupKeys st)"

text \<open>\<open>today\<close> is \<open>new Date().toDateString()\<close>.\<close>

definition isNoticeClosed :: "jstr \<Rightarrow> notif_store \<Rightarrow> bool" where
  "isNoticeClosed today st \<longleftrightarrow> truthy_str (closedUntilDate st) \<and> closedUntilDate st = Some today"

section \<open>The key of an announcement\<close>

text \<open>\<open>(hash << 5) - hash + chr\<close> and then \<open>|= 0\<close>: the numbers stay far below the precision of a
  double, so the sum is exact and the truncation gives its 32-bit word.\<close>

definition hash_step :: "32 word \<Rightarrow> cunit \<Rightarrow> 32 word" where
  "hash_step h c = push_bit 5 h - h + of_nat c"

definition hash_word :: "jstr \<Rightarrow> 32 word" where
  "hash_word s = foldl hash_step 0 s"

text \<open>\<open>toString(36)\<close> of an integer.\<close>

definition digit36 :: "nat \<Rightarrow> cunit" where
  "digit36 d = (if d < 10 then 48 + d else 87 + d)"

fun nat_str36 :: "nat \<Rightarrow> jstr" where
  "nat_str36 n = (if n < 36 then [digit36 n] else nat_str36 (n div 36) @ [digit36 (n mod 36)])"

declare nat_str36.simps [simp del]

definition int_str36 :: "int \<Rightarrow> jstr" where
  "int_str36 n = (if n < 0 then 45 # nat_str36 (nat (- n)) else nat_str36 (nat n))"

definition hashString :: "jstr \<Rightarrow> jstr" where
  "hashString s = (if s = [] then [48] else int_str36 (sint (hash_word s)))"

text \<open>\<open>item.k || ''\<close>, and \<open>(item.k || '').trim()\<close>, which throws on a truthy value that is no string.
  (A string has a method \<open>link\<close>.)\<close>

definition field_or :: "jsval \<Rightarrow> string \<Rightarrow> jsval" where
  "field_or item k = (case get_prop item k of Some v \<Rightarrow> if truthy v then v else JStr [] | None \<Rightarrow> JStr [])"

definition trimmed_field :: "jsval \<Rightarrow> string \<Rightarrow> jsval option" where
  "trimmed_field item k =
     (case (item, field_or item k) of
        (JStr _, _) \<Rightarrow> if k = ''link'' then None else Some (JStr [])
      | (_, JStr s) \<Rightarrow> Some (JStr (trim s))
      | _ \<Rightarrow> None)"

definition fingerprint :: "jsval \<Rightarrow> jstr option" where
  "fingerprint item =
     (case (trimmed_field item ''content'', trimmed_field item ''extra'',
            trimmed_field item ''title'', trimmed_field item ''link'') of
        (Some content, Some extra, Some title, Some link) \<Rightarrow>
          Some (stringify (JObj [(js ''publishDate'', field_or item ''publishDate''),
            (js ''content'', content), (js ''extra'', extra), (js ''type'', field_or item ''type''),
            (js ''title'', title), (js ''link'', link)]))
      | _ \<Rightarrow> None)"

definition getAnnouncementKey :: "jsval \<Rightarrow> jstr option" where
  "getAnnouncementKey item =
     (if \<not> truthy item then Some []
      else case get_prop item ''id'' of
          Some v \<Rightarrow> if v \<noteq> JNull then Some (js ''id:'' @ to_str v)
                    else map_option (\<lambda>f. js ''hash:'' @ hashString f) (fingerprint item)
        | None \<Rightarrow> map_option (\<lambda>f. js ''hash:'' @ hashString f) (fingerprint item))"

section \<open>Announcements\<close>

record announcement =
  an_item :: jsval
  mustRead :: bool
  popup :: bool
  notificationKey :: jstr
  an_read :: bool

text \<open>The announcements of the status, at most twenty; anything that is neither falsy nor an array has
  no \<open>slice\<close> or no \<open>map\<close>.\<close>

definition rawAnnouncements :: "jsval option \<Rightarrow> jsval list option" where
  "rawAnnouncements status =
     (if truthy_opt (get_prop_opt status ''announcements_enabled'')
      then (if truthy_opt (get_prop_opt status ''announcements'')
            then (case get_prop_opt status ''announcements'' of Some (JArr vs) \<Rightarrow> Some (take 20 vs) | _ \<Rightarrow> None)
            else Some [])
      else Some [])"

definition announcement_of :: "notif_store \<Rightarrow> jsval \<Rightarrow> announcement option" where
  "announcement_of st item =
     (if item = JNull then None
      else map_option (\<lambda>k. \<lparr>an_item = item, mustRead = (get_prop item ''mustRead'' = Some (JBool True)),
                            popup = (get_prop item ''popup'' = Some (JBool True)),
                            notificationKey = k, an_read = isAnnouncementRead st k\<rparr>)
             (getAnnouncementKey item))"

definition announcements :: "jsval option \<Rightarrow> notif_store \<Rightarrow> announcement list option" where
  "announcements status st =
     (case rawAnnouncements status of None \<Rightarrow> None | Some items \<Rightarrow> those (map (announcement_of st) items))"

definition popupAnnouncement :: "notif_store \<Rightarrow> announcement list \<Rightarrow> announcement option" where
  "popupAnnouncement st ans =
     find (\<lambda>a. mustRead a \<and> popup a \<and> \<not> an_read a \<and> \<not> isAnnouncementPopupDismissed st (notificationKey a)) ans"

text \<open>\<open>[...new Set(keys.filter(Boolean))]\<close>.\<close>

definition unique_keys :: "jstr list \<Rightarrow> jstr list" where
  "unique_keys ks = from_set (filter (\<lambda>k. k \<noteq> []) ks)"

definition markAnnouncementsAsRead :: "jstr list option \<Rightarrow> announcement list \<Rightarrow> notif_store \<Rightarrow> notif_store" where
  "markAnnouncementsAsRead ks ans st =
     (let targets = (case ks of Some k \<Rightarrow> k | None \<Rightarrow> map notificationKey (filter (\<lambda>a. \<not> an_read a) ans));
          u = unique_keys targets
      in if 0 < length u then markAnnouncementsRead u st else st)"

definition dismissAnnouncementPopupsLocal :: "jstr list \<Rightarrow> notif_store \<Rightarrow> notif_store" where
  "dismissAnnouncementPopupsLocal ks st =
     (let u = unique_keys ks in if 0 < length u then dismissAnnouncementPopups u st else st)"

section \<open>Approval requests\<close>

record approval =
  ap_key :: jstr
  ap_read :: bool
  created_at :: "int option"

record page_data =
  pg_items :: "approval list option"
  unread_count :: "int option"
  has_more :: bool
  pg_page :: "nat option"

record approval_page =
  pg_success :: bool
  pg_data :: "page_data option"

text \<open>The number of the next page; a page that says no number, or 0, counts as the first.\<close>

definition getNextPageParam :: "approval_page \<Rightarrow> nat option" where
  "getNextPageParam p =
     (case pg_data p of
        None \<Rightarrow> None
      | Some d \<Rightarrow>
          if \<not> pg_success p \<or> \<not> has_more d then None
          else Some ((case pg_page d of Some n \<Rightarrow> if n = 0 then 1 else n | None \<Rightarrow> 1) + 1))"

definition page_items :: "approval_page list option \<Rightarrow> approval list" where
  "page_items ps =
     (case ps of None \<Rightarrow> []
      | Some ps \<Rightarrow> concat (map (\<lambda>p. if pg_success p
            then (case pg_data p of None \<Rightarrow> [] | Some d \<Rightarrow> (case pg_items d of None \<Rightarrow> [] | Some xs \<Rightarrow> xs))
            else []) ps))"

definition created :: "approval \<Rightarrow> int" where
  "created a = (case created_at a of Some t \<Rightarrow> t | None \<Rightarrow> 0)"

text \<open>A stable sort, newest first.\<close>

definition approvalNotifications :: "approval_page list option \<Rightarrow> approval_page list option \<Rightarrow> approval list" where
  "approvalNotifications ent con = sort_key (\<lambda>a. - created a) (page_items ent @ page_items con)"

definition pages_unread :: "approval_page list option \<Rightarrow> int" where
  "pages_unread ps =
     (case ps of None \<Rightarrow> 0
      | Some ps \<Rightarrow> (case find pg_success ps of
            Some p \<Rightarrow> (case pg_data p of Some d \<Rightarrow> (case unread_count d of Some n \<Rightarrow> n | None \<Rightarrow> 0) | None \<Rightarrow> 0)
          | None \<Rightarrow> 0))"

text \<open>The requests sent: to the enterprise service and to the service of connected apps.\<close>

definition connected_prefix :: jstr where
  "connected_prefix = js ''connected_app_request:''"

definition markApprovalsAsRead :: "jstr list option \<Rightarrow> approval list \<Rightarrow> jstr list option \<times> jstr list option" where
  "markApprovalsAsRead ks aps =
     (let targets = (case ks of Some k \<Rightarrow> k | None \<Rightarrow> map ap_key (filter (\<lambda>a. \<not> ap_read a) aps));
          u = unique_keys targets
      in if length u = 0 then (None, None)
         else let con = filter (\<lambda>k. take (length connected_prefix) k = connected_prefix) u;
                  ent = filter (\<lambda>k. \<not> take (length connected_prefix) k = connected_prefix) u
              in (if 0 < length ent then Some ent else None, if 0 < length con then Some con else None))"

section \<open>The notice and the counts\<close>

definition noticeContent :: "(bool \<times> jstr option) option \<Rightarrow> jstr" where
  "noticeContent r = (case r of Some (True, d) \<Rightarrow> trim (or_else d []) | _ \<Rightarrow> [])"

record unread_counts =
  un_notice :: int
  un_announcements :: int
  un_approvals :: int
  un_total :: int

definition unreadCounts :: "jstr \<Rightarrow> notif_store \<Rightarrow> announcement list \<Rightarrow> int \<Rightarrow> unread_counts" where
  "unreadCounts notice st ans approvals =
     (let n = (if notice \<noteq> [] \<and> notice \<noteq> lastReadNotice st then 1 else 0);
          a = int (length (filter (\<lambda>x. \<not> an_read x) ans))
      in \<lparr>un_notice = n, un_announcements = a, un_approvals = approvals, un_total = n + a + approvals\<rparr>)"

section \<open>The notification centre\<close>

datatype notification_tab = NoticeTab | AnnouncementsTab | ApprovalsTab

record centre =
  popoverOpen :: bool
  activeTab :: notification_tab

definition handleOpenPopover :: "notification_tab option \<Rightarrow> jstr \<Rightarrow> centre \<times> notif_store \<Rightarrow> centre \<times> notif_store" where
  "handleOpenPopover tab notice = (\<lambda>(c, st).
     (c\<lparr>activeTab := (case tab of Some t \<Rightarrow> t | None \<Rightarrow> activeTab c), popoverOpen := True\<rparr>,
      if notice \<noteq> [] then markNoticeRead notice st else st))"

definition handlePopoverOpenChange :: "bool \<Rightarrow> jstr \<Rightarrow> centre \<times> notif_store \<Rightarrow> centre \<times> notif_store" where
  "handlePopoverOpenChange opened notice = (\<lambda>(c, st).
     if opened then handleOpenPopover (Some (activeTab c)) notice (c, st) else (c\<lparr>popoverOpen := False\<rparr>, st))"

definition handleTabChange :: "notification_tab \<Rightarrow> centre \<times> notif_store \<Rightarrow> centre \<times> notif_store" where
  "handleTabChange tab = (\<lambda>(c, st). (c\<lparr>activeTab := tab\<rparr>, st))"

end
