(* ===== verification/NotificationsProps.thy ===== *)
theory NotificationsProps
  imports Notifications
begin

text \<open>
  What the notification centre promises: the hash of an announcement is a polynomial in 32-bit
  words, which decides the announcements that share a key; marked announcements stay read; every
  approval is reported once to its service.
\<close>

section \<open>The hash is a polynomial\<close>

text \<open>The reference: the sum of \<open>c * 31^(n-1-i)\<close> in 32-bit words.\<close>

fun hash_poly :: "jstr \<Rightarrow> 32 word" where
  "hash_poly [] = 0"
| "hash_poly (c # s) = of_nat c * 31 ^ length s + hash_poly s"

lemma hash_step_eq: "hash_step h c = 31 * h + of_nat c"
proof -
  have "push_bit 5 h = 32 * h" by (simp add: push_bit_eq_mult)
  then show ?thesis by (simp add: hash_step_def)
qed

lemma hash_word_from: "foldl hash_step h s = h * 31 ^ length s + hash_poly s"
  by (induction s arbitrary: h) (simp_all add: hash_step_eq algebra_simps)

lemma hash_word_eq: "hash_word s = hash_poly s"
  by (simp add: hash_word_def hash_word_from)

lemma hash_poly_append: "hash_poly (a @ b) = hash_poly a * 31 ^ length b + hash_poly b"
  by (induction a) (simp_all add: power_add algebra_simps)

section \<open>Printing in base 36\<close>

lemma digit36_inj: "d < 36 \<Longrightarrow> e < 36 \<Longrightarrow> digit36 d = digit36 e \<longleftrightarrow> d = e"
  by (auto simp: digit36_def split: if_splits)

lemma nat_str36_nonempty [simp]: "nat_str36 n \<noteq> []" "[] \<noteq> nat_str36 n"
  by (subst nat_str36.simps, simp)+

lemma nat_str36_inj: "nat_str36 m = nat_str36 n \<longleftrightarrow> m = n"
proof (induction m arbitrary: n rule: nat_str36.induct)
  case (1 m)
  show ?case
  proof (cases "m < 36 \<or> n < 36")
    case True
    then show ?thesis
      by (subst (1 2) nat_str36.simps) (auto simp: digit36_inj)
  next
    case False
    then have "nat_str36 m = nat_str36 n \<longleftrightarrow> m div 36 = n div 36 \<and> m mod 36 = n mod 36"
      using 1 by (subst (1 2) nat_str36.simps) (simp add: digit36_inj)
    also have "\<dots> \<longleftrightarrow> m = n" by (metis div_mult_mod_eq)
    finally show ?thesis .
  qed
qed

lemma nat_str36_no_sign: "45 \<notin> set (nat_str36 n)"
proof (induction n rule: nat_str36.induct)
  case (1 n)
  then show ?case by (subst nat_str36.simps) (auto simp: digit36_def)
qed

lemma int_str36_inj: "int_str36 m = int_str36 n \<longleftrightarrow> m = n"
proof -
  have "45 # t \<noteq> nat_str36 k" for t k using nat_str36_no_sign [of k] by (metis list.set_intros(1))
  then show ?thesis by (auto simp: int_str36_def nat_str36_inj dest: sym)
qed

lemma hashString_eq: "hashString s = int_str36 (sint (hash_poly s))"
proof (cases "s = []")
  case True
  then show ?thesis by (simp add: hashString_def int_str36_def nat_str36.simps [of 0] digit36_def)
next
  case False
  then show ?thesis by (simp add: hashString_def hash_word_eq)
qed

lemma hashString_inj: "hashString s = hashString t \<longleftrightarrow> hash_poly s = hash_poly t"
  by (auto simp: hashString_eq int_str36_inj dest: signed_word_eqI)

section \<open>Which announcements share a key\<close>

definition has_id :: "jsval \<Rightarrow> bool" where
  "has_id item \<longleftrightarrow> (case get_prop item ''id'' of Some v \<Rightarrow> v \<noteq> JNull | None \<Rightarrow> False)"

definition id_text :: "jsval \<Rightarrow> jstr" where
  "id_text item = to_str (the (get_prop item ''id''))"

lemma getAnnouncementKey_Some:
  assumes "truthy item" and "getAnnouncementKey item = Some k"
  shows "k = (if has_id item then js ''id:'' @ id_text item else js ''hash:'' @ hashString (the (fingerprint item)))"
  using assms by (auto simp: getAnnouncementKey_def has_id_def id_text_def split: option.splits if_splits)

text \<open>Two announcements have the same key exactly when both have identifiers that print the same, or
  neither has one and the polynomials of their fingerprints agree modulo \<open>2^32\<close>: the shifts and the
  printing in base 36 lose nothing else, and no identifier meets a hash.\<close>

theorem announcement_key_eq:
  assumes "truthy i" and "truthy j" and "getAnnouncementKey i = Some k" and "getAnnouncementKey j = Some l"
  shows "k = l \<longleftrightarrow> has_id i = has_id j
     \<and> (if has_id i then id_text i = id_text j
        else hash_poly (the (fingerprint i)) = hash_poly (the (fingerprint j)))"
proof -
  have "js ''id:'' @ a \<noteq> js ''hash:'' @ b" for a b by (simp add: js_eval)
  then show ?thesis
    using getAnnouncementKey_Some [OF assms(1,3)] getAnnouncementKey_Some [OF assms(2,4)]
    by (cases "has_id i"; cases "has_id j") (auto simp: hashString_inj dest: sym)
qed

lemma announcement_key_eq_witness:
  "(js ''id:7'' = js ''id:7'') =
     (has_id (JObj [(js ''id'', JNum (Fin 7))]) = has_id (JObj [(js ''id'', JStr (js ''7''))])
     \<and> (if has_id (JObj [(js ''id'', JNum (Fin 7))])
        then id_text (JObj [(js ''id'', JNum (Fin 7))]) = id_text (JObj [(js ''id'', JStr (js ''7''))])
        else hash_poly (the (fingerprint (JObj [(js ''id'', JNum (Fin 7))])))
           = hash_poly (the (fingerprint (JObj [(js ''id'', JStr (js ''7''))])))))"
proof (rule announcement_key_eq)
  show "getAnnouncementKey (JObj [(js ''id'', JNum (Fin 7))]) = Some (js ''id:7'')" by code_simp
  show "getAnnouncementKey (JObj [(js ''id'', JStr (js ''7''))]) = Some (js ''id:7'')" by code_simp
qed simp_all

section \<open>Edits that keep the key\<close>

lemma quote_body_append:
  assumes "\<not> is_lead c" and "\<not> is_trail c"
  shows "quote_body (a @ c # b) = quote_body a @ quote_body (c # b)"
proof (induction a rule: quote_body.induct)
  case (2 d)
  then show ?case using assms by (auto simp: neq_Nil_conv)
qed auto

lemma quote_body_unit:
  "\<not> is_lead c \<Longrightarrow> \<not> is_trail c \<Longrightarrow> quote_body (c # b) = quote_unit c @ quote_body b"
  by (cases b) simp_all

lemma quote_word:
  assumes "x \<in> {js ''Aa'', js ''BB''}"
  shows "quote_body (a @ x @ b) = quote_body a @ x @ quote_body b"
proof -
  have "quote_body (a @ c # d # b) = quote_body a @ [c, d] @ quote_body b" if "c \<in> {65, 66}" "d \<in> {97, 66}" for c d
    using that quote_body_append [of c a "d # b"] quote_body_unit [of c "d # b"] quote_body_unit [of d b]
    by (auto simp: is_lead_def is_trail_def quote_unit_def)
  then show ?thesis using assms by (auto simp: js_eval)
qed

lemma hash_word_swap: "hash_poly (a @ js ''Aa'' @ b) = hash_poly (a @ js ''BB'' @ b)"
  by (simp add: hash_poly_append js_eval algebra_simps)

lemma trim_around:
  assumes "\<not> is_ws (hd x)" and "\<not> is_ws (last x)" and "x \<noteq> []"
  shows "trim (a @ x @ b) = trimStart a @ x @ trimEnd b"
proof -
  have "dropWhile is_ws (a @ x @ b) = dropWhile is_ws a @ x @ b"
  proof (cases "list_all is_ws a")
    case True
    then have "dropWhile is_ws a = []" by (simp add: list_all_iff)
    then show ?thesis using assms(1,3) True by (cases x) (auto simp: dropWhile_append list_all_iff)
  next
    case False
    then show ?thesis by (auto simp: list_all_iff dropWhile_append1)
  qed
  moreover have "rev (dropWhile is_ws (rev b @ rev x @ rev c)) = c @ x @ rev (dropWhile is_ws (rev b))" for c
  proof (cases "list_all is_ws (rev b)")
    case True
    then have "dropWhile is_ws (rev b) = []" by (simp add: list_all_iff)
    then show ?thesis using assms(2,3) True by (cases x rule: rev_cases) (auto simp: dropWhile_append list_all_iff)
  next
    case False
    then have "dropWhile is_ws (rev b @ rev x @ rev c) = dropWhile is_ws (rev b) @ rev x @ rev c"
      by (auto simp: list_all_iff dropWhile_append1)
    then show ?thesis by simp
  qed
  ultimately show ?thesis by (simp add: trim_def trimStart_def trimEnd_def)
qed

lemma trim_word: "x \<in> {js ''Aa'', js ''BB''} \<Longrightarrow> trim (a @ x @ b) = trimStart a @ x @ trimEnd b"
  by (rule trim_around) (auto simp: js_eval is_ws_def)

lemma print_fields:
  "stringify (JObj [(js ''publishDate'', d), (js ''content'', c), (js ''extra'', e), (js ''type'', t),
      (js ''title'', n), (js ''link'', l)])
   = (123 # json_quote (js ''publishDate'') @ 58 # stringify d @ 44 # json_quote (js ''content'') @ [58])
     @ stringify c @ (44 # json_quote (js ''extra'') @ 58 # stringify e @ 44 # json_quote (js ''type'') @ 58 # stringify t
     @ 44 # json_quote (js ''title'') @ 58 # stringify n @ 44 # json_quote (js ''link'') @ 58 # stringify l @ [125])"
proof -
  have "\<forall>k\<in>set [js ''publishDate'', js ''content'', js ''extra'', js ''type'', js ''title'', js ''link'']. array_index k = None"
    by code_simp
  then show ?thesis by (simp add: own_values_def own_entries_no_index)
qed

lemma hash_content_swap:
  "hash_poly (stringify (JObj [(js ''publishDate'', d), (js ''content'', JStr (a @ js ''Aa'' @ b)), (js ''extra'', e),
      (js ''type'', t), (js ''title'', n), (js ''link'', l)]))
   = hash_poly (stringify (JObj [(js ''publishDate'', d), (js ''content'', JStr (a @ js ''BB'' @ b)), (js ''extra'', e),
      (js ''type'', t), (js ''title'', n), (js ''link'', l)]))"
proof -
  have q: "stringify (JStr (a @ x @ b)) = (34 # quote_body a) @ x @ (quote_body b @ [34])"
    if "x \<in> {js ''Aa'', js ''BB''}" for x
    using quote_word [OF that] by (simp add: json_quote_def)
  have "u @ (p @ x @ s) @ v = (u @ p) @ x @ (s @ v)" for u p x s v :: jstr by simp
  then show ?thesis
    unfolding print_fields by (simp only: q insertI1 insertI2 hash_word_swap)
qed

lemma content_field:
  assumes "get_prop i ''content'' = Some (JStr (a @ x @ b))" and "x \<in> {js ''Aa'', js ''BB''}"
  shows "trimmed_field i ''content'' = Some (JStr (trimStart a @ x @ trimEnd b))"
proof -
  have "field_or i ''content'' = JStr (a @ x @ b)" using assms by (auto simp: field_or_def js_eval)
  moreover obtain ps where "i = JObj ps" using assms(1) by (cases i) (auto simp: get_prop_def)
  ultimately show ?thesis using trim_word [OF assms(2)] by (simp add: trimmed_field_def)
qed

text \<open>Without an identifier an edit can leave the key as it was: exchanging \<open>Aa\<close> and \<open>BB\<close> anywhere
  in the content changes the announcement and not its key, so that the edited announcement counts
  as read when the old one was.\<close>

theorem edit_keeps_key:
  assumes "\<not> has_id i" and "\<not> has_id j"
    and "\<forall>k\<in>{''publishDate'', ''extra'', ''type'', ''title'', ''link''}. get_prop i k = get_prop j k"
    and "get_prop i ''content'' = Some (JStr (a @ js ''Aa'' @ b))"
    and "get_prop j ''content'' = Some (JStr (a @ js ''BB'' @ b))"
  shows "i \<noteq> j \<and> getAnnouncementKey i = getAnnouncementKey j"
proof -
  obtain ps where i: "i = JObj ps" using assms(4) by (cases i) (auto simp: get_prop_def)
  obtain qs where j: "j = JObj qs" using assms(5) by (cases j) (auto simp: get_prop_def)
  have f: "field_or i k = field_or j k" "trimmed_field i k = trimmed_field j k"
    if "k \<in> {''publishDate'', ''extra'', ''type'', ''title'', ''link''}" for k
    using assms(3) that unfolding i j by (auto simp: trimmed_field_def field_or_def)
  note c = content_field [OF assms(4)] content_field [OF assms(5)]
  have "rel_option (\<lambda>f g. hash_poly f = hash_poly g) (fingerprint i) (fingerprint j)"
    by (simp del: stringify.simps add: fingerprint_def f c hash_content_swap split: option.split)
  then have "map_option (\<lambda>f. js ''hash:'' @ hashString f) (fingerprint i)
      = map_option (\<lambda>f. js ''hash:'' @ hashString f) (fingerprint j)"
    by (cases "fingerprint i"; cases "fingerprint j") (auto simp: hashString_inj)
  moreover have "i \<noteq> j" using assms(4,5) by (auto simp: js_eval)
  ultimately show ?thesis using assms(1,2) i j
    by (auto simp: getAnnouncementKey_def has_id_def split: option.splits if_splits)
qed

lemma edit_keeps_key_witness:
  "JObj [(js ''content'', JStr ([32] @ js ''Aa'' @ []))] \<noteq> JObj [(js ''content'', JStr ([32] @ js ''BB'' @ []))]
   \<and> getAnnouncementKey (JObj [(js ''content'', JStr ([32] @ js ''Aa'' @ []))])
     = getAnnouncementKey (JObj [(js ''content'', JStr ([32] @ js ''BB'' @ []))])"
  by (rule edit_keeps_key [where a = "[32]" and b = "[]"]) (simp_all add: has_id_def)

section \<open>Reading announcements\<close>

datatype notif_event =
  OpenPopover "notification_tab option" jstr
| PopoverChange bool jstr
| TabChange notification_tab
| MarkRead "jstr list option" "announcement list"
| Dismiss "jstr list"
| CloseUntil "jstr option"

fun notify :: "notif_event \<Rightarrow> centre \<times> notif_store \<Rightarrow> centre \<times> notif_store" where
  "notify (OpenPopover t n) cs = handleOpenPopover t n cs"
| "notify (PopoverChange b n) cs = handlePopoverOpenChange b n cs"
| "notify (TabChange t) cs = handleTabChange t cs"
| "notify (MarkRead ks ans) (c, st) = (c, markAnnouncementsAsRead ks ans st)"
| "notify (Dismiss ks) (c, st) = (c, dismissAnnouncementPopupsLocal ks st)"
| "notify (CloseUntil d) (c, st) = (c, setClosedUntilDate d st)"

lemma set_unique_keys [simp]: "set (unique_keys ks) = {k \<in> set ks. k \<noteq> []}"
  by (auto simp: unique_keys_def)

lemma distinct_unique_keys [simp]: "distinct (unique_keys ks)"
  by (simp add: unique_keys_def)

lemma mark_keys:
  "set (readAnnouncementKeys (markAnnouncementsAsRead ks ans st)) = set (readAnnouncementKeys st)
     \<union> {k. k \<noteq> [] \<and> k \<in> set (case ks of Some k \<Rightarrow> k | None \<Rightarrow> map notificationKey (filter (\<lambda>a. \<not> an_read a) ans))}"
proof -
  have "length (unique_keys xs) = 0 \<Longrightarrow> {k. k \<noteq> [] \<and> k \<in> set xs} = {}" for xs
    using set_unique_keys [of xs] by auto
  then show ?thesis by (auto simp: markAnnouncementsAsRead_def markAnnouncementsRead_def Let_def)
qed

lemma notify_keeps:
  "set (readAnnouncementKeys (snd cs)) \<subseteq> set (readAnnouncementKeys (snd (notify e cs)))"
  by (cases cs; cases e)
    (auto simp: handleOpenPopover_def handlePopoverOpenChange_def handleTabChange_def mark_keys markNoticeRead_def
       dismissAnnouncementPopupsLocal_def dismissAnnouncementPopups_def setClosedUntilDate_def Let_def split: if_splits)

lemma run_keeps:
  "set (readAnnouncementKeys (snd cs)) \<subseteq> set (readAnnouncementKeys (snd (fold notify es cs)))"
  by (induction es arbitrary: cs) (use notify_keeps in fastforce)+

lemma announcements_store:
  assumes "announcements status st = Some ans"
  shows "announcements status st' = Some (map (\<lambda>a. a\<lparr>an_read := isAnnouncementRead st' (notificationKey a)\<rparr>) ans)"
proof -
  obtain items where r: "rawAnnouncements status = Some items" and t: "those (map (announcement_of st) items) = Some ans"
    using assms by (auto simp: announcements_def split: option.splits)
  have "those (map (announcement_of st') items)
      = Some (map (\<lambda>a. a\<lparr>an_read := isAnnouncementRead st' (notificationKey a)\<rparr>) ans)"
    using t
    by (induction items arbitrary: ans)
      (auto simp: announcement_of_def split: option.splits if_splits)
  then show ?thesis using r by (simp add: announcements_def)
qed

lemma announcement_keys:
  assumes "announcements status st = Some ans" and "a \<in> set ans"
  shows "getAnnouncementKey (an_item a) = Some (notificationKey a)" and "an_read a = isAnnouncementRead st (notificationKey a)"
proof -
  obtain items where t: "those (map (announcement_of st) items) = Some ans"
    using assms(1) by (auto simp: announcements_def split: option.splits)
  then have "getAnnouncementKey (an_item a) = Some (notificationKey a) \<and> an_read a = isAnnouncementRead st (notificationKey a)"
    using assms(2)
    by (induction items arbitrary: ans)
      (auto simp: announcement_of_def split: option.splits if_splits)
  then show "getAnnouncementKey (an_item a) = Some (notificationKey a)" and "an_read a = isAnnouncementRead st (notificationKey a)"
    by auto
qed

lemma key_nonempty: "truthy item \<Longrightarrow> getAnnouncementKey item = Some k \<Longrightarrow> k \<noteq> []"
  using getAnnouncementKey_Some [of item k] by (auto simp: js_eval)

text \<open>C23 After all announcements were marked as read, whatever is opened, closed, marked or dismissed
  later, the same announcements count nothing as unread and none of them pops up.\<close>

theorem marked_stays_read:
  assumes "announcements status st = Some ans" and "\<forall>a\<in>set ans. truthy (an_item a)"
  shows "let st' = snd (fold notify (MarkRead None ans # es) (c, st)) in
     \<exists>ans'. announcements status st' = Some ans' \<and> map notificationKey ans' = map notificationKey ans
       \<and> un_announcements (unreadCounts notice st' ans' approvals) = 0 \<and> popupAnnouncement st' ans' = None"
proof -
  let ?st1 = "markAnnouncementsAsRead None ans st"
  let ?st' = "snd (fold notify (MarkRead None ans # es) (c, st))"
  let ?ans = "map (\<lambda>a. a\<lparr>an_read := isAnnouncementRead ?st' (notificationKey a)\<rparr>) ans"
  have "isAnnouncementRead ?st' (notificationKey a)" if a: "a \<in> set ans" for a
  proof -
    have "notificationKey a \<noteq> []" using key_nonempty announcement_keys(1) [OF assms(1) a] assms(2) a by blast
    then have "notificationKey a \<in> set (readAnnouncementKeys ?st1)"
      using a announcement_keys(2) [OF assms(1) a] by (auto simp: mark_keys isAnnouncementRead_def)
    then show ?thesis using run_keeps [of "(c, ?st1)" es] by (auto simp: isAnnouncementRead_def)
  qed
  then have r: "\<forall>a\<in>set ?ans. an_read a" by auto
  then have "un_announcements (unreadCounts notice ?st' ?ans approvals) = 0"
    by (simp add: unreadCounts_def Let_def filter_empty_conv)
  moreover have "popupAnnouncement ?st' ?ans = None"
    using r unfolding popupAnnouncement_def find_None_iff by blast
  moreover have "map notificationKey ?ans = map notificationKey ans" by simp
  ultimately show ?thesis using announcements_store [OF assms(1)] unfolding Let_def by blast
qed

lemma marked_stays_read_witness:
  "let st' = snd (fold notify (MarkRead None [\<lparr>an_item = JObj [(js ''id'', JNum (Fin 1))], mustRead = False,
        popup = False, notificationKey = js ''id:1'', an_read = False\<rparr>] # [Dismiss [], TabChange ApprovalsTab])
        (\<lparr>popoverOpen = False, activeTab = NoticeTab\<rparr>, empty_store)) in
     \<exists>ans'. announcements (Some (JObj [(js ''announcements_enabled'', JBool True),
         (js ''announcements'', JArr [JObj [(js ''id'', JNum (Fin 1))]])])) st' = Some ans'
       \<and> map notificationKey ans' = map notificationKey [\<lparr>an_item = JObj [(js ''id'', JNum (Fin 1))], mustRead = False,
           popup = False, notificationKey = js ''id:1'', an_read = False\<rparr>]
       \<and> un_announcements (unreadCounts [] st' ans' 0) = 0 \<and> popupAnnouncement st' ans' = None"
proof (rule marked_stays_read)
  show "announcements (Some (JObj [(js ''announcements_enabled'', JBool True),
      (js ''announcements'', JArr [JObj [(js ''id'', JNum (Fin 1))]])])) empty_store
    = Some [\<lparr>an_item = JObj [(js ''id'', JNum (Fin 1))], mustRead = False,
        popup = False, notificationKey = js ''id:1'', an_read = False\<rparr>]" by code_simp
qed simp

section \<open>Approval requests\<close>

definition requested :: "jstr list option \<Rightarrow> jstr list" where
  "requested r = (case r of Some xs \<Rightarrow> xs | None \<Rightarrow> [])"

lemma requested_if [simp]: "requested (if 0 < length xs then Some xs else None) = xs"
  by (auto simp: requested_def)

definition approval_targets :: "jstr list option \<Rightarrow> approval list \<Rightarrow> jstr list" where
  "approval_targets ks aps =
     unique_keys (case ks of Some k \<Rightarrow> k | None \<Rightarrow> map ap_key (filter (\<lambda>a. \<not> ap_read a) aps))"

lemma markApprovals_requested:
  "requested (fst (markApprovalsAsRead ks aps))
     = filter (\<lambda>k. \<not> take (length connected_prefix) k = connected_prefix) (approval_targets ks aps)"
  "requested (snd (markApprovalsAsRead ks aps))
     = filter (\<lambda>k. take (length connected_prefix) k = connected_prefix) (approval_targets ks aps)"
  by (simp_all add: markApprovalsAsRead_def approval_targets_def Let_def requested_def)

lemma markApprovals_nonempty:
  "fst (markApprovalsAsRead ks aps) \<noteq> Some []" "snd (markApprovalsAsRead ks aps) \<noteq> Some []"
  by (simp_all add: markApprovalsAsRead_def Let_def)

text \<open>Marking approvals as read sends every key that is not empty once, to the service it belongs to
  by its prefix, and sends no empty request.\<close>

theorem approvals_sent_once:
  "fst (markApprovalsAsRead ks aps) \<noteq> Some [] \<and> snd (markApprovalsAsRead ks aps) \<noteq> Some []
   \<and> (let e = requested (fst (markApprovalsAsRead ks aps)); n = requested (snd (markApprovalsAsRead ks aps)) in
       distinct (e @ n)
       \<and> set (e @ n) = {k. k \<noteq> [] \<and> k \<in> set (case ks of Some k \<Rightarrow> k | None \<Rightarrow> map ap_key (filter (\<lambda>a. \<not> ap_read a) aps))}
       \<and> set n = {k \<in> set (e @ n). \<exists>t. k = connected_prefix @ t})"
proof -
  have "take (length connected_prefix) k = connected_prefix \<longleftrightarrow> (\<exists>t. k = connected_prefix @ t)" for k
    by (metis append_eq_conv_conj)
  then show ?thesis
    by (auto simp: markApprovals_requested markApprovals_nonempty Let_def approval_targets_def)
qed

section \<open>The notice\<close>

text \<open>Opening the centre reads the notice shown; a notice with another text is unread again, the
  same one is not.\<close>

lemma notice_read:
  assumes "n = noticeContent r" and "n' = noticeContent r'" and "n' \<noteq> []" and "n \<noteq> []"
  shows "un_notice (unreadCounts n' (snd (handleOpenPopover t n cs)) ans k) = (if n' = n then 0 else 1)"
proof -
  have "trim n = n" using assms(1) by (auto simp: noticeContent_def split: option.splits bool.splits)
  then show ?thesis using assms(3,4)
    by (cases cs) (simp add: handleOpenPopover_def unreadCounts_def markNoticeRead_def Let_def)
qed

section \<open>Pages\<close>

text \<open>The approvals shown are those of the pages that arrived, newest first.\<close>

lemma approvals_sorted:
  "sorted_wrt (\<lambda>a b. created b \<le> created a) (approvalNotifications ent con)"
  "mset (approvalNotifications ent con) = mset (page_items ent) + mset (page_items con)"
proof -
  have "sorted (map (\<lambda>a. - created a) (approvalNotifications ent con))"
    by (simp add: approvalNotifications_def)
  then show "sorted_wrt (\<lambda>a b. created b \<le> created a) (approvalNotifications ent con)"
    by (simp add: sorted_wrt_map)
qed (simp add: approvalNotifications_def)

text \<open>Pages whose numbers are right are asked for one after the other.\<close>

lemma next_page:
  assumes "pg_success p" and "pg_data p = Some d" and "has_more d" and "pg_page d = Some n" and "0 < n"
  shows "getNextPageParam p = Some (n + 1)"
  using assms by (simp add: getNextPageParam_def)

end
