(* ===== verification/NavModules.thy ===== *)
theory NavModules
  imports JsJson
begin

text \<open>
  The modules of the top navigation as visitors see them: \<open>lib/nav-modules.ts\<close>, the links of
  \<open>hooks/use-top-nav-links.ts\<close> and the guards of the routes. Keys are assumed not to be names that
  every object inherits (\<open>constructor\<close>, \<open>toString\<close> and the like).
\<close>

section \<open>Configurations\<close>

record module_access =
  ma_enabled :: bool
  requireAuth :: bool

datatype nav_value = Flag bool | Access module_access

type_synonym header_nav = "(jstr \<times> nav_value) list"

definition open_access :: module_access where
  "open_access = \<lparr>ma_enabled = True, requireAuth = False\<rparr>"

definition DEFAULT_HEADER_NAV_MODULES :: header_nav where
  "DEFAULT_HEADER_NAV_MODULES =
     [(js ''home'', Flag True), (js ''console'', Flag True), (js ''serviceStatus'', Flag True),
      (js ''pricing'', Access open_access), (js ''rankings'', Access open_access), (js ''docs'', Flag True),
      (js ''downloads'', Flag True), (js ''about'', Flag True)]"

section \<open>Reading a configuration\<close>

definition parseHeaderNavBoolean :: "jsval option \<Rightarrow> bool \<Rightarrow> bool" where
  "parseHeaderNavBoolean raw fallback =
     (case raw of
        Some (JBool b) \<Rightarrow> b
      | Some (JNum n) \<Rightarrow> if n = Fin 1 then True else if n = Fin 0 then False else fallback
      | Some (JStr s) \<Rightarrow>
          (let normalized = lower_ascii (trim s) in
           if normalized = js ''true'' \<or> normalized = js ''1'' then True
           else if normalized = js ''false'' \<or> normalized = js ''0'' then False
           else fallback)
      | _ \<Rightarrow> fallback)"

definition is_scalar :: "jsval \<Rightarrow> bool" where
  "is_scalar v = (case v of JBool _ \<Rightarrow> True | JNum _ \<Rightarrow> True | JStr _ \<Rightarrow> True | _ \<Rightarrow> False)"

definition parseAccess :: "jsval \<Rightarrow> module_access \<Rightarrow> module_access" where
  "parseAccess raw fallback =
     (if is_scalar raw
      then \<lparr>ma_enabled = parseHeaderNavBoolean (Some raw) (ma_enabled fallback), requireAuth = requireAuth fallback\<rparr>
      else if truthy raw
      then \<lparr>ma_enabled = parseHeaderNavBoolean (get_prop raw ''enabled'') (ma_enabled fallback),
            requireAuth = parseHeaderNavBoolean (get_prop raw ''requireAuth'') (requireAuth fallback)\<rparr>
      else fallback)"

text \<open>The value a configuration is read from; \<open>None\<close> stands for \<open>null\<close>.\<close>

definition parseHeaderNavRecord :: "jsval option \<Rightarrow> jsval option" where
  "parseHeaderNavRecord raw =
     (case raw of
        None \<Rightarrow> None
      | Some v \<Rightarrow>
          if \<not> truthy v \<or> trim (to_str v) = [] then None
          else if \<not> is_scalar v then Some v
          else json_parse (to_str v))"

definition access_at :: "header_nav \<Rightarrow> string \<Rightarrow> module_access" where
  "access_at r k = (case map_of r (js k) of Some (Access a) \<Rightarrow> a | _ \<Rightarrow> open_access)"

text \<open>One entry of the record; entries of other kinds are skipped.\<close>

definition nav_entry :: "header_nav \<Rightarrow> jstr \<times> jsval \<Rightarrow> header_nav" where
  "nav_entry r = (\<lambda>(k, v).
     if k = js ''pricing'' then obj_put k (Access (parseAccess v (access_at r ''pricing''))) r
     else if k = js ''rankings'' then obj_put k (Access (parseAccess v (access_at r ''rankings''))) r
     else case map_of r k of
         Some (Flag b) \<Rightarrow> obj_put k (Flag (parseHeaderNavBoolean (Some v) b)) r
       | _ \<Rightarrow> if is_scalar v then obj_put k (Flag (parseHeaderNavBoolean (Some v) True)) r else r)"

definition parseHeaderNavModules :: "jsval option \<Rightarrow> header_nav" where
  "parseHeaderNavModules raw =
     (case parseHeaderNavRecord raw of
        None \<Rightarrow> DEFAULT_HEADER_NAV_MODULES
      | Some parsed \<Rightarrow>
          if truthy parsed then foldl nav_entry DEFAULT_HEADER_NAV_MODULES (own_props parsed)
          else DEFAULT_HEADER_NAV_MODULES)"

definition parseHeaderNavModulesFromStatus :: "jsval option \<Rightarrow> header_nav" where
  "parseHeaderNavModulesFromStatus status = parseHeaderNavModules (get_prop_opt status ''HeaderNavModules'')"

section \<open>Access to a module\<close>

datatype header_module = Rankings | Pricing

definition module_key :: "header_module \<Rightarrow> string" where
  "module_key m = (case m of Rankings \<Rightarrow> ''rankings'' | Pricing \<Rightarrow> ''pricing'')"

definition getModuleAccessFromStatus :: "jsval option \<Rightarrow> header_module \<Rightarrow> module_access" where
  "getModuleAccessFromStatus status m =
     (case map_of (parseHeaderNavModulesFromStatus status) (js (module_key m)) of
        Some (Access a) \<Rightarrow> a | _ \<Rightarrow> open_access)"

text \<open>The status kept in the browser's storage.\<close>

definition getCachedStatus :: "jstr option \<Rightarrow> jsval option" where
  "getCachedStatus stored =
     (case stored of None \<Rightarrow> None
      | Some raw \<Rightarrow> if raw = [] then None
          else (case json_parse raw of Some JNull \<Rightarrow> None | r \<Rightarrow> r))"

definition cacheStatus :: "jsval \<Rightarrow> jstr option \<Rightarrow> jstr option" where
  "cacheStatus status stored = (if truthy status then Some (stringify status) else stored)"

definition getModuleAccess :: "jstr option \<Rightarrow> header_module \<Rightarrow> module_access" where
  "getModuleAccess stored m = getModuleAccessFromStatus (getCachedStatus stored) m"

text \<open>The answer of the server decides; a failed request (\<open>None\<close>) admits nobody.\<close>

definition getFreshModuleAccess :: "jsval option \<Rightarrow> jstr option \<Rightarrow> header_module \<Rightarrow> module_access \<times> jstr option" where
  "getFreshModuleAccess answer stored m =
     (case answer of
        None \<Rightarrow> (\<lparr>ma_enabled = False, requireAuth = True\<rparr>, stored)
      | Some status \<Rightarrow> (getModuleAccessFromStatus (Some status) m, cacheStatus status stored))"

text \<open>The guard of a module's route (\<open>routes/pricing/index.tsx\<close>, \<open>routes/rankings/index.tsx\<close>).\<close>

datatype guard = Admit | ToHome | ToSignIn jstr

definition beforeLoad :: "module_access \<Rightarrow> bool \<Rightarrow> jstr \<Rightarrow> guard" where
  "beforeLoad access authed href =
     (if \<not> ma_enabled access then ToHome
      else if requireAuth access \<and> \<not> authed then ToSignIn href
      else Admit)"

text \<open>The guard of every route behind the sign-in (\<open>routes/_authenticated/route.tsx\<close>), with what is known
  of the visitor: whether there is a user, whether the session was verified before, and whether
  the request for the user's own data succeeds. It gives the decision and the first two anew: a
  session that fails the check loses its user.\<close>

definition beforeLoad_authenticated :: "bool \<Rightarrow> bool \<Rightarrow> bool \<Rightarrow> jstr \<Rightarrow> guard \<times> bool \<times> bool" where
  "beforeLoad_authenticated user sessionVerified selfSucceeds href =
     (if \<not> user then (ToSignIn href, user, sessionVerified)
      else if \<not> sessionVerified
      then (if selfSucceeds then (Admit, True, True) else (ToSignIn href, False, sessionVerified))
      else (Admit, user, sessionVerified))"

section \<open>The guard of sidebar modules\<close>

definition isSidebarModuleEnabled :: "jstr option \<Rightarrow> string \<Rightarrow> string \<Rightarrow> bool" where
  "isSidebarModuleEnabled stored sec m =
     (case getCachedStatus stored of
        None \<Rightarrow> True
      | Some status \<Rightarrow>
          if \<not> truthy status then True
          else case get_prop status ''SidebarModulesAdmin'' of
              None \<Rightarrow> True
            | Some raw \<Rightarrow>
                if \<not> truthy raw \<or> trim (to_str raw) = [] then True
                else case json_parse (to_str raw) of
                    None \<Rightarrow> True
                  | Some parsed \<Rightarrow>
                      (case get_prop parsed sec of
                         None \<Rightarrow> True
                       | Some cfg \<Rightarrow>
                           if \<not> truthy cfg then True
                           else get_prop cfg ''enabled'' \<noteq> Some (JBool False) \<and> get_prop cfg m \<noteq> Some (JBool False)))"

section \<open>The links of the top navigation\<close>

record top_link =
  tl_title :: string
  tl_href :: jstr
  requiresAuth :: bool
  tl_external :: bool

definition plain_link :: "string \<Rightarrow> jstr \<Rightarrow> top_link" where
  "plain_link t h = \<lparr>tl_title = t, tl_href = h, requiresAuth = False, tl_external = False\<rparr>"

definition not_off :: "header_nav \<Rightarrow> string \<Rightarrow> bool" where
  "not_off ms k \<longleftrightarrow> map_of ms (js k) \<noteq> Some (Flag False)"

definition access_links :: "header_nav \<Rightarrow> bool \<Rightarrow> string \<Rightarrow> string \<Rightarrow> string \<Rightarrow> top_link list" where
  "access_links ms authed k title href =
     (case map_of ms (js k) of
        Some (Access a) \<Rightarrow>
          if ma_enabled a then [(plain_link title (js href))\<lparr>requiresAuth := requireAuth a \<and> \<not> authed\<rparr>] else []
      | _ \<Rightarrow> [])"

definition useTopNavLinks :: "jsval option \<Rightarrow> bool \<Rightarrow> top_link list" where
  "useTopNavLinks status authed =
     (let ms = parseHeaderNavModulesFromStatus status;
          docsLink = get_prop_opt status ''docs_link'' in
      (if not_off ms ''home'' then [plain_link ''Home'' (js ''/'')] else [])
      @ (if not_off ms ''console'' then [plain_link ''Console'' (js ''/dashboard'')] else [])
      @ access_links ms authed ''pricing'' ''Model Square'' ''/pricing''
      @ access_links ms authed ''rankings'' ''Rankings'' ''/rankings''
      @ (if not_off ms ''docs''
         then (if truthy_opt docsLink
               then [(plain_link ''Docs'' (to_str (the docsLink)))\<lparr>tl_external := True\<rparr>]
               else [plain_link ''Docs'' (js ''/docs'')])
         else [])
      @ (if not_off ms ''downloads'' \<and> get_prop_opt status ''downloads_enabled'' \<noteq> Some (JBool False)
         then [plain_link ''Downloads'' (js ''/downloads'')] else [])
      @ (if not_off ms ''about'' then [plain_link ''About'' (js ''/about'')] else []))"

end
