(* ===== verification/NavConfig.thy ===== *)
theory NavConfig
  imports NavModules
begin

text \<open>
  The modules as the administrator edits them
  (\<open>features/system-settings/maintenance/config.ts\<close>): reading and printing the configurations of the
  top navigation and of the sidebar.
\<close>

section \<open>The top navigation\<close>

definition HEADER_NAV_DEFAULT :: header_nav where
  "HEADER_NAV_DEFAULT =
     [(js ''home'', Flag True), (js ''console'', Flag True), (js ''serviceStatus'', Flag True),
      (js ''pricing'', Access \<lparr>ma_enabled = True, requireAuth = False\<rparr>),
      (js ''rankings'', Access \<lparr>ma_enabled = True, requireAuth = False\<rparr>), (js ''docs'', Flag True),
      (js ''downloads'', Flag True), (js ''about'', Flag True)]"

definition toBoolean :: "jsval option \<Rightarrow> bool \<Rightarrow> bool" where
  "toBoolean value fallback =
     (case value of
        Some (JBool b) \<Rightarrow> b
      | Some (JNum n) \<Rightarrow> n = Fin 1
      | Some (JStr s) \<Rightarrow>
          (let normalized = lower_ascii (trim s) in
           if normalized = js ''true'' \<or> normalized = js ''1'' then True
           else if normalized = js ''false'' \<or> normalized = js ''0'' then False
           else fallback)
      | _ \<Rightarrow> fallback)"

definition parseAccessModule :: "jsval \<Rightarrow> module_access \<Rightarrow> module_access" where
  "parseAccessModule raw fallback =
     (if is_scalar raw
      then \<lparr>ma_enabled = toBoolean (Some raw) (ma_enabled fallback), requireAuth = requireAuth fallback\<rparr>
      else if truthy raw
      then \<lparr>ma_enabled = toBoolean (get_prop raw ''enabled'') (ma_enabled fallback),
            requireAuth = toBoolean (get_prop raw ''requireAuth'') (requireAuth fallback)\<rparr>
      else fallback)"

text \<open>\<open>Boolean(base[key])\<close>.\<close>

definition base_on :: "jstr \<Rightarrow> bool" where
  "base_on k = (case map_of HEADER_NAV_DEFAULT k of None \<Rightarrow> False | Some (Flag b) \<Rightarrow> b | Some (Access _) \<Rightarrow> True)"

definition header_entry_admin :: "header_nav \<Rightarrow> jstr \<times> jsval \<Rightarrow> header_nav" where
  "header_entry_admin r = (\<lambda>(k, raw).
     if k = js ''pricing'' then obj_put k (Access (parseAccessModule raw (access_at HEADER_NAV_DEFAULT ''pricing''))) r
     else if k = js ''rankings'' then obj_put k (Access (parseAccessModule raw (access_at HEADER_NAV_DEFAULT ''rankings''))) r
     else case raw of
         JBool b \<Rightarrow> obj_put k (Flag b) r
       | JStr s \<Rightarrow> obj_put k (Flag (toBoolean (Some raw) (base_on k))) r
       | JNum n \<Rightarrow> obj_put k (Flag (toBoolean (Some raw) (base_on k))) r
       | _ \<Rightarrow> r)"

text \<open>A text that is no JSON, or \<open>null\<close>, whose entries cannot be listed, gives the default.\<close>

definition parseHeaderNavModules_admin :: "jstr option \<Rightarrow> header_nav" where
  "parseHeaderNavModules_admin value =
     (if \<not> truthy_str value then HEADER_NAV_DEFAULT
      else case json_parse (the value) of
          None \<Rightarrow> HEADER_NAV_DEFAULT
        | Some JNull \<Rightarrow> HEADER_NAV_DEFAULT
        | Some parsed \<Rightarrow> foldl header_entry_admin HEADER_NAV_DEFAULT (own_props parsed))"

definition access_json :: "module_access \<Rightarrow> jsval" where
  "access_json a = JObj [(js ''enabled'', JBool (ma_enabled a)), (js ''requireAuth'', JBool (requireAuth a))]"

definition nav_json :: "nav_value \<Rightarrow> jsval" where
  "nav_json v = (case v of Flag b \<Rightarrow> JBool b | Access a \<Rightarrow> access_json a)"

definition serializeHeaderNavModules :: "header_nav \<Rightarrow> jstr" where
  "serializeHeaderNavModules config = stringify (JObj (map (\<lambda>(k, v). (k, nav_json v)) config))"

section \<open>The sidebar\<close>

type_synonym section_config = "(jstr \<times> bool) list"
type_synonym sidebar_config = "(jstr \<times> section_config) list"

definition modules_on :: "string list \<Rightarrow> section_config" where
  "modules_on ms = map (\<lambda>m. (js m, True)) (''enabled'' # ms)"

definition SIDEBAR_MODULES_DEFAULT :: sidebar_config where
  "SIDEBAR_MODULES_DEFAULT =
     [(js ''chat'', modules_on [''playground'', ''chat'']),
      (js ''console'', modules_on [''detail'', ''token'', ''log'', ''midjourney'', ''task'']),
      (js ''personal'', modules_on [''topup'', ''personal'']),
      (js ''tunnel'', modules_on [''devices'', ''apps'', ''connections'', ''sessions'']),
      (js ''admin'', modules_on [''channel'', ''models'', ''redemption'', ''user'', ''setting'', ''subscription''])]"

definition default_on :: "section_config \<Rightarrow> jstr \<Rightarrow> bool" where
  "default_on d m = (case map_of d m of Some b \<Rightarrow> b | None \<Rightarrow> True)"

definition section_of :: "section_config \<Rightarrow> jsval \<Rightarrow> section_config" where
  "section_of d raw =
     foldl (\<lambda>acc (m, v). if m = js ''enabled'' then acc else obj_put m (toBoolean (Some v) (default_on d m)) acc)
       [(js ''enabled'', toBoolean (get_prop raw ''enabled'') (default_on d (js ''enabled'')))] (own_props raw)"

definition sidebar_entry :: "sidebar_config \<Rightarrow> jstr \<times> jsval \<Rightarrow> sidebar_config" where
  "sidebar_entry r = (\<lambda>(k, raw).
     if \<not> truthy raw \<or> is_scalar raw then r
     else obj_put k (section_of (case map_of SIDEBAR_MODULES_DEFAULT k of Some d \<Rightarrow> d | None \<Rightarrow> [(js ''enabled'', True)]) raw) r)"

definition fill_modules :: "section_config \<Rightarrow> section_config \<Rightarrow> section_config" where
  "fill_modules cfg d = foldl (\<lambda>acc (m, b). if m \<in> fst ` set acc then acc else obj_put m b acc) cfg (own_entries d)"

definition merge_default :: "sidebar_config \<Rightarrow> jstr \<times> section_config \<Rightarrow> sidebar_config" where
  "merge_default r = (\<lambda>(k, d).
     case map_of r k of None \<Rightarrow> obj_put k d r | Some cfg \<Rightarrow> obj_put k (fill_modules cfg d) r)"

definition parseSidebarModulesAdmin :: "jstr option \<Rightarrow> sidebar_config" where
  "parseSidebarModulesAdmin value =
     (if \<not> truthy_str value \<or> trim (the value) = [] then SIDEBAR_MODULES_DEFAULT
      else case json_parse (the value) of
          None \<Rightarrow> SIDEBAR_MODULES_DEFAULT
        | Some JNull \<Rightarrow> SIDEBAR_MODULES_DEFAULT
        | Some parsed \<Rightarrow>
            foldl merge_default (foldl sidebar_entry [] (own_props parsed)) (own_entries SIDEBAR_MODULES_DEFAULT))"

definition sidebar_json :: "sidebar_config \<Rightarrow> jsval" where
  "sidebar_json c = JObj (map (\<lambda>(k, s). (k, JObj (map (\<lambda>(m, b). (m, JBool b)) s))) c)"

definition serializeSidebarModulesAdmin :: "sidebar_config \<Rightarrow> jstr" where
  "serializeSidebarModulesAdmin config = stringify (sidebar_json config)"

end
