(* ===== verification/SidebarConfig.thy ===== *)
theory SidebarConfig
  imports NavConfig
begin

text \<open>
  The sidebar a user sees (\<open>hooks/use-sidebar-config.ts\<close>): the administrator's configuration as read
  from its text, the user's own one, and the items both admit. The configurations stay the JSON
  values they are in the code.
\<close>

section \<open>Configurations\<close>

type_synonym sidebar_obj = "(jstr \<times> jsval) list"

definition modules_obj :: "string list \<Rightarrow> sidebar_obj" where
  "modules_obj ms = map (\<lambda>m. (js m, JBool True)) (''enabled'' # ms)"

definition DEFAULT_SIDEBAR_MODULES :: "(jstr \<times> sidebar_obj) list" where
  "DEFAULT_SIDEBAR_MODULES =
     [(js ''chat'', modules_obj [''playground'', ''chat'']),
      (js ''console'', modules_obj [''detail'', ''token'', ''log'', ''quota_requests'', ''subsites'', ''midjourney'',
         ''task'', ''mcp_market'']),
      (js ''personal'', modules_obj [''topup'', ''personal'']),
      (js ''tunnel'', modules_obj [''devices'', ''apps'', ''connections'', ''sessions'']),
      (js ''admin'', modules_obj [''dashboard'', ''channel'', ''models'', ''redemption'', ''package_skus'', ''user'',
         ''enterprise'', ''training_data'', ''mcp'', ''setting'', ''subscription''])]"

definition default_obj :: sidebar_obj where
  "default_obj = map (\<lambda>(k, d). (k, JObj d)) DEFAULT_SIDEBAR_MODULES"

text \<open>The properties missing after the spread; JSON has no \<open>undefined\<close>.\<close>

definition fill_missing :: "sidebar_obj \<Rightarrow> sidebar_obj \<Rightarrow> sidebar_obj" where
  "fill_missing sec d = foldl (\<lambda>acc (m, v). if map_of acc m = None then obj_put m v acc else acc) sec (own_entries d)"

definition merge_section :: "sidebar_obj \<Rightarrow> jstr \<times> sidebar_obj \<Rightarrow> sidebar_obj" where
  "merge_section merged = (\<lambda>(k, d).
     if \<not> truthy_opt (map_of merged k) then obj_put k (JObj d) merged
     else obj_put k (JObj (fill_missing (spread_over d (the (map_of merged k))) d)) merged)"

definition mergeWithDefaultSidebarModules :: "jsval \<Rightarrow> sidebar_obj" where
  "mergeWithDefaultSidebarModules config = foldl merge_section (spread_over [] config) (own_entries DEFAULT_SIDEBAR_MODULES)"

definition parseSidebarConfig :: "jstr option \<Rightarrow> sidebar_obj" where
  "parseSidebarConfig value =
     (if \<not> truthy_str value \<or> trim (the value) = [] then default_obj
      else case json_parse (the value) of
          None \<Rightarrow> default_obj
        | Some parsed \<Rightarrow> mergeWithDefaultSidebarModules parsed)"

text \<open>An object or an array; \<open>None\<close> stands for \<open>null\<close>.\<close>

definition parseUserSidebarConfig :: "jstr option \<Rightarrow> jsval option" where
  "parseUserSidebarConfig value =
     (if \<not> truthy_str value \<or> trim (the value) = [] then None
      else case json_parse (the value) of
          None \<Rightarrow> None
        | Some parsed \<Rightarrow> if \<not> truthy parsed \<or> is_scalar parsed then None else Some parsed)"

text \<open>The overlay is skipped for users who cannot configure the sidebar.\<close>

definition user_config :: "bool option \<Rightarrow> jstr option \<Rightarrow> jsval option" where
  "user_config sidebar_settings sidebar_modules =
     (if sidebar_settings = Some False then None else parseUserSidebarConfig sidebar_modules)"

section \<open>Modules\<close>

definition URL_TO_CONFIG_MAP :: "(jstr \<times> string \<times> string) list" where
  "URL_TO_CONFIG_MAP = map (\<lambda>(u, s, m). (js u, s, m))
     [(''/playground'', ''chat'', ''playground''),
      (''/dashboard'', ''console'', ''detail''),
      (''/dashboard/overview'', ''console'', ''detail''),
      (''/dashboard/models'', ''console'', ''detail''),
      (''/dashboard/subsites'', ''console'', ''subsites''),
      (''/dashboard/site-models'', ''admin'', ''dashboard''),
      (''/dashboard/users'', ''admin'', ''dashboard''),
      (''/keys'', ''console'', ''token''),
      (''/usage-logs'', ''console'', ''log''),
      (''/usage-logs/common'', ''console'', ''log''),
      (''/quota-requests'', ''console'', ''quota_requests''),
      (''/usage-logs/drawing'', ''console'', ''midjourney''),
      (''/usage-logs/task'', ''console'', ''task''),
      (''/mcp/market'', ''console'', ''mcp_market''),
      (''/wallet'', ''personal'', ''topup''),
      (''/profile'', ''personal'', ''personal''),
      (''/mcp/bridge-clients'', ''tunnel'', ''devices''),
      (''/mcp/my-tunnel-apps'', ''tunnel'', ''apps''),
      (''/mcp/tunnel-connections'', ''tunnel'', ''connections''),
      (''/mcp/tunnel-sessions'', ''tunnel'', ''sessions''),
      (''/channels'', ''admin'', ''channel''),
      (''/models'', ''admin'', ''models''),
      (''/models/metadata'', ''admin'', ''models''),
      (''/models/deployments'', ''admin'', ''models''),
      (''/users'', ''admin'', ''user''),
      (''/enterprise'', ''admin'', ''enterprise''),
      (''/training-data'', ''admin'', ''training_data''),
      (''/mcp'', ''admin'', ''mcp''),
      (''/mcp/tools'', ''admin'', ''mcp''),
      (''/mcp/tunnel-apps'', ''admin'', ''mcp''),
      (''/mcp/tool-calls'', ''admin'', ''mcp''),
      (''/mcp/billing-events'', ''admin'', ''mcp''),
      (''/mcp/audit-logs'', ''admin'', ''mcp''),
      (''/redemption-codes'', ''admin'', ''redemption''),
      (''/package-skus'', ''admin'', ''package_skus''),
      (''/subscriptions'', ''admin'', ''subscription''),
      (''/system-settings'', ''admin'', ''setting''),
      (''/system-settings/site'', ''admin'', ''setting'')]"

definition adminAllowed :: "sidebar_obj \<Rightarrow> string \<Rightarrow> string \<Rightarrow> bool" where
  "adminAllowed admin s m \<longleftrightarrow>
     (case map_of admin (js s) of
        None \<Rightarrow> False
      | Some sec \<Rightarrow> truthy sec \<and> truthy_opt (get_prop sec ''enabled'') \<and> get_prop sec m = Some (JBool True))"

definition userAllowed :: "jsval option \<Rightarrow> string \<Rightarrow> string \<Rightarrow> bool" where
  "userAllowed user s m \<longleftrightarrow>
     (case user of
        None \<Rightarrow> True
      | Some cfg \<Rightarrow>
          (case get_prop cfg s of
             None \<Rightarrow> True
           | Some sec \<Rightarrow>
               if \<not> truthy sec then True
               else if get_prop sec ''enabled'' = Some (JBool False) then False
               else get_prop sec m \<noteq> Some (JBool False)))"

definition isModuleEnabled :: "jstr \<Rightarrow> sidebar_obj \<Rightarrow> jsval option \<Rightarrow> bool" where
  "isModuleEnabled url admin user =
     (case map_of URL_TO_CONFIG_MAP url of
        None \<Rightarrow> True
      | Some (s, m) \<Rightarrow> if \<not> adminAllowed admin s m then False else userAllowed user s m)"

section \<open>Items\<close>

datatype nav_item =
  NavLink (nv_title: jstr) (nv_url: jstr) (nv_configUrls: "jstr list option")
| NavCollapsible (nv_title: jstr) (nv_items: "(jstr \<times> jstr) list")
| NavChatPresets (nv_title: jstr)

record nav_group =
  ng_title :: jstr
  ng_items :: "nav_item list"

fun isNavItemVisible :: "sidebar_obj \<Rightarrow> jsval option \<Rightarrow> nav_item \<Rightarrow> bool" where
  "isNavItemVisible admin user (NavChatPresets t) =
     (if \<not> adminAllowed admin ''chat'' ''chat'' then False else userAllowed user ''chat'' ''chat'')"
| "isNavItemVisible admin user (NavLink t url cfg) =
     (if url = [] then True
      else list_ex (\<lambda>u. isModuleEnabled u admin user) (case cfg of Some us \<Rightarrow> us | None \<Rightarrow> [url]))"
| "isNavItemVisible admin user (NavCollapsible t subs) = list_ex (\<lambda>(_, u). isModuleEnabled u admin user) subs"

fun filter_subitems :: "sidebar_obj \<Rightarrow> jsval option \<Rightarrow> nav_item \<Rightarrow> nav_item" where
  "filter_subitems admin user (NavCollapsible t subs) =
     NavCollapsible t (filter (\<lambda>(_, u). isModuleEnabled u admin user) subs)"
| "filter_subitems admin user item = item"

definition filterNavItems :: "nav_item list \<Rightarrow> sidebar_obj \<Rightarrow> jsval option \<Rightarrow> nav_item list" where
  "filterNavItems items admin user =
     filter (isNavItemVisible admin user) (map (filter_subitems admin user) items)"

definition useSidebarConfig :: "jstr option \<Rightarrow> bool option \<Rightarrow> jstr option \<Rightarrow> nav_group list \<Rightarrow> nav_group list" where
  "useSidebarConfig admin_text sidebar_settings sidebar_modules groups =
     (let admin = parseSidebarConfig admin_text; user = user_config sidebar_settings sidebar_modules in
      filter (\<lambda>g. 0 < length (ng_items g))
        (map (\<lambda>g. g\<lparr>ng_items := filterNavItems (ng_items g) admin user\<rparr>) groups))"

end
