(* ===== verification/NavProps.thy ===== *)
theory NavProps
  imports SidebarConfig
begin

text \<open>
  The top navigation: what the settings save reads back unchanged in the settings and for visitors,
  every parsed configuration has the shape the types promise, and the links of the two
  modules with guards of their own agree with them.
\<close>

declare own_entries_idem [simp]

section \<open>The top navigation\<close>

definition header_ok :: "header_nav \<Rightarrow> bool" where
  "header_ok c \<longleftrightarrow> distinct (map fst c) \<and> (\<forall>(k, v)\<in>set c. units_ok k)
     \<and> (\<forall>(k, v)\<in>set c. (case v of Access _ \<Rightarrow> k \<in> {js ''pricing'', js ''rankings''}
                            | Flag _ \<Rightarrow> k \<notin> {js ''pricing'', js ''rankings''}))
     \<and> fst ` set DEFAULT_HEADER_NAV_MODULES \<subseteq> fst ` set c"

lemma defaults_agree: "HEADER_NAV_DEFAULT = DEFAULT_HEADER_NAV_MODULES"
  by (simp add: HEADER_NAV_DEFAULT_def DEFAULT_HEADER_NAV_MODULES_def open_access_def)

lemma parseAccess_json: "parseAccess (access_json a) d = a" "parseAccessModule (access_json a) d = a"
  by (simp_all add: parseAccess_def parseAccessModule_def access_json_def is_scalar_def parseHeaderNavBoolean_def toBoolean_def)

definition kind_ok :: "jstr \<times> nav_value \<Rightarrow> bool" where
  "kind_ok = (\<lambda>(k, v). (case v of Access _ \<Rightarrow> k \<in> {js ''pricing'', js ''rankings''}
                              | Flag _ \<Rightarrow> k \<notin> {js ''pricing'', js ''rankings''}))"

lemma entry_puts:
  assumes "kind_ok (k, v)"
  shows "nav_entry r (k, nav_json v) = obj_put k v r" and "header_entry_admin r (k, nav_json v) = obj_put k v r"
proof -
  show "nav_entry r (k, nav_json v) = obj_put k v r"
    using assms by (cases v) (auto simp: kind_ok_def nav_entry_def nav_json_def parseAccess_json is_scalar_def
        parseHeaderNavBoolean_def split: option.splits nav_value.splits)
  show "header_entry_admin r (k, nav_json v) = obj_put k v r"
    using assms by (cases v) (auto simp: kind_ok_def header_entry_admin_def nav_json_def parseAccess_json)
qed

lemma entries_put:
  assumes "\<forall>p\<in>set c. kind_ok p"
  shows "foldl nav_entry r (map (\<lambda>(k, v). (k, nav_json v)) c) = foldl (\<lambda>r (k, v). obj_put k v r) r c"
    and "foldl header_entry_admin r (map (\<lambda>(k, v). (k, nav_json v)) c) = foldl (\<lambda>r (k, v). obj_put k v r) r c"
  using assms by (induction c arbitrary: r) (auto simp: entry_puts)

lemma nav_json_wf [simp]: "json_wf (nav_json v)"
proof -
  have "json_wf (JObj [(js ''enabled'', JBool a), (js ''requireAuth'', JBool b)])" for a b
    by (cases a; cases b) code_simp+
  then show ?thesis by (cases v) (simp_all add: nav_json_def access_json_def)
qed

lemma header_parsed:
  assumes "header_ok c"
  shows "json_parse (serializeHeaderNavModules c) = Some (JObj (map (\<lambda>(k, v). (k, nav_json v)) (own_entries c)))"
proof -
  have "distinct (map fst (map (\<lambda>(k, v). (k, nav_json v)) c))"
    using assms by (simp add: header_ok_def comp_def case_prod_unfold)
  moreover have "\<forall>(k, v)\<in>set (map (\<lambda>(k, v). (k, nav_json v)) c). units_ok k \<and> json_wf v"
    using assms by (auto simp: header_ok_def)
  ultimately show ?thesis
    unfolding serializeHeaderNavModules_def by (simp only: json_parse_obj own_entries_map)
qed

lemma stringify_obj_Cons: "stringify (JObj ps) = 123 # tl (stringify (JObj ps))"
  by simp

lemma trim_Cons: "\<not> is_ws c \<Longrightarrow> trim (c # s) \<noteq> []"
  by (simp add: trim_eq_Nil_iff)

lemma stringify_obj_text:
  "stringify (JObj ps) \<noteq> []" "trim (stringify (JObj ps)) \<noteq> []"
  by (simp, subst stringify_obj_Cons, rule trim_Cons) (simp add: is_ws_def)

lemma header_defaults_over:
  assumes "header_ok c"
  shows "map_of DEFAULT_HEADER_NAV_MODULES ++ map_of (own_entries c) = map_of c"
proof -
  have d: "map_of (own_entries c) = map_of c" using assms by (simp add: header_ok_def map_of_own_entries)
  have "dom (map_of DEFAULT_HEADER_NAV_MODULES) \<subseteq> dom (map_of c)"
    using assms by (simp add: header_ok_def dom_map_of_conv_image_fst)
  then show ?thesis unfolding d by (auto simp: fun_eq_iff map_add_def split: option.splits)
qed

text \<open>A saved configuration of the top navigation reads back unchanged, both in the settings and in
  the visitors' header: the two parsers agree on everything the settings save.\<close>

theorem header_roundtrip:
  assumes "header_ok c"
  shows "map_of (parseHeaderNavModules_admin (Some (serializeHeaderNavModules c))) = map_of c
    \<and> map_of (parseHeaderNavModules (Some (JStr (serializeHeaderNavModules c)))) = map_of c"
proof -
  let ?t = "serializeHeaderNavModules c"
  have t: "?t \<noteq> []" "trim ?t \<noteq> []" unfolding serializeHeaderNavModules_def by (rule stringify_obj_text)+
  have k: "\<forall>p\<in>set (own_entries c). kind_ok p" using assms by (auto simp: header_ok_def kind_ok_def)
  have d: "distinct (map fst (own_entries c))" using assms by (simp add: header_ok_def distinct_own_entries)
  have "own_entries (map (\<lambda>(k, v). (k, nav_json v)) (own_entries c)) = map (\<lambda>(k, v). (k, nav_json v)) (own_entries c)"
    by (simp only: own_entries_map own_entries_idem)
  then have o: "own_props (JObj (map (\<lambda>(k, v). (k, nav_json v)) (own_entries c))) = map (\<lambda>(k, v). (k, nav_json v)) (own_entries c)"
    by (simp add: own_props_def)
  have "parseHeaderNavRecord (Some (JStr ?t)) = Some (JObj (map (\<lambda>(k, v). (k, nav_json v)) (own_entries c)))"
    using t header_parsed [OF assms] by (simp add: parseHeaderNavRecord_def is_scalar_def)
  then show ?thesis
    using t header_parsed [OF assms] o entries_put [OF k] map_of_puts [OF d] header_defaults_over [OF assms]
    by (simp add: parseHeaderNavModules_admin_def parseHeaderNavModules_def defaults_agree)
qed

lemma header_roundtrip_witness:
  "map_of (parseHeaderNavModules_admin (Some (serializeHeaderNavModules
      (DEFAULT_HEADER_NAV_MODULES @ [(js ''blog'', Flag False)])))) = map_of (DEFAULT_HEADER_NAV_MODULES @ [(js ''blog'', Flag False)])
   \<and> map_of (parseHeaderNavModules (Some (JStr (serializeHeaderNavModules
      (DEFAULT_HEADER_NAV_MODULES @ [(js ''blog'', Flag False)]))))) = map_of (DEFAULT_HEADER_NAV_MODULES @ [(js ''blog'', Flag False)])"
  by (rule header_roundtrip) code_simp

section \<open>The shape of a configuration\<close>

definition shape_ok :: "header_nav \<Rightarrow> bool" where
  "shape_ok c \<longleftrightarrow> distinct (map fst c) \<and> (\<forall>p\<in>set c. kind_ok p) \<and> fst ` set DEFAULT_HEADER_NAV_MODULES \<subseteq> fst ` set c"

lemma shape_default: "shape_ok DEFAULT_HEADER_NAV_MODULES"
  by code_simp

lemma shape_put: "shape_ok c \<Longrightarrow> kind_ok (k, v) \<Longrightarrow> shape_ok (obj_put k v c)"
  using set_obj_put_subset [of k v c] by (auto simp: shape_ok_def fst_obj_put)

lemma shape_entry: "shape_ok r \<Longrightarrow> shape_ok (nav_entry r p)" "shape_ok r \<Longrightarrow> shape_ok (header_entry_admin r p)"
  by (auto simp: nav_entry_def header_entry_admin_def kind_ok_def
      intro!: shape_put split: prod.splits option.splits nav_value.splits jsval.splits)

lemma shape_entries:
  "shape_ok r \<Longrightarrow> shape_ok (foldl nav_entry r ps)" "shape_ok r \<Longrightarrow> shape_ok (foldl header_entry_admin r ps)"
  by (induction ps arbitrary: r) (auto intro: shape_entry)

lemma parsed_shape:
  "shape_ok (parseHeaderNavModules raw)" "shape_ok (parseHeaderNavModules_admin value)"
  by (auto simp: parseHeaderNavModules_def parseHeaderNavModules_admin_def defaults_agree
      intro: shape_default shape_entries split: option.splits jsval.splits)

lemma shape_access:
  assumes "shape_ok c" and "k \<in> {''pricing'', ''rankings''}"
  shows "\<exists>a. map_of c (js k) = Some (Access a)"
proof -
  have "js k \<in> fst ` set DEFAULT_HEADER_NAV_MODULES" using assms(2) by (auto simp: DEFAULT_HEADER_NAV_MODULES_def)
  then obtain v where v: "map_of c (js k) = Some v"
    using assms(1) by (metis (no_types) map_of_eq_None_iff not_None_eq shape_ok_def subsetD)
  then have "kind_ok (js k, v)" using assms(1) by (auto simp: shape_ok_def dest: map_of_SomeD)
  then show ?thesis using v assms(2) by (cases v) (auto simp: kind_ok_def)
qed

section \<open>Links and guards\<close>

definition module_title :: "header_module \<Rightarrow> string" where
  "module_title m = (case m of Pricing \<Rightarrow> ''Model Square'' | Rankings \<Rightarrow> ''Rankings'')"

lemma filter_access:
  "filter (\<lambda>l. tl_title l = t') (access_links ms authed k t h) = (if t = t' then access_links ms authed k t h else [])"
  by (simp add: access_links_def plain_link_def split: option.split nav_value.split)

lemma filter_plain:
  "filter (\<lambda>l. tl_title l = t') (if b then [plain_link t h] else []) = (if b \<and> t = t' then [plain_link t h] else [])"
  "filter (\<lambda>l. tl_title l = t') (if b then if d then [(plain_link t h)\<lparr>tl_external := e\<rparr>] else [plain_link t h'] else [])
    = (if t = t' then if b then if d then [(plain_link t h)\<lparr>tl_external := e\<rparr>] else [plain_link t h'] else [] else [])"
  by (simp_all add: plain_link_def)

lemma module_links:
  "filter (\<lambda>l. tl_title l = module_title m) (useTopNavLinks status authed)
     = access_links (parseHeaderNavModulesFromStatus status) authed (module_key m) (module_title m) (''/'' @ module_key m)"
proof -
  have "module_title m \<noteq> ''Home''" "module_title m \<noteq> ''Console''" "module_title m \<noteq> ''Docs''"
    "module_title m \<noteq> ''Downloads''" "module_title m \<noteq> ''About''" by (cases m; simp add: module_title_def)+
  then show ?thesis
    unfolding useTopNavLinks_def Let_def filter_append filter_access filter_plain
    by (cases m) (simp_all add: module_title_def module_key_def)
qed

lemma module_link_set:
  "{l \<in> set (useTopNavLinks status authed). tl_title l = module_title m}
     = set (access_links (parseHeaderNavModulesFromStatus status) authed (module_key m) (module_title m) (''/'' @ module_key m))"
  unfolding module_links [symmetric] by auto

lemma console_links:
  "filter (\<lambda>l. tl_title l = ''Console'') (useTopNavLinks status authed)
     = (if not_off (parseHeaderNavModulesFromStatus status) ''console'' then [plain_link ''Console'' (js ''/dashboard'')] else [])"
  unfolding useTopNavLinks_def Let_def filter_append filter_access filter_plain
  by simp

text \<open>C24 For the two modules whose routes have guards of their own, the model square and the rankings,
  the link of the top navigation and the guard agree: a module without a link sends the visitor
  home, a link that requires signing in leads to the sign-in page, any other is admitted; and when
  the status cannot be fetched nobody is admitted. The console is different: its link never asks
  for signing in, while the guard of its route sends a visitor without a user to the sign-in page.\<close>

theorem links_match_guards:
  "(let links = {l \<in> set (useTopNavLinks (Some status) authed). tl_title l = module_title m};
        g = beforeLoad (fst (getFreshModuleAccess (Some status) stored m)) authed href in
     (g = ToHome \<longleftrightarrow> links = {}) \<and> (g = ToSignIn href \<longleftrightarrow> (\<exists>l\<in>links. requiresAuth l)) \<and> (g = Admit \<longleftrightarrow> (\<exists>l\<in>links. \<not> requiresAuth l)))
   \<and> beforeLoad (fst (getFreshModuleAccess None stored m)) authed href = ToHome
   \<and> filter (\<lambda>l. tl_title l = ''Console'' \<and> requiresAuth l) (useTopNavLinks (Some status) authed) = []
   \<and> fst (beforeLoad_authenticated False verified self href) = ToSignIn href"
proof -
  have "module_key m \<in> {''pricing'', ''rankings''}" by (cases m) (simp_all add: module_key_def)
  then obtain a where a: "map_of (parseHeaderNavModulesFromStatus (Some status)) (js (module_key m)) = Some (Access a)"
    using shape_access [OF parsed_shape(1)] unfolding parseHeaderNavModulesFromStatus_def by blast
  then have l: "{l \<in> set (useTopNavLinks (Some status) authed). tl_title l = module_title m}
      = (if ma_enabled a then {(plain_link (module_title m) (js (''/'' @ module_key m)))\<lparr>requiresAuth := requireAuth a \<and> \<not> authed\<rparr>} else {})"
    unfolding module_link_set by (simp add: access_links_def)
  have "filter (\<lambda>l. tl_title l = ''Console'' \<and> requiresAuth l) (useTopNavLinks (Some status) authed)
      = filter requiresAuth (filter (\<lambda>l. tl_title l = ''Console'') (useTopNavLinks (Some status) authed))"
    by (simp add: conj_commute)
  then have c: "filter (\<lambda>l. tl_title l = ''Console'' \<and> requiresAuth l) (useTopNavLinks (Some status) authed) = []"
    by (simp add: console_links plain_link_def)
  show ?thesis
    unfolding l c by (simp add: beforeLoad_authenticated_def getFreshModuleAccess_def getModuleAccessFromStatus_def a beforeLoad_def Let_def)
qed

text \<open>The guard of the signed-in routes admits exactly a user whose session is verified, before or
  by this request; a session that fails the check loses its user, so that the next attempt does
  not ask the server again.\<close>

lemma authenticated_guard:
  "fst (beforeLoad_authenticated user verified self href) = Admit \<longleftrightarrow> user \<and> (verified \<or> self)"
  "beforeLoad_authenticated user verified self href = (g, u, v) \<Longrightarrow> g = Admit \<longleftrightarrow> u \<and> v"
  by (auto simp: beforeLoad_authenticated_def split: if_splits)

end
