(* ===== verification/SidebarProps.thy ===== *)
theory SidebarProps
  imports NavProps
begin

text \<open>
  The sidebar: a saved configuration is read alike by the sidebar and the guards, flags written as
  texts are not, and the user's own configuration only narrows the administrator's.
\<close>

section \<open>The sidebar as saved\<close>

definition sidebar_ok :: "sidebar_config \<Rightarrow> bool" where
  "sidebar_ok c \<longleftrightarrow> distinct (map fst c)
     \<and> (\<forall>(k, s)\<in>set c. units_ok k \<and> distinct (map fst s) \<and> (\<forall>(m, b)\<in>set s. units_ok m))"

definition section_json :: "section_config \<Rightarrow> jsval" where
  "section_json s = JObj (map (\<lambda>(m, b). (m, JBool b)) s)"

definition enumerated :: "sidebar_config \<Rightarrow> sidebar_config" where
  "enumerated c = own_entries (map (\<lambda>(k, s). (k, own_entries s)) c)"

lemma sidebar_json_section: "sidebar_json c = JObj (map (\<lambda>(k, s). (k, section_json s)) c)"
  by (simp add: sidebar_json_def section_json_def)

lemma section_enumerated: "stringify (section_json (own_entries s)) = stringify (section_json s)"
  unfolding section_json_def own_entries_map [symmetric] by (rule stringify_own)

lemma sidebar_enumerated: "stringify (sidebar_json (enumerated c)) = stringify (sidebar_json c)"
proof -
  have "stringify (sidebar_json (enumerated c)) = stringify (JObj (own_entries (map (\<lambda>(k, s). (k, section_json (own_entries s))) c)))"
    unfolding sidebar_json_section enumerated_def own_entries_map [symmetric] by (simp add: comp_def case_prod_unfold)
  also have "\<dots> = stringify (JObj (map (\<lambda>(k, s). (k, section_json (own_entries s))) c))" by (rule stringify_own)
  also have "\<dots> = stringify (sidebar_json c)"
    by (simp add: sidebar_json_section own_values_def comp_def case_prod_unfold section_enumerated del: stringify.simps(6)
        add: stringify.simps(6))
  finally show ?thesis .
qed

lemma map_fst_map: "map fst (map (\<lambda>(k, v). (k, f k v)) ps) = map fst ps"
  by (induction ps) auto

lemma sidebar_parsed:
  assumes "sidebar_ok c"
  shows "json_parse (serializeSidebarModulesAdmin c) = Some (sidebar_json (enumerated c))"
proof -
  let ?e = "map (\<lambda>(k, s). (k, own_entries s)) c"
  have "json_wf (section_json (own_entries s))" if "(k, s) \<in> set c" for k s
  proof -
    have "distinct (map fst (own_entries s))" "\<forall>(m, b)\<in>set s. units_ok m"
      using assms that by (auto simp: sidebar_ok_def intro: distinct_own_entries)
    moreover have "own_entries (map (\<lambda>(m, b). (m, JBool b)) (own_entries s)) = map (\<lambda>(m, b). (m, JBool b)) (own_entries s)"
      by (simp only: own_entries_map own_entries_idem)
    ultimately show ?thesis unfolding section_json_def json_wf.simps map_fst_map by auto
  qed
  moreover have "distinct (map fst (own_entries ?e))"
    using assms by (intro distinct_own_entries) (simp add: sidebar_ok_def comp_def case_prod_unfold)
  moreover have "own_entries (map (\<lambda>(k, s). (k, section_json s)) (enumerated c)) = map (\<lambda>(k, s). (k, section_json s)) (enumerated c)"
    unfolding enumerated_def by (simp only: own_entries_map own_entries_idem)
  ultimately have "json_wf (sidebar_json (enumerated c))"
    using assms unfolding sidebar_json_section json_wf.simps map_fst_map
    by (auto simp: enumerated_def sidebar_ok_def)
  then have "json_parse (stringify (sidebar_json (enumerated c))) = Some (sidebar_json (enumerated c))"
    by (rule json_parse_stringify)
  then show ?thesis by (simp only: sidebar_enumerated serializeSidebarModulesAdmin_def)
qed

lemma map_of_map_snd: "map_of (map (\<lambda>(k, v). (k, f v)) ps) k = map_option f (map_of ps k)"
  by (induction ps) auto

lemma map_of_enumerated:
  assumes "sidebar_ok c"
  shows "map_of (enumerated c) k = map_option own_entries (map_of c k)"
proof -
  have "distinct (map fst (map (\<lambda>(k, s). (k, own_entries s)) c))"
    using assms by (simp add: sidebar_ok_def comp_def case_prod_unfold)
  then show ?thesis by (simp add: enumerated_def map_of_own_entries map_of_map_snd)
qed

lemma get_prop_section: "get_prop (section_json s) m = map_option JBool (map_of s (js m))"
  by (simp add: section_json_def map_of_map_snd)

lemma get_prop_sidebar:
  assumes "sidebar_ok c"
  shows "get_prop (sidebar_json (enumerated c)) k = map_option (\<lambda>s. section_json (own_entries s)) (map_of c (js k))"
  using assms by (simp add: sidebar_json_section map_of_map_snd map_of_enumerated comp_def option.map_comp)

section \<open>Merging the defaults\<close>

lemma spread_fresh:
  assumes "distinct (map fst ps)"
  shows "map_of (spread_over d (JObj ps)) = map_of d ++ map_of ps"
  using assms by (simp add: spread_over_def own_props_def map_of_puts distinct_own_entries map_of_own_entries)

lemma fill_missing_spec:
  "distinct (map fst d) \<Longrightarrow> map_of (fill_missing x d) = map_of d ++ map_of x"
proof -
  have "map_of (foldl (\<lambda>acc (m, v). if map_of acc m = None then obj_put m v acc else acc) x ds) = map_of ds ++ map_of x"
    if "distinct (map fst ds)" for ds
    using that
  proof (induction ds arbitrary: x)
    case (Cons p ds)
    obtain k v where p: "p = (k, v)" by force
    have "map_of ds k = None" using Cons.prems p by (simp add: map_of_eq_None_iff)
    then show ?case using Cons p by (auto simp: fun_eq_iff map_add_def split: option.splits)
  qed simp
  moreover assume "distinct (map fst d)"
  ultimately show ?thesis by (simp add: fill_missing_def distinct_own_entries map_of_own_entries)
qed

definition merged_section :: "sidebar_obj \<Rightarrow> jsval option \<Rightarrow> sidebar_obj" where
  "merged_section d existing =
     (if truthy_opt existing then fill_missing (spread_over d (the existing)) d else d)"

lemma merge_section_eq: "merge_section r (k, d) = obj_put k (JObj (merged_section d (map_of r k))) r"
  by (simp add: merge_section_def merged_section_def)

lemma sections_merged:
  "distinct (map fst ds) \<Longrightarrow>
   map_of (foldl merge_section r ds) k
     = (case map_of ds k of None \<Rightarrow> map_of r k | Some d \<Rightarrow> Some (JObj (merged_section d (map_of r k))))"
proof (induction ds arbitrary: r)
  case (Cons p ds)
  obtain k' d where p: "p = (k', d)" by force
  have "map_of ds k' = None" using Cons.prems p by (simp add: map_of_eq_None_iff)
  then show ?case using Cons p by (auto simp: merge_section_eq split: option.splits)
qed simp

lemma default_sections: "distinct (map fst DEFAULT_SIDEBAR_MODULES)" "own_entries DEFAULT_SIDEBAR_MODULES = DEFAULT_SIDEBAR_MODULES"
  by code_simp+

lemma merged_read:
  assumes "map_of DEFAULT_SIDEBAR_MODULES k = Some d"
  shows "map_of (mergeWithDefaultSidebarModules config) k
     = Some (JObj (merged_section d (map_of (spread_over [] config) k)))"
  using assms by (simp add: mergeWithDefaultSidebarModules_def default_sections sections_merged)

text \<open>What the defaults say of the modules that have an address.\<close>

lemma url_defaults:
  "\<forall>(u, s, m)\<in>set URL_TO_CONFIG_MAP. case map_of DEFAULT_SIDEBAR_MODULES (js s) of None \<Rightarrow> False
     | Some d \<Rightarrow> distinct (map fst d) \<and> map_of d (js m) = Some (JBool True) \<and> map_of d (js ''enabled'') = Some (JBool True)
         \<and> m \<noteq> ''enabled''"
  by code_simp

section \<open>Three readers of one configuration\<close>

text \<open>What a saved configuration says of a module.\<close>

definition module_on :: "sidebar_config \<Rightarrow> string \<Rightarrow> string \<Rightarrow> bool" where
  "module_on c s m \<longleftrightarrow>
     (case map_of c (js s) of None \<Rightarrow> True
      | Some sec \<Rightarrow> map_of sec (js ''enabled'') \<noteq> Some False \<and> map_of sec (js m) \<noteq> Some False)"

lemma sidebar_text: "serializeSidebarModulesAdmin c \<noteq> []" "trim (serializeSidebarModulesAdmin c) \<noteq> []"
  unfolding serializeSidebarModulesAdmin_def sidebar_json_section by (rule stringify_obj_text)+

lemma own_props_sidebar: "sidebar_ok c \<Longrightarrow> map_of (spread_over [] (sidebar_json c)) k = map_option section_json (map_of c k)"
proof -
  assume "sidebar_ok c"
  then have "distinct (map fst (map (\<lambda>(k, s). (k, section_json s)) c))" unfolding map_fst_map by (simp add: sidebar_ok_def)
  then show ?thesis by (simp add: sidebar_json_section spread_fresh map_of_map_snd)
qed

lemma enumerated_ok: "sidebar_ok c \<Longrightarrow> sidebar_ok (enumerated c)"
proof -
  assume c: "sidebar_ok c"
  have "distinct (map fst (enumerated c))"
    using c unfolding enumerated_def by (intro distinct_own_entries) (simp only: map_fst_map sidebar_ok_def)
  moreover have "\<forall>(k, s)\<in>set (enumerated c). units_ok k \<and> distinct (map fst s) \<and> (\<forall>(m, b)\<in>set s. units_ok m)"
  proof -
    have "units_ok k \<and> distinct (map fst (own_entries s)) \<and> (\<forall>(m, b)\<in>set (own_entries s). units_ok m)"
      if "(k, s) \<in> set c" for k s
      using bspec [OF conjunct2 [OF c [unfolded sidebar_ok_def]] that] by (simp add: distinct_own_entries)
    then show ?thesis by (fastforce simp: enumerated_def)
  qed
  ultimately show ?thesis by (simp add: sidebar_ok_def)
qed

lemma admin_reads:
  assumes "sidebar_ok c" and "(u, s, m) \<in> set URL_TO_CONFIG_MAP"
  shows "adminAllowed (parseSidebarConfig (Some (serializeSidebarModulesAdmin c))) s m = module_on c s m"
proof -
  obtain d where d: "map_of DEFAULT_SIDEBAR_MODULES (js s) = Some d" "distinct (map fst d)"
    "map_of d (js m) = Some (JBool True)" "map_of d (js ''enabled'') = Some (JBool True)"
    using url_defaults assms(2) by (fastforce split: option.splits)
  have "parseSidebarConfig (Some (serializeSidebarModulesAdmin c)) = mergeWithDefaultSidebarModules (sidebar_json (enumerated c))"
    using sidebar_text sidebar_parsed [OF assms(1)] by (simp add: parseSidebarConfig_def)
  then have r: "map_of (parseSidebarConfig (Some (serializeSidebarModulesAdmin c))) (js s)
      = Some (JObj (merged_section d (map_option section_json (map_option own_entries (map_of c (js s))))))"
    using merged_read [OF d(1)] own_props_sidebar [OF enumerated_ok [OF assms(1)]] map_of_enumerated [OF assms(1)] by simp
  show ?thesis
  proof (cases "map_of c (js s)")
    case None
    then show ?thesis using r d by (simp add: adminAllowed_def merged_section_def truthy_opt_def module_on_def)
  next
    case (Some sec)
    then have "distinct (map fst sec)" using assms(1) by (auto simp: sidebar_ok_def dest!: map_of_SomeD)
    then have sec: "distinct (map fst (map (\<lambda>(m, b). (m, JBool b)) (own_entries sec)))" "map_of (own_entries sec) = map_of sec"
      unfolding map_fst_map by (auto intro: distinct_own_entries map_of_own_entries)
    have "map_of (spread_over d (section_json (own_entries sec))) = map_of d ++ (\<lambda>k. map_option JBool (map_of sec k))"
      unfolding section_json_def spread_fresh [OF sec(1)] by (simp add: map_of_map_snd sec(2) map_add_def)
    then have "map_of (merged_section d (Some (section_json (own_entries sec)))) k
        = (map_of d ++ (\<lambda>k. map_option JBool (map_of sec k))) k" for k
      using d(2) by (simp add: merged_section_def truthy_opt_def section_json_def fill_missing_spec)
        (auto simp: map_add_def split: option.splits)
    then show ?thesis using r d Some
      by (auto simp: adminAllowed_def module_on_def truthy_opt_def map_add_def split: option.splits)
  qed
qed

lemma guard_reads:
  assumes "sidebar_ok c" and "getCachedStatus stored = Some status"
    and "get_prop status ''SidebarModulesAdmin'' = Some (JStr (serializeSidebarModulesAdmin c))"
  shows "isSidebarModuleEnabled stored s m = module_on c s m"
proof -
  have "truthy status" using assms(3) by (cases status) (auto simp: get_prop_def)
  moreover have "truthy (section_json t)" for t by (simp add: section_json_def)
  moreover have "map_of (own_entries sec) = map_of sec" if "map_of c k = Some sec" for k sec
    using that assms(1) by (auto simp: sidebar_ok_def intro!: map_of_own_entries dest!: map_of_SomeD)
  ultimately show ?thesis
    using assms(2,3) sidebar_text [of c] sidebar_parsed [OF assms(1)] get_prop_sidebar [OF assms(1), of s]
    by (auto simp: isSidebarModuleEnabled_def module_on_def get_prop_section split: option.splits)
qed

text \<open>C25 The sidebar and the guard of the routes read a saved configuration alike: the item of a module
  is shown exactly when the guard admits, and both unless the section or the module was switched off.\<close>

theorem sidebar_matches_guard:
  assumes "sidebar_ok c" and "map_of URL_TO_CONFIG_MAP url = Some (s, m)" and "getCachedStatus stored = Some status"
    and "get_prop status ''SidebarModulesAdmin'' = Some (JStr (serializeSidebarModulesAdmin c))"
  shows "isModuleEnabled url (parseSidebarConfig (Some (serializeSidebarModulesAdmin c))) None
       = isSidebarModuleEnabled stored s m
     \<and> isSidebarModuleEnabled stored s m = module_on c s m"
  using admin_reads [OF assms(1) map_of_SomeD [OF assms(2)]] guard_reads [OF assms(1,3,4)] assms(2)
  by (simp add: isModuleEnabled_def userAllowed_def)

lemma sidebar_matches_guard_witness:
  "isModuleEnabled (js ''/playground'') (parseSidebarConfig (Some (serializeSidebarModulesAdmin
       [(js ''chat'', [(js ''enabled'', True), (js ''playground'', False)])]))) None
     = isSidebarModuleEnabled (Some (stringify (JObj [(js ''SidebarModulesAdmin'', JStr (serializeSidebarModulesAdmin
       [(js ''chat'', [(js ''enabled'', True), (js ''playground'', False)])]))]))) ''chat'' ''playground''
   \<and> isSidebarModuleEnabled (Some (stringify (JObj [(js ''SidebarModulesAdmin'', JStr (serializeSidebarModulesAdmin
       [(js ''chat'', [(js ''enabled'', True), (js ''playground'', False)])]))]))) ''chat'' ''playground''
     = module_on [(js ''chat'', [(js ''enabled'', True), (js ''playground'', False)])] ''chat'' ''playground''"
proof (rule sidebar_matches_guard)
  show "getCachedStatus (Some (stringify (JObj [(js ''SidebarModulesAdmin'', JStr (serializeSidebarModulesAdmin
       [(js ''chat'', [(js ''enabled'', True), (js ''playground'', False)])]))])))
     = Some (JObj [(js ''SidebarModulesAdmin'', JStr (serializeSidebarModulesAdmin
       [(js ''chat'', [(js ''enabled'', True), (js ''playground'', False)])]))])" by code_simp
  show "sidebar_ok [(js ''chat'', [(js ''enabled'', True), (js ''playground'', False)])]" by code_simp
  show "map_of URL_TO_CONFIG_MAP (js ''/playground'') = Some (''chat'', ''playground'')" by code_simp
qed simp

section \<open>Flags written as texts\<close>

lemma own_entries_single [simp]: "own_entries [p] = [p]"
  by (cases p) (simp add: own_entries_def)

definition flag_text :: "string \<Rightarrow> string \<Rightarrow> bool \<Rightarrow> jstr" where
  "flag_text s m b = stringify (JObj [(js s, JObj [(js m, JStr (if b then js ''true'' else js ''false''))])])"

lemma flag_parsed: "json_parse (flag_text s m b) = Some (JObj [(js s, JObj [(js m, JStr (if b then js ''true'' else js ''false''))])])"
  unfolding flag_text_def by (rule json_parse_stringify) (simp add: units_ok_js)

lemma flag_text_nonempty: "flag_text s m b \<noteq> []" "trim (flag_text s m b) \<noteq> []"
  unfolding flag_text_def by (rule stringify_obj_text)+

lemma toBoolean_text: "toBoolean (Some (JStr (if b then js ''true'' else js ''false''))) d = b"
  by (cases b) (simp_all add: toBoolean_def trim_id trimmed_def lower_ascii_def js_eval is_ws_def)

lemma settings_section:
  "m \<noteq> ''enabled'' \<Longrightarrow>
   map_of (section_of d (JObj [(js m, JStr (if b then js ''true'' else js ''false''))])) (js m) = Some b"
  by (simp add: section_of_def own_props_def toBoolean_text)

lemma fill_modules_keeps: "map_of cfg k = Some b \<Longrightarrow> map_of (fill_modules cfg d) k = Some b"
proof -
  have "map_of (foldl (\<lambda>acc (m, b). if m \<in> fst ` set acc then acc else obj_put m b acc) cfg ds) k = Some b"
    if "map_of cfg k = Some b" for ds
    using that
  proof (induction ds arbitrary: cfg)
    case (Cons p ds)
    obtain m v where p: "p = (m, v)" by force
    have "map_of (if m \<in> fst ` set cfg then cfg else obj_put m v cfg) k = Some b"
      using Cons.prems image_eqI [of k fst "(k, b)" "set cfg"] by (auto dest: map_of_SomeD)
    from Cons.IH [OF this] show ?case by (simp add: p)
  qed simp
  moreover assume "map_of cfg k = Some b"
  ultimately show ?thesis by (simp add: fill_modules_def)
qed

lemma merge_default_keeps:
  assumes "map_of r s = Some cfg" and "map_of cfg k = Some b"
  shows "\<exists>cfg'. map_of (foldl merge_default r ds) s = Some cfg' \<and> map_of cfg' k = Some b"
  using assms
proof (induction ds arbitrary: r cfg)
  case (Cons p ds)
  obtain s' d where p: "p = (s', d)" by force
  have "\<exists>cfg'. map_of (merge_default r (s', d)) s = Some cfg' \<and> map_of cfg' k = Some b"
    using Cons.prems by (auto simp: merge_default_def fill_modules_keeps split: option.splits)
  then show ?case using Cons.IH p by auto
qed simp

text \<open>C26 A flag of the sidebar that is stored as the text \<open>"true"\<close> or \<open>"false"\<close> is read in three ways: the
  settings show what it says, the sidebar hides the module, and the guard of its route admits.\<close>

theorem text_flags_diverge:
  assumes "map_of URL_TO_CONFIG_MAP url = Some (s, m)" and "getCachedStatus stored = Some status"
    and "get_prop status ''SidebarModulesAdmin'' = Some (JStr (flag_text s m b))"
  shows "(\<exists>sec. map_of (parseSidebarModulesAdmin (Some (flag_text s m b))) (js s) = Some sec \<and> map_of sec (js m) = Some b)
     \<and> \<not> isModuleEnabled url (parseSidebarConfig (Some (flag_text s m b))) user
     \<and> isSidebarModuleEnabled stored s m"
proof (intro conjI)
  obtain d where d: "map_of DEFAULT_SIDEBAR_MODULES (js s) = Some d" "distinct (map fst d)" "m \<noteq> ''enabled''"
    using url_defaults map_of_SomeD [OF assms(1)] by (fastforce split: option.splits)
  have "map_of (sidebar_entry [] (js s, JObj [(js m, JStr (if b then js ''true'' else js ''false''))])) (js s)
      = Some (section_of (case map_of SIDEBAR_MODULES_DEFAULT (js s) of Some d \<Rightarrow> d | None \<Rightarrow> [(js ''enabled'', True)])
          (JObj [(js m, JStr (if b then js ''true'' else js ''false''))]))"
    by (simp add: sidebar_entry_def is_scalar_def)
  from merge_default_keeps [OF this settings_section [OF d(3)]]
  show "\<exists>sec. map_of (parseSidebarModulesAdmin (Some (flag_text s m b))) (js s) = Some sec \<and> map_of sec (js m) = Some b"
    using flag_text_nonempty [of s m b] flag_parsed [of s m b] by (simp add: parseSidebarModulesAdmin_def own_props_def)
  have "map_of (parseSidebarConfig (Some (flag_text s m b))) (js s)
      = Some (JObj (merged_section d (Some (JObj [(js m, JStr (if b then js ''true'' else js ''false''))]))))"
    using flag_text_nonempty [of s m b] flag_parsed [of s m b] merged_read [OF d(1)]
    by (simp add: parseSidebarConfig_def spread_over_def own_props_def)
  moreover have "map_of (merged_section d (Some (JObj [(js m, v)]))) (js m) = Some v" for v
    using d(2) by (simp add: merged_section_def truthy_opt_def fill_missing_spec spread_fresh)
  ultimately show "\<not> isModuleEnabled url (parseSidebarConfig (Some (flag_text s m b))) user"
    using assms(1) by (simp add: isModuleEnabled_def adminAllowed_def)
  have "truthy status" using assms(3) by (cases status) (auto simp: get_prop_def)
  then show "isSidebarModuleEnabled stored s m"
    using assms(2,3) flag_text_nonempty [of s m b] flag_parsed [of s m b] d(3)
    by (simp add: isSidebarModuleEnabled_def)
qed

lemma text_flags_diverge_witness:
  "(\<exists>sec. map_of (parseSidebarModulesAdmin (Some (flag_text ''chat'' ''playground'' False))) (js ''chat'') = Some sec
      \<and> map_of sec (js ''playground'') = Some False)
   \<and> \<not> isModuleEnabled (js ''/playground'') (parseSidebarConfig (Some (flag_text ''chat'' ''playground'' False))) None
   \<and> isSidebarModuleEnabled (Some (stringify (JObj [(js ''SidebarModulesAdmin'', JStr (flag_text ''chat'' ''playground'' False))])))
        ''chat'' ''playground''"
proof (rule text_flags_diverge)
  show "getCachedStatus (Some (stringify (JObj [(js ''SidebarModulesAdmin'', JStr (flag_text ''chat'' ''playground'' False))])))
     = Some (JObj [(js ''SidebarModulesAdmin'', JStr (flag_text ''chat'' ''playground'' False))])" by code_simp
  show "map_of URL_TO_CONFIG_MAP (js ''/playground'') = Some (''chat'', ''playground'')" by code_simp
qed simp

text \<open>Numbers, too, are read in two ways.\<close>

lemma number_flags_diverge:
  "toBoolean v d \<noteq> parseHeaderNavBoolean v d \<longleftrightarrow> d \<and> (\<exists>n. v = Some (JNum n) \<and> n \<noteq> Fin 0 \<and> n \<noteq> Fin 1)"
  by (auto simp: toBoolean_def parseHeaderNavBoolean_def Let_def split: option.splits jsval.splits)

section \<open>The user's own configuration\<close>

lemma user_only_hides: "isModuleEnabled url admin user \<Longrightarrow> isModuleEnabled url admin None"
  by (auto simp: isModuleEnabled_def userAllowed_def split: option.splits if_splits)

lemma visible_only_hides: "isNavItemVisible admin user item \<Longrightarrow> isNavItemVisible admin None item"
  by (cases item) (auto simp: userAllowed_def list_ex_iff split: option.splits if_splits intro: user_only_hides)

lemma visible_filtered: "isNavItemVisible admin user (filter_subitems admin user item) = isNavItemVisible admin user item"
  by (cases item) (auto simp: list_ex_iff)

lemma filter_subitems_both: "filter_subitems admin user (filter_subitems admin None item) = filter_subitems admin user item"
  by (cases item) (auto intro!: filter_cong dest: user_only_hides)

definition admitted :: "sidebar_obj \<Rightarrow> jsval option \<Rightarrow> nav_item \<Rightarrow> bool" where
  "admitted admin user item \<longleftrightarrow>
     (case item of
        NavCollapsible t subs \<Rightarrow> subs \<noteq> [] \<and> list_all (\<lambda>(_, u). isModuleEnabled u admin user) subs
      | _ \<Rightarrow> isNavItemVisible admin user item)"

lemma filterNavItems_eq:
  "filterNavItems items admin user = map (filter_subitems admin user) (filter (isNavItemVisible admin user) items)"
  by (simp add: filterNavItems_def filter_map comp_def visible_filtered)

text \<open>C27 The user's configuration only narrows the administrator's: filtering by both is filtering what
  the administrator's alone admits once more, and what remains are items with an admitted address,
  collapsible ones with at least one entry and admitted entries only.\<close>

theorem user_narrows:
  "filterNavItems items admin user = filterNavItems (filterNavItems items admin None) admin user
   \<and> list_all (admitted admin user) (filterNavItems items admin user)"
proof (intro conjI)
  have v: "isNavItemVisible admin user (filter_subitems admin None i) = isNavItemVisible admin user i" for i
    by (cases i) (auto simp: list_ex_iff dest: user_only_hides)
  have "filter (isNavItemVisible admin user) (filter (isNavItemVisible admin None) items) = filter (isNavItemVisible admin user) items"
    by (auto intro!: filter_cong dest: visible_only_hides simp: filter_filter)
  then show "filterNavItems items admin user = filterNavItems (filterNavItems items admin None) admin user"
    by (simp add: filterNavItems_eq filter_map comp_def v filter_subitems_both)
  have "admitted admin user (filter_subitems admin user i)" if "isNavItemVisible admin user i" for i
    using that by (cases i) (auto simp: admitted_def list_ex_iff list_all_iff filter_empty_conv)
  then show "list_all (admitted admin user) (filterNavItems items admin user)"
    by (auto simp: filterNavItems_eq list_all_iff)
qed

end
