(* ===== verification/Passkey.thy ===== *)
theory Passkey
  imports JsJson "HOL-Library.Word"
begin

text \<open>
  Passkeys (\<open>lib/passkey.ts\<close> and \<open>verifyPasskey\<close> of \<open>features/auth/secure-verification/api.ts\<close>):
  buffers as base64url texts, the options given to the browser and the payloads sent back, and the
  ceremony of a verification with its requests in order. A buffer is a list of bytes. The browser has
  \<open>atob\<close> and \<open>btoa\<close>, which are modelled as the HTML standard defines them; the fallback to Node's
  buffers is not. Texts of the server that stand for buffers are strings or absent. \<open>None\<close> stands
  for a text that cannot be decoded.
\<close>

section \<open>Base 64\<close>

definition b64_char :: "nat \<Rightarrow> cunit" where
  "b64_char n =
     (if n < 26 then 65 + n else if n < 52 then 71 + n else if n < 62 then n - 4 else if n = 62 then 43 else 47)"

definition b64_val :: "cunit \<Rightarrow> nat option" where
  "b64_val c =
     (if 65 \<le> c \<and> c \<le> 90 then Some (c - 65) else if 97 \<le> c \<and> c \<le> 122 then Some (c - 71)
      else if 48 \<le> c \<and> c \<le> 57 then Some (c + 4) else if c = 43 then Some 62 else if c = 47 then Some 63 else None)"

fun b64_groups :: "jstr \<Rightarrow> jstr" where
  "b64_groups [] = []"
| "b64_groups [a] = [b64_char (a div 4), b64_char (a mod 4 * 16), 61, 61]"
| "b64_groups [a, b] = [b64_char (a div 4), b64_char (a mod 4 * 16 + b div 16), b64_char (b mod 16 * 4), 61]"
| "b64_groups (a # b # c # r) =
     [b64_char (a div 4), b64_char (a mod 4 * 16 + b div 16), b64_char (b mod 16 * 4 + c div 64), b64_char (c mod 64)]
     @ b64_groups r"

definition btoa :: "jstr \<Rightarrow> jstr option" where
  "btoa s = (if list_all (\<lambda>c. c < 256) s then Some (b64_groups s) else None)"

fun b64_bytes :: "nat list \<Rightarrow> jstr" where
  "b64_bytes (a # b # c # d # r) = [a * 4 + b div 16, b mod 16 * 16 + c div 4, c mod 4 * 64 + d] @ b64_bytes r"
| "b64_bytes [a, b, c] = [a * 4 + b div 16, b mod 16 * 16 + c div 4]"
| "b64_bytes [a, b] = [a * 4 + b div 16]"
| "b64_bytes _ = []"

definition ascii_ws :: "cunit \<Rightarrow> bool" where
  "ascii_ws c \<longleftrightarrow> c \<in> {9, 10, 12, 13, 32}"

text \<open>One or two \<open>=\<close> at the end of a text whose length is a multiple of four.\<close>

definition drop_padding :: "jstr \<Rightarrow> jstr" where
  "drop_padding s =
     (if length s mod 4 \<noteq> 0 then s
      else if 2 \<le> length s \<and> drop (length s - 2) s = [61, 61] then take (length s - 2) s
      else if 1 \<le> length s \<and> drop (length s - 1) s = [61] then take (length s - 1) s
      else s)"

definition atob :: "jstr \<Rightarrow> jstr option" where
  "atob s =
     (let t = drop_padding (filter (\<lambda>c. \<not> ascii_ws c) s) in
      if length t mod 4 = 1 then None
      else map_option b64_bytes (those (map b64_val t)))"

section \<open>Buffers\<close>

type_synonym bytes = "8 word list"

definition base64UrlToArrayBuffer :: "jstr option \<Rightarrow> bytes option" where
  "base64UrlToArrayBuffer value =
     (if \<not> truthy_str value then Some []
      else let v = the value;
               padding = replicate ((4 - length v mod 4) mod 4) 61;
               base64 = map (\<lambda>c. if c = 95 then 47 else c) (map (\<lambda>c. if c = 45 then 43 else c) (v @ padding))
           in map_option (map of_nat) (atob base64))"

definition strip_equals :: "jstr \<Rightarrow> jstr" where
  "strip_equals s = rev (dropWhile (\<lambda>c. c = 61) (rev s))"

definition arrayBufferToBase64Url :: "bytes option \<Rightarrow> jstr" where
  "arrayBufferToBase64Url buffer =
     (case buffer of
        None \<Rightarrow> []
      | Some bs \<Rightarrow>
          (case btoa (map unat bs) of
             None \<Rightarrow> []
           | Some t \<Rightarrow> strip_equals (map (\<lambda>c. if c = 47 then 95 else c) (map (\<lambda>c. if c = 43 then 45 else c) t))))"

section \<open>Options and payloads\<close>

text \<open>Errors: the two exceptions of the browser the code knows, those with a text of the code or the
  server, and all others (a text that is no base 64, a property of \<open>null\<close>).\<close>

datatype verify_error = NotAllowed | InvalidState | Message jstr | OtherError


text \<open>Values that hold buffers beside JSON values.\<close>

datatype pkval =
  PJson jsval
| PBuf bytes
| PObj "(jstr \<times> pkval) list"
| PArr "pkval list"

definition nullish :: "jsval option \<Rightarrow> bool" where
  "nullish v \<longleftrightarrow> v = None \<or> v = Some JNull"

definition payload_options :: "jsval \<Rightarrow> jsval option" where
  "payload_options payload =
     (let a = get_prop payload ''publicKey''; b = get_prop payload ''PublicKey''; c = get_prop payload ''response'';
          r = (if \<not> nullish a then a else if \<not> nullish b then b else if \<not> nullish c then c
               else get_prop payload ''Response'')
      in if truthy_opt r then r else None)"

definition buffer_text :: "jsval option \<Rightarrow> jstr option" where
  "buffer_text v = (case v of Some (JStr s) \<Rightarrow> Some s | _ \<Rightarrow> None)"

definition spread_json :: "jsval \<Rightarrow> (jstr \<times> pkval) list" where
  "spread_json v = map (\<lambda>(k, x). (k, PJson x)) (spread_over [] v)"

text \<open>\<open>{ ...item, id: base64UrlToArrayBuffer(item.id) }\<close>; \<open>null\<close> has no \<open>id\<close>.\<close>

definition with_id :: "jsval \<Rightarrow> pkval option" where
  "with_id item =
     (if item = JNull then None
      else map_option (\<lambda>b. PObj (obj_put (js ''id'') (PBuf b) (spread_json item)))
             (base64UrlToArrayBuffer (buffer_text (get_prop item ''id''))))"

definition credential_list :: "string \<Rightarrow> jsval \<Rightarrow> (jstr \<times> pkval) list \<Rightarrow> verify_error + (jstr \<times> pkval) list" where
  "credential_list k options pk =
     (case get_prop options k of
        Some (JArr items) \<Rightarrow>
          (case those (map with_id items) of Some xs \<Rightarrow> Inr (obj_put (js k) (PArr xs) pk) | None \<Rightarrow> Inl OtherError)
      | _ \<Rightarrow> Inr pk)"

definition prepareCredentialCreationOptions :: "jsval \<Rightarrow> verify_error + (jstr \<times> pkval) list" where
  "prepareCredentialCreationOptions payload =
     (case payload_options payload of
        None \<Rightarrow> Inl (Message (js ''Unable to parse Passkey registration options from response''))
      | Some options \<Rightarrow>
          (case (base64UrlToArrayBuffer (buffer_text (get_prop options ''challenge'')),
                 base64UrlToArrayBuffer (buffer_text (get_prop_opt (get_prop options ''user'') ''id''))) of
             (Some challenge, Some uid) \<Rightarrow>
               map_sum id
                 (\<lambda>pk. if get_prop options ''attestationFormats'' = Some (JArr [])
                       then obj_del (js ''attestationFormats'') pk else pk)
                 (credential_list ''excludeCredentials'' options
                    (obj_put (js ''user'') (PObj (obj_put (js ''id'') (PBuf uid)
                         (case get_prop options ''user'' of None \<Rightarrow> [] | Some u \<Rightarrow> spread_json u)))
                      (obj_put (js ''challenge'') (PBuf challenge) (spread_json options))))
           | _ \<Rightarrow> Inl OtherError))"

definition prepareCredentialRequestOptions :: "jsval \<Rightarrow> verify_error + (jstr \<times> pkval) list" where
  "prepareCredentialRequestOptions payload =
     (case payload_options payload of
        None \<Rightarrow> Inl (Message (js ''Unable to parse Passkey login options from response''))
      | Some options \<Rightarrow>
          (case base64UrlToArrayBuffer (buffer_text (get_prop options ''challenge'')) of
             Some challenge \<Rightarrow>
               credential_list ''allowCredentials'' options
                 (obj_put (js ''challenge'') (PBuf challenge) (spread_json options))
           | None \<Rightarrow> Inl OtherError))"

text \<open>A credential of the browser, with an assertion's or an attestation's response.\<close>

record assertion =
  authenticatorData :: "bytes option"
  as_clientDataJSON :: "bytes option"
  signature :: "bytes option"
  userHandle :: "bytes option"

record attestation =
  attestationObject :: "bytes option"
  at_clientDataJSON :: "bytes option"
  transports :: "jstr list option"

record 'r credential =
  cr_id :: jstr
  rawId :: "bytes option"
  cr_type :: jstr
  authenticatorAttachment :: "jstr option"
  cr_response :: 'r
  extensionResults :: "jsval option"

definition opt_json :: "jstr option \<Rightarrow> jsval" where
  "opt_json v = (case v of Some s \<Rightarrow> JStr s | None \<Rightarrow> JNull)"

definition credential_payload :: "'r credential \<Rightarrow> (jstr \<times> jsval) list \<Rightarrow> jsval" where
  "credential_payload c response = JObj
     [(js ''id'', JStr (cr_id c)), (js ''rawId'', JStr (arrayBufferToBase64Url (rawId c))), (js ''type'', JStr (cr_type c)),
      (js ''authenticatorAttachment'', opt_json (authenticatorAttachment c)), (js ''response'', JObj response),
      (js ''clientExtensionResults'', case extensionResults c of Some v \<Rightarrow> v | None \<Rightarrow> JObj [])]"

text \<open>An undefined list of transports is a property the payload leaves out.\<close>

definition buildRegistrationResult :: "attestation credential option \<Rightarrow> jsval option" where
  "buildRegistrationResult credential =
     map_option (\<lambda>c. let r = cr_response c in
        credential_payload c
          ([(js ''attestationObject'', JStr (arrayBufferToBase64Url (attestationObject r))),
            (js ''clientDataJSON'', JStr (arrayBufferToBase64Url (at_clientDataJSON r)))]
           @ (case transports r of Some ts \<Rightarrow> [(js ''transports'', JArr (map JStr ts))] | None \<Rightarrow> [])))
       credential"

definition buildAssertionResult :: "assertion credential option \<Rightarrow> jsval option" where
  "buildAssertionResult credential =
     map_option (\<lambda>c. let r = cr_response c in
        credential_payload c
          [(js ''authenticatorData'', JStr (arrayBufferToBase64Url (authenticatorData r))),
           (js ''clientDataJSON'', JStr (arrayBufferToBase64Url (as_clientDataJSON r))),
           (js ''signature'', JStr (arrayBufferToBase64Url (signature r))),
           (js ''userHandle'', case userHandle r of Some b \<Rightarrow> JStr (arrayBufferToBase64Url (Some b)) | None \<Rightarrow> JNull)])
       credential"

section \<open>Support\<close>

text \<open>The browser's two checks: \<open>None\<close> when there is no such function, \<open>Some None\<close> when its promise is
  rejected.\<close>

record browser =
  has_window :: bool
  has_credential :: bool
  conditional_mediation :: "bool option option"
  platform_authenticator :: "bool option option"

definition isPasskeySupported :: "browser \<Rightarrow> bool" where
  "isPasskeySupported w =
     (if \<not> has_window w then False
      else if \<not> has_credential w then False
      else if conditional_mediation w = Some (Some True) then True
      else case platform_authenticator w of
          Some (Some b) \<Rightarrow> b
        | Some None \<Rightarrow> False
        | None \<Rightarrow> True)"

section \<open>The ceremony\<close>

text \<open>What the environment answers; the right side of a sum is the answer, the left an error.\<close>

record ceremony =
  has_credentials :: bool
  begin_answer :: "verify_error + jsval"
  get_answer :: "(jstr \<times> pkval) list \<Rightarrow> verify_error + assertion credential option"
  finish_answer :: "jsval \<Rightarrow> verify_error + jsval"
  verify_answer :: "verify_error + jsval"

datatype request =
  Begin
| AskBrowser "(jstr \<times> pkval) list"
| Finish jsval
| PostVerify

definition message_or :: "jsval option \<Rightarrow> string \<Rightarrow> verify_error" where
  "message_or v d = (if truthy_opt v then Message (to_str (the v)) else Message (js d))"

definition translate_error :: "verify_error \<Rightarrow> verify_error" where
  "translate_error e =
     (case e of
        NotAllowed \<Rightarrow> Message (js ''Passkey verification was cancelled or timed out'')
      | InvalidState \<Rightarrow> Message (js ''Passkey verification is not available in the current state'')
      | _ \<Rightarrow> e)"

text \<open>\<open>beginResponse.data?.options ?? beginResponse.data\<close>.\<close>

definition begin_payload :: "jsval \<Rightarrow> jsval option" where
  "begin_payload r =
     (let d = get_prop r ''data''; o1 = get_prop_opt d ''options'' in if nullish o1 then d else o1)"

definition after_finish :: "ceremony \<Rightarrow> request list \<Rightarrow> request list \<times> verify_error option" where
  "after_finish env tr =
     (case verify_answer env of
        Inl e \<Rightarrow> (tr @ [PostVerify], Some e)
      | Inr r \<Rightarrow>
          if truthy_opt (get_prop_opt (get_prop r ''data'') ''success'') then (tr @ [PostVerify], None)
          else (tr @ [PostVerify], Some (message_or (get_prop_opt (get_prop r ''data'') ''message'') ''Failed to complete verification'')))"

definition after_credential :: "ceremony \<Rightarrow> request list \<Rightarrow> assertion credential \<Rightarrow> request list \<times> verify_error option" where
  "after_credential env tr c =
     (case buildAssertionResult (Some c) of
        None \<Rightarrow> (tr, Some (Message (js ''Unable to build Passkey assertion'')))
      | Some a \<Rightarrow>
          (case finish_answer env a of
             Inl e \<Rightarrow> (tr @ [Finish a], Some e)
           | Inr r \<Rightarrow>
               if truthy_opt (get_prop r ''success'') then after_finish env (tr @ [Finish a])
               else (tr @ [Finish a], Some (message_or (get_prop r ''message'') ''Passkey verification failed''))))"

definition after_begin :: "ceremony \<Rightarrow> jsval \<Rightarrow> request list \<times> verify_error option" where
  "after_begin env r =
     (if \<not> truthy_opt (get_prop r ''success'')
      then ([Begin], Some (message_or (get_prop r ''message'') ''Failed to start verification''))
      else case prepareCredentialRequestOptions (case begin_payload r of Some p \<Rightarrow> p | None \<Rightarrow> JNull) of
          Inl e \<Rightarrow> ([Begin], Some e)
        | Inr pk \<Rightarrow>
            (case get_answer env pk of
               Inl e \<Rightarrow> ([Begin, AskBrowser pk], Some e)
             | Inr None \<Rightarrow> ([Begin, AskBrowser pk], Some (Message (js ''Passkey verification was cancelled'')))
             | Inr (Some c) \<Rightarrow> after_credential env [Begin, AskBrowser pk] c))"

text \<open>The requests made and the error thrown, if any.\<close>

definition verifyPasskey :: "ceremony \<Rightarrow> request list \<times> verify_error option" where
  "verifyPasskey env =
     (if \<not> has_credentials env
      then ([], Some (Message (js ''Passkey verification is not supported in this environment'')))
      else map_prod id (map_option translate_error)
             (case begin_answer env of Inl e \<Rightarrow> ([Begin], Some e) | Inr r \<Rightarrow> after_begin env r))"

section \<open>Managing the passkey of an account\<close>

text \<open>\<open>features/auth/passkey/hooks/use-passkey-management.ts\<close>. A message shown is a text or the message of
  an error.\<close>

record manager =
  pm_status :: "jsval option"
  pm_loading :: bool
  pm_registering :: bool
  pm_removing :: bool
  pm_supported :: bool

datatype notice = Said jstr | SaidError verify_error

definition initial_manager :: manager where
  "initial_manager = \<lparr>pm_status = None, pm_loading = True, pm_registering = False, pm_removing = False,
                      pm_supported = False\<rparr>"

definition said_or :: "jsval option \<Rightarrow> string \<Rightarrow> notice" where
  "said_or v d = (if truthy_opt v then Said (to_str (the v)) else Said (js d))"

definition status_or_null :: "jsval option \<Rightarrow> jsval option" where
  "status_or_null v = (if nullish v then None else v)"

text \<open>\<open>setLoading(true)\<close> is undone by the \<open>finally\<close> block.\<close>

definition fetchStatus :: "verify_error + jsval \<Rightarrow> manager \<Rightarrow> notice list \<times> manager" where
  "fetchStatus answer m =
     (case answer of
        Inl e \<Rightarrow> ([Said (js ''Failed to load Passkey status'')], m\<lparr>pm_status := None, pm_loading := False\<rparr>)
      | Inr res \<Rightarrow>
          if truthy_opt (get_prop res ''success'')
          then ([], m\<lparr>pm_status := status_or_null (get_prop res ''data''), pm_loading := False\<rparr>)
          else ([said_or (get_prop res ''message'') ''Failed to load Passkey status''],
                m\<lparr>pm_status := None, pm_loading := False\<rparr>))"

record registration =
  rg_credentials :: bool
  rg_begin :: "verify_error + jsval"
  rg_create :: "(jstr \<times> pkval) list \<Rightarrow> verify_error + attestation credential option"
  rg_finish :: "jsval \<Rightarrow> verify_error + jsval"
  rg_status :: "verify_error + jsval"

text \<open>The attempt: the requests made, and the credential's end, an error or a failure with its message.\<close>

datatype attempt = Registered | Failed notice | Threw verify_error

definition attempt_finish :: "registration \<Rightarrow> request list \<Rightarrow> attestation credential \<Rightarrow> request list \<times> attempt" where
  "attempt_finish env tr c =
     (case buildRegistrationResult (Some c) of
        None \<Rightarrow> (tr, Failed (Said (js ''Invalid Passkey registration response'')))
      | Some a \<Rightarrow>
          (case rg_finish env a of
             Inl e \<Rightarrow> (tr @ [Finish a], Threw e)
           | Inr r \<Rightarrow>
               if truthy_opt (get_prop r ''success'') then (tr @ [Finish a], Registered)
               else (tr @ [Finish a], Failed (said_or (get_prop r ''message'') ''Failed to register Passkey''))))"

definition attempt_begin :: "registration \<Rightarrow> jsval \<Rightarrow> request list \<times> attempt" where
  "attempt_begin env r =
     (if \<not> truthy_opt (get_prop r ''success'')
      then ([Begin], Failed (said_or (get_prop r ''message'') ''Failed to start Passkey registration''))
      else case prepareCredentialCreationOptions (case begin_payload r of Some p \<Rightarrow> p | None \<Rightarrow> JNull) of
          Inl e \<Rightarrow> ([Begin], Threw e)
        | Inr pk \<Rightarrow>
            (case rg_create env pk of
               Inl e \<Rightarrow> ([Begin, AskBrowser pk], Threw e)
             | Inr None \<Rightarrow> ([Begin, AskBrowser pk], Failed (Said (js ''Passkey registration was cancelled'')))
             | Inr (Some c) \<Rightarrow> attempt_finish env [Begin, AskBrowser pk] c))"

definition register :: "registration \<Rightarrow> manager \<Rightarrow> request list \<times> notice list \<times> bool \<times> manager" where
  "register env m =
     (if \<not> pm_supported m then ([], [Said (js ''This device does not support Passkey'')], False, m)
      else if \<not> rg_credentials env then ([], [Said (js ''Passkey is not supported in this environment'')], False, m)
      else let m1 = m\<lparr>pm_registering := True\<rparr>;
               r = (case rg_begin env of Inl e \<Rightarrow> ([Begin], Threw e) | Inr b \<Rightarrow> attempt_begin env b)
           in case snd r of
                Failed n \<Rightarrow> (fst r, [n], False, m1\<lparr>pm_registering := False\<rparr>)
              | Threw e \<Rightarrow>
                  (fst r, [if e = NotAllowed then Said (js ''Passkey registration was cancelled'') else SaidError e], False,
                   m1\<lparr>pm_registering := False\<rparr>)
              | Registered \<Rightarrow>
                  (let f = fetchStatus (rg_status env) m1
                   in (fst r, Said (js ''Passkey registered successfully'') # fst f, True, (snd f)\<lparr>pm_registering := False\<rparr>)))"

definition remove :: "verify_error + jsval \<Rightarrow> verify_error + jsval \<Rightarrow> manager \<Rightarrow> notice list \<times> bool \<times> manager" where
  "remove answer status_answer m =
     (let m1 = m\<lparr>pm_removing := True\<rparr> in
      case answer of
        Inl e \<Rightarrow> ([Said (js ''Failed to remove Passkey'')], False, m1\<lparr>pm_removing := False\<rparr>)
      | Inr res \<Rightarrow>
          if \<not> truthy_opt (get_prop res ''success'')
          then ([said_or (get_prop res ''message'') ''Failed to remove Passkey''], False, m1\<lparr>pm_removing := False\<rparr>)
          else let f = fetchStatus status_answer m1
               in (Said (js ''Passkey removed successfully'') # fst f, True, (snd f)\<lparr>pm_removing := False\<rparr>))"

definition passkey_enabled :: "manager \<Rightarrow> bool" where
  "passkey_enabled m \<longleftrightarrow> truthy_opt (get_prop_opt (pm_status m) ''enabled'')"

end
