(* ===== verification/PasskeyProps.thy ===== *)
theory PasskeyProps
  imports Passkey
begin

text \<open>
  Buffers survive their base64url texts, which texts decode and to how many bytes, the order of the
  requests of a verification with a passkey, and the outcomes of registering one.
\<close>

section \<open>Encoding and decoding\<close>

text \<open>The sextets of a text, without padding.\<close>

fun sextets :: "jstr \<Rightarrow> nat list" where
  "sextets [] = []"
| "sextets [a] = [a div 4, a mod 4 * 16]"
| "sextets [a, b] = [a div 4, a mod 4 * 16 + b div 16, b mod 16 * 4]"
| "sextets (a # b # c # r) = [a div 4, a mod 4 * 16 + b div 16, b mod 16 * 4 + c div 64, c mod 64] @ sextets r"

lemma b64_val_char [simp]: "n < 64 \<Longrightarrow> b64_val (b64_char n) = Some n"
  by (auto simp: b64_val_def b64_char_def)

lemma b64_char_plain: "n < 64 \<Longrightarrow> b64_char n \<noteq> 61 \<and> \<not> ascii_ws (b64_char n) \<and> b64_char n \<noteq> 45 \<and> b64_char n \<noteq> 95"
  by (auto simp: b64_char_def ascii_ws_def)

lemma sextets_small: "list_all (\<lambda>c. c < 256) s \<Longrightarrow> list_all (\<lambda>n. n < 64) (sextets s)"
proof (induction s rule: sextets.induct)
  case (4 a b c r)
  then have "a div 4 < 64" "b div 16 < 16" "c div 64 < 4" by auto
  moreover have "a mod 4 * 16 \<le> 48" "b mod 16 * 4 \<le> 60" using mod_less_divisor [of 4 a] mod_less_divisor [of 16 b] by auto
  ultimately show ?case using 4 by auto
next
  case (3 a b)
  then have "a div 4 < 64" "b div 16 < 16" by auto
  moreover have "a mod 4 * 16 \<le> 48" "b mod 16 * 4 \<le> 60" using mod_less_divisor [of 4 a] mod_less_divisor [of 16 b] by auto
  ultimately show ?case by auto
next
  case (2 a)
  then have "a div 4 < 64" by auto
  moreover have "a mod 4 * 16 \<le> 48" using mod_less_divisor [of 4 a] by auto
  ultimately show ?case by auto
qed simp

lemma sextet_sum:
  assumes "b < (256 :: nat)" and "c < (256 :: nat)"
  shows "a div 4 * 4 + (a mod 4 * 16 + b div 16) div 16 = a"
    and "(a mod 4 * 16 + b div 16) mod 16 * 16 + (b mod 16 * 4 + c div 64) div 4 = b"
    and "(b mod 16 * 4 + c div 64) mod 4 * 64 + c mod 64 = c"
proof -
  have b: "b div 16 < 16" and c: "c div 64 < 4" using assms by auto
  have e: "(a mod 4 * 16 + b div 16) div 16 = a mod 4" "(a mod 4 * 16 + b div 16) mod 16 = b div 16" using b by simp_all
  have f: "(b mod 16 * 4 + c div 64) div 4 = b mod 16" "(b mod 16 * 4 + c div 64) mod 4 = c div 64" using c by simp_all
  show "a div 4 * 4 + (a mod 4 * 16 + b div 16) div 16 = a" unfolding e by presburger
  show "(a mod 4 * 16 + b div 16) mod 16 * 16 + (b mod 16 * 4 + c div 64) div 4 = b" unfolding e f by presburger
  show "(b mod 16 * 4 + c div 64) mod 4 * 64 + c mod 64 = c" unfolding f by presburger
qed

lemma sextets_bytes: "list_all (\<lambda>c. c < 256) s \<Longrightarrow> b64_bytes (sextets s) = s"
proof (induction s rule: sextets.induct)
  case (4 a b c r)
  then have "b < 256" "c < 256" "b64_bytes (sextets r) = r" by simp_all
  then show ?case unfolding sextets.simps append_Cons append_Nil b64_bytes.simps by (simp only: sextet_sum)
next
  case (3 a b)
  then have "b < 256" by simp
  then show ?case unfolding sextets.simps b64_bytes.simps using sextet_sum(1,2) [of b 0 a] by simp
next
  case (2 a)
  then show ?case by simp
qed simp

lemma length_sextets: "length (sextets s) = (4 * length s + 2) div 3"
  by (induction s rule: sextets.induct) auto

lemma mod_step: "Suc (Suc (Suc (Suc n))) mod 4 = n mod 4"
  by presburger

lemma replicate_pad: "replicate 2 x = [x, x]" "replicate 3 x = [x, x, x]"
  by (simp_all add: numeral_eq_Suc)

lemma b64_groups_sextets:
  "b64_groups s = map b64_char (sextets s) @ replicate ((4 - length (sextets s) mod 4) mod 4) 61"
  by (induction s rule: sextets.induct) (simp_all add: mod_step replicate_pad)

lemma strip_equals_append: "list_all (\<lambda>c. c \<noteq> 61) t \<Longrightarrow> strip_equals (t @ replicate n 61) = t"
proof -
  assume t: "list_all (\<lambda>c. c \<noteq> 61) t"
  have "dropWhile (\<lambda>c. c = 61) (replicate n 61 @ rev t) = dropWhile (\<lambda>c. c = 61) (rev t)" by (induction n) auto
  also have "\<dots> = rev t"
    using t by (cases "rev t") (auto simp: list_all_iff dest: arg_cong [where f = set])
  finally show ?thesis by (simp add: strip_equals_def)
qed

definition url_char :: "nat \<Rightarrow> cunit" where
  "url_char n = (if b64_char n = 43 then 45 else if b64_char n = 47 then 95 else b64_char n)"

lemma encoded: "arrayBufferToBase64Url (Some bs) = map url_char (sextets (map unat bs))"
proof -
  let ?n = "sextets (map unat bs)"
  have small: "list_all (\<lambda>c. c < 256) (map unat bs)"
    using unsigned_less [where 'a = nat and 'b = 8] by (auto simp: list_all_iff)
  note n = sextets_small [OF small]
  let ?p = "replicate ((4 - length ?n mod 4) mod 4) (61 :: nat)"
  have "map (\<lambda>c. if c = 47 then 95 else c) (map (\<lambda>c. if c = 43 then 45 else c) (b64_groups (map unat bs)))
      = map url_char ?n @ ?p"
    by (auto simp: b64_groups_sextets url_char_def)
  moreover have "list_all (\<lambda>c. c \<noteq> 61) (map url_char ?n)"
    unfolding list_all_iff set_map
  proof (intro ballI)
    fix c assume "c \<in> url_char ` set ?n"
    then obtain m where "m < 64" "c = url_char m" using n by (auto simp: list_all_iff)
    then show "c \<noteq> 61" using b64_char_plain [of m] by (auto simp: url_char_def)
  qed
  ultimately show ?thesis
    using small by (simp add: arrayBufferToBase64Url_def btoa_def strip_equals_append)
qed

section \<open>Decoding the alphabet\<close>

definition std_char :: "cunit \<Rightarrow> cunit" where
  "std_char c = (if c = 45 then 43 else if c = 95 then 47 else c)"

definition url_val :: "cunit \<Rightarrow> nat option" where
  "url_val c = b64_val (std_char c)"

definition url_text :: "jstr \<Rightarrow> bool" where
  "url_text v \<longleftrightarrow> list_all (\<lambda>c. url_val c \<noteq> None) v"

lemma std_map: "map (\<lambda>c. if c = 95 then 47 else c) (map (\<lambda>c. if c = 45 then 43 else c) v) = map std_char v"
  by (auto simp: std_char_def)

lemma b64_val_plain: "b64_val c \<noteq> None \<Longrightarrow> c \<noteq> 61 \<and> \<not> ascii_ws c"
  by (auto simp: b64_val_def ascii_ws_def split: if_splits)

lemma drop_pad0: "61 \<notin> set t \<Longrightarrow> drop_padding t = t"
proof -
  assume t: "61 \<notin> set t"
  have "set (drop n t) \<subseteq> set t" for n by (rule set_drop_subset)
  then have "drop n t \<noteq> 61 # xs" for n xs using t by (metis list.set_intros(1) subsetD)
  then show ?thesis by (simp add: drop_padding_def)
qed

lemma drop_pad1: "61 \<notin> set t \<Longrightarrow> length t mod 4 = 3 \<Longrightarrow> drop_padding (t @ [61]) = t"
proof -
  assume t: "61 \<notin> set t" and l: "length t mod 4 = 3"
  then obtain u x where u: "t = u @ [x]" "x \<noteq> 61" by (cases t rule: rev_cases) auto
  have "Suc (length t) mod 4 = 0" using l by presburger
  then show ?thesis using u by (simp add: drop_padding_def)
qed

lemma drop_pad2:
  assumes "(length t + n) mod 4 = 2"
  shows "drop_padding (t @ replicate n 61 @ [61, 61]) = t @ replicate n 61"
proof -
  have "Suc (Suc (length t + n)) mod 4 = 0" using assms by presburger
  then show ?thesis by (simp add: drop_padding_def)
qed

lemma those_map_Some: "\<forall>x\<in>set xs. f x \<noteq> None \<Longrightarrow> those (map f xs) = Some (map (\<lambda>x. the (f x)) xs)"
  by (induction xs) auto

lemma those_None: "x \<in> set xs \<Longrightarrow> f x = None \<Longrightarrow> those (map f xs) = None"
  by (induction xs) (auto split: option.split)

lemma decode_url_text:
  assumes "v \<noteq> []" and "url_text v"
  shows "base64UrlToArrayBuffer (Some v)
     = (if length v mod 4 = 1 then None else Some (map of_nat (b64_bytes (map (\<lambda>c. the (url_val c)) v))))"
proof -
  let ?t = "map std_char v"
  let ?p = "(4 - length v mod 4) mod 4"
  have t: "\<forall>c\<in>set ?t. b64_val c \<noteq> None" using assms(2) by (auto simp: url_text_def list_all_iff url_val_def)
  then have plain: "61 \<notin> set ?t" "filter (\<lambda>c. \<not> ascii_ws c) ?t = ?t"
    using b64_val_plain by (blast, auto simp: filter_id_conv)
  have f: "filter (\<lambda>c. \<not> ascii_ws c) (?t @ replicate n 61) = ?t @ replicate n 61" for n
    using plain(2) by (simp add: ascii_ws_def filter_id_conv)
  have b: "map std_char (v @ replicate ?p 61) = ?t @ replicate ?p 61" by (simp add: std_char_def)
  have d: "base64UrlToArrayBuffer (Some v) = map_option (map of_nat) (atob (?t @ replicate ?p 61))"
    using assms(1) unfolding base64UrlToArrayBuffer_def Let_def std_map option.sel b by simp
  have ok: "length v mod 4 \<noteq> 1 \<Longrightarrow> drop_padding (?t @ replicate ?p 61) = ?t \<Longrightarrow> ?thesis"
    unfolding d atob_def Let_def f using those_map_Some [OF t] by (simp add: url_val_def comp_def)
  consider "length v mod 4 = 0" | "length v mod 4 = 1" | "length v mod 4 = 2" | "length v mod 4 = 3"
    by linarith
  then show ?thesis
  proof cases
    case 1
    then show ?thesis using ok drop_pad0 [OF plain(1)] by simp
  next
    case 2
    have r: "replicate ?p (61 :: nat) = replicate 1 61 @ [61, 61]" using 2 by (simp add: replicate_pad)
    have l: "(length ?t + 1) mod 4 = 2" using 2 by (simp add: mod_Suc)
    have "atob (?t @ replicate ?p 61) = None"
      unfolding atob_def Let_def f unfolding r drop_pad2 [OF l] using l those_None [of 61 "?t @ replicate 1 61" b64_val]
      by (simp add: b64_val_def)
    then show ?thesis using d 2 by simp
  next
    case 3
    have "drop_padding (?t @ replicate ?p 61) = ?t" using drop_pad2 [of ?t 0] 3 by (simp add: replicate_pad)
    then show ?thesis using ok 3 by simp
  next
    case 4
    have "drop_padding (?t @ replicate ?p 61) = ?t" using drop_pad1 [OF plain(1)] 4 by simp
    then show ?thesis using ok 4 by simp
  qed
qed

lemma length_b64_bytes: "length (b64_bytes s) = 3 * length s div 4"
  by (induction s rule: b64_bytes.induct) auto

text \<open>C29 Decoding a text of the alphabet throws exactly when its length is one more than a multiple of
  four; any other text of \<open>n\<close> characters gives \<open>3 * n div 4\<close> bytes.\<close>

theorem decode_bounds:
  assumes "url_text v"
  shows "case base64UrlToArrayBuffer (Some v) of
       None \<Rightarrow> length v mod 4 = 1
     | Some bs \<Rightarrow> length v mod 4 \<noteq> 1 \<and> length bs = 3 * length v div 4"
proof (cases "v = []")
  case True
  then show ?thesis by (simp add: base64UrlToArrayBuffer_def)
next
  case False
  then show ?thesis using decode_url_text [OF False assms] by (auto simp: length_b64_bytes)
qed

lemma decode_bounds_witness:
  "case base64UrlToArrayBuffer (Some (js ''aGk-'')) of
     None \<Rightarrow> length (js ''aGk-'') mod 4 = 1
   | Some bs \<Rightarrow> length (js ''aGk-'') mod 4 \<noteq> 1 \<and> length bs = 3 * length (js ''aGk-'') div 4"
  by (rule decode_bounds) code_simp

lemma url_val_char: "n < 64 \<Longrightarrow> url_val (url_char n) = Some n"
proof -
  assume n: "n < 64"
  then have "std_char (url_char n) = b64_char n" using b64_char_plain [of n] by (auto simp: url_char_def std_char_def)
  then show ?thesis using n by (simp add: url_val_def)
qed

text \<open>C28 Every buffer survives being printed and read, and its text is safe in an address: it has only
  letters, digits, \<open>-\<close> and \<open>_\<close>, and \<open>(4 * n + 2) div 3\<close> of them for \<open>n\<close> bytes.\<close>

theorem buffer_roundtrip:
  "base64UrlToArrayBuffer (Some (arrayBufferToBase64Url (Some bs))) = Some bs
   \<and> list_all (\<lambda>c. is_word c \<or> c = 45) (arrayBufferToBase64Url (Some bs))
   \<and> length (arrayBufferToBase64Url (Some bs)) = (4 * length bs + 2) div 3"
proof -
  let ?n = "sextets (map unat bs)"
  have small: "list_all (\<lambda>c. c < 256) (map unat bs)"
    using unsigned_less [where 'a = nat and 'b = 8] by (auto simp: list_all_iff)
  have n: "\<forall>m\<in>set ?n. m < 64" using sextets_small [OF small] by (simp add: list_all_iff)
  have len: "length ?n = (4 * length bs + 2) div 3" by (simp add: length_sextets)
  have w: "is_word (url_char m) \<or> url_char m = 45" if "m < 64" for m
    using that by (auto simp: url_char_def b64_char_def is_word_def is_digit_def)
  have "base64UrlToArrayBuffer (Some (map url_char ?n)) = Some bs"
  proof (cases "bs = []")
    case True
    then show ?thesis by (simp add: base64UrlToArrayBuffer_def)
  next
    case False
    then have "0 < length ?n" unfolding len by (cases bs) simp_all
    moreover have "url_text (map url_char ?n)" using n by (auto simp: url_text_def list_all_iff url_val_char)
    moreover have "length ?n mod 4 \<noteq> 1" unfolding len by presburger
    moreover have "map (\<lambda>c. the (url_val c)) (map url_char ?n) = ?n"
      using n by (auto simp: url_val_char intro!: map_idI)
    ultimately show ?thesis
      using decode_url_text [of "map url_char ?n"] by (simp add: sextets_bytes [OF small] comp_def)
  qed
  then show ?thesis unfolding encoded using n w len by (auto simp: list_all_iff)
qed

section \<open>The ceremony\<close>

text \<open>C30 The ceremony asks the server for options, the browser for an assertion with them, and sends the
  server that very assertion; it reports the verification only when the server accepted the assertion,
  and it ends without an error exactly when the report succeeded, too.\<close>

theorem passkey_ceremony:
  assumes "verifyPasskey env = (tr, err)" and "PostVerify \<in> set tr \<or> err = None"
  shows "\<exists>r pk c a f. begin_answer env = Inr r \<and> truthy_opt (get_prop r ''success'')
     \<and> prepareCredentialRequestOptions (case begin_payload r of Some p \<Rightarrow> p | None \<Rightarrow> JNull) = Inr pk
     \<and> get_answer env pk = Inr (Some c) \<and> buildAssertionResult (Some c) = Some a
     \<and> finish_answer env a = Inr f \<and> truthy_opt (get_prop f ''success'')
     \<and> tr = [Begin, AskBrowser pk, Finish a, PostVerify]
     \<and> (err = None \<longleftrightarrow> (\<exists>v. verify_answer env = Inr v \<and> truthy_opt (get_prop_opt (get_prop v ''data'') ''success'')))"
  using assms
  by (auto simp: verifyPasskey_def after_begin_def after_credential_def after_finish_def
      split: if_splits sum.splits option.splits)

definition sample_ceremony :: ceremony where
  "sample_ceremony =
     \<lparr>has_credentials = True,
      begin_answer = Inr (JObj [(js ''success'', JBool True), (js ''data'', JObj [(js ''publicKey'', JObj [(js ''challenge'', JStr (js ''AQI''))])])]),
      get_answer = (\<lambda>_. Inr (Some \<lparr>cr_id = js ''k'', rawId = Some [1, 2], cr_type = js ''public-key'',
         authenticatorAttachment = None, cr_response = \<lparr>authenticatorData = None, as_clientDataJSON = None,
           signature = Some [255], userHandle = None\<rparr>, extensionResults = None\<rparr>)),
      finish_answer = (\<lambda>_. Inr (JObj [(js ''success'', JBool True)])),
      verify_answer = Inr (JObj [(js ''data'', JObj [(js ''success'', JBool True)])])\<rparr>"

lemma passkey_ceremony_witness:
  "\<exists>r pk c a f. begin_answer sample_ceremony = Inr r \<and> truthy_opt (get_prop r ''success'')
     \<and> prepareCredentialRequestOptions (case begin_payload r of Some p \<Rightarrow> p | None \<Rightarrow> JNull) = Inr pk
     \<and> get_answer sample_ceremony pk = Inr (Some c) \<and> buildAssertionResult (Some c) = Some a
     \<and> finish_answer sample_ceremony a = Inr f \<and> truthy_opt (get_prop f ''success'')
     \<and> fst (verifyPasskey sample_ceremony) = [Begin, AskBrowser pk, Finish a, PostVerify]
     \<and> (snd (verifyPasskey sample_ceremony) = None \<longleftrightarrow>
          (\<exists>v. verify_answer sample_ceremony = Inr v \<and> truthy_opt (get_prop_opt (get_prop v ''data'') ''success'')))"
proof (rule passkey_ceremony)
  have "snd (verifyPasskey sample_ceremony) = None" by code_simp
  then show "PostVerify \<in> set (fst (verifyPasskey sample_ceremony)) \<or> snd (verifyPasskey sample_ceremony) = None" by simp
qed simp

section \<open>Registration\<close>

text \<open>Registering always says something and never stays registering; it succeeds exactly when the server
  accepted the browser's attestation for the options the server sent, and a failure leaves the
  known status as it was.\<close>

lemma register_outcome:
  assumes "register env m = (tr, notices, ok, m')" and "\<not> pm_registering m"
  shows "notices \<noteq> [] \<and> \<not> pm_registering m'" and "\<not> ok \<Longrightarrow> m' = m"
    and "ok \<longleftrightarrow> pm_supported m \<and> rg_credentials env
       \<and> (\<exists>r pk c f. rg_begin env = Inr r \<and> truthy_opt (get_prop r ''success'')
            \<and> prepareCredentialCreationOptions (case begin_payload r of Some p \<Rightarrow> p | None \<Rightarrow> JNull) = Inr pk
            \<and> rg_create env pk = Inr (Some c)
            \<and> rg_finish env (the (buildRegistrationResult (Some c))) = Inr f \<and> truthy_opt (get_prop f ''success''))"
proof -
  have eqs: "m\<lparr>pm_registering := False\<rparr> = m" using assms(2) by simp
  show "notices \<noteq> [] \<and> \<not> pm_registering m'"
    using assms by (auto simp: register_def Let_def split: if_splits attempt.splits)
  show "\<not> ok \<Longrightarrow> m' = m"
    using assms eqs by (auto simp: register_def Let_def split: if_splits attempt.splits)
  show "ok \<longleftrightarrow> pm_supported m \<and> rg_credentials env
       \<and> (\<exists>r pk c f. rg_begin env = Inr r \<and> truthy_opt (get_prop r ''success'')
            \<and> prepareCredentialCreationOptions (case begin_payload r of Some p \<Rightarrow> p | None \<Rightarrow> JNull) = Inr pk
            \<and> rg_create env pk = Inr (Some c)
            \<and> rg_finish env (the (buildRegistrationResult (Some c))) = Inr f \<and> truthy_opt (get_prop f ''success''))"
    using assms
    by (auto simp: register_def Let_def attempt_begin_def attempt_finish_def buildRegistrationResult_def
        split: if_splits attempt.splits sum.splits option.splits)
qed

end
