(* ===== verification/TableState.thy ===== *)
theory TableState
  imports JsJson
begin

text \<open>
  The state of a table kept in the address (\<open>hooks/use-table-url-state.ts\<close>): pages, the filter over all
  columns, and filters of single columns. The search parameters are an object; a parameter set to
  \<open>undefined\<close> is absent. Transformers of the caller are arguments.
\<close>

section \<open>Configuration\<close>

type_synonym search = "(jstr \<times> jsval) list"

datatype filter_type = StringFilter | ArrayFilter | Untyped

record column_filter =
  columnId :: jstr
  searchKey :: jstr
  cf_type :: filter_type
  cf_serialize :: "jsval \<Rightarrow> jsval option"
  cf_deserialize :: "jsval option \<Rightarrow> jsval option"

record table_config =
  pageKey :: jstr
  pageSizeKey :: jstr
  defaultPage :: jnum
  defaultPageSize :: jnum
  globalFilterKey :: jstr
  globalFilterEnabled :: bool
  trimGlobal :: bool
  columnFiltersCfg :: "column_filter list"
  sameSearch :: "search \<Rightarrow> search \<Rightarrow> bool"

text \<open>The last field is no setting of the hook but the answer of the router, which the hook depends on:
  whether the parameters it hands out after a navigation are still the object handed out before it, so
  that the effect on \<open>[search]\<close> does not run.

  The defaults of a configuration that names nothing, with a router that keeps equal parameters.\<close>

definition default_config :: table_config where
  "default_config = \<lparr>pageKey = js ''page'', pageSizeKey = js ''pageSize'', defaultPage = Fin 1, defaultPageSize = Fin 20,
     globalFilterKey = js ''filter'', globalFilterEnabled = True, trimGlobal = True, columnFiltersCfg = [],
     sameSearch = (\<lambda>s s'. s = s')\<rparr>"

definition set_param :: "jstr \<Rightarrow> jsval option \<Rightarrow> search \<Rightarrow> search" where
  "set_param k v s = (case v of Some x \<Rightarrow> obj_put k x s | None \<Rightarrow> obj_del k s)"

record pagination_state =
  pageIndex :: jnum
  pageSize :: jnum

record table_state =
  ts_search :: search
  ts_columnFilters :: "(jstr \<times> jsval) list"
  ts_globalFilter :: "jstr option"

section \<open>Reading the address\<close>

text \<open>The filters of the columns: a text that is not blank, or an array that is not empty; a filter
  without a type counts as an array.\<close>

definition column_value :: "search \<Rightarrow> column_filter \<Rightarrow> jsval option" where
  "column_value s c =
     (let v = cf_deserialize c (map_of s (searchKey c)) in
      if cf_type c = StringFilter
      then (case v of Some (JStr t) \<Rightarrow> if trim t \<noteq> [] then Some (JStr t) else None | _ \<Rightarrow> None)
      else (case v of Some (JArr xs) \<Rightarrow> if 0 < length xs then Some (JArr xs) else None | _ \<Rightarrow> None))"

definition initialColumnFilters :: "table_config \<Rightarrow> search \<Rightarrow> (jstr \<times> jsval) list" where
  "initialColumnFilters cfg s =
     concat (map (\<lambda>c. case column_value s c of Some v \<Rightarrow> [(columnId c, v)] | None \<Rightarrow> []) (columnFiltersCfg cfg))"

definition number_or :: "jsval option \<Rightarrow> jnum \<Rightarrow> jnum" where
  "number_or v d = (case v of Some (JNum n) \<Rightarrow> n | _ \<Rightarrow> d)"

definition max0 :: "jnum \<Rightarrow> jnum" where
  "max0 n = (if n = NaN then NaN else if num_lt n (Fin 0) then Fin 0 else n)"

definition pagination :: "table_config \<Rightarrow> search \<Rightarrow> pagination_state" where
  "pagination cfg s =
     \<lparr>pageIndex = max0 (num_sub (number_or (map_of s (pageKey cfg)) (defaultPage cfg)) (Fin 1)),
      pageSize = number_or (map_of s (pageSizeKey cfg)) (defaultPageSize cfg)\<rparr>"

definition initial_global :: "table_config \<Rightarrow> search \<Rightarrow> jstr option" where
  "initial_global cfg s =
     (if \<not> globalFilterEnabled cfg then None
      else case map_of s (globalFilterKey cfg) of Some (JStr t) \<Rightarrow> Some t | _ \<Rightarrow> Some [])"

definition initial_table :: "table_config \<Rightarrow> search \<Rightarrow> table_state" where
  "initial_table cfg s = \<lparr>ts_search = s, ts_columnFilters = initialColumnFilters cfg s, ts_globalFilter = initial_global cfg s\<rparr>"

text \<open>A navigation, and the effect that follows when the parameters are a new object.\<close>

definition search_changed :: "table_config \<Rightarrow> search \<Rightarrow> table_state \<Rightarrow> table_state" where
  "search_changed cfg s t =
     (if sameSearch cfg (ts_search t) s then t\<lparr>ts_search := s\<rparr>
      else t\<lparr>ts_search := s, ts_columnFilters := initialColumnFilters cfg s\<rparr>)"

section \<open>Changing the address\<close>

definition onPaginationChange :: "table_config \<Rightarrow> pagination_state \<Rightarrow> table_state \<Rightarrow> table_state" where
  "onPaginationChange cfg nxt t =
     (let nextPage = num_add (pageIndex nxt) (Fin 1) in
      search_changed cfg
        (set_param (pageSizeKey cfg) (Some (JNum (pageSize nxt)))
          (set_param (pageKey cfg) (if num_le nextPage (defaultPage cfg) then None else Some (JNum nextPage))
            (ts_search t))) t)"

definition onGlobalFilterChange :: "table_config \<Rightarrow> (jstr \<Rightarrow> jstr) \<Rightarrow> table_state \<Rightarrow> table_state" where
  "onGlobalFilterChange cfg updater t =
     (if \<not> globalFilterEnabled cfg then t
      else let nxt = updater (or_else (ts_globalFilter t) []);
               value = (if trimGlobal cfg then trim nxt else nxt)
           in search_changed cfg
                (set_param (globalFilterKey cfg) (if value \<noteq> [] then Some (JStr value) else None)
                  (set_param (pageKey cfg) None (ts_search t)))
                (t\<lparr>ts_globalFilter := Some value\<rparr>))"

definition column_param :: "(jstr \<times> jsval) list \<Rightarrow> column_filter \<Rightarrow> jsval option" where
  "column_param nxt c =
     (let found = map_of nxt (columnId c) in
      if cf_type c = StringFilter
      then (case found of Some (JStr t) \<Rightarrow> if trim t \<noteq> [] then cf_serialize c (JStr t) else None | _ \<Rightarrow> None)
      else (case found of Some (JArr xs) \<Rightarrow> if 0 < length xs then cf_serialize c (JArr xs) else None | _ \<Rightarrow> None))"

text \<open>\<open>{ ...prev, [pageKey]: undefined, ...patch }\<close>.\<close>

definition onColumnFiltersChange :: "table_config \<Rightarrow> (jstr \<times> jsval) list \<Rightarrow> table_state \<Rightarrow> table_state" where
  "onColumnFiltersChange cfg nxt t =
     search_changed cfg
       (foldl (\<lambda>s c. set_param (searchKey c) (column_param nxt c) s)
          (set_param (pageKey cfg) None (ts_search t)) (columnFiltersCfg cfg))
       (t\<lparr>ts_columnFilters := nxt\<rparr>)"

definition ensurePageInRange :: "table_config \<Rightarrow> jnum \<Rightarrow> bool \<Rightarrow> table_state \<Rightarrow> table_state" where
  "ensurePageInRange cfg pageCount to_last t =
     (let pageNum = number_or (map_of (ts_search t) (pageKey cfg)) (defaultPage cfg) in
      if num_lt (Fin 0) pageCount \<and> num_lt pageCount pageNum
      then search_changed cfg
             (set_param (pageKey cfg) (if to_last then Some (JNum pageCount) else None) (ts_search t)) t
      else t)"

text \<open>The filter the table shows.\<close>

definition shown_global :: "table_config \<Rightarrow> table_state \<Rightarrow> jstr option" where
  "shown_global cfg t = (if globalFilterEnabled cfg then Some (or_else (ts_globalFilter t) []) else None)"

section \<open>Transformers of the callers\<close>

text \<open>\<open>features/mcp/lib/filter-values.ts\<close>, the reading of a server's number in
  \<open>features/mcp/components/proxy-tools-table.tsx\<close>, and the types of log entries in
  \<open>features/usage-logs/components/usage-logs-table.tsx\<close>.\<close>

definition positiveIntFilterValue :: "jsval \<Rightarrow> jsval option" where
  "positiveIntFilterValue value =
     (case value of
        JStr s \<Rightarrow>
          (let trimmed = trim s in
           if trimmed = [] then None
           else let parsed = to_number trimmed in
                if \<not> isInteger parsed \<or> num_le parsed (Fin 0) then None else Some (JNum parsed))
      | _ \<Rightarrow> None)"

definition stringFilterValue :: "jsval \<Rightarrow> jsval option" where
  "stringFilterValue value =
     (case value of JStr s \<Rightarrow> (let trimmed = trim s in if trimmed \<noteq> [] then Some (JStr trimmed) else None) | _ \<Rightarrow> None)"

definition number_text :: "jsval option \<Rightarrow> jsval option" where
  "number_text v = (case v of Some (JNum n) \<Rightarrow> Some (JStr (num_str n)) | _ \<Rightarrow> Some (JStr []))"

definition deserializeLogTypeFilter :: "jsval option \<Rightarrow> jsval option" where
  "deserializeLogTypeFilter value =
     (let values = (case value of Some (JArr xs) \<Rightarrow> xs | Some v \<Rightarrow> if truthy v then [v] else [] | None \<Rightarrow> [])
      in Some (JArr (filter (\<lambda>item. to_str item \<noteq> js ''0'') values)))"

end
