(* ===== verification/TableStateProps.thy ===== *)
theory TableStateProps
  imports TableState
begin

text \<open>
  A table's state in the address: the interface of the callers' transformers as locales, interpreted on
  those the code uses; filters of columns settle, the filter over all columns loses its blanks, pages
  survive and come into range.
\<close>

section \<open>Parameters\<close>

lemma map_of_set_param [simp]: "map_of (set_param k v s) = (map_of s)(k := v)"
  by (auto simp: set_param_def split: option.splits)

lemma map_of_other_params:
  "k \<notin> searchKey ` set cs \<Longrightarrow> map_of (foldl (\<lambda>s c. set_param (searchKey c) (f c) s) s cs) k = map_of s k"
  by (induction cs arbitrary: s) auto

lemma map_of_set_params:
  "distinct (map searchKey cs) \<Longrightarrow> c \<in> set cs \<Longrightarrow>
   map_of (foldl (\<lambda>s c. set_param (searchKey c) (f c) s) s cs) (searchKey c) = f c"
  by (induction cs arbitrary: s) (auto simp: map_of_other_params)

section \<open>Transformers\<close>

text \<open>The value of a filter that counts: a text that is not blank for a text filter, an array that is not
  empty for the others.\<close>

definition counts :: "filter_type \<Rightarrow> jsval option \<Rightarrow> jsval option" where
  "counts ty v =
     (case v of
        Some (JStr t) \<Rightarrow> if ty = StringFilter \<and> trim t \<noteq> [] then v else None
      | Some (JArr xs) \<Rightarrow> if ty \<noteq> StringFilter \<and> xs \<noteq> [] then v else None
      | _ \<Rightarrow> None)"

lemma counts_Some: "counts ty v = Some u \<Longrightarrow> v = Some u" "counts ty v = Some u \<Longrightarrow> counts ty (Some u) = Some u"
  by (auto simp: counts_def split: option.splits jsval.splits if_splits)

lemma counts_None [simp]: "counts ty None = None"
  by (simp add: counts_def)

text \<open>What the hook asks of a caller's transformers: an absent parameter is no filter; and, for filters that
  settle, what was read is written as the parameter it is read from.\<close>

locale filter_codec =
  fixes ser :: "jsval \<Rightarrow> jsval option" and deser :: "jsval option \<Rightarrow> jsval option"
  assumes absent: "counts ty (deser None) = None"
begin

definition written :: "filter_type \<Rightarrow> jsval option \<Rightarrow> jsval option" where
  "written ty v = (case counts ty v of None \<Rightarrow> None | Some x \<Rightarrow> ser x)"

lemma read_back:
  "counts ty (deser (written ty v)) = (case counts ty v of None \<Rightarrow> None | Some x \<Rightarrow> counts ty (deser (ser x)))"
  by (simp add: written_def absent split: option.split)

end

locale stable_codec = filter_codec +
  assumes stable: "deser (ser v) = Some u \<Longrightarrow> deser (ser u) = Some u"
begin

lemma settled:
  assumes "counts ty (deser (written ty v)) = Some u"
  shows "counts ty (deser (written ty (Some u))) = Some u"
proof -
  obtain x where x: "counts ty v = Some x" "counts ty (deser (ser x)) = Some u"
    using assms unfolding read_back by (auto split: option.splits)
  then have "deser (ser u) = Some u" using counts_Some(1) stable by blast
  then show ?thesis using counts_Some(2) [OF x(2)] unfolding read_back by simp
qed

end

interpretation plain_codec: stable_codec Some "\<lambda>v. v"
  by unfold_locales simp_all

interpretation text_codec: stable_codec stringFilterValue "\<lambda>v. v"
  by unfold_locales (auto simp: stringFilterValue_def Let_def split: jsval.splits if_splits)

interpretation log_types: stable_codec Some deserializeLogTypeFilter
  by unfold_locales (auto simp: deserializeLogTypeFilter_def counts_def)

interpretation positive_int: filter_codec positiveIntFilterValue number_text
  by unfold_locales (simp add: number_text_def counts_def)

section \<open>Filters of columns\<close>

definition columns_ok :: "table_config \<Rightarrow> bool" where
  "columns_ok cfg \<longleftrightarrow> distinct (map searchKey (columnFiltersCfg cfg)) \<and> distinct (map columnId (columnFiltersCfg cfg))
     \<and> pageKey cfg \<notin> searchKey ` set (columnFiltersCfg cfg)"

definition settled_value :: "column_filter \<Rightarrow> jsval option \<Rightarrow> jsval option" where
  "settled_value c v =
     (case counts (cf_type c) v of None \<Rightarrow> None | Some x \<Rightarrow> counts (cf_type c) (cf_deserialize c (cf_serialize c x)))"

definition settled_filters :: "table_config \<Rightarrow> (jstr \<times> jsval) list \<Rightarrow> (jstr \<times> jsval) list" where
  "settled_filters cfg nxt =
     concat (map (\<lambda>c. case settled_value c (map_of nxt (columnId c)) of Some v \<Rightarrow> [(columnId c, v)] | None \<Rightarrow> [])
       (columnFiltersCfg cfg))"

lemma column_value_counts: "column_value s c = counts (cf_type c) (cf_deserialize c (map_of s (searchKey c)))"
  by (simp add: column_value_def counts_def Let_def split: option.split jsval.split)

lemma column_param_written:
  "column_param nxt c = (case counts (cf_type c) (map_of nxt (columnId c)) of None \<Rightarrow> None | Some x \<Rightarrow> cf_serialize c x)"
  by (simp add: column_param_def counts_def Let_def split: option.split jsval.split)

lemma column_value_after:
  assumes "filter_codec (cf_deserialize c)" and "map_of s (searchKey c) = column_param nxt c"
  shows "column_value s c = settled_value c (map_of nxt (columnId c))"
  unfolding column_value_counts assms(2) column_param_written settled_value_def
  using filter_codec.absent [OF assms(1)] by (simp split: option.split)

lemma filters_after:
  assumes "columns_ok cfg" and "\<forall>c\<in>set (columnFiltersCfg cfg). filter_codec (cf_deserialize c)"
  shows "initialColumnFilters cfg (ts_search (onColumnFiltersChange cfg nxt t)) = settled_filters cfg nxt"
proof -
  let ?s = "ts_search (onColumnFiltersChange cfg nxt t)"
  have s: "?s = foldl (\<lambda>s c. set_param (searchKey c) (column_param nxt c) s)
      (set_param (pageKey cfg) None (ts_search t)) (columnFiltersCfg cfg)"
    by (simp add: onColumnFiltersChange_def search_changed_def)
  have "column_value ?s c = settled_value c (map_of nxt (columnId c))" if "c \<in> set (columnFiltersCfg cfg)" for c
    using column_value_after [of c ?s nxt] assms that unfolding s by (simp add: columns_ok_def map_of_set_params)
  then show ?thesis
    unfolding initialColumnFilters_def settled_filters_def by (intro arg_cong [where f = concat] map_cong) simp_all
qed

lemma map_of_settled:
  assumes "distinct (map columnId cs)" and "c \<in> set cs"
  shows "map_of (concat (map (\<lambda>c. case f c of Some v \<Rightarrow> [(columnId c, v)] | None \<Rightarrow> []) cs)) (columnId c) = f c"
  using assms
proof (induction cs)
  case (Cons d cs)
  have "map_of (concat (map (\<lambda>c. case f c of Some v \<Rightarrow> [(columnId c, v)] | None \<Rightarrow> []) cs)) k = None"
    if "k \<notin> columnId ` set cs" for k
    using that by (induction cs) (auto split: option.splits)
  moreover have "columnId d \<notin> columnId ` set cs" using Cons.prems(1) by simp
  moreover have "c \<in> set cs \<Longrightarrow> columnId c \<noteq> columnId d" using calculation(2) by (metis imageI)
  ultimately show ?case using Cons by (cases "f d") auto
qed simp

lemma settled_again:
  assumes "columns_ok cfg" and "\<forall>c\<in>set (columnFiltersCfg cfg). stable_codec (cf_serialize c) (cf_deserialize c)"
  shows "settled_filters cfg (settled_filters cfg nxt) = settled_filters cfg nxt"
proof -
  have "settled_value c (map_of (settled_filters cfg nxt) (columnId c)) = settled_value c (map_of nxt (columnId c))"
    if c: "c \<in> set (columnFiltersCfg cfg)" for c
  proof -
    have m: "map_of (settled_filters cfg nxt) (columnId c) = settled_value c (map_of nxt (columnId c))"
      using assms(1) c unfolding settled_filters_def columns_ok_def by (intro map_of_settled) simp_all
    show ?thesis
    proof (cases "settled_value c (map_of nxt (columnId c))")
      case None
      then show ?thesis by (simp add: m settled_value_def [of c None])
    next
      case (Some u)
      then obtain x where x: "counts (cf_type c) (cf_deserialize c (cf_serialize c x)) = Some u"
        by (auto simp: settled_value_def split: option.splits)
      have "cf_deserialize c (cf_serialize c u) = Some u"
        using assms(2) c counts_Some(1) [OF x] stable_codec.stable by blast
      then show ?thesis using Some counts_Some(2) [OF x] by (simp add: m settled_value_def [of c "Some u"])
    qed
  qed
  then show ?thesis
    unfolding settled_filters_def [of cfg "settled_filters cfg nxt"]
    by (subst (2) settled_filters_def) (intro arg_cong [where f = concat] map_cong, simp_all)
qed

lemma search_after [simp]: "ts_search (search_changed cfg s t) = s"
  by (simp add: search_changed_def)

lemma filters_now:
  "ts_columnFilters (onColumnFiltersChange cfg nxt t)
     = (if sameSearch cfg (ts_search t) (ts_search (onColumnFiltersChange cfg nxt t)) then nxt
        else initialColumnFilters cfg (ts_search (onColumnFiltersChange cfg nxt t)))"
  by (simp add: onColumnFiltersChange_def search_changed_def)

text \<open>C31 After a change of the filters the address holds them as their transformers settle them, on the
  first page. The table shows what the address holds, unless the router took it for the one before, where
  the change stays as it was typed; and setting the settled filters once more changes none of them.\<close>

theorem column_filters_kept:
  assumes "columns_ok cfg" and "\<forall>c\<in>set (columnFiltersCfg cfg). stable_codec (cf_serialize c) (cf_deserialize c)"
  shows "let t' = onColumnFiltersChange cfg nxt t;
           t'' = onColumnFiltersChange cfg (settled_filters cfg nxt) t'
       in initialColumnFilters cfg (ts_search t') = settled_filters cfg nxt
     \<and> ts_columnFilters t' = (if sameSearch cfg (ts_search t) (ts_search t') then nxt else settled_filters cfg nxt)
     \<and> map_of (ts_search t') (pageKey cfg) = None
     \<and> initialColumnFilters cfg (ts_search t'') = settled_filters cfg nxt
     \<and> ts_columnFilters t'' = settled_filters cfg nxt"
proof -
  have codec: "\<forall>c\<in>set (columnFiltersCfg cfg). filter_codec (cf_deserialize c)"
    using assms(2) by (simp add: stable_codec_def)
  note read = filters_after [OF assms(1) codec]
  have "map_of (ts_search (onColumnFiltersChange cfg nxt t)) (pageKey cfg) = None"
    using assms(1) by (simp add: onColumnFiltersChange_def map_of_other_params columns_ok_def)
  then show ?thesis
    by (simp add: Let_def filters_now read settled_again [OF assms])
qed

definition sample_table :: table_config where
  "sample_table = default_config\<lparr>columnFiltersCfg :=
     [\<lparr>columnId = js ''name'', searchKey = js ''toolName'', cf_type = StringFilter,
       cf_serialize = stringFilterValue, cf_deserialize = (\<lambda>v. v)\<rparr>,
      \<lparr>columnId = js ''created_at'', searchKey = js ''type'', cf_type = ArrayFilter,
       cf_serialize = Some, cf_deserialize = deserializeLogTypeFilter\<rparr>]\<rparr>"

lemma column_filters_kept_witness:
  "let nxt = [(js ''name'', JStr (js '' gpt ''))];
       t = initial_table sample_table [];
       t' = onColumnFiltersChange sample_table nxt t;
       t'' = onColumnFiltersChange sample_table (settled_filters sample_table nxt) t'
   in initialColumnFilters sample_table (ts_search t') = settled_filters sample_table nxt
     \<and> ts_columnFilters t' = (if sameSearch sample_table (ts_search t) (ts_search t') then nxt else settled_filters sample_table nxt)
     \<and> map_of (ts_search t') (pageKey sample_table) = None
     \<and> initialColumnFilters sample_table (ts_search t'') = settled_filters sample_table nxt
     \<and> ts_columnFilters t'' = settled_filters sample_table nxt"
unfolding Let_def
proof (rule column_filters_kept [unfolded Let_def])
  show "columns_ok sample_table" by code_simp
  show "\<forall>c\<in>set (columnFiltersCfg sample_table). stable_codec (cf_serialize c) (cf_deserialize c)"
    using text_codec.stable_codec_axioms log_types.stable_codec_axioms by (simp add: sample_table_def)
qed

text \<open>A filter without a type is taken for an array: a text set for it is lost.\<close>

lemma untyped_text_lost: "cf_type c = Untyped \<Longrightarrow> settled_value c (Some (JStr t)) = None"
  by (simp add: settled_value_def counts_def)

section \<open>The filter over all columns\<close>

definition type_key :: "table_config \<Rightarrow> table_state \<Rightarrow> nat \<Rightarrow> table_state" where
  "type_key cfg t c = onGlobalFilterChange cfg (\<lambda>s. s @ [c]) t"

lemma global_after:
  assumes "globalFilterEnabled cfg" and "trimGlobal cfg"
  shows "ts_globalFilter (onGlobalFilterChange cfg f t) = Some (trim (f (or_else (ts_globalFilter t) [])))"
  using assms by (simp add: onGlobalFilterChange_def search_changed_def Let_def)

lemma trim_snoc:
  assumes "\<forall>c\<in>set g. \<not> is_ws c"
  shows "trim (g @ [c]) = g @ (if is_ws c then [] else [c])"
proof -
  have g: "trimmed g" using assms by (cases "g = []") (auto simp: trimmed_def)
  show ?thesis
  proof (cases "is_ws c")
    case True
    have "trimStart (g @ [c]) = (if g = [] then [] else g @ [c])"
      using assms True by (cases g) (auto simp: trimStart_def)
    then show ?thesis using True trimEnd_append_ws [of "[c]" g] trimEnd_id [of g] g
      by (auto simp: trim_def trimmed_def)
  next
    case False
    then have "trimmed (g @ [c])" using assms by (cases g) (auto simp: trimmed_def)
    then show ?thesis using False by simp
  qed
qed

text \<open>C32 Typed letter by letter, the filter over all columns loses all white space: the text is trimmed
  after every letter, so that a blank at its end is gone before the next word begins.\<close>

theorem typed_filter_loses_blanks:
  assumes "globalFilterEnabled cfg" and "trimGlobal cfg" and "ts_globalFilter t = Some []"
  shows "shown_global cfg (foldl (type_key cfg) t s) = Some (filter (\<lambda>c. \<not> is_ws c) s)"
proof -
  have "ts_globalFilter (foldl (type_key cfg) t s) = Some (g @ filter (\<lambda>c. \<not> is_ws c) s)"
    if "ts_globalFilter t = Some g" "\<forall>c\<in>set g. \<not> is_ws c" for g
    using that
  proof (induction s arbitrary: t g)
    case (Cons c s)
    have o: "or_else (ts_globalFilter t) [] = g" using Cons.prems(1) by simp
    have "ts_globalFilter (type_key cfg t c) = Some (g @ (if is_ws c then [] else [c]))"
      by (simp only: type_key_def global_after [OF assms(1,2)] o trim_snoc [OF Cons.prems(2)])
    moreover have "\<forall>d\<in>set (g @ (if is_ws c then [] else [c])). \<not> is_ws d" using Cons.prems(2) by simp
    ultimately have "ts_globalFilter (foldl (type_key cfg) (type_key cfg t c) s)
        = Some ((g @ (if is_ws c then [] else [c])) @ filter (\<lambda>c. \<not> is_ws c) s)" by (rule Cons.IH)
    then show ?case by simp
  qed simp
  from this [OF assms(3)] show ?thesis using assms(1) by (simp add: shown_global_def or_else_def)
qed

lemma typed_filter_loses_blanks_witness:
  "shown_global default_config (foldl (type_key default_config) (initial_table default_config []) (js ''gpt 4 mini''))
     = Some (filter (\<lambda>c. \<not> is_ws c) (js ''gpt 4 mini''))"
  by (rule typed_filter_loses_blanks) code_simp+

text \<open>The filter is read from the address once only: later changes of the address leave it as it was.\<close>

lemma global_not_synchronised: "shown_global cfg (search_changed cfg s t) = shown_global cfg t"
  by (simp add: shown_global_def search_changed_def)

section \<open>Pages\<close>

lemma next_page_number:
  assumes "0 \<le> i" and "i < 2 ^ 52"
  shows "num_add (num_of_int i) (Fin 1) = num_of_int (i + 1)" and "num_sub (num_of_int (i + 1)) (Fin 1) = num_of_int i"
proof -
  have "num_add (num_of_int i) (num_of_int 1) = num_of_int (i + 1)" using assms by (intro num_add_int) auto
  then show "num_add (num_of_int i) (Fin 1) = num_of_int (i + 1)" by (simp add: num_of_int_def)
  have "num_add (num_of_int (i + 1)) (num_of_int (- 1)) = num_of_int (i + 1 + - 1)" using assms by (intro num_add_int) auto
  then show "num_sub (num_of_int (i + 1)) (Fin 1) = num_of_int i" by (simp add: num_of_int_def num_sub_def)
qed

lemma page_kept:
  assumes "0 \<le> i" and "i < 2 ^ 52" and "pageKey cfg \<noteq> pageSizeKey cfg" and "defaultPage cfg = Fin 1"
  shows "pagination cfg (ts_search (onPaginationChange cfg \<lparr>pageIndex = num_of_int i, pageSize = n\<rparr> t))
     = \<lparr>pageIndex = num_of_int i, pageSize = n\<rparr>"
proof -
  note n = next_page_number [OF assms(1,2)]
  have le: "num_le (num_of_int (i + 1)) (Fin 1) \<longleftrightarrow> i = 0" using assms(1) by (simp add: num_of_int_def)
  have m: "max0 (num_of_int i) = num_of_int i" using assms(1) by (simp add: max0_def num_of_int_def)
  let ?s = "ts_search (onPaginationChange cfg \<lparr>pageIndex = num_of_int i, pageSize = n\<rparr> t)"
  have "map_of ?s (pageKey cfg) = (if i = 0 then None else Some (JNum (num_of_int (i + 1))))"
    "map_of ?s (pageSizeKey cfg) = Some (JNum n)"
    using assms(3) by (simp_all add: onPaginationChange_def Let_def n le assms(4))
  then have "number_or (map_of ?s (pageKey cfg)) (Fin 1) = num_of_int (i + 1)" "number_or (map_of ?s (pageSizeKey cfg)) (defaultPageSize cfg) = n"
    by (simp_all add: number_or_def) (simp add: num_of_int_def)
  then show ?thesis by (simp add: pagination_def assms(4) n m)
qed

text \<open>With another default the pages before it cannot be reached: their number is left out of the
  address, which then stands for the default.\<close>

lemma page_below_default:
  assumes "num_le (num_add i (Fin 1)) (defaultPage cfg)" and "pageKey cfg \<noteq> pageSizeKey cfg"
  shows "pageIndex (pagination cfg (ts_search (onPaginationChange cfg \<lparr>pageIndex = i, pageSize = n\<rparr> t)))
     = max0 (num_sub (defaultPage cfg) (Fin 1))"
  using assms by (simp add: onPaginationChange_def pagination_def search_changed_def number_or_def Let_def)

lemma page_in_range:
  assumes "0 < n" and "defaultPage cfg = Fin 1"
  shows "ensurePageInRange cfg (num_of_int n) l (ensurePageInRange cfg (num_of_int n) l t) = ensurePageInRange cfg (num_of_int n) l t"
    and "\<not> num_lt (num_of_int n) (number_or (map_of (ts_search (ensurePageInRange cfg (num_of_int n) l t)) (pageKey cfg)) (Fin 1))"
proof -
  have "1 \<le> n" using assms(1) by simp
  then have c: "num_lt (Fin 0) (num_of_int n)" "\<not> num_lt (num_of_int n) (Fin 1)" "\<not> num_lt (num_of_int n) (num_of_int n)"
    by (simp_all add: num_of_int_def)
  show "ensurePageInRange cfg (num_of_int n) l (ensurePageInRange cfg (num_of_int n) l t) = ensurePageInRange cfg (num_of_int n) l t"
    and "\<not> num_lt (num_of_int n) (number_or (map_of (ts_search (ensurePageInRange cfg (num_of_int n) l t)) (pageKey cfg)) (Fin 1))"
    using c assms(2) by (simp_all add: ensurePageInRange_def search_changed_def number_or_def Let_def split: option.splits)
qed

end
