(* ===== verification/SettingsForm.thy ===== *)
theory SettingsForm
  imports JsJson
begin

text \<open>
  The forms of the system settings: \<open>features/system-settings/hooks/use-settings-form.ts\<close>, the mutation
  that saves one option (\<open>use-update-option.ts\<close>), the reading of saved options
  (\<open>use-system-options.ts\<close>), and the quota form that uses them
  (\<open>general/quota-settings-section.tsx\<close>). Values of a form are objects; a property that is
  \<open>undefined\<close> is absent. What the form library calls dirty is an argument.
\<close>

section \<open>Paths\<close>

definition isPlainObject :: "jsval \<Rightarrow> bool" where
  "isPlainObject v = (case v of JObj _ \<Rightarrow> True | _ \<Rightarrow> False)"

definition nextKey :: "jstr option \<Rightarrow> jstr \<Rightarrow> jstr" where
  "nextKey parent key = (case parent of Some p \<Rightarrow> if p \<noteq> [] then p @ 46 # key else key | None \<Rightarrow> key)"

lemma size_entry: "p \<in> set ps \<Longrightarrow> (k, v) = p \<Longrightarrow> size (v :: 'v :: size) < size_list (size_prod (\<lambda>x. 0) size) ps"
  by (induction ps) auto

function (sequential) flattenValues :: "jsval \<Rightarrow> jstr option \<Rightarrow> (jstr \<times> jsval) list \<Rightarrow> (jstr \<times> jsval) list" where
  "flattenValues (JObj ps) parent result =
     foldl (\<lambda>r (key, v). if isPlainObject v then flattenValues v (Some (nextKey parent key)) r
                         else obj_put (nextKey parent key) v r)
       result (own_entries ps)"
| "flattenValues values parent result = (case parent of Some p \<Rightarrow> obj_put p values result | None \<Rightarrow> result)"
  by pat_completeness auto
termination
  by (relation "measure (\<lambda>(v, _). size v)") (simp_all, drule (1) size_entry, simp)

declare flattenValues.simps [simp del]

text \<open>What the form library reports: a field is dirty, or an object of fields; anything else is skipped.\<close>

datatype dirty = DTrue | DOther | DFields "(jstr \<times> dirty) list"

definition has_fields :: "dirty \<Rightarrow> bool" where
  "has_fields d = (case d of DFields _ \<Rightarrow> True | _ \<Rightarrow> False)"

definition dirty_source :: "jsval option \<Rightarrow> jstr \<Rightarrow> jsval option" where
  "dirty_source values key =
     (case values of
        Some (JObj ps) \<Rightarrow> map_of ps key
      | Some (JArr xs) \<Rightarrow>
          (if key = js ''length'' then Some (JNum (num_of_int (int (length xs))))
           else case array_index key of Some i \<Rightarrow> if i < length xs then Some (xs ! i) else None | None \<Rightarrow> None)
      | _ \<Rightarrow> None)"

function collectDirtyValues ::
  "dirty \<Rightarrow> jsval option \<Rightarrow> jstr option \<Rightarrow> (jstr \<times> jsval option) list \<Rightarrow> (jstr \<times> jsval option) list" where
  "collectDirtyValues DTrue values parent result = (case parent of Some p \<Rightarrow> obj_put p values result | None \<Rightarrow> result)"
| "collectDirtyValues DOther values parent result = result"
| "collectDirtyValues (DFields ds) values parent result =
     foldl (\<lambda>r (key, d).
              if d = DTrue then obj_put (nextKey parent key) (dirty_source values key) r
              else if has_fields d then collectDirtyValues d (dirty_source values key) (Some (nextKey parent key)) r
              else r)
       result (own_entries ds)"
  by pat_completeness auto
termination
  by (relation "measure (\<lambda>(d, _). size d)") (simp_all, drule (1) size_entry, simp)

declare collectDirtyValues.simps [simp del]

text \<open>\<open>setDeepValue\<close>, on the segments of the path.\<close>

fun set_deep :: "(jstr \<times> jsval) list \<Rightarrow> jstr list \<Rightarrow> jsval \<Rightarrow> (jstr \<times> jsval) list" where
  "set_deep target [] value = target"
| "set_deep target [segment] value = obj_put segment value target"
| "set_deep target (segment # s # segments) value =
     (case map_of target segment of
        Some (JObj nxt) \<Rightarrow> obj_put segment (JObj (set_deep nxt (s # segments) value)) target
      | _ \<Rightarrow> obj_put segment (JObj (set_deep [] (s # segments) value)) target)"

definition setDeepValue :: "(jstr \<times> jsval) list \<Rightarrow> jstr \<Rightarrow> jsval \<Rightarrow> (jstr \<times> jsval) list" where
  "setDeepValue target path value = set_deep target (split_str [46] path) value"

function (sequential) expandDotPaths :: "jsval \<Rightarrow> jsval" where
  "expandDotPaths (JObj ps) =
     JObj (foldl (\<lambda>r (key, v). if 46 \<in> set key then setDeepValue r key v
                               else if isPlainObject v then obj_put key (expandDotPaths v) r
                               else obj_put key v r)
             [] (own_entries ps))"
| "expandDotPaths values = values"
  by pat_completeness auto
termination
  by (relation "measure size") (simp_all, drule (1) size_entry, simp)

declare expandDotPaths.simps [simp del]

section \<open>The hook\<close>

definition defaultCompare :: "jsval option \<Rightarrow> jsval option \<Rightarrow> bool" where
  "defaultCompare a b =
     (case (a, b) of
        (None, None) \<Rightarrow> True
      | (Some JNull, Some JNull) \<Rightarrow> True
      | (Some (JBool x), Some (JBool y)) \<Rightarrow> x = y
      | (Some (JNum m), Some (JNum n)) \<Rightarrow> m = n \<and> m \<noteq> NaN
      | (Some (JStr s), Some (JStr t)) \<Rightarrow> s = t
      | (Some (JArr xs), Some (JArr ys)) \<Rightarrow> stringify (JArr xs) = stringify (JArr ys)
      | (Some (JObj ps), Some (JObj qs)) \<Rightarrow> stringify (JObj ps) = stringify (JObj qs)
      | (Some (JArr xs), Some (JObj qs)) \<Rightarrow> stringify (JArr xs) = stringify (JObj qs)
      | (Some (JObj ps), Some (JArr ys)) \<Rightarrow> stringify (JObj ps) = stringify (JArr ys)
      | _ \<Rightarrow> False)"

text \<open>The refs of the hook, the values in the form, and the calls of \<open>onSubmit\<close> still awaited.\<close>

record settings_form =
  baselineRef :: "(jstr \<times> jsval) list"
  defaultValuesRef :: jsval
  serializedDefaultsRef :: jstr
  form_values :: jsval
  submitting :: "jsval list"

definition or_empty :: "jsval option \<Rightarrow> jsval" where
  "or_empty v = (case v of Some x \<Rightarrow> x | None \<Rightarrow> JObj [])"

definition useSettingsForm :: "jsval option \<Rightarrow> settings_form" where
  "useSettingsForm defaultValues =
     (let expanded = or_empty (map_option expandDotPaths defaultValues);
          flattened = flattenValues expanded None []
      in \<lparr>baselineRef = flattened, defaultValuesRef = expanded, serializedDefaultsRef = stringify (JObj flattened),
          form_values = expanded, submitting = []\<rparr>)"

text \<open>The effect that runs when the defaults have changed.\<close>

definition defaults_changed :: "jsval option \<Rightarrow> settings_form \<Rightarrow> settings_form" where
  "defaults_changed defaultValues st =
     (case defaultValues of
        None \<Rightarrow> st
      | Some v \<Rightarrow>
          (let expanded = expandDotPaths v; flattened = flattenValues expanded None []; serialized = stringify (JObj flattened)
           in if serialized = serializedDefaultsRef st then st
              else st\<lparr>baselineRef := flattened, defaultValuesRef := expanded, serializedDefaultsRef := serialized,
                     form_values := expanded\<rparr>))"

definition changedFields :: "dirty \<Rightarrow> jsval \<Rightarrow> settings_form \<Rightarrow> (jstr \<times> jsval option) list" where
  "changedFields dirtyFields data st =
     filter (\<lambda>(key, v). \<not> defaultCompare v (map_of (baselineRef st) key))
       (own_entries (collectDirtyValues dirtyFields (Some data) None []))"

datatype submit_outcome = NoChanges | Calls "(jstr \<times> jsval option) list"

text \<open>\<open>handleSubmit\<close> up to its \<open>await\<close>, and what follows when the call has been fulfilled.\<close>

definition handleSubmit :: "dirty \<Rightarrow> jsval \<Rightarrow> settings_form \<Rightarrow> submit_outcome \<times> settings_form" where
  "handleSubmit dirtyFields data st =
     (let changed = changedFields dirtyFields data st
      in if length changed = 0 then (NoChanges, st) else (Calls changed, st\<lparr>submitting := data # submitting st\<rparr>))"

definition submitted :: "jsval \<Rightarrow> settings_form \<Rightarrow> settings_form" where
  "submitted data st =
     (let flattened = flattenValues data None []
      in st\<lparr>baselineRef := flattened, defaultValuesRef := data, serializedDefaultsRef := stringify (JObj flattened),
           form_values := data, submitting := remove1 data (submitting st)\<rparr>)"

definition submit_failed :: "jsval \<Rightarrow> settings_form \<Rightarrow> settings_form" where
  "submit_failed data st = st\<lparr>submitting := remove1 data (submitting st)\<rparr>"

definition handleReset :: "settings_form \<Rightarrow> settings_form" where
  "handleReset st = st\<lparr>form_values := defaultValuesRef st\<rparr>"

inductive settings_step :: "settings_form \<Rightarrow> settings_form \<Rightarrow> bool" where
  Defaults: "settings_step st (defaults_changed v st)"
| Edit: "settings_step st (st\<lparr>form_values := v\<rparr>)"
| Submit: "settings_step st (snd (handleSubmit d data st))"
| Fulfilled: "data \<in> set (submitting st) \<Longrightarrow> settings_step st (submitted data st)"
| Rejected: "data \<in> set (submitting st) \<Longrightarrow> settings_step st (submit_failed data st)"
| Reset: "settings_step st (handleReset st)"

section \<open>Saving an option\<close>

text \<open>The answer to one request: an HTTP error, or a body with its flag.\<close>

datatype update_reply = HttpError | Answered bool

definition STATUS_RELATED_KEYS :: "jstr list" where
  "STATUS_RELATED_KEYS = map js
     [''theme.frontend'', ''HeaderNavModules'', ''SidebarModulesAdmin'', ''Notice'', ''LogConsumeEnabled'', ''QuotaPerUnit'',
      ''USDExchangeRate'', ''DisplayInCurrencyEnabled'', ''DisplayTokenStatEnabled'', ''console_setting.downloads'',
      ''console_setting.downloads_enabled'', ''general_setting.quota_display_type'',
      ''general_setting.custom_currency_symbol'', ''general_setting.custom_currency_code'',
      ''general_setting.custom_currency_exchange_rate'', ''general_setting.exchange_rate_auto_update_enabled'',
      ''general_setting.exchange_rate_auto_update_interval_minutes'', ''general_setting.exchange_rate_auto_updated_at'',
      ''general_setting.exchange_rate_provider'']"

datatype update_effect = RefetchOptions | RefetchStatus | DropCachedStatus | SavedToast | FailedToast

text \<open>The mutation's promise is rejected only by an HTTP error: the body of a refusal fulfils it.\<close>

definition useUpdateOption :: "jstr \<Rightarrow> update_reply \<Rightarrow> update_effect list \<times> bool" where
  "useUpdateOption key reply =
     (case reply of
        HttpError \<Rightarrow> ([FailedToast], False)
      | Answered success \<Rightarrow>
          (if success
           then [RefetchOptions] @ (if key \<in> set STATUS_RELATED_KEYS then [RefetchStatus, DropCachedStatus] else []) @ [SavedToast]
           else [FailedToast], True))"

text \<open>\<open>onSubmit\<close> of the quota form: the options one after the other; an error ends it. The result is
  whether the promise is fulfilled.\<close>

fun save_options :: "(jstr \<Rightarrow> jsval option \<Rightarrow> update_reply) \<Rightarrow> (jstr \<times> jsval option) list \<Rightarrow> (jstr \<times> jsval option) list \<times> bool" where
  "save_options server [] = ([], True)"
| "save_options server ((key, v) # rest) =
     (if snd (useUpdateOption key (server key v))
      then (let (sent, ok) = save_options server rest in ((key, v) # sent, ok))
      else ([(key, v)], False))"

definition save_quota :: "(jstr \<Rightarrow> jsval option \<Rightarrow> update_reply) \<Rightarrow> dirty \<Rightarrow> jsval \<Rightarrow> settings_form
    \<Rightarrow> (jstr \<times> jsval option) list \<times> settings_form" where
  "save_quota server d data st =
     (case handleSubmit d data st of
        (NoChanges, st') \<Rightarrow> ([], st')
      | (Calls changed, st') \<Rightarrow>
          (case save_options server (own_entries changed) of
             (sent, ok) \<Rightarrow> (sent, if ok then submitted data st' else submit_failed data st')))"

section \<open>Reading the options\<close>

definition js_typeof :: "jsval \<Rightarrow> string" where
  "js_typeof v = (case v of JBool _ \<Rightarrow> ''boolean'' | JNum _ \<Rightarrow> ''number'' | JStr _ \<Rightarrow> ''string'' | _ \<Rightarrow> ''object'')"

definition parseOptionValueSafe :: "jstr \<Rightarrow> jsval \<Rightarrow> jsval option" where
  "parseOptionValueSafe value defaultValue =
     (case defaultValue of
        JBool _ \<Rightarrow> Some (JBool (value = js ''true'' \<or> value = js ''1''))
      | JNum _ \<Rightarrow>
          (let trimmed = trim value in
           if trimmed = [] then None
           else let parsed = to_number trimmed in if parsed = NaN then None else Some (JNum parsed))
      | JArr ds \<Rightarrow>
          (case json_parse value of
             Some (JArr parsed) \<Rightarrow>
               (if 0 < length ds \<and> list_ex (\<lambda>el. js_typeof el \<noteq> js_typeof (hd ds)) parsed then None
                else Some (JArr parsed))
           | _ \<Rightarrow> None)
      | _ \<Rightarrow> Some (JStr value))"

definition getOptionValue :: "(jstr \<times> jstr) list option \<Rightarrow> (jstr \<times> jsval) list \<Rightarrow> (jstr \<times> jsval) list" where
  "getOptionValue options defaults =
     (case options of
        None \<Rightarrow> defaults
      | Some os \<Rightarrow>
          foldl (\<lambda>result (key, value).
                   case map_of defaults key of
                     None \<Rightarrow> result
                   | Some d \<Rightarrow> obj_put key (case parseOptionValueSafe value d of Some v \<Rightarrow> v | None \<Rightarrow> d) result)
            (own_entries defaults) os)"

end
