(* ===== verification/SettingsFormProps.thy ===== *)
theory SettingsFormProps
  imports SettingsForm
begin

text \<open>
  Properties of the forms of the system settings: what the dotted defaults become and how they are
  flattened again, what is sent, and what happens to an update the server refuses.
\<close>

section \<open>Paths and leaves\<close>

text \<open>The keys of a nested form: no empty one, and none with a dot.\<close>

definition seg_ok :: "jstr \<Rightarrow> bool" where
  "seg_ok k \<longleftrightarrow> k \<noteq> [] \<and> 46 \<notin> set k"

fun tree_ok :: "jsval \<Rightarrow> bool" where
  "tree_ok (JObj ps) \<longleftrightarrow> distinct (map fst ps) \<and> (\<forall>p\<in>set ps. seg_ok (fst p) \<and> tree_ok (snd p))"
| "tree_ok _ \<longleftrightarrow> True"

text \<open>The value a path leads to, if it is no object.\<close>

fun leaf_at :: "jsval \<Rightarrow> jstr list \<Rightarrow> jsval option" where
  "leaf_at v [] = (if isPlainObject v then None else Some v)"
| "leaf_at v (k # ks) = (case v of JObj ps \<Rightarrow> (case map_of ps k of Some x \<Rightarrow> leaf_at x ks | None \<Rightarrow> None) | _ \<Rightarrow> None)"

definition path_key :: "jstr list \<Rightarrow> jstr option" where
  "path_key p = (if p = [] then None else Some (join [46] p))"

definition under :: "jstr list \<Rightarrow> jsval \<Rightarrow> jstr list \<Rightarrow> jsval option" where
  "under p v s = (if take (length p) s = p then leaf_at v (drop (length p) s) else None)"

lemma join_snoc: "p \<noteq> [] \<Longrightarrow> join sep (p @ [k]) = join sep p @ sep @ k"
  by (induction p rule: list_nonempty_induct) (auto simp: join_Cons)

lemma join_ne: "p \<noteq> [] \<Longrightarrow> \<forall>k\<in>set p. seg_ok k \<Longrightarrow> join [46] p \<noteq> []"
  by (cases p; cases "tl p") (auto simp: seg_ok_def join_Cons)

lemma nextKey_path: "\<forall>k\<in>set p. seg_ok k \<Longrightarrow> Some (nextKey (path_key p) k) = path_key (p @ [k])"
  using join_ne [of p] by (simp add: nextKey_def path_key_def join_snoc)

lemma flatten_leaf: "\<not> isPlainObject v \<Longrightarrow> flattenValues v (Some q) r = obj_put q v r"
  by (cases v) (simp_all add: isPlainObject_def flattenValues.simps)

lemma flatten_obj:
  "flattenValues (JObj ps) parent r = foldl (\<lambda>r (k, v). flattenValues v (Some (nextKey parent k)) r) r (own_entries ps)"
proof -
  have "(if isPlainObject v then flattenValues v (Some q) r else obj_put q v r) = flattenValues v (Some q) r" for v q r
    by (simp add: flatten_leaf)
  then show ?thesis by (simp add: flattenValues.simps)
qed

lemma foldl_lookup:
  assumes "\<And>k v r. (k, v) \<in> set qs \<Longrightarrow> map_of (f r (k, v)) key = (case g k v of Some x \<Rightarrow> Some x | None \<Rightarrow> map_of r key)"
  shows "map_of (foldl f r qs) key = foldl (\<lambda>u (k, v). case g k v of Some x \<Rightarrow> Some x | None \<Rightarrow> u) (map_of r key) qs"
  using assms
proof (induction qs arbitrary: r)
  case (Cons q qs)
  obtain k v where q: "q = (k, v)" by force
  then have "map_of (f r q) key = (case g k v of Some x \<Rightarrow> Some x | None \<Rightarrow> map_of r key)" using Cons.prems by simp
  then show ?case using Cons q by simp
qed simp

lemma foldl_one:
  "distinct (map fst qs) \<Longrightarrow>
     foldl (\<lambda>u (k, v). case (if k = k0 then h v else None) of Some x \<Rightarrow> Some x | None \<Rightarrow> u) u qs
       = (case map_of qs k0 of Some v \<Rightarrow> (case h v of Some x \<Rightarrow> Some x | None \<Rightarrow> u) | None \<Rightarrow> u)"
proof (induction qs arbitrary: u)
  case (Cons q qs)
  obtain k v where q: "q = (k, v)" by force
  then have "k = k0 \<Longrightarrow> map_of qs k0 = None" using Cons.prems by (simp add: map_of_eq_None_iff)
  then show ?case using Cons q by (auto split: option.splits)
qed simp

lemma under_snoc:
  "under (p @ [k]) v s =
     (if length p < length s \<and> take (length p) s = p \<and> k = s ! length p then leaf_at v (drop (Suc (length p)) s) else None)"
proof -
  have "take (Suc (length p)) s = p @ [k] \<longleftrightarrow> length p < length s \<and> take (length p) s = p \<and> k = s ! length p"
    by (cases "length p < length s") (auto simp: take_Suc_conv_app_nth dest: arg_cong [where f = length])
  then show ?thesis by (simp add: under_def)
qed

lemma flatten_lookup:
  assumes "tree_ok v" and "\<forall>k\<in>set p. seg_ok k" and "isPlainObject v \<or> p \<noteq> []"
  shows "map_of (flattenValues v (path_key p) r) key =
     (case under p v (split_str [46] key) of Some x \<Rightarrow> Some x | None \<Rightarrow> map_of r key)"
  using assms
proof (induction v arbitrary: p r rule: measure_induct_rule [of size])
  case (less v)
  let ?s = "split_str [46] key"
  show ?case
  proof (cases "isPlainObject v")
    case False
    then have p: "p \<noteq> []" using less.prems by simp
    have "?s = p \<longleftrightarrow> key = join [46] p"
      using split_join [of p 46] join_split [of "[46]" key] less.prems(2) p by (auto simp: seg_ok_def)
    moreover have "under p v ?s = (if ?s = p then Some v else None)"
      using False by (cases "drop (length p) ?s") (auto simp: under_def isPlainObject_def split: jsval.splits dest: arg_cong [where f = length])
    ultimately show ?thesis using False p by (simp add: path_key_def flatten_leaf)
  next
    case True
    then obtain ps where v: "v = JObj ps" by (auto simp: isPlainObject_def split: jsval.splits)
    have d: "distinct (map fst ps)" and ok: "\<And>k x. (k, x) \<in> set ps \<Longrightarrow> seg_ok k \<and> tree_ok x"
      using less.prems(1) v by force+
    have "map_of (flattenValues x (Some (nextKey (path_key p) k)) r) key
        = (case under (p @ [k]) x ?s of Some y \<Rightarrow> Some y | None \<Rightarrow> map_of r key)"
      if "(k, x) \<in> set (own_entries ps)" for k x r
    proof -
      have "(k, x) \<in> set ps" using that by simp
      then show ?thesis unfolding nextKey_path [OF less.prems(2)]
        using less.IH [of x "p @ [k]" r] ok [of k x] size_entry [of "(k, x)" ps k x] less.prems(2) by (simp add: v)
    qed
    then have l: "map_of (flattenValues v (path_key p) r) key
        = foldl (\<lambda>u (k, x). case under (p @ [k]) x ?s of Some y \<Rightarrow> Some y | None \<Rightarrow> u) (map_of r key) (own_entries ps)"
      unfolding v flatten_obj by (intro foldl_lookup) simp
    show ?thesis
    proof (cases "length p < length ?s \<and> take (length p) ?s = p")
      case True
      then have dr: "drop (length p) ?s = ?s ! length p # drop (Suc (length p)) ?s" by (simp add: Cons_nth_drop_Suc)
      show ?thesis unfolding l under_snoc using True
        by (simp add: foldl_one [OF distinct_own_entries [OF d]] map_of_own_entries [OF d])
          (simp add: under_def dr v split: option.split)
    next
      case False
      then have "under (p @ [k]) x ?s = None" for k x by (auto simp: under_snoc)
      moreover have "under p v ?s = None" using False v by (auto simp: under_def isPlainObject_def)
      moreover have "foldl (\<lambda>u (k, x). u) u qs = u" for u :: "jsval option" and qs :: "(jstr \<times> jsval) list"
        by (induction qs) auto
      ultimately show ?thesis unfolding l by simp
    qed
  qed
qed

lemma flatten_tree:
  "tree_ok (JObj ps) \<Longrightarrow> map_of (flattenValues (JObj ps) None []) key = leaf_at (JObj ps) (split_str [46] key)"
  using flatten_lookup [of "JObj ps" "[]" "[]" key] by (simp add: path_key_def under_def isPlainObject_def split: option.split)

section \<open>Dotted defaults\<close>

definition inner_obj :: "(jstr \<times> jsval) list \<Rightarrow> jstr \<Rightarrow> (jstr \<times> jsval) list" where
  "inner_obj t k = (case map_of t k of Some (JObj nxt) \<Rightarrow> nxt | _ \<Rightarrow> [])"

lemma set_deep_Cons: "set_deep t (k # s # ks) v = obj_put k (JObj (set_deep (inner_obj t k) (s # ks) v)) t"
  by (simp add: inner_obj_def split: option.split jsval.split)

lemma leaf_at_inner: "q \<noteq> [] \<Longrightarrow> leaf_at (JObj (inner_obj t k)) q = leaf_at (JObj t) (k # q)"
  by (cases q) (auto simp: inner_obj_def split: option.split jsval.split)

lemma leaf_at_set_deep:
  assumes "p \<noteq> []" and "\<not> isPlainObject v"
  shows "leaf_at (JObj (set_deep t p v)) q =
     (if q = p then Some v else if prefix q p \<or> prefix p q then None else leaf_at (JObj t) q)"
  using assms(1)
proof (induction p arbitrary: t q rule: list_nonempty_induct)
  case (single k)
  show ?case
  proof (cases q)
    case (Cons k' q')
    then show ?thesis using assms(2) by (cases q') (auto simp: isPlainObject_def split: jsval.splits)
  qed (simp add: isPlainObject_def)
next
  case (cons k p)
  obtain s ks where p: "p = s # ks" using cons.hyps(1) by (cases p) simp_all
  show ?case
  proof (cases q)
    case (Cons k' q')
    have "leaf_at (JObj (set_deep t (k # p) v)) q =
        (if k' = k then leaf_at (JObj (set_deep (inner_obj t k) p v)) q' else leaf_at (JObj t) q)"
      unfolding p set_deep_Cons Cons by (simp add: eq_commute)
    also have "\<dots> = (if k' = k then if q' = p then Some v else if prefix q' p \<or> prefix p q' then None else leaf_at (JObj (inner_obj t k)) q'
        else leaf_at (JObj t) q)" by (simp add: cons.IH)
    finally show ?thesis using leaf_at_inner [of q' t k] by (cases "q' = []") (auto simp: Cons)
  qed (simp add: isPlainObject_def)
qed

lemma tree_ok_put: "tree_ok (JObj t) \<Longrightarrow> seg_ok k \<Longrightarrow> tree_ok v \<Longrightarrow> tree_ok (JObj (obj_put k v t))"
  using set_obj_put_subset [of k v t] by auto

lemma tree_ok_inner: "tree_ok (JObj t) \<Longrightarrow> tree_ok (JObj (inner_obj t k))"
proof (cases "\<exists>n. map_of t k = Some (JObj n)")
  case True
  then obtain n where n: "map_of t k = Some (JObj n)" by blast
  assume "tree_ok (JObj t)"
  then have "tree_ok (snd (k, JObj n))" using map_of_SomeD [OF n] by (metis tree_ok.simps(1))
  then show ?thesis by (simp add: inner_obj_def n)
qed (auto simp: inner_obj_def split: option.split jsval.split)

lemma tree_ok_set_deep:
  assumes "p \<noteq> []" and "\<forall>k\<in>set p. seg_ok k" and "tree_ok v" and "tree_ok (JObj t)"
  shows "tree_ok (JObj (set_deep t p v))"
  using assms
proof (induction p arbitrary: t rule: list_nonempty_induct)
  case (single k)
  then have "tree_ok (JObj (obj_put k v t))" by (intro tree_ok_put) simp_all
  then show ?case by (simp only: set_deep.simps)
next
  case (cons k p)
  obtain s ks where p: "p = s # ks" using cons.hyps(1) by (cases p) simp_all
  have "seg_ok k" "\<forall>k\<in>set p. seg_ok k" using cons.prems(1) by simp_all
  moreover have "tree_ok (JObj (set_deep (inner_obj t k) p v))"
    by (rule cons.IH [OF \<open>\<forall>k\<in>set p. seg_ok k\<close> cons.prems(2) tree_ok_inner [OF cons.prems(3)]])
  ultimately show ?case unfolding p set_deep_Cons using cons.prems(3) by (intro tree_ok_put)
qed

text \<open>Defaults written with dotted keys: every key a path of non-empty names, none leading through another.\<close>

definition dotted_ok :: "(jstr \<times> jsval) list \<Rightarrow> bool" where
  "dotted_ok ps \<longleftrightarrow> distinct (map fst ps)
     \<and> (\<forall>(k, v)\<in>set ps. \<not> isPlainObject v \<and> (\<forall>s\<in>set (split_str [46] k). s \<noteq> [])
          \<and> (\<forall>(k', v')\<in>set ps. prefix (split_str [46] k) (split_str [46] k') \<longrightarrow> k = k'))"

lemma expand_flat:
  assumes "\<forall>(k, v)\<in>set ps. \<not> isPlainObject v"
  shows "expandDotPaths (JObj ps) = JObj (foldl (\<lambda>r (k, v). set_deep r (split_str [46] k) v) [] (own_entries ps))"
proof -
  have "foldl (\<lambda>r (k, v). if 46 \<in> set k then setDeepValue r k v else if isPlainObject v then obj_put k (expandDotPaths v) r
          else obj_put k v r) r qs = foldl (\<lambda>r (k, v). set_deep r (split_str [46] k) v) r qs"
    if "\<forall>(k, v)\<in>set qs. \<not> isPlainObject v" for r qs
    using that by (induction qs arbitrary: r) (auto simp: setDeepValue_def split_char_absent)
  then show ?thesis using assms by (simp add: expandDotPaths.simps)
qed

lemma set_all:
  assumes "\<forall>(p, v)\<in>set ds. p \<noteq> [] \<and> \<not> isPlainObject v \<and> (\<forall>k\<in>set p. seg_ok k)"
    and "distinct (map fst ds)" and "\<forall>(p, v)\<in>set ds. \<forall>(p', v')\<in>set ds. prefix p p' \<longrightarrow> p = p'"
    and "tree_ok (JObj t)"
  shows "tree_ok (JObj (foldl (\<lambda>r (p, v). set_deep r p v) t ds))
     \<and> leaf_at (JObj (foldl (\<lambda>r (p, v). set_deep r p v) t ds)) q
         = (case map_of ds q of Some v \<Rightarrow> Some v
            | None \<Rightarrow> if \<exists>(p, v)\<in>set ds. prefix p q \<or> prefix q p then None else leaf_at (JObj t) q)"
  using assms
proof (induction ds arbitrary: t)
  case (Cons d ds)
  obtain p v where d: "d = (p, v)" by force
  have pv: "p \<noteq> []" "\<not> isPlainObject v" "\<forall>k\<in>set p. seg_ok k" "map_of ds p = None"
    using Cons.prems(1,2) d by (auto simp: map_of_eq_None_iff)
  have "tree_ok v" using pv(2) by (cases v) (simp_all add: isPlainObject_def)
  then have t: "tree_ok (JObj (set_deep t p v))" by (rule tree_ok_set_deep [OF pv(1,3) _ Cons.prems(4)])
  have apart: "\<not> prefix p' p \<and> \<not> prefix p p'" if "(p', v') \<in> set ds" for p' v'
  proof -
    have "p' \<in> fst ` set ds" using that by force
    then have "p' \<noteq> p" using pv(4) by (auto simp: map_of_eq_None_iff)
    moreover have "prefix p p' \<longrightarrow> p = p'" "prefix p' p \<longrightarrow> p' = p" using Cons.prems(3) that d by auto
    ultimately show ?thesis by blast
  qed
  have "\<forall>(p, v)\<in>set ds. \<forall>(p', v')\<in>set ds. prefix p p' \<longrightarrow> p = p'" using Cons.prems(3) by auto
  note ih = Cons.IH [OF _ _ this t]
  have "leaf_at (JObj (foldl (\<lambda>r (p, v). set_deep r p v) t (d # ds))) q
      = (case map_of ds q of Some v \<Rightarrow> Some v
         | None \<Rightarrow> if \<exists>(p, v)\<in>set ds. prefix p q \<or> prefix q p then None else leaf_at (JObj (set_deep t p v)) q)"
    using ih Cons.prems(1,2) d by simp
  also have "\<dots> = (case map_of (d # ds) q of Some v \<Rightarrow> Some v
         | None \<Rightarrow> if \<exists>(p, v)\<in>set (d # ds). prefix p q \<or> prefix q p then None else leaf_at (JObj t) q)"
  proof (cases "q = p")
    case True
    have "\<not> (\<exists>(p', v)\<in>set ds. prefix p' p \<or> prefix p p')" using apart by blast
    then show ?thesis using pv(4) by (simp add: True d leaf_at_set_deep [OF pv(1,2)])
  next
    case False
    then show ?thesis by (cases "map_of ds q") (simp_all add: d leaf_at_set_deep [OF pv(1,2)])
  qed
  finally show ?case using ih Cons.prems(1,2) d by simp
qed simp

lemma split_inj: "split_str [46] k = split_str [46] k' \<longleftrightarrow> k = k'"
  using join_split [of "[46]"] by (metis list.distinct(1))

lemma map_of_split: "map_of (map (\<lambda>(k, v). (split_str [46] k, v)) ps) (split_str [46] key) = map_of ps key"
  by (induction ps) (auto simp: split_inj)

lemma leaf_at_empty: "leaf_at (JObj []) q = None"
  by (cases q) (simp_all add: isPlainObject_def)

text \<open>C33 Defaults with dotted keys become the nested object the form starts with: at the path of segments
  of every key, and at no other path, it has the default of that key, and none of its keys has a
  dot. Its flattening, the baseline of later comparisons, gives every dotted key its default again
  and no other key a value. The keys are distinct, their segments are not empty, none is a path to another, and no default is an object.\<close>

theorem dotted_defaults:
  assumes "dotted_ok ps"
  shows "let st = useSettingsForm (Some (JObj ps)) in
    (\<exists>t. form_values st = JObj t) \<and> tree_ok (form_values st)
    \<and> leaf_at (form_values st) = map_of (map (\<lambda>(k, v). (split_str [46] k, v)) ps)
    \<and> map_of (baselineRef st) = map_of ps
    \<and> defaultValuesRef st = form_values st"
proof -
  let ?ds = "map (\<lambda>(k, v). (split_str [46] k, v)) (own_entries ps)"
  let ?t = "foldl (\<lambda>r (p, v). set_deep r p v) [] ?ds"
  have d: "distinct (map fst ps)" and f: "\<forall>(k, v)\<in>set ps. \<not> isPlainObject v"
    using assms by (auto simp: dotted_ok_def)
  have inj: "distinct (map (\<lambda>(k, v). split_str [46] k) ps')" if "distinct (map fst ps')" for ps' :: "(jstr \<times> jsval) list"
    using that by (induction ps') (auto simp: split_inj image_iff)
  from inj [OF distinct_own_entries [OF d]] have ds: "distinct (map fst ?ds)" by (simp add: comp_def case_prod_unfold)
  have "\<forall>(p, v)\<in>set ?ds. p \<noteq> [] \<and> \<not> isPlainObject v \<and> (\<forall>k\<in>set p. seg_ok k)"
    "\<forall>(p, v)\<in>set ?ds. \<forall>(p', v')\<in>set ?ds. prefix p p' \<longrightarrow> p = p'"
    using assms split_char_no_sep [where c = 46]
    by (auto simp: dotted_ok_def seg_ok_def split_str_nonempty split_inj)
  note all = set_all [OF this(1) ds this(2), of "[]"]
  have e: "expandDotPaths (JObj ps) = JObj ?t"
    unfolding expand_flat [OF f] by (simp add: foldl_map case_prod_unfold)
  have tree: "tree_ok (JObj ?t)" using all by simp
  have ds': "distinct (map fst (map (\<lambda>(k, v). (split_str [46] k, v)) ps))"
    using inj [OF d] by (simp add: comp_def case_prod_unfold)
  have same: "map_of ?ds = map_of (map (\<lambda>(k, v). (split_str [46] k, v)) ps)"
    unfolding map_of_inject_set [OF ds ds'] by simp
  have leaf: "leaf_at (JObj ?t) q = map_of ?ds q" for q
    using all [of q] by (simp add: leaf_at_empty split: option.split)
  have "map_of (flattenValues (JObj ?t) None []) key = map_of ps key" for key
  proof -
    have "map_of (flattenValues (JObj ?t) None []) key = leaf_at (JObj ?t) (split_str [46] key)"
      using tree by (rule flatten_tree)
    then show ?thesis unfolding leaf same by (simp add: map_of_split)
  qed
  moreover have "leaf_at (JObj ?t) = map_of (map (\<lambda>(k, v). (split_str [46] k, v)) ps)"
    unfolding same [symmetric] using leaf by (rule ext)
  ultimately show ?thesis
    using tree by (auto simp: useSettingsForm_def or_empty_def Let_def e)
qed

definition sample_defaults :: "(jstr \<times> jsval) list" where
  "sample_defaults = [(js ''QuotaForNewUser'', JNum (Fin 0)), (js ''general_setting.docs_link'', JStr (js ''/docs'')),
     (js ''general_setting.ping.interval'', JNum (Fin 60)), (js ''theme.frontend'', JStr (js ''default''))]"

lemma dotted_defaults_witness:
  "leaf_at (form_values (useSettingsForm (Some (JObj sample_defaults)))) [js ''general_setting'', js ''ping'', js ''interval'']
      = Some (JNum (Fin 60))
   \<and> map_of (baselineRef (useSettingsForm (Some (JObj sample_defaults)))) = map_of sample_defaults"
proof -
  have ok: "dotted_ok sample_defaults" by code_simp
  have "map_of (map (\<lambda>(k, v). (split_str [46] k, v)) sample_defaults) [js ''general_setting'', js ''ping'', js ''interval'']
      = Some (JNum (Fin 60))" by code_simp
  then show ?thesis using dotted_defaults [OF ok] by (simp add: Let_def)
qed

section \<open>What is sent\<close>

text \<open>The dirty fields the library reports for data: fields of nested objects whose values are no objects.\<close>

fun fits :: "dirty \<Rightarrow> jsval \<Rightarrow> bool" where
  "fits DOther v \<longleftrightarrow> True"
| "fits DTrue v \<longleftrightarrow> \<not> isPlainObject v"
| "fits (DFields ds) v \<longleftrightarrow> isPlainObject v \<and> (\<forall>d\<in>set ds. seg_ok (fst d)
     \<and> (case dirty_source (Some v) (fst d) of Some x \<Rightarrow> fits (snd d) x | None \<Rightarrow> snd d = DOther))"

fun nan_free :: "jsval \<Rightarrow> bool" where
  "nan_free (JNum n) \<longleftrightarrow> n \<noteq> NaN"
| "nan_free (JObj ps) \<longleftrightarrow> (\<forall>p\<in>set ps. nan_free (snd p))"
| "nan_free _ \<longleftrightarrow> True"

lemma collect_simps:
  "collectDirtyValues DTrue v (Some q) r = obj_put q v r"
  "collectDirtyValues DOther v parent r = r"
  "collectDirtyValues (DFields ds) v parent r
     = foldl (\<lambda>r (k, d). collectDirtyValues d (dirty_source v k) (Some (nextKey parent k)) r) r (own_entries ds)"
proof -
  show t: "collectDirtyValues DTrue v (Some q) r = obj_put q v r" for v q r by (simp add: collectDirtyValues.simps)
  show o: "collectDirtyValues DOther v parent r = r" for v parent r by (simp add: collectDirtyValues.simps)
  have "(if d = DTrue then obj_put q x r else if has_fields d then collectDirtyValues d x (Some q) r else r)
      = collectDirtyValues d x (Some q) r" for d x q r
    by (cases d) (simp_all add: t o has_fields_def)
  then show "collectDirtyValues (DFields ds) v parent r
     = foldl (\<lambda>r (k, d). collectDirtyValues d (dirty_source v k) (Some (nextKey parent k)) r) r (own_entries ds)"
    by (simp add: collectDirtyValues.simps)
qed

lemma set_foldl: "(\<And>r q. q \<in> set qs \<Longrightarrow> set (f r q) \<subseteq> set r \<union> g) \<Longrightarrow> set (foldl f r qs) \<subseteq> set r \<union> g"
proof (induction qs arbitrary: r)
  case (Cons q qs)
  have "set (f r q) \<subseteq> set r \<union> g" using Cons.prems by simp
  moreover have "set (foldl f (f r q) qs) \<subseteq> set (f r q) \<union> g" using Cons by simp
  ultimately show ?case by auto
qed simp

lemma collected:
  assumes "fits d v" and "\<forall>k\<in>set p. seg_ok k" and "d \<noteq> DTrue \<or> p \<noteq> []"
  shows "set (collectDirtyValues d (Some v) (path_key p) r)
     \<subseteq> set r \<union> {(join [46] (p @ q), Some x) | q x. leaf_at v q = Some x \<and> (\<forall>k\<in>set (p @ q). seg_ok k) \<and> p @ q \<noteq> []}"
  using assms
proof (induction d arbitrary: v p r rule: measure_induct_rule [of size])
  case (less d)
  show ?case
  proof (cases d)
    case DTrue
    then have v: "leaf_at v [] = Some v" and p: "p \<noteq> []" using less.prems by simp_all
    have c: "collectDirtyValues d (Some v) (path_key p) r = obj_put (join [46] p) (Some v) r"
      using p by (simp add: DTrue path_key_def collect_simps(1))
    have m: "(join [46] p, Some v) \<in> {(join [46] (p @ q), Some x) | q x. leaf_at v q = Some x \<and> (\<forall>k\<in>set (p @ q). seg_ok k) \<and> p @ q \<noteq> []}"
      using v p less.prems(2) by (intro CollectI exI [of _ "[]"] exI [of _ v]) simp
    show ?thesis unfolding c using set_obj_put_subset [of "join [46] p" "Some v" r] m by blast
  next
    case DOther
    then show ?thesis by (simp add: collect_simps(2))
  next
    case (DFields ds)
    then obtain ps where v: "v = JObj ps" using less.prems(1) by (auto simp: isPlainObject_def split: jsval.splits)
    show ?thesis unfolding DFields collect_simps(3)
    proof (rule set_foldl)
      fix r :: "(jstr \<times> jsval option) list" and e assume e: "e \<in> set (own_entries ds)"
      obtain k d' where kd: "e = (k, d')" by force
      then have m: "(k, d') \<in> set ds" using e by simp
      then have s: "size d' < size d" using size_entry [of "(k, d')" ds k d'] by (simp add: DFields)
      have "\<forall>d\<in>set ds. seg_ok (fst d) \<and> (case dirty_source (Some v) (fst d) of Some x \<Rightarrow> fits (snd d) x | None \<Rightarrow> snd d = DOther)"
        using less.prems(1) by (simp add: DFields)
      from bspec [OF this m, unfolded fst_conv snd_conv] have ok: "seg_ok k"
        and src: "case dirty_source (Some v) k of Some x \<Rightarrow> fits d' x | None \<Rightarrow> d' = DOther" by simp_all
      show "set ((\<lambda>r (k, d). collectDirtyValues d (dirty_source (Some v) k) (Some (nextKey (path_key p) k)) r) r e)
          \<subseteq> set r \<union> {(join [46] (p @ q), Some x) | q x. leaf_at v q = Some x \<and> (\<forall>k\<in>set (p @ q). seg_ok k) \<and> p @ q \<noteq> []}"
      proof (cases "dirty_source (Some v) k")
        case None
        then show ?thesis using src by (simp add: kd collect_simps(2))
      next
        case (Some x)
        have sub: "leaf_at x q = leaf_at v (k # q)" for q using Some by (simp add: v dirty_source_def)
        have "set (collectDirtyValues d' (Some x) (path_key (p @ [k])) r)
            \<subseteq> set r \<union> {(join [46] ((p @ [k]) @ q), Some y) | q y. leaf_at x q = Some y \<and> (\<forall>k\<in>set ((p @ [k]) @ q). seg_ok k) \<and> (p @ [k]) @ q \<noteq> []}"
          using src Some s ok less.prems(2) by (intro less.IH) auto
        then show ?thesis unfolding sub by (fastforce simp: kd Some nextKey_path [OF less.prems(2)])
      qed
    qed
  qed
qed

lemma leaf_number: "leaf_at v q = Some x \<Longrightarrow> nan_free v \<Longrightarrow> x \<noteq> JNum NaN"
proof (induction q arbitrary: v)
  case (Cons k q)
  then show ?case by (auto split: jsval.splits option.splits dest!: map_of_SomeD) fastforce
qed (auto split: if_splits)

lemma compare_refl: "x \<noteq> JNum NaN \<Longrightarrow> defaultCompare (Some x) (Some x)"
  by (cases x) (simp_all add: defaultCompare_def)

text \<open>Right after a submission the same data have no changes.\<close>

lemma nothing_left:
  assumes "tree_ok data" and "isPlainObject data" and "nan_free data" and "fits d data" and "d \<noteq> DTrue"
  shows "handleSubmit d data (submitted data st) = (NoChanges, submitted data st)"
proof -
  obtain ps where data: "data = JObj ps" using assms(2) by (auto simp: isPlainObject_def split: jsval.splits)
  have "defaultCompare y (map_of (baselineRef (submitted data st)) k)"
    if "(k, y) \<in> set (collectDirtyValues d (Some data) None [])" for k y
  proof -
    have "(k, y) \<in> {(join [46] q, Some x) | q x. leaf_at data q = Some x \<and> (\<forall>k\<in>set q. seg_ok k) \<and> q \<noteq> []}"
      using collected [OF assms(4), of "[]" "[]"] assms(5) that by (simp add: path_key_def) blast
    then obtain q x where q: "k = join [46] q" "y = Some x" "leaf_at data q = Some x" "\<forall>k\<in>set q. seg_ok k" "q \<noteq> []" by blast
    have "split_str [46] k = q" using q by (simp add: split_join seg_ok_def)
    then have "map_of (flattenValues data None []) k = Some x" using flatten_tree [of ps k] assms(1) q(3) by (simp add: data)
    then show ?thesis using compare_refl leaf_number [OF q(3) assms(3)] q(2) by (simp add: submitted_def Let_def)
  qed
  then have "changedFields d data (submitted data st) = []" by (auto simp: changedFields_def filter_empty_conv)
  then show ?thesis by (simp add: handleSubmit_def)
qed

text \<open>C34 An update the server refuses counts as saved: the promise of a refusal is fulfilled, so the form takes
  the refused values for its baseline, and submitting them again sends nothing.\<close>

theorem refused_update_forgotten:
  assumes "tree_ok data" and "isPlainObject data" and "nan_free data" and "fits d' data" and "d' \<noteq> DTrue"
    and "changedFields d data st \<noteq> []"
  shows "case save_quota (\<lambda>key v. Answered False) d data st of (sent, st') \<Rightarrow>
       set sent = set (changedFields d data st) \<and> baselineRef st' = flattenValues data None []
     \<and> save_quota server d' data st' = ([], st')"
proof -
  have s: "save_options (\<lambda>key v. Answered False) xs = (xs, True)" for xs
    by (induction xs) (auto simp: useUpdateOption_def)
  let ?st = "st\<lparr>submitting := data # submitting st\<rparr>"
  have "save_quota (\<lambda>key v. Answered False) d data st = (own_entries (changedFields d data st), submitted data ?st)"
    using assms(6) by (simp add: save_quota_def handleSubmit_def Let_def s)
  moreover have "save_quota server d' data (submitted data ?st) = ([], submitted data ?st)"
    by (simp add: save_quota_def nothing_left [OF assms(1-5)])
  moreover have "baselineRef (submitted data ?st) = flattenValues data None []" by (simp add: submitted_def Let_def)
  ultimately show ?thesis by simp
qed

definition sample_data :: jsval where
  "sample_data = JObj [(js ''QuotaForNewUser'', JNum (Fin 500)), (js ''general_setting'', JObj [(js ''docs_link'', JStr (js ''/docs''))])]"

definition sample_dirty :: dirty where
  "sample_dirty = DFields [(js ''QuotaForNewUser'', DTrue), (js ''general_setting'', DFields [(js ''docs_link'', DOther)])]"

lemma refused_update_forgotten_witness:
  "case save_quota (\<lambda>key v. Answered False) sample_dirty sample_data (useSettingsForm None) of
     (sent, st') \<Rightarrow>
       set sent = set (changedFields sample_dirty sample_data (useSettingsForm None))
     \<and> baselineRef st' = flattenValues sample_data None []
     \<and> save_quota (\<lambda>key v. Answered True) sample_dirty sample_data st' = ([], st')"
  by (rule refused_update_forgotten) code_simp+

section \<open>The state of the hook\<close>

text \<open>In every state the hook reaches, the baseline and its text belong to the values a reset returns to.\<close>

lemma settings_consistent:
  assumes "settings_step\<^sup>*\<^sup>* (useSettingsForm v) st"
  shows "baselineRef st = flattenValues (form_values (handleReset st)) None []
     \<and> serializedDefaultsRef st = stringify (JObj (baselineRef st))"
  using assms
proof (induction rule: rtranclp_induct)
  case base
  then show ?case by (simp add: useSettingsForm_def handleReset_def Let_def)
next
  case (step st st')
  from step.hyps(2) step.IH show ?case
    by cases (simp_all add: defaults_changed_def handleSubmit_def submitted_def submit_failed_def handleReset_def Let_def
        split: option.splits)
qed

text \<open>New defaults replace what the user has typed.\<close>

lemma defaults_overwrite_edits:
  assumes "stringify (JObj (flattenValues (expandDotPaths v) None [])) \<noteq> serializedDefaultsRef st"
  shows "form_values (defaults_changed (Some v) (st\<lparr>form_values := edited\<rparr>)) = expandDotPaths v"
  using assms by (simp add: defaults_changed_def Let_def)

section \<open>Saved options\<close>

text \<open>The texts the server keeps of the values it is sent.\<close>

definition option_text :: "jsval \<Rightarrow> jstr" where
  "option_text v = (case v of JStr s \<Rightarrow> s | _ \<Rightarrow> stringify v)"

definition same_kind :: "jsval \<Rightarrow> jsval \<Rightarrow> bool" where
  "same_kind v d =
     (case (v, d) of
        (JBool _, JBool _) \<Rightarrow> True
      | (JNum n, JNum _) \<Rightarrow> isFinite n \<and> num_ok n
      | (JStr _, JStr _) \<Rightarrow> True
      | (JArr xs, JArr ds) \<Rightarrow> json_wf v \<and> (\<forall>x\<in>set xs. ds = [] \<or> js_typeof x = js_typeof (hd ds))
      | _ \<Rightarrow> False)"

lemma option_read_back:
  assumes "same_kind v d"
  shows "parseOptionValueSafe (option_text v) d = Some v"
proof (cases v)
  case (JArr xs)
  then obtain ds where d: "d = JArr ds" "json_wf v" "\<forall>x\<in>set xs. ds = [] \<or> js_typeof x = js_typeof (hd ds)"
    using assms by (auto simp: same_kind_def split: jsval.splits)
  have "json_parse (stringify v) = Some v" using d(2) by (rule json_parse_stringify)
  then show ?thesis using d(1,3) by (auto simp: parseOptionValueSafe_def option_text_def JArr list_ex_iff)
next
  case (JNum n)
  then obtain m where d: "d = JNum m" "isFinite n" "num_ok n" using assms by (auto simp: same_kind_def split: jsval.splits)
  then have "n \<noteq> NaN" "option_text v = num_str n" by (auto simp: isFinite_def option_text_def JNum)
  then show ?thesis using d num_str_units [OF d(3)] num_str_trimmed [OF d(3)]
    by (simp add: parseOptionValueSafe_def JNum to_number_num_str Let_def)
qed (use assms in \<open>auto simp: same_kind_def parseOptionValueSafe_def option_text_def split: jsval.splits\<close>)

end
