(* ===== verification/UpstreamUpdates.thy ===== *)
theory UpstreamUpdates
  imports ModelMapping
begin

text \<open>
  Updates of a channel's models found upstream: the hook
  \<open>features/channels/hooks/use-channel-upstream-updates.ts\<close> and the dialog
  \<open>features/channels/components/dialogs/upstream-update-dialog.tsx\<close>, which is mounted once by
  \<open>channels-dialogs.tsx\<close> and stays mounted. An operation is split where it awaits: its start, what
  follows the answer, and what follows the refresh. Answers, the refresh and \<open>toLowerCase\<close> are
  arguments; only the identifier of a channel matters.
\<close>

section \<open>State\<close>

datatype update_tab = AddTab | RemoveTab

datatype update_op = Apply | ApplyAll | Detect | DetectAll

record upstream_hook =
  showModal :: bool
  up_channel :: "jnum option"
  up_addModels :: "jstr list"
  up_removeModels :: "jstr list"
  preferredTab :: update_tab
  applyLoading :: bool
  detectAllLoading :: bool
  applyAllLoading :: bool
  applyRef :: bool
  detectRef :: bool
  detectAllRef :: bool
  applyAllRef :: bool

definition initial_hook :: upstream_hook where
  "initial_hook =
     \<lparr>showModal = False, up_channel = None, up_addModels = [], up_removeModels = [], preferredTab = AddTab,
      applyLoading = False, detectAllLoading = False, applyAllLoading = False,
      applyRef = False, detectRef = False, detectAllRef = False, applyAllRef = False\<rparr>"

datatype update_request =
  ApplyRequest jnum "jstr list" "jstr list" "jstr list"
| ApplyAllRequest
| DetectRequest jnum
| DetectAllRequest

text \<open>Messages: a text of the translations with its numbers, the message of an answer or of an error, or
  the engine's own one for a call of what is no function.\<close>

datatype update_toast =
  NoUpdates
| Said jsval
| Fallback string
| EngineError
| Applied jsval jsval nat nat
| BatchApplied jsval jsval jsval "jsval option"
| Detected jsval jsval
| BatchDetected jsval jsval jsval "jsval option"

definition has_channel :: "jnum option \<Rightarrow> bool" where
  "has_channel c = (case c of Some n \<Rightarrow> truthy (JNum n) | None \<Rightarrow> False)"

section \<open>Reading answers\<close>

definition js_length :: "jsval option \<Rightarrow> jsval option" where
  "js_length v =
     (case v of
        Some (JArr xs) \<Rightarrow> Some (JNum (num_of_int (int (length xs))))
      | Some (JStr s) \<Rightarrow> Some (JNum (num_of_int (int (length s))))
      | Some (JObj ps) \<Rightarrow> map_of ps (js ''length'')
      | _ \<Rightarrow> None)"

definition truthy_or_zero :: "jsval option \<Rightarrow> jsval" where
  "truthy_or_zero v = (if truthy_opt v then the v else JNum (Fin 0))"

definition or_array :: "jsval option \<Rightarrow> jsval option" where
  "or_array v = (if truthy_opt v then v else Some (JArr []))"

definition said_or_fallback :: "jsval option \<Rightarrow> string \<Rightarrow> update_toast" where
  "said_or_fallback v fallback = (if truthy_opt v then Said (the v) else Fallback fallback)"

text \<open>\<open>err?.response?.data?.message || err?.message || t(fallback)\<close>.\<close>

definition error_toast :: "jsval option \<Rightarrow> string \<Rightarrow> update_toast" where
  "error_toast err fallback =
     (let m = get_prop_opt (get_prop_opt (get_prop_opt err ''response'') ''data'') ''message'' in
      if truthy_opt m then Said (the m) else said_or_fallback (get_prop_opt err ''message'') fallback)"

definition body_of :: "jsval option \<Rightarrow> jsval" where
  "body_of data = (if truthy_opt data then the data else JObj [])"

text \<open>\<open>None\<close> when it throws.\<close>

definition getManualIgnoredModelCount :: "jsval option \<Rightarrow> nat option" where
  "getManualIgnoredModelCount settings =
     (let parsed = (case settings of
                      Some (JObj ps) \<Rightarrow> Some (JObj ps)
                    | Some (JArr xs) \<Rightarrow> Some (JArr xs)
                    | Some (JStr s) \<Rightarrow> json_parse s
                    | _ \<Rightarrow> None)
      in if \<not> truthy_opt parsed then Some 0
         else map_option length (pending_models (get_prop_opt parsed ''upstream_model_update_ignored_models'')))"

section \<open>The operations of the hook\<close>

definition openModal :: "jnum option \<Rightarrow> jsval list \<Rightarrow> jsval list \<Rightarrow> update_tab \<Rightarrow> upstream_hook \<Rightarrow> update_toast list \<times> upstream_hook" where
  "openModal rec pendingAdd pendingRemove tab st =
     (let normAdd = normalizeModelList pendingAdd; normRemove = normalizeModelList pendingRemove in
      if \<not> has_channel rec \<or> length normAdd = 0 \<and> length normRemove = 0 then ([NoUpdates], st)
      else ([], st\<lparr>up_channel := rec, up_addModels := normAdd, up_removeModels := normRemove, preferredTab := tab, showModal := True\<rparr>))"

definition closeModal :: "upstream_hook \<Rightarrow> upstream_hook" where
  "closeModal st = st\<lparr>showModal := False, up_channel := None, up_addModels := [], up_removeModels := [], preferredTab := AddTab\<rparr>"

definition left_out_models :: "jstr list \<Rightarrow> jstr list \<Rightarrow> jstr list" where
  "left_out_models shown normSelected = filter (\<lambda>m. m \<notin> set normSelected) shown"

definition applyUpdates :: "jstr list \<Rightarrow> jstr list \<Rightarrow> upstream_hook \<Rightarrow> update_request option \<times> upstream_hook" where
  "applyUpdates selectedAdd selectedRemove st =
     (if applyRef st then (None, st)
      else case up_channel st of
        None \<Rightarrow> (None, closeModal st)
      | Some i \<Rightarrow>
          if \<not> truthy (JNum i) then (None, closeModal st)
          else let normSelectedAdd = normalizeModelList (map JStr selectedAdd) in
            (Some (ApplyRequest i normSelectedAdd (left_out_models (up_addModels st) normSelectedAdd)
                     (normalizeModelList (map JStr selectedRemove))),
             st\<lparr>applyRef := True, applyLoading := True\<rparr>))"

definition applyAllUpdates :: "upstream_hook \<Rightarrow> update_request option \<times> upstream_hook" where
  "applyAllUpdates st =
     (if applyAllRef st then (None, st) else (Some ApplyAllRequest, st\<lparr>applyAllRef := True, applyAllLoading := True\<rparr>))"

definition detectChannelUpdates :: "jnum option \<Rightarrow> upstream_hook \<Rightarrow> update_request option \<times> upstream_hook" where
  "detectChannelUpdates ch st =
     (if detectRef st \<or> \<not> has_channel ch then (None, st) else (Some (DetectRequest (the ch)), st\<lparr>detectRef := True\<rparr>))"

definition detectAllUpdates :: "upstream_hook \<Rightarrow> update_request option \<times> upstream_hook" where
  "detectAllUpdates st =
     (if detectAllRef st then (None, st) else (Some DetectAllRequest, st\<lparr>detectAllRef := True, detectAllLoading := True\<rparr>))"

text \<open>The \<open>finally\<close> blocks, and the messages for an error.\<close>

definition finish :: "update_op \<Rightarrow> upstream_hook \<Rightarrow> upstream_hook" where
  "finish k st =
     (case k of
        Apply \<Rightarrow> st\<lparr>applyRef := False, applyLoading := False\<rparr>
      | ApplyAll \<Rightarrow> st\<lparr>applyAllRef := False, applyAllLoading := False\<rparr>
      | Detect \<Rightarrow> st\<lparr>detectRef := False\<rparr>
      | DetectAll \<Rightarrow> st\<lparr>detectAllRef := False, detectAllLoading := False\<rparr>)"

definition failure_text :: "update_op \<Rightarrow> string" where
  "failure_text k =
     (case k of Apply \<Rightarrow> ''Operation failed'' | ApplyAll \<Rightarrow> ''Batch processing failed''
      | Detect \<Rightarrow> ''Detection failed'' | DetectAll \<Rightarrow> ''Batch detection failed'')"

definition failed :: "update_op \<Rightarrow> jsval option \<Rightarrow> upstream_hook \<Rightarrow> update_toast list \<times> upstream_hook" where
  "failed k err st = ([error_toast err (failure_text k)], finish k st)"

text \<open>The message of a success, \<open>None\<close> when building it throws; \<open>ignored\<close> is the list the request held.\<close>

definition success_toast :: "update_op \<Rightarrow> jstr list \<Rightarrow> jsval option \<Rightarrow> update_toast option" where
  "success_toast k ignored data =
     (let g = get_prop_opt data in
      case k of
        Apply \<Rightarrow>
          map_option (Applied (truthy_or_zero (js_length (g ''added_models''))) (truthy_or_zero (js_length (g ''removed_models'')))
                       (length (normalizeModelList (map JStr ignored))))
            (getManualIgnoredModelCount (g ''settings''))
      | ApplyAll \<Rightarrow>
          Some (BatchApplied (truthy_or_zero (g ''processed_channels'')) (truthy_or_zero (g ''added_models'')) (truthy_or_zero (g ''removed_models''))
                  (js_length (or_array (g ''failed_channel_ids''))))
      | Detect \<Rightarrow> Some (Detected (truthy_or_zero (js_length (g ''add_models''))) (truthy_or_zero (js_length (g ''remove_models''))))
      | DetectAll \<Rightarrow>
          Some (BatchDetected (truthy_or_zero (g ''processed_channels'')) (truthy_or_zero (g ''detected_add_models''))
                  (truthy_or_zero (g ''detected_remove_models'')) (js_length (or_array (g ''failed_channel_ids'')))))"

text \<open>What follows an answer: the messages, whether the refresh is awaited, and the state.\<close>

definition answered :: "update_op \<Rightarrow> jstr list \<Rightarrow> jsval option \<Rightarrow> upstream_hook \<Rightarrow> update_toast list \<times> bool \<times> upstream_hook" where
  "answered k ignored data st =
     (let b = body_of data in
      if \<not> truthy_opt (get_prop b ''success'') then ([said_or_fallback (get_prop b ''message'') (failure_text k)], False, finish k st)
      else case success_toast k ignored (get_prop b ''data'') of
        None \<Rightarrow> ([EngineError], False, finish k st)
      | Some m \<Rightarrow> ([m], True, if k = Apply then closeModal st else st))"

definition refreshed :: "update_op \<Rightarrow> upstream_hook \<Rightarrow> upstream_hook" where
  "refreshed k st = finish k st"

section \<open>The dialog\<close>

record update_dialog =
  activeTab :: update_tab
  searchAdd :: jstr
  searchRemove :: jstr
  selectedAdd :: "jstr list"
  selectedRemove :: "jstr list"
  partialConfirmOpen :: bool

text \<open>The initial values of \<open>useState\<close> are taken when the dialog is mounted, and never again.\<close>

definition mount_dialog :: "upstream_hook \<Rightarrow> update_dialog" where
  "mount_dialog st =
     \<lparr>activeTab = preferredTab st, searchAdd = [], searchRemove = [], selectedAdd = from_set (up_addModels st),
      selectedRemove = from_set (up_removeModels st), partialConfirmOpen = False\<rparr>"

text \<open>A later render of the dialog, with what the hook holds then: every \<open>useState\<close> keeps its state, and
  no effect of the dialog sets it anew.\<close>

definition rerender_dialog :: "upstream_hook \<Rightarrow> update_dialog \<Rightarrow> update_dialog" where
  "rerender_dialog st d = d"

definition filtered_models :: "(jstr \<Rightarrow> jstr) \<Rightarrow> jstr list \<Rightarrow> jstr \<Rightarrow> jstr list" where
  "filtered_models lower models needle = filter (\<lambda>m. str_includes (lower m) (lower needle)) models"

definition toggleModel :: "jstr \<Rightarrow> jstr list \<Rightarrow> jstr list" where
  "toggleModel model s = (if model \<in> set s then filter (\<lambda>m. m \<noteq> model) s else s @ [model])"

definition toggleAllVisible :: "jstr list \<Rightarrow> jstr list \<Rightarrow> jstr list" where
  "toggleAllVisible models s =
     (if list_all (\<lambda>m. m \<in> set s) models then filter (\<lambda>m. m \<notin> set models) s else from_set (s @ models))"

datatype confirmation = AskPartial | Confirm "jstr list" "jstr list"

definition handleConfirm :: "upstream_hook \<Rightarrow> update_dialog \<Rightarrow> confirmation" where
  "handleConfirm st d =
     (let hasAdd = 0 < length (up_addModels st); hasRemove = 0 < length (up_removeModels st);
          anyAdd = 0 < length (selectedAdd d); anyRemove = 0 < length (selectedRemove d)
      in if hasAdd \<and> hasRemove \<and> anyAdd \<noteq> anyRemove then AskPartial
         else Confirm (selectedAdd d) (selectedRemove d))"

definition confirm_disabled :: "upstream_hook \<Rightarrow> bool" where
  "confirm_disabled st \<longleftrightarrow> applyLoading st \<or> length (up_addModels st) = 0 \<and> length (up_removeModels st) = 0"

section \<open>The page\<close>

text \<open>The hook, the dialog, and the calls that wait for an answer or for the refresh.\<close>

datatype flight = AwaitAnswer update_op "jstr list" | AwaitRefresh update_op

definition flight_op :: "flight \<Rightarrow> update_op" where
  "flight_op f = (case f of AwaitAnswer k _ \<Rightarrow> k | AwaitRefresh k \<Rightarrow> k)"

record update_page =
  hook :: upstream_hook
  dialog :: update_dialog
  flights :: "flight list"
  sent :: "update_request list"

definition initial_page :: update_page where
  "initial_page = \<lparr>hook = initial_hook, dialog = mount_dialog initial_hook, flights = [], sent = []\<rparr>"

definition flight_of :: "update_request \<Rightarrow> flight" where
  "flight_of r =
     (case r of ApplyRequest _ _ ign _ \<Rightarrow> AwaitAnswer Apply ign | ApplyAllRequest \<Rightarrow> AwaitAnswer ApplyAll []
      | DetectRequest _ \<Rightarrow> AwaitAnswer Detect [] | DetectAllRequest \<Rightarrow> AwaitAnswer DetectAll [])"

definition start :: "(upstream_hook \<Rightarrow> update_request option \<times> upstream_hook) \<Rightarrow> update_page \<Rightarrow> update_page" where
  "start f pg =
     (case f (hook pg) of
        (None, st) \<Rightarrow> pg\<lparr>hook := st\<rparr>
      | (Some r, st) \<Rightarrow> pg\<lparr>hook := st, flights := flights pg @ [flight_of r], sent := sent pg @ [r]\<rparr>)"

text \<open>Opening the dialog for a channel: the hook takes the models, and the dialog is rendered with them.\<close>

definition open_updates ::
  "jnum option \<Rightarrow> jsval list \<Rightarrow> jsval list \<Rightarrow> update_tab \<Rightarrow> update_page \<Rightarrow> update_page" where
  "open_updates c add rem tab pg =
     (let st = snd (openModal c add rem tab (hook pg))
      in pg\<lparr>hook := st, dialog := rerender_dialog st (dialog pg)\<rparr>)"

text \<open>The buttons of the dialog.\<close>

definition press_confirm :: "update_page \<Rightarrow> update_page" where
  "press_confirm pg =
     (if \<not> showModal (hook pg) \<or> confirm_disabled (hook pg) then pg
      else case handleConfirm (hook pg) (dialog pg) of
        AskPartial \<Rightarrow> pg\<lparr>dialog := (dialog pg)\<lparr>partialConfirmOpen := True\<rparr>\<rparr>
      | Confirm a r \<Rightarrow> start (applyUpdates a r) pg)"

definition press_partial :: "update_page \<Rightarrow> update_page" where
  "press_partial pg =
     (if partialConfirmOpen (dialog pg)
      then start (applyUpdates (selectedAdd (dialog pg)) (selectedRemove (dialog pg)))
             (pg\<lparr>dialog := (dialog pg)\<lparr>partialConfirmOpen := False\<rparr>\<rparr>)
      else pg)"

inductive page_step :: "(jstr \<Rightarrow> jstr) \<Rightarrow> update_page \<Rightarrow> update_page \<Rightarrow> bool" for lower :: "jstr \<Rightarrow> jstr" where
  Open: "page_step lower pg (open_updates c add rem tab pg)"
| Cancel: "page_step lower pg (pg\<lparr>hook := closeModal (hook pg)\<rparr>)"
| Tab: "page_step lower pg (pg\<lparr>dialog := (dialog pg)\<lparr>activeTab := tab\<rparr>\<rparr>)"
| Search: "page_step lower pg (pg\<lparr>dialog := (dialog pg)\<lparr>searchAdd := a, searchRemove := r\<rparr>\<rparr>)"
| ToggleAdd: "m \<in> set (filtered_models lower (up_addModels (hook pg)) (searchAdd (dialog pg))) \<Longrightarrow>
    page_step lower pg (pg\<lparr>dialog := (dialog pg)\<lparr>selectedAdd := toggleModel m (selectedAdd (dialog pg))\<rparr>\<rparr>)"
| ToggleRemove: "m \<in> set (filtered_models lower (up_removeModels (hook pg)) (searchRemove (dialog pg))) \<Longrightarrow>
    page_step lower pg (pg\<lparr>dialog := (dialog pg)\<lparr>selectedRemove := toggleModel m (selectedRemove (dialog pg))\<rparr>\<rparr>)"
| ToggleAllAdd: "page_step lower pg (pg\<lparr>dialog := (dialog pg)\<lparr>selectedAdd :=
    toggleAllVisible (filtered_models lower (up_addModels (hook pg)) (searchAdd (dialog pg))) (selectedAdd (dialog pg))\<rparr>\<rparr>)"
| ToggleAllRemove: "page_step lower pg (pg\<lparr>dialog := (dialog pg)\<lparr>selectedRemove :=
    toggleAllVisible (filtered_models lower (up_removeModels (hook pg)) (searchRemove (dialog pg))) (selectedRemove (dialog pg))\<rparr>\<rparr>)"
| Press: "page_step lower pg (press_confirm pg)"
| Partial: "page_step lower pg (press_partial pg)"
| CancelPartial: "page_step lower pg (pg\<lparr>dialog := (dialog pg)\<lparr>partialConfirmOpen := False\<rparr>\<rparr>)"
| StartApplyAll: "page_step lower pg (start applyAllUpdates pg)"
| StartDetect: "page_step lower pg (start (detectChannelUpdates c) pg)"
| StartDetectAll: "page_step lower pg (start detectAllUpdates pg)"
| Answer: "AwaitAnswer k ign \<in> set (flights pg) \<Longrightarrow> answered k ign data (hook pg) = (ts, awaits, st) \<Longrightarrow>
    page_step lower pg (pg\<lparr>hook := st,
      flights := (if awaits then [AwaitRefresh k] else []) @ remove1 (AwaitAnswer k ign) (flights pg)\<rparr>)"
| Error: "f \<in> set (flights pg) \<Longrightarrow>
    page_step lower pg (pg\<lparr>hook := snd (failed (flight_op f) err (hook pg)), flights := remove1 f (flights pg)\<rparr>)"
| Refreshed: "AwaitRefresh k \<in> set (flights pg) \<Longrightarrow>
    page_step lower pg (pg\<lparr>hook := refreshed k (hook pg), flights := remove1 (AwaitRefresh k) (flights pg)\<rparr>)"

end
