(* ===== verification/UpstreamUpdatesProps.thy ===== *)
theory UpstreamUpdatesProps
  imports UpstreamUpdates
begin

text \<open>
  Properties of the updates found upstream: operations do not overlap with themselves, a confirmed
  dialog decides on every model it shows, and what a dialog confirms that was mounted without models and
  keeps its selection.
\<close>

section \<open>Operations in flight\<close>

definition op_ref :: "update_op \<Rightarrow> upstream_hook \<Rightarrow> bool" where
  "op_ref k st = (case k of Apply \<Rightarrow> applyRef st | ApplyAll \<Rightarrow> applyAllRef st | Detect \<Rightarrow> detectRef st | DetectAll \<Rightarrow> detectAllRef st)"

definition loading_ok :: "upstream_hook \<Rightarrow> bool" where
  "loading_ok st \<longleftrightarrow> applyLoading st = applyRef st \<and> applyAllLoading st = applyAllRef st \<and> detectAllLoading st = detectAllRef st"

definition in_flight :: "update_op \<Rightarrow> flight list \<Rightarrow> nat" where
  "in_flight k fs = length (filter (\<lambda>f. flight_op f = k) fs)"

definition page_ok :: "update_page \<Rightarrow> bool" where
  "page_ok pg \<longleftrightarrow> loading_ok (hook pg) \<and> (\<forall>k. in_flight k (flights pg) = of_bool (op_ref k (hook pg)))"

text \<open>What every operation a page starts keeps to: it either changes no reference, or takes a free one for
  the request it makes.\<close>

locale guarded_start =
  fixes f :: "upstream_hook \<Rightarrow> update_request option \<times> upstream_hook"
  assumes silent: "f st = (None, st') \<Longrightarrow> op_ref k st' = op_ref k st \<and> loading_ok st' = loading_ok st"
    and taken: "f st = (Some r, st') \<Longrightarrow> loading_ok st \<Longrightarrow> loading_ok st'
       \<and> \<not> op_ref (flight_op (flight_of r)) st \<and> op_ref k st' = (op_ref k st \<or> k = flight_op (flight_of r))"
begin

lemma start_ok:
  assumes "page_ok pg"
  shows "page_ok (start f pg)"
proof (cases "fst (f (hook pg))")
  case None
  then obtain st where "f (hook pg) = (None, st)" by (cases "f (hook pg)") auto
  then show ?thesis using assms silent by (simp add: start_def page_ok_def)
next
  case (Some r)
  then obtain st where s: "f (hook pg) = (Some r, st)" by (cases "f (hook pg)") auto
  then show ?thesis using assms taken [OF s]
    by (auto simp: start_def page_ok_def in_flight_def)
qed

end

lemma close_keeps [simp]: "op_ref k (closeModal st) = op_ref k st" "loading_ok (closeModal st) = loading_ok st"
  by (cases k; simp add: op_ref_def closeModal_def) (simp add: loading_ok_def closeModal_def)

lemma applyUpdates_cases:
  "applyUpdates a r st = (None, st') \<Longrightarrow> st' = st \<or> st' = closeModal st"
  "applyUpdates a r st = (Some q, st') \<Longrightarrow> \<not> applyRef st \<and> flight_op (flight_of q) = Apply
     \<and> st' = st\<lparr>applyRef := True, applyLoading := True\<rparr>"
  unfolding applyUpdates_def Let_def
  by (auto simp only: prod.inject option.inject option.distinct flight_of_def flight_op_def
      update_request.case flight.case split: if_split_asm option.split_asm)

lemma other_cases:
  "applyAllUpdates st = (Some q, st') \<Longrightarrow> \<not> applyAllRef st \<and> flight_op (flight_of q) = ApplyAll
     \<and> st' = st\<lparr>applyAllRef := True, applyAllLoading := True\<rparr>"
  "detectChannelUpdates c st = (Some q, st') \<Longrightarrow> \<not> detectRef st \<and> flight_op (flight_of q) = Detect
     \<and> st' = st\<lparr>detectRef := True\<rparr>"
  "detectAllUpdates st = (Some q, st') \<Longrightarrow> \<not> detectAllRef st \<and> flight_op (flight_of q) = DetectAll
     \<and> st' = st\<lparr>detectAllRef := True, detectAllLoading := True\<rparr>"
  unfolding applyAllUpdates_def detectChannelUpdates_def detectAllUpdates_def
  by (auto simp only: prod.inject option.inject option.distinct flight_of_def flight_op_def
      update_request.case flight.case split: if_split_asm)

lemma other_silent:
  "applyAllUpdates st = (None, st') \<Longrightarrow> st' = st" "detectChannelUpdates c st = (None, st') \<Longrightarrow> st' = st"
  "detectAllUpdates st = (None, st') \<Longrightarrow> st' = st"
  by (simp_all add: applyAllUpdates_def detectChannelUpdates_def detectAllUpdates_def split: if_splits)

lemma op_ref_taken:
  "op_ref k (st\<lparr>applyRef := True, applyLoading := True\<rparr>) = (op_ref k st \<or> k = Apply)"
  "op_ref k (st\<lparr>applyAllRef := True, applyAllLoading := True\<rparr>) = (op_ref k st \<or> k = ApplyAll)"
  "op_ref k (st\<lparr>detectRef := True\<rparr>) = (op_ref k st \<or> k = Detect)"
  "op_ref k (st\<lparr>detectAllRef := True, detectAllLoading := True\<rparr>) = (op_ref k st \<or> k = DetectAll)"
  by (cases k; simp add: op_ref_def)+

interpretation start_apply: guarded_start "applyUpdates a r"
proof
  show "op_ref k st' = op_ref k st \<and> loading_ok st' = loading_ok st" if "applyUpdates a r st = (None, st')" for st st' k
    using applyUpdates_cases(1) [OF that] by auto
qed (drule applyUpdates_cases(2), simp add: op_ref_taken, simp add: op_ref_def loading_ok_def)

interpretation start_apply_all: guarded_start applyAllUpdates
  by unfold_locales (drule other_silent(1), simp, drule other_cases(1), simp add: op_ref_taken, simp add: op_ref_def loading_ok_def)

interpretation start_detect: guarded_start "detectChannelUpdates c"
  by unfold_locales (drule other_silent(2), simp, drule other_cases(2), simp add: op_ref_taken, simp add: op_ref_def loading_ok_def)

interpretation start_detect_all: guarded_start detectAllUpdates
  by unfold_locales (drule other_silent(3), simp, drule other_cases(3), simp add: op_ref_taken, simp add: op_ref_def loading_ok_def)

lemma finish_ref: "op_ref k (finish j st) = (op_ref k st \<and> k \<noteq> j)" "loading_ok st \<Longrightarrow> loading_ok (finish j st)"
  by (cases k; cases j; simp add: op_ref_def finish_def) (cases j; simp add: loading_ok_def finish_def)

lemma open_ref: "op_ref k (snd (openModal c add rem tab st)) = op_ref k st"
    "loading_ok (snd (openModal c add rem tab st)) = loading_ok st"
  by (simp_all add: openModal_def Let_def op_ref_def loading_ok_def split: update_op.split)

lemma in_flight_remove:
  "f \<in> set fs \<Longrightarrow> in_flight k (remove1 f fs) = in_flight k fs - of_bool (k = flight_op f)"
  "f \<in> set fs \<Longrightarrow> 0 < in_flight (flight_op f) fs"
proof -
  assume f: "f \<in> set fs"
  show "in_flight k (remove1 f fs) = in_flight k fs - of_bool (k = flight_op f)"
    using f by (auto simp: in_flight_def filter_remove1 length_remove1)
  show "0 < in_flight (flight_op f) fs" using f by (auto simp: in_flight_def filter_empty_conv)
qed

lemma ended_ok:
  assumes "page_ok pg" and "f \<in> set (flights pg)"
  shows "page_ok (pg\<lparr>hook := finish (flight_op f) (hook pg), flights := remove1 f (flights pg)\<rparr>)"
  using assms by (auto simp: page_ok_def finish_ref in_flight_remove)

lemma answered_cases:
  assumes "answered k ign data st = (ts, awaits, st')"
  shows "\<not> awaits \<and> st' = finish k st \<or> awaits \<and> st' = (if k = Apply then closeModal st else st)"
  using assms by (auto simp: answered_def Let_def split: if_splits option.splits)

lemma step_ok:
  assumes "page_step lower pg pg'" and "page_ok pg"
  shows "page_ok pg'"
  using assms
proof cases
  case Press
  then show ?thesis using assms(2) start_apply.start_ok
    by (simp add: press_confirm_def page_ok_def split: confirmation.split)
next
  case Partial
  then show ?thesis using assms(2) start_apply.start_ok by (simp add: press_partial_def page_ok_def)
next
  case (Answer k ign data ts awaits st)
  show ?thesis
  proof (cases awaits)
    case False
    then have "st = finish k (hook pg)" using answered_cases [OF Answer(3)] by simp
    then show ?thesis using ended_ok [OF assms(2) Answer(2)] False Answer(1) by (simp add: flight_op_def)
  next
    case True
    then have "st = (if k = Apply then closeModal (hook pg) else hook pg)" using answered_cases [OF Answer(3)] by simp
    moreover have "in_flight j (AwaitRefresh k # remove1 (AwaitAnswer k ign) (flights pg)) = in_flight j (flights pg)" for j
      using in_flight_remove [OF Answer(2)] by (auto simp: in_flight_def flight_op_def)
    ultimately show ?thesis using assms(2) True Answer(1) by (auto simp: page_ok_def)
  qed
next
  case (Error f err)
  then show ?thesis using ended_ok [OF assms(2)] by (simp add: failed_def)
next
  case (Refreshed k)
  then show ?thesis using ended_ok [OF assms(2) Refreshed(2)] by (simp add: refreshed_def flight_op_def)
next
  case (Open c add rem tab)
  then show ?thesis using assms(2) open_ref by (simp add: open_updates_def Let_def page_ok_def)
qed (use assms(2) start_apply_all.start_ok start_detect.start_ok start_detect_all.start_ok in \<open>auto simp: page_ok_def\<close>)

text \<open>C36 However answers, failures and clicks interleave, at most one call of each operation is in flight, its
  reference is held exactly as long, and the buttons show it as loading exactly as long.\<close>

theorem one_in_flight:
  assumes "(page_step lower)\<^sup>*\<^sup>* initial_page pg"
  shows "in_flight k (flights pg) = of_bool (op_ref k (hook pg)) \<and> loading_ok (hook pg)"
proof -
  have "page_ok pg"
    using assms
  proof (induction rule: rtranclp_induct)
    case base
    show ?case by (simp add: page_ok_def initial_page_def initial_hook_def loading_ok_def op_ref_def in_flight_def split: update_op.split)
  qed (rule step_ok)
  then show ?thesis by (simp add: page_ok_def)
qed

lemma one_in_flight_witness:
  "in_flight DetectAll (flights (start detectAllUpdates initial_page))
     = of_bool (op_ref DetectAll (hook (start detectAllUpdates initial_page)))
   \<and> loading_ok (hook (start detectAllUpdates initial_page))"
  by (rule one_in_flight [of id]) (rule r_into_rtranclp, rule page_step.StartDetectAll)

section \<open>What a confirmed dialog sends\<close>

text \<open>Every model shown is either added or ignored, never both.\<close>

lemma applied_partition:
  assumes "applyUpdates a r st = (Some (ApplyRequest i add ign rem), st')"
  shows "set add \<inter> set ign = {} \<and> set (up_addModels st) \<subseteq> set add \<union> set ign \<and> set ign \<subseteq> set (up_addModels st)"
  using assms by (auto simp: applyUpdates_def left_out_models_def Let_def split: if_splits option.splits)

text \<open>What the page holds once the dialog is opened, and what confirming sends then.\<close>

lemma opened_updates:
  assumes "truthy (JNum i)" and "normalizeModelList add \<noteq> [] \<or> normalizeModelList rem \<noteq> []"
  shows "open_updates (Some i) add rem tab pg
    = pg\<lparr>hook := (hook pg)\<lparr>up_channel := Some i, up_addModels := normalizeModelList add,
          up_removeModels := normalizeModelList rem, preferredTab := tab, showModal := True\<rparr>,
        dialog := rerender_dialog ((hook pg)\<lparr>up_channel := Some i, up_addModels := normalizeModelList add,
          up_removeModels := normalizeModelList rem, preferredTab := tab, showModal := True\<rparr>) (dialog pg)\<rparr>"
  using assms(2) by (rule disjE) (simp_all add: assms(1) open_updates_def openModal_def has_channel_def Let_def del: truthy.simps)

lemma apply_sends:
  assumes "\<not> applyRef (hook pg)" and "up_channel (hook pg) = Some i" and "truthy (JNum i)"
  shows "sent (start (applyUpdates a r) pg)
    = sent pg @ [ApplyRequest i (normalizeModelList (map JStr a))
        (filter (\<lambda>m. m \<notin> set (normalizeModelList (map JStr a))) (up_addModels (hook pg))) (normalizeModelList (map JStr r))]"
  using assms by (simp add: start_def applyUpdates_def left_out_models_def Let_def)

lemma confirm_sends:
  assumes "\<not> applyRef (hook pg)" and "up_channel (hook pg) = Some i" and "truthy (JNum i)"
    and "showModal (hook pg)" and "\<not> confirm_disabled (hook pg)"
    and "d = dialog pg" and "A = up_addModels (hook pg)"
    and "request = ApplyRequest i (normalizeModelList (map JStr (selectedAdd d)))
        (filter (\<lambda>m. m \<notin> set (normalizeModelList (map JStr (selectedAdd d)))) A) (normalizeModelList (map JStr (selectedRemove d)))"
  shows "if A \<noteq> [] \<and> up_removeModels (hook pg) \<noteq> [] \<and> (selectedAdd d = []) \<noteq> (selectedRemove d = [])
    then sent (press_confirm pg) = sent pg \<and> partialConfirmOpen (dialog (press_confirm pg))
      \<and> sent (press_partial (press_confirm pg)) = sent pg @ [request]
    else sent (press_confirm pg) = sent pg @ [request]"
proof (cases "A \<noteq> [] \<and> up_removeModels (hook pg) \<noteq> [] \<and> (selectedAdd d = []) \<noteq> (selectedRemove d = [])")
  case True
  then have "handleConfirm (hook pg) (dialog pg) = AskPartial" using assms(6,7) by (auto simp: handleConfirm_def Let_def)
  then have "press_confirm pg = pg\<lparr>dialog := d\<lparr>partialConfirmOpen := True\<rparr>\<rparr>"
    using assms(4-6) by (simp add: press_confirm_def)
  then show ?thesis using True assms by (simp add: press_partial_def apply_sends)
next
  case False
  then have "handleConfirm (hook pg) (dialog pg) = Confirm (selectedAdd d) (selectedRemove d)"
    using assms(6,7) by (auto simp: handleConfirm_def Let_def)
  then have "press_confirm pg = start (applyUpdates (selectedAdd d) (selectedRemove d)) pg"
    using assms(4,5) by (simp add: press_confirm_def)
  then have "sent (press_confirm pg) = sent pg @ [request]" using assms by (simp add: apply_sends)
  then show ?thesis using False by simp
qed

text \<open>C35 The dialog stays mounted, and opening it for a channel leaves its selection as it was: mounted
  without models, it first opens with nothing selected, so that confirming at once adds nothing
  and ignores every model it shows. Later what is confirmed is the selection left from before, the
  models of another channel included, and all models shown that were not in it are ignored; only
  when there are models both to add and to remove and just one of the two old selections is empty
  does it ask first, and the answer sends the same.\<close>

theorem old_selection_sent:
  assumes "truthy (JNum i)" and "normalizeModelList add \<noteq> [] \<or> normalizeModelList rem \<noteq> []"
    and "\<not> applyRef (hook pg)" and "\<not> applyLoading (hook pg)"
  shows "let a = normalizeModelList add; r = normalizeModelList rem; d = dialog pg;
        old = normalizeModelList (map JStr (selectedAdd d));
        request = ApplyRequest i old (filter (\<lambda>m. m \<notin> set old) a) (normalizeModelList (map JStr (selectedRemove d)));
        pg' = press_confirm (open_updates (Some i) add rem tab pg) in
     sent (press_confirm (open_updates (Some i) add rem tab initial_page)) = [ApplyRequest i [] a []]
     \<and> (if a \<noteq> [] \<and> r \<noteq> [] \<and> (selectedAdd d = []) \<noteq> (selectedRemove d = [])
        then sent pg' = sent pg \<and> partialConfirmOpen (dialog pg') \<and> sent (press_partial pg') = sent pg @ [request]
        else sent pg' = sent pg @ [request])"
proof -
  have n: "normalizeModelList [] = []" by code_simp
  have enabled: "\<not> confirm_disabled (hook (open_updates (Some i) add rem tab q))" if "\<not> applyLoading (hook q)" for q
    using assms(2) that by (auto simp: opened_updates [OF assms(1,2)] confirm_disabled_def)
  have i: "\<not> applyRef (hook initial_page)" "\<not> applyLoading (hook initial_page)" "sent initial_page = []"
    "selectedAdd (dialog initial_page) = []" "selectedRemove (dialog initial_page) = []"
    by (simp_all add: initial_page_def initial_hook_def mount_dialog_def from_set_def)
  have first: "sent (press_confirm (open_updates (Some i) add rem tab initial_page)) = [ApplyRequest i [] (normalizeModelList add) []]"
    using confirm_sends [OF _ _ assms(1) _ enabled refl refl refl, of initial_page] i n
    by (simp add: opened_updates [OF assms(1,2)] rerender_dialog_def)
  let ?q = "open_updates (Some i) add rem tab pg"
  have q: "dialog ?q = dialog pg" "sent ?q = sent pg" "up_addModels (hook ?q) = normalizeModelList add"
    "up_removeModels (hook ?q) = normalizeModelList rem"
    and h: "\<not> applyRef (hook ?q)" "up_channel (hook ?q) = Some i" "showModal (hook ?q)"
    using assms(3) by (simp_all add: opened_updates [OF assms(1,2)] rerender_dialog_def)
  show ?thesis
    using confirm_sends [OF h(1,2) assms(1) h(3) enabled [OF assms(4)] refl refl refl, unfolded q]
    unfolding Let_def by (rule conjI [OF first])
qed

text \<open>A channel whose models were applied, with its selection still in the dialog.\<close>

definition after_first :: update_page where
  "after_first =
     (let p1 = open_updates (Some (Fin 7)) [JStr (js ''model-of-7'')] [] AddTab initial_page;
          p2 = p1\<lparr>dialog := (dialog p1)\<lparr>selectedAdd := toggleModel (js ''model-of-7'') (selectedAdd (dialog p1))\<rparr>\<rparr>;
          p3 = press_confirm p2
      in p3\<lparr>hook := refreshed Apply (snd (snd (answered Apply [] (Some (JObj [(js ''success'', JBool True)])) (hook p3)))),
            flights := []\<rparr>)"

lemma old_selection_sent_witness:
  "sent (press_confirm (open_updates (Some (Fin 8)) [JStr (js ''model-of-8'')] [] AddTab after_first))
     = [ApplyRequest (Fin 7) [js ''model-of-7''] [] [], ApplyRequest (Fin 8) [js ''model-of-7''] [js ''model-of-8''] []]"
proof -
  have n: "normalizeModelList [JStr (js ''model-of-8'')] = [js ''model-of-8'']" "normalizeModelList [] = []" by code_simp+
  have p: "\<not> applyRef (hook after_first)" "\<not> applyLoading (hook after_first)"
    "sent after_first = [ApplyRequest (Fin 7) [js ''model-of-7''] [] []]"
    "normalizeModelList (map JStr (selectedAdd (dialog after_first))) = [js ''model-of-7'']"
    "normalizeModelList (map JStr (selectedRemove (dialog after_first))) = []" by code_simp+
  have t: "truthy (JNum (Fin 8))" by code_simp
  show ?thesis
    using old_selection_sent [OF t, of "[JStr (js ''model-of-8'')]" "[]" after_first AddTab] n p
    by (simp add: Let_def js_eval)
qed

end
