(* ===== verification/ChatLinks.thy ===== *)
theory ChatLinks
  imports Passkey
begin

text \<open>
  The links to chat clients an administrator configures: \<open>features/chat/lib/chat-links.ts\<close>. The page
  has a window, so that texts are encoded with \<open>btoa\<close>; \<open>None\<close> is an exception of \<open>btoa\<close> or of
  \<open>encodeURIComponent\<close>.
\<close>

section \<open>Percent encoding\<close>

text \<open>\<open>encodeURIComponent\<close>: the code points of a text in UTF-8, all bytes but those of unreserved
  characters as \<open>%XX\<close>; a surrogate without its pair throws.\<close>

definition unreserved :: "cunit \<Rightarrow> bool" where
  "unreserved c \<longleftrightarrow> is_word c \<or> c \<in> set (js ''-.!~*()'') \<or> c = 39"

definition utf8 :: "nat \<Rightarrow> nat list" where
  "utf8 p =
     (if p < 128 then [p]
      else if p < 2048 then [192 + p div 64, 128 + p mod 64]
      else if p < 65536 then [224 + p div 4096, 128 + p div 64 mod 64, 128 + p mod 64]
      else [240 + p div 262144, 128 + p div 4096 mod 64, 128 + p div 64 mod 64, 128 + p mod 64])"

definition upper_hex :: "nat \<Rightarrow> cunit" where
  "upper_hex d = (if d < 10 then 48 + d else 55 + d)"

definition percent :: "nat \<Rightarrow> jstr" where
  "percent b = [37, upper_hex (b div 16), upper_hex (b mod 16)]"

fun encodeURIComponent :: "jstr \<Rightarrow> jstr option" where
  "encodeURIComponent [] = Some []"
| "encodeURIComponent (c # s) =
     (if unreserved c then map_option ((#) c) (encodeURIComponent s)
      else if is_lead c then
        (case s of
           d # r \<Rightarrow>
             if is_trail d
             then map_option ((@) (concat (map percent (utf8 (65536 + (c - 55296) * 1024 + (d - 56320)))))) (encodeURIComponent r)
             else None
         | [] \<Rightarrow> None)
      else if is_trail c then None
      else map_option ((@) (concat (map percent (utf8 c)))) (encodeURIComponent s))"

section \<open>Presets\<close>

datatype chat_link_type = Web | CustomProtocol | Fluent

record chat_preset =
  cp_id :: jstr
  cp_name :: jstr
  cp_url :: jstr
  cp_type :: chat_link_type

text \<open>\<open>/^https?:\/\//i\<close>; no other letter folds to one of these, nor to one of \<open>fluent\<close>.\<close>

definition HTTP_REGEX :: "jstr \<Rightarrow> bool" where
  "HTTP_REGEX url \<longleftrightarrow> prefix (js ''http://'') (lower_ascii url) \<or> prefix (js ''https://'') (lower_ascii url)"

definition detectChatLinkType :: "jstr \<Rightarrow> chat_link_type" where
  "detectChatLinkType url =
     (if HTTP_REGEX url then Web else if prefix (js ''fluent'') (lower_ascii url) then Fluent else CustomProtocol)"

definition chatLinkRequiresApiKey :: "jstr \<Rightarrow> bool" where
  "chatLinkRequiresApiKey url \<longleftrightarrow>
     str_includes url (js ''{key}'') \<or> str_includes url (js ''{cherryConfig}'')
     \<or> str_includes url (js ''{aionuiConfig}'') \<or> str_includes url (js ''{deepchatConfig}'')"

definition chat_entry :: "nat \<Rightarrow> jsval \<Rightarrow> chat_preset option" where
  "chat_entry index entry =
     (case entry of
        JObj [(name, JStr value)] \<Rightarrow>
          (let url = trim value in
           if url = [] then None
           else Some \<lparr>cp_id = nat_str index, cp_name = name, cp_url = url, cp_type = detectChatLinkType url\<rparr>)
      | _ \<Rightarrow> None)"

definition parseChatConfig :: "jsval option \<Rightarrow> chat_preset list" where
  "parseChatConfig raw =
     (let parsed = (case raw of Some (JStr s) \<Rightarrow> json_parse s | _ \<Rightarrow> raw) in
      case parsed of
        Some (JArr entries) \<Rightarrow> concat (map (\<lambda>(i, e). case chat_entry i e of Some p \<Rightarrow> [p] | None \<Rightarrow> []) (enumerate 0 entries))
      | _ \<Rightarrow> [])"

section \<open>Resolving a link\<close>

definition replaceToken :: "jstr \<Rightarrow> jstr \<Rightarrow> jstr \<Rightarrow> jstr" where
  "replaceToken source tok value = join value (split_str tok source)"

definition normalizeApiKey :: "jstr \<Rightarrow> jstr" where
  "normalizeApiKey apiKey =
     (let trimmed = trim apiKey in
      if trimmed = [] then [] else if prefix (js ''sk-'') trimmed then trimmed else js ''sk-'' @ trimmed)"

definition client_config :: "string \<Rightarrow> jstr \<Rightarrow> jstr \<Rightarrow> jsval" where
  "client_config field address key =
     JObj [(js field, JStr (js ''new-api'')), (js ''baseUrl'', JStr address), (js ''apiKey'', JStr key)]"

definition toBase64 :: "jstr \<Rightarrow> jstr option" where
  "toBase64 value = btoa value"

definition encoded_config :: "string \<Rightarrow> jstr \<Rightarrow> jstr \<Rightarrow> jstr option" where
  "encoded_config field address key =
     Option.bind (toBase64 (stringify (client_config field address key))) encodeURIComponent"

definition resolveChatUrl :: "jstr \<Rightarrow> jstr option \<Rightarrow> jstr \<Rightarrow> jstr option" where
  "resolveChatUrl template apiKey serverAddress =
     (let safeApiKey = normalizeApiKey (case apiKey of Some k \<Rightarrow> k | None \<Rightarrow> []) in
      if str_includes template (js ''{cherryConfig}'')
      then map_option (replaceToken template (js ''{cherryConfig}'')) (encoded_config ''id'' serverAddress safeApiKey)
      else if str_includes template (js ''{aionuiConfig}'')
      then map_option (replaceToken template (js ''{aionuiConfig}'')) (encoded_config ''platform'' serverAddress safeApiKey)
      else if str_includes template (js ''{deepchatConfig}'')
      then map_option (replaceToken template (js ''{deepchatConfig}'')) (encoded_config ''id'' serverAddress safeApiKey)
      else
        (case (if serverAddress \<noteq> [] then map_option (replaceToken template (js ''{address}'')) (encodeURIComponent serverAddress)
               else Some template) of
           None \<Rightarrow> None
         | Some url \<Rightarrow> Some (if safeApiKey \<noteq> [] then replaceToken url (js ''{key}'') safeApiKey else url)))"

record active_key =
  ak_key :: jstr
  ak_status :: jnum

definition API_KEY_STATUS_ENABLED :: jnum where
  "API_KEY_STATUS_ENABLED = Fin 1"

definition getFirstActiveKey :: "active_key list option \<Rightarrow> active_key option" where
  "getFirstActiveKey keys = (case keys of None \<Rightarrow> None | Some ks \<Rightarrow> find (\<lambda>k. ak_status k = API_KEY_STATUS_ENABLED) ks)"

end
