(* ===== verification/ChatLinksProps.thy ===== *)
theory ChatLinksProps
  imports ChatLinks PasskeyProps
begin

text \<open>
  Properties of the links to chat clients: what a client reads from the configuration it is handed, and
  that a key goes only where a link asks for one.
\<close>

section \<open>Base 64\<close>

lemma sextets_mod: "length (sextets s) mod 4 \<noteq> 1"
  by (simp add: length_sextets) presburger

lemma drop_padding_groups:
  assumes "61 \<notin> set t" and "length t mod 4 \<noteq> 1"
  shows "drop_padding (t @ replicate ((4 - length t mod 4) mod 4) 61) = t"
proof -
  have "length t mod 4 < 4" by simp
  then consider "length t mod 4 = 0" | "length t mod 4 = 2" | "length t mod 4 = 3" using assms(2) by linarith
  then show ?thesis
  proof cases
    case 1
    then show ?thesis using drop_pad0 [OF assms(1)] by simp
  next
    case 2
    then show ?thesis using drop_pad2 [of t 0] by (simp add: numeral_2_eq_2)
  next
    case 3
    then show ?thesis using drop_pad1 [OF assms(1)] by simp
  qed
qed

lemma atob_btoa:
  assumes "list_all (\<lambda>c. c < 256) s"
  shows "atob (b64_groups s) = Some s"
proof -
  let ?t = "map b64_char (sextets s)"
  note n = sextets_small [OF assms]
  have t: "list_all (\<lambda>c. c \<noteq> 61 \<and> \<not> ascii_ws c) ?t"
    using n b64_char_plain by (auto simp: list_all_iff)
  then have p: "61 \<notin> set ?t" by (auto simp: list_all_iff)
  from t have f: "filter (\<lambda>c. \<not> ascii_ws c) (b64_groups s) = b64_groups s"
    by (auto simp: b64_groups_sextets filter_id_conv list_all_iff ascii_ws_def)
  have d: "drop_padding (b64_groups s) = ?t"
    using drop_padding_groups [of ?t] p sextets_mod [of s] by (simp add: b64_groups_sextets)
  have m: "map b64_val ?t = map Some (sextets s)" using n by (auto simp: list_all_iff)
  have o: "those (map Some xs) = Some xs" for xs :: "nat list" by (induction xs) auto
  have "length ?t mod 4 \<noteq> 1" using sextets_mod [of s] by simp
  then show ?thesis unfolding atob_def Let_def f d m o using sextets_bytes [OF assms] by simp
qed

section \<open>Percent encoding\<close>

text \<open>What a reader of the link decodes, for bytes.\<close>

definition hex_digit_val :: "cunit \<Rightarrow> nat" where
  "hex_digit_val c = (if c < 58 then c - 48 else c - 55)"

fun percent_decode :: "jstr \<Rightarrow> jstr" where
  "percent_decode [] = []"
| "percent_decode (c # s) =
     (if c = 37 then case s of a # b # r \<Rightarrow> (hex_digit_val a * 16 + hex_digit_val b) # percent_decode r | _ \<Rightarrow> c # s
      else c # percent_decode s)"

lemma hex_upper: "d < 16 \<Longrightarrow> hex_digit_val (upper_hex d) = d"
  by (auto simp: hex_digit_val_def upper_hex_def)

lemma encode_ascii:
  assumes "list_all (\<lambda>c. c < 128 \<and> c \<noteq> 37) s"
  shows "\<exists>e. encodeURIComponent s = Some e \<and> percent_decode e = s"
  using assms
proof (induction s)
  case (Cons c s)
  then obtain e where e: "encodeURIComponent s = Some e" "percent_decode e = s" and c: "c < 128" "c \<noteq> 37" by auto
  show ?case
  proof (cases "unreserved c")
    case True
    then show ?thesis using e c by simp
  next
    case False
    have "c div 16 < 16" "c mod 16 < 16" using c by auto
    then show ?thesis using False e c by (simp add: is_lead_def is_trail_def utf8_def percent_def hex_upper)
  qed
qed simp

section \<open>Configurations\<close>

definition latin :: "jstr \<Rightarrow> bool" where
  "latin s \<longleftrightarrow> list_all (\<lambda>c. c < 256) s"

lemma latin_simps [simp]: "latin []" "latin (c # s) \<longleftrightarrow> c < 256 \<and> latin s" "latin (a @ b) \<longleftrightarrow> latin a \<and> latin b"
  by (auto simp: latin_def)

lemma latin_js: "latin (js s)"
  by (auto simp: latin_def js_def list_all_iff)

lemma latin_unit: "c < 256 \<Longrightarrow> latin (quote_unit c) \<and> \<not> is_lead c \<and> \<not> is_trail c"
proof -
  have "hex_digit d < 256" if "d < 16" for d using that by (simp add: hex_digit_def)
  moreover assume "c < 256"
  ultimately show ?thesis by (auto simp: quote_unit_def u_escape_def is_lead_def is_trail_def)
qed

lemma latin_quote: "latin s \<Longrightarrow> latin (json_quote s)"
proof -
  assume "latin s"
  then have "latin (quote_body s)" by (induction s rule: quote_body.induct) (auto simp: latin_unit)
  then show ?thesis by (simp add: json_quote_def)
qed

lemma latin_join: "latin sep \<Longrightarrow> \<forall>x\<in>set xs. latin x \<Longrightarrow> latin (join sep xs)"
  by (induction sep xs rule: join.induct) auto

lemma latin_config:
  assumes "latin address" and "latin key"
  shows "latin (stringify (client_config field address key))"
proof -
  have "latin (json_quote (js f))" "latin (json_quote s)" if "latin s" for f s using latin_quote latin_js that by blast+
  then have "\<forall>x\<in>set (own_values (map (\<lambda>(k, v). (k, json_quote k @ 58 # stringify v))
      [(js field, JStr (js ''new-api'')), (js ''baseUrl'', JStr address), (js ''apiKey'', JStr key)])). latin x"
    using assms by (auto simp: own_values_def latin_js)
  then show ?thesis by (simp add: client_config_def latin_join)
qed

lemma b64_ascii: "list_all (\<lambda>c. c < 128 \<and> c \<noteq> 37) (b64_groups s)" if "latin s"
proof -
  have "b64_char n < 128 \<and> b64_char n \<noteq> 37" if "n < 64" for n using that by (auto simp: b64_char_def)
  then show ?thesis using sextets_small [of s] that by (auto simp: b64_groups_sextets latin_def list_all_iff)
qed

lemma config_encoded:
  assumes "latin address" and "latin key" and "json_wf (client_config field address key)"
  shows "\<exists>e. encoded_config field address key = Some e
     \<and> Option.bind (atob (percent_decode e)) json_parse = Some (client_config field address key)"
proof -
  let ?t = "stringify (client_config field address key)"
  have l: "latin ?t" by (rule latin_config [OF assms(1,2)])
  obtain e where "encodeURIComponent (b64_groups ?t) = Some e" "percent_decode e = b64_groups ?t"
    using encode_ascii [OF b64_ascii [OF l]] by blast
  then show ?thesis using atob_btoa [of ?t] l json_parse_stringify [OF assms(3)]
    by (simp add: encoded_config_def toBase64_def btoa_def latin_def)
qed

lemma config_wf:
  assumes "units_ok address" and "units_ok key" and "field \<in> {''id'', ''platform''}"
  shows "json_wf (client_config field address key)"
proof -
  have "array_index (js ''id'') = None" "array_index (js ''platform'') = None" "array_index (js ''baseUrl'') = None"
    "array_index (js ''apiKey'') = None"
    by code_simp+
  then have "own_entries [(js field, a), (js ''baseUrl'', b), (js ''apiKey'', c)] = [(js field, a), (js ''baseUrl'', b), (js ''apiKey'', c)]"
    for a b c :: jsval using assms(3) by (auto simp: own_entries_no_index)
  moreover have "distinct [js ''id'', js ''baseUrl'', js ''apiKey'']" "distinct [js ''platform'', js ''baseUrl'', js ''apiKey'']"
    by code_simp+
  ultimately show ?thesis using assms by (auto simp: client_config_def units_ok_js)
qed

lemma latin_units: "latin s \<Longrightarrow> units_ok s"
  by (auto simp: latin_def units_ok_def list_all_iff)

lemma latin_key: "latin key \<Longrightarrow> latin (normalizeApiKey key)"
  using set_trim_subset [of key] latin_js [of "''sk-''"] by (auto simp: normalizeApiKey_def Let_def latin_def list_all_iff)

lemma config_read:
  assumes "latin address" and "latin key" and "field \<in> {''id'', ''platform''}"
  shows "\<exists>e. encoded_config field address (normalizeApiKey key) = Some e \<and> Option.bind (atob (percent_decode e)) json_parse
    = Some (JObj [(js field, JStr (js ''new-api'')), (js ''baseUrl'', JStr address), (js ''apiKey'', JStr (normalizeApiKey key))])"
  using config_encoded [OF assms(1) latin_key [OF assms(2)]
      config_wf [OF latin_units [OF assms(1)] latin_units [OF latin_key [OF assms(2)]] assms(3)]]
  by (simp add: client_config_def)

text \<open>C37 Of a link with a configuration, each client decodes the address of the server and the key, and finds
  the name under the field it reads: \<open>id\<close> for CherryStudio and DeepChat, \<open>platform\<close> for AionUI. Address and key
  hold Latin characters only (up to U+00FF); in a link with several tokens the first of the three is replaced.\<close>

theorem client_reads_config:
  assumes "latin address" and "latin key"
    and "str_includes template (js ''{cherryConfig}'') \<or> str_includes template (js ''{aionuiConfig}'')
      \<or> str_includes template (js ''{deepchatConfig}'')"
  shows "let reads = \<lambda>token field. \<exists>e. resolveChatUrl template (Some key) address = Some (replaceToken template (js token) e)
      \<and> Option.bind (atob (percent_decode e)) json_parse
        = Some (JObj [(js field, JStr (js ''new-api'')), (js ''baseUrl'', JStr address), (js ''apiKey'', JStr (normalizeApiKey key))])
    in if str_includes template (js ''{cherryConfig}'') then reads ''{cherryConfig}'' ''id''
       else if str_includes template (js ''{aionuiConfig}'') then reads ''{aionuiConfig}'' ''platform''
       else reads ''{deepchatConfig}'' ''id''"
  using config_read [OF assms(1,2), of "''id''"] config_read [OF assms(1,2), of "''platform''"] assms(3)
  unfolding Let_def by (auto simp: resolveChatUrl_def Let_def)

lemma client_reads_config_witness:
  "\<exists>e. resolveChatUrl (js ''aionui://provider?data={aionuiConfig}'') (Some (js '' k1'')) (js ''https://a.example'')
       = Some (replaceToken (js ''aionui://provider?data={aionuiConfig}'') (js ''{aionuiConfig}'') e)
     \<and> Option.bind (atob (percent_decode e)) json_parse
       = Some (JObj [(js ''platform'', JStr (js ''new-api'')), (js ''baseUrl'', JStr (js ''https://a.example'')),
           (js ''apiKey'', JStr (normalizeApiKey (js '' k1'')))])"
proof -
  have l: "latin (js ''https://a.example'')" "latin (js '' k1'')" by code_simp+
  have t: "\<not> str_includes (js ''aionui://provider?data={aionuiConfig}'') (js ''{cherryConfig}'')"
    "str_includes (js ''aionui://provider?data={aionuiConfig}'') (js ''{aionuiConfig}'')" by code_simp+
  show ?thesis
    using client_reads_config [OF l disjI2 [OF disjI1 [OF t(2)]], unfolded Let_def] t by (simp only: if_False if_True)
qed

section \<open>Keys\<close>

lemma prefix_before: "prefix p (a @ x # b) \<Longrightarrow> x \<notin> set p \<Longrightarrow> prefix p a"
  by (auto simp: prefix_append prefix_Cons)

lemma sublist_through: "sublist p (a @ x # b) \<Longrightarrow> x \<notin> set p \<Longrightarrow> sublist p a \<or> sublist p b"
proof (induction a)
  case Nil
  then show ?case using prefix_before [of p "[]" x b] by (auto simp: sublist_Cons_right)
next
  case (Cons y a)
  then show ?case using prefix_before [of p "y # a" x b] by (auto simp: sublist_Cons_right)
qed

lemma sublist_left: "sublist (p @ [c]) (a @ e) \<Longrightarrow> c \<notin> set e \<Longrightarrow> sublist (p @ [c]) a"
proof (induction e rule: rev_induct)
  case (snoc y e)
  have "\<not> suffix (p @ [c]) ((a @ e) @ [y])" using snoc.prems(2) by (auto simp: suffix_def)
  then show ?case using snoc sublist_snoc [of "p @ [c]" "a @ e" y] by simp
qed simp

lemma sublist_right: "sublist (c # p) (e @ b) \<Longrightarrow> c \<notin> set e \<Longrightarrow> sublist (c # p) b"
  by (induction e) (auto simp: sublist_Cons_right)

lemma sublist_join:
  assumes "sublist (q # m @ [c]) (join v ps)" and "q \<notin> set v" and "c \<notin> set v"
    and "x \<in> set v" and "x \<notin> set (q # m @ [c])"
  shows "\<exists>p\<in>set ps. sublist (q # m @ [c]) p"
  using assms(1)
proof (induction ps)
  case (Cons p ps)
  show ?case
  proof (cases "ps = []")
    case False
    obtain e1 e2 where v: "v = e1 @ x # e2" using split_list [OF assms(4)] by blast
    have "sublist (q # m @ [c]) ((p @ e1) @ x # (e2 @ join v ps))" using Cons.prems False by (simp add: join_Cons v)
    then have "sublist (q # m @ [c]) (p @ e1) \<or> sublist (q # m @ [c]) (e2 @ join v ps)"
      by (rule sublist_through [OF _ assms(5)])
    then show ?thesis
      using sublist_left [of "q # m" c p e1] sublist_right [of q "m @ [c]" e2 "join v ps"] assms(2,3) Cons.IH v by auto
  qed (use Cons.prems in simp)
qed (simp add: sublist_def)

lemma split_parts: "sep \<noteq> [] \<Longrightarrow> p \<in> set (split_str sep s) \<Longrightarrow> sublist p s"
proof (induction sep s rule: split_str.induct)
  case (1 sep s)
  show ?case
  proof (cases "index_of sep s")
    case None
    then show ?thesis using 1 by (simp add: split_str.simps [of sep s])
  next
    case (Some i)
    then consider "p = take i s" | "p \<in> set (split_str sep (drop (i + length sep) s))"
      using 1(2,3) by (auto simp: split_str.simps [of sep s])
    then show ?thesis
    proof cases
      case 2
      then have "sublist p (drop (i + length sep) s)" using 1 Some by simp
      then show ?thesis using sublist_order.order_trans suffix_imp_sublist suffix_drop by blast
    qed (simp add: sublist_take)
  qed
qed

lemma no_token: "sep \<noteq> [] \<Longrightarrow> \<not> str_includes s sep \<Longrightarrow> replaceToken s sep v = s"
  by (simp add: replaceToken_def split_str.simps [of sep s] str_includes_def)

lemma utf8_bytes: "c < 1114112 \<Longrightarrow> \<forall>b\<in>set (utf8 c). b < 256"
  by (auto simp: utf8_def)

lemma percent_chars: "b < 256 \<Longrightarrow> \<forall>d\<in>set (percent b). d \<noteq> 123 \<and> d \<noteq> 125"
proof -
  assume "b < 256"
  then have "b div 16 < 16" "b mod 16 < 16" by auto
  moreover have "upper_hex d \<noteq> 123 \<and> upper_hex d \<noteq> 125" if "d < 16" for d using that by (auto simp: upper_hex_def)
  ultimately show ?thesis by (simp add: percent_def)
qed

lemma bytes_chars: "c < 1114112 \<Longrightarrow> \<forall>d\<in>set (concat (map percent (utf8 c))). d \<noteq> 123 \<and> d \<noteq> 125"
proof
  fix d assume c: "c < 1114112" and "d \<in> set (concat (map percent (utf8 c)))"
  then obtain b where "b \<in> set (utf8 c)" "d \<in> set (percent b)" by auto
  then show "d \<noteq> 123 \<and> d \<noteq> 125" using utf8_bytes [OF c] percent_chars [of b] by blast
qed

lemma encoded_chars:
  "encodeURIComponent s = Some e \<Longrightarrow> units_ok s \<Longrightarrow> 123 \<notin> set e \<and> 125 \<notin> set e \<and> (58 \<in> set s \<longrightarrow> 37 \<in> set e)"
proof (induction s arbitrary: e rule: encodeURIComponent.induct)
  case (2 c s)
  have colon: "\<not> unreserved 58" "\<not> is_lead 58" "\<not> is_trail 58" and p: "37 \<in> set (concat (map percent (utf8 58)))"
    and braces: "\<not> unreserved 123" "\<not> unreserved 125" by code_simp+
  show ?case
  proof (cases "unreserved c")
    case True
    then obtain e' where "encodeURIComponent s = Some e'" "e = c # e'" using 2(4) by auto
    then show ?thesis using 2(1) [OF True] 2(5) True colon(1) braces by auto
  next
    case nu: False
    show ?thesis
    proof (cases "is_lead c")
      case True
      then obtain d r e' where d: "s = d # r" "is_trail d" "encodeURIComponent r = Some e'"
        "e = concat (map percent (utf8 (65536 + (c - 55296) * 1024 + (d - 56320)))) @ e'"
        using 2(4) nu by (auto split: list.splits if_splits)
      have "65536 + (c - 55296) * 1024 + (d - 56320) < 1114112"
        using True d(2) by (auto simp: is_lead_def is_trail_def)
      from bytes_chars [OF this] show ?thesis
        using 2(2) [OF nu True d(1,2,3)] 2(5) d True colon(2,3) by auto
    next
      case False
      then obtain e' where e: "\<not> is_trail c" "encodeURIComponent s = Some e'" "e = concat (map percent (utf8 c)) @ e'"
        using 2(4) nu by (auto split: if_splits)
      have "c < 1114112" using 2(5) by simp
      from bytes_chars [OF this] show ?thesis
        using 2(3) [OF nu False e(1,2)] 2(5) e p by auto
    qed
  qed
qed simp

text \<open>C38 A link that asks for no key is resolved to the same address whatever the key is: the key appears nowhere
  in it. The address of a server has its colon, or there is none.\<close>

theorem key_only_where_asked:
  assumes "\<not> chatLinkRequiresApiKey template" and "units_ok address" and "58 \<in> set address \<or> address = []"
  shows "resolveChatUrl template key address = resolveChatUrl template None address"
proof -
  let ?k = "js ''{key}''"
  have no: "\<not> str_includes template ?k" using assms(1) by (simp add: chatLinkRequiresApiKey_def)
  have key: "?k = 123 # [107, 101, 121] @ [125]" and ne: "?k \<noteq> []" by code_simp+
  have "\<not> str_includes (replaceToken template (js ''{address}'') e) ?k"
    if enc: "encodeURIComponent address = Some e" and some: "address \<noteq> []" for e
  proof
    assume "str_includes (replaceToken template (js ''{address}'') e) ?k"
    then have "sublist (123 # [107, 101, 121] @ [125]) (join e (split_str (js ''{address}'') template))"
      by (simp add: str_includes_iff replaceToken_def key)
    from sublist_join [OF this, of 37] obtain p where
      "p \<in> set (split_str (js ''{address}'') template)" "sublist (123 # [107, 101, 121] @ [125]) p"
      using encoded_chars [OF enc assms(2)] assms(3) some by auto
    moreover have "js ''{address}'' \<noteq> []" by code_simp
    ultimately have "sublist ?k template" using split_parts sublist_order.order_trans unfolding key by blast
    then show False using no by (simp add: str_includes_iff)
  qed
  then show ?thesis
    using assms(1) no no_token [OF ne] by (auto simp: resolveChatUrl_def chatLinkRequiresApiKey_def Let_def split: option.split)
qed

lemma key_only_where_asked_witness:
  "resolveChatUrl (js ''https://chat.example/?server={address}'') (Some (js ''sk-1'')) (js ''https://a.example'')
     = resolveChatUrl (js ''https://chat.example/?server={address}'') None (js ''https://a.example'')"
  by (rule key_only_where_asked) code_simp+

end
