(* ===== verification/ApiClient.thy ===== *)
theory ApiClient
  imports ChatLinks
begin

text \<open>
  The client every request goes through: \<open>lib/api.ts\<close> (sharing of GET requests, the interceptors, the
  messages of errors with the link that asks for quota), the user kept in the browser's storage
  (\<open>stores/auth-store.ts\<close>), and the page that link leads to (\<open>features/quota-requests/index.tsx\<close>,
  \<open>routes/_authenticated/quota-requests/index.tsx\<close>). The HTTP library settles promises when it likes;
  the router, which turns a query into parameters, is an argument.
\<close>

section \<open>Sharing of GET requests\<close>

record request_config =
  rc_params :: "jsval option"
  disableDuplicate :: bool
  skipErrorHandler :: bool

text \<open>A promise is a number; the log keeps what was sent for it.\<close>

record sent_request =
  sr_promise :: nat
  sr_url :: jstr
  sr_config :: request_config

record api_client =
  inFlightGet :: "(jstr \<times> nat) list"
  requests :: "sent_request list"
  settled :: "nat list"

definition initial_client :: api_client where
  "initial_client = \<lparr>inFlightGet = [], requests = [], settled = []\<rparr>"

definition request_key :: "jstr \<Rightarrow> request_config \<Rightarrow> jstr" where
  "request_key url config =
     (let params = (if truthy_opt (rc_params config) then stringify (the (rc_params config)) else js ''{}'')
      in url @ js ''?'' @ params)"

definition originalGet :: "jstr \<Rightarrow> request_config \<Rightarrow> api_client \<Rightarrow> nat \<times> api_client" where
  "originalGet url config st =
     (let p = length (requests st)
      in (p, st\<lparr>requests := requests st @ [\<lparr>sr_promise = p, sr_url = url, sr_config = config\<rparr>]\<rparr>))"

definition api_get :: "jstr \<Rightarrow> request_config \<Rightarrow> api_client \<Rightarrow> nat \<times> api_client" where
  "api_get url config st =
     (if disableDuplicate config then originalGet url config st
      else let key = request_key url config in
        case map_of (inFlightGet st) key of
          Some p \<Rightarrow> (p, st)
        | None \<Rightarrow> (case originalGet url config st of (p, st') \<Rightarrow> (p, st'\<lparr>inFlightGet := obj_put key p (inFlightGet st')\<rparr>)))"

text \<open>A request is answered or fails: \<open>finally\<close> deletes its key, which a request of its own has none of.\<close>

definition settle :: "nat \<Rightarrow> api_client \<Rightarrow> api_client" where
  "settle p st =
     (let r = requests st ! p;
          st' = st\<lparr>settled := p # settled st\<rparr>
      in if disableDuplicate (sr_config r) then st'
         else st'\<lparr>inFlightGet := obj_del (request_key (sr_url r) (sr_config r)) (inFlightGet st)\<rparr>)"

inductive client_step :: "api_client \<Rightarrow> api_client \<Rightarrow> bool" where
  Get: "client_step st (snd (api_get url config st))"
| Settle: "p < length (requests st) \<Longrightarrow> p \<notin> set (settled st) \<Longrightarrow> client_step st (settle p st)"

section \<open>Messages of errors\<close>

definition asRecord :: "jsval option \<Rightarrow> jsval option" where
  "asRecord value = (case value of Some (JObj ps) \<Rightarrow> Some (JObj ps) | Some (JArr xs) \<Rightarrow> Some (JArr xs) | _ \<Rightarrow> None)"

definition stringValue :: "jsval option \<Rightarrow> jstr option" where
  "stringValue value = (case value of Some (JStr s) \<Rightarrow> if trim s \<noteq> [] then Some s else None | _ \<Rightarrow> None)"

definition positiveNumber :: "jsval option \<Rightarrow> jnum option" where
  "positiveNumber value =
     (let parsed = (case value of Some (JNum n) \<Rightarrow> n | Some (JStr s) \<Rightarrow> to_number s | _ \<Rightarrow> NaN)
      in if isFinite parsed \<and> num_lt (Fin 0) parsed then Some parsed else None)"

definition responseErrorData :: "jsval option \<Rightarrow> jsval option" where
  "responseErrorData err =
     (let response = asRecord (get_prop_opt (asRecord err) ''response'') in asRecord (get_prop_opt response ''data''))"

text \<open>\<open>is_error\<close> is the message of an \<open>Error\<close>, \<open>None\<close> when the value is none.\<close>

definition responseErrorMessage :: "(string \<Rightarrow> jstr) \<Rightarrow> jstr option \<Rightarrow> jsval option \<Rightarrow> jstr" where
  "responseErrorMessage t is_error err =
     (let data = responseErrorData err;
          openAIError = asRecord (get_prop_opt data ''error'')
      in case stringValue (get_prop_opt data ''message'') of
           Some m \<Rightarrow> m
         | None \<Rightarrow>
             (case stringValue (get_prop_opt openAIError ''message'') of
                Some m \<Rightarrow> m
              | None \<Rightarrow> if truthy_str is_error then the is_error else t ''Request failed''))"

record quota_hint =
  qh_policyId :: "jnum option"
  qh_projectId :: "jnum option"
  qh_limitDelta :: "jnum option"
  qh_reason :: "jstr option"

definition enterpriseQuotaExceededCodes :: "jstr list" where
  "enterpriseQuotaExceededCodes = map js
     [''enterprise_governance_quota_exceeded'', ''enterprise_governance_org_quota_exceeded'',
      ''enterprise_governance_group_quota_exceeded'', ''enterprise_governance_user_quota_exceeded'']"

definition enterpriseQuotaRequestHintFromError :: "jsval option \<Rightarrow> quota_hint option" where
  "enterpriseQuotaRequestHintFromError err =
     (let data = responseErrorData err;
          openAIError = asRecord (get_prop_opt data ''error'');
          code = (case stringValue (get_prop_opt openAIError ''code'') of
                    Some c \<Rightarrow> Some c | None \<Rightarrow> stringValue (get_prop_opt data ''error_code''))
      in case code of
           None \<Rightarrow> None
         | Some c \<Rightarrow>
             if c \<notin> set enterpriseQuotaExceededCodes then None
             else let metadata = asRecord (get_prop_opt openAIError ''metadata'');
                      rawHint = asRecord (get_prop_opt metadata ''quota_request_hint'')
                  in if get_prop_opt rawHint ''available'' = Some (JBool False) then None
                     else Some \<lparr>qh_policyId = positiveNumber (get_prop_opt rawHint ''policy_id''),
                                qh_projectId = positiveNumber (get_prop_opt rawHint ''project_id''),
                                qh_limitDelta = positiveNumber (get_prop_opt rawHint ''limit_delta''),
                                qh_reason = stringValue (get_prop_opt rawHint ''reason'')\<rparr>)"

text \<open>\<open>URLSearchParams\<close>: the pairs in order; printed, a blank is a plus, and what is no letter, digit or one of
  \<open>*-._\<close> is percent-encoded in UTF-8, a surrogate without its pair as the replacement character.\<close>

fun form_text :: "jstr \<Rightarrow> jstr" where
  "form_text [] = []"
| "form_text (c # s) =
     (if c = 32 then 43 # form_text s
      else if is_word c \<or> c \<in> {42, 45, 46} then c # form_text s
      else if is_lead c \<and> s \<noteq> [] \<and> is_trail (hd s)
      then concat (map percent (utf8 (65536 + (c - 55296) * 1024 + (hd s - 56320)))) @ form_text (tl s)
      else concat (map percent (utf8 (if is_lead c \<or> is_trail c then 65533 else c))) @ form_text s)"

definition form_encode :: "(jstr \<times> jstr) list \<Rightarrow> jstr" where
  "form_encode ps = join [38] (map (\<lambda>(k, v). form_text k @ 61 # form_text v) ps)"

definition number_param :: "string \<Rightarrow> jnum option \<Rightarrow> (jstr \<times> jstr) list" where
  "number_param k n = (case n of Some x \<Rightarrow> if truthy (JNum x) then [(js k, num_str x)] else [] | None \<Rightarrow> [])"

definition quota_params :: "quota_hint \<Rightarrow> (jstr \<times> jstr) list" where
  "quota_params hint =
     [(js ''request_quota'', js ''1'')] @ number_param ''policy_id'' (qh_policyId hint)
     @ number_param ''project_id'' (qh_projectId hint) @ number_param ''limit_delta'' (qh_limitDelta hint)
     @ (if truthy_str (qh_reason hint) then [(js ''reason'', the (qh_reason hint))] else [])"

definition quotaRequestUrl :: "quota_hint \<Rightarrow> jstr" where
  "quotaRequestUrl hint = js ''/quota-requests?'' @ form_encode (quota_params hint)"

datatype api_effect = ShowError jsval "jstr option" | AuthReset

definition showResponseErrorToast :: "(string \<Rightarrow> jstr) \<Rightarrow> jstr option \<Rightarrow> jsval option \<Rightarrow> api_effect" where
  "showResponseErrorToast t is_error err =
     ShowError (JStr (responseErrorMessage t is_error err)) (map_option quotaRequestUrl (enterpriseQuotaRequestHintFromError err))"

section \<open>Interceptors\<close>

definition intercept_response :: "(string \<Rightarrow> jstr) \<Rightarrow> bool \<Rightarrow> jsval option \<Rightarrow> api_effect list" where
  "intercept_response t skipBusiness data =
     (if \<not> skipBusiness \<and> truthy_opt data \<and> get_prop_opt data ''success'' = Some (JBool False)
      then [ShowError (if truthy_opt (get_prop_opt data ''message'') then the (get_prop_opt data ''message'')
                       else JStr (t ''Request failed'')) None]
      else [])"

definition intercept_error :: "(string \<Rightarrow> jstr) \<Rightarrow> jstr option \<Rightarrow> jsval option \<Rightarrow> api_effect list" where
  "intercept_error t is_error err =
     (let skip = truthy_opt (get_prop_opt (get_prop_opt err ''config'') ''skipErrorHandler'');
          status = get_prop_opt (get_prop_opt err ''response'') ''status''
      in if status = Some (JNum (Fin 401))
         then [AuthReset] @ (if \<not> skip then [ShowError (JStr (t ''Session expired!'')) None] else [])
         else if \<not> skip then [showResponseErrorToast t is_error err] else [])"

section \<open>The user\<close>

text \<open>Strings by key. \<open>setUser\<close> writes before it changes the state; a write the browser refuses throws
  (\<open>accepts\<close>), which leaves both.\<close>

type_synonym browser_storage = "jstr \<Rightarrow> jstr option"

record auth_state =
  auth_user :: jsval
  auth_storage :: browser_storage

definition auth_init :: "browser_storage \<Rightarrow> auth_state" where
  "auth_init st =
     (case st (js ''user'') of
        None \<Rightarrow> \<lparr>auth_user = JNull, auth_storage = st\<rparr>
      | Some saved \<Rightarrow>
          if saved = [] then \<lparr>auth_user = JNull, auth_storage = st\<rparr>
          else case json_parse saved of
                 Some u \<Rightarrow> \<lparr>auth_user = u, auth_storage = st\<rparr>
               | None \<Rightarrow> \<lparr>auth_user = JNull, auth_storage = st(js ''user'' := None)\<rparr>)"

definition setUser :: "(jstr \<Rightarrow> bool) \<Rightarrow> jsval \<Rightarrow> auth_state \<Rightarrow> auth_state option" where
  "setUser accepts user a =
     (if truthy user
      then if accepts (stringify user)
           then Some (a\<lparr>auth_user := user, auth_storage := (auth_storage a)(js ''user'' \<mapsto> stringify user)\<rparr>)
           else None
      else Some (a\<lparr>auth_user := user, auth_storage := (auth_storage a)(js ''user'' := None)\<rparr>))"

definition auth_reset :: "auth_state \<Rightarrow> auth_state" where
  "auth_reset a = a\<lparr>auth_user := JNull, auth_storage := (auth_storage a)(js ''user'' := None)\<rparr>"

definition getUserId :: "browser_storage \<Rightarrow> jstr option" where
  "getUserId st = st (js ''uid'')"

definition getCommonHeaders :: "browser_storage \<Rightarrow> (jstr \<times> jstr) list" where
  "getCommonHeaders st =
     (let headers = [(js ''Content-Type'', js ''application/json'')]; uid = getUserId st
      in if truthy_str uid then obj_put (js ''New-Api-User'') (the uid) headers else headers)"

definition intercept_request :: "browser_storage \<Rightarrow> (jstr \<times> jstr) list \<Rightarrow> (jstr \<times> jstr) list" where
  "intercept_request st headers =
     (let uid = getUserId st in if truthy_str uid then obj_put (js ''New-Api-User'') (the uid) headers else headers)"

section \<open>The page of quota requests\<close>

definition positiveSearchNumber :: "jsval option \<Rightarrow> jnum option" where
  "positiveSearchNumber value =
     (if value = None \<or> value = Some JNull \<or> value = Some (JStr []) then None
      else let parsed = js_number (the value) in if isFinite parsed \<and> num_lt (Fin 0) parsed then Some parsed else None)"

text \<open>\<open>z.string().optional().catch('')\<close>.\<close>

definition search_text :: "jsval option \<Rightarrow> jstr option" where
  "search_text value = (case value of None \<Rightarrow> None | Some (JStr s) \<Rightarrow> Some s | _ \<Rightarrow> Some [])"

record quota_search =
  qs_request_quota :: "jstr option"
  qs_policy_id :: "jnum option"
  qs_project_id :: "jnum option"
  qs_limit_delta :: "jnum option"
  qs_reason :: "jstr option"

definition quotaRequestsSearchSchema :: "(jstr \<times> jsval) list \<Rightarrow> quota_search" where
  "quotaRequestsSearchSchema s =
     \<lparr>qs_request_quota = search_text (map_of s (js ''request_quota'')),
      qs_policy_id = positiveSearchNumber (map_of s (js ''policy_id'')),
      qs_project_id = positiveSearchNumber (map_of s (js ''project_id'')),
      qs_limit_delta = positiveSearchNumber (map_of s (js ''limit_delta'')),
      qs_reason = search_text (map_of s (js ''reason''))\<rparr>"

definition requestQuota :: "quota_search \<Rightarrow> bool" where
  "requestQuota s \<longleftrightarrow> qs_request_quota s = Some (js ''1'') \<or> qs_request_quota s = Some (js ''true'')"

text \<open>The effect on the parameters: the values the dialog is opened with, \<open>None\<close> when it stays closed.\<close>

definition opened_dialog :: "quota_search \<Rightarrow> quota_hint option" where
  "opened_dialog s =
     (if requestQuota s
      then Some \<lparr>qh_policyId = qs_policy_id s, qh_projectId = qs_project_id s, qh_limitDelta = qs_limit_delta s,
                 qh_reason = qs_reason s\<rparr>
      else None)"

end
