(* ===== verification/ApiClientProps.thy ===== *)
theory ApiClientProps
  imports ApiClient
begin

text \<open>
  Properties of the client: a GET request is shared only while it is open, the user survives a reload, and
  what becomes of the link that asks for quota.
\<close>

section \<open>Shared requests\<close>

definition key_of :: "api_client \<Rightarrow> nat \<Rightarrow> jstr" where
  "key_of st p = request_key (sr_url (requests st ! p)) (sr_config (requests st ! p))"

definition open_request :: "api_client \<Rightarrow> nat \<Rightarrow> bool" where
  "open_request st p \<longleftrightarrow> p < length (requests st) \<and> p \<notin> set (settled st) \<and> \<not> disableDuplicate (sr_config (requests st ! p))"

text \<open>The map holds exactly the open requests that may be shared.\<close>

definition client_ok :: "api_client \<Rightarrow> bool" where
  "client_ok st \<longleftrightarrow> (\<forall>k p. map_of (inFlightGet st) k = Some p \<longleftrightarrow> open_request st p \<and> key_of st p = k)
     \<and> (\<forall>p\<in>set (settled st). p < length (requests st))"

lemma not_open_yet [simp]: "\<not> open_request st (length (requests st))"
  by (simp add: open_request_def)

lemma open_unique: "client_ok st \<Longrightarrow> open_request st p \<Longrightarrow> open_request st q \<Longrightarrow> key_of st p = key_of st q \<Longrightarrow> p = q"
  unfolding client_ok_def by (metis option.inject)

lemma original_ok:
  assumes "originalGet url config st = (p, st')" and "client_ok st"
  shows "p = length (requests st)" and "p \<notin> set (settled st)" and "inFlightGet st' = inFlightGet st"
    and "settled st' = settled st" and "length (requests st') = Suc p" and "requests st' ! p = \<lparr>sr_promise = p, sr_url = url, sr_config = config\<rparr>"
    and "\<And>q. q < p \<Longrightarrow> requests st' ! q = requests st ! q"
  using assms by (auto simp: originalGet_def client_ok_def Let_def nth_append)

lemma get_cases:
  obtains (own) p st' where "disableDuplicate config" "originalGet url config st = (p, st')" "api_get url config st = (p, st')"
  | (join) p where "\<not> disableDuplicate config" "map_of (inFlightGet st) (request_key url config) = Some p"
      "api_get url config st = (p, st)"
  | (first) p st' where "\<not> disableDuplicate config" "map_of (inFlightGet st) (request_key url config) = None"
      "originalGet url config st = (p, st')" "api_get url config st = (p, st'\<lparr>inFlightGet := obj_put (request_key url config) p (inFlightGet st')\<rparr>)"
  by (cases "originalGet url config st"; cases "disableDuplicate config"; cases "map_of (inFlightGet st) (request_key url config)")
    (auto simp: api_get_def Let_def)

lemma get_ok: "client_ok st \<Longrightarrow> client_ok (snd (api_get url config st))"
proof -
  assume ok: "client_ok st"
  show ?thesis
  proof (cases rule: get_cases [of config url st])
    case (own p st')
    note o = original_ok [OF own(2) ok]
    have "open_request st' q \<and> key_of st' q = k \<longleftrightarrow> open_request st q \<and> key_of st q = k" for q k
      using own(1) o by (cases "q < p"; cases "q = p") (auto simp: open_request_def key_of_def)
    then show ?thesis using ok o own(3) by (auto simp: client_ok_def)
  next
    case (join p)
    then show ?thesis using ok by simp
  next
    case (first p st')
    note o = original_ok [OF first(3) ok]
    let ?st = "st'\<lparr>inFlightGet := obj_put (request_key url config) p (inFlightGet st')\<rparr>"
    have "open_request ?st q \<and> key_of ?st q = k \<longleftrightarrow>
        (if q = p then k = request_key url config else open_request st q \<and> key_of st q = k)" for q k
      using first(1) o by (cases "q < p"; cases "q = p") (auto simp: open_request_def key_of_def)
    moreover have "key_of st q \<noteq> request_key url config" if "open_request st q" for q
      using ok first(2) that unfolding client_ok_def by (metis option.distinct(1))
    ultimately show ?thesis using ok o first(4) by (auto simp: client_ok_def)
  qed
qed

lemma settle_ok:
  assumes "client_ok st" and "p < length (requests st)" and "p \<notin> set (settled st)"
  shows "client_ok (settle p st)"
proof -
  have r: "requests (settle p st) = requests st" "settled (settle p st) = p # settled st"
    by (simp_all add: settle_def Let_def)
  have opn: "open_request (settle p st) q \<longleftrightarrow> open_request st q \<and> q \<noteq> p" "key_of (settle p st) q = key_of st q" for q
    by (auto simp: open_request_def key_of_def r)
  have "map_of (inFlightGet (settle p st)) k = Some q \<longleftrightarrow> open_request st q \<and> q \<noteq> p \<and> key_of st q = k" for k q
  proof (cases "disableDuplicate (sr_config (requests st ! p))")
    case True
    then have "inFlightGet (settle p st) = inFlightGet st" "\<not> open_request st p" by (simp_all add: settle_def open_request_def Let_def)
    then show ?thesis using assms(1) by (auto simp: client_ok_def)
  next
    case False
    then have p: "open_request st p" using assms(2,3) by (simp add: open_request_def)
    then have "map_of (inFlightGet st) (key_of st p) = Some p" using assms(1) by (simp add: client_ok_def)
    moreover have "inFlightGet (settle p st) = obj_del (key_of st p) (inFlightGet st)" using False by (simp add: settle_def key_of_def Let_def)
    ultimately show ?thesis using assms(1) open_unique [OF assms(1) _ p] by (auto simp: client_ok_def)
  qed
  then show ?thesis using assms by (auto simp: client_ok_def opn r)
qed

lemma client_reachable: "client_step\<^sup>*\<^sup>* initial_client st \<Longrightarrow> client_ok st"
proof (induction rule: rtranclp_induct)
  case base
  show ?case by (simp add: client_ok_def initial_client_def open_request_def)
next
  case (step st st')
  from step.hyps(2) show ?case by cases (use step.IH get_ok settle_ok in auto)
qed

text \<open>C39 A GET request that may be shared is given the one open request for its address and parameters, its own
  or another's: never a second one beside it, and never an answer that came before it was made.\<close>

theorem get_shares_open_requests:
  assumes "client_step\<^sup>*\<^sup>* initial_client st" and "\<not> disableDuplicate config"
  shows "case api_get url config st of (p, st') \<Rightarrow>
     p \<notin> set (settled st') \<and> {q. open_request st' q \<and> key_of st' q = request_key url config} = {p}"
proof -
  have ok: "client_ok (snd (api_get url config st))" using get_ok client_reachable [OF assms(1)] by blast
  have "map_of (inFlightGet (snd (api_get url config st))) (request_key url config) = Some (fst (api_get url config st))"
    by (cases rule: get_cases [of config url st]) (use assms(2) in auto)
  with ok have "open_request (snd (api_get url config st)) q \<and> key_of (snd (api_get url config st)) q = request_key url config
      \<longleftrightarrow> q = fst (api_get url config st)" for q
    using open_unique [OF ok, of q "fst (api_get url config st)"] by (auto simp: client_ok_def)
  then show ?thesis by (auto simp: case_prod_unfold open_request_def)
qed

definition plain_config :: request_config where
  "plain_config = \<lparr>rc_params = None, disableDuplicate = False, skipErrorHandler = False\<rparr>"

lemma get_shares_open_requests_witness:
  "case api_get (js ''/api/status'') plain_config (snd (api_get (js ''/api/notice'') plain_config initial_client)) of (p, st') \<Rightarrow>
     p \<notin> set (settled st') \<and> {q. open_request st' q \<and> key_of st' q = request_key (js ''/api/status'') plain_config} = {p}"
proof (rule get_shares_open_requests)
  show "client_step\<^sup>*\<^sup>* initial_client (snd (api_get (js ''/api/notice'') plain_config initial_client))"
    by (rule r_into_rtranclp, rule client_step.Get)
  show "\<not> disableDuplicate plain_config" by (simp add: plain_config_def)
qed

text \<open>The key names the address and the parameters only: a request that asks not to be reported may be answered by
  one that is.\<close>

lemma joined_config_ignored:
  assumes "map_of (inFlightGet st) (request_key url config) = Some p" and "\<not> disableDuplicate config"
  shows "api_get url config st = (p, st)"
  using assms by (simp add: api_get_def Let_def)

section \<open>The user\<close>

lemma user_reloaded:
  assumes "setUser accepts user a = Some a'" and "truthy user" and "json_wf user"
  shows "auth_init (auth_storage a') = a'"
proof -
  have a: "a' = a\<lparr>auth_user := user, auth_storage := (auth_storage a)(js ''user'' \<mapsto> stringify user)\<rparr>"
    using assms(1,2) by (simp add: setUser_def split: if_splits)
  have p: "json_parse (stringify user) = Some user" by (rule json_parse_stringify [OF assms(3)])
  have "json_parse [] = None" by code_simp
  with p have "stringify user \<noteq> []" by auto
  then show ?thesis using p by (simp add: auth_init_def a)
qed

section \<open>The link that asks for quota\<close>

text \<open>The router reads the value of a parameter as JSON, and as a text where it is none.\<close>

definition json_or_text :: "jstr \<Rightarrow> jsval" where
  "json_or_text v = (case json_parse v of Some j \<Rightarrow> j | None \<Rightarrow> JStr v)"

definition reads_query :: "(jstr \<Rightarrow> (jstr \<times> jsval) list) \<Rightarrow> (jstr \<times> jstr) list \<Rightarrow> bool" where
  "reads_query router ps \<longleftrightarrow> map_of (router (form_encode ps)) = map_option json_or_text \<circ> map_of ps"

lemma positive_truthy: "isFinite n \<Longrightarrow> num_lt (Fin 0) n \<Longrightarrow> truthy (JNum n)"
  by (cases n) (auto simp: isFinite_def truthy_num_def)

lemma number_read: "num_ok n \<Longrightarrow> isFinite n \<Longrightarrow> json_or_text (num_str n) = JNum n"
  using json_parse_stringify [of "JNum n"] by (simp add: json_or_text_def)

lemma hint_numbers:
  "enterpriseQuotaRequestHintFromError err = Some hint \<Longrightarrow>
     \<exists>x y z. qh_policyId hint = positiveNumber x \<and> qh_projectId hint = positiveNumber y \<and> qh_limitDelta hint = positiveNumber z"
  unfolding enterpriseQuotaRequestHintFromError_def Let_def
  by (simp only: option.case_eq_if if_distrib split: if_split_asm) (auto)

lemma param_keys: "distinct [js ''request_quota'', js ''policy_id'', js ''project_id'', js ''limit_delta'', js ''reason'']"
  by code_simp

lemma number_param_positive:
  "map_of (number_param k (positiveNumber x)) k' = (if k' = js k then map_option num_str (positiveNumber x) else None)"
proof -
  have "truthy (JNum n)" if "positiveNumber x = Some n" for n
    using that by (intro positive_truthy) (simp_all add: positiveNumber_def Let_def split: if_splits)
  then show ?thesis by (cases "positiveNumber x") (simp_all add: number_param_def)
qed

lemma hint_params:
  assumes "enterpriseQuotaRequestHintFromError err = Some hint"
  shows "map_of (quota_params hint) (js ''policy_id'') = map_option num_str (qh_policyId hint)"
    and "map_of (quota_params hint) (js ''project_id'') = map_option num_str (qh_projectId hint)"
    and "map_of (quota_params hint) (js ''limit_delta'') = map_option num_str (qh_limitDelta hint)"
proof -
  obtain x y z where n: "qh_policyId hint = positiveNumber x" "qh_projectId hint = positiveNumber y"
    "qh_limitDelta hint = positiveNumber z"
    using hint_numbers [OF assms] by blast
  show "map_of (quota_params hint) (js ''policy_id'') = map_option num_str (qh_policyId hint)"
    "map_of (quota_params hint) (js ''project_id'') = map_option num_str (qh_projectId hint)"
    "map_of (quota_params hint) (js ''limit_delta'') = map_option num_str (qh_limitDelta hint)"
    unfolding n using param_keys
    by (simp_all add: quota_params_def n number_param_positive map_add_def split: option.split)
qed

lemma positive_read:
  assumes "v = map_option (json_or_text \<circ> num_str) n" and "n = positiveNumber x" and "\<forall>m\<in>set_option n. num_ok m"
  shows "positiveSearchNumber v = n"
proof (cases n)
  case (Some m)
  then have m: "isFinite m" "num_lt (Fin 0) m" using assms(2) by (simp_all add: positiveNumber_def Let_def split: if_splits)
  then have "json_or_text (num_str m) = JNum m" using number_read assms(3) Some by simp
  then show ?thesis using m Some assms(1) by (simp add: positiveSearchNumber_def Let_def)
qed (simp add: assms(1) positiveSearchNumber_def)

text \<open>C40 The link an exceeded quota offers does not open the dialog it asks for. Its numbers, the policy, the
  project and the amount, are read back from the address, but so is the 1 of \<open>request_quota\<close>, which the page
  accepts as a text only.\<close>

theorem quota_link_opens_nothing:
  assumes "enterpriseQuotaRequestHintFromError err = Some hint" and "reads_query router (quota_params hint)"
    and "\<forall>n \<in> set_option (qh_policyId hint) \<union> set_option (qh_projectId hint) \<union> set_option (qh_limitDelta hint). num_ok n"
  shows "let s = quotaRequestsSearchSchema (router (form_encode (quota_params hint)))
     in qs_policy_id s = qh_policyId hint \<and> qs_project_id s = qh_projectId hint \<and> qs_limit_delta s = qh_limitDelta hint
      \<and> opened_dialog s = None"
proof -
  let ?r = "router (form_encode (quota_params hint))"
  have r: "map_of ?r k = map_option json_or_text (map_of (quota_params hint) k)" for k
    using assms(2) by (simp add: reads_query_def)
  have "map_of (quota_params hint) (js ''request_quota'') = Some (js ''1'')" by (simp add: quota_params_def)
  moreover have one: "json_or_text (js ''1'') = JNum (Fin 1)" "js ''1'' \<noteq> []" "js ''true'' \<noteq> []" by code_simp+
  ultimately have "search_text (map_of ?r (js ''request_quota'')) = Some []" by (simp add: r search_text_def)
  then have "opened_dialog (quotaRequestsSearchSchema ?r) = None"
    using one by (simp add: opened_dialog_def requestQuota_def quotaRequestsSearchSchema_def)
  moreover obtain x y z where n: "qh_policyId hint = positiveNumber x" "qh_projectId hint = positiveNumber y"
    "qh_limitDelta hint = positiveNumber z"
    using hint_numbers [OF assms(1)] by blast
  have "positiveSearchNumber (map_of ?r (js ''policy_id'')) = qh_policyId hint"
    by (rule positive_read [OF _ n(1)]) (simp_all add: r hint_params [OF assms(1)] option.map_comp assms(3))
  moreover have "positiveSearchNumber (map_of ?r (js ''project_id'')) = qh_projectId hint"
    by (rule positive_read [OF _ n(2)]) (simp_all add: r hint_params [OF assms(1)] option.map_comp assms(3))
  moreover have "positiveSearchNumber (map_of ?r (js ''limit_delta'')) = qh_limitDelta hint"
    by (rule positive_read [OF _ n(3)]) (simp_all add: r hint_params [OF assms(1)] option.map_comp assms(3))
  ultimately show ?thesis by (simp add: quotaRequestsSearchSchema_def Let_def)
qed

definition sample_error :: "jsval option" where
  "sample_error =
     (let o1 = (\<lambda>k v. JObj [(js k, v)]) in
      Some (o1 ''response'' (o1 ''data'' (o1 ''error''
        (JObj [(js ''code'', JStr (js ''enterprise_governance_quota_exceeded'')),
               (js ''metadata'', o1 ''quota_request_hint'' (JObj [(js ''policy_id'', JNum (Fin 3)), (js ''limit_delta'', JNum (Fin 5000))]))])))))"

definition sample_hint :: quota_hint where
  "sample_hint = \<lparr>qh_policyId = Some (Fin 3), qh_projectId = None, qh_limitDelta = Some (Fin 5000), qh_reason = None\<rparr>"

text \<open>A router for plain texts.\<close>

definition plain_router :: "jstr \<Rightarrow> (jstr \<times> jsval) list" where
  "plain_router q = map (\<lambda>p. (hd (split_str [61] p), json_or_text (last (split_str [61] p)))) (split_str [38] q)"

lemma quota_link_opens_nothing_witness:
  "let s = quotaRequestsSearchSchema (plain_router (form_encode (quota_params sample_hint)))
   in qs_policy_id s = qh_policyId sample_hint \<and> qs_project_id s = qh_projectId sample_hint
    \<and> qs_limit_delta s = qh_limitDelta sample_hint \<and> opened_dialog s = None"
proof (rule quota_link_opens_nothing)
  show "enterpriseQuotaRequestHintFromError sample_error = Some sample_hint" by code_simp
  have "plain_router (form_encode (quota_params sample_hint)) = map (\<lambda>(k, v). (k, json_or_text v)) (quota_params sample_hint)"
    by code_simp
  then show "reads_query plain_router (quota_params sample_hint)" by (simp add: reads_query_def map_of_map fun_eq_iff)
  show "\<forall>n \<in> set_option (qh_policyId sample_hint) \<union> set_option (qh_projectId sample_hint) \<union> set_option (qh_limitDelta sample_hint). num_ok n"
    by code_simp
qed

text \<open>As a text it would have opened the dialog.\<close>

lemma opened_by_text:
  assumes "map_of s (js ''request_quota'') = Some (JStr (js ''1''))"
  shows "opened_dialog (quotaRequestsSearchSchema s) \<noteq> None"
  using assms by (simp add: opened_dialog_def requestQuota_def quotaRequestsSearchSchema_def search_text_def)

end
