(* ===== verification/Spec2Isabelle.thy ===== *)
theory Spec2Isabelle
  imports ChatFlow PlaygroundStore StatusCodes ModelMapping ChannelFormProps ChannelUtilsProps
    BillingRules TierExprProps ParamEditorProps SecureVerificationProps
    NotificationsProps SidebarProps PasskeyProps TableStateProps SettingsFormProps
    UpstreamUpdatesProps ChatLinksProps ApiClientProps
begin

text \<open>
  A verification library for the web console of the data proxy (\<open>web/default/src\<close>): the chat
  playground, the administration of upstream channels, the visual editors that print and
  parse the texts the server runs (status code rules, request rules, tiered prices, parameter
  overrides), and the hooks behind secure verification, passkeys, notifications, navigation, tables,
  settings and chat links. File names below are relative to \<open>web/default/src\<close>. Where two files use one name, one definition has a
  suffix: \<open>normalizeCondition_override\<close>, \<open>parseHeaderNavModules_admin\<close>.

  \<^bold>\<open>Language.\<close> \<open>Prelude\<close>, \<open>JsString\<close>, \<open>JsNumber\<close>, \<open>JsDecimal\<close>, \<open>JsJson\<close>, \<open>JsPretty\<close>, \<open>JsDate\<close>,
  \<open>JsRegex\<close> and \<open>JsRegexScan\<close> model what the sources use of JavaScript. A string is a list of UTF-16
  code units (\<open>js\<close> turns a literal into one); a number is an exact rational rounded to binary64, or NaN
  or an infinity; an object is its list of properties in insertion order, enumerated as \<open>Object.keys\<close>
  does; \<open>json_parse\<close>, \<open>stringify\<close> and \<open>pretty\<close> follow the grammar of JSON and invert each other; a
  regular expression is a term whose matcher lists the ways to match in the order a backtracking engine
  tries them. Exceptions are \<open>None\<close> or a constructor of their own (\<open>Throws\<close>), \<open>undefined\<close> is \<open>None\<close>.

  \<^bold>\<open>The playground.\<close> The page holds messages and settings in a hook
  (\<open>use-playground-state.ts\<close>) backed by the browser's storage (\<open>storage.ts\<close>). Sending a message
  builds a payload (\<open>payload-builder.ts\<close>) and starts a request in the chat handler
  (\<open>use-chat-handler.ts\<close>), either through the streaming hook (\<open>use-stream-request.ts\<close>) or as
  one request (\<open>api.ts\<close>); its callbacks update the last assistant message with the helpers of
  \<open>message-utils.ts\<close>.
  \<^item> \<open>PlaygroundTypes\<close>: the records of \<open>types.ts\<close>, the constants of \<open>constants.ts\<close>.
  \<^item> \<open>MessageUtils\<close>: \<open>parseThinkTags\<close> and its specification, streaming accumulation,
    finalisation, errors, and \<open>sanitizeMessagesOnLoad\<close>.
  \<^item> \<open>PayloadBuilder\<close>: both request bodies and their agreement.
  \<^item> \<open>StreamRequest\<close>: the refs of the hook as \<open>stream_state\<close>, each listener of the event source
    as a function of that state; callbacks and calls of the source are a trace tagged by
    request. \<open>StreamRuns\<close>: the step relation of a hook that sends, receives, stops and sends
    again, its invariant, and what callbacks a
    request can get: one error at most, and one outcome unless its source still passes messages on.
  \<^item> \<open>ChatHandler\<close>: the callbacks as functions of the message list. \<open>ChatFlow\<close> composes both
    halves: what a run of the stream leaves in the list, also when it is stopped or fails, and what a
    request without streaming does, whose updater throws for content that is no text.
  \<^item> \<open>PlaygroundJson\<close>: messages as JSON and back. \<open>PlaygroundStore\<close>: the storage functions, the
    state hook, and what survives a reload.

  \<^bold>\<open>Channels.\<close> \<open>ChannelTypes\<close> (\<open>types.ts\<close>, \<open>constants.ts\<close>, \<open>channel-type-config.ts\<close>) is the data
  of a channel.
  \<^item> \<open>ChannelForm\<close> (\<open>channel-form.ts\<close>), with its properties in \<open>ChannelFormProps\<close>: the form that edits
    one, its validation and the payloads it sends.
  \<^item> \<open>ChannelUtils\<close> (\<open>channel-utils.ts\<close>, \<open>multi-key-utils.ts\<close>, \<open>ollama-utils.ts\<close>), with
    \<open>ChannelUtilsProps\<close>: the helpers of the list, and the rows of tag mode.
  \<^item> \<open>ModelMapping\<close> (\<open>model-mapping-validation.ts\<close>, \<open>upstream-update-utils.ts\<close>): the model list and
    mapping.
  \<^item> \<open>StatusCodes\<close> (\<open>http-status-code-rules.ts\<close>, \<open>status-code-risk-guard.ts\<close>): the rules on
    status codes, their canonical form and the codes they decide on.
  \<^item> \<open>ParamOverride\<close> and \<open>ParamEditor\<close> (\<open>param-override-editor-dialog.tsx\<close>), with \<open>ParamOverrideProps\<close>
    and \<open>ParamEditorProps\<close>: the rules as printed, read and checked, and the state of the editor with
    its handlers; what of a rule
    survives printing (its settled form), which rules come back as they were, that modes stay among
    the defined ones and identifiers unique.
  \<^item> \<open>UpstreamUpdates\<close> (\<open>use-channel-upstream-updates.ts\<close>, \<open>upstream-update-dialog.tsx\<close>), with
    \<open>UpstreamUpdatesProps\<close>: the four operations on models found upstream, split where they await, the
    dialog that selects models and keeps its selection when it is opened again, and the page as a step
    relation in which answers and clicks interleave.

  \<^bold>\<open>Prices.\<close> \<open>BillingExpr\<close> and \<open>BillingRules\<close> (\<open>features/pricing/lib/billing-expr.ts\<close>): the request
  rules of a billing expression, their printer and parser, the conditions the parser reads
  back and those it loses, and the parentheses that are taken off. \<open>TierExpr\<close> and \<open>TierExprProps\<close> (\<open>tier-expr.ts\<close>): the tiers of the
  visual price editor, printed, and parsed by the editor and by the price
  table; \<open>printed_tiers\<close> says what of the tiers gets into the text.

  \<^bold>\<open>Verification and passkeys.\<close> \<open>SecureVerification\<close> (\<open>use-secure-verification.ts\<close>, \<open>api.ts\<close>,
  \<open>lib/secure-verification.ts\<close>) is a hook whose asynchronous calls are tasks that wait for answers;
  \<open>SecureVerificationProps\<close> shows that a protected call is tried once without a verification at most and
  otherwise follows one that succeeded, and that every started verification settles. \<open>Passkey\<close> (\<open>lib/passkey.ts\<close>, \<open>verifyPasskey\<close>,
  \<open>use-passkey-management.ts\<close>) is the ceremony it may use: buffers as texts, the requests in order;
  \<open>PasskeyProps\<close> has their round trip, the texts that decode, and the order of the ceremony.

  \<^bold>\<open>The frame of the console.\<close>
  \<^item> \<open>ApiClient\<close> (\<open>lib/api.ts\<close>, \<open>auth-store.ts\<close>, the page of quota requests), with \<open>ApiClientProps\<close>: open
    GET requests are shared and settled ones are not; the messages of errors, and the link that asks
    for quota, followed to the page it opens.
  \<^item> \<open>Notifications\<close> (\<open>notification-store.ts\<close>, \<open>use-notifications.ts\<close>), with \<open>NotificationsProps\<close>: what is
    unread, what pops up, and what marking does to both.
  \<^item> \<open>NavModules\<close> (\<open>nav-modules.ts\<close>, \<open>use-top-nav-links.ts\<close>, the guards of the routes) and \<open>NavConfig\<close>
    (\<open>maintenance/config.ts\<close>), with \<open>NavProps\<close>: the same configuration read by the visitor, the guard and
    the administrator. \<open>SidebarConfig\<close> (\<open>use-sidebar-config.ts\<close>), with \<open>SidebarProps\<close>: the items both the
    administrator and the user admit, and where the readers of one configuration differ.
  \<^item> \<open>TableState\<close> (\<open>use-table-url-state.ts\<close>), with \<open>TableStateProps\<close>: pages and filters of a table kept in
    the address.
  \<^item> \<open>SettingsForm\<close> (\<open>use-settings-form.ts\<close>, \<open>use-update-option.ts\<close>, \<open>use-system-options.ts\<close>,
    \<open>quota-settings-section.tsx\<close>), with \<open>SettingsFormProps\<close>: the object dotted defaults
    become and its flattening, what a submission sends, and what becomes of an update the server refuses.
  \<^item> \<open>ChatLinks\<close> (\<open>chat-links.ts\<close>), with \<open>ChatLinksProps\<close>: presets of chat clients, what each client reads
    from its link, and the links the key stays out of.

  \<^bold>\<open>Interfaces.\<close> Each locale states what a client needs and is interpreted on the model's own
  operations: \<open>last_updater\<close> (a function of the last message: \<open>MessageUtils\<close>), \<open>bounded_log\<close> (a
  log with a cap and a count: the chunks of \<open>StreamRuns\<close>), \<open>storage_slot\<close> (a key of the storage
  that is saved and loaded: settings, switches and messages in \<open>PlaygroundStore\<close>), \<open>keyed_rows\<close>
  (one row per key: the rows of tag mode in \<open>ChannelUtilsProps\<close>), \<open>tier_scanner\<close> (a search
  that finds every printed tier: both parsers in \<open>TierExprProps\<close>), \<open>id_source\<close> (fresh identifiers from a
  counter: conditions and operations in \<open>ParamEditorProps\<close>), \<open>filter_codec\<close> and its extension
  \<open>stable_codec\<close> (transformers of a filter, and those whose values settle: four callers in
  \<open>TableStateProps\<close>) and \<open>guarded_start\<close> (an operation that takes a free reference or changes none: the
  four of \<open>UpstreamUpdatesProps\<close>).

  \<^bold>\<open>Bounds and fuel.\<close> \<open>json_parse\<close> runs with fuel \<open>2 * length s + 1\<close>, and \<open>pval_fuel\<close> shows that a
  value never needs more. The star of a regular expression is bounded by the length of the
  rest, since an empty iteration ends it. The printer of numbers tries up to 17 digits, which
  determine a binary64 value, and looks past up to 400 leading zeros, more than the smallest
  one has. The 200 stored and 20 persisted stream chunks are the constants of the source. The hash of an
  announcement is computed on words of 32 bits.

  \<^bold>\<open>Hypotheses.\<close> \<open>num_ok\<close> says that the digits found for a number round back to it; it is
  decidable and each witness evaluates it. \<open>json_wf\<close> asks it of the numbers of a value, and that
  objects have distinct keys in enumeration order. \<open>accepts\<close> is the browser's decision on a
  write to its storage. What \<open>sse.js\<close>, the HTTP client, \<open>nanoid\<close>, the clock, the form library, the router
  and the translator return are arguments; translated texts are not empty where a property says so.
  Nothing is assumed of when \<open>sse.js\<close> calls the listeners of a source, also after it was closed, but that
  it calls none once the next request was sent: \<open>close\<close> aborts the request, so that only events of a
  batch that had arrived can follow. \<open>onMessageUpdate\<close> runs its updater while React renders, outside of
  the handlers' \<open>try\<close>.
  \<open>reads_query\<close> says that the router reads the values of a query as JSON, and as texts where they are none.
  Keys of configurations are no names that every object inherits. \<open>atob\<close>, \<open>btoa\<close> and
  \<open>encodeURIComponent\<close> are defined as their standards have them. Callbacks a caller hands to a hook do
  not throw unless their failure is an argument.

  \<^bold>\<open>Not modelled.\<close> The Go server and the other packages of the repository; React rendering and the
  pages without logic of their own, among them the large tables and dialogs of the enterprise, subsites and
  MCP administration, the dashboards, logs, wallets and users, which are fields, columns and HTTP calls; the
  sign-in pages; the schema library (its rules are predicates), translations, toasts beyond those that
  are results, formatters of dates and currencies, \<open>localeCompare\<close>, full Unicode case mapping
  (and with it \<open>normalizeTierLabel\<close>), and \<open>evalExprLocally\<close>, which hands a text to \<open>new Function\<close>.
  An event of the source carries a string; a stored array of values that are no messages, which
  the source casts unchecked, has no meaning here; the two zeros are one value; two references to one
  object are one value.
\<close>

end
